(* ===== verification/Prelude.thy ===== *)
theory Prelude
  imports Complex_Main "HOL-Library.AList" "HOL-Library.Char_ord" "HOL-Library.List_Lexorder"
begin

text \<open>
  Shared vocabulary of the development: the Python values the program passes
  around, the errors it raises, the string and list operations of the Python
  standard library that it uses, and the interface that every keyed store of the
  program (dictionaries, the tool registry, the session cache) satisfies.

  Conventions. A Python \<open>str\<close> is a \<^typ>\<open>string\<close>, a list of 8-bit
  characters: code points above 255 are outside the model, and \<open>str.lower\<close> is
  modelled on the ASCII letters. A Python \<open>float\<close> is an exact rational, so
  rounding to 53 bits and the special values are outside the model, except where a
  definition names them. A \<open>dict\<close> is an association list in insertion order with
  distinct keys. An exception is the left summand of \<open>'a res\<close>.
\<close>

subsection \<open>Lemma collections\<close>

named_theorems str_simps \<open>computation rules of the string operations\<close>
named_theorems dict_simps \<open>lookup rules of the dictionary operations\<close>
named_theorems res_simps \<open>rules of the error monad\<close>

subsection \<open>Python values\<close>

datatype pyval =
    PNone
  | PBool bool
  | PInt int
  | PFloat rat
  | PStr string
  | PList "pyval list"
  | PDict "(string \<times> pyval) list"

type_synonym pydict = "(string \<times> pyval) list"

text \<open>\<open>bool(v)\<close>.\<close>

fun truthy :: "pyval \<Rightarrow> bool" where
  "truthy PNone = False"
| "truthy (PBool b) = b"
| "truthy (PInt i) = (i \<noteq> 0)"
| "truthy (PFloat q) = (q \<noteq> 0)"
| "truthy (PStr s) = (s \<noteq> [])"
| "truthy (PList xs) = (xs \<noteq> [])"
| "truthy (PDict d) = (d \<noteq> [])"

text \<open>\<open>isinstance(v, str)\<close>, \<open>isinstance(v, bool)\<close>, \<open>isinstance(v, dict)\<close> and
  \<open>isinstance(v, list)\<close>; \<open>is_py_int\<close> is \<open>isinstance(v, int)\<close>, true of booleans
  too, as in Python.\<close>

fun is_py_str :: "pyval \<Rightarrow> bool" where
  "is_py_str (PStr _) = True"
| "is_py_str _ = False"

fun is_py_bool :: "pyval \<Rightarrow> bool" where
  "is_py_bool (PBool _) = True"
| "is_py_bool _ = False"

fun is_py_int :: "pyval \<Rightarrow> bool" where
  "is_py_int (PInt _) = True"
| "is_py_int (PBool _) = True"
| "is_py_int _ = False"

fun is_py_dict :: "pyval \<Rightarrow> bool" where
  "is_py_dict (PDict _) = True"
| "is_py_dict _ = False"

fun is_py_list :: "pyval \<Rightarrow> bool" where
  "is_py_list (PList _) = True"
| "is_py_list _ = False"

subsection \<open>Errors\<close>

text \<open>The exceptions the modelled code raises. The string is the literal part of the
  message, without the formatted values.\<close>

datatype err =
    ValueError string
  | TypeError string
  | RuntimeError string
  | SimulateError string
  | KeyError string
  | IndexError string
  | OSError string
  | PermissionError string
  | AttributeError string
  | AssertionError string
  | SubprocessError string
  | SystemExit string

type_synonym 'a res = "err + 'a"

definition rbind :: "'a res \<Rightarrow> ('a \<Rightarrow> 'b res) \<Rightarrow> 'b res" where
  "rbind m f = (case m of Inl e \<Rightarrow> Inl e | Inr x \<Rightarrow> f x)"

lemma rbind_simps [simp]:
  "rbind (Inl e) f = Inl e" "rbind (Inr x) f = f x"
  by (simp_all add: rbind_def)

lemma rbind_eq_Inr [res_simps]: "rbind m f = Inr y \<longleftrightarrow> (\<exists>x. m = Inr x \<and> f x = Inr y)"
  by (cases m) simp_all

lemma rbind_eq_Inl [res_simps]:
  "rbind m f = Inl e \<longleftrightarrow> m = Inl e \<or> (\<exists>x. m = Inr x \<and> f x = Inl e)"
  by (cases m) simp_all

lemma rbind_assoc: "rbind (rbind m f) g = rbind m (\<lambda>x. rbind (f x) g)"
  by (cases m) simp_all

lemma rbind_cong [fundef_cong]:
  "m = m' \<Longrightarrow> (\<And>x. m' = Inr x \<Longrightarrow> f x = g x) \<Longrightarrow> rbind m f = rbind m' g"
  by (cases m') simp_all

text \<open>A loop whose body may raise: the first error ends it.\<close>

fun rmap :: "('a \<Rightarrow> 'b res) \<Rightarrow> 'a list \<Rightarrow> 'b list res" where
  "rmap f [] = Inr []"
| "rmap f (x # xs) = rbind (f x) (\<lambda>y. rbind (rmap f xs) (\<lambda>ys. Inr (y # ys)))"

fun rfold :: "('a \<Rightarrow> 'b \<Rightarrow> 'b res) \<Rightarrow> 'a list \<Rightarrow> 'b \<Rightarrow> 'b res" where
  "rfold f [] s = Inr s"
| "rfold f (x # xs) s = rbind (f x s) (rfold f xs)"

lemma rmap_length: "rmap f xs = Inr ys \<Longrightarrow> length ys = length xs"
  by (induction xs arbitrary: ys) (auto simp: res_simps)

lemma rmap_nth: "rmap f xs = Inr ys \<Longrightarrow> i < length xs \<Longrightarrow> f (xs ! i) = Inr (ys ! i)"
  by (induction xs arbitrary: ys i) (auto simp: res_simps nth_Cons split: nat.splits)

lemma rmap_ok: "(\<And>x. x \<in> set xs \<Longrightarrow> f x = Inr (g x)) \<Longrightarrow> rmap f xs = Inr (map g xs)"
  by (induction xs) auto

lemma rfold_append: "rfold f (xs @ ys) s = rbind (rfold f xs s) (rfold f ys)"
proof (induction xs arbitrary: s)
  case (Cons x xs)
  show ?case by (cases "f x s") (simp_all add: Cons.IH)
qed simp

lemma rfold_invariant:
  assumes "rfold f xs s = Inr t" and "P s"
    and "\<And>x u v. x \<in> set xs \<Longrightarrow> P u \<Longrightarrow> f x u = Inr v \<Longrightarrow> P v"
  shows "P t"
  using assms
proof (induction xs arbitrary: s)
  case (Cons x xs)
  then obtain u where u: "f x s = Inr u" and rest: "rfold f xs u = Inr t"
    by (auto simp: rbind_eq_Inr)
  have "P u" using Cons.prems(2) u by (rule Cons.prems(3) [rotated]) simp
  show ?case by (rule Cons.IH [OF rest \<open>P u\<close>]) (use Cons.prems(3) in auto)
qed simp

subsection \<open>Keyed stores\<close>

text \<open>
  The interface of everything the program looks up by key: it promises what a lookup
  returns after an insertion and after a removal. The interpretations below and in the
  component theories discharge the two laws for the code's own stores.
\<close>

locale keyed_store =
  fixes get :: "'s \<Rightarrow> 'k \<Rightarrow> 'v option"
    and put :: "'k \<Rightarrow> 'v \<Rightarrow> 's \<Rightarrow> 's"
    and remove :: "'k \<Rightarrow> 's \<Rightarrow> 's"
  assumes get_put: "get (put k v s) = (get s)(k \<mapsto> v)"
    and get_remove: "get (remove k s) = (get s)(k := None)"
begin

lemma get_put_same [simp]: "get (put k v s) k = Some v"
  by (simp add: get_put)

lemma get_put_other: "j \<noteq> k \<Longrightarrow> get (put k v s) j = get s j"
  by (simp add: get_put)

lemma get_remove_same [simp]: "get (remove k s) k = None"
  by (simp add: get_remove)

lemma put_put: "get (put k v (put k w s)) = get (put k v s)"
  by (simp add: get_put)

lemma put_commute: "j \<noteq> k \<Longrightarrow> get (put j v (put k w s)) = get (put k w (put j v s))"
  by (simp add: get_put fun_upd_twist)

lemma remove_put: "get s k = None \<Longrightarrow> get (remove k (put k v s)) = get s"
  by (auto simp: get_put get_remove)

lemma fold_put:
  "get (fold (\<lambda>(k, v). put k v) kvs s) = (get s)(map fst kvs [\<mapsto>] map snd kvs)"
  by (induction kvs arbitrary: s) (auto simp: get_put)

lemma fold_put_none: "k \<notin> fst ` set kvs \<Longrightarrow> get (fold (\<lambda>(k, v). put k v) kvs s) k = get s k"
  by (induction kvs arbitrary: s) (auto simp: get_put)

lemma fold_remove:
  "get (fold remove ks s) = (\<lambda>k. if k \<in> set ks then None else get s k)"
  by (induction ks arbitrary: s) (auto simp: get_remove fun_eq_iff)

lemma dom_put: "dom (get (put k v s)) = insert k (dom (get s))"
  by (simp add: get_put)

end

text \<open>Python dictionaries: \<open>d.get(k)\<close>, \<open>d[k] = v\<close> (in place when the key is present,
  else at the end), \<open>d.pop(k, None)\<close>, \<open>d.update(e)\<close>.\<close>

definition dget :: "('k \<times> 'v) list \<Rightarrow> 'k \<Rightarrow> 'v option" where
  "dget d k = map_of d k"

definition dput :: "'k \<Rightarrow> 'v \<Rightarrow> ('k \<times> 'v) list \<Rightarrow> ('k \<times> 'v) list" where
  "dput k v d = AList.update k v d"

definition dpop :: "'k \<Rightarrow> ('k \<times> 'v) list \<Rightarrow> ('k \<times> 'v) list" where
  "dpop k d = filter (\<lambda>p. fst p \<noteq> k) d"

definition dupdate :: "('k \<times> 'v) list \<Rightarrow> ('k \<times> 'v) list \<Rightarrow> ('k \<times> 'v) list" where
  "dupdate d e = fold (\<lambda>(k, v). dput k v) e d"

abbreviation dkeys :: "('k \<times> 'v) list \<Rightarrow> 'k list" where
  "dkeys d \<equiv> map fst d"

abbreviation dict_ok :: "('k \<times> 'v) list \<Rightarrow> bool" where
  "dict_ok d \<equiv> distinct (map fst d)"

lemma dget_filter_ne: "map_of (filter (\<lambda>p. fst p \<noteq> k) d) = (map_of d)(k := None)"
  by (induction d) (auto simp: fun_eq_iff)

interpretation dict: keyed_store dget dput dpop
  by unfold_locales (simp_all add: dget_def dput_def dpop_def update_conv' dget_filter_ne fun_eq_iff)

lemmas dict_lookup [simp, dict_simps] =
  dict.get_put_same dict.get_put_other dict.get_remove_same

lemma dget_Nil [simp]: "dget [] k = None"
  by (simp add: dget_def)

lemma dget_Cons [simp]: "dget ((j, v) # d) k = (if j = k then Some v else dget d k)"
  by (simp add: dget_def)

lemma dget_append: "dget (d @ e) k = (case dget d k of None \<Rightarrow> dget e k | Some v \<Rightarrow> Some v)"
  by (simp add: dget_def map_add_def split: option.splits)

lemma dput_Nil [simp]: "dput k v [] = [(k, v)]"
  by (simp add: dput_def)

lemma dput_Cons [simp]:
  "dput k v ((j, w) # d) = (if j = k then (j, v) # d else (j, w) # dput k v d)"
  by (simp add: dput_def)

lemma dict_ok_dput [simp]: "dict_ok d \<Longrightarrow> dict_ok (dput k v d)"
  by (simp add: dput_def distinct_update)

lemma dict_ok_dpop [simp]: "dict_ok d \<Longrightarrow> dict_ok (dpop k d)"
  by (induction d) (auto simp: dpop_def)

lemma set_dkeys_dput [simp]: "set (dkeys (dput k v d)) = insert k (set (dkeys d))"
  by (induction d) (auto simp: dput_def)

lemma set_dkeys_dpop [simp]: "set (dkeys (dpop k d)) = set (dkeys d) - {k}"
  by (auto simp: dpop_def)

lemma image_fst_dput [simp]: "fst ` set (dput k v d) = insert k (fst ` set d)"
  using set_dkeys_dput [of k v d] by simp

lemma image_fst_dpop [simp]: "fst ` set (dpop k d) = fst ` set d - {k}"
  using set_dkeys_dpop [of k d] by simp

lemma dget_None_iff: "dget d k = None \<longleftrightarrow> k \<notin> set (dkeys d)"
  by (simp add: dget_def map_of_eq_None_iff image_iff)

lemma dget_SomeD: "dget d k = Some v \<Longrightarrow> (k, v) \<in> set d"
  by (simp add: dget_def map_of_SomeD)

lemma dget_eq_Some_iff: "dict_ok d \<Longrightarrow> dget d k = Some v \<longleftrightarrow> (k, v) \<in> set d"
  by (simp add: dget_def)

lemma dupdate_ok [simp]: "dict_ok d \<Longrightarrow> dict_ok (dupdate d e)"
  unfolding dupdate_def by (induction e arbitrary: d) auto

lemma dget_dupdate:
  "dict_ok e \<Longrightarrow> dget (dupdate d e) k = (case dget e k of None \<Rightarrow> dget d k | Some v \<Rightarrow> Some v)"
  unfolding dupdate_def
proof (induction e arbitrary: d)
  case Nil
  then show ?case by simp
next
  case (Cons kv e)
  obtain j w where kv: "kv = (j, w)" by force
  have "dget e j = None" using Cons.prems kv by (simp add: dget_None_iff)
  then show ?case
    using Cons kv by (auto simp: dict.get_put split: option.splits)
qed

text \<open>\<open>data.get(key)\<close> as a Python value: an absent key reads as \<open>None\<close>.\<close>

definition pget :: "pydict \<Rightarrow> string \<Rightarrow> pyval" where
  "pget d k = (case dget d k of None \<Rightarrow> PNone | Some v \<Rightarrow> v)"

text \<open>\<open>data.get(key, default)\<close>.\<close>

definition pget_or :: "pydict \<Rightarrow> string \<Rightarrow> pyval \<Rightarrow> pyval" where
  "pget_or d k v = (case dget d k of None \<Rightarrow> v | Some w \<Rightarrow> w)"

lemma dput_new: "k \<notin> set (dkeys d) \<Longrightarrow> dput k v d = d @ [(k, v)]"
  by (induction d) auto

lemma dict_ok_sort_key [simp]: "dict_ok (sort_key fst d) \<longleftrightarrow> dict_ok d"
  for d :: "('k::linorder \<times> 'v) list"
  by (metis distinct_map distinct_sort set_sort sorted_sort_key)

lemma dget_sort_key: "dict_ok d \<Longrightarrow> dget (sort_key fst d) k = dget d k"
  for d :: "('k::linorder \<times> 'v) list"
  by (simp add: dget_def map_of_inject_set [of "sort_key fst d" d, THEN iffD2])

lemma dget_map_values: "dget (map (\<lambda>(k, v). (k, f v)) d) k = map_option f (dget d k)"
  by (induction d) auto

lemma dget_filter_keys: "dget (filter (\<lambda>p. P (fst p)) d) k = (if P k then dget d k else None)"
  by (induction d) auto

lemma dkeys_map_values [simp]: "dkeys (map (\<lambda>(k, v). (k, f v)) d) = dkeys d"
  by (induction d) auto

lemma fst_map_values [simp]: "fst \<circ> (\<lambda>(k, v). (k, f k v)) = fst"
  by auto

lemma dict_ok_filter [simp]: "dict_ok d \<Longrightarrow> dict_ok (filter P d)"
  by (induction d) auto

end
