(* ===== verification/PyString.thy ===== *)
theory PyString
  imports Prelude
begin

text \<open>
  The string operations of the Python standard library that the modelled code calls,
  on 8-bit characters: \<open>strip\<close>, \<open>lower\<close>, \<open>startswith\<close>, \<open>in\<close>, \<open>split\<close>, \<open>splitlines\<close>,
  \<open>join\<close>, \<open>int(...)\<close> and the decimal formatting of \<open>str(n)\<close>. The lemmas are the ones
  the components need: what \<open>strip\<close> leaves, that \<open>split\<close> and \<open>join\<close> invert each other,
  and that decimal formatting is injective.
\<close>

subsection \<open>Characters\<close>

definition cc :: "char \<Rightarrow> nat" where
  "cc c = of_char c"

definition py_space :: "char \<Rightarrow> bool" where
  "py_space c \<longleftrightarrow> (9 \<le> cc c \<and> cc c \<le> 13) \<or> (28 \<le> cc c \<and> cc c \<le> 32) \<or> cc c = 133 \<or> cc c = 160"

definition py_line_break :: "char \<Rightarrow> bool" where
  "py_line_break c \<longleftrightarrow> (10 \<le> cc c \<and> cc c \<le> 13) \<or> (28 \<le> cc c \<and> cc c \<le> 30) \<or> cc c = 133"

definition py_digit :: "char \<Rightarrow> bool" where
  "py_digit c \<longleftrightarrow> 48 \<le> cc c \<and> cc c \<le> 57"

definition py_alpha :: "char \<Rightarrow> bool" where
  "py_alpha c \<longleftrightarrow> (65 \<le> cc c \<and> cc c \<le> 90) \<or> (97 \<le> cc c \<and> cc c \<le> 122)"

definition lower_char :: "char \<Rightarrow> char" where
  "lower_char c = (if 65 \<le> cc c \<and> cc c \<le> 90 then char_of (cc c + 32) else c)"

subsection \<open>Trimming, case, search\<close>

definition lstrip :: "string \<Rightarrow> string" where
  "lstrip s = dropWhile py_space s"

definition rstrip :: "string \<Rightarrow> string" where
  "rstrip s = rev (dropWhile py_space (rev s))"

definition strip :: "string \<Rightarrow> string" where
  "strip s = rstrip (lstrip s)"

definition lower :: "string \<Rightarrow> string" where
  "lower s = map lower_char s"

definition starts_with :: "string \<Rightarrow> string \<Rightarrow> bool" where
  "starts_with p s \<longleftrightarrow> take (length p) s = p"

definition ends_with :: "string \<Rightarrow> string \<Rightarrow> bool" where
  "ends_with p s \<longleftrightarrow> starts_with (rev p) (rev s)"

fun contains :: "string \<Rightarrow> string \<Rightarrow> bool" where
  "contains p [] = (p = [])"
| "contains p (c # s) = (starts_with p (c # s) \<or> contains p s)"

lemma starts_with_Nil [simp]: "starts_with [] s"
  by (simp add: starts_with_def)

lemma starts_with_append [simp]: "starts_with p (p @ s)"
  by (simp add: starts_with_def)

lemma starts_with_iff: "starts_with p s \<longleftrightarrow> (\<exists>t. s = p @ t)"
  unfolding starts_with_def by (metis append_take_drop_id append_eq_conv_conj)

lemma contains_iff: "contains p s \<longleftrightarrow> (\<exists>u v. s = u @ p @ v)"
proof (induction s)
  case Nil
  then show ?case by auto
next
  case (Cons c s)
  show ?case
  proof
    assume "contains p (c # s)"
    then consider "starts_with p (c # s)" | "contains p s" by auto
    then show "\<exists>u v. c # s = u @ p @ v"
    proof cases
      case 1
      then obtain t where "c # s = [] @ p @ t" by (auto simp: starts_with_iff)
      then show ?thesis by blast
    next
      case 2
      then obtain u v where "s = u @ p @ v" using Cons.IH by blast
      then have "c # s = (c # u) @ p @ v" by simp
      then show ?thesis by blast
    qed
  next
    assume "\<exists>u v. c # s = u @ p @ v"
    then obtain u v where uv: "c # s = u @ p @ v" by blast
    then show "contains p (c # s)"
    proof (cases u)
      case Nil
      then have "starts_with p (c # s)" using uv by (auto simp: starts_with_iff)
      then show ?thesis by simp
    next
      case (Cons d u')
      then have "s = u' @ p @ v" using uv by simp
      then show ?thesis using Cons.IH by auto
    qed
  qed
qed

lemma strip_nonempty_iff: "strip s \<noteq> [] \<longleftrightarrow> (\<exists>c \<in> set s. \<not> py_space c)"
proof -
  have "strip s = [] \<longleftrightarrow> dropWhile py_space (rev (dropWhile py_space s)) = []"
    by (simp add: strip_def rstrip_def lstrip_def)
  also have "\<dots> \<longleftrightarrow> (\<forall>c \<in> set (dropWhile py_space s). py_space c)"
    by (simp add: dropWhile_eq_Nil_conv)
  also have "\<dots> \<longleftrightarrow> (\<forall>c \<in> set s. py_space c)"
  proof
    assume all: "\<forall>c \<in> set (dropWhile py_space s). py_space c"
    have "dropWhile py_space s = []"
    proof (rule ccontr)
      assume ne: "dropWhile py_space s \<noteq> []"
      then have "\<not> py_space (hd (dropWhile py_space s))" by (rule hd_dropWhile)
      then show False using all ne hd_in_set by blast
    qed
    then show "\<forall>c \<in> set s. py_space c" by (simp add: dropWhile_eq_Nil_conv)
  next
    assume "\<forall>c \<in> set s. py_space c"
    then show "\<forall>c \<in> set (dropWhile py_space s). py_space c"
      by (meson set_dropWhileD)
  qed
  finally show ?thesis by blast
qed

lemma strip_Nil [simp]: "strip [] = []"
  by (simp add: strip_def rstrip_def lstrip_def)

subsection \<open>Splitting and joining\<close>

text \<open>\<open>s.split(c)\<close> for a one-character separator, and \<open>s.split(c, 1)\<close>.\<close>

fun split_char :: "char \<Rightarrow> string \<Rightarrow> string list" where
  "split_char c [] = [[]]"
| "split_char c (d # s) =
     (if d = c then [] # split_char c s
      else (case split_char c s of [] \<Rightarrow> [[d]] | w # ws \<Rightarrow> (d # w) # ws))"

definition split_first :: "char \<Rightarrow> string \<Rightarrow> string list" where
  "split_first c s =
     (if c \<in> set s then [takeWhile (\<lambda>d. d \<noteq> c) s, tl (dropWhile (\<lambda>d. d \<noteq> c) s)] else [s])"

fun join :: "string \<Rightarrow> string list \<Rightarrow> string" where
  "join sep [] = []"
| "join sep [w] = w"
| "join sep (w # ws) = w @ sep @ join sep ws"

lemma split_char_nonempty [simp]: "split_char c s \<noteq> []"
  by (induction s) (auto split: list.splits)

lemma split_char_no_sep: "w \<in> set (split_char c s) \<Longrightarrow> c \<notin> set w"
  by (induction s arbitrary: w) (auto split: list.splits if_splits)

lemma join_split_char: "join [c] (split_char c s) = s"
proof (induction s)
  case Nil
  then show ?case by simp
next
  case (Cons d s)
  obtain w ws where ws: "split_char c s = w # ws" by (cases "split_char c s") auto
  show ?case
  proof (cases "d = c")
    case True
    then show ?thesis using Cons ws by simp
  next
    case False
    then show ?thesis using Cons ws by (cases ws) auto
  qed
qed

text \<open>\<open>s.splitlines()\<close>: a carriage return followed by a newline is one break, and a
  break at the end starts no empty line.\<close>

fun split_lines_from :: "string \<Rightarrow> string \<Rightarrow> string list" where
  "split_lines_from acc [] = (if acc = [] then [] else [rev acc])"
| "split_lines_from acc (c # s) =
     (if py_line_break c
      then (if c = char_of (13::nat)
            then (case s of
                    d # s' \<Rightarrow> if d = char_of (10::nat) then rev acc # split_lines_from [] s'
                              else rev acc # split_lines_from [] s
                  | [] \<Rightarrow> [rev acc])
            else rev acc # split_lines_from [] s)
      else split_lines_from (c # acc) s)"

definition splitlines :: "string \<Rightarrow> string list" where
  "splitlines s = split_lines_from [] s"

lemma splitlines_plain:
  assumes "\<forall>c \<in> set s. \<not> py_line_break c"
  shows "splitlines s = (if s = [] then [] else [s])"
proof -
  have "split_lines_from acc s = (if rev acc @ s = [] then [] else [rev acc @ s])" for acc
    using assms by (induction s arbitrary: acc) auto
  then show ?thesis by (simp add: splitlines_def)
qed

subsection \<open>Numbers\<close>

definition digit_char :: "nat \<Rightarrow> char" where
  "digit_char d = char_of (48 + d)"

definition digit_val :: "char \<Rightarrow> nat" where
  "digit_val c = cc c - 48"

fun nat_digits :: "nat \<Rightarrow> string" where
  "nat_digits n = (if n < 10 then [digit_char n] else nat_digits (n div 10) @ [digit_char (n mod 10)])"

declare nat_digits.simps [simp del]

text \<open>\<open>str(i)\<close> of an integer.\<close>

definition int_str :: "int \<Rightarrow> string" where
  "int_str i = (if i < 0 then CHR ''-'' # nat_digits (nat (- i)) else nat_digits (nat i))"

text \<open>\<open>f"{n:03d}"\<close> and \<open>f"{n:04d}"\<close>: padded with zeros on the left.\<close>

definition pad_digits :: "nat \<Rightarrow> nat \<Rightarrow> string" where
  "pad_digits w n = (let s = nat_digits n in replicate (w - length s) (CHR ''0'') @ s)"

definition digits_value :: "string \<Rightarrow> nat" where
  "digits_value s = foldl (\<lambda>n c. 10 * n + digit_val c) 0 s"

lemma cc_digit_char: "d < 10 \<Longrightarrow> cc (digit_char d) = 48 + d"
  by (simp add: digit_char_def cc_def)

lemma digit_val_char [simp]: "d < 10 \<Longrightarrow> digit_val (digit_char d) = d"
  by (simp add: digit_val_def cc_digit_char)

lemma digits_value_snoc [simp]: "digits_value (s @ [c]) = 10 * digits_value s + digit_val c"
  by (simp add: digits_value_def)

lemma digits_value_nat_digits [simp]: "digits_value (nat_digits n) = n"
proof (induction n rule: nat_digits.induct)
  case (1 n)
  show ?case
  proof (cases "n < 10")
    case True
    then show ?thesis by (subst nat_digits.simps) (simp add: digits_value_def)
  next
    case False
    then show ?thesis using 1 by (subst nat_digits.simps) simp
  qed
qed

lemma nat_digits_inject [simp]: "nat_digits m = nat_digits n \<longleftrightarrow> m = n"
  by (metis digits_value_nat_digits)

lemma nat_digits_digits: "c \<in> set (nat_digits n) \<Longrightarrow> py_digit c"
proof (induction n rule: nat_digits.induct)
  case (1 n)
  have d: "py_digit (digit_char d)" if "d < 10" for d
    using that by (simp add: py_digit_def cc_digit_char)
  show ?case
  proof (cases "n < 10")
    case True
    then show ?thesis using 1 d by (simp add: nat_digits.simps [of n])
  next
    case False
    then show ?thesis using 1 d by (auto simp: nat_digits.simps [of n])
  qed
qed

lemma nat_digits_nonempty [simp]: "nat_digits n \<noteq> []"
  by (subst nat_digits.simps) simp

lemma digits_value_zeros: "digits_value (replicate k (CHR ''0'') @ s) = digits_value s"
proof -
  have "foldl (\<lambda>n c. 10 * n + digit_val c) 0 (replicate k (CHR ''0'')) = (0::nat)"
    by (induction k) (auto simp: digit_val_def cc_def)
  then show ?thesis by (simp add: digits_value_def)
qed

lemma pad_digits_inject [simp]: "pad_digits w m = pad_digits w n \<longleftrightarrow> m = n"
  by (metis pad_digits_def digits_value_zeros digits_value_nat_digits)

text \<open>\<open>int(s)\<close>: surrounding whitespace, one sign, digits with single underscores between
  them; anything else raises \<open>ValueError\<close>.\<close>

fun digit_groups :: "string \<Rightarrow> string option" where
  "digit_groups [] = None"
| "digit_groups [c] = (if py_digit c then Some [c] else None)"
| "digit_groups (c # d # s) =
     (if \<not> py_digit c then None
      else if d = CHR ''_'' then map_option (Cons c) (digit_groups s)
      else map_option (Cons c) (digit_groups (d # s)))"

definition parse_int :: "string \<Rightarrow> int option" where
  "parse_int s =
     (case strip s of
        [] \<Rightarrow> None
      | c # t \<Rightarrow>
          if c = CHR ''-'' then map_option (\<lambda>ds. - int (digits_value ds)) (digit_groups t)
          else if c = CHR ''+'' then map_option (\<lambda>ds. int (digits_value ds)) (digit_groups t)
          else map_option (\<lambda>ds. int (digits_value ds)) (digit_groups (c # t)))"

lemma digit_groups_digits: "s \<noteq> [] \<Longrightarrow> \<forall>c \<in> set s. py_digit c \<Longrightarrow> digit_groups s = Some s"
proof (induction s rule: digit_groups.induct)
  case (3 c d s)
  then have "d \<noteq> CHR ''_''" by (auto simp: py_digit_def cc_def)
  then show ?case using 3 by simp
qed auto

lemma strip_no_space:
  assumes "\<forall>c \<in> set s. \<not> py_space c"
  shows "strip s = s"
proof -
  have drop: "dropWhile py_space t = t" if "\<forall>c \<in> set t. \<not> py_space c" for t
    using that by (cases t) auto
  show ?thesis using assms drop [of s] drop [of "rev s"]
    by (simp add: strip_def rstrip_def lstrip_def)
qed

lemma digit_not_space: "py_digit c \<Longrightarrow> \<not> py_space c"
  by (auto simp: py_digit_def py_space_def)

lemma parse_int_nat_digits: "parse_int (nat_digits n) = Some (int n)"
proof -
  obtain c t where ct: "nat_digits n = c # t" by (cases "nat_digits n") auto
  have all: "\<forall>c \<in> set (nat_digits n). py_digit c" using nat_digits_digits by blast
  then have "strip (nat_digits n) = nat_digits n"
    by (intro strip_no_space) (auto dest: digit_not_space)
  moreover have "digit_groups (nat_digits n) = Some (nat_digits n)"
    using all by (intro digit_groups_digits) auto
  moreover have "c \<noteq> CHR ''-'' \<and> c \<noteq> CHR ''+''"
    using all ct by (auto simp: py_digit_def cc_def)
  moreover have "digits_value (c # t) = n" using ct by (metis digits_value_nat_digits)
  ultimately show ?thesis by (simp add: parse_int_def ct)
qed

lemma parse_int_int_str: "parse_int (int_str i) = Some i"
proof (cases "i < 0")
  case False
  then show ?thesis by (simp add: int_str_def parse_int_nat_digits)
next
  case True
  let ?d = "nat_digits (nat (- i))"
  have all: "\<forall>c \<in> set ?d. py_digit c" using nat_digits_digits by blast
  have minus: "\<not> py_space (CHR ''-'')" by (simp add: py_space_def cc_def)
  have "\<forall>c \<in> set (CHR ''-'' # ?d). \<not> py_space c"
    using all minus by (auto dest: digit_not_space)
  then have "strip (CHR ''-'' # ?d) = CHR ''-'' # ?d" by (rule strip_no_space)
  moreover have "digit_groups ?d = Some ?d" using all by (intro digit_groups_digits) auto
  ultimately show ?thesis using True by (simp add: int_str_def parse_int_def)
qed

lemma int_str_inject: "int_str i = int_str j \<longleftrightarrow> i = j"
  by (metis option.inject parse_int_int_str)

lemma strip_space_prefix:
  assumes "py_space c"
  shows "strip (c # s) = strip s"
  using assms by (simp add: strip_def lstrip_def)

lemma int_str_plain:
  "\<forall>c \<in> set (int_str i). \<not> py_space c" "\<forall>c \<in> set (int_str i). \<not> py_line_break c" "int_str i \<noteq> []"
proof -
  have "py_digit c \<or> c = CHR ''-''" if "c \<in> set (int_str i)" for c
    using that nat_digits_digits by (auto simp: int_str_def split: if_splits)
  moreover have "\<not> py_space c \<and> \<not> py_line_break c" if "py_digit c \<or> c = CHR ''-''" for c
    using that by (auto simp: py_digit_def py_space_def py_line_break_def cc_def)
  ultimately show "\<forall>c \<in> set (int_str i). \<not> py_space c" "\<forall>c \<in> set (int_str i). \<not> py_line_break c"
    by blast+
  show "int_str i \<noteq> []" by (simp add: int_str_def)
qed

end
