(* ===== verification/PyText.thy ===== *)
theory PyText
  imports PyString
begin

text \<open>
  Text that the program makes from values: \<open>str(v)\<close> of the values that reach a path or a
  message, the JSON text of a string, octal digits, and POSIX paths as \<open>pathlib\<close> and
  \<open>os.path\<close> normalise them. The lemmas give the round trip of the JSON string text and the
  facts about path components that the checkpoint theories use.
\<close>

subsection \<open>Values as text\<close>

text \<open>\<open>repr(v)\<close>. The quotes of a string and the text of a non-integral float are
  simplified; such values occur only inside messages.\<close>

fun py_repr :: "pyval \<Rightarrow> string" where
  "py_repr PNone = ''None''"
| "py_repr (PBool b) = (if b then ''True'' else ''False'')"
| "py_repr (PInt i) = int_str i"
| "py_repr (PFloat q) = (let (n, d) = quotient_of q
     in if d = 1 then int_str n @ ''.0'' else int_str n @ ''/'' @ int_str d)"
| "py_repr (PStr s) = CHR 0x27 # s @ [CHR 0x27]"
| "py_repr (PList xs) = ''['' @ join '', '' (map py_repr xs) @ '']''"
| "py_repr (PDict d) = ''{'' @
     join '', '' (map (\<lambda>(k, v). (CHR 0x27 # k @ [CHR 0x27]) @ '': '' @ v)
       (map (\<lambda>(k, v). (k, py_repr v)) d)) @ ''}''"

definition py_str :: "pyval \<Rightarrow> string" where
  "py_str v = (case v of PStr s \<Rightarrow> s | _ \<Rightarrow> py_repr v)"

lemma py_str_simps [simp]: "py_str (PStr s) = s" "py_str (PInt i) = int_str i" "py_str PNone = ''None''"
  by (simp_all add: py_str_def)

text \<open>\<open>v or default\<close>.\<close>

definition por :: "pyval \<Rightarrow> pyval \<Rightarrow> pyval" where
  "por v w = (if truthy v then v else w)"

text \<open>\<open>format(n, "o")\<close>.\<close>

fun octal_digits :: "nat \<Rightarrow> string" where
  "octal_digits n = (if n < 8 then [digit_char n] else octal_digits (n div 8) @ [digit_char (n mod 8)])"

declare octal_digits.simps [simp del]

definition octal_str :: "int \<Rightarrow> string" where
  "octal_str i = (if i < 0 then ''-'' @ octal_digits (nat (- i)) else octal_digits (nat i))"

subsection \<open>JSON strings\<close>

text \<open>\<open>json.dumps(s)\<close> with its default \<open>ensure_ascii\<close>: quotes, backslashes, the short
  escapes, and \<open>\u00xx\<close> for everything else outside the printable ASCII range.\<close>

definition hex_char :: "nat \<Rightarrow> char" where
  "hex_char n = char_of (if n < 10 then 48 + n else 87 + n)"

definition hex_val :: "char \<Rightarrow> nat" where
  "hex_val c = (if cc c < 58 then cc c - 48 else cc c - 87)"

definition json_escape_char :: "char \<Rightarrow> string" where
  "json_escape_char c =
     (if c = CHR 0x22 then [CHR 0x5C, CHR 0x22]
      else if c = CHR 0x5C then [CHR 0x5C, CHR 0x5C]
      else if c = CHR 0x0A then [CHR 0x5C, CHR ''n'']
      else if c = CHR 0x0D then [CHR 0x5C, CHR ''r'']
      else if c = CHR 0x09 then [CHR 0x5C, CHR ''t'']
      else if c = CHR 0x0C then [CHR 0x5C, CHR ''f'']
      else if c = CHR 0x08 then [CHR 0x5C, CHR ''b'']
      else if 32 \<le> cc c \<and> cc c < 127 then [c]
      else [CHR 0x5C, CHR ''u'', CHR ''0'', CHR ''0'', hex_char (cc c div 16), hex_char (cc c mod 16)])"

definition json_escape :: "string \<Rightarrow> string" where
  "json_escape s = concat (map json_escape_char s)"

definition json_string :: "string \<Rightarrow> string" where
  "json_string s = CHR 0x22 # json_escape s @ [CHR 0x22]"

text \<open>The inverse, as the JSON reader undoes the escapes of such a text.\<close>

fun json_unescape :: "string \<Rightarrow> string" where
  "json_unescape (c # d # s) =
     (if c \<noteq> CHR 0x5C then c # json_unescape (d # s)
      else if d = CHR ''u'' then
        (case s of p # q # x # y # t \<Rightarrow> char_of (16 * hex_val x + hex_val y) # json_unescape t
         | _ \<Rightarrow> [])
      else (if d = CHR ''n'' then CHR 0x0A else if d = CHR ''r'' then CHR 0x0D
            else if d = CHR ''t'' then CHR 0x09 else if d = CHR ''f'' then CHR 0x0C
            else if d = CHR ''b'' then CHR 0x08 else d) # json_unescape s)"
| "json_unescape s = s"

lemma hex_val_char: "n < 16 \<Longrightarrow> hex_val (hex_char n) = n"
  by (auto simp: hex_val_def hex_char_def cc_def)

lemma json_unescape_char: "json_unescape (json_escape_char c @ s) = c # json_unescape s"
proof -
  have small: "cc c < 256" by (simp add: cc_def)
  have hex: "char_of (16 * hex_val (hex_char (cc c div 16)) + hex_val (hex_char (cc c mod 16))) = c"
  proof -
    have "cc c div 16 < 16" "cc c mod 16 < 16" using small by simp_all
    then show ?thesis by (simp add: hex_val_char) (simp add: cc_def)
  qed
  have plain: "json_unescape (c # s) = c # json_unescape s" if "c \<noteq> CHR 0x5C"
    using that by (cases s) auto
  show ?thesis using hex plain by (auto simp: json_escape_char_def)
qed

lemma json_unescape_escape: "json_unescape (json_escape s) = s"
  by (induction s) (auto simp: json_escape_def json_unescape_char)

lemma json_string_inject [simp]: "json_string s = json_string t \<longleftrightarrow> s = t"
proof
  assume "json_string s = json_string t"
  then have "json_escape s = json_escape t" by (simp add: json_string_def)
  then show "s = t" using json_unescape_escape [of s] json_unescape_escape [of t] by metis
qed simp

subsection \<open>Paths\<close>

text \<open>The components of a path, without empty ones and \<open>.\<close>, as \<open>pathlib\<close> parses it.\<close>

definition path_parts :: "string \<Rightarrow> string list" where
  "path_parts p = filter (\<lambda>w. w \<noteq> [] \<and> w \<noteq> ''.'') (split_char CHR 0x2F p)"

definition is_absolute :: "string \<Rightarrow> bool" where
  "is_absolute p = starts_with ''/'' p"

text \<open>\<open>str(Path(p))\<close>; exactly two leading slashes are kept, as POSIX allows.\<close>

definition path_str :: "string \<Rightarrow> string" where
  "path_str p =
     (let root = (if starts_with ''//'' p \<and> \<not> starts_with ''///'' p then ''//''
                  else if is_absolute p then ''/'' else []);
          body = join ''/'' (path_parts p)
      in if root @ body = [] then ''.'' else root @ body)"

text \<open>\<open>str(Path(p) / q)\<close>.\<close>

definition path_join :: "string \<Rightarrow> string \<Rightarrow> string" where
  "path_join p q = (if is_absolute q then path_str q else path_str (p @ ''/'' @ q))"

definition path_name :: "string \<Rightarrow> string" where
  "path_name p = (case rev (path_parts p) of [] \<Rightarrow> [] | w # _ \<Rightarrow> w)"

text \<open>\<open>Path(p).suffix\<close>: from the last dot of the name, unless it is the first or the
  last character.\<close>

definition path_suffix :: "string \<Rightarrow> string" where
  "path_suffix p =
     (let n = path_name p; ext = takeWhile (\<lambda>c. c \<noteq> CHR ''.'') (rev n)
      in if CHR ''.'' \<in> set n \<and> ext \<noteq> [] \<and> length ext + 1 < length n
         then CHR ''.'' # rev ext else [])"

lemma path_parts_no_slash: "w \<in> set (path_parts p) \<Longrightarrow> CHR 0x2F \<notin> set w \<and> w \<noteq> []"
  by (auto simp: path_parts_def dest: split_char_no_sep)

lemma split_char_append_sep: "c \<notin> set w \<Longrightarrow> split_char c (w @ c # s) = w # split_char c s"
  by (induction w) auto

lemma split_char_plain: "c \<notin> set w \<Longrightarrow> split_char c w = [w]"
  by (induction w) auto

lemma split_char_join:
  "ws \<noteq> [] \<Longrightarrow> \<forall>w \<in> set ws. c \<notin> set w \<Longrightarrow> split_char c (join [c] ws) = ws"
  by (induction "[c]" ws rule: join.induct) (auto simp: split_char_append_sep split_char_plain)

lemma path_parts_clean: "\<forall>w \<in> set (path_parts p). CHR 0x2F \<notin> set w \<and> w \<noteq> [] \<and> w \<noteq> ''.''"
  by (auto simp: path_parts_def dest: split_char_no_sep)

lemma path_parts_join:
  assumes "\<forall>w \<in> set ws. CHR 0x2F \<notin> set w \<and> w \<noteq> [] \<and> w \<noteq> ''.''"
  shows "path_parts (join ''/'' ws) = ws"
proof (cases "ws = []")
  case False
  then show ?thesis using assms by (simp add: path_parts_def split_char_join)
qed (simp add: path_parts_def)

lemma path_parts_slash [simp]: "path_parts (CHR 0x2F # p) = path_parts p"
  by (simp add: path_parts_def)

lemma starts_with_slash_iff: "starts_with ''/'' p \<longleftrightarrow> (\<exists>q. p = CHR 0x2F # q)"
  by (auto simp: starts_with_iff)

lemma join_clean_head:
  assumes "\<forall>w \<in> set ws. CHR 0x2F \<notin> set w \<and> w \<noteq> [] \<and> w \<noteq> ''.''" "ws \<noteq> []"
  shows "\<exists>c v. join ''/'' ws = c # v \<and> c \<noteq> CHR 0x2F"
proof -
  obtain w rest where ws: "ws = w # rest" using assms(2) by (cases ws) auto
  then obtain c v where "w = c # v" "c \<noteq> CHR 0x2F" using assms by (cases w) auto
  then show ?thesis using ws by (cases rest) auto
qed

lemma path_parts_empty [simp]: "path_parts [] = []" "path_parts ''.'' = []"
  by (simp_all add: path_parts_def)

lemma path_parts_path_str [simp]: "path_parts (path_str p) = path_parts p"
  using path_parts_join [OF path_parts_clean, of p]
  by (auto simp: path_str_def Let_def)

text \<open>Normalising a path twice is normalising it once.\<close>

lemma path_str_idem [simp]: "path_str (path_str p) = path_str p"
proof (cases "path_parts p = []")
  case True
  then show ?thesis
    by (auto simp: path_str_def Let_def is_absolute_def starts_with_iff) 
next
  case False
  then obtain c v where "join ''/'' (path_parts p) = c # v" "c \<noteq> CHR 0x2F"
    using join_clean_head [OF path_parts_clean] by blast
  then show ?thesis
    using path_parts_path_str [of p]
    by (auto simp: path_str_def [of p] path_str_def [of "_ @ _"] path_str_def [of "_ # _"] Let_def
      is_absolute_def starts_with_iff)
qed

end
