(* ===== verification/CasManifest.thy ===== *)
theory CasManifest
  imports PyText
begin

text \<open>
  The checkpoint manifests of the trace replayer (\<open>src/trace_collect/simulator.py\<close>): the
  checkpoint an action names, the entries of a manifest, their comparison with a snapshot of
  the replay container, the fold of a sequence of full and incremental checkpoints, and the
  chain of checkpoints a forced synchronisation restores.
  The host file system is a record of the answers the code gets from it. The lemmas say when
  a comparison is a match, that the chain is the suffix that starts at the last full
  checkpoint, and that folding the chain gives the state of the whole prefix.
\<close>

subsection \<open>The host file system\<close>

text \<open>What reading a file as UTF-8 JSON gives, and the members of a tar archive: name,
  content, and whether the member is a regular file with a readable body.\<close>

datatype json_read = ReadError | DecodeError | JsonError | JsonDoc pyval

record tar_member =
  tm_name :: string
  tm_isfile :: bool
  tm_content :: "string option"

record host =
  h_is_file :: "string \<Rightarrow> bool"
  h_json :: "string \<Rightarrow> json_read"
  h_tar :: "string \<Rightarrow> tar_member list option"
  h_sha256 :: "string \<Rightarrow> string"

subsection \<open>The checkpoint of an action\<close>

definition checkpoint_skip_dirs :: "string set" where
  "checkpoint_skip_dirs = {''.git''}"

definition checkpoint_relpath_is_skipped :: "string \<Rightarrow> bool" where
  "checkpoint_relpath_is_skipped relpath =
     list_ex (\<lambda>part. part \<in> checkpoint_skip_dirs) (split_char CHR 0x2F relpath)"

definition checkpoint_after_spec :: "string \<Rightarrow> pydict \<Rightarrow> pydict option" where
  "checkpoint_after_spec source_parent action_data =
     (case (case pget action_data ''checkpoint_after'' of
              PStr s \<Rightarrow> Some [(''path'', PStr s)]
            | PDict d \<Rightarrow> Some d
            | _ \<Rightarrow> None) of
        None \<Rightarrow> None
      | Some spec \<Rightarrow>
          if \<not> truthy (pget spec ''path'') then None
          else
            let raw = path_str (py_str (pget spec ''path''));
                checkpoint_path = (if is_absolute raw then raw else path_join source_parent raw);
                restore_root = py_str (por (pget spec ''root'') (PStr ''/testbed''))
            in if restore_root \<noteq> ''/testbed'' then None
               else
                 let spec1 = dput ''path'' (PStr checkpoint_path) spec;
                     spec2 = (if dget spec1 ''kind'' = None
                              then dput ''kind'' (PStr ''cas_manifest'') spec1 else spec1);
                     kind = py_str (pget spec2 ''kind'');
                     spec3 = (if dget spec2 ''incremental'' = None
                              then dput ''incremental'' (PBool (kind = ''cas_manifest_incremental'')) spec2
                              else spec2)
                 in Some (dput ''root'' (PStr restore_root) spec3))"

definition checkpoint_spec_is_incremental :: "pydict \<Rightarrow> bool" where
  "checkpoint_spec_is_incremental spec \<longleftrightarrow>
     pget spec ''incremental'' = PBool True
     \<or> py_str (por (pget spec ''kind'') (PStr ''cas_manifest'')) = ''cas_manifest_incremental''"

text \<open>\<open>action.get("data") or {}\<close>; the data of a trace action is a dictionary.\<close>

definition action_data :: "pydict \<Rightarrow> pydict" where
  "action_data a = (case pget a ''data'' of PDict d \<Rightarrow> d | _ \<Rightarrow> [])"

subsection \<open>Manifest entries\<close>

definition s_imode :: "int \<Rightarrow> int" where
  "s_imode m = m mod 4096"

text \<open>\<open>json.dumps({"type": "symlink", "target": t}, sort_keys=True)\<close>.\<close>

definition symlink_json :: "string \<Rightarrow> string" where
  "symlink_json t = ''{'' @ json_string ''target'' @ '': '' @ json_string t @ '', '' @
     json_string ''type'' @ '': '' @ json_string ''symlink'' @ ''}''"

definition cas_manifest_entry_hash :: "pyval \<Rightarrow> string res" where
  "cas_manifest_entry_hash entry =
     (case entry of
        PStr s \<Rightarrow> Inr s
      | PDict d \<Rightarrow>
          (let entry_type = pget_or d ''type'' (PStr ''file'') in
           if entry_type = PStr ''symlink'' then
             (case pget d ''target'' of
                PStr t \<Rightarrow> Inr (symlink_json t)
              | _ \<Rightarrow> Inl (ValueError ''CAS manifest symlink entry missing target''))
           else if entry_type \<noteq> PStr ''file'' then
             Inl (ValueError ''unsupported CAS manifest entry type'')
           else
             (case pget d ''hash'' of
                PStr h \<Rightarrow> Inr h
              | _ \<Rightarrow> Inl (ValueError ''CAS manifest entry missing string hash'')))
      | _ \<Rightarrow> Inl (AttributeError ''get''))"

definition cas_manifest_entry_mode :: "pyval \<Rightarrow> int option res" where
  "cas_manifest_entry_mode entry =
     (case entry of
        PStr s \<Rightarrow> Inr None
      | PDict d \<Rightarrow>
          if pget_or d ''type'' (PStr ''file'') = PStr ''symlink'' then Inr None
          else (case pget d ''mode'' of
                  PNone \<Rightarrow> Inr None
                | PInt m \<Rightarrow> Inr (Some (s_imode m))
                | _ \<Rightarrow> Inl (ValueError ''CAS manifest entry mode must be int''))
      | _ \<Rightarrow> Inl (AttributeError ''get''))"

definition source_cas_manifest_entry :: "pyval \<Rightarrow> pyval option res" where
  "source_cas_manifest_entry entry =
     (case entry of
        PDict d \<Rightarrow>
          (let entry_type = pget_or d ''type'' (PStr ''file'') in
           if entry_type = PStr ''symlink'' then
             (case pget d ''target'' of
                PStr t \<Rightarrow> Inr (Some (PDict [(''type'', PStr ''symlink''), (''target'', PStr t)]))
              | _ \<Rightarrow> Inl (ValueError ''CAS source symlink entry missing target''))
           else if entry_type \<noteq> PStr ''file'' then
             Inl (ValueError ''unsupported CAS source manifest entry type'')
           else
             (case pget d ''hash'' of
                PStr h \<Rightarrow>
                  (case pget d ''mode'' of
                     PNone \<Rightarrow> Inr (Some (PStr h))
                   | PInt m \<Rightarrow> Inr (Some (PDict [(''hash'', PStr h), (''mode'', PInt (s_imode m))]))
                   | _ \<Rightarrow> Inl (ValueError ''CAS source manifest entry mode must be int''))
              | _ \<Rightarrow> Inr None))
      | _ \<Rightarrow> Inr None)"

text \<open>The loop that normalises the entries of a source manifest.\<close>

definition add_source_entry :: "string \<times> pyval \<Rightarrow> pydict \<Rightarrow> pydict res" where
  "add_source_entry p acc =
     (if checkpoint_relpath_is_skipped (fst p) then Inr acc
      else rbind (source_cas_manifest_entry (snd p)) (\<lambda>e.
        Inr (case e of None \<Rightarrow> acc | Some v \<Rightarrow> dput (fst p) v acc)))"

definition source_manifest_entries :: "pydict \<Rightarrow> pydict res" where
  "source_manifest_entries raw = rfold add_source_entry raw []"

definition pop_deleted :: "pyval \<Rightarrow> pydict \<Rightarrow> pydict" where
  "pop_deleted deleted acc =
     (case deleted of
        PList ds \<Rightarrow>
          fold (\<lambda>v acc. case v of
                  PStr p \<Rightarrow> if checkpoint_relpath_is_skipped p then acc else dpop p acc
                | _ \<Rightarrow> acc) ds acc
      | _ \<Rightarrow> acc)"

text \<open>Files of a tar checkpoint, hashed; the archive lists members in order and a later
  member replaces an earlier one.\<close>

definition tar_entries :: "host \<Rightarrow> tar_member list \<Rightarrow> pydict" where
  "tar_entries h ms =
     fold (\<lambda>m acc. case tm_content m of
             Some c \<Rightarrow> if tm_isfile m \<and> \<not> checkpoint_relpath_is_skipped (tm_name m)
                       then dput (tm_name m) (PStr (h_sha256 h c)) acc else acc
           | None \<Rightarrow> acc) ms []"

definition load_source_manifest_entries :: "host \<Rightarrow> string \<Rightarrow> pydict option res" where
  "load_source_manifest_entries h manifest_path =
     (let mpath = path_str manifest_path in
      if \<not> h_is_file h mpath then Inr None
      else if path_suffix mpath = ''.json'' then
        (case h_json h mpath of
           ReadError \<Rightarrow> Inr None
         | JsonError \<Rightarrow> Inr None
         | DecodeError \<Rightarrow> Inl (ValueError ''invalid UTF-8'')
         | JsonDoc (PDict d) \<Rightarrow>
             (case pget_or d ''entries'' (PDict []) of
                PDict raw \<Rightarrow> rbind (source_manifest_entries raw) (\<lambda>es.
                  Inr (Some (pop_deleted (pget_or d ''deleted_paths'' (PList [])) es)))
              | _ \<Rightarrow> Inr None)
         | JsonDoc _ \<Rightarrow> Inl (AttributeError ''get''))
      else Inr (map_option (tar_entries h) (h_tar h mpath)))"

subsection \<open>Folding checkpoints\<close>

definition fold_source_checkpoint_entries :: "host \<Rightarrow> pydict \<Rightarrow> pydict \<Rightarrow> pydict res" where
  "fold_source_checkpoint_entries h checkpoint_spec prev_folded =
     (let manifest_path = path_str (py_str (pget checkpoint_spec ''path'')) in
      if \<not> h_is_file h manifest_path then Inr prev_folded
      else if path_suffix manifest_path \<noteq> ''.json'' then
        rbind (load_source_manifest_entries h manifest_path) (\<lambda>entries.
          Inr (case entries of Some es \<Rightarrow> es | None \<Rightarrow> prev_folded))
      else
        (case h_json h manifest_path of
           ReadError \<Rightarrow> Inr prev_folded
         | JsonError \<Rightarrow> Inr prev_folded
         | DecodeError \<Rightarrow> Inl (ValueError ''invalid UTF-8'')
         | JsonDoc (PDict d) \<Rightarrow>
             (case pget_or d ''entries'' (PDict []) of
                PDict raw \<Rightarrow> rbind (source_manifest_entries raw) (\<lambda>entries.
                  if \<not> checkpoint_spec_is_incremental checkpoint_spec then Inr entries
                  else Inr (pop_deleted (pget_or d ''deleted_paths'' (PList []))
                              (dupdate prev_folded entries)))
              | _ \<Rightarrow> Inr prev_folded)
         | JsonDoc _ \<Rightarrow> Inl (AttributeError ''get'')))"

definition fold_action :: "host \<Rightarrow> string \<Rightarrow> pydict \<Rightarrow> pydict \<Rightarrow> pydict res" where
  "fold_action h source_parent action folded =
     (case checkpoint_after_spec source_parent (action_data action) of
        None \<Rightarrow> Inr folded
      | Some spec \<Rightarrow> fold_source_checkpoint_entries h spec folded)"

definition fold_source_checkpoint_entries_through_action ::
    "host \<Rightarrow> string \<Rightarrow> pydict list \<Rightarrow> int \<Rightarrow> pydict res" where
  "fold_source_checkpoint_entries_through_action h source_parent actions target_index =
     (if target_index < 0 then Inr []
      else rfold (fold_action h source_parent) (take (nat (target_index + 1)) actions) [])"

text \<open>The chain of checkpoints to restore for an action: walk back from the target,
  collecting specifications, until a full checkpoint.\<close>

fun chain_loop :: "string \<Rightarrow> pydict list \<Rightarrow> pydict list \<Rightarrow> pydict list option" where
  "chain_loop source_parent [] reversed_chain = None"
| "chain_loop source_parent (action # earlier) reversed_chain =
     (case checkpoint_after_spec source_parent (action_data action) of
        None \<Rightarrow> chain_loop source_parent earlier reversed_chain
      | Some spec \<Rightarrow>
          if \<not> checkpoint_spec_is_incremental spec then Some (rev (reversed_chain @ [spec]))
          else chain_loop source_parent earlier (reversed_chain @ [spec]))"

definition checkpoint_chain_specs_for_action ::
    "string \<Rightarrow> pydict list \<Rightarrow> int \<Rightarrow> pydict list option" where
  "checkpoint_chain_specs_for_action source_parent actions target_index =
     (if target_index < 0 \<or> int (length actions) \<le> target_index then None
      else case checkpoint_after_spec source_parent (action_data (actions ! nat target_index)) of
        None \<Rightarrow> None
      | Some target_spec \<Rightarrow>
          if \<not> checkpoint_spec_is_incremental target_spec then Some [target_spec]
          else chain_loop source_parent (rev (take (nat target_index + 1) actions)) [])"

subsection \<open>Comparison\<close>

text \<open>Sets of paths iterate in an unspecified order in Python; \<open>common\<close> takes the order of the
  source dictionary, which only affects the order of the examples.\<close>

definition entry_of :: "pydict \<Rightarrow> string \<Rightarrow> pyval" where
  "entry_of d k = pget d k"

definition hash_pair :: "pydict \<Rightarrow> pydict \<Rightarrow> string \<Rightarrow> (string \<times> bool) res" where
  "hash_pair source replay k =
     rbind (cas_manifest_entry_hash (entry_of source k)) (\<lambda>a.
     rbind (cas_manifest_entry_hash (entry_of replay k)) (\<lambda>b. Inr (k, a \<noteq> b)))"

definition mode_pair :: "pydict \<Rightarrow> pydict \<Rightarrow> string \<Rightarrow> (string \<times> (int \<times> int) option) res" where
  "mode_pair source replay k =
     rbind (cas_manifest_entry_mode (entry_of source k)) (\<lambda>a.
     rbind (cas_manifest_entry_mode (entry_of replay k)) (\<lambda>b.
       Inr (k, case (a, b) of (Some x, Some y) \<Rightarrow> Some (x, y) | _ \<Rightarrow> None)))"

definition mode_mismatch_record :: "string \<times> (int \<times> int) option \<Rightarrow> pyval" where
  "mode_mismatch_record r =
     (case r of (k, Some (x, y)) \<Rightarrow>
        PDict [(''path'', PStr k), (''source_mode'', PStr (octal_str x)), (''replay_mode'', PStr (octal_str y))]
      | (k, None) \<Rightarrow> PDict [])"

definition cas_manifest_comparison_fields :: "pydict \<Rightarrow> pydict \<Rightarrow> pydict res" where
  "cas_manifest_comparison_fields source_entries replay_entries =
     (let common = filter (\<lambda>k. k \<in> set (dkeys replay_entries)) (dkeys source_entries) in
      rbind (rmap (hash_pair source_entries replay_entries) common) (\<lambda>hashes.
      rbind (rmap (mode_pair source_entries replay_entries) (sort common)) (\<lambda>modes.
        let modified = map fst (filter snd hashes);
            mode_mismatches = filter (\<lambda>r. case snd r of Some (x, y) \<Rightarrow> x \<noteq> y | None \<Rightarrow> False) modes;
            mode_comparison_available = list_ex (\<lambda>r. snd r \<noteq> None) modes;
            added = sort (filter (\<lambda>k. k \<notin> set (dkeys source_entries)) (dkeys replay_entries));
            removed = sort (filter (\<lambda>k. k \<notin> set (dkeys replay_entries)) (dkeys source_entries))
        in Inr (
          [(''cas_manifest_match'', PBool (modified = [] \<and> removed = [] \<and> added = [] \<and> mode_mismatches = [])),
           (''cas_source_entries'', PInt (int (length source_entries))),
           (''cas_replay_entries'', PInt (int (length replay_entries))),
           (''cas_modified_count'', PInt (int (length modified))),
           (''cas_added_count'', PInt (int (length added))),
           (''cas_removed_count'', PInt (int (length removed)))]
          @ (if modified = [] then [] else [(''cas_modified_examples'', PList (map PStr (take 10 modified)))])
          @ (if mode_comparison_available then
               (''cas_mode_mismatch_count'', PInt (int (length mode_mismatches)))
               # (if mode_mismatches = [] then []
                  else [(''cas_mode_mismatch_examples'',
                         PList (map mode_mismatch_record (take 10 mode_mismatches)))])
             else [])))))"

subsection \<open>Snapshots of the replay container\<close>

text \<open>What the host does with the delta a container snapshot prints: the entries hashed now
  over the previous manifest, without the paths that are gone.\<close>

definition merge_snapshot_delta :: "pydict option \<Rightarrow> pydict \<Rightarrow> string list \<Rightarrow> pydict" where
  "merge_snapshot_delta previous_manifest delta_entries all_paths =
     (case previous_manifest of
        Some prev \<Rightarrow> filter (\<lambda>p. fst p \<in> set all_paths) (dupdate prev delta_entries)
      | None \<Rightarrow> delta_entries)"

definition sandbox_entry :: "string \<times> pyval \<Rightarrow> pydict \<Rightarrow> pydict res" where
  "sandbox_entry p acc =
     (case snd p of
        PStr s \<Rightarrow> Inr (dput (fst p) (PStr s) acc)
      | PDict d \<Rightarrow>
          (let entry_type = pget_or d ''type'' (PStr ''file'') in
           if entry_type = PStr ''symlink'' then
             (case pget d ''target'' of
                PStr t \<Rightarrow> Inr (dput (fst p) (PDict [(''type'', PStr ''symlink''), (''target'', PStr t)]) acc)
              | _ \<Rightarrow> Inl (ValueError ''sandbox snapshot symlink missing target''))
           else if entry_type \<noteq> PStr ''file'' then
             Inl (ValueError ''unsupported sandbox snapshot entry type'')
           else
             (case pget d ''hash'' of
                PStr h \<Rightarrow>
                  Inr (dput (fst p)
                    (case pget d ''mode'' of
                       PInt m \<Rightarrow> PDict [(''hash'', PStr h), (''mode'', PInt (s_imode m))]
                     | _ \<Rightarrow> PStr h) acc)
              | _ \<Rightarrow> Inl (ValueError ''sandbox snapshot file missing hash'')))
      | _ \<Rightarrow> Inl (ValueError ''sandbox snapshot entry must be a dict''))"

definition sandbox_snapshot_entries_to_cas_entries :: "pydict \<Rightarrow> pydict res" where
  "sandbox_snapshot_entries_to_cas_entries snapshot_entries = rfold sandbox_entry snapshot_entries []"

definition pop_deleted_path :: "pyval \<Rightarrow> pydict \<Rightarrow> pydict res" where
  "pop_deleted_path v acc =
     (case v of PStr p \<Rightarrow> Inr (dpop p acc)
      | _ \<Rightarrow> Inl (ValueError ''sandbox snapshot deleted path must be a string''))"

text \<open>The backend branch of the replay snapshot: the state dictionary of the backend's
  snapshot, merged over the previous manifest when it is incremental. A raised error is
  reported beside an absent manifest, as the caller's \<open>except\<close> clause does.\<close>

definition backend_snapshot_entries :: "pydict \<Rightarrow> pydict option \<Rightarrow> pydict res" where
  "backend_snapshot_entries disk_state previous_manifest =
     (case pget disk_state ''entries'' of
        PDict entries \<Rightarrow>
          rbind (sandbox_snapshot_entries_to_cas_entries entries) (\<lambda>replay_entries.
            case pget_or disk_state ''deleted_paths'' (PList []) of
              PList deleted_paths \<Rightarrow>
                (case previous_manifest of
                   Some prev \<Rightarrow>
                     if pget disk_state ''incremental'' = PBool True
                     then rbind (rfold pop_deleted_path deleted_paths prev) (\<lambda>merged.
                            Inr (dupdate merged replay_entries))
                     else Inr replay_entries
                 | None \<Rightarrow> Inr replay_entries)
            | _ \<Rightarrow> Inl (ValueError ''sandbox snapshot deleted_paths must be a list''))
      | _ \<Rightarrow> Inl (ValueError ''sandbox snapshot missing entries''))"

definition capture_replay_snapshot_manifest_diagnostic ::
    "pydict res \<Rightarrow> pydict option \<Rightarrow> pydict option \<times> err option" where
  "capture_replay_snapshot_manifest_diagnostic captured previous_manifest =
     (case rbind captured (\<lambda>disk_state. backend_snapshot_entries disk_state previous_manifest) of
        Inl e \<Rightarrow> (None, Some e)
      | Inr entries \<Rightarrow> (Some entries, None))"

subsection \<open>Verification of a forced synchronisation\<close>

definition err_text :: "err \<Rightarrow> string" where
  "err_text e = (case e of
     ValueError m \<Rightarrow> ''ValueError: '' @ m
   | TypeError m \<Rightarrow> ''TypeError: '' @ m
   | RuntimeError m \<Rightarrow> ''RuntimeError: '' @ m
   | SimulateError m \<Rightarrow> ''SimulateError: '' @ m
   | KeyError m \<Rightarrow> ''KeyError: '' @ m
   | IndexError m \<Rightarrow> ''IndexError: '' @ m
   | OSError m \<Rightarrow> ''OSError: '' @ m
   | PermissionError m \<Rightarrow> ''PermissionError: '' @ m
   | AttributeError m \<Rightarrow> ''AttributeError: '' @ m
   | AssertionError m \<Rightarrow> ''AssertionError: '' @ m
   | SubprocessError m \<Rightarrow> m @ '': ''
   | SystemExit m \<Rightarrow> ''SystemExit: '' @ m)"

definition forced_sync_verification_unavailable_fields :: "string option \<Rightarrow> pydict" where
  "forced_sync_verification_unavailable_fields error =
     [(''forced_sync_verified'', PNone),
      (''forced_sync_verification'', PDict ((''snapshot_captured'', PBool False)
         # (case error of None \<Rightarrow> [] | Some m \<Rightarrow> [(''error'', PStr m)])))]"

definition verify_forced_sync_restore_state ::
    "pydict res \<Rightarrow> pydict \<Rightarrow> (pydict \<times> pydict option) res" where
  "verify_forced_sync_restore_state captured source_entries =
     (case capture_replay_snapshot_manifest_diagnostic captured None of
        (None, capture_error) \<Rightarrow>
          Inr (forced_sync_verification_unavailable_fields (map_option err_text capture_error), None)
      | (Some replay_entries, _) \<Rightarrow>
          rbind (cas_manifest_comparison_fields source_entries replay_entries) (\<lambda>fields.
            Inr ([(''forced_sync_verified'', pget fields ''cas_manifest_match''),
                  (''forced_sync_verification'', PDict fields)], Some replay_entries)))"

subsection \<open>Lemmas: chains and folds\<close>

definition checkpoint_specs :: "string \<Rightarrow> pydict list \<Rightarrow> pydict list" where
  "checkpoint_specs source_parent actions =
     List.map_filter (\<lambda>a. checkpoint_after_spec source_parent (action_data a)) actions"

lemma checkpoint_specs_simps [simp]:
  "checkpoint_specs sp [] = []"
  "checkpoint_specs sp (a # as) =
     (case checkpoint_after_spec sp (action_data a) of
        None \<Rightarrow> checkpoint_specs sp as | Some x \<Rightarrow> x # checkpoint_specs sp as)"
  "checkpoint_specs sp (as @ bs) = checkpoint_specs sp as @ checkpoint_specs sp bs"
  by (simp_all add: checkpoint_specs_def List.map_filter_def split: option.splits)

text \<open>The last full checkpoint of a list and everything after it.\<close>

definition last_full_suffix :: "pydict list \<Rightarrow> pydict list option" where
  "last_full_suffix specs =
     (case dropWhile checkpoint_spec_is_incremental (rev specs) of
        [] \<Rightarrow> None
      | full # _ \<Rightarrow> Some (full # rev (takeWhile checkpoint_spec_is_incremental (rev specs))))"

lemma last_full_suffix_snoc [simp]:
  "last_full_suffix [] = None"
  "last_full_suffix (xs @ [x]) =
     (if checkpoint_spec_is_incremental x then map_option (\<lambda>cs. cs @ [x]) (last_full_suffix xs)
      else Some [x])"
  by (auto simp: last_full_suffix_def simp del: dropWhile_eq_Nil_conv split: list.splits)

lemma chain_loop_eq:
  "chain_loop sp (rev actions) (rev acc) =
     (case last_full_suffix (checkpoint_specs sp actions) of
        None \<Rightarrow> None | Some cs \<Rightarrow> Some (cs @ acc))"
proof (induction actions arbitrary: acc rule: rev_induct)
  case Nil
  then show ?case by simp
next
  case (snoc a as)
  show ?case
  proof (cases "checkpoint_after_spec sp (action_data a)")
    case None
    then show ?thesis using snoc by simp
  next
    case (Some x)
    then show ?thesis using snoc [of "x # acc"]
      by (cases "last_full_suffix (checkpoint_specs sp as)") simp_all
  qed
qed

lemma last_full_suffixE:
  assumes "last_full_suffix specs = Some cs"
  obtains pre full suf where "specs = pre @ full # suf" "cs = full # suf"
    "\<not> checkpoint_spec_is_incremental full"
proof -
  obtain full rest where d: "dropWhile checkpoint_spec_is_incremental (rev specs) = full # rest"
    and cs: "cs = full # rev (takeWhile checkpoint_spec_is_incremental (rev specs))"
    using assms by (auto simp: last_full_suffix_def split: list.splits)
  have "rev specs = takeWhile checkpoint_spec_is_incremental (rev specs) @ full # rest"
    using d takeWhile_dropWhile_id [of checkpoint_spec_is_incremental "rev specs"] by simp
  then have "specs = rev rest @ full # rev (takeWhile checkpoint_spec_is_incremental (rev specs))"
    by (metis append.assoc append_Cons append_Nil rev.simps(2) rev_append rev_rev_ident)
  moreover have "\<not> checkpoint_spec_is_incremental full"
    using d by (metis dropWhile_eq_Cons_conv)
  ultimately show ?thesis using cs that by blast
qed

lemma fold_action_cases:
  "checkpoint_after_spec sp (action_data a) = None \<Longrightarrow> fold_action h sp a s = Inr s"
  "checkpoint_after_spec sp (action_data a) = Some x \<Longrightarrow>
     fold_action h sp a s = fold_source_checkpoint_entries h x s"
  by (simp_all add: fold_action_def)

lemma fold_through_specs:
  "rfold (fold_action h sp) actions s = rfold (fold_source_checkpoint_entries h) (checkpoint_specs sp actions) s"
proof (induction actions arbitrary: s)
  case (Cons a as)
  show ?case
  proof (cases "checkpoint_after_spec sp (action_data a)")
    case None
    then show ?thesis by (simp add: fold_action_cases Cons.IH)
  next
    case (Some x)
    then show ?thesis
      by (cases "fold_source_checkpoint_entries h x s") (simp_all add: fold_action_cases Cons.IH)
  qed
qed simp

text \<open>A checkpoint whose manifest can be read: folding it in does not fall back to the
  previous state.\<close>

definition checkpoint_loads :: "host \<Rightarrow> pydict \<Rightarrow> bool" where
  "checkpoint_loads h spec \<longleftrightarrow>
     (let p = path_str (py_str (pget spec ''path'')) in
      h_is_file h p \<and>
      (if path_suffix p = ''.json''
       then (case h_json h p of JsonDoc (PDict d) \<Rightarrow> is_py_dict (pget_or d ''entries'' (PDict [])) | _ \<Rightarrow> False)
       else h_tar h p \<noteq> None))"

lemma full_checkpoint_replaces:
  assumes "checkpoint_loads h spec" "\<not> checkpoint_spec_is_incremental spec"
  shows "fold_source_checkpoint_entries h spec s = fold_source_checkpoint_entries h spec t"
proof -
  let ?p = "path_str (py_str (pget spec ''path''))"
  show ?thesis
  proof (cases "path_suffix ?p = ''.json''")
    case True
    then obtain d where "h_json h ?p = JsonDoc (PDict d)" "is_py_dict (pget_or d ''entries'' (PDict []))"
      using assms(1) by (auto simp: checkpoint_loads_def Let_def split: json_read.splits pyval.splits)
    then show ?thesis using True assms
      by (cases "pget_or d ''entries'' (PDict [])")
        (simp_all add: fold_source_checkpoint_entries_def checkpoint_loads_def Let_def)
  next
    case False
    then show ?thesis using assms
      by (auto simp: fold_source_checkpoint_entries_def load_source_manifest_entries_def
          checkpoint_loads_def Let_def split: json_read.splits pyval.splits)
  qed
qed

subsection \<open>Lemmas: comparison\<close>

text \<open>What an entry stands for: a file of a given digest or a link to a given target.
  A digest is told from the text of a link by its first character.\<close>

datatype entry_content = FileContent string | LinkContent string

fun content_of :: "pyval \<Rightarrow> entry_content option" where
  "content_of (PStr h) = Some (FileContent h)"
| "content_of (PDict d) =
     (if pget_or d ''type'' (PStr ''file'') = PStr ''symlink'' then
        (case pget d ''target'' of PStr t \<Rightarrow> Some (LinkContent t) | _ \<Rightarrow> None)
      else if pget_or d ''type'' (PStr ''file'') = PStr ''file'' then
        (case pget d ''hash'' of PStr h \<Rightarrow> Some (FileContent h) | _ \<Rightarrow> None)
      else None)"
| "content_of _ = None"

fun mode_of :: "pyval \<Rightarrow> int option" where
  "mode_of (PDict d) =
     (if pget_or d ''type'' (PStr ''file'') = PStr ''symlink'' then None
      else (case pget d ''mode'' of PInt m \<Rightarrow> Some (s_imode m) | _ \<Rightarrow> None))"
| "mode_of _ = None"

fun mode_field_ok :: "pyval \<Rightarrow> bool" where
  "mode_field_ok (PDict d) =
     (pget_or d ''type'' (PStr ''file'') = PStr ''symlink'' \<or> pget d ''mode'' = PNone
      \<or> (case pget d ''mode'' of PInt _ \<Rightarrow> True | _ \<Rightarrow> False))"
| "mode_field_ok _ = True"

fun digest_like :: "entry_content \<Rightarrow> bool" where
  "digest_like (FileContent h) = (\<not> starts_with ''{'' h)"
| "digest_like (LinkContent t) = True"

definition entry_ok :: "pyval \<Rightarrow> bool" where
  "entry_ok e \<longleftrightarrow> mode_field_ok e \<and> (case content_of e of None \<Rightarrow> False | Some c \<Rightarrow> digest_like c)"

definition entries_ok :: "pydict \<Rightarrow> bool" where
  "entries_ok d \<longleftrightarrow> dict_ok d \<and> list_all (\<lambda>p. entry_ok (snd p)) d"

fun content_hash :: "entry_content \<Rightarrow> string" where
  "content_hash (FileContent h) = h"
| "content_hash (LinkContent t) = symlink_json t"

lemma symlink_json_inject [simp]: "symlink_json s = symlink_json t \<longleftrightarrow> s = t"
proof
  assume "symlink_json s = symlink_json t"
  then have "rev (symlink_json s) = rev (symlink_json t)" by simp
  then have "json_string s = json_string t" by (simp add: symlink_json_def)
  then show "s = t" by simp
qed simp

lemma content_hash_inject:
  "digest_like a \<Longrightarrow> digest_like b \<Longrightarrow> content_hash a = content_hash b \<longleftrightarrow> a = b"
  by (cases a; cases b) (auto simp: symlink_json_def starts_with_iff)

lemma entry_hash_eq: "content_of e = Some c \<Longrightarrow> cas_manifest_entry_hash e = Inr (content_hash c)"
  by (cases e) (auto simp: cas_manifest_entry_hash_def Let_def split: if_splits pyval.splits)

lemma entry_mode_eq:
  "content_of e = Some c \<Longrightarrow> mode_field_ok e \<Longrightarrow> cas_manifest_entry_mode e = Inr (mode_of e)"
  by (cases e) (auto simp: cas_manifest_entry_mode_def split: pyval.splits)

lemma entries_okD: "entries_ok d \<Longrightarrow> k \<in> set (dkeys d) \<Longrightarrow> entry_ok (entry_of d k)"
  by (auto simp: entries_ok_def entry_of_def pget_def list_all_iff dget_def)

text \<open>Two entries agree: the same content, and the same mode when both record one.\<close>

definition entries_agree :: "pyval \<Rightarrow> pyval \<Rightarrow> bool" where
  "entries_agree a b \<longleftrightarrow> content_of a = content_of b \<and>
     (case (mode_of a, mode_of b) of (Some x, Some y) \<Rightarrow> x = y | _ \<Rightarrow> True)"

definition manifests_agree :: "pydict \<Rightarrow> pydict \<Rightarrow> bool" where
  "manifests_agree s r \<longleftrightarrow> set (dkeys s) = set (dkeys r) \<and>
     list_all (\<lambda>k. entries_agree (entry_of s k) (entry_of r k)) (dkeys s)"

lemma hash_pair_eq:
  assumes "entry_ok (entry_of s k)" "entry_ok (entry_of r k)"
  shows "hash_pair s r k = Inr (k, content_of (entry_of s k) \<noteq> content_of (entry_of r k))"
proof -
  obtain a b where "content_of (entry_of s k) = Some a" "content_of (entry_of r k) = Some b"
    "digest_like a" "digest_like b"
    using assms by (auto simp: entry_ok_def split: option.splits)
  then show ?thesis by (simp add: hash_pair_def entry_hash_eq content_hash_inject)
qed

lemma mode_pair_eq:
  assumes "entry_ok (entry_of s k)" "entry_ok (entry_of r k)"
  shows "mode_pair s r k = Inr (k, case (mode_of (entry_of s k), mode_of (entry_of r k)) of
           (Some x, Some y) \<Rightarrow> Some (x, y) | _ \<Rightarrow> None)"
proof -
  obtain a b where "content_of (entry_of s k) = Some a" "content_of (entry_of r k) = Some b"
    "mode_field_ok (entry_of s k)" "mode_field_ok (entry_of r k)"
    using assms by (auto simp: entry_ok_def split: option.splits)
  then show ?thesis by (simp add: mode_pair_def entry_mode_eq)
qed

lemma sort_Nil_iff: "sort xs = [] \<longleftrightarrow> xs = []"
  by (metis set_empty set_sort)

lemma filter_none_iff: "filter P xs = [] \<longleftrightarrow> list_all (\<lambda>x. \<not> P x) xs"
  by (simp add: filter_empty_conv list_all_iff)

lemma comparison_match:
  assumes "entries_ok s" "entries_ok r"
  obtains fields where "cas_manifest_comparison_fields s r = Inr fields"
    "pget fields ''cas_manifest_match'' = PBool (manifests_agree s r)"
proof -
  define common where "common = filter (\<lambda>k. k \<in> set (dkeys r)) (dkeys s)"
  have ok: "entry_ok (entry_of s k)" "entry_ok (entry_of r k)" if "k \<in> set common" for k
    using that assms entries_okD by (auto simp: common_def)
  define hashes where "hashes = map (\<lambda>k. (k, content_of (entry_of s k) \<noteq> content_of (entry_of r k))) common"
  define modes where "modes = map (\<lambda>k. (k, case (mode_of (entry_of s k), mode_of (entry_of r k)) of
           (Some x, Some y) \<Rightarrow> Some (x, y) | _ \<Rightarrow> None)) (sort common)"
  have h: "rmap (hash_pair s r) common = Inr hashes"
    unfolding hashes_def by (rule rmap_ok) (use ok hash_pair_eq in auto)
  have m: "rmap (mode_pair s r) (sort common) = Inr modes"
    unfolding modes_def by (rule rmap_ok) (use ok mode_pair_eq in auto)
  have mod: "map fst (filter snd hashes) = [] \<longleftrightarrow>
      (\<forall>k \<in> set common. content_of (entry_of s k) = content_of (entry_of r k))"
    by (auto simp: hashes_def filter_empty_conv)
  have mm: "filter (\<lambda>q. case snd q of Some (x, y) \<Rightarrow> x \<noteq> y | None \<Rightarrow> False) modes = [] \<longleftrightarrow>
      (\<forall>k \<in> set common. case (mode_of (entry_of s k), mode_of (entry_of r k)) of
         (Some x, Some y) \<Rightarrow> x = y | _ \<Rightarrow> True)"
    by (auto simp: modes_def filter_empty_conv split: option.splits)
  have keys: "sort (filter (\<lambda>k. k \<notin> set (dkeys r)) (dkeys s)) = []
      \<and> sort (filter (\<lambda>k. k \<notin> set (dkeys s)) (dkeys r)) = [] \<longleftrightarrow> set (dkeys s) = set (dkeys r)"
    by (auto simp: sort_Nil_iff filter_empty_conv)
  have all: "manifests_agree s r \<longleftrightarrow> set (dkeys s) = set (dkeys r) \<and>
      (\<forall>k \<in> set common. entries_agree (entry_of s k) (entry_of r k))"
    by (auto simp: manifests_agree_def common_def list_all_iff)
  let ?fs = "cas_manifest_comparison_fields s r"
  obtain fields where f: "?fs = Inr fields" "pget fields ''cas_manifest_match'' =
      PBool (map fst (filter snd hashes) = []
        \<and> sort (filter (\<lambda>k. k \<notin> set (dkeys r)) (dkeys s)) = []
        \<and> sort (filter (\<lambda>k. k \<notin> set (dkeys s)) (dkeys r)) = []
        \<and> filter (\<lambda>q. case snd q of Some (x, y) \<Rightarrow> x \<noteq> y | None \<Rightarrow> False) modes = [])"
    unfolding cas_manifest_comparison_fields_def Let_def common_def [symmetric] h m rbind_simps
    by (simp add: pget_def)
  show ?thesis
    by (rule that [OF f(1)]) (use f(2) mod mm keys all in \<open>auto simp: entries_agree_def\<close>)
qed

subsection \<open>Properties\<close>

lemma chain_specs_eq:
  "checkpoint_chain_specs_for_action sp actions t =
     (if t < 0 \<or> int (length actions) \<le> t
         \<or> checkpoint_after_spec sp (action_data (actions ! nat t)) = None
      then None
      else last_full_suffix (checkpoint_specs sp (take (nat t + 1) actions)))"
proof (cases "t < 0 \<or> int (length actions) \<le> t")
  case False
  then have lt: "nat t < length actions" by auto
  have upto: "take (nat t + 1) actions = take (nat t) actions @ [actions ! nat t]"
    using lt by (simp add: take_Suc_conv_app_nth)
  show ?thesis
  proof (cases "checkpoint_after_spec sp (action_data (actions ! nat t))")
    case (Some x)
    then show ?thesis
      using False upto chain_loop_eq [of sp "take (nat t + 1) actions" "[]"]
      by (auto simp: checkpoint_chain_specs_for_action_def split: option.splits)
  qed (simp add: checkpoint_chain_specs_for_action_def)
qed (auto simp: checkpoint_chain_specs_for_action_def)

text \<open>The chain of checkpoints restored for an action is the suffix of the action's
  checkpoints that starts at the last full one; there is no chain exactly when the action
  names no checkpoint or no full one precedes it.\<close>

theorem chain_is_last_full_suffix:
  "checkpoint_chain_specs_for_action sp actions t =
     (if t < 0 \<or> int (length actions) \<le> t
         \<or> checkpoint_after_spec sp (action_data (actions ! nat t)) = None
      then None
      else last_full_suffix (checkpoint_specs sp (take (nat t + 1) actions)))"
  by (rule chain_specs_eq)

text \<open>C12: Restoring a chain and folding the whole history agree: when the first checkpoint of
  the chain of an action can be read, the entries folded from every checkpoint up to the
  action are the entries folded from the chain alone, started from nothing.\<close>

theorem chain_fold_complete:
  assumes "checkpoint_chain_specs_for_action sp actions t = Some cs"
    and "checkpoint_loads h (hd cs)"
    and "fold_source_checkpoint_entries_through_action h sp actions t = Inr r"
  shows "rfold (fold_source_checkpoint_entries h) cs [] = Inr r"
proof -
  let ?specs = "checkpoint_specs sp (take (nat t + 1) actions)"
  have t: "\<not> t < 0" and suf: "last_full_suffix ?specs = Some cs"
    using assms(1) unfolding chain_specs_eq by (auto split: if_splits)
  have n: "nat (t + 1) = nat t + 1" using t by auto
  obtain pre full post where specs: "?specs = pre @ full # post" and cs: "cs = full # post"
    and full: "\<not> checkpoint_spec_is_incremental full"
    using suf by (rule last_full_suffixE)
  have "rfold (fold_source_checkpoint_entries h) ?specs [] = Inr r"
    using assms(3) t n by (simp add: fold_source_checkpoint_entries_through_action_def fold_through_specs)
  then obtain mid where "rfold (fold_source_checkpoint_entries h) cs mid = Inr r"
    unfolding specs cs rfold_append rbind_eq_Inr by blast
  moreover have "fold_source_checkpoint_entries h full mid = fold_source_checkpoint_entries h full []"
    using assms(2) full cs by (auto intro: full_checkpoint_replaces)
  ultimately show ?thesis by (simp add: cs)
qed

text \<open>Two well-formed manifests compare as a match exactly when they list the same paths
  and, path by path, the same content and (where both record one) the same permission bits.\<close>

theorem comparison_match_iff_agree:
  assumes "entries_ok s" and "entries_ok r"
  shows "\<exists>fields. cas_manifest_comparison_fields s r = Inr fields
           \<and> pget fields ''cas_manifest_match'' = PBool (manifests_agree s r)"
  using comparison_match [OF assms] by blast

text \<open>A history of three actions: a full checkpoint, an action without one, and an
  incremental checkpoint; the manifests add one file and delete another.\<close>

definition example_actions :: "pydict list" where
  "example_actions =
     [[(''data'', PDict [(''checkpoint_after'', PDict [(''path'', PStr ''a.json''), (''kind'', PStr ''cas_manifest_full'')])])],
      [(''data'', PDict [])],
      [(''data'', PDict [(''checkpoint_after'', PDict [(''path'', PStr ''b.json''), (''kind'', PStr ''cas_manifest_incremental'')])])]]"

definition example_host :: host where
  "example_host =
     \<lparr>h_is_file = (\<lambda>p. True),
      h_json = (\<lambda>p. if p = ''/t/a.json''
         then JsonDoc (PDict [(''entries'', PDict [(''x'', PDict [(''hash'', PStr ''1'')]), (''y'', PDict [(''hash'', PStr ''2'')])])])
         else JsonDoc (PDict [(''entries'', PDict [(''z'', PDict [(''hash'', PStr ''3'')])]), (''deleted_paths'', PList [PStr ''x''])])),
      h_tar = (\<lambda>p. None), h_sha256 = (\<lambda>c. c)\<rparr>"

theorem chain_fold_complete_witness:
  "\<exists>cs. checkpoint_chain_specs_for_action ''/t'' example_actions 2 = Some cs
     \<and> rfold (fold_source_checkpoint_entries example_host) cs [] = Inr [(''y'', PStr ''2''), (''z'', PStr ''3'')]"
proof -
  obtain cs where cs: "checkpoint_chain_specs_for_action ''/t'' example_actions 2 = Some cs"
    and loads: "checkpoint_loads example_host (hd cs)"
  proof
    show "checkpoint_chain_specs_for_action ''/t'' example_actions 2
        = Some (the (checkpoint_chain_specs_for_action ''/t'' example_actions 2))" by code_simp
    show "checkpoint_loads example_host
        (hd (the (checkpoint_chain_specs_for_action ''/t'' example_actions 2)))" by code_simp
  qed
  have "fold_source_checkpoint_entries_through_action example_host ''/t'' example_actions 2
      = Inr [(''y'', PStr ''2''), (''z'', PStr ''3'')]" by code_simp
  from chain_fold_complete [OF cs loads this] cs show ?thesis by blast
qed

theorem comparison_match_iff_agree_witness:
  "\<exists>fields. cas_manifest_comparison_fields
       [(''a'', PDict [(''hash'', PStr ''0f''), (''mode'', PInt 493)]), (''l'', PDict [(''type'', PStr ''symlink''), (''target'', PStr ''a'')])]
       [(''l'', PDict [(''type'', PStr ''symlink''), (''target'', PStr ''a'')]), (''a'', PDict [(''hash'', PStr ''0f''), (''mode'', PInt 420)])]
     = Inr fields \<and> pget fields ''cas_manifest_match'' = PBool False"
proof -
  let ?s = "[(''a'', PDict [(''hash'', PStr ''0f''), (''mode'', PInt 493)]), (''l'', PDict [(''type'', PStr ''symlink''), (''target'', PStr ''a'')])]"
  let ?r = "[(''l'', PDict [(''type'', PStr ''symlink''), (''target'', PStr ''a'')]), (''a'', PDict [(''hash'', PStr ''0f''), (''mode'', PInt 420)])]"
  have "entries_ok ?s" "entries_ok ?r" by code_simp+
  moreover have "\<not> manifests_agree ?s ?r" by code_simp
  ultimately show ?thesis using comparison_match_iff_agree [of ?s ?r] by simp
qed

end
