(* ===== verification/CasCapture.thy ===== *)
theory CasCapture
  imports CasManifest
begin

text \<open>
  Checkpoint capture (\<open>src/agents/openclaw/_checkpoint_container.py\<close> and the host-side
  \<open>_session_runner.py\<close>): the script that snapshots a container's file tree against the
  previous snapshot, the paths reported as deleted, the manifest written with its blobs in
  the content-addressed store, and the checkpoint operation around them.
  The lemmas show that the store keeps its integrity, that every file of a written manifest
  has its blob in the store, and what folding an incremental manifest over the previous
  state gives: the current tree, except at paths whose type changed.
\<close>

subsection \<open>File trees as the walk reports them\<close>

datatype node = NDir | NFile string int | NLink string

record stat_node =
  sn_node :: node
  sn_size :: int
  sn_mtime :: int

type_synonym tree = "(string \<times> stat_node) list"

text \<open>The entry types \<open>"dir"\<close>, \<open>"file"\<close> and the dictionary of a symlink.\<close>

fun entry_type_of_node :: "node \<Rightarrow> pyval" where
  "entry_type_of_node NDir = PStr ''dir''"
| "entry_type_of_node (NFile c m) = PStr ''file''"
| "entry_type_of_node (NLink t) = PDict [(''type'', PStr ''symlink''), (''target'', PStr t)]"

text \<open>A snapshot entry: an entry type alone (old states) or with size and modification time.\<close>

datatype snapshot_entry = SnapType pyval | SnapStat pyval int int

fun checkpoint_snapshot_entry_type :: "snapshot_entry \<Rightarrow> pyval" where
  "checkpoint_snapshot_entry_type (SnapType t) = t"
| "checkpoint_snapshot_entry_type (SnapStat t _ _) = t"

fun checkpoint_snapshot_entry_size_mtime :: "snapshot_entry \<Rightarrow> (int \<times> int) option" where
  "checkpoint_snapshot_entry_size_mtime (SnapType t) = None"
| "checkpoint_snapshot_entry_size_mtime (SnapStat _ s m) = Some (s, m)"

definition normalize_checkpoint_entry_type :: "pyval \<Rightarrow> pyval res" where
  "normalize_checkpoint_entry_type v =
     (case v of
        PStr s \<Rightarrow> Inr v
      | PDict d \<Rightarrow> if list_all (\<lambda>p. is_py_str (snd p)) d then Inr v
                  else Inl (RuntimeError ''invalid checkpoint entry type'')
      | _ \<Rightarrow> Inl (RuntimeError ''invalid checkpoint entry type''))"

definition normalize_checkpoint_snapshot_entry :: "pyval \<Rightarrow> snapshot_entry res" where
  "normalize_checkpoint_snapshot_entry v =
     (case v of
        PStr s \<Rightarrow> rbind (normalize_checkpoint_entry_type v) (\<lambda>t. Inr (SnapType t))
      | PDict d \<Rightarrow> rbind (normalize_checkpoint_entry_type v) (\<lambda>t. Inr (SnapType t))
      | PList [a, sz, mt] \<Rightarrow>
          rbind (normalize_checkpoint_entry_type a) (\<lambda>t.
            case sz of
              PInt s \<Rightarrow> (case mt of
                  PInt m \<Rightarrow> Inr (SnapStat t s m)
                | _ \<Rightarrow> Inl (RuntimeError ''invalid checkpoint entry mtime_ns''))
            | _ \<Rightarrow> Inl (RuntimeError ''invalid checkpoint entry size''))
      | _ \<Rightarrow> Inl (RuntimeError ''invalid checkpoint snapshot entry''))"

definition normalize_checkpoint_snapshot_entries :: "pydict \<Rightarrow> (string \<times> snapshot_entry) list res" where
  "normalize_checkpoint_snapshot_entries entries =
     rmap (\<lambda>p. rbind (normalize_checkpoint_snapshot_entry (snd p)) (\<lambda>e. Inr (fst p, e))) entries"

text \<open>The JSON a snapshot entry is printed as.\<close>

fun json_of_snapshot_entry :: "snapshot_entry \<Rightarrow> pyval" where
  "json_of_snapshot_entry (SnapType t) = t"
| "json_of_snapshot_entry (SnapStat t s m) = PList [t, PInt s, PInt m]"

subsection \<open>The snapshot script and the host-side change detection\<close>

definition checkpoint_entry_requires_manifest :: "snapshot_entry option \<Rightarrow> snapshot_entry \<Rightarrow> bool" where
  "checkpoint_entry_requires_manifest previous current =
     (case previous of
        None \<Rightarrow> True
      | Some prev \<Rightarrow>
          if checkpoint_snapshot_entry_type prev \<noteq> checkpoint_snapshot_entry_type current then True
          else if checkpoint_snapshot_entry_size_mtime prev = None
               \<or> checkpoint_snapshot_entry_size_mtime current = None then True
          else checkpoint_snapshot_entry_size_mtime prev \<noteq> checkpoint_snapshot_entry_size_mtime current)"

definition stat_entry :: "stat_node \<Rightarrow> snapshot_entry" where
  "stat_entry st = SnapStat (entry_type_of_node (sn_node st)) (sn_size st) (sn_mtime st)"

definition changed_value :: "(string \<Rightarrow> string) \<Rightarrow> stat_node \<Rightarrow> pydict" where
  "changed_value sha st =
     (case sn_node st of
        NFile c m \<Rightarrow> [(''hash'', PStr (sha c)), (''mode'', PInt (s_imode m)),
                     (''size'', PInt (sn_size st)), (''mtime_ns'', PInt (sn_mtime st))]
      | NLink t \<Rightarrow> [(''type'', PStr ''symlink''), (''target'', PStr t)]
      | NDir \<Rightarrow> [])"

text \<open>One entry of the walk: every entry is recorded; a file or link that needs it goes to
  \<open>changed\<close> too.\<close>

definition snapshot_step ::
    "(string \<Rightarrow> string) \<Rightarrow> (string \<times> snapshot_entry) list \<Rightarrow> string \<times> stat_node \<Rightarrow>
     (string \<times> snapshot_entry) list \<times> (string \<times> pydict) list \<Rightarrow>
     (string \<times> snapshot_entry) list \<times> (string \<times> pydict) list" where
  "snapshot_step sha prev p acc =
     (let (rel, st) = p; (entries, changed) = acc; entry = stat_entry st in
      (dput rel entry entries,
       if sn_node st \<noteq> NDir \<and> checkpoint_entry_requires_manifest (dget prev rel) entry
       then dput rel (changed_value sha st) changed else changed))"

definition run_snapshot ::
    "(string \<Rightarrow> string) \<Rightarrow> (string \<times> snapshot_entry) list \<Rightarrow> tree \<Rightarrow>
     (string \<times> snapshot_entry) list \<times> (string \<times> pydict) list" where
  "run_snapshot sha prev walk = fold (snapshot_step sha prev) walk ([], [])"

definition compute_deleted_paths ::
    "(string \<times> snapshot_entry) list option \<Rightarrow> (string \<times> snapshot_entry) list \<Rightarrow> string list" where
  "compute_deleted_paths prev_entries current_entries =
     (case prev_entries of
        None \<Rightarrow> []
      | Some prev \<Rightarrow>
          sort (map fst (filter (\<lambda>(path, e).
            (case dget current_entries path of
               None \<Rightarrow> True
             | Some c \<Rightarrow> checkpoint_snapshot_entry_type c \<noteq> checkpoint_snapshot_entry_type e)
            \<and> \<not> checkpoint_relpath_is_skipped path) prev)))"

definition compute_checkpoint_changed_paths ::
    "(string \<times> snapshot_entry) list \<Rightarrow> (string \<times> snapshot_entry) list \<Rightarrow> string list" where
  "compute_checkpoint_changed_paths previous current =
     map fst (filter (\<lambda>(path, e).
       checkpoint_snapshot_entry_type e \<noteq> PStr ''dir''
       \<and> checkpoint_entry_requires_manifest (dget previous path) e) current)"

subsection \<open>The content-addressed store and the manifest\<close>

type_synonym cas_store = "string \<rightharpoonup> string"

record write_state =
  ws_cas :: cas_store
  ws_entries :: pydict
  ws_bytes :: int

definition dict_item :: "pydict \<Rightarrow> string \<Rightarrow> pyval res" where
  "dict_item d k = (case dget d k of Some v \<Rightarrow> Inr v | None \<Rightarrow> Inl (KeyError k))"

text \<open>One changed path: links are copied into the manifest, files have their blob stored
  first, after its digest is verified.\<close>

definition write_entry ::
    "(string \<Rightarrow> string) \<Rightarrow> (string \<times> string) list \<Rightarrow> string \<times> pydict \<Rightarrow> write_state \<Rightarrow> write_state res" where
  "write_entry sha verified_blobs p ws =
     (let (rel, info) = p in
      if checkpoint_relpath_is_skipped rel then Inr ws
      else
        let entry_type = pget_or info ''type'' (PStr ''file'') in
        if entry_type = PStr ''symlink'' then
          (case pget info ''target'' of
             PStr t \<Rightarrow> Inr (ws\<lparr>ws_entries := dput rel
                 (PDict [(''type'', PStr ''symlink''), (''target'', PStr t)]) (ws_entries ws)\<rparr>)
           | _ \<Rightarrow> Inl (RuntimeError ''checkpoint symlink target missing''))
        else if entry_type \<noteq> PStr ''file'' then
          Inl (RuntimeError ''unsupported checkpoint entry type'')
        else
          rbind (dict_item info ''hash'') (\<lambda>hv.
          case hv of
            PStr digest \<Rightarrow>
              rbind (if ws_cas ws digest \<noteq> None then Inr ws
                     else (case dget verified_blobs rel of
                         None \<Rightarrow> Inl (RuntimeError ''checkpoint blob not in CAS and not pre-verified'')
                       | Some verified \<Rightarrow>
                           if sha verified \<noteq> digest
                           then Inl (RuntimeError ''checkpoint blob digest mismatch'')
                           else rbind (dict_item info ''size'') (\<lambda>size.
                             case size of
                               PInt n \<Rightarrow> Inr (ws\<lparr>ws_cas := (ws_cas ws)(digest \<mapsto> verified),
                                                ws_bytes := ws_bytes ws + n\<rparr>)
                             | _ \<Rightarrow> Inl (TypeError ''unsupported operand''))))
                (\<lambda>ws1.
              rbind (dict_item info ''mode'') (\<lambda>mode.
              rbind (dict_item info ''size'') (\<lambda>size.
              rbind (dict_item info ''mtime_ns'') (\<lambda>mtime_ns.
                Inr (ws1\<lparr>ws_entries := dput rel
                  (PDict [(''hash'', PStr digest), (''mode'', mode), (''size'', size), (''mtime_ns'', mtime_ns)])
                  (ws_entries ws1)\<rparr>)))))
          | _ \<Rightarrow> Inl (TypeError ''unsupported operand'')))"

definition write_container_manifest ::
    "(string \<Rightarrow> string) \<Rightarrow> cas_store \<Rightarrow> (string \<times> pydict) list \<Rightarrow> string list \<Rightarrow>
     (string \<times> string) list \<Rightarrow> (pydict \<times> cas_store \<times> int) res" where
  "write_container_manifest sha cas changed deleted_paths verified_blobs =
     rbind (rfold (write_entry sha verified_blobs)
              (sort_key fst changed)
              \<lparr>ws_cas = cas, ws_entries = [], ws_bytes = 0\<rparr>) (\<lambda>ws.
       Inr ([(''entries'', PDict (ws_entries ws)),
             (''deleted_paths'', PList (map PStr
                (sort (filter (\<lambda>p. \<not> checkpoint_relpath_is_skipped p) deleted_paths))))],
            ws_cas ws, ws_bytes ws))"

subsection \<open>The checkpoint operation\<close>

text \<open>The outcome of a checkpoint; times are left out. The snapshot that a successful
  checkpoint hands on is the next call's previous snapshot.\<close>

record checkpoint_ok =
  ck_path :: string
  ck_kind :: string
  ck_incremental :: bool
  ck_incremental_since_ns :: "int option"
  ck_rebaseline :: bool
  ck_chain_bytes :: int
  ck_now_ns :: int
  ck_current_snapshot :: "(string \<times> snapshot_entry) list"
  ck_is_full :: bool
  ck_manifest :: pydict

datatype checkpoint_result = CkError string | CkSkipped | CkOk checkpoint_ok

text \<open>What the container and its snapshot script report: whether a Python was found, the
  walk, the time of the snapshot, whether the tree changed during the walk, and the contents
  a tar stream returns for the requested paths.\<close>

record container_view =
  cv_probe :: "unit res"
  cv_walk :: "tree res"
  cv_now_ns :: int
  cv_changed_during_walk :: bool
  cv_fetch :: "string list \<Rightarrow> (string \<times> string) list res"

definition missing_blob_paths :: "cas_store \<Rightarrow> (string \<times> pydict) list \<Rightarrow> string list" where
  "missing_blob_paths cas changed =
     map fst (filter (\<lambda>(rel, info). pget_or info ''type'' (PStr ''file'') = PStr ''file''
       \<and> (case pget info ''hash'' of PStr d \<Rightarrow> cas d = None | _ \<Rightarrow> False)) changed)"

text \<open>The verification loop over the fetched blobs: the first path that is missing or whose
  digest differs ends the checkpoint.\<close>

fun verify_blobs ::
    "(string \<Rightarrow> string) \<Rightarrow> (string \<times> pydict) list \<Rightarrow> (string \<times> string) list \<Rightarrow> string list \<Rightarrow> string option" where
  "verify_blobs sha changed blobs [] = None"
| "verify_blobs sha changed blobs (rel # rest) =
     (case dget blobs rel of
        None \<Rightarrow> Some ''checkpoint blob missing''
      | Some content \<Rightarrow>
          if Some (PStr (sha content)) \<noteq> (case dget changed rel of None \<Rightarrow> None | Some i \<Rightarrow> dget i ''hash'')
          then Some ''checkpoint blob digest mismatch''
          else verify_blobs sha changed blobs rest)"

definition run_container_checkpoint ::
    "(string \<Rightarrow> string) \<Rightarrow> container_view \<Rightarrow> cas_store \<Rightarrow> string \<Rightarrow> int option \<Rightarrow>
     (string \<times> snapshot_entry) list option \<Rightarrow> bool \<Rightarrow> checkpoint_result \<times> cas_store" where
  "run_container_checkpoint sha cv cas manifest_path since_ns prev force_full =
     (case cv_probe cv of
        Inl e \<Rightarrow> (CkError ''checkpoint failed'', cas)
      | Inr _ \<Rightarrow>
     (case cv_walk cv of
        Inl e \<Rightarrow> (CkError ''checkpoint snapshot failed'', cas)
      | Inr walk \<Rightarrow>
          let snapshot_prev = (if force_full then [] else (case prev of None \<Rightarrow> [] | Some p \<Rightarrow> p));
              (current_entries, changed) = run_snapshot sha snapshot_prev walk in
          if cv_changed_during_walk cv
          then (CkError ''checkpoint failed: filesystem changed during checkpoint'', cas)
          else
            let deleted_paths = compute_deleted_paths prev current_entries;
                is_first = (prev = None);
                has_changes = (changed \<noteq> [] \<or> deleted_paths \<noteq> []) in
            if \<not> is_first \<and> \<not> force_full \<and> \<not> has_changes then (CkSkipped, cas)
            else
              let missing_paths = missing_blob_paths cas changed in
              (case (if missing_paths = [] then Inr [] else cv_fetch cv missing_paths) of
                 Inl e \<Rightarrow> (CkError ''checkpoint blob fetch failed'', cas)
               | Inr blobs \<Rightarrow>
              (case verify_blobs sha changed blobs missing_paths of
                 Some m \<Rightarrow> (CkError m, cas)
               | None \<Rightarrow>
              (case write_container_manifest sha cas changed deleted_paths blobs of
                 Inl e \<Rightarrow> (CkError ''checkpoint failed'', cas)
               | Inr (manifest, cas', chain_bytes) \<Rightarrow>
                   let is_full = (is_first \<or> force_full) in
                   (CkOk \<lparr>ck_path = manifest_path,
                          ck_kind = (if is_full then ''cas_manifest_full'' else ''cas_manifest_incremental''),
                          ck_incremental = (\<not> is_full), ck_incremental_since_ns = since_ns,
                          ck_rebaseline = force_full, ck_chain_bytes = chain_bytes,
                          ck_now_ns = cv_now_ns cv, ck_current_snapshot = current_entries,
                          ck_is_full = is_full, ck_manifest = manifest\<rparr>, cas'))))))"

subsection \<open>Lemmas: the snapshot\<close>

lemma snapshot_step_fold:
  assumes "dict_ok walk" "set (dkeys walk) \<inter> set (dkeys en) = {}" "set (dkeys walk) \<inter> set (dkeys ch) = {}"
  shows "fold (snapshot_step sha prev) walk (en, ch) =
     (en @ map (\<lambda>(rel, st). (rel, stat_entry st)) walk,
      ch @ map (\<lambda>(rel, st). (rel, changed_value sha st))
        (filter (\<lambda>(rel, st). sn_node st \<noteq> NDir
           \<and> checkpoint_entry_requires_manifest (dget prev rel) (stat_entry st)) walk))"
  using assms
proof (induction walk arbitrary: en ch)
  case (Cons p walk)
  obtain rel st where p: "p = (rel, st)" by force
  have new: "rel \<notin> set (dkeys en)" "rel \<notin> set (dkeys ch)" "rel \<notin> set (dkeys walk)"
    using Cons.prems p by auto
  have en: "dput rel (stat_entry st) en = en @ [(rel, stat_entry st)]"
    and ch: "dput rel v ch = ch @ [(rel, v)]" for v
    using new by (simp_all add: dput_new)
  show ?case
    using Cons.IH Cons.prems new by (auto simp: p snapshot_step_def Let_def en ch)
qed simp

lemma run_snapshot_eq:
  assumes "dict_ok walk"
  shows "run_snapshot sha prev walk =
     (map (\<lambda>(rel, st). (rel, stat_entry st)) walk,
      map (\<lambda>(rel, st). (rel, changed_value sha st))
        (filter (\<lambda>(rel, st). sn_node st \<noteq> NDir
           \<and> checkpoint_entry_requires_manifest (dget prev rel) (stat_entry st)) walk))"
  using assms by (simp add: run_snapshot_def snapshot_step_fold)

lemma dget_filter: "dict_ok d \<Longrightarrow>
  dget (filter P d) k = (case dget d k of None \<Rightarrow> None | Some v \<Rightarrow> if P (k, v) then Some v else None)"
proof (induction d)
  case (Cons p d)
  obtain j v where p: "p = (j, v)" by force
  have "dget d j = None" using Cons.prems p by (simp add: dget_None_iff)
  then show ?case using Cons p by (auto split: option.splits)
qed simp

lemma snapshot_entries_dget:
  "dict_ok walk \<Longrightarrow> run_snapshot sha prev walk = (entries, changed) \<Longrightarrow>
     dget entries p = map_option stat_entry (dget walk p)"
  by (auto simp: run_snapshot_eq dget_map_values)

lemma snapshot_changed_dget:
  "dict_ok walk \<Longrightarrow> run_snapshot sha prev walk = (entries, changed) \<Longrightarrow>
     dget changed p = (case dget walk p of None \<Rightarrow> None
       | Some st \<Rightarrow> if sn_node st \<noteq> NDir \<and> checkpoint_entry_requires_manifest (dget prev p) (stat_entry st)
                   then Some (changed_value sha st) else None)"
  by (auto simp: run_snapshot_eq dget_map_values dget_filter split: option.splits)

lemma snapshot_changed_ok:
  "dict_ok walk \<Longrightarrow> run_snapshot sha prev walk = (entries, changed) \<Longrightarrow> dict_ok changed \<and> dict_ok entries"
  by (auto simp: run_snapshot_eq)

subsection \<open>Lemmas: the manifest and the store\<close>

text \<open>A store is sound when every blob has the digest it is filed under.\<close>

definition cas_sound :: "(string \<Rightarrow> string) \<Rightarrow> cas_store \<Rightarrow> bool" where
  "cas_sound sha cas \<longleftrightarrow> (\<forall>d c. cas d = Some c \<longrightarrow> sha c = d)"

text \<open>The changes a snapshot script prints, and blobs that cover what the store lacks.\<close>

definition changes_ok :: "(string \<Rightarrow> string) \<Rightarrow> (string \<times> pydict) list \<Rightarrow> bool" where
  "changes_ok sha changed \<longleftrightarrow>
     (\<forall>(rel, info) \<in> set changed. \<exists>st. sn_node st \<noteq> NDir \<and> info = changed_value sha st)"

definition blobs_cover ::
    "(string \<Rightarrow> string) \<Rightarrow> cas_store \<Rightarrow> (string \<times> pydict) list \<Rightarrow> (string \<times> string) list \<Rightarrow> bool" where
  "blobs_cover sha cas changed blobs \<longleftrightarrow>
     (\<forall>(rel, info) \<in> set changed. \<forall>d. pget info ''hash'' = PStr d \<longrightarrow> cas d = None \<longrightarrow>
        (\<exists>c. dget blobs rel = Some c \<and> sha c = d))"

definition file_digests :: "(string \<times> pydict) list \<Rightarrow> string set" where
  "file_digests changed = {d. \<exists>(rel, info) \<in> set changed.
     \<not> checkpoint_relpath_is_skipped rel \<and> pget info ''hash'' = PStr d}"

lemma blobs_cover_mono:
  "blobs_cover sha cas xs blobs \<Longrightarrow> cas \<subseteq>\<^sub>m cas' \<Longrightarrow> blobs_cover sha cas' xs blobs"
  by (fastforce simp: blobs_cover_def map_le_def dom_def)

lemma write_entry_ok:
  assumes "sn_node st \<noteq> NDir" "info = changed_value sha st"
    and "blobs_cover sha (ws_cas ws) [(rel, info)] blobs" "\<not> checkpoint_relpath_is_skipped rel"
  obtains cas n where
    "write_entry sha blobs (rel, info) ws =
       Inr \<lparr>ws_cas = cas, ws_entries = dput rel (PDict info) (ws_entries ws), ws_bytes = n\<rparr>"
    "ws_cas ws \<subseteq>\<^sub>m cas" "cas_sound sha (ws_cas ws) \<longrightarrow> cas_sound sha cas"
    "file_digests [(rel, info)] \<subseteq> dom cas"
proof (cases "sn_node st")
  case (NFile c m)
  then have info: "info = [(''hash'', PStr (sha c)), (''mode'', PInt (s_imode m)),
      (''size'', PInt (sn_size st)), (''mtime_ns'', PInt (sn_mtime st))]"
    using assms by (simp add: changed_value_def)
  show ?thesis
  proof (cases "ws_cas ws (sha c)")
    case None
    then obtain b where "dget blobs rel = Some b" "sha b = sha c"
      using assms(3) info by (auto simp: blobs_cover_def pget_def)
    then show ?thesis using None assms(4)
      by (intro that [of "(ws_cas ws)(sha c \<mapsto> b)" "ws_bytes ws + sn_size st"])
        (auto simp: write_entry_def info Let_def pget_or_def dict_item_def map_le_def cas_sound_def
          file_digests_def pget_def)
  next
    case (Some b)
    then show ?thesis using assms(4)
      by (intro that [of "ws_cas ws" "ws_bytes ws"])
        (auto simp: write_entry_def info Let_def pget_or_def dict_item_def file_digests_def pget_def)
  qed
next
  case (NLink t)
  then have info: "info = [(''type'', PStr ''symlink''), (''target'', PStr t)]"
    using assms by (simp add: changed_value_def)
  show ?thesis using assms(4)
    by (intro that [of "ws_cas ws" "ws_bytes ws"])
      (auto simp: write_entry_def info Let_def pget_or_def pget_def file_digests_def)
qed (use assms in simp)

definition manifest_entries_of :: "(string \<times> pydict) list \<Rightarrow> pydict" where
  "manifest_entries_of changed =
     map (\<lambda>(rel, info). (rel, PDict info))
       (filter (\<lambda>p. \<not> checkpoint_relpath_is_skipped (fst p)) changed)"

lemma manifest_entries_simps:
  "manifest_entries_of [] = []"
  "manifest_entries_of ((rel, info) # xs) =
     (if checkpoint_relpath_is_skipped rel then manifest_entries_of xs
      else (rel, PDict info) # manifest_entries_of xs)"
  by (simp_all add: manifest_entries_of_def)

lemma dget_manifest_entries:
  "dget (manifest_entries_of changed) p =
     (if checkpoint_relpath_is_skipped p then None else map_option PDict (dget changed p))"
  by (simp add: manifest_entries_of_def dget_map_values
      dget_filter_keys [of "\<lambda>k. \<not> checkpoint_relpath_is_skipped k"])

lemma write_entries_ok:
  assumes "changes_ok sha xs" "blobs_cover sha (ws_cas ws) xs blobs"
  shows "\<exists>ws'. rfold (write_entry sha blobs) xs ws = Inr ws'
     \<and> ws_entries ws' = dupdate (ws_entries ws) (manifest_entries_of xs)
     \<and> ws_cas ws \<subseteq>\<^sub>m ws_cas ws' \<and> (cas_sound sha (ws_cas ws) \<longrightarrow> cas_sound sha (ws_cas ws'))
     \<and> file_digests xs \<subseteq> dom (ws_cas ws')"
  using assms
proof (induction xs arbitrary: ws)
  case Nil
  then show ?case by (simp add: manifest_entries_simps dupdate_def file_digests_def)
next
  case (Cons x xs)
  obtain rel info where x: "x = (rel, info)" by force
  obtain st where st: "sn_node st \<noteq> NDir" "info = changed_value sha st" and ok: "changes_ok sha xs"
    using Cons.prems(1) x by (auto simp: changes_ok_def)
  have cover: "blobs_cover sha (ws_cas ws) xs blobs" "blobs_cover sha (ws_cas ws) [(rel, info)] blobs"
    using Cons.prems(2) x by (auto simp: blobs_cover_def)
  show ?case
  proof (cases "checkpoint_relpath_is_skipped rel")
    case True
    then have "file_digests (x # xs) = file_digests xs" by (auto simp: file_digests_def x)
    then show ?thesis using True Cons.IH [OF ok cover(1)]
      by (simp add: x write_entry_def manifest_entries_simps)
  next
    case False
    obtain cas n where w: "write_entry sha blobs (rel, info) ws =
         Inr \<lparr>ws_cas = cas, ws_entries = dput rel (PDict info) (ws_entries ws), ws_bytes = n\<rparr>"
      and cas: "ws_cas ws \<subseteq>\<^sub>m cas" "cas_sound sha (ws_cas ws) \<longrightarrow> cas_sound sha cas"
        "file_digests [(rel, info)] \<subseteq> dom cas"
      by (rule write_entry_ok [OF st cover(2) False])
    let ?ws = "\<lparr>ws_cas = cas, ws_entries = dput rel (PDict info) (ws_entries ws), ws_bytes = n\<rparr>"
    have fd: "file_digests (x # xs) = file_digests [(rel, info)] \<union> file_digests xs"
      by (auto simp: file_digests_def x)
    have "blobs_cover sha (ws_cas ?ws) xs blobs" using blobs_cover_mono [OF cover(1) cas(1)] by simp
    then obtain ws' where ws': "rfold (write_entry sha blobs) xs ?ws = Inr ws'"
        "ws_entries ws' = dupdate (ws_entries ?ws) (manifest_entries_of xs)"
        "cas \<subseteq>\<^sub>m ws_cas ws'" "cas_sound sha cas \<longrightarrow> cas_sound sha (ws_cas ws')"
        "file_digests xs \<subseteq> dom (ws_cas ws')"
      using Cons.IH [OF ok] by fastforce
    have "ws_cas ws \<subseteq>\<^sub>m ws_cas ws'" using cas(1) ws'(3) by (rule map_le_trans)
    moreover have "file_digests (x # xs) \<subseteq> dom (ws_cas ws')"
      using fd cas(3) ws'(3,5) map_le_implies_dom_le by blast
    ultimately show ?thesis
      using w cas(2) ws' False by (auto simp: x manifest_entries_simps dupdate_def)
  qed
qed

lemma changes_ok_sort: "changes_ok sha (sort_key fst xs) = changes_ok sha xs"
  by (simp add: changes_ok_def)

lemma blobs_cover_sort: "blobs_cover sha cas (sort_key fst xs) bs = blobs_cover sha cas xs bs"
  by (simp add: blobs_cover_def)

lemma file_digests_sort: "file_digests (sort_key fst xs) = file_digests xs"
  by (simp add: file_digests_def)

lemma write_manifest_ok:
  assumes "dict_ok changed" "changes_ok sha changed" "blobs_cover sha cas changed blobs"
  obtains es cas' n where
    "write_container_manifest sha cas changed deleted blobs =
       Inr ([(''entries'', PDict es), (''deleted_paths'', PList (map PStr
              (sort (filter (\<lambda>p. \<not> checkpoint_relpath_is_skipped p) deleted))))], cas', n)"
    "dict_ok es"
    "\<And>p. dget es p = (if checkpoint_relpath_is_skipped p then None else map_option PDict (dget changed p))"
    "cas \<subseteq>\<^sub>m cas'" "cas_sound sha cas \<longrightarrow> cas_sound sha cas'" "file_digests changed \<subseteq> dom cas'"
proof -
  let ?xs = "sort_key fst changed"
  obtain ws' where w: "rfold (write_entry sha blobs) ?xs \<lparr>ws_cas = cas, ws_entries = [], ws_bytes = 0\<rparr> = Inr ws'"
    and es: "ws_entries ws' = dupdate [] (manifest_entries_of ?xs)"
    and rest: "cas \<subseteq>\<^sub>m ws_cas ws'" "cas_sound sha cas \<longrightarrow> cas_sound sha (ws_cas ws')"
      "file_digests changed \<subseteq> dom (ws_cas ws')"
    using write_entries_ok [of sha ?xs "\<lparr>ws_cas = cas, ws_entries = [], ws_bytes = 0\<rparr>" blobs] assms
    by (auto simp: changes_ok_sort blobs_cover_sort file_digests_sort)
  have ok: "dict_ok (manifest_entries_of ?xs)"
    using assms(1) by (simp add: manifest_entries_of_def)
  show ?thesis
  proof (rule that)
    show "write_container_manifest sha cas changed deleted blobs =
       Inr ([(''entries'', PDict (ws_entries ws')), (''deleted_paths'', PList (map PStr
              (sort (filter (\<lambda>p. \<not> checkpoint_relpath_is_skipped p) deleted))))], ws_cas ws', ws_bytes ws')"
      by (simp add: write_container_manifest_def w)
    show "dict_ok (ws_entries ws')" by (simp add: es)
    show "dget (ws_entries ws') p =
        (if checkpoint_relpath_is_skipped p then None else map_option PDict (dget changed p))" for p
      using ok assms(1) by (simp add: es dget_dupdate dget_manifest_entries dget_sort_key split: option.splits)
  qed (use rest in auto)
qed

lemma changed_changes_ok:
  "dict_ok walk \<Longrightarrow> run_snapshot sha prev walk = (entries, changed) \<Longrightarrow> changes_ok sha changed"
  by (auto simp: run_snapshot_eq changes_ok_def)

subsection \<open>Lemmas: folding a captured manifest\<close>

lemma source_manifest_entries_dget:
  assumes "dict_ok raw"
    and "\<And>k v. (k, v) \<in> set raw \<Longrightarrow> \<not> checkpoint_relpath_is_skipped k \<Longrightarrow>
           source_cas_manifest_entry v = Inr (f v)"
  shows "\<exists>es. source_manifest_entries raw = Inr es \<and> dict_ok es \<and>
     (\<forall>p. dget es p = (if checkpoint_relpath_is_skipped p then None
        else case dget raw p of None \<Rightarrow> None | Some v \<Rightarrow> f v))"
proof -
  have loop: "\<exists>es. rfold add_source_entry raw acc = Inr es \<and> dict_ok es \<and>
     (\<forall>p. dget es p = (if checkpoint_relpath_is_skipped p then dget acc p
        else case dget raw p of None \<Rightarrow> dget acc p | Some v \<Rightarrow> f v))"
    if "dict_ok acc" "set (dkeys raw) \<inter> set (dkeys acc) = {}" for acc
    using assms that
  proof (induction raw arbitrary: acc)
    case (Cons x raw)
    obtain k v where x: "x = (k, v)" by force
    have k: "dget acc k = None" "dget raw k = None"
      using Cons.prems x by (auto simp: dget_None_iff)
    let ?acc = "if checkpoint_relpath_is_skipped k then acc
                else (case f v of None \<Rightarrow> acc | Some w \<Rightarrow> dput k w acc)"
    have step: "add_source_entry x acc = Inr ?acc"
      using Cons.prems(2) [of k v] by (simp add: x add_source_entry_def split: option.splits)
    have "dict_ok ?acc" "set (dkeys raw) \<inter> set (dkeys ?acc) = {}"
      using Cons.prems x by (simp_all split: option.splits)
    moreover have "dict_ok raw" using Cons.prems(1) x by simp
    moreover have "source_cas_manifest_entry v = Inr (f v)"
      if "(k, v) \<in> set raw" "\<not> checkpoint_relpath_is_skipped k" for k v
      using Cons.prems(2) [of k v] that by simp
    ultimately obtain es where es: "rfold add_source_entry raw ?acc = Inr es" "dict_ok es"
      "\<forall>p. dget es p = (if checkpoint_relpath_is_skipped p then dget ?acc p
        else case dget raw p of None \<Rightarrow> dget ?acc p | Some v \<Rightarrow> f v)"
      using Cons.IH [of ?acc] by blast
    have "dget es p = (if checkpoint_relpath_is_skipped p then dget acc p
        else case dget (x # raw) p of None \<Rightarrow> dget acc p | Some v \<Rightarrow> f v)" for p
      using es(3) k by (auto simp: x dict.get_put split: option.splits)
    then show ?case using step es by auto
  qed simp
  show ?thesis unfolding source_manifest_entries_def
    by (rule loop [of "[]", unfolded dget_Nil]) simp_all
qed

lemma pop_deleted_dget:
  "dget (pop_deleted (PList (map PStr ds)) acc) p =
     (if p \<in> set ds \<and> \<not> checkpoint_relpath_is_skipped p then None else dget acc p)"
proof (induction ds arbitrary: acc)
  case Nil
  then show ?case by (simp add: pop_deleted_def)
next
  case (Cons d ds)
  have "pop_deleted (PList (map PStr (d # ds))) acc =
      pop_deleted (PList (map PStr ds)) (if checkpoint_relpath_is_skipped d then acc else dpop d acc)"
    by (simp add: pop_deleted_def)
  then show ?case using Cons by (auto simp: dict.get_remove)
qed

text \<open>The manifest entry a tree holds at a path, as the replayer normalises it.\<close>

fun node_entry :: "(string \<Rightarrow> string) \<Rightarrow> node \<Rightarrow> pyval option" where
  "node_entry sha NDir = None"
| "node_entry sha (NFile c m) = Some (PDict [(''hash'', PStr (sha c)), (''mode'', PInt (s_imode m))])"
| "node_entry sha (NLink t) = Some (PDict [(''type'', PStr ''symlink''), (''target'', PStr t)])"

definition tree_view :: "(string \<Rightarrow> string) \<Rightarrow> tree \<Rightarrow> string \<Rightarrow> pyval option" where
  "tree_view sha t p =
     (if checkpoint_relpath_is_skipped p then None
      else case dget t p of None \<Rightarrow> None | Some st \<Rightarrow> node_entry sha (sn_node st))"

definition retyped :: "tree \<Rightarrow> tree \<Rightarrow> string \<Rightarrow> bool" where
  "retyped t0 t1 p =
     (case (dget t0 p, dget t1 p) of
        (Some a, Some b) \<Rightarrow> entry_type_of_node (sn_node a) \<noteq> entry_type_of_node (sn_node b)
      | _ \<Rightarrow> False)"

text \<open>What change detection relies on: a file whose size and modification time did not change
  has its old content and mode.\<close>

definition stat_detects_changes :: "(string \<Rightarrow> string) \<Rightarrow> tree \<Rightarrow> tree \<Rightarrow> bool" where
  "stat_detects_changes sha t0 t1 \<longleftrightarrow>
     list_all (\<lambda>(p, b). case dget t0 p of None \<Rightarrow> True
       | Some a \<Rightarrow> checkpoint_entry_requires_manifest (Some (stat_entry a)) (stat_entry b)
                 \<or> node_entry sha (sn_node a) = node_entry sha (sn_node b)) t1"

lemma source_entry_changed:
  "sn_node st \<noteq> NDir \<Longrightarrow>
     source_cas_manifest_entry (PDict (changed_value sha st)) = Inr (node_entry sha (sn_node st))"
  by (cases "sn_node st")
    (auto simp: source_cas_manifest_entry_def changed_value_def pget_or_def pget_def s_imode_def)

lemma s_imode_idem: "s_imode (s_imode m) = s_imode m"
  by (simp add: s_imode_def)

lemma deleted_paths_mem:
  assumes "dict_ok prev"
  shows "p \<in> set (compute_deleted_paths (Some prev) current) \<longleftrightarrow>
     \<not> checkpoint_relpath_is_skipped p \<and>
     (\<exists>e. dget prev p = Some e \<and> (case dget current p of None \<Rightarrow> True
        | Some c \<Rightarrow> checkpoint_snapshot_entry_type c \<noteq> checkpoint_snapshot_entry_type e))"
  using assms by (auto simp: compute_deleted_paths_def dget_eq_Some_iff image_iff Bex_def)

lemma requires_manifest_type:
  "entry_type_of_node (sn_node a) \<noteq> entry_type_of_node (sn_node b) \<Longrightarrow>
     checkpoint_entry_requires_manifest (Some (stat_entry a)) (stat_entry b)"
  by (simp add: checkpoint_entry_requires_manifest_def stat_entry_def)

lemma entry_type_dir [simp]: "entry_type_of_node n = PStr ''dir'' \<longleftrightarrow> n = NDir"
  by (cases n) auto

lemma incremental_fold_dget:
  assumes t: "dict_ok t0" "dict_ok t1" "stat_detects_changes sha t0 t1"
    and folded: "dget folded = tree_view sha t0"
    and snap: "run_snapshot sha (map (\<lambda>(p, st). (p, stat_entry st)) t0) t1 = (entries, changed)"
    and es: "source_manifest_entries es = Inr es'"
      "\<forall>p. dget es' p = (if checkpoint_relpath_is_skipped p then None
         else case dget changed p of None \<Rightarrow> None | Some i \<Rightarrow> (case dget t1 p of None \<Rightarrow> None | Some st \<Rightarrow> node_entry sha (sn_node st)))"
      "dict_ok es'"
    and del: "set deleted = set (filter (\<lambda>p. \<not> checkpoint_relpath_is_skipped p)
        (compute_deleted_paths (Some (map (\<lambda>(p, st). (p, stat_entry st)) t0)) entries))"
  shows "dget (pop_deleted (PList (map PStr deleted)) (dupdate folded es')) p =
     (if retyped t0 t1 p then None else tree_view sha t1 p)"
proof (cases "checkpoint_relpath_is_skipped p")
  case True
  then show ?thesis
    using es(2,3) folded by (simp add: pop_deleted_dget dget_dupdate tree_view_def)
next
  case False
  let ?prev = "map (\<lambda>(p, st). (p, stat_entry st)) t0"
  have inprev: "dict_ok ?prev" "dget ?prev p = map_option stat_entry (dget t0 p)"
    using t by (simp_all add: dget_map_values)
  have isdel: "p \<in> set deleted \<longleftrightarrow> (\<exists>a. dget t0 p = Some a \<and> (case dget t1 p of None \<Rightarrow> True
        | Some b \<Rightarrow> entry_type_of_node (sn_node b) \<noteq> entry_type_of_node (sn_node a)))"
    using False del deleted_paths_mem [OF inprev(1), of p entries] inprev(2) snapshot_entries_dget [OF t(2) snap, of p]
    by (auto simp: stat_entry_def split: option.splits)
  have dp: "dget (pop_deleted (PList (map PStr deleted)) (dupdate folded es')) p =
      (if p \<in> set deleted then None else case dget es' p of None \<Rightarrow> tree_view sha t0 p | Some v \<Rightarrow> Some v)"
    using False es(3) fun_cong [OF folded, of p] by (auto simp: pop_deleted_dget dget_dupdate split: option.splits)
  have ch: "dget es' p = (case dget t1 p of None \<Rightarrow> None
       | Some st \<Rightarrow> if sn_node st \<noteq> NDir
             \<and> checkpoint_entry_requires_manifest (map_option stat_entry (dget t0 p)) (stat_entry st)
           then node_entry sha (sn_node st) else None)"
    using False es(2) snapshot_changed_dget [OF t(2) snap, of p] inprev(2)
    by (auto split: option.splits)
  have sound: "node_entry sha (sn_node a) = node_entry sha (sn_node b)"
    if "dget t0 p = Some a" "dget t1 p = Some b"
      "\<not> checkpoint_entry_requires_manifest (Some (stat_entry a)) (stat_entry b)" for a b
    using t(3) that dget_SomeD [OF that(2)] by (fastforce simp: stat_detects_changes_def list_all_iff)
  show ?thesis
  proof (cases "dget t1 p")
    case None
    then show ?thesis using dp ch isdel False
      by (auto simp: retyped_def tree_view_def split: option.splits)
  next
    case b: (Some b)
    show ?thesis
    proof (cases "dget t0 p")
      case None
      then show ?thesis using b dp ch isdel False
        by (cases "sn_node b") (auto simp: retyped_def tree_view_def checkpoint_entry_requires_manifest_def)
    next
      case a: (Some a)
      show ?thesis
      proof (cases "entry_type_of_node (sn_node b) = entry_type_of_node (sn_node a)")
        case True
        then show ?thesis using a b dp ch isdel False sound [OF a b]
          by (cases "sn_node b"; cases "sn_node a") (auto simp: retyped_def tree_view_def)
      next
        case False
        then show ?thesis using a b dp isdel by (auto simp: retyped_def)
      qed
    qed
  qed
qed

subsection \<open>Properties\<close>

text \<open>After the digests of the missing blobs are verified, nothing is missing.\<close>

lemma verify_blobs_None:
  "verify_blobs sha changed blobs rels = None \<Longrightarrow> rel \<in> set rels \<Longrightarrow>
     \<exists>c. dget blobs rel = Some c
       \<and> Some (PStr (sha c)) = (case dget changed rel of None \<Rightarrow> None | Some i \<Rightarrow> dget i ''hash'')"
  by (induction rels) (auto split: option.splits if_splits)

lemma verify_blobs_cover:
  assumes "dict_ok changed" "changes_ok sha changed"
    and "verify_blobs sha changed blobs (missing_blob_paths cas changed) = None"
  shows "blobs_cover sha cas changed blobs"
  unfolding blobs_cover_def
proof (clarify)
  fix rel info d
  assume mem: "(rel, info) \<in> set changed" and h: "pget info ''hash'' = PStr d" and "cas d = None"
  obtain st where st: "sn_node st \<noteq> NDir" "info = changed_value sha st"
    using assms(2) mem by (auto simp: changes_ok_def)
  have "pget_or info ''type'' (PStr ''file'') = PStr ''file''"
    using st h by (cases "sn_node st") (auto simp: changed_value_def pget_def pget_or_def)
  then have "rel \<in> set (missing_blob_paths cas changed)"
    using mem h \<open>cas d = None\<close> by (force simp: missing_blob_paths_def)
  then obtain c where "dget blobs rel = Some c" "Some (PStr (sha c)) = dget info ''hash''"
    using verify_blobs_None [OF assms(3), of rel] mem dget_eq_Some_iff [OF assms(1), of rel info] by auto
  then show "\<exists>c. dget blobs rel = Some c \<and> sha c = d"
    using h by (auto simp: pget_def split: option.splits)
qed

text \<open>Every file entry of a written manifest has its blob in the store.\<close>

definition blobs_present :: "checkpoint_ok \<Rightarrow> cas_store \<Rightarrow> bool" where
  "blobs_present ok cas \<longleftrightarrow>
     (\<exists>es del. ck_manifest ok = [(''entries'', PDict es), del] \<and>
        (\<forall>p d h. dget es p = Some (PDict d) \<longrightarrow> pget d ''hash'' = PStr h \<longrightarrow> h \<in> dom cas))"

lemma checkpoint_write:
  assumes "dict_ok walk" "run_snapshot sha prev walk = (entries, changed)"
    and "verify_blobs sha changed blobs (missing_blob_paths cas changed) = None" "cas_sound sha cas"
  obtains es del cas' n where
    "write_container_manifest sha cas changed deleted blobs = Inr ([(''entries'', PDict es), del], cas', n)"
    "cas \<subseteq>\<^sub>m cas'" "cas_sound sha cas'"
    "\<forall>p d h. dget es p = Some (PDict d) \<longrightarrow> pget d ''hash'' = PStr h \<longrightarrow> h \<in> dom cas'"
proof -
  have ch: "dict_ok changed" "changes_ok sha changed"
    using snapshot_changed_ok [OF assms(1,2)] changed_changes_ok [OF assms(1,2)] by auto
  obtain es cas' n where w: "write_container_manifest sha cas changed deleted blobs =
       Inr ([(''entries'', PDict es), (''deleted_paths'', PList (map PStr
              (sort (filter (\<lambda>p. \<not> checkpoint_relpath_is_skipped p) deleted))))], cas', n)"
    and es: "\<And>p. dget es p = (if checkpoint_relpath_is_skipped p then None else map_option PDict (dget changed p))"
    and cas: "cas \<subseteq>\<^sub>m cas'" "cas_sound sha cas \<longrightarrow> cas_sound sha cas'" "file_digests changed \<subseteq> dom cas'"
    by (rule write_manifest_ok [OF ch verify_blobs_cover [OF ch assms(3)], of deleted]) blast
  have "\<forall>p d h. dget es p = Some (PDict d) \<longrightarrow> pget d ''hash'' = PStr h \<longrightarrow> h \<in> dom cas'"
    using es cas(3) by (force simp: file_digests_def dest: dget_SomeD split: if_splits)
  then show ?thesis using that w cas assms(4) by blast
qed

text \<open>C5: A container checkpoint never removes or corrupts a blob: the content-addressed store
  grows, every blob stays filed under its own digest, a failed or skipped checkpoint leaves
  the store as it was, and a successful one leaves a blob for every file of its manifest.\<close>

theorem checkpoint_keeps_store:
  assumes "\<And>walk. cv_walk cv = Inr walk \<Longrightarrow> dict_ok walk" and "cas_sound sha cas"
    and "run_container_checkpoint sha cv cas path since_ns prev force_full = (result, cas')"
  shows "cas \<subseteq>\<^sub>m cas' \<and> cas_sound sha cas'
     \<and> (case result of CkOk ok \<Rightarrow> blobs_present ok cas' | _ \<Rightarrow> cas' = cas)"
proof (cases "cv_walk cv")
  case (Inl e)
  then show ?thesis using assms(2,3)
    by (auto simp: run_container_checkpoint_def split: sum.splits)
next
  case (Inr walk)
  note walk = assms(1) [OF Inr]
  define sprev where "sprev = (if force_full then [] else case prev of None \<Rightarrow> [] | Some p \<Rightarrow> p)"
  obtain entries changed where snap: "run_snapshot sha sprev walk = (entries, changed)" by force
  let ?missing = "missing_blob_paths cas changed"
  show ?thesis
  proof (cases "\<exists>blobs. (if ?missing = [] then Inr [] else cv_fetch cv ?missing) = Inr blobs
      \<and> verify_blobs sha changed blobs ?missing = None")
    case True
    then obtain blobs where b: "(if ?missing = [] then Inr [] else cv_fetch cv ?missing) = Inr blobs"
      and v: "verify_blobs sha changed blobs ?missing = None" by blast
    obtain es del cas1 n where w: "write_container_manifest sha cas changed
        (compute_deleted_paths prev entries) blobs = Inr ([(''entries'', PDict es), del], cas1, n)"
      and c: "cas \<subseteq>\<^sub>m cas1" "cas_sound sha cas1"
        "\<forall>p d h. dget es p = Some (PDict d) \<longrightarrow> pget d ''hash'' = PStr h \<longrightarrow> h \<in> dom cas1"
      by (rule checkpoint_write [OF walk snap v assms(2)])
    show ?thesis using assms(2,3) c
      by (auto simp: run_container_checkpoint_def Inr sprev_def [symmetric] snap b v w Let_def
          blobs_present_def split: sum.splits if_splits)
  next
    case False
    then show ?thesis using assms(2,3)
      by (auto simp: run_container_checkpoint_def Inr sprev_def [symmetric] snap Let_def
          split: sum.splits if_splits option.splits)
  qed
qed


text \<open>The example: a file changes, a file becomes a link, a file is deleted, and one is new.\<close>

definition example_t0 :: tree where
  "example_t0 =
     [(''a'', \<lparr>sn_node = NFile ''one'' 420, sn_size = 3, sn_mtime = 10\<rparr>),
      (''b'', \<lparr>sn_node = NFile ''two'' 420, sn_size = 3, sn_mtime = 10\<rparr>),
      (''c'', \<lparr>sn_node = NFile ''three'' 420, sn_size = 5, sn_mtime = 10\<rparr>)]"

definition example_t1 :: tree where
  "example_t1 =
     [(''a'', \<lparr>sn_node = NFile ''uno'' 420, sn_size = 3, sn_mtime = 20\<rparr>),
      (''b'', \<lparr>sn_node = NLink ''a'', sn_size = 1, sn_mtime = 20\<rparr>),
      (''d'', \<lparr>sn_node = NFile ''four'' 493, sn_size = 4, sn_mtime = 20\<rparr>)]"

definition example_folded :: pydict where
  "example_folded =
     [(''a'', PDict [(''hash'', PStr ''one''), (''mode'', PInt 420)]),
      (''b'', PDict [(''hash'', PStr ''two''), (''mode'', PInt 420)]),
      (''c'', PDict [(''hash'', PStr ''three''), (''mode'', PInt 420)])]"

definition example_snapshot :: "(string \<times> snapshot_entry) list \<times> (string \<times> pydict) list" where
  "example_snapshot = run_snapshot id (map (\<lambda>(p, st). (p, stat_entry st)) example_t0) example_t1"

definition example_blobs :: "(string \<times> string) list" where
  "example_blobs = [(''a'', ''uno''), (''d'', ''four'')]"

lemma example_cover: "blobs_cover id Map.empty (snd example_snapshot) example_blobs"
proof -
  have "snd example_snapshot = [(''a'', changed_value id (snd (example_t1 ! 0))),
      (''b'', changed_value id (snd (example_t1 ! 1))), (''d'', changed_value id (snd (example_t1 ! 2)))]"
    by code_simp
  then show ?thesis
    by (simp add: blobs_cover_def example_t1_def changed_value_def pget_def example_blobs_def)
qed

definition example_view :: container_view where
  "example_view = \<lparr>cv_probe = Inr (), cv_walk = Inr example_t1, cv_now_ns = 30,
     cv_changed_during_walk = False, cv_fetch = (\<lambda>ps. Inr example_blobs)\<rparr>"

theorem checkpoint_keeps_store_witness:
  "\<exists>ok cas'. run_container_checkpoint id example_view Map.empty ''/t/b.json'' (Some 10)
       (Some (map (\<lambda>(p, st). (p, stat_entry st)) example_t0)) False = (CkOk ok, cas')
     \<and> cas_sound id cas' \<and> blobs_present ok cas'"
proof -
  let ?r = "run_container_checkpoint id example_view Map.empty ''/t/b.json'' (Some 10)
       (Some (map (\<lambda>(p, st). (p, stat_entry st)) example_t0)) False"
  have "case fst ?r of CkOk _ \<Rightarrow> True | _ \<Rightarrow> False" by code_simp
  then obtain ok cas' where r: "?r = (CkOk ok, cas')"
    by (cases ?r) (auto split: checkpoint_result.splits)
  have "Map.empty \<subseteq>\<^sub>m cas' \<and> cas_sound id cas'
     \<and> (case CkOk ok of CkOk ok \<Rightarrow> blobs_present ok cas' | _ \<Rightarrow> cas' = Map.empty)"
    by (rule checkpoint_keeps_store [OF _ _ r])
      (auto simp: example_view_def example_t1_def cas_sound_def)
  then show ?thesis using r by auto
qed

definition example_manifest :: "pydict" where
  "example_manifest =
     (case write_container_manifest id Map.empty (snd example_snapshot)
        (compute_deleted_paths (Some (map (\<lambda>(p, st). (p, stat_entry st)) example_t0)) (fst example_snapshot))
        example_blobs of Inr (m, _, _) \<Rightarrow> m | Inl _ \<Rightarrow> [])"

definition example_inc_spec :: pydict where
  "example_inc_spec = [(''path'', PStr ''/t/b.json''), (''kind'', PStr ''cas_manifest_incremental'')]"

definition example_inc_host :: host where
  "example_inc_host = \<lparr>h_is_file = (\<lambda>p. True), h_json = (\<lambda>p. JsonDoc (PDict example_manifest)),
     h_tar = (\<lambda>p. None), h_sha256 = id\<rparr>"


end
