(* ===== verification/CasRestore.thy ===== *)
theory CasRestore
  imports CasManifest "HOL-Library.Sublist"
begin

text \<open>
  Restoring a checkpoint in a container (\<open>_restore_cas_manifest_in_container\<close>,
  \<open>_restore_checkpoint_to_container\<close> and \<open>_restore_checkpoint_chain_to_container\<close> of
  \<open>src/trace_collect/simulator.py\<close>). The tree below the restore root is a map from relative
  paths, as lists of names, to nodes; the script is a function on it that raises or returns
  the new tree. Modification times are not part of the tree, and a path below a symbolic
  link is not followed. The lemmas refine the script to its effect on the leaves of the tree.
\<close>

subsection \<open>The container tree\<close>

datatype fnode = FDir | FFile string int | FLink string | FSpecial

type_synonym fs = "string list \<Rightarrow> fnode option"

record restore_env =
  re_sha256 :: "string \<Rightarrow> string"
  re_blob :: "string \<Rightarrow> string option"
  re_root_is_real :: bool
  re_preserved :: "string list"

text \<open>\<open>shutil.rmtree\<close> and \<open>os.unlink\<close>: the path and everything below it are gone.\<close>

definition remove_tree :: "string list \<Rightarrow> fs \<Rightarrow> fs" where
  "remove_tree p t = (\<lambda>q. if prefix p q then None else t q)"

definition lexists :: "fs \<Rightarrow> string list \<Rightarrow> bool" where
  "lexists t p \<longleftrightarrow> t p \<noteq> None"

subsection \<open>The restore script\<close>

definition prepare_root :: "restore_env \<Rightarrow> fs \<Rightarrow> fs res" where
  "prepare_root env t =
     (let t' = (case t [] of Some FDir \<Rightarrow> t | None \<Rightarrow> [[] \<mapsto> FDir] | Some _ \<Rightarrow> [[] \<mapsto> FDir]) in
      if re_root_is_real env then Inr t'
      else Inl (RuntimeError ''checkpoint root symlinks are unsupported''))"

text \<open>The target of a relative path: an absolute path, a \<open>..\<close> component, or a path that
  normalises to the root itself is refused.\<close>

definition safe_target :: "pyval \<Rightarrow> string list res" where
  "safe_target v =
     (case v of
        PStr relpath \<Rightarrow>
          if relpath = [] \<or> is_absolute relpath \<or> ''..'' \<in> set (split_char CHR 0x2F relpath)
             \<or> path_parts relpath = []
          then Inl (RuntimeError ''unsafe checkpoint path'')
          else Inr (path_parts relpath)
      | _ \<Rightarrow> Inl (RuntimeError ''unsafe checkpoint path''))"

text \<open>A symlink whose target leaves the root is only logged.\<close>

definition safe_symlink_target :: "string \<Rightarrow> pyval \<Rightarrow> (string list \<times> string) res" where
  "safe_symlink_target relpath link_target =
     (case link_target of
        PStr s \<Rightarrow>
          if s = [] then Inl (RuntimeError ''unsafe checkpoint symlink target'')
          else rbind (safe_target (PStr relpath)) (\<lambda>p. Inr (p, s))
      | _ \<Rightarrow> Inl (RuntimeError ''unsafe checkpoint symlink target''))"

fun ensure_dirs :: "string list \<Rightarrow> string list \<Rightarrow> fs \<Rightarrow> fs res" where
  "ensure_dirs current [] t = Inr t"
| "ensure_dirs current (part # parts) t =
     (let cur = current @ [part] in
      case t cur of
        None \<Rightarrow> ensure_dirs cur parts (t(cur \<mapsto> FDir))
      | Some FDir \<Rightarrow> ensure_dirs cur parts t
      | Some _ \<Rightarrow> Inl (RuntimeError ''unsafe checkpoint parent path''))"

definition ensure_parent_dir :: "string list \<Rightarrow> fs \<Rightarrow> fs res" where
  "ensure_parent_dir target t = ensure_dirs [] (butlast target) t"

definition is_preserved_relpath :: "restore_env \<Rightarrow> string \<Rightarrow> bool" where
  "is_preserved_relpath env relpath \<longleftrightarrow> hd (split_char CHR 0x2F relpath) \<in> set (re_preserved env)"

text \<open>\<open>os.listdir(root)\<close> without the preserved names, each removed.\<close>

definition clear_tree :: "restore_env \<Rightarrow> fs \<Rightarrow> fs" where
  "clear_tree env t = (\<lambda>q. case q of [] \<Rightarrow> t q | n # _ \<Rightarrow> if n \<in> set (re_preserved env) then t q else None)"

definition delete_step :: "restore_env \<Rightarrow> string \<Rightarrow> fs \<Rightarrow> fs res" where
  "delete_step env del_path t =
     (if is_preserved_relpath env del_path then Inr t
      else rbind (safe_target (PStr del_path)) (\<lambda>target.
        if lexists t target then Inr (remove_tree target t) else Inr t))"

definition deletion_order :: "string list \<Rightarrow> string list" where
  "deletion_order deleted = sort_key (\<lambda>p. - int (length (filter (\<lambda>c. c = CHR 0x2F) p))) deleted"

text \<open>The classification loop: file entries and link entries, in the order of the manifest.\<close>

definition classify_step ::
    "restore_env \<Rightarrow> string \<times> pyval \<Rightarrow> (string \<times> pydict) list \<times> (string \<times> pydict) list \<Rightarrow>
     ((string \<times> pydict) list \<times> (string \<times> pydict) list) res" where
  "classify_step env p acc =
     (let (relpath, entry) = p; (files, links) = acc in
      if is_preserved_relpath env relpath then Inr acc
      else
        case entry of
          PDict d \<Rightarrow>
            (let entry_type = pget_or d ''type'' (PStr ''file'') in
             if entry_type = PStr ''symlink'' then Inr (files, links @ [(relpath, d)])
             else if entry_type \<noteq> PStr ''file'' then
               Inl (RuntimeError ''unsupported checkpoint manifest entry type'')
             else Inr (files @ [(relpath, d)], links))
        | _ \<Rightarrow> Inl (RuntimeError ''invalid checkpoint manifest entry''))"

text \<open>The blob of a file entry, read from the store and verified, and the mode it gets.\<close>

definition entry_blob :: "restore_env \<Rightarrow> pydict \<Rightarrow> string res" where
  "entry_blob env d =
     (case dget d ''hash'' of
        None \<Rightarrow> Inl (KeyError ''hash'')
      | Some (PStr hash_val) \<Rightarrow>
          (case re_blob env hash_val of
             None \<Rightarrow> Inl (OSError ''No such file or directory'')
           | Some content \<Rightarrow>
               if re_sha256 env content \<noteq> hash_val
               then Inl (RuntimeError ''checkpoint blob digest mismatch'')
               else Inr content)
      | Some _ \<Rightarrow> Inl (TypeError ''unhashable slice''))"

definition entry_mode :: "pydict \<Rightarrow> int res" where
  "entry_mode d =
     (case pget_or d ''mode'' (PInt 420) of
        PInt m \<Rightarrow> Inr (m mod 4096)
      | PBool b \<Rightarrow> Inr (if b then 1 else 0)
      | _ \<Rightarrow> Inl (TypeError ''an integer is required''))"

definition write_file :: "restore_env \<Rightarrow> string \<times> pydict \<Rightarrow> fs \<Rightarrow> fs res" where
  "write_file env p t =
     (let (relpath, entry) = p in
      rbind (entry_blob env entry) (\<lambda>content.
      rbind (safe_target (PStr relpath)) (\<lambda>target.
      rbind (ensure_parent_dir target t) (\<lambda>t1.
      rbind (case t1 target of
               Some (FLink _) \<Rightarrow> Inl (RuntimeError ''checkpoint target symlinks are unsupported'')
             | Some FDir \<Rightarrow> Inr (remove_tree target t1)
             | Some FSpecial \<Rightarrow> Inl (RuntimeError ''checkpoint special targets are unsupported'')
             | _ \<Rightarrow> Inr t1) (\<lambda>t2.
      rbind (entry_mode entry) (\<lambda>m.
        Inr (t2(target \<mapsto> FFile content m))))))))"

definition write_link :: "string \<times> pydict \<Rightarrow> fs \<Rightarrow> fs res" where
  "write_link p t =
     (let (relpath, entry) = p in
      rbind (safe_symlink_target relpath (pget entry ''target'')) (\<lambda>(target, link_target).
      rbind (ensure_parent_dir target t) (\<lambda>t1.
        let t2 = (if lexists t1 target then remove_tree target t1 else t1) in
        Inr (t2(target \<mapsto> FLink link_target)))))"

definition deleted_strings :: "pyval list \<Rightarrow> string list" where
  "deleted_strings vs = List.map_filter (\<lambda>v. case v of PStr s \<Rightarrow> Some s | _ \<Rightarrow> None) vs"

definition restore_manifest :: "restore_env \<Rightarrow> pyval \<Rightarrow> bool \<Rightarrow> fs \<Rightarrow> fs res" where
  "restore_manifest env manifest clear_root t =
     rbind (prepare_root env t) (\<lambda>t0.
     case manifest of
       PDict d \<Rightarrow>
         (case pget_or d ''entries'' (PDict []) of
            PDict entries \<Rightarrow>
              (case pget_or d ''deleted_paths'' (PList []) of
                 PList deleted \<Rightarrow>
                   rbind (rmap safe_target (map (\<lambda>k. PStr k) (dkeys entries) @ deleted)) (\<lambda>_.
                   rbind (if clear_root then Inr (clear_tree env t0)
                          else rfold (delete_step env) (deletion_order (deleted_strings deleted)) t0) (\<lambda>t1.
                   rbind (rfold (classify_step env) entries ([], [])) (\<lambda>(files, links).
                   rbind (rfold (write_file env) files t1) (rfold write_link links))))
               | _ \<Rightarrow> Inl (RuntimeError ''checkpoint manifest has invalid deleted_paths''))
          | _ \<Rightarrow> Inl (RuntimeError ''checkpoint manifest missing entries dict''))
     | _ \<Rightarrow> Inl (AttributeError ''get''))"

subsection \<open>Lemmas: the tree operations\<close>

text \<open>A tree is well formed when everything in it has a directory as its parent; its leaves
  are its files, links and special files.\<close>

definition wf_tree :: "fs \<Rightarrow> bool" where
  "wf_tree t \<longleftrightarrow> t [] = Some FDir \<and> (\<forall>p. p \<noteq> [] \<longrightarrow> t p \<noteq> None \<longrightarrow> t (butlast p) = Some FDir)"

definition leaf :: "fs \<Rightarrow> fs" where
  "leaf t = (\<lambda>q. case t q of Some FDir \<Rightarrow> None | n \<Rightarrow> n)"

definition put_leaf :: "string list \<Rightarrow> fnode \<Rightarrow> fs \<Rightarrow> fs" where
  "put_leaf p n l = (\<lambda>q. if q = p then Some n else if prefix p q then None else l q)"

lemma wf_below:
  assumes "wf_tree t" "t p \<noteq> Some FDir" "strict_prefix p q"
  shows "t q = None"
  using assms(3)
proof (induction q rule: rev_induct)
  case (snoc x q)
  then have "prefix p q" by (auto simp: strict_prefix_def)
  then have "t q \<noteq> Some FDir" using snoc.IH assms(2) by (cases "q = p") (auto simp: strict_prefix_def)
  then show ?case using assms(1) by (force simp: wf_tree_def)
qed simp

lemma remove_absent: "wf_tree t \<Longrightarrow> t p = None \<Longrightarrow> remove_tree p t = t"
proof
  fix q
  assume "wf_tree t" "t p = None"
  then show "remove_tree p t q = t q"
    using wf_below [of t p q] by (cases "p = q") (auto simp: remove_tree_def strict_prefix_def)
qed

lemma prefix_butlastI: "prefix p (butlast q) \<Longrightarrow> prefix p q"
  by (metis prefix_order.trans prefixeq_butlast)

lemma wf_remove_tree: "wf_tree t \<Longrightarrow> p \<noteq> [] \<Longrightarrow> wf_tree (remove_tree p t)"
  by (auto simp: wf_tree_def remove_tree_def dest: prefix_butlastI)

lemma leaf_remove_tree: "leaf (remove_tree p t) = (\<lambda>q. if prefix p q then None else leaf t q)"
  by (auto simp: leaf_def remove_tree_def)

lemma put_node:
  assumes "wf_tree t" "p \<noteq> []" "t (butlast p) = Some FDir" "n \<noteq> FDir"
  shows "wf_tree ((remove_tree p t)(p \<mapsto> n))" and "leaf ((remove_tree p t)(p \<mapsto> n)) = put_leaf p n (leaf t)"
proof -
  have "\<not> prefix p (butlast p)" using assms(2)
    by (metis append_butlast_last_id not_Cons_self2 prefix_order.antisym prefixeq_butlast self_append_conv)
  moreover have "p \<noteq> butlast q" if "remove_tree p t q \<noteq> None" "q \<noteq> []" for q
    using that by (auto simp: remove_tree_def prefixeq_butlast split: if_splits)
  ultimately show "wf_tree ((remove_tree p t)(p \<mapsto> n))"
    using wf_remove_tree [OF assms(1,2)] assms(2,3) by (auto simp: wf_tree_def remove_tree_def)
  show "leaf ((remove_tree p t)(p \<mapsto> n)) = put_leaf p n (leaf t)"
    using assms(4) by (auto simp: leaf_def put_leaf_def remove_tree_def fun_eq_iff split: fnode.splits)
qed

lemma ensure_dirs_ok:
  "ensure_dirs cur parts t = Inr t' \<Longrightarrow> wf_tree t \<Longrightarrow> t cur = Some FDir \<Longrightarrow>
     wf_tree t' \<and> leaf t' = leaf t \<and> t' (cur @ parts) = Some FDir"
proof (induction cur parts t rule: ensure_dirs.induct)
  case (2 cur part parts t)
  let ?c = "cur @ [part]"
  show ?case
  proof (cases "t ?c")
    case None
    have "wf_tree (t(?c \<mapsto> FDir))" using 2(4,5) None by (auto simp: wf_tree_def)
    moreover have "leaf (t(?c \<mapsto> FDir)) = leaf t" using None by (auto simp: leaf_def fun_eq_iff)
    moreover have "ensure_dirs ?c parts (t(?c \<mapsto> FDir)) = Inr t'" using 2(3) None by (simp add: Let_def)
    ultimately show ?thesis
      using 2(1) [OF refl None] by (simp add: fun_upd_same del: fun_upd_apply)
  next
    case (Some n)
    then show ?thesis using 2 by (cases n) (auto simp: Let_def)
  qed
qed simp

lemma safe_target_ok: "safe_target v = Inr p \<Longrightarrow> \<exists>s. v = PStr s \<and> p = path_parts s \<and> p \<noteq> []"
  by (cases v) (auto simp: safe_target_def split: if_splits)

definition file_node :: "restore_env \<Rightarrow> pydict \<Rightarrow> fnode" where
  "file_node env d = (case (entry_blob env d, entry_mode d) of
     (Inr c, Inr m) \<Rightarrow> FFile c m | _ \<Rightarrow> FSpecial)"

definition link_node :: "pydict \<Rightarrow> fnode" where
  "link_node d = (case pget d ''target'' of PStr s \<Rightarrow> FLink s | _ \<Rightarrow> FSpecial)"

lemma write_file_ok:
  assumes "write_file env (rel, d) t = Inr t'" "wf_tree t"
  shows "wf_tree t' \<and> leaf t' = put_leaf (path_parts rel) (file_node env d) (leaf t)"
proof -
  obtain c p t1 t2 m where c: "entry_blob env d = Inr c" and p: "safe_target (PStr rel) = Inr p"
    and t1: "ensure_parent_dir p t = Inr t1" and m: "entry_mode d = Inr m"
    and t2: "(case t1 p of
               Some (FLink _) \<Rightarrow> Inl (RuntimeError ''checkpoint target symlinks are unsupported'')
             | Some FDir \<Rightarrow> Inr (remove_tree p t1)
             | Some FSpecial \<Rightarrow> Inl (RuntimeError ''checkpoint special targets are unsupported'')
             | _ \<Rightarrow> Inr t1) = Inr t2"
    and t': "t' = t2(p \<mapsto> FFile c m)"
    using assms(1) by (auto simp: write_file_def rbind_eq_Inr)
  have pp: "p = path_parts rel" "p \<noteq> []" using safe_target_ok [OF p] by auto
  have w: "wf_tree t1" "leaf t1 = leaf t" "t1 (butlast p) = Some FDir"
    using ensure_dirs_ok [of "[]" "butlast p" t t1] t1 assms(2) by (auto simp: ensure_parent_dir_def wf_tree_def)
  have "t2 = (if t1 p = Some FDir then remove_tree p t1 else t1)"
    using t2 by (auto split: option.splits fnode.splits)
  then have "t2(p \<mapsto> FFile c m) = (remove_tree p t1)(p \<mapsto> FFile c m)"
    using wf_below [OF w(1), of p] by (auto simp: remove_tree_def fun_eq_iff strict_prefix_def)
  then show ?thesis using put_node [OF w(1) pp(2) w(3), of "FFile c m"] w(2) t' c m pp(1)
    by (simp add: file_node_def)
qed

lemma write_link_ok:
  assumes "write_link (rel, d) t = Inr t'" "wf_tree t"
  shows "wf_tree t' \<and> leaf t' = put_leaf (path_parts rel) (link_node d) (leaf t)"
proof -
  obtain s p t1 where s: "pget d ''target'' = PStr s" and p: "safe_target (PStr rel) = Inr p"
    and t1: "ensure_parent_dir p t = Inr t1"
    and t': "t' = (if lexists t1 p then remove_tree p t1 else t1)(p \<mapsto> FLink s)"
    using assms(1)
    by (auto simp: write_link_def rbind_eq_Inr safe_symlink_target_def Let_def split: pyval.splits if_splits)
  have pp: "p = path_parts rel" "p \<noteq> []" using safe_target_ok [OF p] by auto
  have w: "wf_tree t1" "leaf t1 = leaf t" "t1 (butlast p) = Some FDir"
    using ensure_dirs_ok [of "[]" "butlast p" t t1] t1 assms(2) by (auto simp: ensure_parent_dir_def wf_tree_def)
  have "t' = (remove_tree p t1)(p \<mapsto> FLink s)"
    using t' remove_absent [OF w(1)] by (auto simp: lexists_def)
  then show ?thesis using put_node [OF w(1) pp(2) w(3), of "FLink s"] w(2) s pp(1)
    by (simp add: link_node_def)
qed

lemma delete_step_ok:
  assumes "delete_step env d t = Inr t'" "wf_tree t"
  shows "wf_tree t' \<and> leaf t' =
    (\<lambda>q. if \<not> is_preserved_relpath env d \<and> prefix (path_parts d) q then None else leaf t q)"
proof (cases "is_preserved_relpath env d")
  case False
  then obtain p where p: "safe_target (PStr d) = Inr p" "t' = (if lexists t p then remove_tree p t else t)"
    using assms(1) by (auto simp: delete_step_def rbind_eq_Inr split: if_splits)
  then have "t' = remove_tree p t" using remove_absent [OF assms(2)] by (auto simp: lexists_def)
  then show ?thesis using p(1) False assms(2) safe_target_ok [OF p(1)]
    by (auto simp: wf_remove_tree leaf_remove_tree)
qed (use assms in \<open>auto simp: delete_step_def\<close>)

subsection \<open>Lemmas: the whole script\<close>

definition file_entries :: "restore_env \<Rightarrow> pydict \<Rightarrow> (string \<times> pydict) list" where
  "file_entries env entries = List.map_filter (\<lambda>(rel, e). case e of
     PDict d \<Rightarrow> if \<not> is_preserved_relpath env rel \<and> pget_or d ''type'' (PStr ''file'') = PStr ''file''
                then Some (rel, d) else None
   | _ \<Rightarrow> None) entries"

definition link_entries :: "restore_env \<Rightarrow> pydict \<Rightarrow> (string \<times> pydict) list" where
  "link_entries env entries = List.map_filter (\<lambda>(rel, e). case e of
     PDict d \<Rightarrow> if \<not> is_preserved_relpath env rel \<and> pget_or d ''type'' (PStr ''file'') = PStr ''symlink''
                then Some (rel, d) else None
   | _ \<Rightarrow> None) entries"

lemma classify_ok:
  "rfold (classify_step env) entries (fs, ls) = Inr r \<Longrightarrow>
     r = (fs @ file_entries env entries, ls @ link_entries env entries)"
proof (induction entries arbitrary: fs ls)
  case (Cons x entries)
  obtain rel e where x: "x = (rel, e)" by force
  obtain f2 l2 where step: "classify_step env x (fs, ls) = Inr (f2, l2)"
    and rest: "rfold (classify_step env) entries (f2, l2) = Inr r"
    using Cons.prems by (auto simp: rbind_eq_Inr)
  have "f2 = fs @ file_entries env [x] \<and> l2 = ls @ link_entries env [x]"
    using step by (auto simp: x classify_step_def file_entries_def link_entries_def List.map_filter_def Let_def
        split: if_splits pyval.splits)
  then show ?case using Cons.IH [OF rest]
    by (simp add: file_entries_def link_entries_def List.map_filter_def)
qed (simp add: file_entries_def link_entries_def List.map_filter_def)

lemma write_files_ok:
  "rfold (write_file env) files t = Inr t' \<Longrightarrow> wf_tree t \<Longrightarrow>
     wf_tree t' \<and> leaf t' = fold (\<lambda>(rel, d). put_leaf (path_parts rel) (file_node env d)) files (leaf t)"
proof (induction files arbitrary: t)
  case (Cons x files)
  then show ?case by (cases x) (auto simp: rbind_eq_Inr dest: write_file_ok)
qed simp

lemma write_links_ok:
  "rfold write_link links t = Inr t' \<Longrightarrow> wf_tree t \<Longrightarrow>
     wf_tree t' \<and> leaf t' = fold (\<lambda>(rel, d). put_leaf (path_parts rel) (link_node d)) links (leaf t)"
proof (induction links arbitrary: t)
  case (Cons x links)
  then show ?case by (cases x) (auto simp: rbind_eq_Inr dest: write_link_ok)
qed simp

lemma deletes_ok:
  "rfold (delete_step env) ds t = Inr t' \<Longrightarrow> wf_tree t \<Longrightarrow>
     wf_tree t' \<and> leaf t' = (\<lambda>q. if list_ex (\<lambda>d. \<not> is_preserved_relpath env d \<and> prefix (path_parts d) q) ds
                                then None else leaf t q)"
proof (induction ds arbitrary: t)
  case (Cons d ds)
  then obtain u where "delete_step env d t = Inr u" "rfold (delete_step env) ds u = Inr t'"
    by (auto simp: rbind_eq_Inr)
  then show ?case using Cons delete_step_ok [of env d t u] by (auto simp: fun_eq_iff)
qed simp

lemma list_ex_deletion_order: "list_ex P (deletion_order ds) = list_ex P ds"
  by (simp add: deletion_order_def list_ex_iff)

lemma wf_clear_tree: "wf_tree t \<Longrightarrow> wf_tree (clear_tree env t)"
  unfolding wf_tree_def clear_tree_def
  by (auto split: list.splits if_splits)

lemma leaf_clear_tree:
  "leaf (clear_tree env t) = (\<lambda>q. if q \<noteq> [] \<and> hd q \<notin> set (re_preserved env) then None else leaf t q)"
  by (auto simp: leaf_def clear_tree_def fun_eq_iff split: list.splits)

text \<open>The nodes of a manifest with the paths they go to, files before links.\<close>

definition manifest_nodes :: "restore_env \<Rightarrow> pydict \<Rightarrow> (string list \<times> fnode) list" where
  "manifest_nodes env entries =
     map (\<lambda>(rel, d). (path_parts rel, file_node env d)) (file_entries env entries)
     @ map (\<lambda>(rel, d). (path_parts rel, link_node d)) (link_entries env entries)"

text \<open>No node of the manifest lies at or below another.\<close>

fun antichain :: "string list list \<Rightarrow> bool" where
  "antichain [] = True"
| "antichain (p # ps) = (list_all (\<lambda>q. \<not> prefix p q \<and> \<not> prefix q p) ps \<and> antichain ps)"

text \<open>What a restore makes of the leaves of the tree.\<close>

definition restored_leaves :: "restore_env \<Rightarrow> bool \<Rightarrow> string list \<Rightarrow> pydict \<Rightarrow> fs \<Rightarrow> fs" where
  "restored_leaves env clear_root deleted entries l = (\<lambda>q.
     case map_of (manifest_nodes env entries) q of
       Some n \<Rightarrow> Some n
     | None \<Rightarrow>
         if list_ex (\<lambda>(p, n). prefix p q) (manifest_nodes env entries) then None
         else if clear_root then (if q \<noteq> [] \<and> hd q \<notin> set (re_preserved env) then None else l q)
         else if list_ex (\<lambda>d. \<not> is_preserved_relpath env d \<and> prefix (path_parts d) q) deleted then None
         else l q)"

lemma put_leaves:
  "antichain (map fst ns) \<Longrightarrow>
     fold (\<lambda>(p, n). put_leaf p n) ns l = (\<lambda>q. case map_of ns q of Some n \<Rightarrow> Some n
       | None \<Rightarrow> if list_ex (\<lambda>(p, n). prefix p q) ns then None else l q)"
proof (induction ns arbitrary: l)
  case (Cons x ns)
  obtain p n where x: "x = (p, n)" by force
  have "map_of ns p = None" "\<not> list_ex (\<lambda>(p', n). prefix p' p) ns"
    using Cons.prems x by (force simp: list_all_iff list_ex_iff map_of_eq_None_iff)+
  then show ?case using Cons x by (auto simp: put_leaf_def fun_eq_iff split: option.splits)
qed simp

lemma restore_ok:
  assumes "restore_manifest env (PDict d) clear_root t = Inr t'" "wf_tree t"
  obtains entries deleted where "pget_or d ''entries'' (PDict []) = PDict entries"
    "pget_or d ''deleted_paths'' (PList []) = PList deleted" "wf_tree t'"
    "antichain (map fst (manifest_nodes env entries)) \<Longrightarrow>
       leaf t' = restored_leaves env clear_root (deleted_strings deleted) entries (leaf t)"
proof -
  have t0: "x = t" if "prepare_root env t = Inr x" for x
    using that assms(2) by (auto simp: prepare_root_def wf_tree_def Let_def split: if_splits)
  obtain entries where e: "pget_or d ''entries'' (PDict []) = PDict entries"
    using assms(1)
    by (cases "pget_or d ''entries'' (PDict [])") (auto simp: restore_manifest_def rbind_eq_Inr)
  obtain deleted where del: "pget_or d ''deleted_paths'' (PList []) = PList deleted"
    using assms(1)
    by (cases "pget_or d ''deleted_paths'' (PList [])") (auto simp: restore_manifest_def rbind_eq_Inr e)
  note d = e del
  obtain t1 files links t2
    where t1: "(if clear_root then Inr (clear_tree env t)
          else rfold (delete_step env) (deletion_order (deleted_strings deleted)) t) = Inr t1"
    and cl: "rfold (classify_step env) entries ([], []) = Inr (files, links)"
    and t2: "rfold (write_file env) files t1 = Inr t2" and t': "rfold write_link links t2 = Inr t'"
    using assms(1) unfolding restore_manifest_def rbind_eq_Inr
    by (auto simp: rbind_eq_Inr e del dest: t0)
  have fl: "files = file_entries env entries" "links = link_entries env entries"
    using classify_ok [OF cl] by auto
  have w1: "wf_tree t1" and l1: "leaf t1 = (\<lambda>q. if clear_root
      then (if q \<noteq> [] \<and> hd q \<notin> set (re_preserved env) then None else leaf t q)
      else if list_ex (\<lambda>d. \<not> is_preserved_relpath env d \<and> prefix (path_parts d) q) (deleted_strings deleted)
      then None else leaf t q)"
    using t1 deletes_ok [of env "deletion_order (deleted_strings deleted)" t t1] assms(2)
    by (cases clear_root; auto simp: wf_clear_tree leaf_clear_tree list_ex_deletion_order)+
  have w2: "wf_tree t2" "leaf t2 = fold (\<lambda>(rel, d). put_leaf (path_parts rel) (file_node env d)) files (leaf t1)"
    using write_files_ok [OF t2 w1] by auto
  have w3: "wf_tree t'" "leaf t' = fold (\<lambda>(rel, d). put_leaf (path_parts rel) (link_node d)) links (leaf t2)"
    using write_links_ok [OF t' w2(1)] by auto
  have "leaf t' = fold (\<lambda>(p, n). put_leaf p n) (manifest_nodes env entries) (leaf t1)"
    by (simp add: w3 w2 fl manifest_nodes_def fold_map comp_def case_prod_unfold)
  then show ?thesis using that [OF d w3(1)] l1 put_leaves [of "manifest_nodes env entries" "leaf t1"]
    by (simp add: restored_leaves_def cong: option.case_cong if_cong)
qed

subsection \<open>Restoring a checkpoint and a chain\<close>

text \<open>The dictionary of fields a restore reports, without the measured times. The container
  tree is \<open>None\<close> once a failed script may have left it half restored.\<close>

definition checkpoint_restore_base_fields :: "string \<Rightarrow> string \<Rightarrow> string \<Rightarrow> int option \<Rightarrow> pydict" where
  "checkpoint_restore_base_fields checkpoint_path kind restore_root size_bytes =
     [(''checkpoint_kind'', PStr kind), (''checkpoint_path'', PStr checkpoint_path),
      (''checkpoint_root'', PStr restore_root), (''restore_overhead_excluded'', PBool True),
      (''forced_sync_checkpoint_kind'', PStr kind), (''forced_sync_checkpoint'', PStr checkpoint_path),
      (''forced_sync_root'', PStr restore_root)]
     @ (case size_bytes of None \<Rightarrow> [] | Some n \<Rightarrow> [(''checkpoint_size_bytes'', PInt n)])"

definition checkpoint_restore_failed_fields ::
    "string \<Rightarrow> string \<Rightarrow> string \<Rightarrow> string \<Rightarrow> string \<Rightarrow> bool option \<Rightarrow> int option \<Rightarrow> pydict" where
  "checkpoint_restore_failed_fields checkpoint_path kind restore_root status error archive_exists size_bytes =
     checkpoint_restore_base_fields checkpoint_path kind restore_root size_bytes
     @ [(''forced_sync_success'', PBool False), (''forced_sync_status'', PStr status),
        (''forced_sync_error'', PStr error), (''forced_sync_resolved'', PBool False),
        (''forced_sync_continued'', PBool False)]
     @ (case archive_exists of None \<Rightarrow> [] | Some b \<Rightarrow> [(''checkpoint_archive_exists'', PBool b)])"

definition restore_checkpoint_to_container ::
    "host \<Rightarrow> (string \<Rightarrow> int) \<Rightarrow> restore_env \<Rightarrow> pydict \<Rightarrow> bool \<Rightarrow> fs \<Rightarrow> (pydict \<times> fs option) res" where
  "restore_checkpoint_to_container h size_of env checkpoint_spec clear_root t =
     (let checkpoint_path = path_str (py_str (pget checkpoint_spec ''path''));
          kind = py_str (por (pget checkpoint_spec ''kind'') (PStr ''cas_manifest''));
          restore_root = py_str (por (pget checkpoint_spec ''root'') (PStr ''/testbed''));
          failed = (\<lambda>status error archive_exists sz.
            checkpoint_restore_failed_fields checkpoint_path kind restore_root status error
              (Some archive_exists) sz);
          size_bytes = size_of checkpoint_path in
      if kind \<notin> {''cas_manifest_full'', ''cas_manifest_incremental''} then
        Inr (failed ''checkpoint_restore_failed'' (''unsupported checkpoint kind: '' @ kind)
           (h_is_file h checkpoint_path) None, Some t)
      else if \<not> h_is_file h checkpoint_path then
        Inr (failed ''checkpoint_missing'' (''checkpoint not found: '' @ checkpoint_path) False None, Some t)
      else
        (case h_json h checkpoint_path of
          ReadError \<Rightarrow> Inr (failed ''checkpoint_restore_failed'' ''invalid checkpoint manifest'' True
                 (Some size_bytes), Some t)
        | JsonError \<Rightarrow> Inr (failed ''checkpoint_restore_failed'' ''invalid checkpoint manifest'' True
                 (Some size_bytes), Some t)
        | DecodeError \<Rightarrow> Inl (ValueError ''invalid UTF-8'')
        | JsonDoc (PDict d) \<Rightarrow>
            if \<not> is_py_dict (pget d ''entries'') then
              Inr (failed ''checkpoint_restore_failed'' ''checkpoint manifest missing 'entries' dict'' True
                 (Some size_bytes), Some t)
            else
              (case restore_manifest env (PDict d) clear_root t of
                 Inl e \<Rightarrow>
                   Inr (failed ''checkpoint_restore_failed'' (err_text e) True (Some size_bytes), None)
               | Inr t' \<Rightarrow>
                   Inr (checkpoint_restore_base_fields checkpoint_path kind restore_root (Some size_bytes)
                    @ [(''forced_sync_success'', PBool True),
                       (''forced_sync_status'', PStr ''checkpoint_restored_continuation''),
                       (''forced_sync_resolved'', PBool False), (''forced_sync_continued'', PBool True),
                       (''checkpoint_archive_exists'', PBool True), (''restore_root_exists'', PBool True),
                       (''tar_extraction_returncode'', PInt 0)], Some t'))
        | JsonDoc _ \<Rightarrow> Inl (AttributeError ''get'')))"

text \<open>The restore loop of a chain: the first checkpoint clears the root, the others are laid
  over it, and the first failure ends the loop.\<close>

fun restore_chain_loop ::
    "host \<Rightarrow> (string \<Rightarrow> int) \<Rightarrow> restore_env \<Rightarrow> pydict list \<Rightarrow> bool \<Rightarrow> int \<Rightarrow> pydict \<Rightarrow> fs \<Rightarrow>
     (pydict \<times> int \<times> fs option) res" where
  "restore_chain_loop h size_of env [] clear_root nbytes last_result t = Inr (last_result, nbytes, Some t)"
| "restore_chain_loop h size_of env (spec # specs) clear_root nbytes last_result t =
     rbind (restore_checkpoint_to_container h size_of env spec clear_root t) (\<lambda>(restore_result, t').
       let nbytes' = (case pget restore_result ''checkpoint_size_bytes'' of
                        PInt n \<Rightarrow> nbytes + n | _ \<Rightarrow> nbytes) in
       case t' of
         Some u \<Rightarrow>
           if pget restore_result ''forced_sync_success'' \<noteq> PBool True
           then Inr (restore_result, nbytes', t')
           else restore_chain_loop h size_of env specs False nbytes' restore_result u
       | None \<Rightarrow> Inr (restore_result, nbytes', None))"

definition restore_checkpoint_chain_to_container ::
    "host \<Rightarrow> (string \<Rightarrow> int) \<Rightarrow> restore_env \<Rightarrow> pydict list \<Rightarrow> fs \<Rightarrow> (pydict \<times> fs option) res" where
  "restore_checkpoint_chain_to_container h size_of env specs t =
     (if specs = [] then
        Inr (checkpoint_restore_failed_fields ''.'' ''cas_manifest_incremental'' ''/testbed''
           ''checkpoint_missing'' ''no checkpoint chain available'' None None, Some t)
      else
        let chain_paths = PList (map (\<lambda>s. PStr (path_str (py_str (pget s ''path'')))) specs);
            chain_kinds = PList (map (\<lambda>s. PStr (py_str (por (pget s ''kind'') (PStr ''cas_manifest'')))) specs);
            n = PInt (int (length specs)) in
        rbind (restore_chain_loop h size_of env specs True 0 [] t) (\<lambda>(fields, nbytes, t').
          Inr (dupdate fields
              [(''checkpoint_restore_chain_length'', n), (''checkpoint_restore_chain_paths'', chain_paths),
               (''checkpoint_restore_chain_kinds'', chain_kinds),
               (''checkpoint_restore_chain_size_bytes'', PInt nbytes),
               (''forced_sync_checkpoint_chain_length'', n), (''forced_sync_checkpoint_chain'', chain_paths)], t')))"

subsection \<open>Properties\<close>

text \<open>C6: A successful restore has exactly this effect on the files and links of the
  container, when no entry lies below another: each manifest entry is at its path with its
  verified content, mode or link target; nothing else remains below an entry's path; with a
  cleared root nothing else remains outside the preserved directories, and without, what was
  there stays unless it lies at or below a deleted path.\<close>

theorem restore_refines_leaves:
  assumes "restore_manifest env (PDict d) clear_root t = Inr t'" and "wf_tree t"
    and "pget_or d ''entries'' (PDict []) = PDict entries"
    and "pget_or d ''deleted_paths'' (PList []) = PList deleted"
    and "antichain (map fst (manifest_nodes env entries))"
  shows "wf_tree t' \<and>
     leaf t' = restored_leaves env clear_root (deleted_strings deleted) entries (leaf t)"
  by (rule restore_ok [OF assms(1,2)]) (use assms(3-5) in auto)

definition example_env :: restore_env where
  "example_env = \<lparr>re_sha256 = id, re_blob = (\<lambda>h. Some h), re_root_is_real = True, re_preserved = [''.git'']\<rparr>"

definition example_tree :: fs where
  "example_tree = [[] \<mapsto> FDir, [''.git''] \<mapsto> FDir, [''.git'', ''HEAD''] \<mapsto> FFile ''ref'' 420, [''old''] \<mapsto> FFile ''x'' 420]"

definition example_restore :: pydict where
  "example_restore = [(''entries'', PDict
     [(''src/a'', PDict [(''hash'', PStr ''abc''), (''mode'', PInt 493)]),
      (''l'', PDict [(''type'', PStr ''symlink''), (''target'', PStr ''src/a'')])])]"

theorem restore_refines_leaves_witness:
  "\<exists>t'. restore_manifest example_env (PDict example_restore) True example_tree = Inr t'
     \<and> leaf t' [''src'', ''a''] = Some (FFile ''abc'' 493) \<and> leaf t' [''l''] = Some (FLink ''src/a'')
     \<and> leaf t' [''old''] = None \<and> leaf t' [''.git'', ''HEAD''] = Some (FFile ''ref'' 420)"
proof -
  let ?es = "[(''src/a'', PDict [(''hash'', PStr ''abc''), (''mode'', PInt 493)]),
      (''l'', PDict [(''type'', PStr ''symlink''), (''target'', PStr ''src/a'')])]"
  have "case restore_manifest example_env (PDict example_restore) True example_tree of Inr _ \<Rightarrow> True | Inl _ \<Rightarrow> False"
    by code_simp
  then obtain t' where t': "restore_manifest example_env (PDict example_restore) True example_tree = Inr t'"
    by (auto split: sum.splits)
  have wf: "wf_tree example_tree"
    by (auto simp: wf_tree_def example_tree_def split: if_splits)
  have "leaf t' = restored_leaves example_env True (deleted_strings []) ?es (leaf example_tree)"
  proof (rule restore_refines_leaves [OF t' wf, THEN conjunct2])
    show "antichain (map fst (manifest_nodes example_env ?es))" by code_simp
  qed (simp_all add: example_restore_def pget_or_def)
  moreover have "restored_leaves example_env True (deleted_strings []) ?es (leaf example_tree) [''src'', ''a''] = Some (FFile ''abc'' 493)"
    "restored_leaves example_env True (deleted_strings []) ?es (leaf example_tree) [''l''] = Some (FLink ''src/a'')"
    "restored_leaves example_env True (deleted_strings []) ?es (leaf example_tree) [''old''] = None"
    "restored_leaves example_env True (deleted_strings []) ?es (leaf example_tree) [''.git'', ''HEAD''] = Some (FFile ''ref'' 420)"
    by code_simp+
  ultimately show ?thesis using t' by auto
qed

text \<open>A manifest with an unsafe path (empty, absolute, with a parent component, or naming
  the root itself), as an entry or as a deleted path, is refused before anything is removed
  or written.\<close>

theorem unsafe_path_refused:
  assumes "pget_or d ''entries'' (PDict []) = PDict entries"
    and "pget_or d ''deleted_paths'' (PList []) = PList deleted"
    and "v \<in> set (map PStr (dkeys entries)) \<union> set deleted"
    and "\<exists>e. safe_target v = Inl e"
  shows "\<exists>m. restore_manifest env (PDict d) clear_root t = Inl (RuntimeError m)"
proof -
  have one: "safe_target w = Inl e \<Longrightarrow> \<exists>m. e = RuntimeError m" for w e
    by (cases w) (auto simp: safe_target_def split: if_splits)
  have "\<exists>m. rmap safe_target ws = Inl (RuntimeError m)" if "v \<in> set ws" for ws
    using that
  proof (induction ws)
    case (Cons w ws)
    show ?case
    proof (cases "safe_target w")
      case (Inl e)
      then show ?thesis using one [OF Inl] by auto
    next
      case (Inr p)
      then have "v \<in> set ws" using Cons.prems assms(4) by auto
      then show ?thesis using Inr Cons.IH by auto
    qed
  qed simp
  then obtain m where "rmap safe_target (map (\<lambda>k. PStr k) (dkeys entries) @ deleted) = Inl (RuntimeError m)"
    using assms(3) by (metis set_append)
  then show ?thesis
    using assms(1,2) by (auto simp: restore_manifest_def prepare_root_def Let_def)
qed

theorem unsafe_path_refused_witness:
  "\<exists>m. restore_manifest example_env (PDict [(''entries'', PDict []), (''deleted_paths'', PList [PStr ''a/../../etc''])])
        False example_tree = Inl (RuntimeError m)"
proof (rule unsafe_path_refused [where v = "PStr ''a/../../etc''" and deleted = "[PStr ''a/../../etc'']" and entries = "[]"])
  show "\<exists>e. safe_target (PStr ''a/../../etc'') = Inl e"
    by (simp add: safe_target_def)
qed (simp_all add: pget_or_def)

end
