(* ===== verification/ReplayQueue.thy ===== *)
theory ReplayQueue
  imports Prelude "HOL-Library.Multiset"
begin

text \<open>
  The worker queue of the replayer (\<open>_run_cloud_model_queue\<close> of
  \<open>src/trace_collect/simulator.py\<close>): several workers take sessions from one queue, prepare,
  replay and finalize them, and stop taking new ones after the first error. The asyncio
  tasks are a list of worker states, and each stretch of code between two awaits is one
  event; the outcome of an awaited call is part of the event. A session is named by its
  position in the input.
  The lemmas show that no session is handled twice or lost, that a run without error handles
  every session once, that no more sessions than workers are in flight, that some worker can
  always move, and a bound on the length of a run.
\<close>

subsection \<open>States and events\<close>

datatype task_stats = ReplayStats nat | PrepFailure nat

fun stats_session :: "task_stats \<Rightarrow> nat" where
  "stats_session (ReplayStats s) = s"
| "stats_session (PrepFailure s) = s"

datatype worker_state =
    WIdle
  | WPreparing nat
  | WReplaying nat
  | WFinalizing nat "task_stats option"
  | WReturned
  | WRaised nat err

record queue_state =
  qs_queue :: "nat list"
  qs_workers :: "worker_state list"
  qs_prepared :: "nat list"
  qs_stats :: "task_stats list"
  qs_first_error :: "err option"

datatype queue_event =
    Take nat
  | Leave nat
  | PrepOk nat
  | PrepError nat
  | ReplayOk nat
  | ReplayError nat err
  | FinalizeOk nat
  | FinalizeError nat err

definition initial_queue :: "nat \<Rightarrow> nat list \<Rightarrow> queue_state res" where
  "initial_queue concurrency sessions =
     (if concurrency < 1 then Inl (ValueError ''concurrency must be >= 1'')
      else Inr \<lparr>qs_queue = sessions,
                qs_workers = replicate (min concurrency (length sessions)) WIdle,
                qs_prepared = [], qs_stats = [], qs_first_error = None\<rparr>)"

definition worker_at :: "queue_state \<Rightarrow> nat \<Rightarrow> worker_state option" where
  "worker_at st i = (if i < length (qs_workers st) then Some (qs_workers st ! i) else None)"

definition set_worker :: "nat \<Rightarrow> worker_state \<Rightarrow> queue_state \<Rightarrow> queue_state" where
  "set_worker i w st = st\<lparr>qs_workers := (qs_workers st)[i := w]\<rparr>"

text \<open>The events of one worker: it takes the next session or leaves; its awaited calls return
  or raise. A preparation failure is recorded and the worker goes on; the first other error
  is kept; a finalization error leaves the worker.\<close>

fun queue_step :: "queue_event \<Rightarrow> queue_state \<Rightarrow> queue_state option" where
  "queue_step (Take i) st =
     (case (worker_at st i, qs_queue st) of
        (Some WIdle, s # rest) \<Rightarrow>
          if qs_first_error st = None then Some (set_worker i (WPreparing s) (st\<lparr>qs_queue := rest\<rparr>)) else None
      | _ \<Rightarrow> None)"
| "queue_step (Leave i) st =
     (if worker_at st i = Some WIdle \<and> (qs_first_error st \<noteq> None \<or> qs_queue st = [])
      then Some (set_worker i WReturned st) else None)"
| "queue_step (PrepOk i) st =
     (case worker_at st i of
        Some (WPreparing s) \<Rightarrow> Some (set_worker i (WReplaying s) st)
      | _ \<Rightarrow> None)"
| "queue_step (PrepError i) st =
     (case worker_at st i of
        Some (WPreparing s) \<Rightarrow>
          Some (set_worker i WIdle (st\<lparr>qs_prepared := qs_prepared st @ [s],
                                       qs_stats := qs_stats st @ [PrepFailure s]\<rparr>))
      | _ \<Rightarrow> None)"
| "queue_step (ReplayOk i) st =
     (case worker_at st i of
        Some (WReplaying s) \<Rightarrow> Some (set_worker i (WFinalizing s (Some (ReplayStats s))) st)
      | _ \<Rightarrow> None)"
| "queue_step (ReplayError i e) st =
     (case worker_at st i of
        Some (WReplaying s) \<Rightarrow>
          Some (set_worker i (WFinalizing s None)
            (if qs_first_error st = None then st\<lparr>qs_first_error := Some e\<rparr> else st))
      | _ \<Rightarrow> None)"
| "queue_step (FinalizeOk i) st =
     (case worker_at st i of
        Some (WFinalizing s stats) \<Rightarrow>
          Some (set_worker i WIdle (st\<lparr>qs_prepared := qs_prepared st @ [s],
                  qs_stats := qs_stats st @ (case stats of Some x \<Rightarrow> [x] | None \<Rightarrow> [])\<rparr>))
      | _ \<Rightarrow> None)"
| "queue_step (FinalizeError i e) st =
     (case worker_at st i of
        Some (WFinalizing s stats) \<Rightarrow> Some (set_worker i (WRaised s e) st)
      | _ \<Rightarrow> None)"

inductive queue_run :: "queue_state \<Rightarrow> queue_event list \<Rightarrow> queue_state \<Rightarrow> bool" where
  run_start: "queue_run st [] st"
| run_event: "queue_run st evs mid \<Longrightarrow> queue_step ev mid = Some st' \<Longrightarrow> queue_run st (evs @ [ev]) st'"

fun worker_ended :: "worker_state \<Rightarrow> bool" where
  "worker_ended WReturned = True"
| "worker_ended (WRaised _ _) = True"
| "worker_ended _ = False"

definition queue_ended :: "queue_state \<Rightarrow> bool" where
  "queue_ended st \<longleftrightarrow> list_all worker_ended (qs_workers st)"

fun raised_error :: "worker_state \<Rightarrow> err option" where
  "raised_error (WRaised _ e) = Some e"
| "raised_error _ = None"

text \<open>What the caller gets after \<open>gather\<close>: the first error, or an error a worker died of, or
  the sessions with their statistics.\<close>

definition queue_result :: "queue_state \<Rightarrow> (nat list \<times> task_stats list) res" where
  "queue_result st =
     (case qs_first_error st of
        Some e \<Rightarrow> Inl e
      | None \<Rightarrow>
          (case List.map_filter raised_error (qs_workers st) of
             e # _ \<Rightarrow> Inl e
           | [] \<Rightarrow> Inr (qs_prepared st, qs_stats st)))"

subsection \<open>Lemmas\<close>

fun in_flight :: "worker_state \<Rightarrow> nat multiset" where
  "in_flight (WPreparing s) = {#s#}"
| "in_flight (WReplaying s) = {#s#}"
| "in_flight (WFinalizing s _) = {#s#}"
| "in_flight (WRaised s _) = {#s#}"
| "in_flight _ = {#}"

text \<open>Every session is in the queue, with one worker, or recorded; the statistics are those of
  recorded sessions; without an error the recorded sessions are exactly those with
  statistics, and every pending result carries its session's.\<close>

fun pending_ok :: "bool \<Rightarrow> worker_state \<Rightarrow> bool" where
  "pending_ok clean (WFinalizing s stats) = (case stats of Some x \<Rightarrow> stats_session x = s | None \<Rightarrow> \<not> clean)"
| "pending_ok clean _ = True"

definition queue_inv :: "nat list \<Rightarrow> nat \<Rightarrow> queue_state \<Rightarrow> bool" where
  "queue_inv sessions n st \<longleftrightarrow>
     mset (qs_queue st) + sum_list (map in_flight (qs_workers st)) + mset (qs_prepared st) = mset sessions
     \<and> length (qs_workers st) = n
     \<and> list_all (pending_ok (qs_first_error st = None)) (qs_workers st)
     \<and> mset (map stats_session (qs_stats st)) \<subseteq># mset (qs_prepared st)
     \<and> (qs_first_error st = None \<longrightarrow> mset (map stats_session (qs_stats st)) = mset (qs_prepared st))"

lemma in_flight_split:
  assumes "i < length ws"
  obtains r where "sum_list (map in_flight ws) = in_flight (ws ! i) + r"
    "\<And>w. sum_list (map in_flight (ws[i := w])) = in_flight w + r"
proof
  let ?r = "sum_list (map in_flight (take i ws)) + sum_list (map in_flight (drop (Suc i) ws))"
  show "sum_list (map in_flight (ws[i := w])) = in_flight w + ?r" for w
    using assms by (simp add: upd_conv_take_nth_drop ac_simps)
  show "sum_list (map in_flight ws) = in_flight (ws ! i) + ?r"
    using arg_cong [OF id_take_nth_drop [OF assms], of "\<lambda>ws. sum_list (map in_flight ws)"]
    by (simp add: ac_simps)
qed

lemma worker_at_Some: "worker_at st i = Some w \<longleftrightarrow> i < length (qs_workers st) \<and> qs_workers st ! i = w"
  by (auto simp: worker_at_def)

lemma pending_mono: "list_all (pending_ok c) ws \<Longrightarrow> list_all (pending_ok False) ws"
proof (induction ws)
  case (Cons w ws)
  then show ?case by (cases w) (auto split: option.splits)
qed simp

lemma list_all_update: "list_all P ws \<Longrightarrow> P w \<Longrightarrow> list_all P (ws[i := w])"
  using set_update_subset_insert [of ws i w] by (auto simp: list_all_iff)

lemma list_all_nthD: "list_all P ws \<Longrightarrow> i < length ws \<Longrightarrow> P (ws ! i)"
  by (simp add: list_all_length)

text \<open>Every event is a change of one worker and of the shared lists.\<close>

definition worker_move :: "queue_state \<Rightarrow> worker_state \<Rightarrow> worker_state \<Rightarrow> queue_state \<Rightarrow> bool" where
  "worker_move st w w' st' \<longleftrightarrow>
     (\<exists>s. w = WIdle \<and> w' = WPreparing s \<and> qs_queue st = s # qs_queue st' \<and> qs_first_error st = None
        \<and> qs_prepared st' = qs_prepared st \<and> qs_stats st' = qs_stats st \<and> qs_first_error st' = None)
     \<or> qs_queue st' = qs_queue st \<and>
       (w = WIdle \<and> w' = WReturned \<and> (qs_first_error st \<noteq> None \<or> qs_queue st = [])
          \<and> qs_prepared st' = qs_prepared st \<and> qs_stats st' = qs_stats st \<and> qs_first_error st' = qs_first_error st
        \<or> (\<exists>s. w = WPreparing s \<and> w' = WReplaying s
          \<and> qs_prepared st' = qs_prepared st \<and> qs_stats st' = qs_stats st \<and> qs_first_error st' = qs_first_error st)
        \<or> (\<exists>s. w = WPreparing s \<and> w' = WIdle \<and> qs_prepared st' = qs_prepared st @ [s]
          \<and> qs_stats st' = qs_stats st @ [PrepFailure s] \<and> qs_first_error st' = qs_first_error st)
        \<or> (\<exists>s. w = WReplaying s \<and> w' = WFinalizing s (Some (ReplayStats s))
          \<and> qs_prepared st' = qs_prepared st \<and> qs_stats st' = qs_stats st \<and> qs_first_error st' = qs_first_error st)
        \<or> (\<exists>s. w = WReplaying s \<and> w' = WFinalizing s None
          \<and> qs_prepared st' = qs_prepared st \<and> qs_stats st' = qs_stats st \<and> qs_first_error st' \<noteq> None)
        \<or> (\<exists>s x. w = WFinalizing s x \<and> w' = WIdle \<and> qs_prepared st' = qs_prepared st @ [s]
          \<and> qs_stats st' = qs_stats st @ (case x of Some y \<Rightarrow> [y] | None \<Rightarrow> [])
          \<and> qs_first_error st' = qs_first_error st)
        \<or> (\<exists>s x e. w = WFinalizing s x \<and> w' = WRaised s e
          \<and> qs_prepared st' = qs_prepared st \<and> qs_stats st' = qs_stats st \<and> qs_first_error st' = qs_first_error st))"

lemma step_cases:
  assumes "queue_step ev st = Some st'"
  obtains i w w' where "i < length (qs_workers st)" "qs_workers st ! i = w"
    "qs_workers st' = (qs_workers st)[i := w']" "worker_move st w w' st'"
  using assms unfolding worker_move_def
  by (cases ev; fastforce simp: worker_at_Some set_worker_def
      split: option.splits worker_state.splits list.splits if_splits)

lemma step_invariant:
  assumes "queue_step ev st = Some st'" "queue_inv sessions n st"
  shows "queue_inv sessions n st'"
proof -
  obtain i w w' where i: "i < length (qs_workers st)" "qs_workers st ! i = w"
    "qs_workers st' = (qs_workers st)[i := w']" and "worker_move st w w' st'"
    by (rule step_cases [OF assms(1)])
  note c = this(4) [unfolded worker_move_def]
  obtain r where r: "sum_list (map in_flight (qs_workers st)) = in_flight w + r"
    "sum_list (map in_flight (qs_workers st')) = in_flight w' + r"
    using in_flight_split [OF i(1)] i(2,3) by metis
  have inv: "mset (qs_queue st) + (in_flight w + r) + mset (qs_prepared st) = mset sessions"
    "length (qs_workers st) = n" "list_all (pending_ok (qs_first_error st = None)) (qs_workers st)"
    "mset (map stats_session (qs_stats st)) \<subseteq># mset (qs_prepared st)"
    "qs_first_error st = None \<Longrightarrow> mset (map stats_session (qs_stats st)) = mset (qs_prepared st)"
    using assms(2) r(1) by (simp_all add: queue_inv_def)
  have old: "pending_ok (qs_first_error st = None) w" using inv(3) i list_all_nthD by blast
  have len: "length (qs_workers st') = n" using inv(2) i(3) by simp
  have cons: "mset (qs_queue st') + (in_flight w' + r) + mset (qs_prepared st') = mset sessions"
    using c inv(1) by (elim disjE exE conjE) (simp_all add: ac_simps)
  have pend: "list_all (pending_ok (qs_first_error st' = None)) (qs_workers st')"
  proof (cases "qs_first_error st' = None")
    case True
    then have "qs_first_error st = None" "pending_ok True w'" using c by (elim disjE exE conjE; simp)+
    then show ?thesis using True inv(3) i(3) by (simp add: list_all_update)
  next
    case False
    then have "pending_ok False w'" using c by (elim disjE exE conjE; simp)
    then show ?thesis using False inv(3) i(3) pending_mono by (auto intro!: list_all_update)
  qed
  have weak: "mset (map stats_session (qs_stats st)) \<subseteq># add_mset s (mset (qs_prepared st))" for s
    by (rule subset_mset.order_trans [OF inv(4)]) simp
  have grow: "mset (map stats_session (qs_stats st')) \<subseteq># mset (qs_prepared st')
      \<and> (qs_first_error st' = None \<longrightarrow> mset (map stats_session (qs_stats st')) = mset (qs_prepared st'))"
    if "w = WFinalizing s x" "qs_prepared st' = qs_prepared st @ [s]"
      "qs_stats st' = qs_stats st @ (case x of Some y \<Rightarrow> [y] | None \<Rightarrow> [])" "qs_first_error st' = qs_first_error st"
    for s x
    using old inv(4,5) weak [of s] that by (cases x) simp_all
  have "mset (map stats_session (qs_stats st')) \<subseteq># mset (qs_prepared st')
      \<and> (qs_first_error st' = None \<longrightarrow> mset (map stats_session (qs_stats st')) = mset (qs_prepared st'))"
    using c by (elim disjE exE conjE) (use inv(4,5) grow in auto)
  then have sub: "mset (map stats_session (qs_stats st')) \<subseteq># mset (qs_prepared st')"
    and eq: "qs_first_error st' = None \<longrightarrow> mset (map stats_session (qs_stats st')) = mset (qs_prepared st')"
    by auto
  show ?thesis unfolding queue_inv_def using len cons pend sub eq r(2) by simp
qed

lemma initial_invariant:
  "initial_queue concurrency sessions = Inr st \<Longrightarrow>
     queue_inv sessions (min concurrency (length sessions)) st \<and> list_all ((=) WIdle) (qs_workers st)"
proof -
  have "sum_list (map in_flight (replicate k WIdle)) = {#}" for k by (induction k) auto
  then show "initial_queue concurrency sessions = Inr st \<Longrightarrow>
     queue_inv sessions (min concurrency (length sessions)) st \<and> list_all ((=) WIdle) (qs_workers st)"
    by (auto simp: initial_queue_def queue_inv_def list_all_iff split: if_splits)
qed

lemma run_invariant:
  "queue_run st evs st' \<Longrightarrow> queue_inv sessions n st \<Longrightarrow> queue_inv sessions n st'"
  by (induction rule: queue_run.induct) (auto intro: step_invariant)

text \<open>Rank of a worker: the events it can still do with the session it holds.\<close>

fun worker_rank :: "worker_state \<Rightarrow> nat" where
  "worker_rank WIdle = 1"
| "worker_rank (WPreparing _) = 4"
| "worker_rank (WReplaying _) = 3"
| "worker_rank (WFinalizing _ _) = 2"
| "worker_rank _ = 0"

definition queue_rank :: "queue_state \<Rightarrow> nat" where
  "queue_rank st = 4 * length (qs_queue st) + sum_list (map worker_rank (qs_workers st))"

lemma rank_split:
  assumes "i < length ws"
  obtains r where "sum_list (map worker_rank ws) = worker_rank (ws ! i) + r"
    "\<And>w. sum_list (map worker_rank (ws[i := w])) = worker_rank w + r"
proof
  let ?r = "sum_list (map worker_rank (take i ws)) + sum_list (map worker_rank (drop (Suc i) ws))"
  show "sum_list (map worker_rank (ws[i := w])) = worker_rank w + ?r" for w
    using assms by (simp add: upd_conv_take_nth_drop)
  show "sum_list (map worker_rank ws) = worker_rank (ws ! i) + ?r"
    using arg_cong [OF id_take_nth_drop [OF assms], of "\<lambda>ws. sum_list (map worker_rank ws)"] by simp
qed

lemma step_rank: "queue_step ev st = Some st' \<Longrightarrow> queue_rank st' < queue_rank st"
proof -
  assume "queue_step ev st = Some st'"
  then obtain i w w' where i: "i < length (qs_workers st)" "qs_workers st ! i = w"
    "qs_workers st' = (qs_workers st)[i := w']" and "worker_move st w w' st'"
    by (rule step_cases)
  note c = this(4) [unfolded worker_move_def]
  obtain r where r: "sum_list (map worker_rank (qs_workers st)) = worker_rank w + r"
    "sum_list (map worker_rank (qs_workers st')) = worker_rank w' + r"
    using rank_split [OF i(1)] i(2,3) by metis
  show ?thesis unfolding queue_rank_def r using c by auto
qed

lemma run_rank: "queue_run st evs st' \<Longrightarrow> queue_rank st' + length evs \<le> queue_rank st"
  by (induction rule: queue_run.induct) (auto dest!: step_rank)

lemma some_event_enabled:
  assumes "\<not> queue_ended st"
  shows "\<exists>ev st'. queue_step ev st = Some st'"
proof -
  obtain i where i: "i < length (qs_workers st)" "\<not> worker_ended (qs_workers st ! i)"
    using assms by (auto simp: queue_ended_def list_all_length)
  show ?thesis
  proof (cases "qs_workers st ! i")
    case WIdle
    then show ?thesis using i
      by (cases "qs_first_error st"; cases "qs_queue st")
        (auto intro: exI [of _ "Take i"] exI [of _ "Leave i"] simp: worker_at_def)
  next
    case (WPreparing s)
    then show ?thesis using i by (intro exI [of _ "PrepOk i"]) (simp add: worker_at_def)
  next
    case (WReplaying s)
    then show ?thesis using i by (intro exI [of _ "ReplayOk i"]) (simp add: worker_at_def)
  next
    case (WFinalizing s x)
    then show ?thesis using i by (intro exI [of _ "FinalizeOk i"]) (simp add: worker_at_def)
  qed (use i in auto)
qed

text \<open>Without an error a worker leaves only when the queue is empty.\<close>

definition left_empty :: "queue_state \<Rightarrow> bool" where
  "left_empty st \<longleftrightarrow> (qs_first_error st = None \<longrightarrow> WReturned \<in> set (qs_workers st) \<longrightarrow> qs_queue st = [])"

lemma step_left_empty: "queue_step ev st = Some st' \<Longrightarrow> left_empty st \<Longrightarrow> left_empty st'"
proof -
  assume step: "queue_step ev st = Some st'" and l: "left_empty st"
  from step obtain i w w' where i: "i < length (qs_workers st)" "qs_workers st ! i = w"
    "qs_workers st' = (qs_workers st)[i := w']" and "worker_move st w w' st'"
    by (rule step_cases)
  note c = this(4) [unfolded worker_move_def]
  have "WReturned \<in> set (qs_workers st') \<Longrightarrow> w' = WReturned \<or> WReturned \<in> set (qs_workers st)"
    using i(3) set_update_subset_insert [of "qs_workers st" i w'] by auto
  then show ?thesis using c l unfolding left_empty_def by (elim disjE exE conjE) auto
qed

lemma run_left_empty: "queue_run st evs st' \<Longrightarrow> left_empty st \<Longrightarrow> left_empty st'"
  by (induction rule: queue_run.induct) (auto intro: step_left_empty)

lemma map_filter_Nil: "List.map_filter f xs = [] \<Longrightarrow> x \<in> set xs \<Longrightarrow> f x = None"
  by (induction xs) (auto simp: List.map_filter_def split: if_splits)

lemma ended_clean:
  assumes "queue_ended st" "List.map_filter raised_error (qs_workers st) = []" "w \<in> set (qs_workers st)"
  shows "w = WReturned"
proof -
  have "worker_ended w" using assms(1,3) by (simp add: queue_ended_def list_all_iff)
  moreover have "raised_error w = None" using map_filter_Nil [OF assms(2,3)] .
  ultimately show ?thesis by (cases w) auto
qed

lemma all_returned_in_flight:
  "set ws \<subseteq> {WReturned} \<Longrightarrow> sum_list (map in_flight ws) = {#}"
  by (induction ws) auto

subsection \<open>Properties\<close>

text \<open>C13: A run of the queue without an error handles every session exactly once: the sessions
  reported and the sessions with statistics are the input sessions, each as often as there.\<close>

theorem queue_handles_each_session_once:
  assumes "initial_queue concurrency sessions = Inr st0" and "queue_run st0 evs st"
    and "queue_ended st" and "queue_result st = Inr (prepared, stats)"
  shows "mset prepared = mset sessions \<and> mset (map stats_session stats) = mset sessions"
proof -
  have inv: "queue_inv sessions (min concurrency (length sessions)) st"
    using run_invariant [OF assms(2)] initial_invariant [OF assms(1)] by blast
  have ok: "qs_first_error st = None" "prepared = qs_prepared st" "stats = qs_stats st"
    "List.map_filter raised_error (qs_workers st) = []"
    using assms(4) by (auto simp: queue_result_def split: option.splits list.splits)
  note ret = ended_clean [OF assms(3) ok(4)]
  have "sum_list (map in_flight (qs_workers st)) = {#}"
    by (rule all_returned_in_flight) (use ret in blast)
  moreover have "qs_queue st = []"
  proof (cases "qs_workers st")
    case Nil
    then have "min concurrency (length sessions) = 0" using inv by (simp add: queue_inv_def)
    then have "sessions = []" using assms(1) by (auto simp: initial_queue_def min_def split: if_splits)
    then show ?thesis using inv by (simp add: queue_inv_def)
  next
    case (Cons w ws)
    have "left_empty st0" using assms(1)
      by (auto simp: initial_queue_def left_empty_def split: if_splits)
    then have "left_empty st" by (rule run_left_empty [OF assms(2)])
    then show ?thesis using ok(1) ret [of w] Cons by (simp add: left_empty_def)
  qed
  ultimately show ?thesis using inv ok by (simp add: queue_inv_def)
qed

definition example_queue_events :: "queue_event list" where
  "example_queue_events = [Take 0, Take 1, PrepOk 0, PrepError 1, ReplayOk 0, Take 1, FinalizeOk 0, PrepOk 1,
     Leave 0, ReplayOk 1, FinalizeOk 1, Leave 1]"

definition run_events :: "queue_event list \<Rightarrow> queue_state \<Rightarrow> queue_state option" where
  "run_events evs st = foldl (\<lambda>s ev. case s of None \<Rightarrow> None | Some x \<Rightarrow> queue_step ev x) (Some st) evs"

lemma run_events_run: "run_events evs st = Some st' \<Longrightarrow> queue_run st evs st'"
  unfolding run_events_def
  by (induction evs arbitrary: st' rule: rev_induct)
    (auto intro: queue_run.intros split: option.splits)

definition example_queue_end :: queue_state where
  "example_queue_end = (case initial_queue 2 [7, 8, 9] of Inr st \<Rightarrow> the (run_events example_queue_events st)
     | Inl _ \<Rightarrow> undefined)"

theorem queue_handles_each_session_once_witness:
  "\<exists>prepared stats. queue_result example_queue_end = Inr (prepared, stats)
     \<and> mset prepared = mset [7, 8, 9] \<and> mset (map stats_session stats) = mset [7, 8, 9]"
proof -
  obtain st0 where st0: "initial_queue 2 [7, 8, 9] = Inr st0" by (simp add: initial_queue_def)
  have run: "run_events example_queue_events st0 = Some example_queue_end"
  proof -
    have "(case initial_queue 2 [7, 8, 9] of Inr st \<Rightarrow> run_events example_queue_events st \<noteq> None | Inl _ \<Rightarrow> False)"
      by code_simp
    then show ?thesis using st0 by (auto simp: example_queue_end_def)
  qed
  have ended: "queue_ended example_queue_end" by code_simp
  have "(case queue_result example_queue_end of Inr _ \<Rightarrow> True | Inl _ \<Rightarrow> False)" by code_simp
  then obtain prepared stats where "queue_result example_queue_end = Inr (prepared, stats)"
    by (auto split: sum.splits)
  then show ?thesis
    using queue_handles_each_session_once [OF st0 run_events_run [OF run] ended] by blast
qed

text \<open>At any time every session is in exactly one place, and no more sessions are in flight
  than there are workers, which are at most the concurrency limit; a session is never
  reported more often than it was given.\<close>

theorem queue_in_flight_bounded:
  assumes "initial_queue concurrency sessions = Inr st0" and "queue_run st0 evs st"
  shows "size (sum_list (map in_flight (qs_workers st))) \<le> concurrency
     \<and> mset (qs_prepared st) \<subseteq># mset sessions"
proof -
  have inv: "queue_inv sessions (min concurrency (length sessions)) st"
    using run_invariant [OF assms(2)] initial_invariant [OF assms(1)] by blast
  have one: "size (in_flight w) \<le> 1" for w by (cases w) auto
  have "size (sum_list (map in_flight ws)) \<le> length ws" for ws
  proof (induction ws)
    case (Cons w ws)
    then show ?case using one [of w] by simp
  qed simp
  then have "size (sum_list (map in_flight (qs_workers st))) \<le> length (qs_workers st)" .
  moreover have "length (qs_workers st) \<le> concurrency" using inv by (simp add: queue_inv_def)
  moreover have "mset (qs_prepared st) \<subseteq># mset sessions"
    using inv unfolding queue_inv_def by (metis mset_subset_eq_add_right)
  ultimately show ?thesis by linarith
qed

theorem queue_in_flight_bounded_witness:
  "\<exists>st. run_events [Take 0, Take 1] (case initial_queue 2 [7, 8, 9] of Inr s \<Rightarrow> s | Inl _ \<Rightarrow> undefined) = Some st
     \<and> size (sum_list (map in_flight (qs_workers st))) \<le> 2 \<and> mset (qs_prepared st) \<subseteq># mset [7, 8, 9]"
proof -
  obtain st0 where st0: "initial_queue 2 [7, 8, 9] = Inr st0" by (simp add: initial_queue_def)
  have "(case initial_queue 2 [7, 8, 9] of Inr s \<Rightarrow> run_events [Take 0, Take 1] s \<noteq> None | Inl _ \<Rightarrow> False)"
    by code_simp
  then obtain st where st: "run_events [Take 0, Take 1] st0 = Some st" using st0 by auto
  then show ?thesis using queue_in_flight_bounded [OF st0 run_events_run [OF st]] st0 by auto
qed

text \<open>C9: The queue always ends: until every worker has ended some event is possible, and no
  run is longer than four events per session and one per worker.\<close>

theorem queue_terminates:
  assumes "initial_queue concurrency sessions = Inr st0" and "queue_run st0 evs st"
  shows "length evs \<le> 4 * length sessions + concurrency
     \<and> (queue_ended st \<or> (\<exists>ev st'. queue_step ev st = Some st'))"
proof -
  have "sum_list (map worker_rank (replicate k WIdle)) = k" for k by (induction k) auto
  then have "queue_rank st0 \<le> 4 * length sessions + concurrency"
    using assms(1) by (auto simp: initial_queue_def queue_rank_def split: if_splits)
  then have "length evs \<le> 4 * length sessions + concurrency" using run_rank [OF assms(2)] by linarith
  then show ?thesis using some_event_enabled [of st] by blast
qed

theorem queue_terminates_witness:
  "\<exists>st. run_events example_queue_events (case initial_queue 2 [7, 8, 9] of Inr s \<Rightarrow> s | Inl _ \<Rightarrow> undefined) = Some st
     \<and> length example_queue_events \<le> 4 * length [7, 8, 9::nat] + 2"
proof -
  obtain st0 where st0: "initial_queue 2 [7, 8, 9] = Inr st0" by (simp add: initial_queue_def)
  have "(case initial_queue 2 [7, 8, 9] of Inr s \<Rightarrow> run_events example_queue_events s \<noteq> None | Inl _ \<Rightarrow> False)"
    by code_simp
  then obtain st where st: "run_events example_queue_events st0 = Some st" using st0 by auto
  then show ?thesis using queue_terminates [OF st0 run_events_run [OF st]] st0 by auto
qed

end
