(* ===== verification/StateErr.thy ===== *)
theory StateErr
  imports Prelude
begin

text \<open>
  Computations that change a state and may raise, as the body of a loop with \<open>try\<close> does: an
  exception keeps the changes made before it. The rules in \<open>keeps\<close> show that a computation
  leaves a view of the state alone, by its structure.
\<close>

type_synonym ('s, 'a) sm = "'s \<Rightarrow> 'a res \<times> 's"

definition sret :: "'a \<Rightarrow> ('s, 'a) sm" where
  "sret x = (\<lambda>s. (Inr x, s))"

definition sraise :: "err \<Rightarrow> ('s, 'a) sm" where
  "sraise e = (\<lambda>s. (Inl e, s))"

definition sbind :: "('s, 'a) sm \<Rightarrow> ('a \<Rightarrow> ('s, 'b) sm) \<Rightarrow> ('s, 'b) sm" where
  "sbind m f = (\<lambda>s. case m s of (Inl e, s') \<Rightarrow> (Inl e, s') | (Inr x, s') \<Rightarrow> f x s')"

definition slift :: "'a res \<Rightarrow> ('s, 'a) sm" where
  "slift r = (\<lambda>s. (r, s))"

definition sgets :: "('s \<Rightarrow> 'a) \<Rightarrow> ('s, 'a) sm" where
  "sgets f = (\<lambda>s. (Inr (f s), s))"

definition smod :: "('s \<Rightarrow> 's) \<Rightarrow> ('s, unit) sm" where
  "smod f = (\<lambda>s. (Inr (), f s))"

text \<open>\<open>try: m; except Exception as e: h(e)\<close>.\<close>

definition scatch :: "('s, 'a) sm \<Rightarrow> (err \<Rightarrow> ('s, 'a) sm) \<Rightarrow> ('s, 'a) sm" where
  "scatch m h = (\<lambda>s. case m s of (Inl e, s') \<Rightarrow> h e s' | (Inr x, s') \<Rightarrow> (Inr x, s'))"

definition swhen :: "bool \<Rightarrow> ('s, unit) sm \<Rightarrow> ('s, unit) sm" where
  "swhen b m = (if b then m else sret ())"

fun sfor :: "('a \<Rightarrow> ('s, unit) sm) \<Rightarrow> 'a list \<Rightarrow> ('s, unit) sm" where
  "sfor f [] = sret ()"
| "sfor f (x # xs) = sbind (f x) (\<lambda>_. sfor f xs)"

text \<open>A computation on a part of the state.\<close>

definition szoom :: "('s \<Rightarrow> 't) \<Rightarrow> ('t \<Rightarrow> 's \<Rightarrow> 's) \<Rightarrow> ('t, 'a) sm \<Rightarrow> ('s, 'a) sm" where
  "szoom get put m = (\<lambda>s. case m (get s) of (r, t) \<Rightarrow> (r, put t s))"

lemmas sm_defs = sret_def sraise_def sbind_def slift_def sgets_def smod_def scatch_def swhen_def szoom_def

subsection \<open>What a computation leaves alone\<close>

definition preserves :: "('s \<Rightarrow> 'v) \<Rightarrow> ('s, 'a) sm \<Rightarrow> bool" where
  "preserves f m \<longleftrightarrow> (\<forall>s. f (snd (m s)) = f s)"

named_theorems keeps \<open>rules for \<open>preserves\<close>\<close>

lemma preservesD: "preserves f m \<Longrightarrow> m s = (r, s') \<Longrightarrow> f s' = f s"
  unfolding preserves_def by (metis snd_conv)

lemma preserves_pure [keeps]:
  "preserves f (sret x)" "preserves f (sraise e)" "preserves f (slift r)" "preserves f (sgets g)"
  by (simp_all add: preserves_def sm_defs)

lemma preserves_smod [keeps]: "(\<And>s. f (g s) = f s) \<Longrightarrow> preserves f (smod g)"
  by (simp add: preserves_def smod_def)

lemma preserves_sbind [keeps]:
  "preserves f m \<Longrightarrow> (\<And>x. preserves f (g x)) \<Longrightarrow> preserves f (sbind m g)"
  by (auto simp: preserves_def sbind_def split: prod.splits sum.splits) (metis snd_conv)+

lemma preserves_scatch [keeps]:
  "preserves f m \<Longrightarrow> (\<And>e. preserves f (h e)) \<Longrightarrow> preserves f (scatch m h)"
  by (auto simp: preserves_def scatch_def split: prod.splits sum.splits) (metis snd_conv)+

lemma preserves_swhen [keeps]: "preserves f m \<Longrightarrow> preserves f (swhen b m)"
  by (simp add: swhen_def preserves_pure)

lemma preserves_sfor [keeps]: "(\<And>x. preserves f (g x)) \<Longrightarrow> preserves f (sfor g xs)"
  by (induction xs) (auto intro: keeps)

lemma preserves_szoom [keeps]: "(\<And>s t. f (put t s) = f s) \<Longrightarrow> preserves f (szoom get put m)"
  by (simp add: preserves_def szoom_def split: prod.splits)

lemma preserves_if [keeps]: "preserves f m \<Longrightarrow> preserves f n \<Longrightarrow> preserves f (if b then m else n)"
  by simp

lemma preserves_case_option [keeps]:
  "preserves f m \<Longrightarrow> (\<And>x. preserves f (g x)) \<Longrightarrow> preserves f (case v of None \<Rightarrow> m | Some x \<Rightarrow> g x)"
  by (cases v) simp_all

lemma preserves_case_prod [keeps]: "(\<And>x y. preserves f (g x y)) \<Longrightarrow> preserves f (case p of (x, y) \<Rightarrow> g x y)"
  by (cases p) simp

lemma preserves_Let [keeps]: "(\<And>x. preserves f (g x)) \<Longrightarrow> preserves f (let x = v in g x)"
  by simp

subsection \<open>Triples\<close>

text \<open>\<open>triple P m Q E\<close>: run from a state with \<open>P\<close>, the computation returns with
  \<open>Q\<close> or raises with \<open>E\<close>.\<close>

definition triple :: "('s \<Rightarrow> bool) \<Rightarrow> ('s, 'a) sm \<Rightarrow> ('a \<Rightarrow> 's \<Rightarrow> bool) \<Rightarrow> ('s \<Rightarrow> bool) \<Rightarrow> bool" where
  "triple P m Q E \<longleftrightarrow> (\<forall>s. P s \<longrightarrow> (case m s of (Inr x, s') \<Rightarrow> Q x s' | (Inl e, s') \<Rightarrow> E s'))"

lemma tripleD: "triple P m Q E \<Longrightarrow> P s \<Longrightarrow> m s = (Inr x, s') \<Longrightarrow> Q x s'"
  by (fastforce simp: triple_def)

lemma triple_weaken:
  "triple P m Q E \<Longrightarrow> (\<And>s. P' s \<Longrightarrow> P s) \<Longrightarrow> (\<And>x s. Q x s \<Longrightarrow> Q' x s) \<Longrightarrow> (\<And>s. E s \<Longrightarrow> E' s) \<Longrightarrow> triple P' m Q' E'"
  by (fastforce simp: triple_def split: prod.splits sum.splits)

lemma triple_sret: "(\<And>s. P s \<Longrightarrow> Q x s) \<Longrightarrow> triple P (sret x) Q E"
  by (simp add: triple_def sret_def)

lemma triple_slift: "(\<And>s x. P s \<Longrightarrow> r = Inr x \<Longrightarrow> Q x s) \<Longrightarrow> (\<And>s. P s \<Longrightarrow> E s) \<Longrightarrow> triple P (slift r) Q E"
  by (simp add: triple_def slift_def split: sum.splits)

lemma triple_smod: "(\<And>s. P s \<Longrightarrow> Q () (f s)) \<Longrightarrow> triple P (smod f) Q E"
  by (simp add: triple_def smod_def)

lemma triple_sgets: "(\<And>s. P s \<Longrightarrow> Q (f s) s) \<Longrightarrow> triple P (sgets f) Q E"
  by (simp add: triple_def sgets_def)

lemma triple_sbind: "triple P m R E \<Longrightarrow> (\<And>x. triple (R x) (f x) Q E) \<Longrightarrow> triple P (sbind m f) Q E"
  unfolding triple_def sbind_def by (fastforce split: prod.splits sum.splits)

lemma triple_scatch: "triple P m Q F \<Longrightarrow> (\<And>e. triple F (h e) Q E) \<Longrightarrow> triple P (scatch m h) Q E"
  unfolding triple_def scatch_def by (fastforce split: prod.splits sum.splits)

lemma triple_swhen:
  "(b \<Longrightarrow> triple P m Q E) \<Longrightarrow> (\<And>s. \<not> b \<Longrightarrow> P s \<Longrightarrow> Q () s) \<Longrightarrow> triple P (swhen b m) Q E"
  by (cases b) (simp_all add: swhen_def triple_sret)

lemma triple_preserves:
  "preserves f m \<Longrightarrow> (\<And>s. P s \<Longrightarrow> I (f s)) \<Longrightarrow> triple P m (\<lambda>_ s. I (f s)) (\<lambda>s. I (f s))"
  unfolding triple_def preserves_def by (auto split: prod.splits sum.splits) (metis snd_conv)+

text \<open>The result of a sequence, step by step.\<close>

lemma sbind_Inr: "sbind m f s = (Inr y, s'') \<longleftrightarrow> (\<exists>x s'. m s = (Inr x, s') \<and> f x s' = (Inr y, s''))"
  by (auto simp: sbind_def split: prod.splits sum.splits)

lemma sfor_append: "sfor f (xs @ ys) = sbind (sfor f xs) (\<lambda>_. sfor f ys)"
  by (induction xs) (auto simp: sm_defs fun_eq_iff split: prod.splits sum.splits)

subsection \<open>Results of lists and of attempts\<close>

fun smap :: "('a \<Rightarrow> ('s, 'b) sm) \<Rightarrow> 'a list \<Rightarrow> ('s, 'b list) sm" where
  "smap f [] = sret []"
| "smap f (x # xs) = sbind (f x) (\<lambda>y. sbind (smap f xs) (\<lambda>ys. sret (y # ys)))"

text \<open>The exception of a computation as a value.\<close>

definition sattempt :: "('s, 'a) sm \<Rightarrow> ('s, 'a res) sm" where
  "sattempt m = (\<lambda>s. case m s of (r, s') \<Rightarrow> (Inr r, s'))"

lemma preserves_smap [keeps]: "(\<And>x. preserves f (g x)) \<Longrightarrow> preserves f (smap g xs)"
  by (induction xs) (auto intro: keeps)

lemma preserves_sattempt [keeps]: "preserves f m \<Longrightarrow> preserves f (sattempt m)"
  by (auto simp: preserves_def sattempt_def split: prod.splits) (metis snd_conv)

lemma preserves_case_sum [keeps]:
  "(\<And>x. preserves f (g x)) \<Longrightarrow> (\<And>x. preserves f (h x)) \<Longrightarrow> preserves f (case v of Inl x \<Rightarrow> g x | Inr x \<Rightarrow> h x)"
  by (cases v) simp_all

lemma smap_Inr:
  "smap f xs s = (Inr ys, s') \<Longrightarrow> length ys = length xs"
  by (induction xs arbitrary: s ys) (auto simp: sbind_Inr sret_def)

lemma smap_append: "smap f (xs @ ys) = sbind (smap f xs) (\<lambda>a. sbind (smap f ys) (\<lambda>b. sret (a @ b)))"
  by (induction xs) (auto simp: sm_defs fun_eq_iff split: prod.splits sum.splits)

lemma sbind_assoc: "sbind (sbind m f) g = sbind m (\<lambda>x. sbind (f x) g)"
  by (auto simp: sbind_def fun_eq_iff split: prod.splits sum.splits)

lemma sbind_sret [simp]: "sbind m sret = m" "sbind (sret x) f = f x"
  by (auto simp: sbind_def sret_def fun_eq_iff split: prod.splits sum.splits)

subsection \<open>Costs\<close>

text \<open>\<open>costs f k m\<close>: whether it returns or raises, the computation adds at most \<open>k\<close> to the
  measure \<open>f\<close> of the state.\<close>

definition costs :: "('s \<Rightarrow> nat) \<Rightarrow> nat \<Rightarrow> ('s, 'a) sm \<Rightarrow> bool" where
  "costs f k m \<longleftrightarrow> (\<forall>s. f (snd (m s)) \<le> f s + k)"

lemma costs_preserves: "preserves f m \<Longrightarrow> costs f 0 m"
  by (simp add: costs_def preserves_def)

lemma costs_weaken: "costs f j m \<Longrightarrow> j \<le> k \<Longrightarrow> costs f k m"
  by (force simp: costs_def intro: order_trans)

lemma costs_sbind:
  assumes m: "costs f j m" and g: "\<And>x. costs f k (g x)"
  shows "costs f (j + k) (sbind m g)"
  unfolding costs_def
proof
  fix s
  obtain r s1 where run: "m s = (r, s1)" by fastforce
  have "f s1 \<le> f s + j" using m run unfolding costs_def by (metis snd_conv)
  moreover have "f (snd (g x s1)) \<le> f s1 + k" for x using g unfolding costs_def by blast
  ultimately show "f (snd (sbind m g s)) \<le> f s + (j + k)"
    by (cases r) (auto simp: sbind_def run add.assoc intro: order_trans[of "f (snd (g _ s1))" "f s1 + k"])
qed

end
