(* ===== verification/PyJson.thy ===== *)
theory PyJson
  imports PyText
begin

text \<open>
  \<open>json.loads\<close> on 8-bit texts: objects, arrays, strings with escapes, integers, decimal
  numbers as exact rationals, and the three constants. The reader is a function of fuel,
  and the length of the text is enough fuel, because every value consumes a character.
  Escapes above \<open>\u00ff\<close> and the words \<open>NaN\<close> and \<open>Infinity\<close> are outside the model and read as
  errors.
\<close>

definition json_space :: "char \<Rightarrow> bool" where
  "json_space c \<longleftrightarrow> cc c \<in> {32, 9, 10, 13}"

definition skip_ws :: "string \<Rightarrow> string" where
  "skip_ws s = dropWhile json_space s"

definition hex_digit :: "char \<Rightarrow> nat option" where
  "hex_digit c = (if 48 \<le> cc c \<and> cc c \<le> 57 then Some (cc c - 48)
     else if 97 \<le> cc c \<and> cc c \<le> 102 then Some (cc c - 87)
     else if 65 \<le> cc c \<and> cc c \<le> 70 then Some (cc c - 55) else None)"

text \<open>The rest of a string literal after its opening quote.\<close>

fun json_str :: "string \<Rightarrow> string \<Rightarrow> (string \<times> string) option" where
  "json_str acc [] = None"
| "json_str acc (c # s) =
     (if c = CHR 0x22 then Some (rev acc, s)
      else if c = CHR 0x5C then
        (case s of
           [] \<Rightarrow> None
         | e # t \<Rightarrow>
             if e = CHR ''u'' then
               (case t of
                  a # b # x # y # r \<Rightarrow>
                    (case (hex_digit a, hex_digit b, hex_digit x, hex_digit y) of
                       (Some 0, Some 0, Some p, Some q) \<Rightarrow> json_str (char_of (16 * p + q) # acc) r
                     | _ \<Rightarrow> None)
                | _ \<Rightarrow> None)
             else if e = CHR ''n'' then json_str (CHR 0x0A # acc) t
             else if e = CHR ''r'' then json_str (CHR 0x0D # acc) t
             else if e = CHR ''t'' then json_str (CHR 0x09 # acc) t
             else if e = CHR ''f'' then json_str (CHR 0x0C # acc) t
             else if e = CHR ''b'' then json_str (CHR 0x08 # acc) t
             else if e \<in> {CHR 0x22, CHR 0x5C, CHR 0x2F} then json_str (e # acc) t
             else None)
      else if cc c < 32 then None
      else json_str (c # acc) s)"

text \<open>A number: an integer part without leading zeros, an optional fraction and exponent.\<close>

definition json_number :: "string \<Rightarrow> (pyval \<times> string) option" where
  "json_number s =
     (let (neg, s1) = (case s of c # t \<Rightarrow> if c = CHR ''-'' then (True, t) else (False, s) | [] \<Rightarrow> (False, s));
          ip0 = takeWhile py_digit s1;
          ip = (case ip0 of c # _ \<Rightarrow> if c = CHR ''0'' then ''0'' else ip0 | [] \<Rightarrow> []);
          s2 = drop (length ip) s1;
          fp = (case s2 of c # t \<Rightarrow> if c = CHR ''.'' then takeWhile py_digit t else [] | [] \<Rightarrow> []);
          s3 = (if fp = [] then s2 else drop (length fp + 1) s2);
          (esign, eds) = (case s3 of
             c # t \<Rightarrow> if c = CHR ''e'' \<or> c = CHR ''E'' then
                 (case t of d # u \<Rightarrow> if d = CHR ''-'' then (-1, takeWhile py_digit u)
                                   else if d = CHR ''+'' then (2, takeWhile py_digit u)
                                   else (1, takeWhile py_digit t) | [] \<Rightarrow> (1, []))
               else (1, [])
           | [] \<Rightarrow> (1 :: int, []));
          s4 = (if eds = [] then s3 else drop (length eds + (if esign = 1 then 1 else 2)) s3);
          sign = (if neg then -1 else 1 :: int)
      in if ip = [] then None
         else if fp = [] \<and> eds = [] then Some (PInt (sign * int (digits_value ip)), s4)
         else
           let m = of_int (sign * int (digits_value (ip @ fp))) / 10 ^ length fp;
               e = digits_value eds
           in Some (PFloat (if esign = -1 then m / 10 ^ e else m * 10 ^ e), s4))"

function json_value :: "nat \<Rightarrow> string \<Rightarrow> (pyval \<times> string) option"
  and json_items :: "nat \<Rightarrow> pyval list \<Rightarrow> string \<Rightarrow> (pyval \<times> string) option"
  and json_members :: "nat \<Rightarrow> pydict \<Rightarrow> string \<Rightarrow> (pyval \<times> string) option" where
  "json_value 0 s = None"
| "json_value (Suc n) s =
     (if starts_with ''null'' s then Some (PNone, drop 4 s)
      else if starts_with ''true'' s then Some (PBool True, drop 4 s)
      else if starts_with ''false'' s then Some (PBool False, drop 5 s)
      else case s of
        [] \<Rightarrow> None
      | c # t \<Rightarrow>
          if c = CHR 0x22 then map_option (\<lambda>(v, r). (PStr v, r)) (json_str [] t)
          else if c = CHR ''['' then
            (if starts_with '']'' (skip_ws t) then Some (PList [], drop 1 (skip_ws t))
             else json_items n [] (skip_ws t))
          else if c = CHR ''{'' then
            (if starts_with ''}'' (skip_ws t) then Some (PDict [], drop 1 (skip_ws t))
             else json_members n [] (skip_ws t))
          else json_number s)"
| "json_items 0 acc s = None"
| "json_items (Suc n) acc s =
     (case json_value n s of
        None \<Rightarrow> None
      | Some (v, r) \<Rightarrow>
          (case skip_ws r of
             c # t \<Rightarrow> if c = CHR '','' then json_items n (v # acc) (skip_ws t)
                     else if c = CHR '']'' then Some (PList (rev (v # acc)), t) else None
           | [] \<Rightarrow> None))"
| "json_members 0 acc s = None"
| "json_members (Suc n) acc s =
     (case s of
        [] \<Rightarrow> None
      | q # s1 \<Rightarrow>
          if q \<noteq> CHR 0x22 then None
          else case json_str [] s1 of
            None \<Rightarrow> None
          | Some (k, r) \<Rightarrow>
              (case skip_ws r of
                 [] \<Rightarrow> None
               | c # r1 \<Rightarrow>
                   if c \<noteq> CHR '':'' then None
                   else case json_value n (skip_ws r1) of
                     None \<Rightarrow> None
                   | Some (v, r2) \<Rightarrow>
                       (case skip_ws r2 of
                          d # t \<Rightarrow> if d = CHR '','' then json_members n (dput k v acc) (skip_ws t)
                                  else if d = CHR ''}'' then Some (PDict (dput k v acc), t) else None
                        | [] \<Rightarrow> None)))"
  by pat_completeness auto
termination by size_change

definition json_loads :: "string \<Rightarrow> pyval option" where
  "json_loads s =
     (case json_value (2 * length s + 2) (skip_ws s) of
        Some (v, r) \<Rightarrow> if skip_ws r = [] then Some v else None
      | None \<Rightarrow> None)"

end
