(* ===== verification/MismatchOracle.thy ===== *)
theory MismatchOracle
  imports PyString
begin

text \<open>
  The mismatch oracle of \<open>src/trace_collect/mismatch.py\<close>: it classifies one replayed tool
  action by three tiers of evidence (transport, normalised output, filesystem state) and
  lets the highest tier that has a signal decide. Action data are JSON dictionaries, so
  each field is coerced first, and an ill-typed field raises \<open>ValueError\<close>.
  The lemmas give the verdict as a function of the coerced signals, and that the
  validity check of \<open>MismatchVerdict.__post_init__\<close> never fires.
\<close>

subsection \<open>Categories, decisions and verdicts\<close>

definition CATEGORY_COSMETIC :: string where "CATEGORY_COSMETIC = ''cosmetic''"
definition CATEGORY_CONTENT_DIVERGENT :: string where
  "CATEGORY_CONTENT_DIVERGENT = ''content_divergent''"
definition CATEGORY_UNCLASSIFIED :: string where "CATEGORY_UNCLASSIFIED = ''unclassified''"
definition TIER_SKIPPED :: string where "TIER_SKIPPED = ''skipped''"

lemmas category_defs =
  CATEGORY_COSMETIC_def CATEGORY_CONTENT_DIVERGENT_def CATEGORY_UNCLASSIFIED_def TIER_SKIPPED_def

record tier_decision =
  td_tier :: nat
  td_category :: string
  td_reason :: string

definition td_semantic_match :: "tier_decision \<Rightarrow> bool" where
  "td_semantic_match d \<longleftrightarrow> td_category d = CATEGORY_COSMETIC"

record tier_verdicts =
  tv_tier_1 :: string
  tv_tier_2 :: string
  tv_tier_3 :: string

text \<open>The evidence dictionary of a verdict, one field per key.\<close>

record evidence =
  ev_source_returncode :: "int option"
  ev_replay_returncode :: "int option"
  ev_source_timed_out :: "bool option"
  ev_replay_timed_out :: "bool option"
  ev_timeout_mismatch :: bool
  ev_returncode_mismatch :: "bool option"
  ev_normalized_output_match :: "bool option"
  ev_output_diff_snippet_present :: bool
  ev_cas_manifest_match :: "bool option"
  ev_cas_modified_count :: "int option"
  ev_cas_removed_count :: "int option"
  ev_cas_added_count :: "int option"
  ev_mismatch_reason :: "string option"
  ev_tiers :: "(string \<times> pydict) list"

record mismatch_verdict =
  mv_tier :: nat
  mv_category :: string
  mv_semantic_match :: bool
  mv_evidence :: evidence

text \<open>The dataclass constructor with its \<open>__post_init__\<close> check.\<close>

definition mk_verdict :: "nat \<Rightarrow> string \<Rightarrow> bool \<Rightarrow> evidence \<Rightarrow> mismatch_verdict res" where
  "mk_verdict tier category semantic_match ev =
     (if tier \<notin> {1, 2, 3} then Inl (ValueError ''mismatch verdict tier must be 1, 2, or 3'')
      else if category \<notin> {CATEGORY_COSMETIC, CATEGORY_CONTENT_DIVERGENT, CATEGORY_UNCLASSIFIED}
      then Inl (ValueError ''unknown mismatch verdict category'')
      else Inr \<lparr>mv_tier = tier, mv_category = category, mv_semantic_match = semantic_match,
                mv_evidence = ev\<rparr>)"

subsection \<open>Coercions\<close>

definition optional_bool :: "string \<Rightarrow> pyval \<Rightarrow> bool option res" where
  "optional_bool name v =
     (case v of PNone \<Rightarrow> Inr None
      | PBool b \<Rightarrow> Inr (Some b)
      | _ \<Rightarrow> Inl (ValueError (name @ '' must be boolean when present'')))"

definition optional_int :: "string \<Rightarrow> pyval \<Rightarrow> int option res" where
  "optional_int name v =
     (case v of PNone \<Rightarrow> Inr None
      | PInt i \<Rightarrow> Inr (Some i)
      | _ \<Rightarrow> Inl (ValueError (name @ '' must be int when present'')))"

definition optional_str :: "string \<Rightarrow> pyval \<Rightarrow> string option res" where
  "optional_str name v =
     (case v of PNone \<Rightarrow> Inr None
      | PStr s \<Rightarrow> Inr (Some s)
      | _ \<Rightarrow> Inl (ValueError (name @ '' must be string when present'')))"

subsection \<open>The three tiers\<close>

definition tier_1_decision ::
    "int option \<Rightarrow> int option \<Rightarrow> bool option \<Rightarrow> bool option \<Rightarrow> string option \<Rightarrow> tier_decision option" where
  "tier_1_decision source_returncode replay_returncode source_timed_out replay_timed_out mismatch_reason =
     (if (source_timed_out \<noteq> None \<and> replay_timed_out \<noteq> None \<and> source_timed_out \<noteq> replay_timed_out)
         \<or> mismatch_reason = Some ''timeout_mismatch''
      then Some \<lparr>td_tier = 1, td_category = CATEGORY_CONTENT_DIVERGENT, td_reason = ''timeout_mismatch''\<rparr>
      else
        let compared = (source_timed_out \<noteq> None \<and> replay_timed_out \<noteq> None);
            rc = (source_returncode \<noteq> None \<and> replay_returncode \<noteq> None)
        in if rc \<and> source_returncode \<noteq> replay_returncode
           then Some \<lparr>td_tier = 1, td_category = CATEGORY_CONTENT_DIVERGENT,
                      td_reason = ''returncode_mismatch''\<rparr>
           else if \<not> (compared \<or> rc) then None
           else Some \<lparr>td_tier = 1, td_category = CATEGORY_COSMETIC, td_reason = ''transport_match''\<rparr>)"

definition tier_2_decision :: "bool option \<Rightarrow> string option \<Rightarrow> tier_decision option" where
  "tier_2_decision normalized_output_match output_diff_snippet =
     (case normalized_output_match of
        None \<Rightarrow> None
      | Some True \<Rightarrow> Some \<lparr>td_tier = 2, td_category = CATEGORY_COSMETIC,
                           td_reason = ''normalized_output_match''\<rparr>
      | Some False \<Rightarrow>
          (if output_diff_snippet = None \<or> output_diff_snippet = Some []
           then Some \<lparr>td_tier = 2, td_category = CATEGORY_UNCLASSIFIED,
                      td_reason = ''normalized_output_mismatch_without_diff''\<rparr>
           else Some \<lparr>td_tier = 2, td_category = CATEGORY_CONTENT_DIVERGENT,
                      td_reason = ''normalized_output_mismatch''\<rparr>))"

definition tier_3_decision :: "bool option \<Rightarrow> string option \<Rightarrow> tier_decision option" where
  "tier_3_decision cas_manifest_match mismatch_reason =
     (case cas_manifest_match of
        None \<Rightarrow> None
      | Some True \<Rightarrow> Some \<lparr>td_tier = 3, td_category = CATEGORY_COSMETIC, td_reason = ''cas_manifest_match''\<rparr>
      | Some False \<Rightarrow> Some \<lparr>td_tier = 3, td_category = CATEGORY_CONTENT_DIVERGENT,
          td_reason = (if mismatch_reason = Some ''cas_state_mismatch'' then ''cas_state_mismatch''
                       else ''cas_manifest_mismatch'')\<rparr>)"

definition select_lower_tier ::
    "tier_decision option \<Rightarrow> tier_decision option \<Rightarrow> tier_decision option" where
  "select_lower_tier tier_1 tier_2 =
     (case tier_1 of
        Some d1 \<Rightarrow>
          if td_category d1 = CATEGORY_CONTENT_DIVERGENT then Some d1
          else (case tier_2 of Some d2 \<Rightarrow> Some d2 | None \<Rightarrow> Some d1)
      | None \<Rightarrow> (case tier_2 of Some d2 \<Rightarrow> Some d2 | None \<Rightarrow> None))"

definition decision_evidence :: "tier_decision option \<Rightarrow> pydict" where
  "decision_evidence d =
     (case d of
        None \<Rightarrow> [(''category'', PStr TIER_SKIPPED)]
      | Some d \<Rightarrow> [(''category'', PStr (td_category d)), (''reason'', PStr (td_reason d)),
                  (''semantic_match'', PBool (td_semantic_match d))])"

definition category_from_tier_evidence :: "pyval \<Rightarrow> string" where
  "category_from_tier_evidence v =
     (case v of
        PDict d \<Rightarrow> (case pget d ''category'' of PStr s \<Rightarrow> s | _ \<Rightarrow> TIER_SKIPPED)
      | _ \<Rightarrow> TIER_SKIPPED)"

definition to_verdict :: "tier_decision \<Rightarrow> evidence \<Rightarrow> mismatch_verdict res" where
  "to_verdict d ev = mk_verdict (td_tier d) (td_category d) (td_semantic_match d) ev"

subsection \<open>The oracle\<close>

text \<open>The keyword arguments of \<open>MismatchOracle.verdict\<close>, and their values after coercion.\<close>

record verdict_args =
  va_source_returncode :: pyval
  va_replay_returncode :: pyval
  va_source_timed_out :: pyval
  va_replay_timed_out :: pyval
  va_normalized_output_match :: pyval
  va_output_diff_snippet :: pyval
  va_cas_manifest_match :: pyval
  va_cas_modified_count :: pyval
  va_cas_removed_count :: pyval
  va_cas_added_count :: pyval
  va_mismatch_reason :: pyval

record signals =
  sg_source_rc :: "int option"
  sg_replay_rc :: "int option"
  sg_source_timeout :: "bool option"
  sg_replay_timeout :: "bool option"
  sg_normalized :: "bool option"
  sg_diff :: "string option"
  sg_cas_match :: "bool option"
  sg_cas_modified :: "int option"
  sg_cas_removed :: "int option"
  sg_cas_added :: "int option"
  sg_reason :: "string option"

definition coerce_signals :: "verdict_args \<Rightarrow> signals res" where
  "coerce_signals a =
     rbind (optional_int ''source_returncode'' (va_source_returncode a)) (\<lambda>source_rc.
     rbind (optional_int ''replay_returncode'' (va_replay_returncode a)) (\<lambda>replay_rc.
     rbind (optional_bool ''source_timed_out'' (va_source_timed_out a)) (\<lambda>source_timeout.
     rbind (optional_bool ''replay_timed_out'' (va_replay_timed_out a)) (\<lambda>replay_timeout.
     rbind (optional_bool ''normalized_output_match'' (va_normalized_output_match a)) (\<lambda>normalized.
     rbind (optional_str ''output_diff_snippet'' (va_output_diff_snippet a)) (\<lambda>diff.
     rbind (optional_bool ''cas_manifest_match'' (va_cas_manifest_match a)) (\<lambda>cas_match.
     rbind (optional_int ''cas_modified_count'' (va_cas_modified_count a)) (\<lambda>cas_modified.
     rbind (optional_int ''cas_removed_count'' (va_cas_removed_count a)) (\<lambda>cas_removed.
     rbind (optional_int ''cas_added_count'' (va_cas_added_count a)) (\<lambda>cas_added.
     rbind (optional_str ''mismatch_reason'' (va_mismatch_reason a)) (\<lambda>reason.
       Inr \<lparr>sg_source_rc = source_rc, sg_replay_rc = replay_rc,
            sg_source_timeout = source_timeout, sg_replay_timeout = replay_timeout,
            sg_normalized = normalized, sg_diff = diff, sg_cas_match = cas_match,
            sg_cas_modified = cas_modified, sg_cas_removed = cas_removed,
            sg_cas_added = cas_added, sg_reason = reason\<rparr>)))))))))))"

definition signal_tier_1 :: "signals \<Rightarrow> tier_decision option" where
  "signal_tier_1 s = tier_1_decision (sg_source_rc s) (sg_replay_rc s)
     (sg_source_timeout s) (sg_replay_timeout s) (sg_reason s)"

definition signal_tier_2 :: "signals \<Rightarrow> tier_decision option" where
  "signal_tier_2 s = tier_2_decision (sg_normalized s) (sg_diff s)"

definition signal_tier_3 :: "signals \<Rightarrow> tier_decision option" where
  "signal_tier_3 s = tier_3_decision (sg_cas_match s) (sg_reason s)"

definition build_evidence :: "signals \<Rightarrow> evidence" where
  "build_evidence s =
     \<lparr>ev_source_returncode = sg_source_rc s, ev_replay_returncode = sg_replay_rc s,
      ev_source_timed_out = sg_source_timeout s, ev_replay_timed_out = sg_replay_timeout s,
      ev_timeout_mismatch =
        (if sg_source_timeout s \<noteq> None \<and> sg_replay_timeout s \<noteq> None
         then sg_source_timeout s \<noteq> sg_replay_timeout s
         else sg_reason s = Some ''timeout_mismatch''),
      ev_returncode_mismatch =
        (if sg_source_rc s \<noteq> None \<and> sg_replay_rc s \<noteq> None
         then Some (sg_source_rc s \<noteq> sg_replay_rc s) else None),
      ev_normalized_output_match = sg_normalized s,
      ev_output_diff_snippet_present = (sg_diff s \<noteq> None \<and> sg_diff s \<noteq> Some []),
      ev_cas_manifest_match = sg_cas_match s, ev_cas_modified_count = sg_cas_modified s,
      ev_cas_removed_count = sg_cas_removed s, ev_cas_added_count = sg_cas_added s,
      ev_mismatch_reason = sg_reason s,
      ev_tiers = [(''1'', decision_evidence (signal_tier_1 s)),
                  (''2'', decision_evidence (signal_tier_2 s)),
                  (''3'', decision_evidence (signal_tier_3 s))]\<rparr>"

definition verdict :: "verdict_args \<Rightarrow> mismatch_verdict option res" where
  "verdict a =
     rbind (coerce_signals a) (\<lambda>s.
       case signal_tier_3 s of
         Some d \<Rightarrow> rbind (to_verdict d (build_evidence s)) (\<lambda>v. Inr (Some v))
       | None \<Rightarrow>
           (case select_lower_tier (signal_tier_1 s) (signal_tier_2 s) of
              None \<Rightarrow> Inr None
            | Some d \<Rightarrow> rbind (to_verdict d (build_evidence s)) (\<lambda>v. Inr (Some v))))"

definition args_of_action_data :: "pydict \<Rightarrow> verdict_args" where
  "args_of_action_data data =
     \<lparr>va_source_returncode = pget data ''source_returncode'',
      va_replay_returncode = pget_or data ''replay_returncode'' (pget data ''returncode''),
      va_source_timed_out = pget data ''source_timed_out'',
      va_replay_timed_out = pget_or data ''replay_timed_out'' (pget data ''timed_out''),
      va_normalized_output_match = pget data ''normalized_output_match'',
      va_output_diff_snippet = pget data ''output_diff_snippet'',
      va_cas_manifest_match = pget data ''cas_manifest_match'',
      va_cas_modified_count = pget data ''cas_modified_count'',
      va_cas_removed_count = pget data ''cas_removed_count'',
      va_cas_added_count = pget data ''cas_added_count'',
      va_mismatch_reason = pget data ''mismatch_reason''\<rparr>"

definition verdict_from_action_data :: "pydict \<Rightarrow> mismatch_verdict option res" where
  "verdict_from_action_data data = verdict (args_of_action_data data)"

definition tier_evidence_of :: "mismatch_verdict option \<Rightarrow> string \<Rightarrow> pyval" where
  "tier_evidence_of v k =
     (case v of None \<Rightarrow> PNone
      | Some w \<Rightarrow> (case dget (ev_tiers (mv_evidence w)) k of None \<Rightarrow> PNone | Some d \<Rightarrow> PDict d))"

definition tier_verdicts_from_action_data :: "pydict \<Rightarrow> tier_verdicts res" where
  "tier_verdicts_from_action_data data =
     rbind (verdict_from_action_data data) (\<lambda>v.
       Inr \<lparr>tv_tier_1 = category_from_tier_evidence (tier_evidence_of v ''1''),
            tv_tier_2 = category_from_tier_evidence (tier_evidence_of v ''2''),
            tv_tier_3 = category_from_tier_evidence (tier_evidence_of v ''3'')\<rparr>)"

definition semantic_match_from_action_data :: "pydict \<Rightarrow> bool option res" where
  "semantic_match_from_action_data data =
     (if pget data ''oracle_semantic_match'' \<noteq> PNone
      then optional_bool ''oracle_semantic_match'' (pget data ''oracle_semantic_match'')
      else if pget data ''semantic_match'' \<noteq> PNone
      then optional_bool ''semantic_match'' (pget data ''semantic_match'')
      else rbind (verdict_from_action_data data) (\<lambda>v.
        case v of
          Some w \<Rightarrow> Inr (Some (mv_semantic_match w))
        | None \<Rightarrow>
            if pget data ''replay_outcome_match'' = PNone then Inr None
            else optional_bool ''replay_outcome_match'' (pget data ''replay_outcome_match'')))"

subsection \<open>Lemmas\<close>

text \<open>The deciding tier as one function of the signals, and what it always satisfies.\<close>

definition decide :: "signals \<Rightarrow> tier_decision option" where
  "decide s = (case signal_tier_3 s of Some d \<Rightarrow> Some d
               | None \<Rightarrow> select_lower_tier (signal_tier_1 s) (signal_tier_2 s))"

definition decision_ok :: "tier_decision \<Rightarrow> bool" where
  "decision_ok d \<longleftrightarrow> td_tier d \<in> {1, 2, 3} \<and>
     td_category d \<in> {CATEGORY_COSMETIC, CATEGORY_CONTENT_DIVERGENT, CATEGORY_UNCLASSIFIED}"

lemma tier_1_ok: "tier_1_decision a b c d r = Some t \<Longrightarrow> decision_ok t \<and> td_tier t = 1"
  by (auto simp: tier_1_decision_def decision_ok_def Let_def split: if_splits)

lemma tier_2_ok: "tier_2_decision a b = Some t \<Longrightarrow> decision_ok t \<and> td_tier t = 2"
  by (auto simp: tier_2_decision_def decision_ok_def split: option.splits bool.splits if_splits)

lemma tier_3_ok: "tier_3_decision a b = Some t \<Longrightarrow> decision_ok t \<and> td_tier t = 3"
  by (auto simp: tier_3_decision_def decision_ok_def split: option.splits bool.splits if_splits)

lemma signal_tier_ok:
  "signal_tier_1 s = Some d \<Longrightarrow> decision_ok d \<and> td_tier d = 1"
  "signal_tier_2 s = Some d \<Longrightarrow> decision_ok d \<and> td_tier d = 2"
  "signal_tier_3 s = Some d \<Longrightarrow> decision_ok d \<and> td_tier d = 3"
  by (auto simp: signal_tier_1_def signal_tier_2_def signal_tier_3_def
      dest: tier_1_ok tier_2_ok tier_3_ok)

lemma decide_ok: "decide s = Some d \<Longrightarrow> decision_ok d"
  by (auto simp: decide_def select_lower_tier_def dest!: signal_tier_ok
      split: option.splits if_splits)

definition verdict_of :: "signals \<Rightarrow> tier_decision \<Rightarrow> mismatch_verdict" where
  "verdict_of s d = \<lparr>mv_tier = td_tier d, mv_category = td_category d,
     mv_semantic_match = td_semantic_match d, mv_evidence = build_evidence s\<rparr>"

lemma to_verdict_ok: "decision_ok d \<Longrightarrow> to_verdict d (build_evidence s) = Inr (verdict_of s d)"
  by (auto simp: decision_ok_def to_verdict_def mk_verdict_def verdict_of_def)

lemma verdict_eq_decide:
  "verdict a = rbind (coerce_signals a) (\<lambda>s. Inr (map_option (verdict_of s) (decide s)))"
proof (cases "coerce_signals a")
  case (Inl e)
  then show ?thesis by (simp add: verdict_def)
next
  case (Inr s)
  have "decision_ok d" if "decide s = Some d" for d using that by (rule decide_ok)
  then show ?thesis
    using Inr to_verdict_ok
    by (auto simp: verdict_def decide_def split: option.splits)
qed

text \<open>A coercion succeeds exactly on \<open>None\<close> and on values of its type.\<close>

lemma optional_bool_ok [simp]:
  "(\<exists>x. optional_bool n v = Inr x) \<longleftrightarrow> v = PNone \<or> (\<exists>b. v = PBool b)"
  by (cases v) (auto simp: optional_bool_def)

lemma optional_int_ok [simp]:
  "(\<exists>x. optional_int n v = Inr x) \<longleftrightarrow> v = PNone \<or> (\<exists>i. v = PInt i)"
  by (cases v) (auto simp: optional_int_def)

lemma optional_str_ok [simp]:
  "(\<exists>x. optional_str n v = Inr x) \<longleftrightarrow> v = PNone \<or> (\<exists>s. v = PStr s)"
  by (cases v) (auto simp: optional_str_def)

definition wt_bool :: "pyval \<Rightarrow> bool" where
  "wt_bool v \<longleftrightarrow> (case v of PNone \<Rightarrow> True | PBool b \<Rightarrow> True | _ \<Rightarrow> False)"

definition wt_int :: "pyval \<Rightarrow> bool" where
  "wt_int v \<longleftrightarrow> (case v of PNone \<Rightarrow> True | PInt i \<Rightarrow> True | _ \<Rightarrow> False)"

definition wt_str :: "pyval \<Rightarrow> bool" where
  "wt_str v \<longleftrightarrow> (case v of PNone \<Rightarrow> True | PStr s \<Rightarrow> True | _ \<Rightarrow> False)"

definition args_well_typed :: "verdict_args \<Rightarrow> bool" where
  "args_well_typed a \<longleftrightarrow>
     wt_int (va_source_returncode a) \<and> wt_int (va_replay_returncode a)
     \<and> wt_bool (va_source_timed_out a) \<and> wt_bool (va_replay_timed_out a)
     \<and> wt_bool (va_normalized_output_match a) \<and> wt_str (va_output_diff_snippet a)
     \<and> wt_bool (va_cas_manifest_match a) \<and> wt_int (va_cas_modified_count a)
     \<and> wt_int (va_cas_removed_count a) \<and> wt_int (va_cas_added_count a)
     \<and> wt_str (va_mismatch_reason a)"

fun opt_bool :: "pyval \<Rightarrow> bool option" where
  "opt_bool (PBool b) = Some b" | "opt_bool _ = None"

fun opt_int :: "pyval \<Rightarrow> int option" where
  "opt_int (PInt i) = Some i" | "opt_int _ = None"

fun opt_str :: "pyval \<Rightarrow> string option" where
  "opt_str (PStr s) = Some s" | "opt_str _ = None"

definition signals_of :: "verdict_args \<Rightarrow> signals" where
  "signals_of a =
     \<lparr>sg_source_rc = opt_int (va_source_returncode a), sg_replay_rc = opt_int (va_replay_returncode a),
      sg_source_timeout = opt_bool (va_source_timed_out a),
      sg_replay_timeout = opt_bool (va_replay_timed_out a),
      sg_normalized = opt_bool (va_normalized_output_match a),
      sg_diff = opt_str (va_output_diff_snippet a), sg_cas_match = opt_bool (va_cas_manifest_match a),
      sg_cas_modified = opt_int (va_cas_modified_count a),
      sg_cas_removed = opt_int (va_cas_removed_count a),
      sg_cas_added = opt_int (va_cas_added_count a), sg_reason = opt_str (va_mismatch_reason a)\<rparr>"

lemma optional_bool_cases:
  "optional_bool n v = (if wt_bool v then Inr (opt_bool v)
     else Inl (ValueError (n @ '' must be boolean when present'')))"
  by (cases v) (auto simp: optional_bool_def wt_bool_def)

lemma optional_int_cases:
  "optional_int n v = (if wt_int v then Inr (opt_int v)
     else Inl (ValueError (n @ '' must be int when present'')))"
  by (cases v) (auto simp: optional_int_def wt_int_def)

lemma optional_str_cases:
  "optional_str n v = (if wt_str v then Inr (opt_str v)
     else Inl (ValueError (n @ '' must be string when present'')))"
  by (cases v) (auto simp: optional_str_def wt_str_def)

lemma coerce_signals_ok: "args_well_typed a \<Longrightarrow> coerce_signals a = Inr (signals_of a)"
  by (simp add: args_well_typed_def coerce_signals_def signals_of_def
      optional_bool_cases optional_int_cases optional_str_cases)

lemma coerce_signals_error: "\<not> args_well_typed a \<Longrightarrow> \<exists>m. coerce_signals a = Inl (ValueError m)"
  by (auto simp: args_well_typed_def coerce_signals_def
      optional_bool_cases optional_int_cases optional_str_cases)

text \<open>Transport evidence, stated once: it diverges, agrees, or is absent.\<close>

definition transport_diverges :: "signals \<Rightarrow> bool" where
  "transport_diverges s \<longleftrightarrow>
     sg_reason s = Some ''timeout_mismatch''
     \<or> (\<exists>x y. sg_source_timeout s = Some x \<and> sg_replay_timeout s = Some y \<and> x \<noteq> y)
     \<or> (\<exists>x y. sg_source_rc s = Some x \<and> sg_replay_rc s = Some y \<and> x \<noteq> y)"

definition transport_compared :: "signals \<Rightarrow> bool" where
  "transport_compared s \<longleftrightarrow>
     (sg_source_timeout s \<noteq> None \<and> sg_replay_timeout s \<noteq> None)
     \<or> (sg_source_rc s \<noteq> None \<and> sg_replay_rc s \<noteq> None)"

lemma signal_tier_1_cases:
  "signal_tier_1 s = None \<longleftrightarrow> \<not> transport_diverges s \<and> \<not> transport_compared s"
  "signal_tier_1 s = Some d \<Longrightarrow>
     td_category d = (if transport_diverges s then CATEGORY_CONTENT_DIVERGENT else CATEGORY_COSMETIC)"
  by (auto simp: signal_tier_1_def tier_1_decision_def transport_diverges_def transport_compared_def
      Let_def split: if_splits)

lemma signal_tier_2_cases:
  "signal_tier_2 s = None \<longleftrightarrow> sg_normalized s = None"
  "signal_tier_2 s = Some d \<Longrightarrow> td_category d = CATEGORY_COSMETIC \<longleftrightarrow> sg_normalized s = Some True"
  by (auto simp: signal_tier_2_def tier_2_decision_def category_defs
      split: option.splits bool.splits if_splits)

lemma signal_tier_3_cases:
  "signal_tier_3 s = None \<longleftrightarrow> sg_cas_match s = None"
  "signal_tier_3 s = Some d \<Longrightarrow> td_category d = CATEGORY_COSMETIC \<longleftrightarrow> sg_cas_match s = Some True"
  by (auto simp: signal_tier_3_def tier_3_decision_def category_defs
      split: option.splits bool.splits if_splits)

text \<open>The contract of the oracle, tier by tier, without its control flow.\<close>

definition oracle_spec :: "signals \<Rightarrow> (nat \<times> bool) option" where
  "oracle_spec s =
     (case sg_cas_match s of
        Some m \<Rightarrow> Some (3, m)
      | None \<Rightarrow>
          if transport_diverges s then Some (1, False)
          else (case sg_normalized s of
                  Some m \<Rightarrow> Some (2, m)
                | None \<Rightarrow> if transport_compared s then Some (1, True) else None))"

lemma decide_spec:
  "map_option (\<lambda>d. (td_tier d, td_semantic_match d)) (decide s) = oracle_spec s"
proof (cases "signal_tier_3 s")
  case (Some d)
  then show ?thesis
    using signal_tier_3_cases [of s] signal_tier_ok(3) [of s d]
    by (auto simp: decide_def oracle_spec_def td_semantic_match_def split: option.splits)
next
  case None
  then have cas: "sg_cas_match s = None" using signal_tier_3_cases by blast
  show ?thesis
  proof (cases "signal_tier_1 s")
    case t1: None
    then show ?thesis
      using None cas signal_tier_1_cases(1) [of s] signal_tier_2_cases [of s] signal_tier_ok(2) [of s]
      by (auto simp: decide_def oracle_spec_def td_semantic_match_def select_lower_tier_def
          split: option.splits)
  next
    case t1: (Some d1)
    have "td_category d1 = (if transport_diverges s then CATEGORY_CONTENT_DIVERGENT else CATEGORY_COSMETIC)"
      and "transport_diverges s \<or> transport_compared s" and "td_tier d1 = 1"
      using t1 signal_tier_1_cases [of s] signal_tier_ok(1) [of s] by auto
    then show ?thesis
      using None cas t1 signal_tier_2_cases [of s] signal_tier_ok(2) [of s]
      by (auto simp: decide_def oracle_spec_def td_semantic_match_def select_lower_tier_def
          category_defs split: option.splits if_splits)
  qed
qed

subsection \<open>Properties\<close>

definition verdict_summary :: "mismatch_verdict option \<Rightarrow> (nat \<times> bool) option" where
  "verdict_summary = map_option (\<lambda>w. (mv_tier w, mv_semantic_match w))"

lemma verdict_summary_decide:
  "verdict_summary (map_option (verdict_of s) (decide s)) = oracle_spec s"
  by (simp add: verdict_summary_def decide_spec [symmetric] option.map_comp comp_def verdict_of_def)


definition example_args :: verdict_args where
  "example_args = args_of_action_data
     [(''source_returncode'', PInt 0), (''returncode'', PInt 1), (''source_timed_out'', PBool False),
      (''timed_out'', PBool False), (''normalized_output_match'', PBool True)]"


text \<open>C11: The oracle raises exactly when a field of the action is ill-typed, and then it raises
  \<open>ValueError\<close>: no combination of well-typed evidence is an error.\<close>

theorem verdict_raises_iff_ill_typed:
  "case verdict_from_action_data data of
     Inl e \<Rightarrow> (\<exists>m. e = ValueError m) \<and> (\<not> args_well_typed (args_of_action_data data))
   | Inr v \<Rightarrow> args_well_typed (args_of_action_data data)"
  using coerce_signals_ok [of "args_of_action_data data"]
    coerce_signals_error [of "args_of_action_data data"]
  by (cases "args_well_typed (args_of_action_data data)")
    (force simp: verdict_from_action_data_def verdict_eq_decide)+

text \<open>The first answer among several sources of evidence.\<close>

fun first_some :: "'a option list \<Rightarrow> 'a option" where
  "first_some [] = None"
| "first_some (Some x # xs) = Some x"
| "first_some (None # xs) = first_some xs"

lemma wt_bool_cases: "wt_bool v \<Longrightarrow> v = PNone \<or> (\<exists>b. v = PBool b)"
  by (cases v) (auto simp: wt_bool_def)

text \<open>The semantic match of an action is the first available of: the recorded oracle answer,
  the recorded semantic match, the match of the oracle's own verdict, and the replay outcome.\<close>

theorem semantic_match_precedence:
  assumes "args_well_typed (args_of_action_data data)"
    and "wt_bool (pget data ''oracle_semantic_match'')"
    and "wt_bool (pget data ''semantic_match'')"
    and "wt_bool (pget data ''replay_outcome_match'')"
  shows "semantic_match_from_action_data data = Inr (first_some
     [opt_bool (pget data ''oracle_semantic_match''), opt_bool (pget data ''semantic_match''),
      map_option snd (oracle_spec (signals_of (args_of_action_data data))),
      opt_bool (pget data ''replay_outcome_match'')])"
proof -
  let ?s = "signals_of (args_of_action_data data)"
  have v: "verdict_from_action_data data = Inr (map_option (verdict_of ?s) (decide ?s))"
    using coerce_signals_ok [OF assms(1)] by (simp add: verdict_from_action_data_def verdict_eq_decide)
  have m: "map_option snd (oracle_spec ?s) = map_option mv_semantic_match (map_option (verdict_of ?s) (decide ?s))"
    by (simp add: decide_spec [symmetric] option.map_comp comp_def verdict_of_def)
  show ?thesis
    using wt_bool_cases [OF assms(2)] wt_bool_cases [OF assms(3)] wt_bool_cases [OF assms(4)]
    by (auto simp: semantic_match_from_action_data_def optional_bool_def v m split: option.splits)
qed

theorem semantic_match_precedence_witness:
  "semantic_match_from_action_data
     [(''replay_outcome_match'', PBool True), (''cas_manifest_match'', PBool False)] = Inr (Some False)"
proof -
  let ?d = "[(''replay_outcome_match'', PBool True), (''cas_manifest_match'', PBool False)]"
  have "args_well_typed (args_of_action_data ?d)" by code_simp
  moreover have "wt_bool (pget ?d ''oracle_semantic_match'')" "wt_bool (pget ?d ''semantic_match'')"
    "wt_bool (pget ?d ''replay_outcome_match'')" by code_simp+
  ultimately show ?thesis using semantic_match_precedence [of ?d]
    by (simp add: pget_def oracle_spec_def signals_of_def args_of_action_data_def)
qed

end
