(* ===== verification/ToolOutcome.thy ===== *)
theory ToolOutcome
  imports PyJson MismatchOracle
begin

text \<open>
  How the replayer reads the outcome of a tool call (\<open>src/trace_collect/simulator.py\<close>): the
  grouping of actions by iteration, the success, exit code and timeout of a call from its
  structured fields or its text, the reason for a mismatch, the output diff snippet, and the
  timeouts derived from the source. The output normaliser of \<open>output_normalize.py\<close> and the
  regular expressions of the deny list are parameters. The lemmas give the buckets of the
  grouping, the exit code of a text, the bound on a snippet, and the mismatch reason as one
  ordered list of comparisons.
\<close>

subsection \<open>Grouping\<close>

text \<open>\<open>int(v)\<close>.\<close>

definition py_int :: "pyval \<Rightarrow> int res" where
  "py_int v =
     (case v of
        PInt i \<Rightarrow> Inr i
      | PBool b \<Rightarrow> Inr (if b then 1 else 0)
      | PFloat q \<Rightarrow> Inr (if 0 \<le> q then floor q else ceiling q)
      | PStr s \<Rightarrow> (case parse_int s of Some i \<Rightarrow> Inr i | None \<Rightarrow> Inl (ValueError ''invalid literal for int()''))
      | _ \<Rightarrow> Inl (TypeError ''int() argument''))"

record iteration_bucket =
  ib_llms :: "pydict list"
  ib_tools :: "pydict list"

definition group_step ::
    "pydict \<Rightarrow> (int \<times> iteration_bucket) list \<Rightarrow> (int \<times> iteration_bucket) list res" where
  "group_step action iterations =
     rbind (py_int (pget_or action ''iteration'' (PInt 0))) (\<lambda>it.
       let b = (case dget iterations it of Some b \<Rightarrow> b | None \<Rightarrow> \<lparr>ib_llms = [], ib_tools = []\<rparr>) in
       Inr (dput it
         (if pget action ''action_type'' = PStr ''llm_call'' then b\<lparr>ib_llms := ib_llms b @ [action]\<rparr>
          else if pget action ''action_type'' = PStr ''tool_exec'' then b\<lparr>ib_tools := ib_tools b @ [action]\<rparr>
          else b) iterations))"

definition group_actions_by_iteration :: "pydict list \<Rightarrow> (int \<times> iteration_bucket) list res" where
  "group_actions_by_iteration actions = rfold group_step actions []"

subsection \<open>Structured fields\<close>

definition source_tool_success :: "pydict \<Rightarrow> bool res" where
  "source_tool_success data =
     (case pget data ''success'' of
        PBool b \<Rightarrow> Inr b
      | PNone \<Rightarrow> Inr (\<not> truthy (pget data ''error''))
      | _ \<Rightarrow> Inl (ValueError ''tool success must be boolean when present''))"

definition source_llm_message_payload :: "pydict \<Rightarrow> pydict" where
  "source_llm_message_payload data =
     (if dget data ''messages_delta'' \<noteq> None
      then [(''messages_delta'', pget data ''messages_delta''), (''is_delta'', pget_or data ''is_delta'' (PBool True))]
      else [(''messages_in'', pget data ''messages_in'')])"

definition structured_returncode :: "pyval \<Rightarrow> int option res" where
  "structured_returncode v =
     (case v of PNone \<Rightarrow> Inr None | PInt i \<Rightarrow> Inr (Some i)
      | _ \<Rightarrow> Inl (ValueError ''structured returncode must be int''))"

definition structured_timed_out :: "pyval \<Rightarrow> bool option res" where
  "structured_timed_out v =
     (case v of PNone \<Rightarrow> Inr None | PBool b \<Rightarrow> Inr (Some b)
      | _ \<Rightarrow> Inl (ValueError ''structured timed_out must be boolean''))"

definition source_tool_exec_metadata :: "pydict \<Rightarrow> pydict" where
  "source_tool_exec_metadata data =
     (case pget data ''returncode'' of PInt i \<Rightarrow> [(''returncode'', PInt i)] | _ \<Rightarrow> [])
     @ (case pget data ''timed_out'' of PBool b \<Rightarrow> [(''timed_out'', PBool b)] | _ \<Rightarrow> [])"

subsection \<open>Exit codes\<close>

text \<open>\<open>s.rsplit(m, 1)[1]\<close> of a string that contains \<open>m\<close>.\<close>

fun after_last :: "string \<Rightarrow> string \<Rightarrow> string" where
  "after_last m [] = []"
| "after_last m (c # s) = (if contains m s then after_last m s else drop (length m) (c # s))"

definition exit_marker :: string where "exit_marker = ''Exit code:''"

definition command_exit_code :: "string \<Rightarrow> pyval \<Rightarrow> int option res" where
  "command_exit_code tool_result structured =
     rbind (structured_returncode structured) (\<lambda>returncode.
       case returncode of
         Some i \<Rightarrow> Inr (Some i)
       | None \<Rightarrow>
           if \<not> contains exit_marker tool_result then Inr None
           else
             (case splitlines (strip (after_last exit_marker tool_result)) of
                [] \<Rightarrow> Inl (IndexError ''list index out of range'')
              | line # _ \<Rightarrow>
                  let suffix = strip line in
                  if suffix = ''<missing>'' then Inr None else Inr (parse_int suffix)))"

subsection \<open>The output diff snippet\<close>

definition truncate_line :: "nat \<Rightarrow> string \<Rightarrow> string" where
  "truncate_line line_limit line =
     (if length line \<le> line_limit then line
      else take line_limit line @ ''...<truncated '' @ int_str (int (length line - line_limit)) @ '' chars>'')"

definition line_or_missing :: "string list \<Rightarrow> nat \<Rightarrow> string" where
  "line_or_missing ls i = (if i < length ls then ls ! i else ''<missing>'')"

text \<open>The first differing line, and the lines shown around it.\<close>

definition first_difference :: "string list \<Rightarrow> string list \<Rightarrow> nat option" where
  "first_difference source_lines replay_lines =
     List.find (\<lambda>i. line_or_missing source_lines i \<noteq> line_or_missing replay_lines i)
       [0..<max (length source_lines) (length replay_lines)]"

definition snippet_lines :: "nat \<Rightarrow> string list \<Rightarrow> string list \<Rightarrow> nat \<Rightarrow> string list" where
  "snippet_lines line_limit source_lines replay_lines j =
     (let s = line_or_missing source_lines j; r = line_or_missing replay_lines j in
      if s = r then [''  '' @ truncate_line line_limit s]
      else [''- '' @ truncate_line line_limit s, ''+ '' @ truncate_line line_limit r])"

definition compute_output_diff_snippet ::
    "nat \<Rightarrow> nat \<Rightarrow> int \<Rightarrow> string \<Rightarrow> string \<Rightarrow> string option" where
  "compute_output_diff_snippet max_lines context_lines max_line_chars source replay =
     (if source = replay then None
      else
        let line_limit = nat (max 0 max_line_chars);
            source_lines = splitlines source; replay_lines = splitlines replay;
            total_lines = max (length source_lines) (length replay_lines)
        in case first_difference source_lines replay_lines of
             None \<Rightarrow> Some ''raw output differs without line-content difference''
           | Some i \<Rightarrow>
               Some (join [CHR 0x0A] (concat (map (snippet_lines line_limit source_lines replay_lines)
                 [i - context_lines ..< min total_lines (i + max_lines)]))))"

subsection \<open>Command semantics\<close>

definition exec_semantics_payload :: "pyval \<Rightarrow> pyval \<Rightarrow> pydict option" where
  "exec_semantics_payload tool_name tool_args_json =
     (let parsed = (case tool_args_json of
            PStr s \<Rightarrow> json_loads (if s = [] then ''{}'' else s)
          | PDict d \<Rightarrow> Some (PDict d)
          | _ \<Rightarrow> None)
      in case parsed of
           Some (PDict p) \<Rightarrow> (case pget p ''exec'' of PDict e \<Rightarrow> Some e | _ \<Rightarrow> Some p)
         | _ \<Rightarrow> None)"

definition tool_uses_exec_semantics :: "pyval \<Rightarrow> pyval \<Rightarrow> bool" where
  "tool_uses_exec_semantics tool_name tool_args_json =
     (case exec_semantics_payload tool_name tool_args_json of
        None \<Rightarrow> tool_name = PStr ''exec''
      | Some p \<Rightarrow> dget p ''command'' \<noteq> None \<or> dget p ''commands'' \<noteq> None)"

definition tool_uses_single_exec_command_semantics :: "pyval \<Rightarrow> pyval \<Rightarrow> bool" where
  "tool_uses_single_exec_command_semantics tool_name tool_args_json =
     (case exec_semantics_payload tool_name tool_args_json of
        None \<Rightarrow> False
      | Some p \<Rightarrow> dget p ''command'' \<noteq> None \<and> dget p ''commands'' = None)"

text \<open>The first command, in the order of the payload, that a deny pattern matches.\<close>

definition denied_exec_command :: "(string \<Rightarrow> bool) \<Rightarrow> pyval \<Rightarrow> pyval \<Rightarrow> string option" where
  "denied_exec_command deny_pattern_matches tool_name tool_args_json =
     (case exec_semantics_payload tool_name tool_args_json of
        None \<Rightarrow> None
      | Some payload \<Rightarrow>
          let commands =
            (case pget payload ''command'' of PStr c \<Rightarrow> [c] | _ \<Rightarrow> [])
            @ (case pget payload ''commands'' of
                 PList cs \<Rightarrow> List.map_filter (\<lambda>v. case v of PStr c \<Rightarrow> Some c | _ \<Rightarrow> None) cs | _ \<Rightarrow> [])
          in List.find (\<lambda>c. deny_pattern_matches (lower (strip c))) commands)"

subsection \<open>Timeouts\<close>

definition is_replay_wrapper_timeout_result :: "string \<Rightarrow> bool" where
  "is_replay_wrapper_timeout_result tool_result =
     list_ex (\<lambda>l. strip l \<in> {''[timeout]'', ''[resource_timeout]'', ''[resource_stall_timeout]''})
       (splitlines tool_result)"

text \<open>\<open>str(v or "")\<close>.\<close>

definition text_or_empty :: "pyval \<Rightarrow> string" where
  "text_or_empty v = py_str (por v (PStr []))"

definition tool_result_indicates_wrapper_timeout :: "pyval \<Rightarrow> pyval \<Rightarrow> bool res" where
  "tool_result_indicates_wrapper_timeout tool_result structured =
     rbind (structured_timed_out structured) (\<lambda>timed_out.
       case timed_out of
         Some b \<Rightarrow> Inr b
       | None \<Rightarrow>
           let text = text_or_empty tool_result in
           Inr (contains ''Error: Command timed out after '' text \<or> is_replay_wrapper_timeout_result text))"

definition source_exec_timeout_s ::
    "pyval \<Rightarrow> pyval \<Rightarrow> rat \<Rightarrow> bool \<Rightarrow> pyval \<Rightarrow> pyval \<Rightarrow> rat option res" where
  "source_exec_timeout_s tool_name tool_args_json source_duration_ms source_success source_tool_result source_timed_out =
     (let t = max (1 / 1000) (source_duration_ms / 1000) in
      if source_duration_ms \<le> 0 then Inr None
      else if \<not> tool_uses_exec_semantics tool_name tool_args_json then Inr None
      else rbind (structured_timed_out source_timed_out) (\<lambda>timed_out.
        case timed_out of
          Some b \<Rightarrow> Inr (if b then Some t else None)
        | None \<Rightarrow>
            if source_success then Inr None
            else
              let text = text_or_empty source_tool_result in
              if \<not> contains ''Error: Command timed out after '' text \<and> \<not> is_replay_wrapper_timeout_result text
              then Inr None else Inr (Some t)))"

definition source_exec_timeout_replay_floor_s :: rat where
  "source_exec_timeout_replay_floor_s = 5"

definition effective_source_exec_timeout_s :: "rat option \<Rightarrow> rat \<Rightarrow> rat option res" where
  "effective_source_exec_timeout_s timeout_s replay_speed =
     (case timeout_s of
        None \<Rightarrow> Inr None
      | Some t \<Rightarrow>
          if replay_speed \<le> 0 then Inl (ValueError ''replay_speed must be > 0'')
          else Inr (Some (max source_exec_timeout_replay_floor_s (t / replay_speed))))"

subsection \<open>Mismatch\<close>

definition exec_normalized_output_match ::
    "(string \<Rightarrow> string) \<Rightarrow> pyval \<Rightarrow> pyval \<Rightarrow> pyval \<Rightarrow> pyval \<Rightarrow> bool option" where
  "exec_normalized_output_match norm_output tool_name tool_args_json source_tool_result replay_tool_result =
     (if \<not> tool_uses_exec_semantics tool_name tool_args_json then None
      else
        let text = (\<lambda>v. if v = PNone then [] else py_str v) in
        Some (norm_output (text source_tool_result) = norm_output (text replay_tool_result)))"

record tool_pair =
  tp_source_success :: bool
  tp_tool_success :: bool
  tp_replay_source :: string
  tp_source_tool_result :: pyval
  tp_replay_tool_result :: pyval
  tp_tool_name :: pyval
  tp_tool_args_json :: pyval
  tp_source_returncode :: pyval
  tp_replay_returncode :: pyval
  tp_source_timed_out :: pyval
  tp_replay_timed_out :: pyval

definition tool_mismatch_reason :: "tool_pair \<Rightarrow> string option res" where
  "tool_mismatch_reason p =
     (if tp_replay_source p = ''source_artifact_unavailable'' then Inr (Some ''source_artifact_unavailable'')
      else
        let uses_exec_semantics = tool_uses_exec_semantics (tp_tool_name p) (tp_tool_args_json p) in
        rbind (if uses_exec_semantics
               then rbind (tool_result_indicates_wrapper_timeout (tp_source_tool_result p) (tp_source_timed_out p)) (\<lambda>a.
                    rbind (tool_result_indicates_wrapper_timeout (tp_replay_tool_result p) (tp_replay_timed_out p)) (\<lambda>b.
                      Inr (a \<noteq> b)))
               else Inr False) (\<lambda>timeouts_differ.
        if timeouts_differ then Inr (Some ''timeout_mismatch'')
        else if tp_source_success p \<noteq> tp_tool_success p then Inr (Some ''tool_success_mismatch'')
        else if uses_exec_semantics then
          rbind (command_exit_code (text_or_empty (tp_source_tool_result p)) (tp_source_returncode p)) (\<lambda>source_exit.
          rbind (command_exit_code (text_or_empty (tp_replay_tool_result p)) (tp_replay_returncode p)) (\<lambda>replay_exit.
            Inr (if source_exit \<noteq> None \<and> replay_exit \<noteq> None \<and> source_exit \<noteq> replay_exit
                 then Some ''command_exit_code_mismatch'' else None)))
        else Inr None))"

definition command_metadata :: "pyval \<Rightarrow> pyval \<Rightarrow> string \<Rightarrow> bool \<Rightarrow> pyval \<Rightarrow> pydict res" where
  "command_metadata tool_name tool_args_json tool_result tool_success returncode =
     (if \<not> tool_uses_exec_semantics tool_name tool_args_json then Inr []
      else rbind (command_exit_code tool_result returncode) (\<lambda>exit_code.
        Inr (case exit_code of
               None \<Rightarrow> []
             | Some i \<Rightarrow> [(''command_exit_code'', PInt i), (''command_success'', PBool (i = 0)),
                         (''replay_transport_success'', PBool tool_success)])))"

subsection \<open>The execution environment recorded in the trace\<close>

definition exec_env_field :: "pydict \<Rightarrow> string \<Rightarrow> (string \<times> string) list \<Rightarrow> (string \<times> string) list res" where
  "exec_env_field raw_env key normalized =
     (case pget raw_env key of
        PNone \<Rightarrow> Inr normalized
      | PStr s \<Rightarrow> Inr (if s = [] then normalized else dput key s normalized)
      | _ \<Rightarrow> Inl (ValueError ''run_config.container_exec_env field must be a string''))"

definition source_container_exec_env :: "pydict option \<Rightarrow> (string \<times> string) list option res" where
  "source_container_exec_env metadata =
     (case metadata of
        None \<Rightarrow> Inr None
      | Some m \<Rightarrow>
          (case pget m ''run_config'' of
             PNone \<Rightarrow> Inr None
           | PDict rc \<Rightarrow>
               (case pget rc ''container_exec_env'' of
                  PNone \<Rightarrow> Inr None
                | PDict raw_env \<Rightarrow>
                    rbind (rfold (exec_env_field raw_env)
                      [''pythonpath'', ''path'', ''pythonuserbase'', ''bootstrap_site_dir''] []) (\<lambda>e. Inr (Some e))
                | _ \<Rightarrow> Inl (ValueError ''run_config.container_exec_env must be a dict''))
           | _ \<Rightarrow> Inl (ValueError ''trace metadata run_config must be a dict when present'')))"

definition container_agent_env_kwargs :: "(string \<times> string) list option \<Rightarrow> (string \<times> string) list" where
  "container_agent_env_kwargs env =
     (case env of
        None \<Rightarrow> []
      | Some e \<Rightarrow> List.map_filter (\<lambda>k. map_option (Pair k) (dget e k)) [''pythonpath'', ''path'', ''pythonuserbase''])"

definition container_tool_prefixes :: "string set" where
  "container_tool_prefixes = {''spawn'', ''web_search'', ''web_fetch''}"

definition tool_executes_in_container :: "string option \<Rightarrow> bool" where
  "tool_executes_in_container tool_name =
     (case tool_name of
        None \<Rightarrow> False
      | Some n \<Rightarrow> n \<noteq> [] \<and> n \<noteq> ''message'' \<and> \<not> starts_with ''mcp_'' n \<and> n \<notin> container_tool_prefixes)"

subsection \<open>Lemmas\<close>

text \<open>The bucket of an iteration, directly from the list of actions.\<close>

definition in_bucket :: "int \<Rightarrow> string \<Rightarrow> pydict \<Rightarrow> bool" where
  "in_bucket it kind a \<longleftrightarrow> py_int (pget_or a ''iteration'' (PInt 0)) = Inr it \<and> pget a ''action_type'' = PStr kind"

definition bucket_spec :: "pydict list \<Rightarrow> int \<Rightarrow> iteration_bucket option" where
  "bucket_spec actions it =
     (if list_ex (\<lambda>a. py_int (pget_or a ''iteration'' (PInt 0)) = Inr it) actions
      then Some \<lparr>ib_llms = filter (in_bucket it ''llm_call'') actions,
                 ib_tools = filter (in_bucket it ''tool_exec'') actions\<rparr>
      else None)"

lemma bucket_spec_empty: "bucket_spec actions it = None \<Longrightarrow>
  filter (in_bucket it ''llm_call'') actions = [] \<and> filter (in_bucket it ''tool_exec'') actions = []"
  by (auto simp: bucket_spec_def in_bucket_def list_ex_iff filter_empty_conv split: if_splits)

lemma group_snoc:
  "rfold group_step actions [] = Inr its \<Longrightarrow> dget its = bucket_spec actions"
proof (induction actions arbitrary: its rule: rev_induct)
  case Nil
  then show ?case by (simp add: bucket_spec_def fun_eq_iff)
next
  case (snoc a as)
  then obtain u where u: "rfold group_step as [] = Inr u" "group_step a u = Inr its"
    by (auto simp: rfold_append rbind_eq_Inr)
  note IH = snoc.IH [OF u(1)]
  obtain it where it: "py_int (pget_or a ''iteration'' (PInt 0)) = Inr it"
    using u(2) by (auto simp: group_step_def rbind_eq_Inr)
  let ?b = "case bucket_spec as it of Some b \<Rightarrow> b | None \<Rightarrow> \<lparr>ib_llms = [], ib_tools = []\<rparr>"
  have b: "?b = \<lparr>ib_llms = filter (in_bucket it ''llm_call'') as, ib_tools = filter (in_bucket it ''tool_exec'') as\<rparr>"
    using bucket_spec_empty [of as it] by (cases "bucket_spec as it") (auto simp: bucket_spec_def split: if_splits)
  have its: "its = dput it (if pget a ''action_type'' = PStr ''llm_call'' then ?b\<lparr>ib_llms := ib_llms ?b @ [a]\<rparr>
          else if pget a ''action_type'' = PStr ''tool_exec'' then ?b\<lparr>ib_tools := ib_tools ?b @ [a]\<rparr> else ?b) u"
    using u(2) it IH by (simp add: group_step_def Let_def)
  have other: "bucket_spec (as @ [a]) j = bucket_spec as j" if "j \<noteq> it" for j
    using that it by (auto simp: bucket_spec_def in_bucket_def)
  have same: "bucket_spec (as @ [a]) it =
      Some \<lparr>ib_llms = filter (in_bucket it ''llm_call'') (as @ [a]), ib_tools = filter (in_bucket it ''tool_exec'') (as @ [a])\<rparr>"
    using it by (simp add: bucket_spec_def)
  show ?case
    unfolding its b using IH other same it
    by (auto simp: fun_eq_iff dict.get_put in_bucket_def)
qed

lemma contains_hd: "contains (c # m) s \<Longrightarrow> c \<in> set s"
  by (auto simp: contains_iff)

lemma after_last_append:
  assumes "contains m (c # s)" "\<not> contains m s"
  shows "after_last m (out @ c # s) = drop (length m) (c # s)"
proof (induction out)
  case (Cons x out)
  have "contains m (out @ c # s)" using assms(1) by (auto simp: contains_iff) (metis append.assoc)
  then show ?case using Cons by simp
qed (use assms in simp)

lemma int_str_chars: "c \<in> set (int_str i) \<Longrightarrow> py_digit c \<or> c = CHR ''-''"
  by (auto simp: int_str_def dest: nat_digits_digits split: if_splits)

lemma exit_code_text: "after_last exit_marker (out @ exit_marker @ '' '' @ int_str n) = '' '' @ int_str n"
proof -
  have "\<not> contains exit_marker (tl exit_marker @ '' '' @ int_str n)"
    using contains_hd [of "CHR ''E''" "tl exit_marker" "tl exit_marker @ '' '' @ int_str n"] int_str_chars [of "CHR ''E''" n]
    by (auto simp: exit_marker_def py_digit_def cc_def)
  moreover have "contains exit_marker (exit_marker @ '' '' @ int_str n)" by (force simp: contains_iff)
  ultimately show ?thesis
    using after_last_append [of exit_marker "CHR ''E''" "tl exit_marker @ '' '' @ int_str n" out]
    by (simp add: exit_marker_def)
qed

lemma splitlines_nonempty: "s \<noteq> [] \<Longrightarrow> splitlines s \<noteq> []"
proof -
  have "split_lines_from acc (c # t) \<noteq> []" for acc c t
    by (induction t arbitrary: acc c) (auto split: list.splits)
  then show "s \<noteq> [] \<Longrightarrow> splitlines s \<noteq> []" by (cases s) (auto simp: splitlines_def)
qed

lemma concat_length_bound: "(\<And>x. length (f x) \<le> k) \<Longrightarrow> length (concat (map f xs)) \<le> k * length xs"
proof (induction xs)
  case (Cons x xs)
  then show ?case using Cons.prems [of x] by (simp add: add_le_mono)
qed simp

subsection \<open>Properties\<close>

text \<open>Grouping loses nothing and reorders nothing: the bucket of an iteration holds exactly
  the LLM calls and the tool executions of that iteration, in trace order, and only the
  iterations that occur have one.\<close>

theorem grouping_is_partition:
  assumes "group_actions_by_iteration actions = Inr its"
  shows "dget its = bucket_spec actions"
  using assms unfolding group_actions_by_iteration_def by (rule group_snoc)

theorem grouping_is_partition_witness:
  "\<exists>its. group_actions_by_iteration
      [[(''iteration'', PInt 1), (''action_type'', PStr ''llm_call'')],
       [(''action_type'', PStr ''tool_exec'')], [(''iteration'', PStr ''1''), (''action_type'', PStr ''tool_exec'')]]
     = Inr its \<and> dget its 1 = Some \<lparr>ib_llms = [[(''iteration'', PInt 1), (''action_type'', PStr ''llm_call'')]],
          ib_tools = [[(''iteration'', PStr ''1''), (''action_type'', PStr ''tool_exec'')]]\<rparr>"
proof -
  let ?as = "[[(''iteration'', PInt 1), (''action_type'', PStr ''llm_call'')],
       [(''action_type'', PStr ''tool_exec'')], [(''iteration'', PStr ''1''), (''action_type'', PStr ''tool_exec'')]]"
  have "case group_actions_by_iteration ?as of Inr _ \<Rightarrow> True | Inl _ \<Rightarrow> False" by code_simp
  then obtain its where its: "group_actions_by_iteration ?as = Inr its" by (auto split: sum.splits)
  have "bucket_spec ?as 1 = Some \<lparr>ib_llms = [[(''iteration'', PInt 1), (''action_type'', PStr ''llm_call'')]],
          ib_tools = [[(''iteration'', PStr ''1''), (''action_type'', PStr ''tool_exec'')]]\<rparr>"
    by code_simp
  then show ?thesis using its grouping_is_partition [OF its] by simp
qed

lemma exit_code_appended:
  "command_exit_code (out @ exit_marker @ '' '' @ int_str n) PNone = Inr (Some n)"
proof -
  have strip: "strip (int_str n) = int_str n" by (rule strip_no_space [OF int_str_plain(1)])
  have "strip ('' '' @ int_str n) = int_str n"
    using strip by (simp add: strip_space_prefix py_space_def cc_def)
  moreover have "splitlines (int_str n) = [int_str n]"
    using splitlines_plain [OF int_str_plain(2)] int_str_plain(3) by simp
  moreover have "int_str n \<noteq> ''<missing>''"
    using int_str_chars [of "CHR ''m''" n] by (auto simp: py_digit_def cc_def)
  moreover have "contains exit_marker (out @ exit_marker @ '' '' @ int_str n)"
    by (force simp: contains_iff)
  ultimately show ?thesis
    using strip by (simp add: command_exit_code_def structured_returncode_def exit_code_text
        parse_int_int_str Let_def del: append_Cons)
qed

text \<open>The exit code that the shell tool appends to its output is read back from the text,
  whatever the output before it contains.\<close>

theorem exit_code_read_back:
  "command_exit_code (out @ exit_marker @ '' '' @ int_str n) PNone = Inr (Some n)"
  by (rule exit_code_appended)

text \<open>Reading the exit code of a text raises exactly when nothing but whitespace follows
  its last marker; every other text has an exit code or none.\<close>

theorem exit_code_raises_iff_blank:
  "(case command_exit_code s PNone of Inl e \<Rightarrow> True | Inr _ \<Rightarrow> False) =
     (contains exit_marker s \<and> strip (after_last exit_marker s) = [])"
  using splitlines_nonempty [of "strip (after_last exit_marker s)"]
  by (cases "splitlines (strip (after_last exit_marker s))")
    (auto simp: command_exit_code_def structured_returncode_def Let_def splitlines_def)

text \<open>The diff snippet exists exactly when the outputs differ, and shows at most two lines
  for each line of its window.\<close>

theorem diff_snippet_bounded:
  "case compute_output_diff_snippet max_lines context_lines max_line_chars source replay of
     None \<Rightarrow> source = replay
   | Some snippet \<Rightarrow> source \<noteq> replay \<and>
       (\<exists>ls. snippet = join [CHR 0x0A] ls \<and> length ls \<le> max 1 (2 * (max_lines + context_lines)))"
proof (cases "source = replay")
  case False
  let ?s = "splitlines source" and ?r = "splitlines replay"
  show ?thesis
  proof (cases "first_difference ?s ?r")
    case None
    then show ?thesis using False
      by (auto simp: compute_output_diff_snippet_def Let_def
          intro!: exI [of _ "[''raw output differs without line-content difference'']"])
  next
    case (Some i)
    let ?f = "snippet_lines (nat (max 0 max_line_chars)) ?s ?r"
    let ?w = "[i - context_lines ..< min (max (length ?s) (length ?r)) (i + max_lines)]"
    have "length (concat (map ?f ?w)) \<le> 2 * length ?w"
      by (rule concat_length_bound) (simp add: snippet_lines_def Let_def)
    also have "\<dots> \<le> max 1 (2 * (max_lines + context_lines))" by simp
    finally show ?thesis using False Some
      by (auto simp: compute_output_diff_snippet_def Let_def intro!: exI [of _ "concat (map ?f ?w)"])
  qed
qed (simp add: compute_output_diff_snippet_def)

text \<open>The replayer's mismatch reason and the oracle agree on transport evidence: for a
  command run with structured exit codes and timeouts and the same success flag on both
  sides, there is no reason exactly when the oracle sees no transport divergence.\<close>

theorem reason_agrees_with_oracle:
  assumes "tp_replay_source p \<noteq> ''source_artifact_unavailable''"
    and "tool_uses_exec_semantics (tp_tool_name p) (tp_tool_args_json p)"
    and "tp_source_success p = tp_tool_success p"
    and "tp_source_returncode p = PInt a" and "tp_replay_returncode p = PInt b"
    and "tp_source_timed_out p = PBool x" and "tp_replay_timed_out p = PBool y"
    and "va_source_returncode v = PInt a" and "va_replay_returncode v = PInt b"
    and "va_source_timed_out v = PBool x" and "va_replay_timed_out v = PBool y"
    and "tool_mismatch_reason p = Inr r"
    and "va_mismatch_reason v = (case r of None \<Rightarrow> PNone | Some m \<Rightarrow> PStr m)"
  shows "r = None \<longleftrightarrow> \<not> transport_diverges (signals_of v)"
proof -
  have "r = (if x \<noteq> y then Some ''timeout_mismatch'' else if a \<noteq> b then Some ''command_exit_code_mismatch'' else None)"
    using assms(12) by (auto simp: tool_mismatch_reason_def assms(1-7) Let_def
        tool_result_indicates_wrapper_timeout_def structured_timed_out_def command_exit_code_def
        structured_returncode_def split: if_splits)
  then show ?thesis using assms(13) by (auto simp: transport_diverges_def signals_of_def assms(8-11))
qed

definition example_pair :: tool_pair where
  "example_pair = \<lparr>tp_source_success = True, tp_tool_success = True, tp_replay_source = ''container_exec'',
     tp_source_tool_result = PStr ''ok'', tp_replay_tool_result = PStr ''ok'', tp_tool_name = PStr ''exec'',
     tp_tool_args_json = PDict [(''command'', PStr ''ls'')], tp_source_returncode = PInt 0,
     tp_replay_returncode = PInt 1, tp_source_timed_out = PBool False, tp_replay_timed_out = PBool False\<rparr>"

definition example_pair_args :: verdict_args where
  "example_pair_args = args_of_action_data
     [(''source_returncode'', PInt 0), (''returncode'', PInt 1), (''source_timed_out'', PBool False),
      (''timed_out'', PBool False), (''mismatch_reason'', PStr ''command_exit_code_mismatch'')]"

theorem reason_agrees_with_oracle_witness:
  "tool_mismatch_reason example_pair = Inr (Some ''command_exit_code_mismatch'')
     \<and> transport_diverges (signals_of example_pair_args)"
proof -
  have r: "tool_mismatch_reason example_pair = Inr (Some ''command_exit_code_mismatch'')" by code_simp
  have "tool_uses_exec_semantics (tp_tool_name example_pair) (tp_tool_args_json example_pair)" by code_simp
  then show ?thesis
    using r reason_agrees_with_oracle [of example_pair 0 1 False False example_pair_args "Some ''command_exit_code_mismatch''"]
    by (simp add: example_pair_def example_pair_args_def args_of_action_data_def pget_def pget_or_def)
qed

end
