(* ===== verification/ReplayPlan.thy ===== *)
theory ReplayPlan
  imports ToolOutcome CasManifest "HOL-Library.Product_Lexorder" "HOL-Library.Multiset"
begin

text \<open>
  Planning a replay (\<open>src/trace_collect/simulator.py\<close>): reading a trace file into the
  actions of a primary agent and its subagents, the replay identities, the partition of the
  sessions into waves and workers, the manifest and its validation, the timing of LLM calls,
  and the summaries of sleep drift. Times are exact rationals. The host is asked whether a
  path exists and what an absolute path resolves to.
  The lemmas show that the actions read are those of the lane in time order, that the replay
  identities are pairwise distinct, that waves and chunks partition the sessions, and the
  rank a percentile has.
\<close>

subsection \<open>Numbers\<close>

text \<open>\<open>float(s)\<close> for decimal numerals with an optional sign, fraction and exponent;
  \<open>inf\<close> and \<open>nan\<close> are outside the model and read as errors.\<close>

definition parse_float :: "string \<Rightarrow> rat option" where
  "parse_float s =
     (let t = strip s;
          (sign, u) = (case t of c # r \<Rightarrow> if c = CHR ''-'' then (-1, r) else if c = CHR ''+'' then (1, r) else (1, t)
                       | [] \<Rightarrow> (1 :: rat, []));
          ip = takeWhile py_digit u; r1 = drop (length ip) u;
          (fp, r2) = (case r1 of c # r \<Rightarrow> if c = CHR ''.'' then (takeWhile py_digit r, dropWhile py_digit r) else ([], r1)
                      | [] \<Rightarrow> ([], []));
          m = sign * of_nat (digits_value (ip @ fp)) / 10 ^ length fp
      in if ip @ fp = [] then None
         else case r2 of
           [] \<Rightarrow> Some m
         | c # r \<Rightarrow>
             if c = CHR ''e'' \<or> c = CHR ''E'' then
               (case parse_int r of
                  Some e \<Rightarrow> Some (if 0 \<le> e then m * 10 ^ nat e else m / 10 ^ nat (- e))
                | None \<Rightarrow> None)
             else None)"

definition py_float :: "pyval \<Rightarrow> rat res" where
  "py_float v =
     (case v of
        PInt i \<Rightarrow> Inr (of_int i)
      | PFloat q \<Rightarrow> Inr q
      | PBool b \<Rightarrow> Inr (if b then 1 else 0)
      | PStr s \<Rightarrow> (case parse_float s of Some q \<Rightarrow> Inr q | None \<Rightarrow> Inl (ValueError ''could not convert string to float''))
      | _ \<Rightarrow> Inl (TypeError ''float() argument''))"

subsection \<open>Reading a trace file\<close>

record trace_scan =
  ts_metadata :: "pydict option"
  ts_first_agent_id :: "string option"
  ts_all_actions :: "pydict list"
  ts_summaries :: "(string \<times> pydict) list"

definition scan_line :: "string \<Rightarrow> trace_scan \<Rightarrow> trace_scan res" where
  "scan_line line sc =
     (let stripped = strip line in
      if stripped = [] then Inr sc
      else
        (case json_loads stripped of
           None \<Rightarrow> Inl (ValueError ''JSONDecodeError'')
         | Some (PDict record) \<Rightarrow>
             (let agent_id = pget record ''agent_id'' in
              if pget record ''type'' = PStr ''trace_metadata'' then Inr (sc\<lparr>ts_metadata := Some record\<rparr>)
              else if pget record ''type'' = PStr ''action'' \<and> truthy agent_id then
                Inr (sc\<lparr>ts_first_agent_id := (if ts_first_agent_id sc = None then Some (py_str agent_id)
                                              else ts_first_agent_id sc),
                        ts_all_actions := ts_all_actions sc @ [record]\<rparr>)
              else if pget record ''type'' = PStr ''summary'' \<and> truthy agent_id then
                Inr (sc\<lparr>ts_summaries := dput (py_str agent_id) record (ts_summaries sc)\<rparr>)
              else Inr sc)
         | Some _ \<Rightarrow> Inl (AttributeError ''get'')))"

text \<open>The actions of an agent identity as the scan files them, under the text of the field.\<close>

definition actions_of_agent :: "string \<Rightarrow> pydict list \<Rightarrow> pydict list" where
  "actions_of_agent agent actions = filter (\<lambda>a. py_str (pget a ''agent_id'') = agent) actions"

definition lane_owner :: "pydict list \<Rightarrow> string \<Rightarrow> string" where
  "lane_owner actions first_agent_id =
     (let p = hd (split_char CHR 0x2F first_agent_id) in
      if CHR 0x2F \<in> set first_agent_id \<and> actions_of_agent p actions \<noteq> [] then p else first_agent_id)"

definition primary_agent :: "trace_scan \<Rightarrow> string \<Rightarrow> string" where
  "primary_agent sc first_agent_id =
     (case (case ts_metadata sc of Some m \<Rightarrow> pget m ''instance_id'' | None \<Rightarrow> PNone) of
        PStr a \<Rightarrow> if actions_of_agent a (ts_all_actions sc) \<noteq> [] then a
                  else lane_owner (ts_all_actions sc) first_agent_id
      | _ \<Rightarrow> lane_owner (ts_all_actions sc) first_agent_id)"

definition in_lane :: "string \<Rightarrow> pydict \<Rightarrow> bool" where
  "in_lane primary action \<longleftrightarrow>
     pget action ''agent_id'' = PStr primary
     \<or> starts_with (primary @ ''/'') (py_str (pget_or action ''agent_id'' (PStr [])))"

type_synonym action_key = "rat \<times> rat \<times> int \<times> string"

definition action_sort_key :: "pydict \<Rightarrow> action_key res" where
  "action_sort_key action =
     rbind (py_float (pget_or action ''ts_start'' (PFloat 0))) (\<lambda>ts_start.
     rbind (py_float (pget_or action ''ts_end'' (PFloat 0))) (\<lambda>ts_end.
     rbind (py_int (pget_or action ''iteration'' (PInt 0))) (\<lambda>it.
       Inr (ts_start, ts_end, it, py_str (pget_or action ''action_id'' (PStr []))))))"

definition parse_trace_session :: "string list \<Rightarrow> (string \<times> pydict option \<times> pydict list \<times> pydict option) res" where
  "parse_trace_session ls =
     rbind (rfold scan_line ls
       \<lparr>ts_metadata = None, ts_first_agent_id = None, ts_all_actions = [], ts_summaries = []\<rparr>) (\<lambda>sc.
     case ts_first_agent_id sc of
       None \<Rightarrow> Inl (SimulateError ''No action records with agent_id found'')
     | Some first_agent_id \<Rightarrow>
         let primary = primary_agent sc first_agent_id;
             actions = filter (in_lane primary) (ts_all_actions sc) in
         if actions_of_agent primary (ts_all_actions sc) = []
         then Inl (SimulateError ''No primary action records'')
         else
           rbind (rmap (\<lambda>a. rbind (action_sort_key a) (\<lambda>k. Inr (k, a))) actions) (\<lambda>keyed.
             Inr (primary, ts_metadata sc, map snd (sort_key fst keyed), dget (ts_summaries sc) primary)))"

definition source_action_agent_id :: "pydict \<Rightarrow> string" where
  "source_action_agent_id action = py_str (por (pget action ''agent_id'') (PStr []))"

definition is_subagent_lane_action :: "string \<Rightarrow> pydict \<Rightarrow> bool" where
  "is_subagent_lane_action source_agent_id action =
     starts_with (source_agent_id @ ''/'') (source_action_agent_id action)"

definition replay_action_id :: "string \<Rightarrow> string \<Rightarrow> pydict \<Rightarrow> string" where
  "replay_action_id source_agent_id fallback action =
     (let action_id = py_str (por (pget action ''action_id'') (PStr fallback));
          lane = source_action_agent_id action
      in if lane \<noteq> [] \<and> lane \<noteq> source_agent_id then lane @ '':'' @ action_id else action_id)"

fun find_task :: "pydict list \<Rightarrow> string \<Rightarrow> pydict res" where
  "find_task [] agent_id = Inl (SimulateError ''Task not found'')"
| "find_task (task # tasks) agent_id =
     (case dget task ''instance_id'' of
        None \<Rightarrow> Inl (KeyError ''instance_id'')
      | Some v \<Rightarrow> if v = PStr agent_id then Inr task else find_task tasks agent_id)"

definition iteration_count :: "pydict list \<Rightarrow> nat res" where
  "iteration_count actions =
     rbind (rmap (\<lambda>a. py_int (pget_or a ''iteration'' (PInt 0))) actions) (\<lambda>its.
       Inr (length (remdups its)))"

subsection \<open>Sessions and replay identities\<close>

record loaded_session =
  ls_source_trace :: string
  ls_task_source :: string
  ls_source_agent_id :: string
  ls_run_instance_id :: string
  ls_manifest_index :: nat
  ls_scaffold :: pyval
  ls_metadata :: "pydict option"
  ls_summary :: "pydict option"
  ls_task :: pydict
  ls_actions :: "pydict list"
  ls_iterations :: "(int \<times> iteration_bucket) list"
  ls_docker_image_override :: "string option"
  ls_label :: "string option"
  ls_sandbox_backend :: string
  ls_checkpoint_backend :: string

definition load_trace_session ::
    "(string \<Rightarrow> string list) \<Rightarrow> (string \<Rightarrow> pydict list) \<Rightarrow> string \<Rightarrow> string \<Rightarrow> nat \<Rightarrow> string option \<Rightarrow>
     string option \<Rightarrow> string \<Rightarrow> string \<Rightarrow> loaded_session res" where
  "load_trace_session read_lines read_tasks source_trace task_source manifest_index
       docker_image_override label sandbox_backend checkpoint_backend =
     rbind (parse_trace_session (read_lines source_trace)) (\<lambda>(source_agent_id, metadata, actions, summary).
     rbind (find_task (read_tasks task_source) source_agent_id) (\<lambda>task.
     rbind (group_actions_by_iteration actions) (\<lambda>iterations.
       Inr \<lparr>ls_source_trace = source_trace, ls_task_source = task_source,
            ls_source_agent_id = source_agent_id, ls_run_instance_id = source_agent_id,
            ls_manifest_index = manifest_index,
            ls_scaffold = (case metadata of
               Some m \<Rightarrow> if m = [] then PStr ''unknown'' else pget_or m ''scaffold'' (PStr ''unknown'')
             | None \<Rightarrow> PStr ''unknown''),
            ls_metadata = metadata, ls_summary = summary, ls_task = task, ls_actions = actions,
            ls_iterations = iterations, ls_docker_image_override = docker_image_override,
            ls_label = label, ls_sandbox_backend = sandbox_backend,
            ls_checkpoint_backend = checkpoint_backend\<rparr>)))"

text \<open>The names tried for a session whose source identity occurs more than once.\<close>

definition replica_base :: "string \<Rightarrow> nat \<Rightarrow> string" where
  "replica_base source_agent_id occurrence = source_agent_id @ ''__replica-'' @ pad_digits 3 occurrence"

definition entry_name :: "string \<Rightarrow> nat \<Rightarrow> string" where
  "entry_name base manifest_index = base @ ''__entry-'' @ pad_digits 4 manifest_index"

definition suffixed_name :: "string \<Rightarrow> nat \<Rightarrow> nat \<Rightarrow> string" where
  "suffixed_name base manifest_index suffix = entry_name base manifest_index @ ''-'' @ nat_digits suffix"

lemma suffixed_name_inject [simp]: "suffixed_name b i m = suffixed_name b i n \<longleftrightarrow> m = n"
  by (simp add: suffixed_name_def)

text \<open>The \<open>while\<close> loop over suffixes: it ends because the names are distinct and finitely
  many are taken.\<close>

function free_name :: "string list \<Rightarrow> string \<Rightarrow> nat \<Rightarrow> string \<Rightarrow> nat \<Rightarrow> string" where
  "free_name taken base manifest_index candidate suffix =
     (if candidate \<in> set taken
      then free_name taken base manifest_index (suffixed_name base manifest_index suffix) (suffix + 1)
      else candidate)"
  by pat_completeness auto
termination
proof (relation "measure (\<lambda>(taken, base, i, candidate, suffix).
    2 * card {n. suffix \<le> n \<and> suffixed_name base i n \<in> set taken} + (if candidate \<in> set taken then 1 else 0))")
  fix taken base i candidate suffix
  let ?S = "\<lambda>s. {n. s \<le> n \<and> suffixed_name base i n \<in> set taken}"
  assume c: "candidate \<in> set taken"
  have fin: "finite (?S s)" for s
  proof (rule finite_imageD)
    show "finite (suffixed_name base i ` ?S s)" by (rule finite_subset [of _ "set taken"]) auto
    show "inj_on (suffixed_name base i) (?S s)" by (simp add: inj_on_def)
  qed
  show "((taken, base, i, suffixed_name base i suffix, suffix + 1), taken, base, i, candidate, suffix)
      \<in> measure (\<lambda>(taken, base, i, candidate, suffix).
          2 * card {n. suffix \<le> n \<and> suffixed_name base i n \<in> set taken} + (if candidate \<in> set taken then 1 else 0))"
  proof (cases "suffixed_name base i suffix \<in> set taken")
    case True
    then have "?S suffix = insert suffix (?S (suffix + 1))" by (auto simp: le_less_Suc_eq not_less_eq_eq)
    then show ?thesis using fin [of "suffix + 1"] c True by simp
  next
    case False
    have "card (?S (suffix + 1)) \<le> card (?S suffix)" by (rule card_mono [OF fin]) auto
    then show ?thesis using c False by simp
  qed
qed simp

declare free_name.simps [simp del]

definition replica_candidate :: "string list \<Rightarrow> string \<Rightarrow> nat \<Rightarrow> string" where
  "replica_candidate taken base manifest_index =
     (if base \<in> set taken then free_name taken base manifest_index (entry_name base manifest_index) 2
      else base)"

text \<open>The assignment loop; \<open>reserved\<close> are the source identities, \<open>used\<close> the names given so
  far, and \<open>occurrences\<close> counts the copies of each source identity.\<close>

fun assign_ids ::
    "string list \<Rightarrow> string list \<Rightarrow> string list \<Rightarrow> (string \<times> nat) list \<Rightarrow> loaded_session list \<Rightarrow> loaded_session list" where
  "assign_ids all_sources reserved used occurrences [] = []"
| "assign_ids all_sources reserved used occurrences (s # sessions) =
     (let source = ls_source_agent_id s in
      if count_list all_sources source = 1
      then s\<lparr>ls_run_instance_id := source\<rparr> # assign_ids all_sources reserved (source # used) occurrences sessions
      else
        let occurrence = (case dget occurrences source of Some n \<Rightarrow> n | None \<Rightarrow> 0) + 1;
            candidate = replica_candidate (reserved @ used) (replica_base source occurrence) (ls_manifest_index s)
        in s\<lparr>ls_run_instance_id := candidate\<rparr>
           # assign_ids all_sources reserved (candidate # used) (dput source occurrence occurrences) sessions)"

definition assign_replay_instance_ids :: "loaded_session list \<Rightarrow> loaded_session list" where
  "assign_replay_instance_ids sessions =
     (let sources = map ls_source_agent_id sessions in assign_ids sources sources [] [] sessions)"

subsection \<open>Waves and workers\<close>

definition default_prep_concurrency :: int where
  "default_prep_concurrency = 20"

definition resolve_prep_concurrency :: "int \<Rightarrow> int \<Rightarrow> int res" where
  "resolve_prep_concurrency requested num_sessions =
     (if requested < 0 then Inl (ValueError ''prep_concurrency must be >= 0'')
      else if num_sessions < 1 then Inl (ValueError ''num_sessions must be >= 1'')
      else Inr (min (if requested = 0 then default_prep_concurrency else requested) num_sessions))"

fun partition_loop :: "nat \<Rightarrow> nat \<Rightarrow> nat \<Rightarrow> nat \<Rightarrow> 'a list \<Rightarrow> 'a list list" where
  "partition_loop 0 worker_index chunk_size remainder rest = []"
| "partition_loop (Suc n) worker_index chunk_size remainder rest =
     (let sz = chunk_size + (if worker_index < remainder then 1 else 0) in
      take sz rest # partition_loop n (worker_index + 1) chunk_size remainder (drop sz rest))"

definition partition_worker_inputs :: "'a list \<Rightarrow> int \<Rightarrow> 'a list list res" where
  "partition_worker_inputs inputs workers =
     (if workers < 1 then Inl (ValueError ''workers must be >= 1'')
      else if inputs = [] then Inl (ValueError ''inputs must not be empty'')
      else
        let partition_count = min (nat workers) (length inputs) in
        Inr (partition_loop partition_count 0 (length inputs div partition_count)
               (length inputs mod partition_count) inputs))"

definition chunk_worker_inputs_by_concurrency :: "'a list \<Rightarrow> int \<Rightarrow> 'a list list res" where
  "chunk_worker_inputs_by_concurrency inputs concurrency =
     (if concurrency < 1 then Inl (ValueError ''concurrency must be >= 1'')
      else
        let c = nat concurrency in
        Inr (map (\<lambda>i. take c (drop (i * c) inputs)) [0..<(length inputs + c - 1) div c]))"

text \<open>The waves of a multi-process replay: each wave is split over the workers. The first
  component is the number of sessions that may prepare their containers at the same time.\<close>

definition worker_waves :: "'a list \<Rightarrow> int \<Rightarrow> int \<Rightarrow> int \<Rightarrow> (int \<times> 'a list list list) res" where
  "worker_waves worker_inputs concurrency workers prep_concurrency =
     (if workers < 1 then Inl (ValueError ''workers must be >= 1'')
      else if concurrency < 1 then Inl (ValueError ''concurrency must be >= 1'')
      else
        rbind (resolve_prep_concurrency prep_concurrency (int (length worker_inputs))) (\<lambda>prep_limit.
        rbind (chunk_worker_inputs_by_concurrency worker_inputs concurrency) (\<lambda>wave_inputs.
        rbind (rmap (\<lambda>wave. partition_worker_inputs wave workers) wave_inputs) (\<lambda>waves.
          Inr (prep_limit, waves)))))"

text \<open>A session is sent to a worker process by its inputs, and read again there.\<close>

record worker_trace_input =
  wi_source_trace :: string
  wi_task_source :: string
  wi_manifest_index :: nat
  wi_docker_image_override :: "string option"
  wi_label :: "string option"
  wi_run_instance_id :: string
  wi_sandbox_backend :: string
  wi_checkpoint_backend :: string

definition worker_input_of :: "loaded_session \<Rightarrow> worker_trace_input" where
  "worker_input_of s =
     \<lparr>wi_source_trace = ls_source_trace s, wi_task_source = ls_task_source s,
      wi_manifest_index = ls_manifest_index s, wi_docker_image_override = ls_docker_image_override s,
      wi_label = ls_label s, wi_run_instance_id = ls_run_instance_id s,
      wi_sandbox_backend = ls_sandbox_backend s, wi_checkpoint_backend = ls_checkpoint_backend s\<rparr>"

definition load_worker_trace_inputs ::
    "(string \<Rightarrow> string list) \<Rightarrow> (string \<Rightarrow> pydict list) \<Rightarrow> worker_trace_input list \<Rightarrow> loaded_session list res" where
  "load_worker_trace_inputs read_lines read_tasks inputs =
     rmap (\<lambda>en. rbind (load_trace_session read_lines read_tasks (wi_source_trace en) (wi_task_source en)
                        (wi_manifest_index en) (wi_docker_image_override en) (wi_label en)
                        (wi_sandbox_backend en) (wi_checkpoint_backend en)) (\<lambda>s.
              Inr (s\<lparr>ls_run_instance_id := wi_run_instance_id en\<rparr>))) inputs"

subsection \<open>Sleep drift\<close>

text \<open>\<open>round(q, k)\<close>: to the nearest, ties to even.\<close>

definition round_to :: "nat \<Rightarrow> rat \<Rightarrow> rat" where
  "round_to k q =
     (let x = q * 10 ^ k; f = \<lfloor>x\<rfloor>; d = x - of_int f;
          n = (if d < 1 / 2 then f else if 1 / 2 < d then f + 1 else if even f then f else f + 1)
      in of_int n / 10 ^ k)"

record sleep_drift =
  sd_phase :: string
  sd_expected_s :: rat
  sd_actual_s :: rat

definition drift_s :: "sleep_drift \<Rightarrow> rat" where
  "drift_s d = sd_actual_s d - sd_expected_s d"

definition sleep_drift_dict :: "sleep_drift \<Rightarrow> pydict" where
  "sleep_drift_dict d =
     [(''phase'', PStr (sd_phase d)), (''expected_s'', PFloat (round_to 6 (sd_expected_s d))),
      (''actual_s'', PFloat (round_to 6 (sd_actual_s d))), (''drift_s'', PFloat (round_to 6 (drift_s d))),
      (''drift_ms'', PFloat (round_to 3 (drift_s d * 1000)))]"

text \<open>A sleep of the event loop: \<open>actual\<close> is the time it took.\<close>

definition sleep_and_measure :: "rat \<Rightarrow> string \<Rightarrow> rat \<Rightarrow> sleep_drift option" where
  "sleep_and_measure expected_s phase actual =
     (if expected_s \<le> 0 then None
      else Some \<lparr>sd_phase = phase, sd_expected_s = expected_s, sd_actual_s = actual\<rparr>)"

definition nearest_rank_percentile :: "rat list \<Rightarrow> nat \<Rightarrow> rat res" where
  "nearest_rank_percentile sorted_values percentile =
     (if sorted_values = [] then Inl (ValueError ''sorted_values must not be empty'')
      else
        let n = length sorted_values;
            index = max 0 (min (int n - 1) ((int percentile * int n + 99) div 100 - 1))
        in Inr (sorted_values ! nat index))"

definition summarize_float_values :: "rat list \<Rightarrow> pydict res" where
  "summarize_float_values values =
     (if values = [] then
        Inr [(''min'', PFloat 0), (''max'', PFloat 0), (''avg'', PFloat 0), (''p50'', PFloat 0), (''p95'', PFloat 0)]
      else
        let s = sort values in
        rbind (nearest_rank_percentile s 50) (\<lambda>p50.
        rbind (nearest_rank_percentile s 95) (\<lambda>p95.
          Inr [(''min'', PFloat (round_to 6 (hd s))), (''max'', PFloat (round_to 6 (last s))),
               (''avg'', PFloat (round_to 6 (sum_list s / of_nat (length s)))),
               (''p50'', PFloat (round_to 6 p50)), (''p95'', PFloat (round_to 6 p95))])))"

definition drift_group :: "sleep_drift list \<Rightarrow> pydict res" where
  "drift_group items =
     rbind (summarize_float_values (map drift_s items)) (\<lambda>d.
       Inr [(''sample_count'', PInt (int (length items))),
            (''expected_total_s'', PFloat (round_to 6 (sum_list (map sd_expected_s items)))),
            (''actual_total_s'', PFloat (round_to 6 (sum_list (map sd_actual_s items)))),
            (''drift_s'', PDict d)])"

definition summarize_sleep_drifts :: "sleep_drift list \<Rightarrow> pydict res" where
  "summarize_sleep_drifts drifts =
     (if drifts = [] then
        rbind (summarize_float_values []) (\<lambda>d.
          Inr [(''sample_count'', PInt 0), (''expected_total_s'', PFloat 0), (''actual_total_s'', PFloat 0),
               (''drift_s'', PDict d), (''by_phase'', PDict [])])
      else
        rbind (drift_group drifts) (\<lambda>total.
        rbind (rmap (\<lambda>phase. rbind (drift_group (filter (\<lambda>d. sd_phase d = phase) drifts))
                 (\<lambda>g. Inr (phase, PDict g)))
               (sort (remdups (map sd_phase drifts)))) (\<lambda>by_phase.
          Inr (total @ [(''by_phase'', PDict by_phase)]))))"

subsection \<open>Timing of LLM calls\<close>

record llm_timing =
  lt_mode :: string
  lt_ttft_ms :: "rat option"
  lt_tpot_ms :: "rat option"

definition validate_llm_timing_config :: "llm_timing \<Rightarrow> unit res" where
  "validate_llm_timing_config config =
     (if lt_mode config \<notin> {''source_scaled'', ''ttft_tpot''} then Inl (ValueError ''Unsupported llm_timing_mode'')
      else if lt_mode config = ''source_scaled'' then Inr ()
      else
        (case (lt_ttft_ms config, lt_tpot_ms config) of
           (None, _) \<Rightarrow> Inl (ValueError ''llm_ttft_ms is required'')
         | (_, None) \<Rightarrow> Inl (ValueError ''llm_tpot_ms is required'')
         | (Some a, Some b) \<Rightarrow>
             if a < 0 then Inl (ValueError ''llm_ttft_ms must be non-negative'')
             else if b < 0 then Inl (ValueError ''llm_tpot_ms must be non-negative'')
             else Inr ()))"

definition coerce_completion_tokens :: "pyval \<Rightarrow> int res" where
  "coerce_completion_tokens v =
     (if v = PNone \<or> v = PStr [] then Inr 0
      else rbind (py_int v) (\<lambda>tokens.
        if tokens < 0 then Inl (ValueError ''completion_tokens must be non-negative'') else Inr tokens))"

definition llm_replay_duration_s :: "pydict \<Rightarrow> rat \<Rightarrow> rat \<Rightarrow> llm_timing \<Rightarrow> (rat \<times> pydict) res" where
  "llm_replay_duration_s data source_duration_s replay_speed timing =
     (if lt_mode timing = ''source_scaled'' then
        Inr (source_duration_s / replay_speed, [(''llm_timing_mode'', PStr ''source_scaled'')])
      else
        rbind (coerce_completion_tokens (pget_or data ''completion_tokens'' (PInt 0))) (\<lambda>tokens.
          case (lt_ttft_ms timing, lt_tpot_ms timing) of
            (Some ttft, Some tpot) \<Rightarrow>
              let simulated_ms = ttft + of_int (max 0 (tokens - 1)) * tpot in
              Inr (simulated_ms / 1000,
                [(''llm_timing_mode'', PStr ''ttft_tpot''), (''simulated_ttft_ms'', PFloat ttft),
                 (''simulated_tpot_ms'', PFloat tpot), (''simulated_llm_latency_ms'', PFloat simulated_ms),
                 (''source_ttft_ms'', pget data ''ttft_ms''), (''source_tpot_ms'', pget data ''tpot_ms'')])
          | _ \<Rightarrow> Inl (AssertionError [])))"

definition source_action_excluded_overhead_s :: "pydict \<Rightarrow> rat" where
  "source_action_excluded_overhead_s action =
     (let data = action_data action;
          ck = (if is_py_dict (pget data ''checkpoint_after'') then pget data ''checkpoint_after''
                else pget data ''checkpoint_after_error'')
      in case ck of
           PDict d \<Rightarrow>
             if pget d ''overhead_excluded'' \<noteq> PBool True then 0
             else (case py_float (por (pget d ''elapsed_ms'') (PFloat 0)) of
                     Inr ms \<Rightarrow> max 0 (ms / 1000)
                   | Inl _ \<Rightarrow> 0)
         | _ \<Rightarrow> 0)"

definition sleep_source_gap :: "rat option \<Rightarrow> rat \<Rightarrow> rat \<Rightarrow> rat \<Rightarrow> sleep_drift option" where
  "sleep_source_gap previous_source_end action_source_start replay_speed actual =
     (case previous_source_end of
        None \<Rightarrow> None
      | Some e \<Rightarrow> sleep_and_measure (max 0 (action_source_start - e) / replay_speed) ''source_gap'' actual)"

subsection \<open>Validation\<close>

definition resolve_docker_image :: "loaded_session \<Rightarrow> pyval" where
  "resolve_docker_image s =
     por (case ls_docker_image_override s of Some d \<Rightarrow> PStr d | None \<Rightarrow> PNone)
       (por (pget (ls_task s) ''image_name'') (pget (ls_task s) ''docker_image''))"

definition execution_environment :: "loaded_session \<Rightarrow> string" where
  "execution_environment s =
     (let metadata = (case ls_metadata s of Some m \<Rightarrow> m | None \<Rightarrow> []);
          v = pget metadata ''execution_environment''
      in if v = PNone \<or> v = PStr []
         then (if pget metadata ''agent_runtime_mode'' = PStr ''host_controller'' then ''host'' else ''container'')
         else py_str v)"

definition is_host_mode :: "loaded_session \<Rightarrow> bool" where
  "is_host_mode s \<longleftrightarrow> execution_environment s = ''host''"

definition sandbox_backends :: "string list" where
  "sandbox_backends = [''fake'', ''docker'']"

definition checkpoint_backends :: "string list" where
  "checkpoint_backends = [''walk'', ''overlay'', ''verify'']"

definition check_session_image :: "loaded_session \<Rightarrow> unit res" where
  "check_session_image s =
     (if ls_sandbox_backend s \<notin> set sandbox_backends then Inl (ValueError ''unknown sandbox_backend'')
      else if ls_checkpoint_backend s \<notin> set checkpoint_backends
      then Inl (ValueError ''checkpoint_backend must be one of'')
      else if is_host_mode s \<or> ls_sandbox_backend s = ''fake'' then Inr ()
      else if \<not> truthy (resolve_docker_image s) then Inl (SimulateError ''has no resolvable docker_image'')
      else Inr ())"

definition coerce_timestamp :: "pyval \<Rightarrow> rat res" where
  "coerce_timestamp v =
     (case py_float v of Inr q \<Rightarrow> Inr q | Inl _ \<Rightarrow> Inl (SimulateError ''is missing a numeric field''))"

definition check_action_bounds :: "pydict \<Rightarrow> unit res" where
  "check_action_bounds action =
     rbind (coerce_timestamp (pget action ''ts_start'')) (\<lambda>ts_start.
     rbind (coerce_timestamp (pget action ''ts_end'')) (\<lambda>ts_end.
       if ts_end < ts_start then Inl (SimulateError ''has ts_end < ts_start'') else Inr ()))"

definition check_session_ids :: "loaded_session \<Rightarrow> string list \<Rightarrow> string list res" where
  "check_session_ids s seen =
     (if ls_run_instance_id s \<in> set seen
      then Inl (SimulateError ''Duplicate run_instance_id across replay sessions'')
      else rbind (rmap check_action_bounds (ls_actions s)) (\<lambda>_. Inr (ls_run_instance_id s # seen)))"

definition validate_loaded_sessions :: "loaded_session list \<Rightarrow> rat \<Rightarrow> llm_timing \<Rightarrow> unit res" where
  "validate_loaded_sessions sessions replay_speed timing =
     (if replay_speed \<le> 0 then Inl (ValueError ''replay_speed must be > 0'')
      else if sessions = [] then Inl (SimulateError ''No trace sessions were loaded'')
      else rbind (validate_llm_timing_config timing) (\<lambda>_.
           rbind (rmap check_session_image sessions) (\<lambda>_.
           rbind (rfold check_session_ids sessions []) (\<lambda>_. Inr ()))))"

definition validate_container_runtime :: "loaded_session list \<Rightarrow> string option \<Rightarrow> unit res" where
  "validate_container_runtime sessions container_executable =
     (if list_ex (\<lambda>s. \<not> is_host_mode s \<and> ls_sandbox_backend s \<noteq> ''fake'') sessions \<and> container_executable = None
      then Inl (ValueError ''container_executable is required for container-mode traces'')
      else Inr ())"

subsection \<open>The manifest\<close>

text \<open>The host: whether a path exists, and \<open>Path.resolve\<close> of an absolute path.\<close>

record manifest_host =
  mh_exists :: "string \<Rightarrow> bool"
  mh_resolve :: "string \<Rightarrow> string"

record manifest_entry =
  me_index :: nat
  me_trace :: string
  me_task_source :: string
  me_docker_image :: "string option"
  me_label :: "string option"
  me_sandbox_backend :: string
  me_checkpoint_backend :: string

record manifest_defaults =
  md_task_source :: "string option"
  md_sandbox_backend :: string
  md_checkpoint_backend :: string

definition resolve_manifest_path :: "manifest_host \<Rightarrow> string \<Rightarrow> bool \<Rightarrow> pyval \<Rightarrow> string res" where
  "resolve_manifest_path h base_dir require_absolute v =
     (case v of
        PStr s \<Rightarrow>
          if s = [] then Inl (SimulateError ''manifest field must be a non-empty string'')
          else if require_absolute \<and> \<not> is_absolute s
          then Inl (SimulateError ''manifest field must be an absolute path'')
          else if \<not> is_absolute s then Inr (mh_resolve h (path_join base_dir s))
          else Inr (path_str s)
      | _ \<Rightarrow> Inl (SimulateError ''manifest field must be a non-empty string''))"

definition resolve_manifest_sandbox_backend :: "pyval \<Rightarrow> string res" where
  "resolve_manifest_sandbox_backend v =
     (case v of
        PStr s \<Rightarrow>
          if s = [] then Inl (SimulateError ''manifest field must be a non-empty string'')
          else if s \<notin> set sandbox_backends then Inl (SimulateError ''manifest field is invalid'')
          else Inr s
      | _ \<Rightarrow> Inl (SimulateError ''manifest field must be a non-empty string''))"

definition resolve_manifest_checkpoint_backend :: "pyval \<Rightarrow> string res" where
  "resolve_manifest_checkpoint_backend v =
     (case v of
        PNone \<Rightarrow> Inr ''walk''
      | PStr s \<Rightarrow>
          if s = [] then Inl (SimulateError ''manifest field must be a non-empty string'')
          else if s \<notin> set checkpoint_backends then Inl (SimulateError ''manifest field is invalid'')
          else Inr s
      | _ \<Rightarrow> Inl (SimulateError ''manifest field must be a non-empty string''))"

definition known_keys :: "string list \<Rightarrow> pydict \<Rightarrow> bool" where
  "known_keys allowed d = list_all (\<lambda>k. k \<in> set allowed) (dkeys d)"

definition apply_defaults :: "manifest_host \<Rightarrow> string \<Rightarrow> pydict \<Rightarrow> manifest_defaults \<Rightarrow> manifest_defaults res" where
  "apply_defaults h base_dir defaults md =
     rbind (case dget defaults ''task_source'' of
              None \<Rightarrow> Inr md
            | Some v \<Rightarrow> rbind (resolve_manifest_path h base_dir False v) (\<lambda>p. Inr (md\<lparr>md_task_source := Some p\<rparr>))) (\<lambda>md1.
     rbind (case dget defaults ''sandbox_backend'' of
              None \<Rightarrow> Inr md1
            | Some v \<Rightarrow> rbind (resolve_manifest_sandbox_backend v) (\<lambda>b. Inr (md1\<lparr>md_sandbox_backend := b\<rparr>))) (\<lambda>md2.
     (case dget defaults ''checkpoint_backend'' of
              None \<Rightarrow> Inr md2
            | Some v \<Rightarrow> rbind (resolve_manifest_checkpoint_backend v) (\<lambda>b. Inr (md2\<lparr>md_checkpoint_backend := b\<rparr>)))))"

definition optional_text :: "pyval \<Rightarrow> string option res" where
  "optional_text v =
     (case v of
        PNone \<Rightarrow> Inr None
      | PStr s \<Rightarrow> if s = [] then Inl (SimulateError ''must be a non-empty string'') else Inr (Some s)
      | _ \<Rightarrow> Inl (SimulateError ''must be a non-empty string''))"

text \<open>The fields of one trace entry, before its paths are resolved.\<close>

definition entry_fields ::
    "manifest_defaults \<Rightarrow> pyval \<Rightarrow> (pyval \<times> pyval \<times> string option \<times> string option \<times> string \<times> string) res" where
  "entry_fields md entry =
     (case entry of
        PStr s \<Rightarrow> Inr (PStr s, PNone, None, None, md_sandbox_backend md, md_checkpoint_backend md)
      | PDict e \<Rightarrow>
          if \<not> known_keys [''trace'', ''task_source'', ''docker_image'', ''label'', ''sandbox_backend'', ''checkpoint_backend''] e
          then Inl (SimulateError ''simulate manifest trace entry has unsupported keys'')
          else
            (case dget e ''trace'' of
               None \<Rightarrow> Inl (SimulateError ''simulate manifest trace entry is missing trace'')
             | Some trace_value \<Rightarrow>
                 rbind (optional_text (pget e ''docker_image'')) (\<lambda>docker_image.
                 rbind (optional_text (pget e ''label'')) (\<lambda>label.
                 rbind (if pget e ''sandbox_backend'' = PNone then Inr (md_sandbox_backend md)
                        else resolve_manifest_sandbox_backend (pget e ''sandbox_backend'')) (\<lambda>sandbox.
                 rbind (if pget e ''checkpoint_backend'' = PNone then Inr (md_checkpoint_backend md)
                        else resolve_manifest_checkpoint_backend (pget e ''checkpoint_backend'')) (\<lambda>checkpoint.
                   Inr (trace_value, pget e ''task_source'', docker_image, label, sandbox, checkpoint))))))
      | _ \<Rightarrow> Inl (SimulateError ''simulate manifest trace entry must be a string or object''))"

definition manifest_trace_entry ::
    "manifest_host \<Rightarrow> string \<Rightarrow> string \<Rightarrow> manifest_defaults \<Rightarrow> nat \<times> pyval \<Rightarrow> manifest_entry res" where
  "manifest_trace_entry h base_dir default_task_source md p =
     rbind (entry_fields md (snd p)) (\<lambda>(trace_value, task_value, docker_image, label, sandbox, checkpoint).
     rbind (resolve_manifest_path h base_dir True trace_value) (\<lambda>trace_path.
     rbind (if task_value = PNone
            then Inr (case md_task_source md of Some t \<Rightarrow> t | None \<Rightarrow> default_task_source)
            else resolve_manifest_path h base_dir False task_value) (\<lambda>task_path.
       if \<not> mh_exists h trace_path then Inl (SimulateError ''simulate manifest trace entry does not exist'')
       else if \<not> mh_exists h task_path then Inl (SimulateError ''simulate manifest trace entry task_source does not exist'')
       else Inr \<lparr>me_index = fst p, me_trace = trace_path, me_task_source = task_path,
                 me_docker_image = docker_image, me_label = label,
                 me_sandbox_backend = sandbox, me_checkpoint_backend = checkpoint\<rparr>)))"

text \<open>The list of traces of a document and the defaults it sets.\<close>

definition manifest_traces ::
    "manifest_host \<Rightarrow> string \<Rightarrow> manifest_defaults \<Rightarrow> pyval \<Rightarrow> (pyval \<times> manifest_defaults) res" where
  "manifest_traces h base_dir md doc =
     (case doc of
        PList xs \<Rightarrow> Inr (PList xs, md)
      | PDict d \<Rightarrow>
          if \<not> known_keys [''version'', ''defaults'', ''traces''] d
          then Inl (SimulateError ''simulate manifest has unsupported top-level keys'')
          else if pget_or d ''version'' (PInt 1) \<notin> {PInt 1, PBool True, PFloat 1}
          then Inl (SimulateError ''simulate manifest version must be 1'')
          else
            (case por (pget d ''defaults'') (PDict []) of
               PDict defaults \<Rightarrow>
                 if \<not> known_keys [''task_source'', ''sandbox_backend'', ''checkpoint_backend''] defaults
                 then Inl (SimulateError ''simulate manifest defaults has unsupported keys'')
                 else rbind (apply_defaults h base_dir defaults md) (\<lambda>md'. Inr (pget d ''traces'', md'))
             | _ \<Rightarrow> Inl (SimulateError ''simulate manifest defaults must be an object''))
      | _ \<Rightarrow> Inl (SimulateError ''simulate manifest must be a YAML list or object with traces''))"

text \<open>\<open>raw\<close> is the parsed YAML document, or \<open>None\<close> for invalid YAML.\<close>

definition load_simulate_manifest ::
    "manifest_host \<Rightarrow> string \<Rightarrow> pyval option \<Rightarrow> string \<Rightarrow> string \<Rightarrow> string option \<Rightarrow> manifest_entry list res" where
  "load_simulate_manifest h base_dir raw default_task_source default_sandbox default_checkpoint =
     (case raw of
        None \<Rightarrow> Inl (SimulateError ''Invalid simulate manifest YAML'')
      | Some doc \<Rightarrow>
     rbind (resolve_manifest_sandbox_backend (PStr default_sandbox)) (\<lambda>sandbox.
     rbind (resolve_manifest_checkpoint_backend (case default_checkpoint of None \<Rightarrow> PNone | Some c \<Rightarrow> PStr c)) (\<lambda>checkpoint.
     rbind (manifest_traces h base_dir
              \<lparr>md_task_source = None, md_sandbox_backend = sandbox, md_checkpoint_backend = checkpoint\<rparr> doc) (\<lambda>(raw_traces, md).
       case raw_traces of
         PList xs \<Rightarrow>
           if xs = [] then Inl (SimulateError ''simulate manifest traces must be a non-empty list'')
           else rmap (manifest_trace_entry h base_dir default_task_source md) (zip [0..<length xs] xs)
       | _ \<Rightarrow> Inl (SimulateError ''simulate manifest traces must be a non-empty list'')))))"

subsection \<open>Records and statistics of a replay\<close>

record trace_action =
  ta_action_type :: string
  ta_action_id :: string
  ta_agent_id :: string
  ta_program_id :: string
  ta_instance_id :: string
  ta_iteration :: int
  ta_ts_start :: rat
  ta_ts_end :: rat
  ta_data :: pydict

definition make_trace_action ::
    "loaded_session \<Rightarrow> string \<Rightarrow> string \<Rightarrow> int \<Rightarrow> rat \<Rightarrow> rat \<Rightarrow> pydict \<Rightarrow> trace_action" where
  "make_trace_action s action_type action_id it ts_start ts_end data =
     (let d = dupdate data [(''run_instance_id'', PStr (ls_run_instance_id s)),
            (''source_agent_id'', PStr (ls_source_agent_id s)), (''manifest_index'', PInt (int (ls_manifest_index s)))];
          d' = (case ls_label s of None \<Rightarrow> d | Some l \<Rightarrow> dput ''label'' (PStr l) d)
      in \<lparr>ta_action_type = action_type, ta_action_id = action_id, ta_agent_id = ls_run_instance_id s,
          ta_program_id = ls_run_instance_id s, ta_instance_id = ls_run_instance_id s, ta_iteration = it,
          ta_ts_start = ts_start, ta_ts_end = ts_end, ta_data = d'\<rparr>)"

definition opt_val :: "string option \<Rightarrow> pyval" where
  "opt_val v = (case v of None \<Rightarrow> PNone | Some s \<Rightarrow> PStr s)"

definition make_trace_summary :: "loaded_session \<Rightarrow> bool \<Rightarrow> rat \<Rightarrow> pyval \<Rightarrow> pydict \<Rightarrow> pydict res" where
  "make_trace_summary s success elapsed_s source_model extra =
     rbind (iteration_count (ls_actions s)) (\<lambda>n.
       Inr (dupdate
         [(''agent_id'', PStr (ls_run_instance_id s)), (''run_instance_id'', PStr (ls_run_instance_id s)),
          (''source_agent_id'', PStr (ls_source_agent_id s)), (''task_id'', PStr (ls_source_agent_id s)),
          (''manifest_index'', PInt (int (ls_manifest_index s))), (''label'', opt_val (ls_label s)),
          (''success'', PBool success),
          (''source_success'', (case ls_summary s of Some m \<Rightarrow> pget m ''success'' | None \<Rightarrow> PNone)),
          (''n_iterations'', PInt (int n)), (''elapsed_s'', PFloat elapsed_s),
          (''source_trace'', PStr (ls_source_trace s)), (''source_model'', source_model)] extra))"

record replay_task_stats =
  rs_agent_id :: string
  rs_run_instance_id :: string
  rs_source_agent_id :: string
  rs_manifest_index :: nat
  rs_label :: "string option"
  rs_source_trace :: string
  rs_success :: bool
  rs_elapsed_s :: rat
  rs_action_count :: nat
  rs_llm_call_count :: nat
  rs_tool_exec_count :: nat
  rs_failed_action_count :: nat
  rs_replay_env_parity :: string
  rs_prep_error :: "string option"

definition count_type :: "string \<Rightarrow> pydict list \<Rightarrow> nat" where
  "count_type t actions = length (filter (\<lambda>a. pget a ''action_type'' = PStr t) actions)"

definition make_task_stats ::
    "loaded_session \<Rightarrow> bool \<Rightarrow> rat \<Rightarrow> nat \<Rightarrow> string \<Rightarrow> string option \<Rightarrow> replay_task_stats" where
  "make_task_stats s success elapsed_s failed parity prep_error =
     \<lparr>rs_agent_id = ls_run_instance_id s, rs_run_instance_id = ls_run_instance_id s,
      rs_source_agent_id = ls_source_agent_id s, rs_manifest_index = ls_manifest_index s,
      rs_label = ls_label s, rs_source_trace = ls_source_trace s, rs_success = success,
      rs_elapsed_s = elapsed_s, rs_action_count = length (ls_actions s),
      rs_llm_call_count = count_type ''llm_call'' (ls_actions s),
      rs_tool_exec_count = count_type ''tool_exec'' (ls_actions s),
      rs_failed_action_count = failed, rs_replay_env_parity = parity, rs_prep_error = prep_error\<rparr>"

definition prep_error_text :: "err \<Rightarrow> string" where
  "prep_error_text e = take 500 (err_text e)"

record throughput =
  tr_effective_concurrency :: nat
  tr_effective_workers :: nat
  tr_effective_prep :: "int option"
  tr_attempted :: nat
  tr_completed :: nat
  tr_failed :: int
  tr_traces_per_s :: rat
  tr_successful_per_s :: rat
  tr_action_count :: nat
  tr_llm_call_count :: nat
  tr_tool_exec_count :: nat

definition throughput_summary :: "nat \<Rightarrow> nat \<Rightarrow> int \<Rightarrow> rat \<Rightarrow> replay_task_stats list \<Rightarrow> throughput res" where
  "throughput_summary concurrency workers prep_concurrency wall_time_s task_stats =
     (let attempted = length task_stats;
          completed = length (filter rs_success task_stats);
          safe_wall_time_s = max wall_time_s (1 / 10 ^ 9) in
      rbind (if workers > 1 \<and> attempted > 0
             then rbind (resolve_prep_concurrency prep_concurrency (int attempted)) (\<lambda>n. Inr (Some n))
             else Inr None) (\<lambda>prep.
        Inr \<lparr>tr_effective_concurrency = min concurrency attempted,
             tr_effective_workers = (if attempted > 0 then min workers attempted else 0),
             tr_effective_prep = prep, tr_attempted = attempted, tr_completed = completed,
             tr_failed = int attempted - int completed,
             tr_traces_per_s = of_nat attempted / safe_wall_time_s,
             tr_successful_per_s = of_nat completed / safe_wall_time_s,
             tr_action_count = sum_list (map rs_action_count task_stats),
             tr_llm_call_count = sum_list (map rs_llm_call_count task_stats),
             tr_tool_exec_count = sum_list (map rs_tool_exec_count task_stats)\<rparr>))"

subsection \<open>Combining worker traces\<close>

text \<open>A time stamp for sorting; \<open>Infinite\<close> is \<open>float("inf")\<close>.\<close>

datatype stamp = Finite rat | Infinite

instantiation stamp :: linorder
begin

definition less_eq_stamp :: "stamp \<Rightarrow> stamp \<Rightarrow> bool" where
  "less_eq_stamp a b = (case (a, b) of (Finite x, Finite y) \<Rightarrow> x \<le> y | (_, Infinite) \<Rightarrow> True | (Infinite, Finite _) \<Rightarrow> False)"

definition less_stamp :: "stamp \<Rightarrow> stamp \<Rightarrow> bool" where
  "less_stamp a b = (case (a, b) of (Finite x, Finite y) \<Rightarrow> x < y | (Infinite, _) \<Rightarrow> False | (Finite _, Infinite) \<Rightarrow> True)"

instance
  by standard (auto simp: less_eq_stamp_def less_stamp_def split: stamp.splits)

end

definition float_sort_value :: "pyval \<Rightarrow> stamp \<Rightarrow> stamp" where
  "float_sort_value v dflt = (case py_float v of Inr q \<Rightarrow> Finite q | Inl _ \<Rightarrow> dflt)"

definition combined_trace_sort_key :: "pydict \<Rightarrow> nat \<Rightarrow> stamp \<times> nat \<times> nat" where
  "combined_trace_sort_key record sequence =
     (let t = pget record ''type'' in
      if t = PStr ''action'' then (float_sort_value (pget record ''ts_start'') Infinite, 0, sequence)
      else if t = PStr ''event'' then (float_sort_value (pget record ''ts'') (Finite 0), 1, sequence)
      else if t = PStr ''summary'' then (float_sort_value (pget record ''ts'') Infinite, 2, sequence)
      else (float_sort_value (pget record ''ts'') Infinite, 3, sequence))"

text \<open>The records of the worker files, in file order, without their metadata headers.\<close>

definition worker_records :: "string list \<Rightarrow> pydict list res" where
  "worker_records ls =
     rbind (rmap (\<lambda>l. case json_loads l of
               None \<Rightarrow> Inl (SimulateError ''invalid worker trace JSONL'')
             | Some (PDict r) \<Rightarrow> Inr r
             | Some _ \<Rightarrow> Inl (AttributeError ''get'')) (filter (\<lambda>l. strip l \<noteq> []) ls)) (\<lambda>rs.
       Inr (filter (\<lambda>r. pget r ''type'' \<noteq> PStr ''trace_metadata'') rs))"

definition write_combined_worker_trace :: "string list option list \<Rightarrow> pydict list res" where
  "write_combined_worker_trace files =
     rbind (rmap (\<lambda>f. case f of
               None \<Rightarrow> Inl (SimulateError ''worker trace does not exist'')
             | Some ls \<Rightarrow> worker_records ls) files) (\<lambda>rss.
       let rs = concat rss in
       Inr (map snd (sort_key fst (map2 (\<lambda>i r. (combined_trace_sort_key r i, r)) [0..<length rs] rs))))"

text \<open>The per-task traces: the lines of each agent in the order of the combined trace.\<close>

definition split_line ::
    "string \<Rightarrow> (string \<times> string list) list \<times> pydict option \<Rightarrow> ((string \<times> string list) list \<times> pydict option) res" where
  "split_line line st =
     (let (per_agent, metadata) = st; stripped = strip line in
      if stripped = [] then Inr st
      else
        (case json_loads stripped of
           None \<Rightarrow> Inl (ValueError ''JSONDecodeError'')
         | Some (PDict r) \<Rightarrow>
             if pget r ''type'' = PStr ''trace_metadata'' then Inr (per_agent, Some r)
             else
               (case pget r ''agent_id'' of
                  PStr a \<Rightarrow> (case dget per_agent a of
                      Some ls \<Rightarrow> Inr (dput a (ls @ [stripped]) per_agent, metadata)
                    | None \<Rightarrow> Inr st)
                | _ \<Rightarrow> Inr st)
         | Some _ \<Rightarrow> Inl (AttributeError ''get'')))"

text \<open>The metadata header of a per-task trace.\<close>

definition split_metadata :: "loaded_session \<Rightarrow> pydict \<Rightarrow> pydict" where
  "split_metadata s metadata =
     (let source_model = (case ls_summary s of Some m \<Rightarrow> pget_or m ''model'' (PStr ''unknown'')
                          | None \<Rightarrow> PStr ''unknown'') in
      dupdate metadata
        [(''scaffold'', ls_scaffold s), (''execution_environment'', PStr (execution_environment s)),
         (''instance_id'', PStr (ls_run_instance_id s)), (''run_instance_id'', PStr (ls_run_instance_id s)),
         (''source_agent_id'', PStr (ls_source_agent_id s)), (''task_id'', PStr (ls_source_agent_id s)),
         (''manifest_index'', PInt (int (ls_manifest_index s))), (''label'', opt_val (ls_label s)),
         (''source_trace'', PStr (ls_source_trace s)), (''source_trace_count'', PInt 1),
         (''source_traces'', PList [PStr (ls_source_trace s)]),
         (''source_trace_entries'', PList [PDict
           [(''manifest_index'', PInt (int (ls_manifest_index s))), (''source_trace'', PStr (ls_source_trace s)),
            (''source_agent_id'', PStr (ls_source_agent_id s)), (''run_instance_id'', PStr (ls_run_instance_id s)),
            (''label'', opt_val (ls_label s))]]),
         (''source_agent_ids'', PList [PStr (ls_source_agent_id s)]),
         (''run_instance_ids'', PList [PStr (ls_run_instance_id s)]),
         (''source_models'', PList [source_model]), (''source_model'', source_model)])"

definition split_trace_by_agent ::
    "string list \<Rightarrow> string list \<Rightarrow> ((string \<times> string list) list \<times> pydict option) res" where
  "split_trace_by_agent agents ls = rfold split_line ls (map (\<lambda>a. (a, [])) agents, None)"

subsection \<open>Lemmas: identities\<close>

lemma free_name_fresh: "free_name taken base i candidate n \<notin> set taken"
proof (induction taken base i candidate n rule: free_name.induct)
  case (1 taken base i candidate n)
  then show ?case by (subst free_name.simps) auto
qed

lemma replica_candidate_fresh: "replica_candidate taken base i \<notin> set taken"
  by (simp add: replica_candidate_def free_name_fresh)

lemma count_one_split:
  "count_list (xs @ x # ys) x = 1 \<Longrightarrow> x \<notin> set xs \<and> x \<notin> set ys"
  by (auto simp: count_list_0_iff)

lemma assign_ids_distinct:
  assumes "srcs = map ls_source_agent_id (pre @ rest)"
    and "\<forall>u \<in> set used. u \<notin> set srcs \<or> (count_list srcs u = 1 \<and> u \<in> ls_source_agent_id ` set pre)"
  shows "distinct (map ls_run_instance_id (assign_ids srcs srcs used occ rest))
     \<and> set (map ls_run_instance_id (assign_ids srcs srcs used occ rest)) \<inter> set used = {}"
  using assms
proof (induction rest arbitrary: pre used occ)
  case (Cons s rest)
  let ?src = "ls_source_agent_id s"
  define o' where "o' = (case dget occ ?src of Some n \<Rightarrow> n | None \<Rightarrow> 0) + 1"
  define cand where "cand = (if count_list srcs ?src = 1 then ?src
      else replica_candidate (srcs @ used) (replica_base ?src o') (ls_manifest_index s))"
  define occ' where "occ' = (if count_list srcs ?src = 1 then occ else dput ?src o' occ)"
  have step: "assign_ids srcs srcs used occ (s # rest) =
      s\<lparr>ls_run_instance_id := cand\<rparr> # assign_ids srcs srcs (cand # used) occ' rest"
    by (simp add: cand_def occ'_def o'_def Let_def)
  have srcs: "srcs = map ls_source_agent_id ((pre @ [s]) @ rest)" using Cons.prems(1) by simp
  have fresh: "cand \<notin> set used"
  proof (cases "count_list srcs ?src = 1")
    case True
    then have "count_list (map ls_source_agent_id pre @ ?src # map ls_source_agent_id rest) ?src = 1"
      using Cons.prems(1) by simp
    from count_one_split [OF this] have "?src \<notin> ls_source_agent_id ` set pre" by simp
    then show ?thesis using True Cons.prems by (auto simp: cand_def)
  next
    case False
    then show ?thesis using replica_candidate_fresh [of "srcs @ used"] by (simp add: cand_def)
  qed
  have new: "cand \<notin> set srcs \<or> (count_list srcs cand = 1 \<and> cand \<in> ls_source_agent_id ` set (pre @ [s]))"
    using replica_candidate_fresh [of "srcs @ used"] by (auto simp: cand_def)
  have "\<forall>u \<in> set (cand # used). u \<notin> set srcs
      \<or> (count_list srcs u = 1 \<and> u \<in> ls_source_agent_id ` set (pre @ [s]))"
    using new Cons.prems(2) by auto
  from Cons.IH [OF srcs this, of occ'] show ?case
    unfolding step using fresh by auto
qed simp

lemma assign_ids_rest:
  "map (\<lambda>s. s\<lparr>ls_run_instance_id := x\<rparr>) (assign_ids srcs reserved used occ rest) =
   map (\<lambda>s. s\<lparr>ls_run_instance_id := x\<rparr>) rest"
  by (induction rest arbitrary: used occ) (auto simp: Let_def)

lemma assign_ids_unique:
  "list_all2 (\<lambda>s s'. count_list srcs (ls_source_agent_id s) \<noteq> 1 \<or>
     ls_run_instance_id s' = ls_source_agent_id s) rest (assign_ids srcs reserved used occ rest)"
  by (induction rest arbitrary: used occ) (auto simp: Let_def)

subsection \<open>Lemmas: partitions\<close>

lemma partition_loop_ok:
  assumes "length rest = n * q + (r - i)" "r - i \<le> n"
  shows "concat (partition_loop n i q r rest) = rest \<and> length (partition_loop n i q r rest) = n
     \<and> (\<forall>c \<in> set (partition_loop n i q r rest). length c = q \<or> (r > 0 \<and> length c = q + 1))"
  using assms
proof (induction n arbitrary: i rest)
  case (Suc n)
  let ?sz = "q + (if i < r then 1 else 0)"
  have len: "?sz \<le> length rest" using Suc.prems(1) by auto
  have rest: "length (drop ?sz rest) = n * q + (r - (i + 1))" using Suc.prems(1) by auto
  have bound: "r - (i + 1) \<le> n" using Suc.prems(2) by auto
  have ih: "concat (partition_loop n (i + 1) q r (drop ?sz rest)) = drop ?sz rest
      \<and> length (partition_loop n (i + 1) q r (drop ?sz rest)) = n
      \<and> (\<forall>c \<in> set (partition_loop n (i + 1) q r (drop ?sz rest)). length c = q \<or> (r > 0 \<and> length c = q + 1))"
    by (rule Suc.IH [OF rest]) (use bound in auto)
  have "length (take ?sz rest) = ?sz" using len by simp
  then show ?case using ih by (auto simp: Let_def simp del: take_append)
qed simp

lemma partition_ok:
  assumes "partition_worker_inputs inputs workers = Inr chunks"
  shows "concat chunks = inputs \<and> length chunks = min (nat workers) (length inputs)
     \<and> (\<forall>c \<in> set chunks. c \<noteq> [] \<and> length c \<in> {length inputs div length chunks, length inputs div length chunks + 1})"
proof -
  let ?k = "min (nat workers) (length inputs)"
  have k: "0 < ?k" "?k \<le> length inputs" and chunks: "chunks = partition_loop ?k 0 (length inputs div ?k) (length inputs mod ?k) inputs"
    using assms by (auto simp: partition_worker_inputs_def Let_def split: if_splits)
  define q where "q = length inputs div ?k"
  define r where "r = length inputs mod ?k"
  have "0 < q" using k by (simp add: q_def div_greater_zero_iff)
  moreover have "length inputs = ?k * q + (r - 0)" by (simp only: q_def r_def mult_div_mod_eq diff_zero)
  moreover have "r - 0 \<le> ?k" using mod_less_divisor [OF k(1), of "length inputs"] by (simp only: r_def diff_zero less_imp_le)
  moreover have "chunks = partition_loop ?k 0 q r inputs" by (simp only: chunks q_def r_def)
  ultimately have "concat chunks = inputs" "length chunks = ?k"
    "\<forall>c \<in> set chunks. length c = q \<or> (r > 0 \<and> length c = q + 1)"
    using partition_loop_ok [of inputs ?k q r 0] by simp_all
  with \<open>0 < q\<close> show ?thesis by (auto simp: q_def)
qed

lemma chunks_concat:
  "0 < c \<Longrightarrow> concat (map (\<lambda>i. take c (drop (i * c) xs)) [0..<m]) = take (m * c) xs"
proof (induction m)
  case (Suc m)
  have "take (m * c) xs @ take c (drop (m * c) xs) = take (m * c + c) xs"
    by (simp add: take_add)
  then show ?case using Suc by (simp add: add.commute)
qed simp

lemma chunks_ok:
  assumes "chunk_worker_inputs_by_concurrency inputs concurrency = Inr waves"
  shows "concat waves = inputs \<and> (\<forall>w \<in> set waves. w \<noteq> [] \<and> length w \<le> nat concurrency)"
proof -
  let ?c = "nat concurrency" and ?n = "length inputs"
  have c: "0 < ?c" and w: "waves = map (\<lambda>i. take ?c (drop (i * ?c) inputs)) [0..<(?n + ?c - 1) div ?c]"
    using assms by (auto simp: chunk_worker_inputs_by_concurrency_def Let_def split: if_splits)
  have "?n \<le> (?n + ?c - 1) div ?c * ?c"
    using div_mult_mod_eq [of "?n + ?c - 1" ?c] mod_less_divisor [OF c, of "?n + ?c - 1"] by linarith
  then have "concat waves = inputs" using chunks_concat [OF c, of inputs] by (simp only: w take_all)
  moreover have "take ?c (drop (i * ?c) inputs) \<noteq> []" if "i < (?n + ?c - 1) div ?c" for i
  proof -
    have "Suc i \<le> (?n + ?c - 1) div ?c" using that by simp
    then have "Suc i * ?c \<le> ?n + ?c - 1" by (simp only: less_eq_div_iff_mult_less_eq [OF c])
    then have "i * ?c < ?n" using c by (simp only: mult_Suc)
    then show ?thesis using c by simp
  qed
  ultimately show ?thesis by (auto simp only: w set_map set_upt length_take min.cobounded2 image_iff atLeastLessThan_iff)
qed

subsection \<open>Lemmas: ranks\<close>

lemma sorted_rank:
  assumes "sorted xs" "i < length xs"
  shows "i + 1 \<le> length (filter (\<lambda>x. x \<le> xs ! i) xs)" and "length (filter (\<lambda>x. x < xs ! i) xs) \<le> i"
proof -
  have "{..i} \<subseteq> {j. j < length xs \<and> xs ! j \<le> xs ! i}"
    using assms by (auto simp: sorted_nth_mono)
  then have "card {..i} \<le> card {j. j < length xs \<and> xs ! j \<le> xs ! i}"
    by (rule card_mono [rotated]) simp
  then show "i + 1 \<le> length (filter (\<lambda>x. x \<le> xs ! i) xs)" by (simp add: length_filter_conv_card)
  have "{j. j < length xs \<and> xs ! j < xs ! i} \<subseteq> {..<i}"
    using assms sorted_nth_mono [of xs i] by (force simp: not_less [symmetric])
  then have "card {j. j < length xs \<and> xs ! j < xs ! i} \<le> card {..<i}"
    by (rule card_mono [rotated]) simp
  then show "length (filter (\<lambda>x. x < xs ! i) xs) \<le> i" by (simp add: length_filter_conv_card)
qed

subsection \<open>Lemmas: sorting records\<close>

lemma rmap_decorate:
  "rmap (\<lambda>a. rbind (k a) (\<lambda>y. Inr (y, a))) xs = Inr ys \<Longrightarrow>
     map snd ys = xs \<and> map k xs = map (\<lambda>p. Inr (fst p)) ys"
  by (induction xs arbitrary: ys) (auto simp: res_simps)

lemma stable_sort_map:
  fixes key :: "'a \<Rightarrow> 'k::linorder res"
  assumes "map key xs = map (\<lambda>p. Inr (fst p)) ys" "map snd ys = xs"
  shows "(\<exists>ks. map key (map snd (sort_key fst ys)) = map Inr ks \<and> sorted ks)
     \<and> mset (map snd (sort_key fst ys)) = mset xs
     \<and> filter (\<lambda>a. key a = Inr v) (map snd (sort_key fst ys)) = filter (\<lambda>a. key a = Inr v) xs"
proof (intro conjI)
  have at: "key (snd p) = Inr (fst p)" if "p \<in> set ys" for p
    using assms(1) that unfolding assms(2) [symmetric] by simp
  have "map key (map snd (sort_key fst ys)) = map Inr (map fst (sort_key fst ys))" using at by simp
  then show "\<exists>ks. map key (map snd (sort_key fst ys)) = map Inr ks \<and> sorted ks"
    using sorted_sort_key by blast
  show "mset (map snd (sort_key fst ys)) = mset xs" by (simp add: assms(2) [symmetric])
  have "filter (\<lambda>p. key (snd p) = Inr v) (sort_key fst ys) = filter (\<lambda>p. fst p = v) (sort_key fst ys)"
    by (rule filter_cong) (auto simp: at)
  also have "\<dots> = filter (\<lambda>p. fst p = v) ys" by (rule sort_key_stable)
  also have "\<dots> = filter (\<lambda>p. key (snd p) = Inr v) ys" by (rule filter_cong) (auto simp: at)
  finally show "filter (\<lambda>a. key a = Inr v) (map snd (sort_key fst ys)) = filter (\<lambda>a. key a = Inr v) xs"
    by (simp add: assms(2) [symmetric] filter_map comp_def)
qed

text \<open>What a trace file holds: its JSON records, and the actions of an agent.\<close>

definition line_record :: "string \<Rightarrow> pydict list" where
  "line_record line = (case json_loads (strip line) of Some (PDict r) \<Rightarrow> [r] | _ \<Rightarrow> [])"

definition trace_records :: "string list \<Rightarrow> pydict list" where
  "trace_records ls = concat (map line_record (filter (\<lambda>l. strip l \<noteq> []) ls))"

definition is_agent_action :: "pydict \<Rightarrow> bool" where
  "is_agent_action r \<longleftrightarrow> pget r ''type'' = PStr ''action'' \<and> truthy (pget r ''agent_id'')"

definition stripped_lines :: "string list \<Rightarrow> string list" where
  "stripped_lines ls = filter (\<lambda>l. l \<noteq> []) (map strip ls)"

definition is_record_of :: "string \<Rightarrow> string \<Rightarrow> bool" where
  "is_record_of a line \<longleftrightarrow> (case json_loads line of
     Some (PDict r) \<Rightarrow> pget r ''type'' \<noteq> PStr ''trace_metadata'' \<and> pget r ''agent_id'' = PStr a
   | _ \<Rightarrow> False)"

lemma scan_line_actions:
  assumes "scan_line line sc = Inr sc'"
  shows "ts_all_actions sc' = ts_all_actions sc @ filter is_agent_action (trace_records [line])"
  using assms
  by (auto simp: scan_line_def Let_def trace_records_def line_record_def is_agent_action_def
      split: if_splits option.splits pyval.splits)

lemma trace_records_Cons: "trace_records (l # ls) = trace_records [l] @ trace_records ls"
  by (simp add: trace_records_def)

lemma scan_actions:
  "rfold scan_line ls sc = Inr sc' \<Longrightarrow>
     ts_all_actions sc' = ts_all_actions sc @ filter is_agent_action (trace_records ls)"
proof (induction ls arbitrary: sc)
  case (Cons l ls)
  then obtain sc1 where "scan_line l sc = Inr sc1" "rfold scan_line ls sc1 = Inr sc'"
    by (auto simp: rbind_eq_Inr)
  then show ?case
    using Cons.IH scan_line_actions trace_records_Cons [of l ls] by simp
qed (simp add: trace_records_def)

subsection \<open>Properties of the plan\<close>

text \<open>The replay identities given to the sessions of a manifest are pairwise distinct, so
  no two sessions write the same output; a session whose source identity is unique keeps it, and
  nothing else of a session changes.\<close>
theorem replay_ids_distinct:
  "distinct (map ls_run_instance_id (assign_replay_instance_ids sessions)) \<and>
   map (\<lambda>s. s\<lparr>ls_run_instance_id := []\<rparr>) (assign_replay_instance_ids sessions) =
     map (\<lambda>s. s\<lparr>ls_run_instance_id := []\<rparr>) sessions \<and>
   list_all2 (\<lambda>s s'. count_list (map ls_source_agent_id sessions) (ls_source_agent_id s) \<noteq> 1 \<or>
       ls_run_instance_id s' = ls_source_agent_id s) sessions (assign_replay_instance_ids sessions)"
proof (intro conjI)
  let ?srcs = "map ls_source_agent_id sessions"
  show "distinct (map ls_run_instance_id (assign_replay_instance_ids sessions))"
    using assign_ids_distinct [of ?srcs "[]" sessions "[]" "[]"]
    by (simp add: assign_replay_instance_ids_def Let_def)
  show "map (\<lambda>s. s\<lparr>ls_run_instance_id := []\<rparr>) (assign_replay_instance_ids sessions) =
     map (\<lambda>s. s\<lparr>ls_run_instance_id := []\<rparr>) sessions"
    by (simp add: assign_replay_instance_ids_def Let_def assign_ids_rest)
  show "list_all2 (\<lambda>s s'. count_list ?srcs (ls_source_agent_id s) \<noteq> 1 \<or>
       ls_run_instance_id s' = ls_source_agent_id s) sessions (assign_replay_instance_ids sessions)"
    unfolding assign_replay_instance_ids_def Let_def by (rule assign_ids_unique)
qed

text \<open>The waves of a multi-process replay hold every session once and in order: no wave is
  larger than the concurrency, a wave is split over as many workers as it can fill, no worker gets
  nothing, and the workers of a wave differ by at most one session. The plan fails exactly on a
  worker count or a concurrency below one, a negative preparation limit, or no sessions.\<close>
theorem worker_waves_partition:
  "(case worker_waves inputs concurrency workers prep of
      Inl e \<Rightarrow> workers < 1 \<or> concurrency < 1 \<or> prep < 0 \<or> inputs = []
    | Inr (limit, waves) \<Rightarrow> \<not> (workers < 1 \<or> concurrency < 1 \<or> prep < 0 \<or> inputs = []) \<and>
        limit \<in> {1..int (length inputs)} \<and> concat (concat waves) = inputs \<and>
        list_all (\<lambda>wave. length (concat wave) \<le> nat concurrency \<and>
          length wave = min (nat workers) (length (concat wave)) \<and>
          list_all (\<lambda>c. c \<noteq> [] \<and> length c \<in> {length (concat wave) div length wave,
                                              length (concat wave) div length wave + 1}) wave) waves)"
proof (cases "workers < 1 \<or> concurrency < 1 \<or> prep < 0 \<or> inputs = []")
  case True
  then show ?thesis by (auto simp: worker_waves_def resolve_prep_concurrency_def)
next
  case False
  then obtain cs where cs: "chunk_worker_inputs_by_concurrency inputs concurrency = Inr cs"
    by (simp add: chunk_worker_inputs_by_concurrency_def Let_def)
  from False have "1 \<le> int (length inputs)" by (cases inputs) simp_all
  then obtain limit where limit: "resolve_prep_concurrency prep (int (length inputs)) = Inr limit"
      "limit \<in> {1..int (length inputs)}"
    using False that [of "min (if prep = 0 then default_prep_concurrency else prep) (int (length inputs))"]
    by (simp add: resolve_prep_concurrency_def default_prep_concurrency_def)
  have part: "\<exists>p. partition_worker_inputs c workers = Inr p" if "c \<in> set cs" for c
    using chunks_ok [OF cs] that False by (auto simp: partition_worker_inputs_def Let_def)
  define f where "f c = (SOME p. partition_worker_inputs c workers = Inr p)" for c :: "'a list"
  have f: "partition_worker_inputs c workers = Inr (f c)" if "c \<in> set cs" for c
    unfolding f_def by (rule someI_ex [OF part [OF that]])
  have w: "worker_waves inputs concurrency workers prep = Inr (limit, map f cs)"
    using False rmap_ok [of cs "\<lambda>wave. partition_worker_inputs wave workers" f] f
    by (simp add: worker_waves_def cs limit(1))
  have ok: "concat (f c) = c \<and> length (f c) = min (nat workers) (length c) \<and>
      (\<forall>d \<in> set (f c). d \<noteq> [] \<and> length d \<in> {length c div length (f c), length c div length (f c) + 1})"
    if "c \<in> set cs" for c by (rule partition_ok [OF f [OF that]])
  have sizes: "d \<noteq> [] \<and> length d \<in> {length c div min (nat workers) (length c), length c div min (nat workers) (length c) + 1}"
    if "c \<in> set cs" "d \<in> set (f c)" for c d
    using ok [OF that(1)] that(2) by metis
  have "concat (concat (map f cs)) = concat (map (\<lambda>c. concat (f c)) cs)" by (induction cs) auto
  also have "\<dots> = concat (map (\<lambda>c. c) cs)" by (rule arg_cong [where f = concat], rule map_cong) (use ok in auto)
  finally have "concat (concat (map f cs)) = inputs" using chunks_ok [OF cs] by simp
  then show ?thesis
    using False limit(2) ok sizes chunks_ok [OF cs] by (auto simp: w list_all_iff)
qed

lemma reload_one:
  assumes "load_trace_session read_lines read_tasks src tsk i di lb sb cb = Inr t"
  shows "load_worker_trace_inputs read_lines read_tasks [worker_input_of (t\<lparr>ls_run_instance_id := r\<rparr>)] =
     Inr [t\<lparr>ls_run_instance_id := r\<rparr>]"
proof -
  have "ls_source_trace t = src \<and> ls_task_source t = tsk \<and> ls_manifest_index t = i
      \<and> ls_docker_image_override t = di \<and> ls_label t = lb \<and> ls_sandbox_backend t = sb
      \<and> ls_checkpoint_backend t = cb"
    using assms by (auto simp: load_trace_session_def res_simps)
  then show ?thesis using assms by (simp add: load_worker_trace_inputs_def worker_input_of_def)
qed

lemma load_inputs_all:
  "(\<And>s. s \<in> set ss \<Longrightarrow> load_worker_trace_inputs rl rt [worker_input_of s] = Inr [s]) \<Longrightarrow>
     load_worker_trace_inputs rl rt (map worker_input_of ss) = Inr ss"
  by (induction ss) (auto simp: load_worker_trace_inputs_def res_simps)

text \<open>A worker process reads back the session the parent sent: the replay identities the
  parent assigned are kept, and everything else is what the parent loaded from the same files.\<close>
theorem worker_reloads_sessions:
  assumes "rmap (\<lambda>en. load_trace_session read_lines read_tasks (me_trace en) (me_task_source en) (me_index en)
      (me_docker_image en) (me_label en) (me_sandbox_backend en) (me_checkpoint_backend en)) entries = Inr sessions"
  shows "load_worker_trace_inputs read_lines read_tasks (map worker_input_of (assign_replay_instance_ids sessions)) =
     Inr (assign_replay_instance_ids sessions)"
proof -
  let ?as = "assign_replay_instance_ids sessions"
  let ?clear = "\<lambda>s. s\<lparr>ls_run_instance_id := []\<rparr>"
  have same: "map ?clear ?as = map ?clear sessions"
    by (simp add: assign_replay_instance_ids_def Let_def assign_ids_rest)
  have "load_worker_trace_inputs read_lines read_tasks [worker_input_of s] = Inr [s]" if "s \<in> set ?as" for s
  proof -
    have "?clear s \<in> set (map ?clear ?as)" using that by simp
    then obtain t where t: "t \<in> set sessions" "?clear s = ?clear t" by (auto simp: same)
    then obtain i where i: "i < length sessions" "t = sessions ! i" by (auto simp: in_set_conv_nth)
    have len: "length entries = length sessions" using rmap_length [OF assms] by simp
    have "s = t\<lparr>ls_run_instance_id := ls_run_instance_id s\<rparr>"
      using t(2) by (cases s; cases t) simp
    then show ?thesis
      using reload_one [OF rmap_nth [OF assms, of i]] i len by metis
  qed
  then show ?thesis by (rule load_inputs_all)
qed

text \<open>The actions a trace file yields are those of the primary agent and of its subagents,
  each once, sorted by start, end, iteration and identity, and actions with the same key stay in
  file order.\<close>
theorem parsed_actions_are_sorted_lane:
  assumes "parse_trace_session ls = Inr (primary, metadata, actions, summary)"
  shows "(\<exists>ks. map action_sort_key actions = map Inr ks \<and> sorted ks) \<and>
    mset actions = mset (filter (in_lane primary) (filter is_agent_action (trace_records ls))) \<and>
    (\<forall>k. filter (\<lambda>a. action_sort_key a = Inr k) actions =
         filter (\<lambda>a. action_sort_key a = Inr k)
           (filter (in_lane primary) (filter is_agent_action (trace_records ls)))) \<and>
    (\<exists>a \<in> set (trace_records ls). is_agent_action a \<and> py_str (pget a ''agent_id'') = primary)"
proof -
  obtain sc first keyed where sc: "rfold scan_line ls
       \<lparr>ts_metadata = None, ts_first_agent_id = None, ts_all_actions = [], ts_summaries = []\<rparr> = Inr sc"
    and ne: "actions_of_agent primary (ts_all_actions sc) \<noteq> []"
    and keyed: "rmap (\<lambda>a. rbind (action_sort_key a) (\<lambda>k. Inr (k, a)))
        (filter (in_lane primary) (ts_all_actions sc)) = Inr keyed"
    and actions: "actions = map snd (sort_key fst keyed)"
    using assms by (auto simp: parse_trace_session_def Let_def res_simps split: option.splits if_splits)
  have all: "ts_all_actions sc = filter is_agent_action (trace_records ls)"
    using scan_actions [OF sc] by simp
  note d = rmap_decorate [OF keyed]
  have "map action_sort_key (filter (in_lane primary) (ts_all_actions sc)) = map (\<lambda>p. Inr (fst p)) keyed"
    "map snd keyed = filter (in_lane primary) (ts_all_actions sc)" using d by simp_all
  note s = stable_sort_map [OF this]
  have "\<exists>a \<in> set (trace_records ls). is_agent_action a \<and> py_str (pget a ''agent_id'') = primary"
    using ne by (auto simp: actions_of_agent_def all filter_empty_conv)
  then show ?thesis using s unfolding actions all by blast
qed

lemma parsed_actions_are_sorted_lane_witness:
  "let ls = [''{\"type\": \"action\", \"agent_id\": \"a\", \"action_id\": \"x\", \"ts_start\": 5}'',
             ''{\"type\": \"action\", \"agent_id\": \"a\", \"action_id\": \"y\", \"ts_start\": 2}''];
       r = (case parse_trace_session ls of Inr (p, m, as, s) \<Rightarrow> as | Inl e \<Rightarrow> []) in
   mset r = mset (filter (in_lane ''a'') (filter is_agent_action (trace_records ls)))"
proof -
  let ?ls = "[''{\"type\": \"action\", \"agent_id\": \"a\", \"action_id\": \"x\", \"ts_start\": 5}'',
             ''{\"type\": \"action\", \"agent_id\": \"a\", \"action_id\": \"y\", \"ts_start\": 2}'']"
  have "parse_trace_session ?ls = Inr (''a'', None,
    [[(''type'', PStr ''action''), (''agent_id'', PStr ''a''), (''action_id'', PStr ''y''), (''ts_start'', PInt 2)],
     [(''type'', PStr ''action''), (''agent_id'', PStr ''a''), (''action_id'', PStr ''x''), (''ts_start'', PInt 5)]], None)"
    by code_simp
  from parsed_actions_are_sorted_lane [OF this] this show ?thesis by simp
qed

lemma nearest_rank_value:
  assumes "sorted xs" "xs \<noteq> []" "0 < p" "p \<le> 100"
  shows "\<exists>i < length xs. nearest_rank_percentile xs p = Inr (xs ! i) \<and>
     p * length xs \<le> 100 * (i + 1) \<and> 100 * i < p * length xs"
proof -
  let ?n = "length xs"
  define r where "r = (int p * int ?n + 99) div 100"
  have n: "0 < int ?n" using assms(2) by simp
  have pn: "0 < int p * int ?n" "int p * int ?n \<le> 100 * int ?n"
    using assms(3,4) n by (simp_all add: mult_right_mono)
  define x where "x = int p * int ?n"
  obtain m where m: "100 * r + m = x + 99" "0 \<le> m" "m < 100"
    by (rule that [of "(x + 99) mod 100"]) (simp_all add: r_def x_def)
  have "1 \<le> r \<and> r \<le> int ?n \<and> x \<le> 100 * r \<and> 100 * r < x + 100"
    using pn m unfolding x_def [symmetric] by linarith
  then have r: "1 \<le> r" "r \<le> int ?n" "int p * int ?n \<le> 100 * r" "100 * (r - 1) < int p * int ?n"
    by (auto simp: x_def algebra_simps)
  have idx: "max 0 (min (int ?n - 1) (r - 1)) = r - 1" using r by simp
  have i: "nat (r - 1) < ?n" "int (nat (r - 1)) = r - 1" using r by linarith+
  have "nearest_rank_percentile xs p = Inr (xs ! nat (r - 1))"
    using assms(2) idx by (simp add: nearest_rank_percentile_def Let_def r_def)
  moreover have "int (p * ?n) \<le> int (100 * (nat (r - 1) + 1))" "int (100 * nat (r - 1)) < int (p * ?n)"
    using r i by (simp_all del: of_nat_nat)
  then have "p * ?n \<le> 100 * (nat (r - 1) + 1)" "100 * nat (r - 1) < p * ?n"
    by (simp_all only: of_nat_le_iff of_nat_less_iff)
  ultimately show ?thesis using i(1) by blast
qed

text \<open>The nearest-rank percentile of a list of drifts is one of its values: at least
  \<open>p\<close> percent of the values are at most it, and fewer than \<open>p\<close> percent are below it.\<close>
theorem percentile_has_rank:
  assumes "xs \<noteq> []" "0 < p" "p \<le> 100"
  shows "\<exists>v \<in> set xs. nearest_rank_percentile (sort xs) p = Inr v \<and>
     p * length xs \<le> 100 * length (filter (\<lambda>x. x \<le> v) xs) \<and>
     100 * length (filter (\<lambda>x. x < v) xs) < p * length xs"
proof -
  have cnt: "length (filter P (sort xs)) = length (filter P xs)" for P
    by (metis mset_filter mset_sort size_mset)
  have "sort xs \<noteq> []" using assms(1) by (metis set_empty set_sort)
  then obtain i where i: "i < length xs" "nearest_rank_percentile (sort xs) p = Inr (sort xs ! i)"
      "p * length xs \<le> 100 * (i + 1)" "100 * i < p * length xs"
    using nearest_rank_value [of "sort xs" p] assms by auto
  have "sort xs ! i \<in> set xs" using i(1) by (metis length_sort nth_mem set_sort)
  moreover have "i + 1 \<le> length (filter (\<lambda>x. x \<le> sort xs ! i) xs)"
    "length (filter (\<lambda>x. x < sort xs ! i) xs) \<le> i"
    using sorted_rank [of "sort xs" i] i(1) by (simp_all add: cnt)
  then have "100 * (i + 1) \<le> 100 * length (filter (\<lambda>x. x \<le> sort xs ! i) xs)"
    "100 * length (filter (\<lambda>x. x < sort xs ! i) xs) \<le> 100 * i" by simp_all
  ultimately show ?thesis using i(2-) by (blast intro: order_trans order_le_less_trans)
qed

lemma percentile_has_rank_witness:
  "\<exists>v \<in> {3, 1, 2}. nearest_rank_percentile (sort [3, 1, 2]) 50 = Inr v"
  using percentile_has_rank [of "[3, 1, 2]" 50] by auto

lemma insort_sequence:
  "(\<forall>(y, s) \<in> set L. x \<le> y \<longleftrightarrow> k r \<le> k s) \<Longrightarrow>
     map snd (insort_key fst (x, r) L) = insort_key k r (map snd L)"
  by (induction L) auto

lemma sort_sequence:
  fixes K :: "'a \<Rightarrow> nat \<Rightarrow> 'k::linorder"
  assumes "\<And>i j r s. i < j \<Longrightarrow> K r i \<le> K s j \<longleftrightarrow> k r \<le> k s"
  shows "map snd (sort_key fst (map2 (\<lambda>i r. (K r i, r)) [n..<n + length rs] rs)) = sort_key k rs"
proof (induction rs arbitrary: n)
  case (Cons r rs)
  have up: "[n..<n + length (r # rs)] = n # [Suc n..<Suc n + length rs]"
    by (simp add: upt_conv_Cons del: upt_Suc)
  have later: "\<exists>j > n. y = K s j" if "(y, s) \<in> set (map2 (\<lambda>i r. (K r i, r)) [Suc n..<Suc n + length rs] rs)" for y s
    using that by (auto simp: set_zip simp del: upt_Suc) (metis less_add_Suc1)
  let ?L = "sort_key fst (map2 (\<lambda>i r. (K r i, r)) [Suc n..<Suc n + length rs] rs)"
  have "\<forall>(y, s) \<in> set ?L. K r n \<le> y \<longleftrightarrow> k r \<le> k s"
  proof clarify
    fix y s assume "(y, s) \<in> set ?L"
    then obtain j where "n < j" "y = K s j" using later by (auto simp only: set_sort)
    then show "K r n \<le> y \<longleftrightarrow> k r \<le> k s" by (simp add: assms)
  qed
  from insort_sequence [OF this] show ?case
    by (simp only: up zip_Cons_Cons list.map prod.case sort_key_simps Cons.IH)
qed simp

lemma combined_key_sequence:
  "i < j \<Longrightarrow> combined_trace_sort_key r i \<le> combined_trace_sort_key s j \<longleftrightarrow>
     combined_trace_sort_key r 0 \<le> combined_trace_sort_key s 0"
  by (auto simp: combined_trace_sort_key_def Let_def less_eq_prod_def)

lemma rmap_map: "rmap f (map g xs) = rmap (\<lambda>x. f (g x)) xs"
  by (induction xs) auto

text \<open>The combined trace of the workers holds every record of every worker trace but the
  metadata headers, once, sorted by time and then by kind (action, event, summary), and ties keep
  the order of the files.\<close>
theorem combined_trace_is_stable_merge:
  assumes "write_combined_worker_trace (map Some files) = Inr rs"
  shows "\<exists>rss. rmap worker_records files = Inr rss \<and> mset rs = mset (concat rss) \<and>
     sorted (map (\<lambda>r. combined_trace_sort_key r 0) rs) \<and>
     (\<forall>k. filter (\<lambda>r. combined_trace_sort_key r 0 = k) rs =
          filter (\<lambda>r. combined_trace_sort_key r 0 = k) (concat rss))"
proof -
  obtain rss where rss: "rmap worker_records files = Inr rss"
    and rs: "rs = map snd (sort_key fst (map2 (\<lambda>i r. (combined_trace_sort_key r i, r)) [0..<length (concat rss)] (concat rss)))"
    using assms by (auto simp: write_combined_worker_trace_def Let_def res_simps rmap_map)
  let ?k = "\<lambda>r. combined_trace_sort_key r 0"
  have "rs = sort_key ?k (concat rss)" 
    using sort_sequence [of combined_trace_sort_key ?k 0 "concat rss"] combined_key_sequence
    by (simp add: rs)
  then show ?thesis using rss by (auto simp: sort_key_stable)
qed

lemma combined_trace_is_stable_merge_witness:
  "let files = [[''{\"type\": \"event\", \"ts\": 4}''], [''{\"type\": \"action\", \"ts_start\": 3}'']] in
   \<exists>rs. write_combined_worker_trace (map Some files) = Inr rs \<and>
     sorted (map (\<lambda>r. combined_trace_sort_key r 0) rs)"
proof -
  let ?files = "[[''{\"type\": \"event\", \"ts\": 4}''], [''{\"type\": \"action\", \"ts_start\": 3}'']]"
  have "write_combined_worker_trace (map Some ?files) =
     Inr [[(''type'', PStr ''action''), (''ts_start'', PInt 3)], [(''type'', PStr ''event''), (''ts'', PInt 4)]]"
    by code_simp
  from combined_trace_is_stable_merge [OF this] this show ?thesis by auto
qed

lemma split_line_step:
  assumes "split_line line (pa, md) = Inr (pa', md')"
  shows "dget pa' a = map_option (\<lambda>ls. ls @ filter (is_record_of a) (stripped_lines [line])) (dget pa a)"
  using assms
  by (auto simp: split_line_def Let_def stripped_lines_def is_record_of_def dict.get_put option.map_ident
      split: if_splits option.splits pyval.splits)

lemma split_fold:
  "rfold split_line ls (pa, md) = Inr (pa', md') \<Longrightarrow>
     dget pa' a = map_option (\<lambda>xs. xs @ filter (is_record_of a) (stripped_lines ls)) (dget pa a)"
proof (induction ls arbitrary: pa md)
  case (Cons l ls)
  then obtain p where p: "split_line l (pa, md) = Inr p" "rfold split_line ls p = Inr (pa', md')"
    by (auto simp: rbind_eq_Inr)
  obtain pa1 md1 where [simp]: "p = (pa1, md1)" by force
  have "stripped_lines (l # ls) = stripped_lines [l] @ stripped_lines ls" by (simp add: stripped_lines_def)
  then show ?case
    using Cons.IH [of pa1 md1] split_line_step [of l pa md pa1 md1 a] p
    by (cases "dget pa a") auto
qed (simp add: stripped_lines_def option.map_ident)

text \<open>The per-task trace of an agent holds exactly the records of the combined trace that
  carry its identity, in order and without the metadata headers; no other task gets a file.\<close>
theorem split_trace_is_projection:
  assumes "split_trace_by_agent agents ls = Inr (per_agent, metadata)"
  shows "dget per_agent a =
     (if a \<in> set agents then Some (filter (is_record_of a) (stripped_lines ls)) else None)"
proof -
  have "dget (map (\<lambda>a. (a, [] :: string list)) agents) a = (if a \<in> set agents then Some [] else None)"
    by (induction agents) auto
  then show ?thesis
    using split_fold [OF assms [unfolded split_trace_by_agent_def], of a] by simp
qed

lemma split_trace_is_projection_witness:
  "let ls = [''{\"type\": \"trace_metadata\", \"agent_id\": \"a\"}'', ''{\"agent_id\": \"b\"}'', ''{\"agent_id\": \"a\"}'']
   in \<exists>pa md. split_trace_by_agent [''a''] ls = Inr (pa, md) \<and> dget pa ''a'' = Some [''{\"agent_id\": \"a\"}'']
        \<and> dget pa ''b'' = None"
proof -
  let ?ls = "[''{\"type\": \"trace_metadata\", \"agent_id\": \"a\"}'', ''{\"agent_id\": \"b\"}'', ''{\"agent_id\": \"a\"}'']"
  have run: "split_trace_by_agent [''a''] ?ls = Inr ([(''a'', [''{\"agent_id\": \"a\"}''])],
      Some [(''type'', PStr ''trace_metadata''), (''agent_id'', PStr ''a'')])" by code_simp
  have "filter (is_record_of ''a'') (stripped_lines ?ls) = [''{\"agent_id\": \"a\"}'']" by code_simp
  then show ?thesis
    using split_trace_is_projection [OF run, of "''a''"] split_trace_is_projection [OF run, of "''b''"] run by simp
qed

text \<open>Once the timing configuration is validated, the replay time of an LLM call never
  trips the assertion that the two latencies are set: it is non-negative and labelled with the
  mode, or its only error is an unreadable token count.\<close>
theorem validated_timing_is_total:
  assumes "validate_llm_timing_config timing = Inr ()" "0 \<le> source_duration_s" "0 < replay_speed"
  shows "case llm_replay_duration_s data source_duration_s replay_speed timing of
      Inr (d, m) \<Rightarrow> 0 \<le> d \<and> dget m ''llm_timing_mode'' = Some (PStr (lt_mode timing))
    | Inl e \<Rightarrow> lt_mode timing = ''ttft_tpot'' \<and>
        coerce_completion_tokens (pget_or data ''completion_tokens'' (PInt 0)) = Inl e"
  using assms
proof (cases "lt_mode timing = ''source_scaled''")
  case False
  then obtain a b where ab: "lt_ttft_ms timing = Some a" "lt_tpot_ms timing = Some b" "0 \<le> a" "0 \<le> b"
      "lt_mode timing = ''ttft_tpot''"
    using assms(1) by (auto simp: validate_llm_timing_config_def split: if_splits option.splits)
  have "0 \<le> (a + rat_of_int (max 0 (n - 1)) * b) / 1000" for n
    using ab by simp
  then show ?thesis using ab
    by (cases "coerce_completion_tokens (pget_or data ''completion_tokens'' (PInt 0))")
      (simp_all add: llm_replay_duration_s_def Let_def)
qed (use assms(2,3) in \<open>simp add: llm_replay_duration_s_def\<close>)

lemma validated_timing_is_total_witness:
  "let timing = \<lparr>lt_mode = ''ttft_tpot'', lt_ttft_ms = Some 200, lt_tpot_ms = Some 30\<rparr>;
       r = llm_replay_duration_s [(''completion_tokens'', PInt 11)] 4 2 timing in
   case r of Inr (d, m) \<Rightarrow> 0 \<le> d \<and> dget m ''llm_timing_mode'' = Some (PStr ''ttft_tpot'') | Inl e \<Rightarrow> False"
proof -
  let ?timing = "\<lparr>lt_mode = ''ttft_tpot'', lt_ttft_ms = Some 200, lt_tpot_ms = Some 30\<rparr>"
  have v: "validate_llm_timing_config ?timing = Inr ()" by code_simp
  have "coerce_completion_tokens (PInt 11) = Inr 11" by code_simp
  then show ?thesis
    using validated_timing_is_total [OF v, of 4 2 "[(''completion_tokens'', PInt 11)]"]
    by (auto simp: pget_or_def split: sum.splits)
qed

lemma path_str_abs: "is_absolute p \<Longrightarrow> is_absolute (path_str p)"
  by (auto simp: path_str_def Let_def is_absolute_def starts_with_iff)

lemma resolve_manifest_path_ok:
  assumes "resolve_manifest_path h base ra v = Inr p" "\<And>q. is_absolute (mh_resolve h q)"
  shows "is_absolute p"
  using assms by (auto simp: resolve_manifest_path_def path_str_abs split: pyval.splits if_splits)

lemma sandbox_backend_ok: "resolve_manifest_sandbox_backend v = Inr b \<Longrightarrow> b \<in> set sandbox_backends"
  by (auto simp: resolve_manifest_sandbox_backend_def split: pyval.splits if_splits)

lemma checkpoint_backend_ok: "resolve_manifest_checkpoint_backend v = Inr b \<Longrightarrow> b \<in> set checkpoint_backends"
  by (auto simp: resolve_manifest_checkpoint_backend_def checkpoint_backends_def split: pyval.splits if_splits)

definition defaults_ok :: "manifest_defaults \<Rightarrow> bool" where
  "defaults_ok md \<longleftrightarrow> md_sandbox_backend md \<in> set sandbox_backends \<and> md_checkpoint_backend md \<in> set checkpoint_backends"

lemma apply_defaults_ok:
  "apply_defaults h base d md = Inr md' \<Longrightarrow> defaults_ok md \<Longrightarrow> defaults_ok md'"
  by (auto simp: apply_defaults_def defaults_ok_def res_simps
      dest!: sandbox_backend_ok checkpoint_backend_ok split: option.splits)

lemma entry_fields_ok:
  "entry_fields md e = Inr (t, s, di, lb, sb, cb) \<Longrightarrow> defaults_ok md \<Longrightarrow>
     sb \<in> set sandbox_backends \<and> cb \<in> set checkpoint_backends"
  by (auto simp: entry_fields_def defaults_ok_def res_simps
      dest!: sandbox_backend_ok checkpoint_backend_ok split: pyval.splits option.splits if_splits)

lemma manifest_traces_ok:
  "manifest_traces h base md doc = Inr (ts, md') \<Longrightarrow> defaults_ok md \<Longrightarrow> defaults_ok md'"
  by (auto simp: manifest_traces_def rbind_eq_Inr dest: apply_defaults_ok split: pyval.splits if_splits)

lemma manifest_entry_ok:
  assumes "manifest_trace_entry h base dts md p = Inr en" "defaults_ok md" "\<And>q. is_absolute (mh_resolve h q)"
  shows "me_index en = fst p \<and> is_absolute (me_trace en) \<and> mh_exists h (me_trace en) \<and>
     mh_exists h (me_task_source en) \<and> me_sandbox_backend en \<in> set sandbox_backends \<and>
     me_checkpoint_backend en \<in> set checkpoint_backends"
proof -
  obtain t s di lb sb cb where "entry_fields md (snd p) = Inr (t, s, di, lb, sb, cb)"
    and en: "resolve_manifest_path h base True t = Inr (me_trace en)" "me_index en = fst p"
      "mh_exists h (me_trace en)" "mh_exists h (me_task_source en)"
      "me_sandbox_backend en = sb" "me_checkpoint_backend en = cb"
    using assms(1) by (auto simp: manifest_trace_entry_def res_simps split: if_splits)
  then show ?thesis
    using entry_fields_ok [OF _ assms(2)] resolve_manifest_path_ok [OF en(1) assms(3)] by blast
qed

text \<open>A manifest that loads has at least one entry; the entries are numbered in order,
  name an existing trace by an absolute path and an existing task source, and use known sandbox
  and checkpoint backends.\<close>
theorem loaded_manifest_is_valid:
  assumes "load_simulate_manifest h base_dir raw task_source sandbox checkpoint = Inr entries"
    and "\<And>q. is_absolute (mh_resolve h q)"
  shows "entries \<noteq> [] \<and> map me_index entries = [0..<length entries] \<and>
    (\<forall>en \<in> set entries. is_absolute (me_trace en) \<and> mh_exists h (me_trace en) \<and>
       mh_exists h (me_task_source en) \<and> me_sandbox_backend en \<in> set sandbox_backends \<and>
       me_checkpoint_backend en \<in> set checkpoint_backends)"
proof -
  obtain doc sb cb ts md where s: "resolve_manifest_sandbox_backend (PStr sandbox) = Inr sb"
    and c: "resolve_manifest_checkpoint_backend (case checkpoint of None \<Rightarrow> PNone | Some c \<Rightarrow> PStr c) = Inr cb"
    and doc: "manifest_traces h base_dir
        \<lparr>md_task_source = None, md_sandbox_backend = sb, md_checkpoint_backend = cb\<rparr> doc = Inr (ts, md)"
    and run: "(case ts of PList xs \<Rightarrow>
           if xs = [] then Inl (SimulateError ''simulate manifest traces must be a non-empty list'')
           else rmap (manifest_trace_entry h base_dir task_source md) (zip [0..<length xs] xs)
       | _ \<Rightarrow> Inl (SimulateError ''simulate manifest traces must be a non-empty list'')) = Inr entries"
    using assms(1) by (cases raw) (auto simp: load_simulate_manifest_def rbind_eq_Inr)
  have md: "defaults_ok md"
    by (rule manifest_traces_ok [OF doc]) (simp add: defaults_ok_def sandbox_backend_ok [OF s] checkpoint_backend_ok [OF c])
  obtain xs where xs: "xs \<noteq> []"
    and run: "rmap (manifest_trace_entry h base_dir task_source md) (zip [0..<length xs] xs) = Inr entries"
    using run by (auto split: pyval.splits if_splits)
  have len: "length entries = length xs" using rmap_length [OF run] by simp
  have at: "manifest_trace_entry h base_dir task_source md (i, xs ! i) = Inr (entries ! i)" if "i < length xs" for i
    using rmap_nth [OF run, of i] that by simp
  have "map me_index entries = [0..<length entries]"
    by (rule nth_equalityI) (use manifest_entry_ok [OF at md assms(2)] len in auto)
  moreover have "entries \<noteq> []" using xs len by auto
  ultimately show ?thesis
    using manifest_entry_ok [OF at md assms(2)] len by (auto simp: in_set_conv_nth)
qed

lemma loaded_manifest_is_valid_witness:
  "let h = \<lparr>mh_exists = (\<lambda>p. True), mh_resolve = (\<lambda>p. ''/'' @ p)\<rparr>;
       raw = PDict [(''version'', PInt 1), (''traces'', PList [PStr ''/t/a.jsonl'', PDict [(''trace'', PStr ''/t/b.jsonl''),
               (''task_source'', PStr ''tasks.json''), (''sandbox_backend'', PStr ''fake'')]])] in
   (case load_simulate_manifest h ''/m'' (Some raw) ''/tasks.json'' ''docker'' None of
      Inr es \<Rightarrow> map me_index es = [0, 1] \<and> list_all (\<lambda>en. is_absolute (me_trace en)) es
    | Inl e \<Rightarrow> False)"
proof -
  let ?h = "\<lparr>mh_exists = (\<lambda>p. True), mh_resolve = (\<lambda>p. ''/'' @ p)\<rparr>"
  let ?raw = "PDict [(''version'', PInt 1), (''traces'', PList [PStr ''/t/a.jsonl'', PDict [(''trace'', PStr ''/t/b.jsonl''),
               (''task_source'', PStr ''tasks.json''), (''sandbox_backend'', PStr ''fake'')]])]"
  have "case load_simulate_manifest ?h ''/m'' (Some ?raw) ''/tasks.json'' ''docker'' None of
      Inr es \<Rightarrow> length es = 2 | Inl e \<Rightarrow> False"
    by code_simp
  then obtain es where es: "load_simulate_manifest ?h ''/m'' (Some ?raw) ''/tasks.json'' ''docker'' None = Inr es"
      "length es = 2" by (auto split: sum.splits)
  have "is_absolute (mh_resolve ?h q)" for q by (simp add: is_absolute_def starts_with_iff)
  from loaded_manifest_is_valid [OF es(1) this] es show ?thesis by (simp add: list_all_iff upt_rec)
qed

lemma worker_reloads_sessions_witness:
  "let read_lines = (\<lambda>p. [''{\"type\": \"action\", \"agent_id\": \"a\", \"action_type\": \"llm_call\", \"iteration\": 0}'']);
       read_tasks = (\<lambda>p. [[(''instance_id'', PStr ''a'')]]);
       r = rmap (\<lambda>i. load_trace_session read_lines read_tasks ''t'' ''k'' i None None ''fake'' ''walk'') [0, 1] in
   (case r of Inr ss \<Rightarrow>
      map ls_run_instance_id (assign_replay_instance_ids ss) = [''a__replica-001'', ''a__replica-002''] \<and>
      load_worker_trace_inputs read_lines read_tasks (map worker_input_of (assign_replay_instance_ids ss)) =
        Inr (assign_replay_instance_ids ss)
    | Inl e \<Rightarrow> False)"
proof -
  let ?rl = "\<lambda>p :: string. [''{\"type\": \"action\", \"agent_id\": \"a\", \"action_type\": \"llm_call\", \"iteration\": 0}'']"
  let ?rt = "\<lambda>p :: string. [[(''instance_id'', PStr ''a'')]]"
  let ?en = "\<lambda>i. \<lparr>me_index = i, me_trace = ''t'', me_task_source = ''k'', me_docker_image = None,
      me_label = None, me_sandbox_backend = ''fake'', me_checkpoint_backend = ''walk''\<rparr>"
  let ?r = "rmap (\<lambda>i. load_trace_session ?rl ?rt ''t'' ''k'' i None None ''fake'' ''walk'') [0, 1]"
  have "case ?r of Inr ss \<Rightarrow>
      map ls_run_instance_id (assign_replay_instance_ids ss) = [''a__replica-001'', ''a__replica-002'']
    | Inl e \<Rightarrow> False" by code_simp
  then obtain ss where ss: "?r = Inr ss"
      "map ls_run_instance_id (assign_replay_instance_ids ss) = [''a__replica-001'', ''a__replica-002'']"
    by (auto split: sum.splits)
  have "rmap (\<lambda>en. load_trace_session ?rl ?rt (me_trace en) (me_task_source en) (me_index en)
      (me_docker_image en) (me_label en) (me_sandbox_backend en) (me_checkpoint_backend en)) (map ?en [0, 1]) = ?r"
    by (simp add: rmap_map)
  from worker_reloads_sessions [OF this [unfolded ss(1)]] ss show ?thesis by simp
qed

lemma replay_ids_distinct_witness:
  "let mk = (\<lambda>source. \<lparr>ls_source_trace = ''t'', ls_task_source = ''k'', ls_source_agent_id = source, ls_run_instance_id = [],
        ls_manifest_index = 0, ls_scaffold = PNone, ls_metadata = None, ls_summary = None, ls_task = [], ls_actions = [],
        ls_iterations = [], ls_docker_image_override = None, ls_label = None, ls_sandbox_backend = ''fake'',
        ls_checkpoint_backend = ''walk''\<rparr>);
       ids = map ls_run_instance_id (assign_replay_instance_ids [mk ''a'', mk ''b'', mk ''a''])
   in distinct ids \<and> ids = [''a__replica-001'', ''b'', ''a__replica-002'']"
  unfolding Let_def
  by (intro conjI replay_ids_distinct [THEN conjunct1]) code_simp

end
