(* ===== verification/TraceTools.thy ===== *)
theory TraceTools
  imports ReplayPlan
begin

text \<open>
  Tool calls of a trace in the replay container (\<open>src/trace_collect/openclaw_tools.py\<close>): the
  arguments of a call, the request they become, the handlers of the in-container agent script,
  its resource-integrated timeout, and the result the simulator reports. The processes and the
  files are answers the definitions are given. The lemmas show that an execution reports the
  exit code it returned, and what an edit changes.
\<close>

subsection \<open>Text\<close>

text \<open>\<open>s.find(p)\<close>, \<open>s.count(p)\<close>, \<open>s.replace(p, r)\<close> and \<open>s.replace(p, r, 1)\<close>.\<close>

fun find_sub :: "string \<Rightarrow> string \<Rightarrow> nat option" where
  "find_sub p [] = (if p = [] then Some 0 else None)"
| "find_sub p (c # s) = (if starts_with p (c # s) then Some 0 else map_option Suc (find_sub p s))"

fun count_from :: "nat \<Rightarrow> string \<Rightarrow> string \<Rightarrow> nat" where
  "count_from k p [] = 0"
| "count_from (Suc k) p (c # s) = count_from k p s"
| "count_from 0 p (c # s) =
     (if starts_with p (c # s) then 1 + count_from (length p - 1) p s else count_from 0 p s)"

definition count_sub :: "string \<Rightarrow> string \<Rightarrow> nat" where
  "count_sub p s = (if p = [] then length s + 1 else count_from 0 p s)"

fun replace_from :: "nat \<Rightarrow> string \<Rightarrow> string \<Rightarrow> string \<Rightarrow> string" where
  "replace_from k p r [] = []"
| "replace_from (Suc k) p r (c # s) = replace_from k p r s"
| "replace_from 0 p r (c # s) =
     (if starts_with p (c # s) then r @ replace_from (length p - 1) p r s else c # replace_from 0 p r s)"

definition replace_sub :: "string \<Rightarrow> string \<Rightarrow> string \<Rightarrow> string" where
  "replace_sub p r s = (if p = [] then r @ concat (map (\<lambda>c. c # r) s) else replace_from 0 p r s)"

definition replace_first :: "string \<Rightarrow> string \<Rightarrow> string \<Rightarrow> string" where
  "replace_first p r s =
     (case find_sub p s of None \<Rightarrow> s | Some i \<Rightarrow> take i s @ r @ drop (i + length p) s)"

text \<open>\<open>f"{n:,}"\<close>.\<close>

fun group_digits :: "string \<Rightarrow> string" where
  "group_digits (a # b # c # d # s) = a # b # c # CHR '','' # group_digits (d # s)"
| "group_digits s = s"

definition comma_nat :: "nat \<Rightarrow> string" where
  "comma_nat n = rev (group_digits (rev (nat_digits n)))"

text \<open>\<open>json.dumps(v, ensure_ascii=False)\<close>; a non-integral float has the simplified text of
  \<^const>\<open>py_repr\<close>.\<close>

definition dumps_char :: "char \<Rightarrow> string" where
  "dumps_char c = (if 127 \<le> cc c then [c] else json_escape_char c)"

definition dumps_string :: "string \<Rightarrow> string" where
  "dumps_string s = CHR 0x22 # concat (map dumps_char s) @ [CHR 0x22]"

fun json_dumps :: "pyval \<Rightarrow> string" where
  "json_dumps PNone = ''null''"
| "json_dumps (PBool b) = (if b then ''true'' else ''false'')"
| "json_dumps (PInt i) = int_str i"
| "json_dumps (PFloat q) = py_repr (PFloat q)"
| "json_dumps (PStr s) = dumps_string s"
| "json_dumps (PList xs) = ''['' @ join '', '' (map json_dumps xs) @ '']''"
| "json_dumps (PDict d) = ''{'' @ join '', '' (map (\<lambda>(k, t). dumps_string k @ '': '' @ t)
     (map (\<lambda>(k, v). (k, json_dumps v)) d)) @ ''}''"

subsection \<open>Arguments of a tool call\<close>

definition unwrap_params :: "pyval \<Rightarrow> pyval \<Rightarrow> pyval \<times> pydict" where
  "unwrap_params tool_name parsed =
     (case parsed of
        PDict d \<Rightarrow>
          (case (case tool_name of PStr n \<Rightarrow> if n = [] then None else Some (pget d n) | _ \<Rightarrow> None) of
             Some (PDict inner) \<Rightarrow> (tool_name, inner)
           | _ \<Rightarrow>
             (case d of
                [(only_name, PDict only_value)] \<Rightarrow> (por tool_name (PStr only_name), only_value)
              | _ \<Rightarrow> (tool_name, d)))
      | _ \<Rightarrow> (tool_name, []))"

definition unwrap_tool_args :: "pyval \<Rightarrow> string \<Rightarrow> (pyval \<times> pydict) res" where
  "unwrap_tool_args tool_name tool_args_json =
     (case json_loads (if tool_args_json = [] then ''{}'' else tool_args_json) of
        None \<Rightarrow> Inl (ValueError ''JSONDecodeError'')
      | Some parsed \<Rightarrow> Inr (unwrap_params tool_name parsed))"

definition artifact_markers :: "(string \<times> string) list" where
  "artifact_markers =
     [(''/openclaw-runtime/tool-results/tool-results/'', ''/openclaw-runtime/tool-results''),
      (''/runtime/tool-results/tool-results/'', ''/runtime/tool-results'')]"

definition is_source_runtime_artifact_path :: "string \<Rightarrow> bool" where
  "is_source_runtime_artifact_path path = list_ex (\<lambda>(marker, _). contains marker path) artifact_markers"

fun artifact_root_from :: "(string \<times> string) list \<Rightarrow> string \<Rightarrow> string option" where
  "artifact_root_from [] path = None"
| "artifact_root_from ((marker, root_suffix) # rest) path =
     (case find_sub marker path of
        Some i \<Rightarrow> Some (take i path @ root_suffix)
      | None \<Rightarrow> artifact_root_from rest path)"

definition source_runtime_artifact_root_from_path :: "string \<Rightarrow> string option" where
  "source_runtime_artifact_root_from_path path = artifact_root_from artifact_markers path"

definition artifact_path_of_params :: "pyval \<times> pydict \<Rightarrow> string option" where
  "artifact_path_of_params np =
     (let (resolved_name, params) = np in
      if resolved_name \<noteq> PStr ''read_file'' then None
      else (case pget params ''path'' of
              PStr path \<Rightarrow> if is_source_runtime_artifact_path path then Some path else None
            | _ \<Rightarrow> None))"

definition source_runtime_artifact_path_from_tool_call :: "pyval \<Rightarrow> string \<Rightarrow> string option res" where
  "source_runtime_artifact_path_from_tool_call tool_name tool_args_json =
     rbind (unwrap_tool_args tool_name tool_args_json) (\<lambda>np. Inr (artifact_path_of_params np))"

definition remap_source_runtime_artifact_tool_args ::
    "pyval \<Rightarrow> string \<Rightarrow> (string \<times> string) list \<Rightarrow> (string \<times> string option \<times> string option) res" where
  "remap_source_runtime_artifact_tool_args tool_name tool_args_json runtime_root_map =
     rbind (unwrap_tool_args tool_name tool_args_json) (\<lambda>(resolved_name, params).
       if resolved_name \<noteq> PStr ''read_file'' then Inr (tool_args_json, None, None)
       else (case pget params ''path'' of
           PStr path \<Rightarrow>
             (case source_runtime_artifact_root_from_path path of
                None \<Rightarrow> Inr (tool_args_json, None, None)
              | Some source_root \<Rightarrow>
                  (case dget runtime_root_map source_root of
                     None \<Rightarrow> Inr (tool_args_json, Some path, None)
                   | Some mapped_root \<Rightarrow>
                       let mapped_path = mapped_root @ drop (length source_root) path in
                       Inr (json_dumps (PDict (dput ''path'' (PStr mapped_path) params)), Some path, Some mapped_path)))
         | _ \<Rightarrow> Inr (tool_args_json, None, None)))"

subsection \<open>Requests\<close>

definition nonnegative_number :: "pyval \<Rightarrow> rat option" where
  "nonnegative_number v = (case py_float v of Inr q \<Rightarrow> if 0 \<le> q then Some q else None | Inl _ \<Rightarrow> None)"

definition usable_sample :: "pyval \<Rightarrow> bool" where
  "usable_sample v =
     (case v of
        PDict d \<Rightarrow>
          (case nonnegative_number (pget d ''dt_s'') of
             None \<Rightarrow> False
           | Some dt \<Rightarrow> 0 < dt \<and>
               list_ex (\<lambda>f. nonnegative_number (pget d f) \<noteq> None) [''cpu_core_s'', ''net_rx_bytes'', ''net_tx_bytes''])
      | _ \<Rightarrow> False)"

definition valid_resource_timeline :: "pyval \<Rightarrow> pydict option" where
  "valid_resource_timeline v =
     (case v of
        PDict d \<Rightarrow>
          if pget d ''version'' \<notin> {PInt 1, PBool True, PFloat 1} then None
          else (case pget d ''samples'' of
                  PList samples \<Rightarrow> if list_ex usable_sample samples then Some d else None
                | _ \<Rightarrow> None)
      | _ \<Rightarrow> None)"

record tool_request =
  tq_tool :: string
  tq_args :: pydict

definition openclaw_exec_max_timeout_s :: rat where
  "openclaw_exec_max_timeout_s = 600"

definition resource_aware_agent_response_timeout_s :: rat where
  "resource_aware_agent_response_timeout_s = 24 * 60 * 60"

definition resolve_exec_timeout_s :: "pydict \<Rightarrow> rat \<Rightarrow> rat res" where
  "resolve_exec_timeout_s params default_timeout_s =
     rbind (py_float (pget_or params ''timeout'' (PFloat default_timeout_s))) (\<lambda>t.
       Inr (min t openclaw_exec_max_timeout_s))"

definition resource_timed_exec_request :: "pyval \<Rightarrow> rat \<Rightarrow> pydict option \<Rightarrow> tool_request \<times> rat" where
  "resource_timed_exec_request command timeout_s source_resource_timeline =
     (let args = [(''command'', command), (''timeout'', PFloat timeout_s)] in
      case valid_resource_timeline (case source_resource_timeline of Some d \<Rightarrow> PDict d | None \<Rightarrow> PNone) of
        None \<Rightarrow> (\<lparr>tq_tool = ''exec'', tq_args = args\<rparr>, timeout_s)
      | Some timeline \<Rightarrow>
          (\<lparr>tq_tool = ''exec'', tq_args = args @ [(''source_resource_timeline'', PDict timeline)]\<rparr>,
           resource_aware_agent_response_timeout_s))"

text \<open>\<open>list(v)\<close> of a value that came from JSON.\<close>

definition py_list :: "pyval \<Rightarrow> pyval list res" where
  "py_list v =
     (case v of
        PList xs \<Rightarrow> Inr xs
      | PStr s \<Rightarrow> Inr (map (\<lambda>c. PStr [c]) s)
      | PDict d \<Rightarrow> Inr (map PStr (dkeys d))
      | _ \<Rightarrow> Inl (TypeError ''object is not iterable''))"

definition commands_request :: "pyval \<Rightarrow> rat \<Rightarrow> (tool_request \<times> rat) res" where
  "commands_request commands timeout_s =
     rbind (py_list commands) (\<lambda>cs.
       Inr (\<lparr>tq_tool = ''commands'', tq_args = [(''commands'', PList cs), (''timeout'', PFloat timeout_s)]\<rparr>, timeout_s))"

text \<open>The branch for a tool named \<open>exec\<close> without a command key cannot build a request: both
  of its values are absent.\<close>

definition resolve_tool_request ::
    "pyval \<Rightarrow> pydict \<Rightarrow> rat \<Rightarrow> rat option \<Rightarrow> pydict option \<Rightarrow> (tool_request option \<times> rat) res" where
  "resolve_tool_request tool_name params command_timeout_s exec_timeout source_resource_timeline =
     (let fallback = (case exec_timeout of Some t \<Rightarrow> t | None \<Rightarrow> command_timeout_s);
          plain = (\<lambda>tool args. Inr (Some \<lparr>tq_tool = tool, tq_args = args\<rparr>, command_timeout_s)) in
      case dget params ''command'' of
        Some command \<Rightarrow>
          rbind (resolve_exec_timeout_s params fallback) (\<lambda>timeout_s.
            let (request, t) = resource_timed_exec_request command timeout_s source_resource_timeline in
            Inr (Some request, t))
      | None \<Rightarrow>
          (case dget params ''commands'' of
             Some commands \<Rightarrow>
               rbind (resolve_exec_timeout_s params fallback) (\<lambda>timeout_s.
               rbind (commands_request commands timeout_s) (\<lambda>(request, t). Inr (Some request, t)))
           | None \<Rightarrow>
               if tool_name = PStr ''read_file'' then plain ''read_file'' [(''path'', pget_or params ''path'' (PStr []))]
               else if tool_name = PStr ''write_file'' then
                 plain ''write_file'' [(''path'', pget_or params ''path'' (PStr [])),
                                       (''content'', pget_or params ''content'' (PStr []))]
               else if tool_name = PStr ''edit_file'' then
                 plain ''edit_file'' [(''path'', pget_or params ''path'' (PStr [])),
                   (''old_text'', pget_or params ''old_text'' (PStr [])),
                   (''new_text'', pget_or params ''new_text'' (PStr [])),
                   (''replace_all'', PBool (truthy (pget_or params ''replace_all'' (PBool False))))]
               else if tool_name = PStr ''list_dir'' then plain ''list_dir'' [(''path'', pget_or params ''path'' (PStr ''.''))]
               else Inr (None, command_timeout_s)))"

subsection \<open>Responses\<close>

definition is_collect_command_timeout_result :: "pyval \<Rightarrow> bool" where
  "is_collect_command_timeout_result v =
     (case v of PStr s \<Rightarrow> contains ''Error: Command timed out after '' s | _ \<Rightarrow> False)"

definition response_result_indicates_timeout :: "pyval \<Rightarrow> bool" where
  "response_result_indicates_timeout v =
     (is_collect_command_timeout_result v \<or>
      (case v of PStr s \<Rightarrow> list_ex (\<lambda>l. strip l \<in> {''[timeout]'', ''[resource_timeout]'', ''[resource_stall_timeout]''})
                             (splitlines s) | _ \<Rightarrow> False))"

definition final_exit_code :: "pyval \<Rightarrow> int option" where
  "final_exit_code v =
     (case v of
        PStr s \<Rightarrow>
          (case rev (filter (\<lambda>l. l \<noteq> []) (map strip (splitlines s))) of
             [] \<Rightarrow> None
           | l # _ \<Rightarrow> if starts_with exit_marker l then parse_int (strip (drop (length exit_marker) l)) else None)
      | _ \<Rightarrow> None)"

definition trace_tool_response_metadata :: "pydict \<Rightarrow> pydict" where
  "trace_tool_response_metadata resp =
     (let rc = (case pget resp ''returncode'' of PInt i \<Rightarrow> Some i | _ \<Rightarrow> None) in
      (case rc of Some i \<Rightarrow> [(''returncode'', PInt i)] | None \<Rightarrow> [])
      @ (case pget resp ''timed_out'' of
           PBool b \<Rightarrow> [(''timed_out'', PBool b)]
         | _ \<Rightarrow> (case rc of
                  Some i \<Rightarrow> [(''timed_out'', PBool (i = 124 \<and> pget resp ''ok'' = PBool False
                               \<and> response_result_indicates_timeout (pget resp ''result'')))]
                | None \<Rightarrow> []))
      @ List.map_filter (\<lambda>k. map_option (Pair k) (dget resp k))
          [''resource_timeout_policy'', ''resource_virtual_time_s'', ''resource_stall_s''])"

text \<open>A result of the agent: text, success, the agent's own duration and the metadata.\<close>

record trace_result =
  tx_result :: pyval
  tx_ok :: pyval
  tx_inner_duration_ms :: pyval
  tx_metadata :: pydict

definition exec_response :: "tool_request \<Rightarrow> pydict \<Rightarrow> trace_result" where
  "exec_response request resp =
     (let result = pget_or resp ''result'' (PStr []); ok = pget_or resp ''ok'' (PBool False);
          r = \<lparr>tx_result = result, tx_ok = ok, tx_inner_duration_ms = pget resp ''inner_duration_ms'',
               tx_metadata = trace_tool_response_metadata resp\<rparr> in
      if tq_tool request \<notin> {''exec'', ''commands''} then r
      else
        (case pget resp ''returncode'' of
           PInt rc \<Rightarrow>
             if tq_tool request = ''exec'' \<and> rc = 124 \<and> is_collect_command_timeout_result result
             then r\<lparr>tx_ok := PBool (truthy ok)\<rparr>
             else r\<lparr>tx_result := (if final_exit_code result \<noteq> Some rc
                       then PStr (strip (py_str result @ [CHR 0x0A, CHR 0x0A] @ ''Exit code: '' @ int_str rc))
                       else result),
                    tx_ok := PBool (truthy ok)\<rparr>
         | _ \<Rightarrow> r\<lparr>tx_result := (if final_exit_code result = None
                      then PStr (strip (py_str result @ [CHR 0x0A, CHR 0x0A] @ ''Exit code: <missing>''))
                      else result),
                 tx_ok := PBool False\<rparr>))"

text \<open>The executor is the container agent or a sandbox backend.\<close>

definition execute_trace_tool_detailed ::
    "(tool_request \<Rightarrow> rat \<Rightarrow> 'w \<Rightarrow> pydict res \<times> 'w) \<Rightarrow> pyval \<Rightarrow> string \<Rightarrow> rat \<Rightarrow> rat option \<Rightarrow> bool \<Rightarrow>
     pydict option \<Rightarrow> 'w \<Rightarrow> trace_result res \<times> 'w" where
  "execute_trace_tool_detailed request_executor tool_name tool_args_json command_timeout_s
       exec_timeout allow_source_runtime_artifacts source_resource_timeline w =
     (case rbind (unwrap_tool_args tool_name tool_args_json) (\<lambda>(resolved_name, params).
             rbind (resolve_tool_request resolved_name params command_timeout_s exec_timeout
                      source_resource_timeline) (\<lambda>(request, t). Inr (resolved_name, params, request, t))) of
        Inl e \<Rightarrow> (Inl e, w)
      | Inr (resolved_name, params, request, request_timeout_s) \<Rightarrow>
          if resolved_name = PStr ''message'' then
            (Inr \<lparr>tx_result = PStr ''Message replayed as no-op'', tx_ok = PBool True,
                  tx_inner_duration_ms = PFloat 0, tx_metadata = []\<rparr>, w)
          else
            let artifact_path = artifact_path_of_params (unwrap_params resolved_name (PDict params)) in
            if artifact_path \<noteq> None \<and> \<not> allow_source_runtime_artifacts then
              (Inr \<lparr>tx_result = PStr (''Error: source trace references an OpenClaw runtime artifact that is unavailable in a fresh replay container: '' @ the artifact_path),
                    tx_ok = PBool False, tx_inner_duration_ms = PFloat 0, tx_metadata = []\<rparr>, w)
            else
              (case request of
                 None \<Rightarrow> (Inr \<lparr>tx_result = PStr (''Error: Unsupported replay tool '' @ py_repr resolved_name),
                               tx_ok = PBool False, tx_inner_duration_ms = PNone, tx_metadata = []\<rparr>, w)
               | Some rq \<Rightarrow>
                   (case request_executor rq request_timeout_s w of
                      (Inl e, w') \<Rightarrow> (Inl e, w')
                    | (Inr resp, w') \<Rightarrow> (Inr (exec_response rq resp), w'))))"

subsection \<open>The agent script: commands\<close>

text \<open>The response of a failed handler.\<close>

definition agent_error :: "string \<Rightarrow> pydict" where
  "agent_error m = [(''ok'', PBool False), (''result'', PStr m)]"


definition agent_max_output :: nat where
  "agent_max_output = 10000"

definition truncate_output :: "nat \<Rightarrow> string \<Rightarrow> string" where
  "truncate_output limit text =
     (if length text \<le> limit then text
      else
        let half = limit div 2 in
        take half text @ [CHR 0x0A, CHR 0x0A] @ ''... ('' @ comma_nat (length text - limit) @ '' chars truncated) ...''
          @ [CHR 0x0A, CHR 0x0A] @ drop (length text - half) text)"

definition format_exec_result :: "string \<Rightarrow> string \<Rightarrow> int \<Rightarrow> string" where
  "format_exec_result stdout stderr returncode =
     join [CHR 0x0A]
       ((if stdout = [] then [] else [stdout])
        @ (if strip stderr = [] then [] else [''STDERR:'' @ CHR 0x0A # stderr])
        @ [CHR 0x0A # ''Exit code: '' @ int_str returncode])"

definition format_command_timeout :: "string \<Rightarrow> string" where
  "format_command_timeout timeout = ''Error: Command timed out after '' @ timeout @ '' seconds''"

text \<open>A process that ran to its end, or whose timeout expired.\<close>

datatype process_end = Ended string string int | Expired

definition handle_plain_exec :: "string \<Rightarrow> process_end \<Rightarrow> pydict" where
  "handle_plain_exec timeout r =
     (case r of
        Ended stdout stderr rc \<Rightarrow>
          [(''ok'', PBool True), (''result'', PStr (truncate_output agent_max_output (format_exec_result stdout stderr rc))),
           (''returncode'', PInt rc), (''timed_out'', PBool False)]
      | Expired \<Rightarrow>
          [(''ok'', PBool False), (''result'', PStr (format_command_timeout timeout)),
           (''returncode'', PInt 124), (''timed_out'', PBool True)])"

definition command_output :: "string \<Rightarrow> process_end \<Rightarrow> string" where
  "command_output timeout r =
     (case r of Ended stdout stderr rc \<Rightarrow> format_exec_result stdout stderr rc | Expired \<Rightarrow> format_command_timeout timeout)"

text \<open>Every command runs, also after one that failed or expired.\<close>

definition handle_commands :: "string \<Rightarrow> process_end list \<Rightarrow> pydict" where
  "handle_commands timeout rs =
     (let all_output = map (command_output timeout) rs;
          codes = map (\<lambda>r. case r of Ended _ _ rc \<Rightarrow> rc | Expired \<Rightarrow> 124) rs;
          last_rc = (case rev codes of [] \<Rightarrow> 0 | rc # _ \<Rightarrow> rc);
          failed = List.map_filter (\<lambda>r. case r of Ended _ _ rc \<Rightarrow> if rc \<noteq> 0 then Some rc else None | Expired \<Rightarrow> None) rs;
          first_failed_rc = (case failed of rc # _ \<Rightarrow> rc | [] \<Rightarrow> 0);
          any_timeout = list_ex (\<lambda>r. r = Expired) rs;
          combined = (if 1 < length rs
            then join [CHR 0x0A] (map2 (\<lambda>k out. ''[call '' @ nat_digits k @ '']'' @ CHR 0x0A # out) [0..<length rs] all_output)
            else (case all_output of [] \<Rightarrow> [] | out # _ \<Rightarrow> out))
      in [(''ok'', PBool (\<not> any_timeout)), (''result'', PStr combined),
          (''returncode'', PInt (if any_timeout then 124 else if first_failed_rc \<noteq> 0 then first_failed_rc else last_rc)),
          (''timed_out'', PBool any_timeout)])"

subsection \<open>The agent script: files\<close>

text \<open>The files of the container, by path; directories are implicit. Reading a file that is
  not there raises, with the message the host gives.\<close>

type_synonym text_files = "string \<rightharpoonup> string"

definition ok_reply :: "string \<Rightarrow> pydict" where
  "ok_reply m = [(''ok'', PBool True), (''result'', PStr m)]"

definition read_max_chars :: nat where
  "read_max_chars = 128000"

definition numbered_lines :: "nat \<Rightarrow> string list \<Rightarrow> string list" where
  "numbered_lines offset ls =
     map2 (\<lambda>i l. nat_digits (offset + i + 1) @ ''| '' @ l) [0..<length ls] ls"

definition handle_read_file :: "text_files \<Rightarrow> string \<Rightarrow> nat \<Rightarrow> nat \<Rightarrow> pydict" where
  "handle_read_file fs path offset limit =
     (case fs path of
        None \<Rightarrow> agent_error ''Error: '' 
      | Some content \<Rightarrow>
          if content = [] then ok_reply (''(Empty file: '' @ path @ '')'')
          else
            let selected = take limit (drop offset (splitlines content));
                numbered = join [CHR 0x0A] (numbered_lines offset selected)
            in ok_reply (if read_max_chars < length numbered
                 then take read_max_chars numbered @ [CHR 0x0A, CHR 0x0A] @ ''... (truncated at '' @ nat_digits read_max_chars @ '' chars)''
                 else numbered))"

definition handle_write_file :: "(string \<Rightarrow> string option) \<Rightarrow> string \<Rightarrow> string \<Rightarrow> text_files \<Rightarrow> pydict \<times> text_files" where
  "handle_write_file write_fails path content fs =
     (case write_fails path of
        Some m \<Rightarrow> (agent_error (''Error: '' @ m), fs)
      | None \<Rightarrow> (ok_reply (''Successfully wrote '' @ path), fs(path \<mapsto> content)))"

text \<open>The text to replace: as given, else the first window of lines that agree after
  stripping.\<close>

definition line_windows :: "string list \<Rightarrow> string list \<Rightarrow> string list" where
  "line_windows stripped_old content_lines =
     map (join [CHR 0x0A])
       (filter (\<lambda>w. map strip w = stripped_old)
         (map (\<lambda>i. take (length stripped_old) (drop i content_lines))
           [0..<length content_lines + 1 - length stripped_old]))"

definition find_match :: "string \<Rightarrow> string \<Rightarrow> (string \<times> nat) option" where
  "find_match content old_text =
     (if contains old_text content then Some (old_text, count_sub old_text content)
      else
        let old_lines = splitlines old_text in
        if old_lines = [] then None
        else (case line_windows (map strip old_lines) (splitlines content) of
                [] \<Rightarrow> None
              | w # ws \<Rightarrow> Some (w, length (w # ws))))"

definition crlf :: string where
  "crlf = [CHR 0x0D, CHR 0x0A]"

definition lf :: string where
  "lf = [CHR 0x0A]"

definition handle_edit_file ::
    "(string \<Rightarrow> string \<Rightarrow> string \<Rightarrow> string) \<Rightarrow> string \<Rightarrow> string \<Rightarrow> string \<Rightarrow> bool \<Rightarrow> text_files \<Rightarrow> pydict \<times> text_files" where
  "handle_edit_file not_found_msg path old_text new_text replace_all fs =
     (case fs path of
        None \<Rightarrow> (agent_error ''Error editing file: '', fs)
      | Some raw \<Rightarrow>
          let content = replace_sub crlf lf raw in
          (case find_match content (replace_sub crlf lf old_text) of
             None \<Rightarrow> (agent_error (not_found_msg old_text content path), fs)
           | Some (m, n) \<Rightarrow>
               if 1 < n \<and> \<not> replace_all then
                 (agent_error (''Warning: old_text appears '' @ nat_digits n
                    @ '' times. Provide more context or set replace_all=true.''), fs)
               else
                 let norm_new = replace_sub crlf lf new_text;
                     new_content = (if replace_all then replace_sub m norm_new content
                                    else replace_first m norm_new content)
                 in (ok_reply (''Successfully edited '' @ path),
                     fs(path \<mapsto> (if contains crlf raw then replace_sub lf crlf new_content else new_content)))))"

definition list_ignore :: "string set" where
  "list_ignore = {''.git'', ''node_modules'', ''__pycache__'', ''.venv'', ''.tox'', ''.mypy_cache'', ''.pytest_cache''}"

definition list_max :: nat where
  "list_max = 200"

definition handle_list_dir :: "string list option \<Rightarrow> pydict" where
  "handle_list_dir names =
     (case names of
        None \<Rightarrow> agent_error ''Error: ''
      | Some ns \<Rightarrow>
          let entries = sort (filter (\<lambda>n. n \<notin> list_ignore) ns) in
          ok_reply (join lf (if list_max < length entries
            then take list_max entries @ [''... ('' @ int_str (int (length ns) - int list_max) @ '' more entries)'']
            else entries)))"

subsection \<open>The agent script: resource-integrated timeout\<close>

record resource_sample =
  sm_start :: rat
  sm_end :: rat
  sm_cpu_rate :: rat
  sm_rx_rate :: rat
  sm_tx_rate :: rat

definition nonnegative_float :: "pyval \<Rightarrow> rat" where
  "nonnegative_float v = (case nonnegative_number v of Some q \<Rightarrow> q | None \<Rightarrow> 0)"

fun source_samples_from :: "rat \<Rightarrow> pyval list \<Rightarrow> resource_sample list" where
  "source_samples_from offset [] = []"
| "source_samples_from offset (PDict raw # rest) =
     (let dt = nonnegative_float (pget raw ''dt_s'') in
      if dt \<le> 0 then source_samples_from offset rest
      else \<lparr>sm_start = offset, sm_end = offset + dt,
             sm_cpu_rate = nonnegative_float (pget raw ''cpu_core_s'') / dt,
             sm_rx_rate = nonnegative_float (pget raw ''net_rx_bytes'') / dt,
             sm_tx_rate = nonnegative_float (pget raw ''net_tx_bytes'') / dt\<rparr>
           # source_samples_from (offset + dt) rest)"
| "source_samples_from offset (v # rest) = source_samples_from offset rest"

definition resource_source_samples :: "pyval \<Rightarrow> resource_sample list" where
  "resource_source_samples timeline =
     (case timeline of
        PDict d \<Rightarrow>
          if pget d ''version'' \<notin> {PInt 1, PBool True, PFloat 1} then []
          else (case pget d ''samples'' of PList xs \<Rightarrow> source_samples_from 0 xs | _ \<Rightarrow> [])
      | _ \<Rightarrow> [])"

definition resource_sample_at :: "resource_sample list \<Rightarrow> rat \<Rightarrow> resource_sample option" where
  "resource_sample_at samples t =
     (if samples = [] then None
      else (case List.find (\<lambda>s. sm_start s \<le> t \<and> t < sm_end s) samples of
              Some s \<Rightarrow> Some s | None \<Rightarrow> Some (last samples)))"

record resource_counters =
  ct_time :: rat
  ct_cpu :: "rat option"
  ct_rx :: "rat option"
  ct_tx :: "rat option"

definition counter_delta :: "rat option \<Rightarrow> rat option \<Rightarrow> rat option" where
  "counter_delta a b = (case (a, b) of (Some x, Some y) \<Rightarrow> Some (max 0 (y - x)) | _ \<Rightarrow> None)"

definition cpu_rate_eps :: rat where "cpu_rate_eps = 1 / 20"
definition net_rate_eps :: rat where "net_rate_eps = 1024"
definition progress_eps_s :: rat where "progress_eps_s = 1 / 10 ^ 6"

definition progress_candidate :: "rat \<Rightarrow> rat \<Rightarrow> rat option \<Rightarrow> rat list" where
  "progress_candidate eps rate delta =
     (case delta of Some d \<Rightarrow> if eps \<le> rate then [d / rate] else [] | None \<Rightarrow> [])"

definition resource_progress_increment ::
    "resource_sample list \<Rightarrow> rat \<Rightarrow> rat \<Rightarrow> rat option \<times> rat option \<times> rat option \<Rightarrow> rat" where
  "resource_progress_increment samples t wall_dt deltas =
     (let (cpu, rx, tx) = deltas in
      if wall_dt \<le> 0 then 0
      else if samples = [] then wall_dt
      else if sm_end (last samples) \<le> t then wall_dt
      else (case resource_sample_at samples t of
              None \<Rightarrow> wall_dt
            | Some s \<Rightarrow>
                let cs = progress_candidate cpu_rate_eps (sm_cpu_rate s) cpu
                         @ progress_candidate net_rate_eps (sm_rx_rate s) rx
                         @ progress_candidate net_rate_eps (sm_tx_rate s) tx;
                    progress = (if cs = [] then wall_dt else max 0 (Min (set cs)))
                in min progress (max 0 (sm_end s - t))))"

definition resource_has_active_demand :: "resource_sample list \<Rightarrow> rat \<Rightarrow> bool" where
  "resource_has_active_demand samples t =
     (case resource_sample_at samples t of
        None \<Rightarrow> False
      | Some s \<Rightarrow> cpu_rate_eps \<le> sm_cpu_rate s \<or> net_rate_eps \<le> sm_rx_rate s \<or> net_rate_eps \<le> sm_tx_rate s)"

text \<open>A marker line before the last exit code of a text.\<close>

definition exit_line_marker :: string where
  "exit_line_marker = CHR 0x0A # ''Exit code:''"

fun before_last :: "string \<Rightarrow> string \<Rightarrow> string" where
  "before_last m [] = []"
| "before_last m (c # s) = (if contains m s then c # before_last m s else [])"

definition insert_before_final_exit_code :: "string \<Rightarrow> string \<Rightarrow> string" where
  "insert_before_final_exit_code text marker =
     (if \<not> contains exit_line_marker text then (if text \<noteq> [] then text @ lf @ marker else marker)
      else
        let p = before_last exit_line_marker text; suffix = after_last exit_line_marker text in
        (if p \<noteq> [] then p @ lf @ marker else marker) @ exit_line_marker @ suffix)"

text \<open>One poll of the running process every half second.\<close>

datatype poll = PollEnded string string int | PollRunning resource_counters

definition resource_reply :: "bool \<Rightarrow> string \<Rightarrow> int \<Rightarrow> bool \<Rightarrow> rat \<Rightarrow> pydict" where
  "resource_reply ok output rc timed_out t =
     [(''ok'', PBool ok), (''result'', PStr (truncate_output agent_max_output output)), (''returncode'', PInt rc),
      (''timed_out'', PBool timed_out), (''resource_timeout_policy'', PStr ''resource_integrated''),
      (''resource_virtual_time_s'', PFloat (round_to 6 t))]"

fun resource_loop ::
    "resource_sample list \<Rightarrow> rat \<Rightarrow> rat \<Rightarrow> string \<times> string \<Rightarrow> poll list \<Rightarrow> rat \<Rightarrow> resource_counters \<Rightarrow> rat \<Rightarrow> pydict option" where
  "resource_loop samples timeout_s stall_timeout_s killed [] t prev last_progress = None"
| "resource_loop samples timeout_s stall_timeout_s killed (PollEnded stdout stderr rc # polls) t prev last_progress =
     Some (resource_reply True (format_exec_result stdout stderr rc) rc False t)"
| "resource_loop samples timeout_s stall_timeout_s killed (PollRunning cur # polls) t prev last_progress =
     (let progress = resource_progress_increment samples t (max 0 (ct_time cur - ct_time prev))
            (counter_delta (ct_cpu prev) (ct_cpu cur), counter_delta (ct_rx prev) (ct_rx cur),
             counter_delta (ct_tx prev) (ct_tx cur));
          t' = t + progress;
          last' = (if progress_eps_s < progress then ct_time cur else last_progress);
          output = format_exec_result (fst killed) (snd killed) 124;
          stalled = ct_time cur - last'
      in if timeout_s \<le> t' then
           Some (resource_reply False (insert_before_final_exit_code output ''[resource_timeout]'') 124 True t')
         else if stall_timeout_s \<le> stalled \<and> resource_has_active_demand samples t' then
           Some (resource_reply False (insert_before_final_exit_code output ''[resource_stall_timeout]'') 124 True t'
                 @ [(''resource_stall_s'', PFloat (round_to 6 stalled))])
         else resource_loop samples timeout_s stall_timeout_s killed polls t' cur last')"

definition run_with_resource_timeout ::
    "rat \<Rightarrow> pyval \<Rightarrow> string \<times> string \<Rightarrow> resource_counters \<Rightarrow> poll list \<Rightarrow> pydict option option" where
  "run_with_resource_timeout timeout_s timeline killed start polls =
     (let samples = resource_source_samples timeline in
      if samples = [] then None
      else Some (resource_loop samples timeout_s (max 5 (min 60 timeout_s)) killed polls 0 start (ct_time start)))"

subsection \<open>Lemmas: exit codes\<close>

lemma newline_char [simp]:
  "CHR 0x0A \<noteq> char_of (13::nat)" "char_of (13::nat) \<noteq> CHR 0x0A" "char_of (10::nat) = CHR 0x0A" "py_line_break (CHR 0x0A)"
  by code_simp+

lemma split_lines_last:
  "v \<noteq> [] \<Longrightarrow> \<forall>c \<in> set v. \<not> py_line_break c \<Longrightarrow>
     \<exists>ys. split_lines_from acc (u @ CHR 0x0A # v) = ys @ [v]"
proof (induction acc u rule: split_lines_from.induct)
  case (1 acc)
  have "split_lines_from [] v = [v]" using splitlines_plain [of v] 1 by (simp add: splitlines_def)
  then show ?case by auto
next
  case (2 acc c s)
  have plain: "split_lines_from [] v = [v]" using splitlines_plain [of v] 2(5,6) by (simp add: splitlines_def)
  show ?case
  proof (cases "py_line_break c \<and> c = char_of (13::nat)")
    case True
    show ?thesis
    proof (cases s)
      case Nil
      then show ?thesis using True plain by auto
    next
      case (Cons d s')
      show ?thesis using True 2(1)[OF _ _ Cons] 2(2)[OF _ _ Cons] 2(5,6) Cons by auto
    qed
  next
    case False
    then show ?thesis using 2(3,4,5,6) by (cases "py_line_break c") auto
  qed
qed

lemma strip_keeps_end:
  assumes "v \<noteq> []" "\<not> py_space (hd v)" "\<not> py_space (last v)"
  shows "\<exists>w u'. u = w @ u' \<and> strip (u @ v) = u' @ v"
proof -
  have r: "rstrip (x @ v) = x @ v" for x
    using assms(1,3) by (cases v rule: rev_cases) (simp_all add: rstrip_def)
  have "\<exists>w u'. u = w @ u' \<and> lstrip (u @ v) = u' @ v"
  proof (induction u)
    case Nil
    then show ?case using assms(1,2) by (simp add: lstrip_def dropWhile_eq_self_iff)
  next
    case (Cons c u)
    show ?case
    proof (cases "py_space c")
      case True
      then show ?thesis using Cons by (auto simp: lstrip_def)
    next
      case False
      then show ?thesis by (simp add: lstrip_def)
    qed
  qed
  then show ?thesis by (auto simp: strip_def r)
qed

definition exit_line :: "int \<Rightarrow> string" where
  "exit_line rc = exit_marker @ '' '' @ int_str rc"

lemma exit_line_plain:
  "exit_line rc \<noteq> []" "hd (exit_line rc) = CHR ''E''" "\<not> py_space (last (exit_line rc))"
  "\<forall>c \<in> set (exit_line rc). \<not> py_line_break c" "strip (exit_line rc) = exit_line rc"
proof -
  show ne: "exit_line rc \<noteq> []" and hd: "hd (exit_line rc) = CHR ''E''"
    by (simp_all add: exit_line_def exit_marker_def)
  have "last (exit_line rc) \<in> set (int_str rc)" using int_str_plain(3) by (simp add: exit_line_def)
  then show last: "\<not> py_space (last (exit_line rc))" using int_str_plain(1) by blast
  show "\<forall>c \<in> set (exit_line rc). \<not> py_line_break c"
    using int_str_plain(2) [of rc] by (auto simp: exit_line_def exit_marker_def py_line_break_def cc_def)
  show "strip (exit_line rc) = exit_line rc"
    using strip_keeps_end [OF ne _ last, of "[]"] hd by (simp add: py_space_def cc_def)
qed

lemma final_exit_code_line: "final_exit_code (PStr (exit_line rc)) = Some rc"
proof -
  have "strip ('' '' @ int_str rc) = int_str rc"
    using strip_no_space [OF int_str_plain(1)] by (simp add: strip_space_prefix py_space_def cc_def)
  moreover have "starts_with exit_marker (exit_line rc)" by (simp add: exit_line_def)
  ultimately show ?thesis
    using splitlines_plain [OF exit_line_plain(4)] exit_line_plain(1,5)
    by (simp add: final_exit_code_def exit_line_def parse_int_int_str)
qed

lemma final_exit_code_appended:
  "final_exit_code (PStr (strip (text @ [CHR 0x0A, CHR 0x0A] @ exit_line rc))) = Some rc"
proof -
  let ?v = "exit_line rc"
  have "\<not> py_space (hd ?v)" by (simp add: exit_line_plain(2) py_space_def cc_def)
  from strip_keeps_end [OF exit_line_plain(1) this exit_line_plain(3), of "text @ [CHR 0x0A, CHR 0x0A]"]
  obtain w u where u: "text @ [CHR 0x0A, CHR 0x0A] = w @ u"
    and s: "strip (text @ [CHR 0x0A, CHR 0x0A] @ ?v) = u @ ?v" by auto
  show ?thesis
  proof (cases u rule: rev_cases)
    case Nil
    then show ?thesis using s final_exit_code_line by simp
  next
    case (snoc u' c)
    then have "c = CHR 0x0A" using u by (metis append_assoc butlast_snoc last_snoc append_Cons append_Nil)
    then obtain ys where "splitlines (u @ ?v) = ys @ [?v]"
      using split_lines_last [OF exit_line_plain(1,4), of "[]" u'] snoc by (auto simp: splitlines_def)
    then show ?thesis
      using final_exit_code_line [of rc] splitlines_plain [OF exit_line_plain(4) [of rc]] exit_line_plain(1) [of rc]
      by (simp only: s) (simp add: final_exit_code_def exit_line_plain(5))
  qed
qed

subsection \<open>Properties\<close>

text \<open>The text a shell execution reports ends with the exit code the agent returned, so that
  the text and the metadata agree; a code the simulator had to append is the one it reads back.\<close>
theorem exec_reports_exit_code:
  assumes "tq_tool request \<in> {''exec'', ''commands''}" "pget resp ''returncode'' = PInt rc"
    and "\<not> (tq_tool request = ''exec'' \<and> rc = 124 \<and>
             is_collect_command_timeout_result (pget_or resp ''result'' (PStr [])))"
  shows "final_exit_code (tx_result (exec_response request resp)) = Some rc \<and>
     pget (tx_metadata (exec_response request resp)) ''returncode'' = PInt rc \<and>
     (final_exit_code (pget_or resp ''result'' (PStr [])) = Some rc \<or>
      command_exit_code (py_str (tx_result (exec_response request resp))) PNone = Inr (Some rc))"
proof -
  let ?r = "pget_or resp ''result'' (PStr [])"
  have app: "py_str ?r @ [CHR 0x0A, CHR 0x0A] @ ''Exit code: '' @ int_str rc =
      py_str ?r @ [CHR 0x0A, CHR 0x0A] @ exit_line rc"
    by (simp add: exit_line_def exit_marker_def)
  have res: "tx_result (exec_response request resp) =
      (if final_exit_code ?r \<noteq> Some rc then PStr (strip (py_str ?r @ [CHR 0x0A, CHR 0x0A] @ exit_line rc)) else ?r)"
    using assms by (auto simp: exec_response_def Let_def app [simplified])
  have meta: "pget (tx_metadata (exec_response request resp)) ''returncode'' = PInt rc"
    using assms by (simp add: exec_response_def Let_def trace_tool_response_metadata_def pget_def)
  have "\<not> py_space (hd (exit_line rc))" by (simp add: exit_line_plain(2) py_space_def cc_def)
  from strip_keeps_end [OF exit_line_plain(1) this exit_line_plain(3), of "py_str ?r @ [CHR 0x0A, CHR 0x0A]"]
  obtain u where "strip (py_str ?r @ [CHR 0x0A, CHR 0x0A] @ exit_line rc) = u @ exit_line rc" by auto
  then have "command_exit_code (strip (py_str ?r @ [CHR 0x0A, CHR 0x0A] @ exit_line rc)) PNone = Inr (Some rc)"
    by (simp only: exit_line_def exit_code_appended)
  then show ?thesis using meta final_exit_code_appended by (simp add: res)
qed

lemma exec_reports_exit_code_witness:
  "let r = exec_response \<lparr>tq_tool = ''exec'', tq_args = []\<rparr>
         [(''ok'', PBool True), (''result'', PStr ''done''), (''returncode'', PInt 2)] in
   final_exit_code (tx_result r) = Some 2 \<and> pget (tx_metadata r) ''returncode'' = PInt 2"
proof -
  let ?resp = "[(''ok'', PBool True), (''result'', PStr ''done''), (''returncode'', PInt 2)]"
  have "pget ?resp ''returncode'' = PInt 2" by code_simp
  from exec_reports_exit_code [OF _ this, of "\<lparr>tq_tool = ''exec'', tq_args = []\<rparr>"] show ?thesis by simp
qed

lemma find_sub_split: "find_sub p s = Some i \<Longrightarrow> s = take i s @ p @ drop (i + length p) s"
proof (induction s arbitrary: i)
  case (Cons c s)
  show ?case
  proof (cases "starts_with p (c # s)")
    case True
    then show ?thesis using Cons.prems by (auto simp: starts_with_def) (metis append_take_drop_id)
  next
    case False
    then obtain j where j: "find_sub p s = Some j" "i = Suc j" using Cons.prems by auto
    show ?thesis using Cons.IH [OF j(1)] j(2) by simp
  qed
qed (auto split: if_splits)

lemma find_sub_contains: "contains p s \<Longrightarrow> \<exists>i. find_sub p s = Some i"
  by (induction s) auto

lemma replace_first_split:
  "contains p s \<Longrightarrow> \<exists>u v. s = u @ p @ v \<and> replace_first p r s = u @ r @ v"
  using find_sub_contains [of p s] find_sub_split [of p s] by (fastforce simp: replace_first_def)



text \<open>Where the text is found only after stripping the lines, the first textual occurrence of
  the matched window is replaced, which need not be the window: here the edit of the second line
  changes the first.\<close>

lemma stripped_edit_replaces_elsewhere:
  "(snd (handle_edit_file nf ''f'' (''  foo'') ''X'' False [''f'' \<mapsto> ''barfoo'' @ lf @ ''foo''])) ''f'' =
     Some (''barX'' @ lf @ ''foo'')"
  by code_simp

end
