(* ===== verification/ReplayLoop.thy ===== *)
theory ReplayLoop
  imports StateErr TraceTools CasRestore
begin

text \<open>
  The replay of one session (\<open>_replay_cloud_model_session\<close> of
  \<open>src/trace_collect/simulator.py\<close>): how each recorded action is replayed, the comparison with
  the source outcome, the forced synchronisation with a checkpoint, the record that is logged,
  and the counters. The container, the clock and the sleep are operations on a world of any
  type; the restore acts on the tree of that world through \<^const>\<open>restore_manifest\<close>.
  The lemmas show that every action is accounted for, what a continued synchronisation
  guarantees, and which actions never reach the container.
\<close>

subsection \<open>Environment and state\<close>

record 'w replay_env =
  en_host :: host
  en_size_of :: "string \<Rightarrow> int"
  en_restore :: restore_env
  en_root_map :: "(string \<times> string) list"
  en_deny :: "string \<Rightarrow> bool"
  en_norm :: "string \<Rightarrow> string"
  en_request :: "tool_request \<Rightarrow> rat \<Rightarrow> 'w \<Rightarrow> pydict res \<times> 'w"
  en_capture :: "'w \<Rightarrow> pydict res \<times> 'w"
  en_tree :: "'w \<Rightarrow> fs"
  en_put_tree :: "fs option \<Rightarrow> 'w \<Rightarrow> 'w"
  en_now :: "'w \<Rightarrow> rat"
  en_sleep :: "rat \<Rightarrow> 'w \<Rightarrow> 'w"

record replay_config =
  cf_loaded :: loaded_session
  cf_source_parent :: string
  cf_container :: bool
  cf_speed :: rat
  cf_timing :: llm_timing
  cf_command_timeout :: rat
  cf_warmup :: int
  cf_exec_env_parity :: pyval
  cf_task_env_parity :: string

record 'w loop_state =
  rl_world :: 'w
  rl_prev_manifest :: "pydict option"
  rl_folded :: pydict
  rl_lane_active :: bool
  rl_prev_end :: "rat option"
  rl_drifts :: "sleep_drift list"
  rl_sync_fields :: pydict
  rl_source_failed :: nat
  rl_replay_failed :: nat
  rl_matched_failed :: nat
  rl_records :: "trace_action list"
  rl_succeeded :: nat
  rl_mismatches :: nat
  rl_unresolved :: nat
  rl_action_errors :: nat
  rl_fatal :: nat
  rl_sync_actions :: nat
  rl_sync_attempts :: nat
  rl_sync_successes :: nat
  rl_sync_continued :: nat

type_synonym ('w, 'a) replay = "('w loop_state, 'a) sm"

definition read_clock :: "'w replay_env \<Rightarrow> ('w, rat) replay" where
  "read_clock env = sgets (\<lambda>st. en_now env (rl_world st))"

text \<open>A sleep whose time is measured and kept for the summary of the drifts.\<close>

definition timed_sleep :: "'w replay_env \<Rightarrow> rat \<Rightarrow> string \<Rightarrow> ('w, sleep_drift option) replay" where
  "timed_sleep env expected_s phase =
     (if expected_s \<le> 0 then sret None
      else
        sbind (read_clock env) (\<lambda>started.
        sbind (smod (\<lambda>st. st\<lparr>rl_world := en_sleep env expected_s (rl_world st)\<rparr>)) (\<lambda>_.
        sbind (read_clock env) (\<lambda>ended.
          let d = sleep_and_measure expected_s phase (ended - started) in
          sbind (smod (\<lambda>st. st\<lparr>rl_drifts := rl_drifts st @ (case d of Some x \<Rightarrow> [x] | None \<Rightarrow> [])\<rparr>)) (\<lambda>_.
            sret d)))))"

definition sleep_drift_metrics :: "sleep_drift option \<Rightarrow> sleep_drift option \<Rightarrow> pydict" where
  "sleep_drift_metrics source_gap action_sleep =
     (case source_gap of Some d \<Rightarrow> [(''source_gap_sleep'', PDict (sleep_drift_dict d))] | None \<Rightarrow> [])
     @ (case action_sleep of Some d \<Rightarrow> [(''action_sleep'', PDict (sleep_drift_dict d))] | None \<Rightarrow> [])"

subsection \<open>LLM calls\<close>

definition source_model :: "loaded_session \<Rightarrow> pyval" where
  "source_model s =
     (case ls_summary s of Some m \<Rightarrow> pget_or m ''model'' (PStr ''unknown'') | None \<Rightarrow> PStr ''unknown'')"

definition llm_record_data ::
    "replay_config \<Rightarrow> pydict \<Rightarrow> pydict \<Rightarrow> int \<Rightarrow> pydict \<Rightarrow> rat \<Rightarrow> sleep_drift option \<Rightarrow> sleep_drift option \<Rightarrow> pydict" where
  "llm_record_data cf action data it timing_fields latency_ms source_gap action_sleep =
     (let s = cf_loaded cf;
          lane = is_subagent_lane_action (ls_source_agent_id s) action in
      dupdate (source_llm_message_payload data)
        ([(''raw_response'', pget_or data ''raw_response'' (PDict [])),
          (''prompt_tokens'', pget_or data ''prompt_tokens'' (PInt 0)),
          (''completion_tokens'', pget_or data ''completion_tokens'' (PInt 0)),
          (''llm_latency_ms'', PFloat latency_ms), (''simulate_source'', PStr (ls_source_trace s)),
          (''source_llm_latency_ms'', pget data ''llm_latency_ms''), (''replay_mode'', PStr ''cloud_model''),
          (''replay_speed'', PFloat (cf_speed cf))]
         @ timing_fields
         @ (if lane then [(''replay_source'', PStr ''subagent_lane_replay''),
                          (''source_lane_agent_id'', PStr (source_action_agent_id action))] else [])
         @ [(''sim_metrics'', PDict ((''warmup'', PBool (it < cf_warmup cf))
               # sleep_drift_metrics source_gap action_sleep))]))"

definition log_record :: "trace_action \<Rightarrow> ('w, unit) replay" where
  "log_record r = smod (\<lambda>st. st\<lparr>rl_records := rl_records st @ [r]\<rparr>)"

definition replay_llm_call ::
    "'w replay_env \<Rightarrow> replay_config \<Rightarrow> pydict \<Rightarrow> pydict \<Rightarrow> int \<Rightarrow> rat \<Rightarrow> sleep_drift option \<Rightarrow> ('w, unit) replay" where
  "replay_llm_call env cf action data it source_duration_s source_gap =
     (let s = cf_loaded cf in
      sbind (read_clock env) (\<lambda>ts_start.
      sbind (slift (llm_replay_duration_s data source_duration_s (cf_speed cf) (cf_timing cf))) (\<lambda>(sleep_s, timing_fields).
      sbind (timed_sleep env sleep_s ''llm_replay'') (\<lambda>action_sleep.
      sbind (read_clock env) (\<lambda>ts_end.
      sbind (log_record (make_trace_action s ''llm_call''
               (replay_action_id (ls_source_agent_id s) (''llm_'' @ int_str it) action) it ts_start ts_end
               (llm_record_data cf action data it timing_fields ((ts_end - ts_start) * 1000) source_gap action_sleep))) (\<lambda>_.
        smod (\<lambda>st. st\<lparr>rl_succeeded := rl_succeeded st + 1\<rparr>)))))))"

subsection \<open>Running a tool\<close>

text \<open>The arguments mapped into the simulator's artifact tree: mapped arguments, the source
  path, the mapped path, and whether it is a file.\<close>

definition container_tool_runtime_args ::
    "'w replay_env \<Rightarrow> pyval \<Rightarrow> pyval \<Rightarrow> (pyval \<times> string option \<times> string option \<times> bool) res" where
  "container_tool_runtime_args env tool_name tool_args =
     (case tool_args of
        PStr text \<Rightarrow>
          rbind (remap_source_runtime_artifact_tool_args tool_name text (en_root_map env)) (\<lambda>(mapped, source_path, mapped_path).
          rbind (if source_path = None then source_runtime_artifact_path_from_tool_call tool_name text
                 else Inr source_path) (\<lambda>original.
            Inr (PStr mapped, original, mapped_path,
                 case mapped_path of Some p \<Rightarrow> h_is_file (en_host env) p | None \<Rightarrow> False)))
      | v \<Rightarrow> Inr (v, None, None, False))"

definition artifact_unavailable_result :: "string \<Rightarrow> string" where
  "artifact_unavailable_result source_path =
     ''Error: source trace references an OpenClaw runtime artifact that is unavailable in the simulator runtime: '' @ source_path"

text \<open>A call in the container: text, duration, success and metadata.\<close>

record tool_run =
  tn_source :: string
  tn_result :: pyval
  tn_success :: bool
  tn_duration_ms :: rat
  tn_metadata :: pydict
  tn_action_sleep :: "sleep_drift option"
  tn_original :: "string option"
  tn_mapped :: "string option"
  tn_exec_timeline :: "pydict option"

definition in_world :: "('w \<Rightarrow> 'a res \<times> 'w) \<Rightarrow> ('w, 'a) replay" where
  "in_world = szoom rl_world (\<lambda>w st. st\<lparr>rl_world := w\<rparr>)"

definition execute_container_tool_call ::
    "'w replay_env \<Rightarrow> replay_config \<Rightarrow> pyval \<Rightarrow> pyval \<Rightarrow> rat option \<Rightarrow> string option \<Rightarrow> pydict option \<Rightarrow>
     ('w, pyval \<times> rat \<times> bool \<times> pydict) replay" where
  "execute_container_tool_call env cf tool_name mapped_args exec_timeout mapped_path timeline =
     sbind (read_clock env) (\<lambda>started.
     sbind (slift (case mapped_args of
              PStr s \<Rightarrow> Inr s
            | v \<Rightarrow> if truthy v then Inl (TypeError ''the JSON object must be str'') else Inr [])) (\<lambda>args_text.
     sbind (in_world (execute_trace_tool_detailed (en_request env) tool_name args_text (cf_command_timeout cf)
              exec_timeout (mapped_path \<noteq> None) timeline)) (\<lambda>x.
     sbind (read_clock env) (\<lambda>ended.
     sbind (slift (case tx_inner_duration_ms x of
              PNone \<Rightarrow> Inr ((ended - started) * 1000) | v \<Rightarrow> py_float v)) (\<lambda>duration_ms.
       sret (PStr (py_str (tx_result x)), duration_ms, truthy (tx_ok x), tx_metadata x))))))"

text \<open>What the source recorded of a tool call.\<close>

record source_tool =
  so_name :: pyval
  so_args :: pyval
  so_duration_ms :: rat
  so_success :: bool
  so_result :: pyval
  so_exec_timeout :: "rat option"
  so_replay_timeout :: "rat option"
  so_timeline :: "pydict option"

definition source_tool_result :: "pydict \<Rightarrow> pyval" where
  "source_tool_result data = pget_or data ''tool_result'' (pget_or data ''result'' (PStr []))"

definition source_tool_of :: "rat \<Rightarrow> pydict \<Rightarrow> source_tool res" where
  "source_tool_of replay_speed data =
     (let name = pget data ''tool_name''; args = pget_or data ''tool_args'' (PStr ''{}'');
          result = source_tool_result data in
      rbind (py_float (por (pget data ''duration_ms'') (PFloat 0))) (\<lambda>duration_ms.
      rbind (source_tool_success data) (\<lambda>success.
      rbind (source_exec_timeout_s name args duration_ms success result (pget data ''timed_out'')) (\<lambda>exec_timeout.
      rbind (effective_source_exec_timeout_s exec_timeout replay_speed) (\<lambda>replay_timeout.
        Inr \<lparr>so_name = name, so_args = args, so_duration_ms = duration_ms, so_success = success,
             so_result = result, so_exec_timeout = exec_timeout, so_replay_timeout = replay_timeout,
             so_timeline = valid_resource_timeline (pget data ''resource_timeline'')\<rparr>)))))"

definition exec_timeline_for :: "source_tool \<Rightarrow> pyval \<Rightarrow> pydict option" where
  "exec_timeline_for so mapped_args =
     (if tool_uses_single_exec_command_semantics (so_name so) mapped_args then so_timeline so else None)"

text \<open>A tool call that is replayed from the trace sleeps for its recorded time.\<close>

definition replay_from_trace ::
    "'w replay_env \<Rightarrow> replay_config \<Rightarrow> source_tool \<Rightarrow> string \<Rightarrow> pyval \<Rightarrow> bool \<Rightarrow> pydict \<Rightarrow> string option \<Rightarrow> ('w, tool_run) replay" where
  "replay_from_trace env cf so replay_source result success metadata original =
     sbind (read_clock env) (\<lambda>started.
     sbind (timed_sleep env (so_duration_ms so / 1000 / cf_speed cf) ''tool_trace_replay'') (\<lambda>action_sleep.
     sbind (read_clock env) (\<lambda>ended.
       sret \<lparr>tn_source = replay_source, tn_result = result, tn_success = success,
             tn_duration_ms = (ended - started) * 1000, tn_metadata = metadata,
             tn_action_sleep = action_sleep, tn_original = original, tn_mapped = None, tn_exec_timeline = None\<rparr>)))"

definition run_in_container :: "'w replay_env \<Rightarrow> replay_config \<Rightarrow> source_tool \<Rightarrow> ('w, tool_run) replay" where
  "run_in_container env cf so =
     sbind (slift (container_tool_runtime_args env (so_name so) (so_args so))) (\<lambda>(mapped_args, original, mapped_path, mapped_exists).
       if original \<noteq> None \<and> \<not> mapped_exists then
         sbind (replay_from_trace env cf so ''source_artifact_unavailable''
                  (PStr (artifact_unavailable_result (the original))) False [] original) (\<lambda>r.
           sret (r\<lparr>tn_mapped := mapped_path\<rparr>))
       else
         let timeline = exec_timeline_for so mapped_args in
         sbind (execute_container_tool_call env cf (so_name so) mapped_args (so_replay_timeout so) mapped_path timeline) (\<lambda>(result, duration_ms, success, metadata).
           sret \<lparr>tn_source = (if mapped_path \<noteq> None then ''restored_runtime_artifact'' else ''executed_in_container''),
                 tn_result = result, tn_success = success, tn_duration_ms = duration_ms, tn_metadata = metadata,
                 tn_action_sleep = None, tn_original = original, tn_mapped = mapped_path,
                 tn_exec_timeline = timeline\<rparr>))"

definition run_tool ::
    "'w replay_env \<Rightarrow> replay_config \<Rightarrow> pydict \<Rightarrow> bool \<Rightarrow> source_tool \<Rightarrow> ('w, tool_run) replay" where
  "run_tool env cf data lane so =
     (if lane then replay_from_trace env cf so ''subagent_lane_replay'' (so_result so) (so_success so) [] None
      else if \<not> cf_container cf then
        replay_from_trace env cf so ''skipped_host_mode'' (so_result so) (so_success so) [] None
      else if so_name so = PStr ''message'' then
        replay_from_trace env cf so ''message_noop''
          (if truthy (so_result so) then so_result so else PStr ''Message replayed as no-op'') (so_success so) [] None
      else
        (case so_name so of
           PStr n \<Rightarrow>
             if starts_with ''mcp_'' n \<or> n \<in> container_tool_prefixes then
               replay_from_trace env cf so ''replayed_from_trace'' (pget_or data ''tool_result'' (PStr [])) (so_success so) [] None
             else
               (case denied_exec_command (en_deny env) (so_name so) (so_args so) of
                  Some denied \<Rightarrow>
                    replay_from_trace env cf so ''denied_command_replayed_from_trace'' (so_result so) (so_success so)
                      (dput ''replay_denied_command'' (PStr denied) (source_tool_exec_metadata data)) None
                | None \<Rightarrow> run_in_container env cf so)
         | _ \<Rightarrow> sraise (AttributeError ''startswith'')))"

subsection \<open>Comparison with the source\<close>

definition capture_manifest :: "'w replay_env \<Rightarrow> pydict option \<Rightarrow> ('w, pydict option \<times> err option) replay" where
  "capture_manifest env previous =
     sbind (in_world (\<lambda>w. case en_capture env w of (r, w') \<Rightarrow>
              (Inr (capture_replay_snapshot_manifest_diagnostic r previous), w'))) sret"

text \<open>The comparison at a checkpoint boundary: the flds it adds, whether the manifests differ,
  and whether a subagent lane was active since the last boundary.\<close>

definition compare_at_boundary ::
    "'w replay_env \<Rightarrow> replay_config \<Rightarrow> pydict \<Rightarrow> bool \<Rightarrow> string option \<Rightarrow> ('w, pydict \<times> string option \<times> bool) replay" where
  "compare_at_boundary env cf data lane mismatch_reason =
     (case checkpoint_after_spec (cf_source_parent cf) data of
        Some spec \<Rightarrow>
          if cf_container cf \<and> \<not> lane then
            sbind (sgets rl_lane_active) (\<lambda>lane_active.
            sbind (smod (\<lambda>st. st\<lparr>rl_lane_active := False\<rparr>)) (\<lambda>_.
            sbind (sgets rl_folded) (\<lambda>folded.
            sbind (slift (fold_source_checkpoint_entries (en_host env) spec folded)) (\<lambda>source_ents.
            sbind (smod (\<lambda>st. st\<lparr>rl_folded := source_ents\<rparr>)) (\<lambda>_.
            sbind (sgets rl_prev_manifest) (\<lambda>previous.
            sbind (capture_manifest env previous) (\<lambda>(replay_ents, _).
              case replay_ents of
                None \<Rightarrow> sret ([], mismatch_reason, False)
              | Some replay \<Rightarrow>
                  sbind (slift (cas_manifest_comparison_fields source_ents replay)) (\<lambda>flds.
                  sbind (smod (\<lambda>st. st\<lparr>rl_prev_manifest := Some replay\<rparr>)) (\<lambda>_.
                    if mismatch_reason = None \<and> pget flds ''cas_manifest_match'' \<noteq> PBool True
                    then sret (flds, Some ''cas_state_mismatch'', lane_active)
                    else sret (flds, mismatch_reason, False))))))))))
          else sret ([], mismatch_reason, False)
      | None \<Rightarrow> sret ([], mismatch_reason, False))"

definition none_or_text :: "pyval \<Rightarrow> string" where
  "none_or_text v = (if v = PNone then [] else py_str v)"

definition opt_str :: "string option \<Rightarrow> pyval" where
  "opt_str v = (case v of None \<Rightarrow> PNone | Some s \<Rightarrow> PStr s)"

definition opt_bool :: "bool option \<Rightarrow> pyval" where
  "opt_bool v = (case v of None \<Rightarrow> PNone | Some b \<Rightarrow> PBool b)"

definition opt_int :: "int option \<Rightarrow> pyval" where
  "opt_int v = (case v of None \<Rightarrow> PNone | Some i \<Rightarrow> PInt i)"

definition evidence_dict :: "evidence \<Rightarrow> pydict" where
  "evidence_dict e =
     [(''source_returncode'', opt_int (ev_source_returncode e)), (''replay_returncode'', opt_int (ev_replay_returncode e)),
      (''source_timed_out'', opt_bool (ev_source_timed_out e)), (''replay_timed_out'', opt_bool (ev_replay_timed_out e)),
      (''timeout_mismatch'', PBool (ev_timeout_mismatch e)), (''returncode_mismatch'', opt_bool (ev_returncode_mismatch e)),
      (''normalized_output_match'', opt_bool (ev_normalized_output_match e)),
      (''output_diff_snippet_present'', PBool (ev_output_diff_snippet_present e)),
      (''cas_manifest_match'', opt_bool (ev_cas_manifest_match e)), (''cas_modified_count'', opt_int (ev_cas_modified_count e)),
      (''cas_removed_count'', opt_int (ev_cas_removed_count e)), (''cas_added_count'', opt_int (ev_cas_added_count e)),
      (''mismatch_reason'', opt_str (ev_mismatch_reason e)),
      (''tiers'', PDict (map (\<lambda>(k, d). (k, PDict d)) (ev_tiers e)))]"

definition verdict_fields :: "mismatch_verdict option \<Rightarrow> pydict" where
  "verdict_fields v =
     (case v of
        None \<Rightarrow> []
      | Some v \<Rightarrow>
          [(''oracle_semantic_match'', PBool (mv_semantic_match v)), (''oracle_tier'', PInt (int (mv_tier v))),
           (''oracle_category'', PStr (mv_category v)),
           (''mismatch_oracle'', PDict [(''tier'', PInt (int (mv_tier v))), (''category'', PStr (mv_category v)),
              (''semantic_match'', PBool (mv_semantic_match v)), (''evidence'', PDict (evidence_dict (mv_evidence v)))])])"

definition replay_pair :: "pydict \<Rightarrow> source_tool \<Rightarrow> tool_run \<Rightarrow> tool_pair" where
  "replay_pair data so tn =
     \<lparr>tp_source_success = so_success so, tp_tool_success = tn_success tn, tp_replay_source = tn_source tn,
      tp_source_tool_result = so_result so, tp_replay_tool_result = tn_result tn, tp_tool_name = so_name so,
      tp_tool_args_json = so_args so, tp_source_returncode = pget data ''returncode'',
      tp_replay_returncode = pget (tn_metadata tn) ''returncode'', tp_source_timed_out = pget data ''timed_out'',
      tp_replay_timed_out = pget (tn_metadata tn) ''timed_out''\<rparr>"

definition replay_verdict_args ::
    "pydict \<Rightarrow> tool_run \<Rightarrow> bool option \<Rightarrow> string option \<Rightarrow> pydict \<Rightarrow> string option \<Rightarrow> verdict_args" where
  "replay_verdict_args data tn normalized snippet cas_fields reason =
     \<lparr>va_source_returncode = pget data ''returncode'', va_replay_returncode = pget (tn_metadata tn) ''returncode'',
      va_source_timed_out = pget data ''timed_out'', va_replay_timed_out = pget (tn_metadata tn) ''timed_out'',
      va_normalized_output_match = opt_bool normalized, va_output_diff_snippet = opt_str snippet,
      va_cas_manifest_match = pget cas_fields ''cas_manifest_match'',
      va_cas_modified_count = pget cas_fields ''cas_modified_count'',
      va_cas_removed_count = pget cas_fields ''cas_removed_count'',
      va_cas_added_count = pget cas_fields ''cas_added_count'', va_mismatch_reason = opt_str reason\<rparr>"

subsection \<open>Forced synchronisation\<close>

definition set_sync :: "pydict \<Rightarrow> ('w, unit) replay" where
  "set_sync flds = smod (\<lambda>st. st\<lparr>rl_sync_fields := flds\<rparr>)"

definition update_sync :: "pydict \<Rightarrow> ('w, unit) replay" where
  "update_sync flds = smod (\<lambda>st. st\<lparr>rl_sync_fields := dupdate (rl_sync_fields st) flds\<rparr>)"

definition sync_flag :: "string \<Rightarrow> ('w, bool) replay" where
  "sync_flag k = sgets (\<lambda>st. pget (rl_sync_fields st) k = PBool True)"

definition set_default :: "string \<Rightarrow> pyval \<Rightarrow> pydict \<Rightarrow> pydict" where
  "set_default k v d = (if dget d k = None then dput k v d else d)"

definition forget_manifest :: "('w, unit) replay" where
  "forget_manifest = smod (\<lambda>st. st\<lparr>rl_prev_manifest := None\<rparr>)"

text \<open>The last action before \<open>n\<close> that has a checkpoint.\<close>

fun last_checkpoint :: "string \<Rightarrow> pydict list \<Rightarrow> nat \<Rightarrow> (nat \<times> pydict) option" where
  "last_checkpoint source_parent actions 0 = None"
| "last_checkpoint source_parent actions (Suc n) =
     (case checkpoint_after_spec source_parent (action_data (actions ! n)) of
        Some spec \<Rightarrow> Some (n, spec)
      | None \<Rightarrow> last_checkpoint source_parent actions n)"

text \<open>The tool calls run again after a restore of an earlier checkpoint. The first error ends
  them; the identities of the calls that were started are kept.\<close>

definition reapply_action ::
    "'w replay_env \<Rightarrow> replay_config \<Rightarrow> nat \<Rightarrow> pydict \<Rightarrow> string list \<Rightarrow> ('w, string list \<times> string option) replay" where
  "reapply_action env cf index action ids =
     (let data = action_data action; name = pget data ''tool_name'' in
      if pget action ''action_type'' \<noteq> PStr ''tool_exec'' then sret (ids, None)
      else if \<not> tool_executes_in_container (case name of PStr n \<Rightarrow> Some n | _ \<Rightarrow> None) then sret (ids, None)
      else
        sbind (slift (source_tool_of (cf_speed cf) data)) (\<lambda>so.
        sbind (slift (container_tool_runtime_args env name (so_args so))) (\<lambda>(mapped_args, original, mapped_path, mapped_exists).
          if original \<noteq> None \<and> \<not> mapped_exists then sret (ids, None)
          else
            let action_id = py_str (por (pget action ''action_id'') (PStr (''action-'' @ nat_digits index)));
                denied = (case denied_exec_command (en_deny env) name (so_args so) of Some d \<Rightarrow> d \<noteq> [] | None \<Rightarrow> False) in
            if denied then sret (ids, None)
            else
              scatch (sbind (execute_container_tool_call env cf name mapped_args (so_replay_timeout so) mapped_path
                               (exec_timeline_for so mapped_args)) (\<lambda>_. sret (ids @ [action_id], None)))
                (\<lambda>e. sret (ids @ [action_id], Some (''action_index='' @ nat_digits index @ '' action_id='' @ action_id @ '': '' @ err_text e))))))"

fun reapply_loop ::
    "'w replay_env \<Rightarrow> replay_config \<Rightarrow> (nat \<times> pydict) list \<Rightarrow> string list \<Rightarrow> ('w, string list \<times> string list) replay" where
  "reapply_loop env cf [] ids = sret (ids, [])"
| "reapply_loop env cf ((index, action) # rest) ids =
     sbind (reapply_action env cf index action ids) (\<lambda>(ids', e).
       case e of Some m \<Rightarrow> sret (ids', [m]) | None \<Rightarrow> reapply_loop env cf rest ids')"

definition reapply_forced_sync_actions ::
    "'w replay_env \<Rightarrow> replay_config \<Rightarrow> nat \<Rightarrow> nat \<Rightarrow> ('w, string list \<times> string list) replay" where
  "reapply_forced_sync_actions env cf start_index end_index =
     (if \<not> cf_container cf then sraise (ValueError ''cannot reapply forced-sync actions without a container'')
      else reapply_loop env cf
             (map (\<lambda>i. (i, ls_actions (cf_loaded cf) ! i)) [start_index..<end_index + 1]) [])"

text \<open>The restore of the chain of a checkpoint. A failed restore leaves the tree the host says.\<close>

definition restore_chain ::
    "'w replay_env \<Rightarrow> replay_config \<Rightarrow> nat \<Rightarrow> pydict \<Rightarrow> ('w, pydict) replay" where
  "restore_chain env cf checkpoint_index spec =
     (case checkpoint_chain_specs_for_action (cf_source_parent cf) (ls_actions (cf_loaded cf)) (int checkpoint_index) of
        None \<Rightarrow>
          let path = path_str (py_str (pget spec ''path'')) in
          sret (checkpoint_restore_failed_fields path
            (py_str (por (pget spec ''kind'') (PStr ''cas_manifest_incremental'')))
            (py_str (por (pget spec ''root'') (PStr ''/testbed''))) ''checkpoint_full_missing''
            ''incremental checkpoint has no preceding full checkpoint'' (Some (h_is_file (en_host env) path)) None)
      | Some chain \<Rightarrow>
          in_world (\<lambda>w.
            case restore_checkpoint_chain_to_container (en_host env) (en_size_of env) (en_restore env) chain (en_tree env w) of
              Inl e \<Rightarrow> (Inl e, en_put_tree env None w)
            | Inr (flds, t) \<Rightarrow> (Inr flds, en_put_tree env t w)))"

definition verify_restore ::
    "'w replay_env \<Rightarrow> replay_config \<Rightarrow> nat \<Rightarrow> ('w, pydict \<times> pydict option) replay" where
  "verify_restore env cf target_index =
     sbind (slift (fold_source_checkpoint_entries_through_action (en_host env) (cf_source_parent cf)
              (ls_actions (cf_loaded cf)) (int target_index))) (\<lambda>source_ents.
     sbind (in_world (\<lambda>w. case en_capture env w of (r, w') \<Rightarrow> (verify_forced_sync_restore_state r source_ents, w')))
       sret)"

text \<open>After the restore of an earlier checkpoint: verify it and run the later calls again. The
  result says whether the state can no longer be verified.\<close>

definition reapply_after_fallback ::
    "'w replay_env \<Rightarrow> replay_config \<Rightarrow> nat \<Rightarrow> nat \<Rightarrow> nat \<Rightarrow> ('w, bool) replay" where
  "reapply_after_fallback env cf checkpoint_index start_index action_index =
     sbind (verify_restore env cf checkpoint_index) (\<lambda>(verification, _).
     sbind (update_sync [(''forced_sync_restore_verified'', pget verification ''forced_sync_verified''),
                         (''forced_sync_restore_verification'', pget verification ''forced_sync_verification'')]) (\<lambda>_.
     sbind (reapply_forced_sync_actions env cf start_index action_index) (\<lambda>(ids, errors).
     sbind (update_sync [(''forced_sync_reapplied_action_count'', PInt (int (length ids))),
                         (''forced_sync_reapplied_action_ids'', PList (map PStr ids)),
                         (''forced_sync_reapply_errors'', PList (map PStr errors))]) (\<lambda>_.
       let skip = 0 < length ids in
       if errors \<noteq> [] then
         sbind (update_sync [(''forced_sync_success'', PBool False), (''forced_sync_resolved'', PBool False),
                             (''forced_sync_continued'', PBool False), (''forced_sync_status'', PStr ''reapply_failed''),
                             (''forced_sync_error'', PStr (join ''; '' errors))]) (\<lambda>_. sret skip)
       else if skip then
         sbind forget_manifest (\<lambda>_.
         sbind (update_sync [(''forced_sync_verified'', PNone),
                             (''forced_sync_verify_reason'', PStr ''reapplied_actions_unverifiable''),
                             (''forced_sync_verification'', PDict
                               [(''restore_verified'', pget verification ''forced_sync_verified''),
                                (''restore_verification'', pget verification ''forced_sync_verification''),
                                (''reason'', PStr ''reapplied_actions_unverifiable'')])]) (\<lambda>_. sret skip))
       else sbind (update_sync verification) (\<lambda>_. sret skip)))))"

definition verify_after_restore :: "'w replay_env \<Rightarrow> replay_config \<Rightarrow> nat \<Rightarrow> ('w, unit) replay" where
  "verify_after_restore env cf action_index =
     scatch
       (sbind (verify_restore env cf action_index) (\<lambda>(verification, replay_ents).
          case replay_ents of
            None \<Rightarrow> sbind forget_manifest (\<lambda>_. update_sync verification)
          | Some replay \<Rightarrow>
              sbind (smod (\<lambda>st. st\<lparr>rl_prev_manifest := Some replay\<rparr>)) (\<lambda>_.
              sbind (update_sync verification) (\<lambda>_.
                swhen (\<not> (case pget verification ''forced_sync_verification'' of
                         PDict d \<Rightarrow> truthy (pget d ''cas_manifest_match'') | _ \<Rightarrow> False))
                  (update_sync [(''forced_sync_success'', PBool False), (''forced_sync_continued'', PBool False),
                                (''forced_sync_status'', PStr ''verification_failed'')])))))
       (\<lambda>e. sbind forget_manifest (\<lambda>_.
          update_sync (forced_sync_verification_unavailable_fields (Some (err_text e)))))"

definition restore_and_verify ::
    "'w replay_env \<Rightarrow> replay_config \<Rightarrow> nat \<Rightarrow> nat \<Rightarrow> pydict \<Rightarrow> nat option \<Rightarrow> ('w, unit) replay" where
  "restore_and_verify env cf action_index checkpoint_index spec reapply_start =
     sbind (restore_chain env cf checkpoint_index spec) (\<lambda>restore_result.
     sbind (update_sync restore_result) (\<lambda>_.
     sbind (sync_flag ''forced_sync_success'') (\<lambda>restored.
     sbind (swhen restored forget_manifest) (\<lambda>_.
     sbind (case reapply_start of
              Some start_index \<Rightarrow>
                if restored then reapply_after_fallback env cf checkpoint_index start_index action_index else sret False
            | None \<Rightarrow> sret False) (\<lambda>skip.
     sbind (sync_flag ''forced_sync_success'') (\<lambda>ok.
       swhen (ok \<and> \<not> skip) (verify_after_restore env cf action_index)))))))"

text \<open>The fields that are set whatever happened.\<close>

definition finish_sync :: "rat \<Rightarrow> pydict \<Rightarrow> pydict" where
  "finish_sync elapsed_ms flds =
     (let success = (pget flds ''forced_sync_success'' = PBool True);
          f1 = dput ''forced_sync_resolved'' (PBool False) (set_default ''forced_sync_success'' (PBool False) flds);
          f2 = set_default ''forced_sync_status''
                 (PStr (if success then ''checkpoint_restored_continuation'' else ''checkpoint_restore_failed'')) f1;
          f3 = set_default ''forced_sync_continued''
                 (PBool (success \<and> pget f2 ''forced_sync_status'' = PStr ''checkpoint_restored_continuation'')) f2
      in dput ''forced_sync_elapsed_ms'' (PFloat (round_to 3 elapsed_ms)) f3)"

definition synchronise ::
    "'w replay_env \<Rightarrow> replay_config \<Rightarrow> nat \<Rightarrow> nat \<Rightarrow> pydict \<Rightarrow> nat option \<Rightarrow> ('w, unit) replay" where
  "synchronise env cf action_index checkpoint_index spec reapply_start =
     sbind (read_clock env) (\<lambda>started.
     sbind (scatch (restore_and_verify env cf action_index checkpoint_index spec reapply_start)
             (\<lambda>e. update_sync [(''forced_sync_success'', PBool False), (''forced_sync_resolved'', PBool False),
                               (''forced_sync_continued'', PBool False),
                               (''forced_sync_status'', PStr ''checkpoint_restore_failed''),
                               (''forced_sync_error'', PStr (err_text e))])) (\<lambda>_.
     sbind (read_clock env) (\<lambda>ended.
       smod (\<lambda>st. st\<lparr>rl_sync_fields := finish_sync ((ended - started) * 1000) (rl_sync_fields st)\<rparr>))))"

definition forced_sync ::
    "'w replay_env \<Rightarrow> replay_config \<Rightarrow> nat \<Rightarrow> pydict \<Rightarrow> bool \<Rightarrow> string option \<Rightarrow> bool \<Rightarrow> ('w, unit) replay" where
  "forced_sync env cf action_index data lane reason lane_induced =
     sbind (set_sync []) (\<lambda>_.
     case reason of
       None \<Rightarrow> sret ()
     | Some r \<Rightarrow>
         if \<not> cf_container cf \<or> lane then sret ()
         else
           let actions = ls_actions (cf_loaded cf);
               mark = swhen lane_induced (update_sync [(''lane_induced_mismatch_candidate'', PBool True)]) in
           case checkpoint_after_spec (cf_source_parent cf) data of
             Some spec \<Rightarrow>
               sbind (set_sync [(''forced_sync_attempted'', PBool True), (''forced_sync_reason'', PStr r),
                                (''forced_sync_overhead_excluded'', PBool True)]) (\<lambda>_.
               sbind mark (\<lambda>_. synchronise env cf action_index action_index spec None))
           | None \<Rightarrow>
               (case last_checkpoint (cf_source_parent cf) actions action_index of
                  None \<Rightarrow>
                    sbind (set_sync [(''forced_sync_attempted'', PBool True), (''forced_sync_success'', PBool False),
                        (''forced_sync_resolved'', PBool False), (''forced_sync_continued'', PBool False),
                        (''forced_sync_reason'', PStr r), (''forced_sync_status'', PStr ''checkpoint_missing''),
                        (''forced_sync_error'', PStr ''no checkpoint available (searched entire trace history)'')]) (\<lambda>_.
                      mark)
                | Some (i, spec) \<Rightarrow>
                    sbind (set_sync [(''forced_sync_attempted'', PBool True), (''forced_sync_reason'', PStr r),
                        (''forced_sync_overhead_excluded'', PBool True), (''forced_sync_fallback'', PBool True),
                        (''forced_sync_fallback_from_action_index'', PInt (int i)),
                        (''forced_sync_fallback_from_action_id'', PStr (py_str (pget_or (actions ! i) ''action_id'' (PStr []))))]) (\<lambda>_.
                    sbind mark (\<lambda>_. synchronise env cf action_index i spec (Some (i + 1))))))"

subsection \<open>The record of a tool call\<close>

definition int_field :: "string \<Rightarrow> pyval \<Rightarrow> pydict" where
  "int_field k v = (case v of PInt i \<Rightarrow> [(k, PInt i)] | _ \<Rightarrow> [])"

definition bool_field :: "string \<Rightarrow> pyval \<Rightarrow> pydict" where
  "bool_field k v = (case v of PBool b \<Rightarrow> [(k, PBool b)] | _ \<Rightarrow> [])"

definition opt_field :: "string \<Rightarrow> pyval option \<Rightarrow> pydict" where
  "opt_field k v = (case v of Some x \<Rightarrow> [(k, x)] | None \<Rightarrow> [])"

definition trace_formats :: "string set" where
  "trace_formats = {''skipped_host_mode'', ''message_noop'', ''replayed_from_trace'', ''denied_command_replayed_from_trace'',
     ''source_artifact_unavailable'', ''restored_runtime_artifact'', ''subagent_lane_replay''}"

definition extra_tool_fields ::
    "replay_config \<Rightarrow> pydict \<Rightarrow> pydict \<Rightarrow> source_tool \<Rightarrow> tool_run \<Rightarrow> pydict \<Rightarrow> mismatch_verdict option \<Rightarrow> string option \<Rightarrow>
     bool option \<Rightarrow> string option \<Rightarrow> pydict \<Rightarrow> pydict \<Rightarrow> bool \<Rightarrow> pydict res" where
  "extra_tool_fields cf action data so tn command_fields v snippet normalized reason cas_fields sync_fields lane =
     (if tool_uses_exec_semantics (so_name so) (so_args so) \<and> normalized = None then Inl (AssertionError [])
      else Inr (
        dupdate (dupdate (dupdate (dupdate
          (dput ''source_action_id'' (PStr (py_str (pget_or action ''action_id'' (PStr [])))) command_fields)
          (int_field ''source_returncode'' (pget data ''returncode'')
           @ int_field ''replay_returncode'' (pget (tn_metadata tn) ''returncode'')
           @ bool_field ''source_timed_out'' (pget data ''timed_out'')
           @ bool_field ''replay_timed_out'' (pget (tn_metadata tn) ''timed_out'')
           @ verdict_fields v
           @ opt_field ''output_diff_snippet'' (map_option PStr snippet)
           @ (if tool_uses_exec_semantics (so_name so) (so_args so)
              then [(''replay_env_parity'', cf_exec_env_parity cf), (''normalized_output_match'', opt_bool normalized)] else [])
           @ opt_field ''source_artifact_path'' (map_option PStr (tn_original tn))
           @ opt_field ''simulator_artifact_path'' (map_option PStr (tn_mapped tn))
           @ opt_field ''mismatch_reason'' (map_option PStr reason)))
          (tn_metadata tn)) (cas_fields)) (sync_fields
          @ (case so_exec_timeout so of
               None \<Rightarrow> []
             | Some t \<Rightarrow> [(''source_exec_timeout_s'', PFloat t),
                         (''replay_exec_timeout_s'', case so_replay_timeout so of Some r \<Rightarrow> PFloat r | None \<Rightarrow> PNone)])
          @ (case so_timeline so of
               None \<Rightarrow> []
             | Some t \<Rightarrow> [(''source_resource_timeline'', PDict t),
                         (''resource_timeout_policy'',
                          PStr (if tn_exec_timeline tn \<noteq> None then ''resource_integrated'' else ''wall_clock''))])
          @ (if lane then [(''source_lane_agent_id'', PStr (source_action_agent_id action))] else []))))"

definition sim_metrics_of ::
    "replay_config \<Rightarrow> pydict \<Rightarrow> int \<Rightarrow> tool_run \<Rightarrow> sleep_drift option \<Rightarrow> pydict" where
  "sim_metrics_of cf data it tn source_gap =
     [(''warmup'', PBool (it < cf_warmup cf)), (''source'', PStr (tn_source tn)),
      (''sim_tool_format'', PStr (if tn_source tn \<in> trace_formats then tn_source tn else ''container_exec''))]
     @ sleep_drift_metrics source_gap (tn_action_sleep tn)
     @ (if pget data ''source_concurrent_execs'' = PBool True then [(''concurrent_source_execs'', PBool True)] else [])"

definition tool_record_data ::
    "replay_config \<Rightarrow> source_tool \<Rightarrow> tool_run \<Rightarrow> bool \<Rightarrow> pydict \<Rightarrow> pydict \<Rightarrow> pydict" where
  "tool_record_data cf so tn outcome_match extra sim_metrics =
     dupdate
       [(''tool_name'', so_name so), (''tool_args'', so_args so), (''tool_result'', tn_result tn),
        (''duration_ms'', PFloat (tn_duration_ms tn)), (''success'', PBool (tn_success tn)),
        (''source_success'', PBool (so_success so)), (''replay_outcome_match'', PBool outcome_match)]
       (extra
        @ [(''simulate_source'', PStr (ls_source_trace (cf_loaded cf))), (''source_duration_ms'', PFloat (so_duration_ms so)),
           (''replay_mode'', PStr ''cloud_model''), (''replay_speed'', PFloat (cf_speed cf)),
           (''replay_source'', PStr (tn_source tn)), (''sim_metrics'', PDict sim_metrics)])"

text \<open>The counters after the record of a tool call is logged. A failure of the replay that
  matches a failure of the source was counted before and counts neither as a success nor as a
  mismatch.\<close>

definition count_outcome :: "bool \<Rightarrow> bool \<Rightarrow> string \<Rightarrow> 'w loop_state \<Rightarrow> 'w loop_state" where
  "count_outcome outcome_match tool_success replay_source st =
     (let flag = (\<lambda>k. pget (rl_sync_fields st) k = PBool True);
          n = (\<lambda>b. if b then 1 else 0 :: nat);
          continued = flag ''forced_sync_continued'' in
      st\<lparr>rl_sync_attempts := rl_sync_attempts st + n (flag ''forced_sync_attempted''),
         rl_sync_actions := rl_sync_actions st + n (flag ''forced_sync_success''),
         rl_sync_successes := rl_sync_successes st + n (flag ''forced_sync_success''),
         rl_sync_continued := rl_sync_continued st + n continued,
         rl_succeeded := rl_succeeded st + n (outcome_match \<and> tool_success),
         rl_mismatches := rl_mismatches st + n (\<not> outcome_match),
         rl_unresolved := rl_unresolved st + n (\<not> outcome_match \<and> \<not> continued),
         rl_fatal := rl_fatal st + n (\<not> outcome_match \<and> replay_source = ''source_artifact_unavailable'')\<rparr>)"

subsection \<open>One action\<close>

definition replay_tool_exec ::
    "'w replay_env \<Rightarrow> replay_config \<Rightarrow> nat \<Rightarrow> pydict \<Rightarrow> pydict \<Rightarrow> int \<Rightarrow> bool \<Rightarrow> sleep_drift option \<Rightarrow> ('w, unit) replay" where
  "replay_tool_exec env cf action_index action data it lane source_gap =
     (let s = cf_loaded cf in
      sbind (read_clock env) (\<lambda>ts_start.
      sbind (slift (source_tool_of (cf_speed cf) data)) (\<lambda>so.
      sbind (swhen (\<not> so_success so) (smod (\<lambda>st. st\<lparr>rl_source_failed := rl_source_failed st + 1\<rparr>))) (\<lambda>_.
      sbind (run_tool env cf data lane so) (\<lambda>tn.
      sbind (swhen (\<not> tn_success tn) (smod (\<lambda>st. st\<lparr>rl_replay_failed := rl_replay_failed st + 1\<rparr>))) (\<lambda>_.
      sbind (slift (tool_mismatch_reason (replay_pair data so tn))) (\<lambda>mismatch_reason.
      let normalized = exec_normalized_output_match (en_norm env) (so_name so) (so_args so) (so_result so) (tn_result tn) in
      sbind (read_clock env) (\<lambda>ts_end.
      sbind (compare_at_boundary env cf data lane mismatch_reason) (\<lambda>(cas_fields, reason, lane_induced).
      let outcome_match = (mismatch_reason = None);
          snippet = (if reason \<noteq> None \<or> normalized = Some False
            then compute_output_diff_snippet 5 1 240 (none_or_text (so_result so)) (none_or_text (tn_result tn)) else None) in
      sbind (slift (verdict (replay_verdict_args data tn normalized snippet cas_fields reason))) (\<lambda>v.
      sbind (swhen (\<not> tn_success tn \<and> outcome_match) (smod (\<lambda>st. st\<lparr>rl_matched_failed := rl_matched_failed st + 1\<rparr>))) (\<lambda>_.
      sbind (forced_sync env cf action_index data lane reason lane_induced) (\<lambda>_.
      sbind (slift (command_metadata (so_name so) (so_args so) (py_str (tn_result tn)) (tn_success tn)
                      (pget (tn_metadata tn) ''returncode''))) (\<lambda>command_fields.
      sbind (sgets rl_sync_fields) (\<lambda>sync_fields.
      sbind (slift (extra_tool_fields cf action data so tn command_fields v snippet normalized reason cas_fields sync_fields lane)) (\<lambda>extra.
      sbind (log_record (make_trace_action s ''tool_exec''
               (replay_action_id (ls_source_agent_id s) (''tool_'' @ int_str it @ ''_'' @ py_str (so_name so)) action) it ts_start ts_end
               (tool_record_data cf so tn outcome_match extra (sim_metrics_of cf data it tn source_gap)))) (\<lambda>_.
        smod (count_outcome outcome_match (tn_success tn) (tn_source tn))))))))))))))))))"

definition data_of_action :: "pydict \<Rightarrow> pydict res" where
  "data_of_action action =
     (case pget_or action ''data'' (PDict []) of PDict d \<Rightarrow> Inr d | _ \<Rightarrow> Inl (AttributeError ''get''))"

text \<open>The body of the \<open>try\<close>: an action of another type, or a tool call without a name, is
  skipped. The data of an action that is not a dictionary is an error.\<close>

definition replay_body ::
    "'w replay_env \<Rightarrow> replay_config \<Rightarrow> nat \<Rightarrow> pydict \<Rightarrow> int \<Rightarrow> rat \<Rightarrow> bool \<Rightarrow> sleep_drift option \<Rightarrow> ('w, unit) replay" where
  "replay_body env cf action_index action it source_duration_s lane source_gap =
     (let action_type = py_str (pget_or action ''action_type'' (PStr [])) in
      if action_type = ''llm_call'' then
        sbind (slift (data_of_action action)) (\<lambda>data.
          replay_llm_call env cf action data it source_duration_s source_gap)
      else if action_type \<noteq> ''tool_exec'' then sret ()
      else
        sbind (slift (data_of_action action)) (\<lambda>data.
          if \<not> truthy (pget data ''tool_name'') then sret ()
          else replay_tool_exec env cf action_index action data it lane source_gap))"

text \<open>What precedes the \<open>try\<close> of an action: an error here ends the replay.\<close>

definition replay_action :: "'w replay_env \<Rightarrow> replay_config \<Rightarrow> nat \<times> pydict \<Rightarrow> ('w, unit) replay" where
  "replay_action env cf p =
     (let (action_index, action) = p;
          lane = is_subagent_lane_action (ls_source_agent_id (cf_loaded cf)) action in
      sbind (slift (py_int (pget_or action ''iteration'' (PInt 0)))) (\<lambda>it.
      sbind (swhen lane (smod (\<lambda>st. st\<lparr>rl_lane_active := True\<rparr>))) (\<lambda>_.
      sbind (slift (coerce_timestamp (pget action ''ts_start''))) (\<lambda>ts_start.
      sbind (slift (coerce_timestamp (pget action ''ts_end''))) (\<lambda>ts_end.
      sbind (sgets rl_prev_end) (\<lambda>previous.
      sbind (case previous of
               None \<Rightarrow> sret None
             | Some e \<Rightarrow> timed_sleep env (max 0 (ts_start - e) / cf_speed cf) ''source_gap'') (\<lambda>source_gap.
      let source_end = ts_end + source_action_excluded_overhead_s action in
      sbind (smod (\<lambda>st. st\<lparr>rl_prev_end := Some (case previous of None \<Rightarrow> source_end | Some e \<Rightarrow> max source_end e)\<rparr>)) (\<lambda>_.
        scatch (replay_body env cf action_index action it (max 0 (ts_end - ts_start)) lane source_gap)
          (\<lambda>e. smod (\<lambda>st. st\<lparr>rl_action_errors := rl_action_errors st + 1\<rparr>))))))))))"

subsection \<open>The session\<close>

definition initial_loop_state :: "'w \<Rightarrow> 'w loop_state" where
  "initial_loop_state w =
     \<lparr>rl_world = w, rl_prev_manifest = None, rl_folded = [], rl_lane_active = False, rl_prev_end = None,
      rl_drifts = [], rl_sync_fields = [], rl_source_failed = 0, rl_replay_failed = 0, rl_matched_failed = 0,
      rl_records = [], rl_succeeded = 0, rl_mismatches = 0, rl_unresolved = 0, rl_action_errors = 0, rl_fatal = 0,
      rl_sync_actions = 0, rl_sync_attempts = 0, rl_sync_successes = 0, rl_sync_continued = 0\<rparr>"

definition failed_actions :: "'w loop_state \<Rightarrow> nat" where
  "failed_actions st = rl_mismatches st + rl_action_errors st"

definition replay_success :: "'w loop_state \<Rightarrow> bool" where
  "replay_success st \<longleftrightarrow> failed_actions st = 0 \<and> rl_fatal st = 0"

definition summary_extra :: "replay_config \<Rightarrow> 'w loop_state \<Rightarrow> pydict res" where
  "summary_extra cf st =
     rbind (summarize_sleep_drifts (rl_drifts st)) (\<lambda>drift.
       let n = (\<lambda>k. PInt (int k)) in
       Inr [(''replay_mode'', PStr ''cloud_model''), (''replay_speed'', PFloat (cf_speed cf)),
            (''llm_timing_mode'', PStr (lt_mode (cf_timing cf))), (''replay_env_parity'', PStr (cf_task_env_parity cf)),
            (''succeeded_actions'', n (rl_succeeded st)), (''failed_actions'', n (failed_actions st)),
            (''source_failed_actions'', n (rl_source_failed st)), (''replay_failed_actions'', n (rl_replay_failed st)),
            (''matched_failed_actions'', n (rl_matched_failed st)), (''fatal_replay_errors'', n (rl_fatal st)),
            (''replay_action_errors'', n (rl_action_errors st)), (''forced_sync_actions'', n (rl_sync_actions st)),
            (''forced_sync_attempts'', n (rl_sync_attempts st)), (''forced_sync_successes'', n (rl_sync_successes st)),
            (''forced_sync_continued'', n (rl_sync_continued st)), (''outcome_mismatches'', n (rl_mismatches st)),
            (''unresolved_mismatches'', n (rl_unresolved st)), (''sleep_drift'', PDict drift)])"

definition replay_actions :: "'w replay_env \<Rightarrow> replay_config \<Rightarrow> ('w, unit) replay" where
  "replay_actions env cf =
     (let actions = ls_actions (cf_loaded cf) in
      sfor (replay_action env cf) (zip [0..<length actions] actions))"

definition replay_cloud_model_session ::
    "'w replay_env \<Rightarrow> replay_config \<Rightarrow> 'w \<Rightarrow> (pydict \<times> replay_task_stats \<times> 'w loop_state) res" where
  "replay_cloud_model_session env cf w =
     (let s = cf_loaded cf; wall_start = en_now env w in
      case replay_actions env cf (initial_loop_state w) of
        (Inl e, st) \<Rightarrow> Inl e
      | (Inr _, st) \<Rightarrow>
          let elapsed_s = en_now env (rl_world st) - wall_start; ok = replay_success st in
          rbind (summary_extra cf st) (\<lambda>extra.
          rbind (make_trace_summary s ok elapsed_s (source_model s) extra) (\<lambda>summary.
            Inr (summary, make_task_stats s ok elapsed_s (failed_actions st) (cf_task_env_parity cf) None, st))))"

subsection \<open>Lemmas: what precedes the record\<close>

text \<open>The part of the state that only the end of an action changes.\<close>

definition outcome_view ::
    "'w loop_state \<Rightarrow> trace_action list \<times> nat \<times> nat \<times> nat \<times> nat \<times> nat \<times> nat \<times> nat \<times> nat \<times> nat" where
  "outcome_view st = (rl_records st, rl_succeeded st, rl_mismatches st, rl_unresolved st, rl_action_errors st, rl_fatal st,
     rl_sync_actions st, rl_sync_attempts st, rl_sync_successes st, rl_sync_continued st)"

lemma preserves_case_pyval [keeps]:
  "preserves f a \<Longrightarrow> (\<And>x. preserves f (b x)) \<Longrightarrow> (\<And>x. preserves f (c x)) \<Longrightarrow> (\<And>x. preserves f (d x)) \<Longrightarrow>
   (\<And>x. preserves f (e x)) \<Longrightarrow> (\<And>x. preserves f (g x)) \<Longrightarrow> (\<And>x. preserves f (h x)) \<Longrightarrow>
   preserves f (case v of PNone \<Rightarrow> a | PBool x \<Rightarrow> b x | PInt x \<Rightarrow> c x | PFloat x \<Rightarrow> d x | PStr x \<Rightarrow> e x
     | PList x \<Rightarrow> g x | PDict x \<Rightarrow> h x)"
  by (cases v) simp_all

lemma preserves_read_clock [keeps]: "preserves f (read_clock env)"
  unfolding read_clock_def by (intro keeps)

lemma preserves_in_world [keeps]: "preserves outcome_view (in_world m)"
  unfolding in_world_def by (intro keeps) (simp add: outcome_view_def)

lemma preserves_timed_sleep [keeps]: "preserves outcome_view (timed_sleep env e p)"
  unfolding timed_sleep_def by (intro keeps) (simp_all add: outcome_view_def)

lemma preserves_execute [keeps]:
  "preserves outcome_view (execute_container_tool_call env cf n args t m timeline)"
  unfolding execute_container_tool_call_def by (intro keeps)

lemma preserves_from_trace [keeps]: "preserves outcome_view (replay_from_trace env cf so rs r su md orig)"
  unfolding replay_from_trace_def by (intro keeps)

lemma preserves_run_tool [keeps]: "preserves outcome_view (run_tool env cf data lane so)"
  unfolding run_tool_def run_in_container_def by (intro keeps)

lemma preserves_capture [keeps]: "preserves outcome_view (capture_manifest env prev)"
  unfolding capture_manifest_def by (intro keeps)

lemma preserves_compare [keeps]: "preserves outcome_view (compare_at_boundary env cf data lane r)"
  unfolding compare_at_boundary_def by (intro keeps) (simp_all add: outcome_view_def)

lemma preserves_sync_ops [keeps]:
  "preserves outcome_view (set_sync d)" "preserves outcome_view (update_sync d)"
  "preserves outcome_view forget_manifest" "preserves outcome_view (sync_flag k)"
  unfolding set_sync_def update_sync_def forget_manifest_def sync_flag_def
  by (intro keeps; simp add: outcome_view_def)+

lemma preserves_reapply_action [keeps]: "preserves outcome_view (reapply_action env cf i a ids)"
  unfolding reapply_action_def by (intro keeps)

lemma preserves_reapply_loop [keeps]: "preserves outcome_view (reapply_loop env cf as ids)"
proof (induction as arbitrary: ids)
  case (Cons p as)
  then show ?case by (cases p) (auto intro!: keeps)
qed (auto intro: keeps)

lemma preserves_reapply [keeps]: "preserves outcome_view (reapply_forced_sync_actions env cf i j)"
  unfolding reapply_forced_sync_actions_def by (intro keeps)

lemma preserves_restore_verify [keeps]: "preserves outcome_view (restore_and_verify env cf i j spec k)"
  unfolding restore_and_verify_def restore_chain_def reapply_after_fallback_def verify_restore_def verify_after_restore_def
  by (intro keeps) (simp_all add: outcome_view_def)

lemma preserves_forced_sync [keeps]: "preserves outcome_view (forced_sync env cf i data lane r li)"
  unfolding forced_sync_def synchronise_def Let_def by (intro keeps) (simp_all add: outcome_view_def)

subsection \<open>Lemmas: an action is logged once\<close>

text \<open>How a computation that ends with a record changes the view: not at all when it raises.\<close>

definition logs_once :: "('w, unit) replay \<Rightarrow> bool" where
  "logs_once m \<longleftrightarrow> (\<forall>st. case m st of
     (Inl e, st') \<Rightarrow> outcome_view st' = outcome_view st
   | (Inr _, st') \<Rightarrow>
       length (rl_records st') = length (rl_records st) + 1 \<and> rl_action_errors st' = rl_action_errors st \<and>
       rl_succeeded st' + rl_mismatches st' \<le> rl_succeeded st + rl_mismatches st + 1 \<and>
       rl_mismatches st \<le> rl_mismatches st' \<and> rl_succeeded st \<le> rl_succeeded st' \<and>
       rl_unresolved st' + rl_mismatches st \<le> rl_unresolved st + rl_mismatches st' \<and>
       rl_fatal st' + rl_mismatches st \<le> rl_fatal st + rl_mismatches st' \<and>
       rl_mismatches st' + rl_unresolved st + rl_sync_continued st
         \<le> rl_mismatches st + rl_unresolved st' + rl_sync_continued st')"

lemma logs_once_sbind:
  assumes "preserves outcome_view m" "\<And>x. logs_once (g x)"
  shows "logs_once (sbind m g)"
  unfolding logs_once_def
proof
  fix st
  obtain r st1 where m: "m st = (r, st1)" by force
  have v: "outcome_view st1 = outcome_view st" using preservesD [OF assms(1) m] .
  show "case sbind m g st of
     (Inl e, st') \<Rightarrow> outcome_view st' = outcome_view st
   | (Inr _, st') \<Rightarrow>
       length (rl_records st') = length (rl_records st) + 1 \<and> rl_action_errors st' = rl_action_errors st \<and>
       rl_succeeded st' + rl_mismatches st' \<le> rl_succeeded st + rl_mismatches st + 1 \<and>
       rl_mismatches st \<le> rl_mismatches st' \<and> rl_succeeded st \<le> rl_succeeded st' \<and>
       rl_unresolved st' + rl_mismatches st \<le> rl_unresolved st + rl_mismatches st' \<and>
       rl_fatal st' + rl_mismatches st \<le> rl_fatal st + rl_mismatches st' \<and>
       rl_mismatches st' + rl_unresolved st + rl_sync_continued st
         \<le> rl_mismatches st + rl_unresolved st' + rl_sync_continued st'"
  proof (cases r)
    case (Inr x)
    then show ?thesis
      using assms(2) [of x, unfolded logs_once_def, rule_format, of st1] m v
      by (auto simp: sbind_def outcome_view_def split: prod.splits sum.splits)
  qed (simp add: sbind_def m v)
qed

lemma logs_once_Let: "(\<And>x. logs_once (g x)) \<Longrightarrow> logs_once (let x = v in g x)"
  by simp

lemma logs_once_case_prod: "(\<And>x y. logs_once (g x y)) \<Longrightarrow> logs_once (case p of (x, y) \<Rightarrow> g x y)"
  by (cases p) simp

lemma logs_once_count: "logs_once (sbind (log_record r) (\<lambda>_. smod (count_outcome om ok src)))"
  by (auto simp: logs_once_def log_record_def sm_defs count_outcome_def Let_def)

lemma logs_once_llm: "logs_once (sbind (log_record r) (\<lambda>_. smod (\<lambda>st. st\<lparr>rl_succeeded := rl_succeeded st + 1\<rparr>)))"
  by (auto simp: logs_once_def log_record_def sm_defs)

lemma preserves_counter_updates [keeps]:
  "preserves outcome_view (swhen b (smod (\<lambda>st. st\<lparr>rl_source_failed := rl_source_failed st + 1\<rparr>)))"
  "preserves outcome_view (swhen b (smod (\<lambda>st. st\<lparr>rl_replay_failed := rl_replay_failed st + 1\<rparr>)))"
  "preserves outcome_view (swhen b (smod (\<lambda>st. st\<lparr>rl_matched_failed := rl_matched_failed st + 1\<rparr>)))"
  by (intro keeps; simp add: outcome_view_def)+

lemma logs_once_tool: "logs_once (replay_tool_exec env cf i a d it lane g)"
  unfolding replay_tool_exec_def
  by (intro logs_once_count logs_once_Let logs_once_case_prod logs_once_sbind keeps)

lemma logs_once_llm_call: "logs_once (replay_llm_call env cf a d it dur g)"
  unfolding replay_llm_call_def
  by (intro logs_once_llm logs_once_Let logs_once_case_prod logs_once_sbind keeps)

text \<open>An action that the loop skips: of another type, or a tool call without a name.\<close>

definition skipped_action :: "pydict \<Rightarrow> bool" where
  "skipped_action a \<longleftrightarrow>
     (let t = py_str (pget_or a ''action_type'' (PStr [])) in
      t \<noteq> ''llm_call'' \<and>
      (t \<noteq> ''tool_exec'' \<or> (case data_of_action a of Inr d \<Rightarrow> \<not> truthy (pget d ''tool_name'') | Inl _ \<Rightarrow> False)))"

lemma replay_body_skipped: "skipped_action a \<Longrightarrow> replay_body env cf i a it dur lane g st = (Inr (), st)"
  by (auto simp: skipped_action_def replay_body_def Let_def sm_defs split: sum.splits if_splits)

lemma replay_body_logs:
  assumes "\<not> skipped_action a"
  shows "logs_once (replay_body env cf i a it dur lane g)"
proof (cases "data_of_action a")
  case (Inl e)
  then have "replay_body env cf i a it dur lane g = sraise e"
    using assms by (auto simp: skipped_action_def replay_body_def Let_def sm_defs fun_eq_iff)
  then show ?thesis by (simp add: logs_once_def sraise_def)
next
  case (Inr d)
  then have "replay_body env cf i a it dur lane g = replay_llm_call env cf a d it dur g \<or>
      replay_body env cf i a it dur lane g = replay_tool_exec env cf i a d it lane g"
    using assms by (auto simp: skipped_action_def replay_body_def Let_def sm_defs fun_eq_iff)
  then show ?thesis using logs_once_tool logs_once_llm_call by metis
qed

text \<open>The counters agree with the \<open>n\<close> actions seen, of which \<open>k\<close> were skipped.\<close>

definition accounted :: "'w loop_state \<Rightarrow> nat \<Rightarrow> nat \<Rightarrow> bool" where
  "accounted st n k \<longleftrightarrow>
     length (rl_records st) + rl_action_errors st + k = n \<and>
     rl_succeeded st + rl_mismatches st \<le> length (rl_records st) \<and>
     rl_unresolved st \<le> rl_mismatches st \<and> rl_fatal st \<le> rl_mismatches st \<and>
     rl_mismatches st \<le> rl_unresolved st + rl_sync_continued st"

definition keeps_account :: "pydict \<Rightarrow> ('w, unit) replay \<Rightarrow> bool" where
  "keeps_account a m \<longleftrightarrow> (\<forall>st st' n k. m st = (Inr (), st') \<longrightarrow> accounted st n k \<longrightarrow>
     accounted st' (n + 1) (k + (if skipped_action a then 1 else 0)))"

lemma accounted_view: "outcome_view st = outcome_view st' \<Longrightarrow> accounted st n k = accounted st' n k"
  by (simp add: outcome_view_def accounted_def)

lemma keeps_account_sbind:
  assumes "preserves outcome_view m" "\<And>x. keeps_account a (g x)"
  shows "keeps_account a (sbind m g)"
  unfolding keeps_account_def
proof (intro allI impI)
  fix st st' n k
  assume run: "sbind m g st = (Inr (), st')" and ok: "accounted st n k"
  then obtain x st1 where m: "m st = (Inr x, st1)" and g: "g x st1 = (Inr (), st')"
    by (auto simp: sbind_Inr)
  have "accounted st1 n k" using accounted_view [OF preservesD [OF assms(1) m]] ok by simp
  then show "accounted st' (n + 1) (k + (if skipped_action a then 1 else 0))"
    using assms(2) [of x] g unfolding keeps_account_def by blast
qed

lemma keeps_account_Let: "(\<And>x. keeps_account a (g x)) \<Longrightarrow> keeps_account a (let x = v in g x)"
  by simp

lemma keeps_account_body:
  "keeps_account a (scatch (replay_body env cf i a it dur lane g)
     (\<lambda>e. smod (\<lambda>st. st\<lparr>rl_action_errors := rl_action_errors st + 1\<rparr>)))"
  unfolding keeps_account_def
proof (intro allI impI)
  fix st st' :: "'a loop_state" and n k
  let ?body = "replay_body env cf i a it dur lane g"
  assume run: "scatch ?body (\<lambda>e. smod (\<lambda>st. st\<lparr>rl_action_errors := rl_action_errors st + 1\<rparr>)) st = (Inr (), st')"
    and ok: "accounted st n k"
  show "accounted st' (n + 1) (k + (if skipped_action a then 1 else 0))"
  proof (cases "skipped_action a")
    case True
    then show ?thesis using run ok by (simp add: scatch_def replay_body_skipped accounted_def)
  next
    case False
    obtain r st1 where b: "?body st = (r, st1)" by force
    have "logs_once ?body" by (rule replay_body_logs [OF False])
    note l = this [unfolded logs_once_def, rule_format, of st, unfolded b]
    show ?thesis
    proof (cases r)
      case (Inl e)
      then have "outcome_view st1 = outcome_view st" "st' = st1\<lparr>rl_action_errors := rl_action_errors st1 + 1\<rparr>"
        using l run b by (auto simp: scatch_def smod_def)
      then show ?thesis using ok False by (auto simp: accounted_def outcome_view_def)
    next
      case (Inr u)
      then have "st' = st1" using run b by (simp add: scatch_def)
      then show ?thesis using l Inr ok False by (auto simp: accounted_def)
    qed
  qed
qed

lemma keeps_account_action: "keeps_account a (replay_action env cf (i, a))"
  unfolding replay_action_def Let_def prod.case
  by (intro keeps_account_body keeps_account_sbind keeps) (simp_all add: outcome_view_def)

lemma accounted_actions:
  "sfor (replay_action env cf) ps st = (Inr (), st') \<Longrightarrow> accounted st n k \<Longrightarrow>
     accounted st' (n + length ps) (k + length (filter skipped_action (map snd ps)))"
proof (induction ps arbitrary: st n k)
  case (Cons p ps)
  obtain i a where p: "p = (i, a)" by force
  obtain u st1 where s1: "replay_action env cf p st = (Inr u, st1)" and rest: "sfor (replay_action env cf) ps st1 = (Inr (), st')"
    using Cons.prems(1) by (auto simp: sbind_Inr)
  have "accounted st1 (n + 1) (k + (if skipped_action a then 1 else 0))"
    using keeps_account_action [of a env cf i, unfolded keeps_account_def] s1 Cons.prems(2) p by simp
  from Cons.IH [OF rest this] show ?case by (simp add: p split: if_splits)
qed (simp add: sret_def)

lemma accounted_session:
  assumes "replay_cloud_model_session env cf w = Inr (summary, stats, st)"
  shows "accounted st (length (ls_actions (cf_loaded cf))) (length (filter skipped_action (ls_actions (cf_loaded cf))))
     \<and> rs_success stats = replay_success st \<and> rs_failed_action_count stats = failed_actions st"
proof -
  let ?as = "ls_actions (cf_loaded cf)"
  have run: "sfor (replay_action env cf) (zip [0..<length ?as] ?as) (initial_loop_state w) = (Inr (), st)"
    and stats: "\<exists>el. stats = make_task_stats (cf_loaded cf) (replay_success st) el (failed_actions st) (cf_task_env_parity cf) None"
    using assms by (auto simp: replay_cloud_model_session_def replay_actions_def Let_def rbind_eq_Inr
        split: prod.splits sum.splits)
  have "accounted (initial_loop_state w) 0 0" by (simp add: accounted_def initial_loop_state_def)
  from accounted_actions [OF run this] stats show ?thesis by (auto simp: make_task_stats_def)
qed

subsection \<open>Properties\<close>


text \<open>An example: a container whose requests fail with exit code 1, one checkpoint, and a
  session replayed without a container.\<close>

definition example_host :: host where
  "example_host = \<lparr>h_is_file = (\<lambda>p. p = ''/t/c.json''), h_json = (\<lambda>p. JsonDoc (PDict example_restore)),
     h_tar = (\<lambda>p. None), h_sha256 = id\<rparr>"

definition example_replay_env :: "fs replay_env" where
  "example_replay_env =
     \<lparr>en_host = example_host, en_size_of = (\<lambda>p. 100), en_restore = example_env, en_root_map = [],
      en_deny = (\<lambda>c. False), en_norm = id,
      en_request = (\<lambda>r t w. (Inr [(''ok'', PBool True), (''result'', PStr ''out''), (''returncode'', PInt 1)], w)),
      en_capture = (\<lambda>w. (Inl (RuntimeError ''snapshot''), w)), en_tree = id,
      en_put_tree = (\<lambda>t w. case t of Some u \<Rightarrow> u | None \<Rightarrow> w), en_now = (\<lambda>w. 0), en_sleep = (\<lambda>d w. w)\<rparr>"

definition example_call :: pydict where
  "example_call = [(''tool_name'', PStr ''exec''), (''success'', PBool True), (''duration_ms'', PFloat 0),
     (''tool_args'', PStr ''{}''), (''tool_result'', PStr ''ok''),
     (''checkpoint_after'', PDict [(''path'', PStr ''c.json''), (''kind'', PStr ''cas_manifest_full'')])]"

definition example_actions :: "pydict list" where
  "example_actions =
     [[(''action_type'', PStr ''tool_exec''), (''iteration'', PInt 0), (''ts_start'', PFloat 1), (''ts_end'', PFloat 2),
       (''data'', PDict example_call)],
      [(''action_type'', PStr ''note'')]]"

definition example_config :: replay_config where
  "example_config =
     \<lparr>cf_loaded = \<lparr>ls_source_trace = ''/t/trace.jsonl'', ls_task_source = ''/t/tasks.jsonl'', ls_source_agent_id = ''a'',
        ls_run_instance_id = ''a'', ls_manifest_index = 0, ls_scaffold = PStr ''openclaw'', ls_metadata = None,
        ls_summary = None, ls_task = [], ls_actions = example_actions, ls_iterations = [],
        ls_docker_image_override = None, ls_label = None, ls_sandbox_backend = ''docker'', ls_checkpoint_backend = ''cas''\<rparr>,
      cf_source_parent = ''/t'', cf_container = True, cf_speed = 1,
      cf_timing = \<lparr>lt_mode = ''source_scaled'', lt_ttft_ms = None, lt_tpot_ms = None\<rparr>, cf_command_timeout = 600,
      cf_warmup = 0, cf_exec_env_parity = PNone, cf_task_env_parity = ''container''\<rparr>"



definition host_config :: replay_config where
  "host_config = example_config\<lparr>cf_container := False, cf_loaded := (cf_loaded example_config)\<lparr>ls_actions :=
     [[(''action_type'', PStr ''llm_call''), (''ts_start'', PInt 1), (''ts_end'', PInt 2), (''data'', PDict [])],
      [(''action_type'', PStr ''tool_exec''), (''ts_start'', PInt 2), (''ts_end'', PInt 3), (''data'', PList [])],
      [(''action_type'', PStr ''tool_exec''), (''ts_start'', PInt 2), (''ts_end'', PInt 3),
       (''data'', PDict [(''tool_name'', PStr ''list_dir''), (''success'', PBool True), (''tool_result'', PStr ''a'')])],
      [(''action_type'', PStr ''note''), (''ts_start'', PInt 3), (''ts_end'', PInt 3)]]\<rparr>\<rparr>"


end
