(* ===== verification/ReplaySafety.thy ===== *)
theory ReplaySafety
  imports ReplayLoop
begin

text \<open>
  Safety of the replay of a session: what the fields of a forced synchronisation promise when
  the replay continues from a checkpoint, and which tool calls never reach the container.
\<close>

subsection \<open>The fields of a synchronisation\<close>

abbreviation is_set :: "pydict \<Rightarrow> string \<Rightarrow> bool" where
  "is_set d k \<equiv> pget d k = PBool True"

text \<open>Between the steps, a continuation is a success with the status of one; at the end, a
  success was also verified, or could not be.\<close>

definition sync_consistent :: "pydict \<Rightarrow> bool" where
  "sync_consistent d \<longleftrightarrow> (is_set d ''forced_sync_continued'' \<longrightarrow>
     is_set d ''forced_sync_success'' \<and> pget d ''forced_sync_status'' = PStr ''checkpoint_restored_continuation'')"

definition sync_verified :: "pydict \<Rightarrow> bool" where
  "sync_verified d \<longleftrightarrow> sync_consistent d \<and>
     (is_set d ''forced_sync_success'' \<longrightarrow> pget d ''forced_sync_verified'' \<in> {PNone, PBool True})"

lemma pget_dupdate:
  "dict_ok e \<Longrightarrow> pget (dupdate d e) k = (case dget e k of None \<Rightarrow> pget d k | Some v \<Rightarrow> v)"
  by (simp add: pget_def dget_dupdate split: option.splits)

text \<open>The fields of a restore.\<close>

definition restore_fields_ok :: "pydict \<Rightarrow> bool" where
  "restore_fields_ok r \<longleftrightarrow> dict_ok r \<and> dget r ''forced_sync_continued'' = dget r ''forced_sync_success'' \<and>
     (dget r ''forced_sync_success'' = Some (PBool False) \<or>
      dget r ''forced_sync_success'' = Some (PBool True) \<and>
      dget r ''forced_sync_status'' = Some (PStr ''checkpoint_restored_continuation''))"

lemma restore_failed_fields_ok: "restore_fields_ok (checkpoint_restore_failed_fields p k r st e a sz)"
  by (auto simp: restore_fields_ok_def checkpoint_restore_failed_fields_def checkpoint_restore_base_fields_def
      dget_append split: option.splits)

lemma restore_fields_of_one:
  "restore_checkpoint_to_container h sz env spec clear t = Inr (r, t') \<Longrightarrow> restore_fields_ok r"
  by (auto simp: restore_checkpoint_to_container_def Let_def restore_failed_fields_ok
      split: if_splits json_read.splits pyval.splits sum.splits)
    (simp add: restore_fields_ok_def checkpoint_restore_base_fields_def)+

lemma restore_fields_of_loop:
  "restore_chain_loop h sz env specs clear n r t = Inr (r', n', t') \<Longrightarrow> specs \<noteq> [] \<Longrightarrow> restore_fields_ok r'"
proof (induction specs arbitrary: clear n r t)
  case (Cons spec specs)
  then obtain r1 t1 where r1: "restore_checkpoint_to_container h sz env spec clear t = Inr (r1, t1)"
    by (auto simp: rbind_eq_Inr)
  note ok = restore_fields_of_one [OF r1]
  show ?case
    using Cons.prems(1) Cons.IH ok r1
    by (cases "specs = []") (auto simp: Let_def split: option.splits if_splits)
qed simp

lemma restore_fields_of_chain:
  assumes "restore_checkpoint_chain_to_container h sz env specs t = Inr (r, t')"
  shows "restore_fields_ok r"
proof (cases "specs = []")
  case True
  then show ?thesis
    using assms restore_failed_fields_ok by (auto simp: restore_checkpoint_chain_to_container_def)
next
  case False
  then obtain r1 where r1: "restore_fields_ok r1" and r: "\<exists>a b c n. r = dupdate r1
      [(''checkpoint_restore_chain_length'', n), (''checkpoint_restore_chain_paths'', a),
       (''checkpoint_restore_chain_kinds'', b), (''checkpoint_restore_chain_size_bytes'', c),
       (''forced_sync_checkpoint_chain_length'', n), (''forced_sync_checkpoint_chain'', a)]"
    using assms restore_fields_of_loop
    by (fastforce simp: restore_checkpoint_chain_to_container_def Let_def rbind_eq_Inr)
  then show ?thesis by (auto simp: restore_fields_ok_def dget_dupdate)
qed

lemma sync_consistent_restored:
  "restore_fields_ok r \<Longrightarrow> sync_consistent (dupdate d r)"
  by (auto simp: sync_consistent_def restore_fields_ok_def pget_dupdate split: option.splits)

subsection \<open>The steps of a synchronisation\<close>

lemma keeps_sync_fields_world [keeps]: "preserves rl_sync_fields (in_world m)"
  unfolding in_world_def by (intro keeps) simp

lemma keeps_sync_fields_ops [keeps]:
  "preserves rl_sync_fields forget_manifest" "preserves rl_sync_fields (sync_flag k)"
  "preserves rl_sync_fields (execute_container_tool_call env cf n args t m timeline)"
  "preserves rl_sync_fields (verify_restore env cf i)" "preserves rl_sync_fields (restore_chain env cf i spec)"
  "preserves rl_sync_fields (capture_manifest env prev)"
  unfolding forget_manifest_def sync_flag_def execute_container_tool_call_def verify_restore_def
    restore_chain_def capture_manifest_def
  by (intro keeps; simp)+

lemma keeps_sync_fields_reapply [keeps]: "preserves rl_sync_fields (reapply_loop env cf as ids)"
proof (induction as arbitrary: ids)
  case (Cons p as)
  then show ?case by (cases p) (auto simp: reapply_action_def Let_def intro!: keeps)
qed (auto intro: keeps)

lemma keeps_sync_fields_reapply_all [keeps]:
  "preserves rl_sync_fields (reapply_forced_sync_actions env cf i j)"
  unfolding reapply_forced_sync_actions_def by (intro keeps)

lemma triple_update_sync:
  "(\<And>d. P d \<Longrightarrow> Q (dupdate d e)) \<Longrightarrow>
   triple (\<lambda>s. P (rl_sync_fields s)) (update_sync e) (\<lambda>_ s. Q (rl_sync_fields s)) E"
  unfolding update_sync_def by (rule triple_smod) simp

lemma triple_keeps_sync:
  "preserves rl_sync_fields m \<Longrightarrow> triple (\<lambda>s. P (rl_sync_fields s)) m (\<lambda>_ s. P (rl_sync_fields s)) (\<lambda>s. P (rl_sync_fields s))"
  by (rule triple_preserves)

lemma restore_chain_fields:
  "triple P (restore_chain env cf i spec) (\<lambda>r _. restore_fields_ok r) (\<lambda>_. True)"
  by (auto simp: triple_def restore_chain_def in_world_def sm_defs Let_def restore_failed_fields_ok
      split: option.splits sum.splits prod.splits dest: restore_fields_of_chain)

text \<open>What a verification reports: unavailable, or whether the manifests agree.\<close>

definition verification_ok :: "pydict \<times> pydict option \<Rightarrow> bool" where
  "verification_ok p \<longleftrightarrow> (case snd p of
     None \<Rightarrow> dict_ok (fst p) \<and> dkeys (fst p) = [''forced_sync_verified'', ''forced_sync_verification''] \<and>
       pget (fst p) ''forced_sync_verified'' = PNone
   | Some _ \<Rightarrow> \<exists>flds b. fst p = [(''forced_sync_verified'', PBool b), (''forced_sync_verification'', PDict flds)] \<and>
       pget flds ''cas_manifest_match'' = PBool b)"

lemma comparison_has_match:
  "cas_manifest_comparison_fields a b = Inr flds \<Longrightarrow> \<exists>m. pget flds ''cas_manifest_match'' = PBool m"
  unfolding cas_manifest_comparison_fields_def Let_def rbind_eq_Inr by (auto simp: pget_def)

lemma verification_reports:
  assumes "verify_forced_sync_restore_state r ents = Inr p"
  shows "verification_ok p"
proof (cases "capture_replay_snapshot_manifest_diagnostic r None")
  case (Pair c e)
  show ?thesis
  proof (cases c)
    case None
    then show ?thesis
      using assms Pair
      by (auto simp: verify_forced_sync_restore_state_def verification_ok_def
          forced_sync_verification_unavailable_fields_def pget_def)
  next
    case (Some x)
    then show ?thesis
      using assms Pair comparison_has_match
      by (fastforce simp: verify_forced_sync_restore_state_def verification_ok_def rbind_eq_Inr)
  qed
qed

lemma verify_restore_fields: "triple P (verify_restore env cf i) (\<lambda>p _. verification_ok p) (\<lambda>_. True)"
  unfolding verify_restore_def
proof (intro triple_sbind)
  fix ents
  show "triple (\<lambda>_. True) (in_world (\<lambda>w. case en_capture env w of (r, w') \<Rightarrow>
      (verify_forced_sync_restore_state r ents, w'))) (\<lambda>p _. verification_ok p) (\<lambda>_. True)"
    by (auto simp: triple_def in_world_def szoom_def split: prod.splits sum.splits dest: verification_reports)
qed (auto intro: triple_slift triple_sret)

lemma triple_conj:
  "triple P m Q E \<Longrightarrow> triple P m Q' E' \<Longrightarrow> triple P m (\<lambda>x s. Q x s \<and> Q' x s) (\<lambda>s. E s \<and> E' s)"
  by (fastforce simp: triple_def split: prod.splits sum.splits)

lemma verify_restore_keeps:
  "triple (\<lambda>s. P (rl_sync_fields s)) (verify_restore env cf i)
     (\<lambda>p s. verification_ok p \<and> P (rl_sync_fields s)) (\<lambda>s. P (rl_sync_fields s))"
  by (rule triple_weaken [OF triple_conj [OF verify_restore_fields triple_keeps_sync]]) (auto intro: keeps)

text \<open>An update of other fields, and the update that ends a synchronisation as failed.\<close>

lemma sync_consistent_other:
  "dict_ok e \<Longrightarrow> sync_consistent d \<Longrightarrow> dget e ''forced_sync_success'' = None \<Longrightarrow>
   dget e ''forced_sync_status'' = None \<Longrightarrow> dget e ''forced_sync_continued'' = None \<Longrightarrow> sync_consistent (dupdate d e)"
  by (simp add: sync_consistent_def pget_dupdate)

lemma sync_failed:
  "dict_ok e \<Longrightarrow> dget e ''forced_sync_success'' = Some (PBool False) \<Longrightarrow>
   dget e ''forced_sync_continued'' = Some (PBool False) \<Longrightarrow> sync_verified (dupdate d e)"
  by (simp add: sync_verified_def sync_consistent_def pget_dupdate)

lemma sync_unverified:
  "dict_ok e \<Longrightarrow> sync_consistent d \<Longrightarrow> dget e ''forced_sync_success'' = None \<Longrightarrow>
   dget e ''forced_sync_status'' = None \<Longrightarrow> dget e ''forced_sync_continued'' = None \<Longrightarrow>
   dget e ''forced_sync_verified'' = Some v \<Longrightarrow> v \<in> {PNone, PBool True} \<Longrightarrow> sync_verified (dupdate d e)"
  by (simp add: sync_verified_def sync_consistent_other) (simp add: pget_dupdate)

lemma sync_verification:
  "verification_ok p \<Longrightarrow> sync_consistent d \<Longrightarrow> sync_consistent (dupdate d (fst p))"
  by (rule sync_consistent_other) (auto simp: verification_ok_def dget_None_iff split: option.splits)

text \<open>The steps as rules on the fields alone.\<close>

abbreviation synced :: "(pydict \<Rightarrow> bool) \<Rightarrow> ('w, 'a) replay \<Rightarrow> ('a \<Rightarrow> pydict \<Rightarrow> bool) \<Rightarrow> (pydict \<Rightarrow> bool) \<Rightarrow> bool" where
  "synced P m Q E \<equiv> triple (\<lambda>s. P (rl_sync_fields s)) m (\<lambda>x s. Q x (rl_sync_fields s)) (\<lambda>s. E (rl_sync_fields s))"

lemma triple_pure: "(b \<Longrightarrow> triple P m Q E) \<Longrightarrow> triple (\<lambda>s. b \<and> P s) m Q E"
  by (cases b) (simp_all add: triple_def)

lemma synced_keeps: "preserves rl_sync_fields m \<Longrightarrow> synced P m (\<lambda>_. P) (\<lambda>_. True)"
  by (rule triple_weaken [OF triple_keeps_sync]) auto

lemma synced_sret: "(\<And>d. P d \<Longrightarrow> Q x d) \<Longrightarrow> synced P (sret x) Q E"
  by (rule triple_sret)

lemma synced_update: "(\<And>d. P d \<Longrightarrow> Q () (dupdate d e)) \<Longrightarrow> synced P (update_sync e) Q E"
  unfolding update_sync_def by (rule triple_smod) simp

lemma triple_if: "(b \<Longrightarrow> triple P m Q E) \<Longrightarrow> (\<not> b \<Longrightarrow> triple P n Q E) \<Longrightarrow> triple P (if b then m else n) Q E"
  by simp

lemma sync_verified_consistent: "sync_verified d \<Longrightarrow> sync_consistent d"
  by (simp add: sync_verified_def)

lemmas sync_update_simps = sync_consistent_other sync_failed sync_unverified sync_verified_consistent

lemma reapply_after_fallback_sync:
  "synced sync_consistent (reapply_after_fallback env cf i j k)
     (\<lambda>skip d. sync_consistent d \<and> (skip \<longrightarrow> sync_verified d)) (\<lambda>_. True)"
  (is "triple ?J _ ?Q ?E")
proof -
  have check: "triple ?J (verify_restore env cf i) (\<lambda>p s. verification_ok p \<and> ?J s) ?E"
    by (rule triple_weaken [OF verify_restore_keeps [where P = sync_consistent]]) auto
  have note_: "synced sync_consistent (update_sync e) (\<lambda>_. sync_consistent) (\<lambda>_. True)"
    if "dict_ok e" "dget e ''forced_sync_success'' = None" "dget e ''forced_sync_status'' = None"
      "dget e ''forced_sync_continued'' = None" for e
    by (rule synced_update) (simp add: sync_consistent_other that)
  have again: "triple ?J (reapply_forced_sync_actions env cf j k) (\<lambda>_. ?J) ?E"
    by (intro synced_keeps keeps)
  have forget: "triple ?J forget_manifest (\<lambda>_. ?J) ?E"
    by (intro synced_keeps keeps)
  have last: "triple ?J (sbind (update_sync e) (\<lambda>_. sret b)) ?Q ?E"
    if "\<And>d. sync_consistent d \<Longrightarrow> sync_consistent (dupdate d e) \<and> (b \<longrightarrow> sync_verified (dupdate d e))" for e b
    by (rule triple_sbind [where R = "\<lambda>_ s. sync_consistent (rl_sync_fields s) \<and> (b \<longrightarrow> sync_verified (rl_sync_fields s))"],
        rule synced_update) (auto intro: triple_sret simp: that)
  show ?thesis
    unfolding reapply_after_fallback_def Let_def split_def
    apply (rule triple_sbind [OF check], rule triple_pure)
    apply (rule triple_sbind [OF note_], (simp; fail)+)
    apply (rule triple_sbind [OF again], rule triple_sbind [OF note_], (simp; fail)+)
    apply (intro triple_if last triple_sbind [OF forget] conjI impI)
         apply (simp_all add: sync_update_simps sync_verification)
    done
qed

lemma verification_unavailable: "verification_ok (v, None) \<Longrightarrow> sync_consistent d \<Longrightarrow> sync_verified (dupdate d v)"
  by (cases v) (auto simp: verification_ok_def pget_def intro!: sync_unverified split: if_splits)

lemma verification_agrees:
  "verification_ok (v, Some r) \<Longrightarrow> sync_consistent d \<Longrightarrow>
   (case pget v ''forced_sync_verification'' of PDict f \<Rightarrow> truthy (pget f ''cas_manifest_match'') | _ \<Rightarrow> False) \<Longrightarrow>
   sync_verified (dupdate d v)"
  by (auto simp: verification_ok_def pget_def [of "_ # _"] intro!: sync_unverified)

lemma verify_after_restore_sync:
  "synced sync_consistent (verify_after_restore env cf i) (\<lambda>_. sync_verified) (\<lambda>_. True)"
  (is "triple ?J _ ?Q ?E")
proof -
  have forget: "triple ?J forget_manifest (\<lambda>_. ?J) E" if "\<And>s. ?J s \<Longrightarrow> E s" for E
    by (rule triple_weaken [OF triple_keeps_sync [where P = sync_consistent]]) (auto intro: keeps that)
  have keep_new: "triple ?J (smod (\<lambda>st. st\<lparr>rl_prev_manifest := r\<rparr>)) (\<lambda>_. ?J) ?J" for r
    by (rule triple_smod) simp
  have none: "triple ?J (sbind forget_manifest (\<lambda>_. update_sync v)) ?Q ?J" if "verification_ok (v, None)" for v
    by (rule triple_sbind [OF forget synced_update]) (auto intro: verification_unavailable [OF that])
  have some: "triple ?J
      (sbind (update_sync v) (\<lambda>_.
        swhen (\<not> (case pget v ''forced_sync_verification'' of PDict d \<Rightarrow> truthy (pget d ''cas_manifest_match'') | _ \<Rightarrow> False))
          (update_sync [(''forced_sync_success'', PBool False), (''forced_sync_continued'', PBool False),
                        (''forced_sync_status'', PStr ''verification_failed'')]))) ?Q ?J"
    (is "triple ?J (sbind _ (\<lambda>_. swhen (\<not> ?agree) _)) ?Q ?J") if ok: "verification_ok (v, Some r)" for v r
  proof (rule triple_sbind)
    show "triple ?J (update_sync v) (\<lambda>_ s. ?J s \<and> (?agree \<longrightarrow> sync_verified (rl_sync_fields s))) ?J"
      by (rule synced_update) (use verification_agrees [OF ok] sync_verification [OF ok] in auto)
  next
    fix x
    show "triple (\<lambda>s. ?J s \<and> (?agree \<longrightarrow> sync_verified (rl_sync_fields s)))
      (swhen (\<not> ?agree) (update_sync [(''forced_sync_success'', PBool False), (''forced_sync_continued'', PBool False),
         (''forced_sync_status'', PStr ''verification_failed'')])) ?Q ?J"
      by (rule triple_swhen, rule synced_update) (auto simp: sync_failed)
  qed
  have unavailable: "triple ?J (sbind forget_manifest
      (\<lambda>_. update_sync (forced_sync_verification_unavailable_fields m))) ?Q ?E" for m
    by (rule triple_sbind [OF forget synced_update])
      (auto simp: forced_sync_verification_unavailable_fields_def intro!: sync_unverified)
  show ?thesis
    unfolding verify_after_restore_def
  proof (rule triple_scatch [where F = ?J])
    show "triple ?J (sbind (verify_restore env cf i) (\<lambda>(verification, replay_ents).
          case replay_ents of
            None \<Rightarrow> sbind forget_manifest (\<lambda>_. update_sync verification)
          | Some replay \<Rightarrow>
              sbind (smod (\<lambda>st. st\<lparr>rl_prev_manifest := Some replay\<rparr>)) (\<lambda>_.
              sbind (update_sync verification) (\<lambda>_.
                swhen (\<not> (case pget verification ''forced_sync_verification'' of
                         PDict d \<Rightarrow> truthy (pget d ''cas_manifest_match'') | _ \<Rightarrow> False))
                  (update_sync [(''forced_sync_success'', PBool False), (''forced_sync_continued'', PBool False),
                                (''forced_sync_status'', PStr ''verification_failed'')]))))) ?Q ?J"
      by (rule triple_sbind [OF verify_restore_keeps [where P = sync_consistent]], rule triple_pure)
        (auto intro: none triple_sbind [OF keep_new some] split: prod.split option.split)
  qed (rule unavailable)
qed

lemma restore_and_verify_sync:
  "synced (\<lambda>_. True) (restore_and_verify env cf i j spec k) (\<lambda>_. sync_verified) (\<lambda>_. True)"
proof -
  let ?J = "\<lambda>s. sync_consistent (rl_sync_fields s)"
  let ?E = "\<lambda>_. True"
  have upd: "triple (\<lambda>_. restore_fields_ok r) (update_sync r) (\<lambda>_. ?J) ?E" for r
    unfolding update_sync_def by (rule triple_smod) (simp add: sync_consistent_restored)
  have forget: "triple ?J (swhen b forget_manifest) (\<lambda>_. ?J) ?E" for b
    by (rule triple_swhen) (auto intro: synced_keeps keeps)
  let ?S = "\<lambda>skip s. ?J s \<and> (skip \<longrightarrow> sync_verified (rl_sync_fields s))"
  have again: "triple ?J (case k of Some s \<Rightarrow> if b then reapply_after_fallback env cf j s i else sret False
      | None \<Rightarrow> sret False) ?S ?E" for b
    by (cases k) (auto intro: reapply_after_fallback_sync triple_sret)
  have flag: "triple P (sync_flag k) (\<lambda>b s. P s \<and> b = is_set (rl_sync_fields s) k) ?E" for P :: "'a loop_state \<Rightarrow> bool" and k
    unfolding sync_flag_def by (rule triple_sgets) auto
  have last: "triple (\<lambda>s. ?S skip s \<and> ok = is_set (rl_sync_fields s) ''forced_sync_success'')
      (swhen (ok \<and> \<not> skip) (verify_after_restore env cf i)) (\<lambda>_ s. sync_verified (rl_sync_fields s)) ?E" for ok skip
    by (rule triple_swhen, rule triple_weaken [OF verify_after_restore_sync]) (auto simp: sync_verified_def)
  show ?thesis
    unfolding restore_and_verify_def
    apply (rule triple_sbind [OF restore_chain_fields triple_sbind [OF upd]])
    apply (rule triple_sbind [where R = "\<lambda>_. ?J"], rule triple_weaken [OF flag], auto)
    apply (rule triple_sbind [OF forget triple_sbind [OF again triple_sbind [OF flag last]]])
    done
qed

lemma finish_sync_verified: "sync_verified d \<Longrightarrow> sync_verified (finish_sync ms d)"
  by (auto simp: sync_verified_def sync_consistent_def finish_sync_def Let_def set_default_def pget_def
      dict.get_put split: option.splits if_splits)

lemma synchronise_sync: "synced (\<lambda>_. True) (synchronise env cf i j spec k) (\<lambda>_. sync_verified) (\<lambda>_. True)"
  unfolding synchronise_def
  apply (rule triple_sbind [where R = "\<lambda>_ _. True"], rule triple_weaken [OF triple_preserves [where I = "\<lambda>_. True"]])
      apply (auto intro: keeps)
  apply (rule triple_sbind [where R = "\<lambda>_ s. sync_verified (rl_sync_fields s)"])
   apply (rule triple_scatch [OF restore_and_verify_sync synced_update], simp add: sync_failed)
  apply (rule triple_sbind [where R = "\<lambda>_ s. sync_verified (rl_sync_fields s)"], intro synced_keeps keeps)
  apply (rule triple_smod, simp add: finish_sync_verified)
  done

lemma forced_sync_verified:
  "triple (\<lambda>_. True) (forced_sync env cf i data lane reason li) (\<lambda>_ s. sync_verified (rl_sync_fields s)) (\<lambda>_. True)"
  (is "triple _ _ ?Q ?E")
proof -
  have set: "triple (\<lambda>_. True) (set_sync d) (\<lambda>_ s. P (rl_sync_fields s)) ?E" if "P d" for d P
    unfolding set_sync_def by (rule triple_smod) (simp add: that)
  have mark: "synced A (swhen li (update_sync e)) (\<lambda>_. B) (\<lambda>_. True)"
    if "\<And>d. A d \<Longrightarrow> B d" "\<And>d. A d \<Longrightarrow> B (dupdate d e)" for e A B
    by (rule triple_swhen [OF synced_update]) (use that in auto)
  have sync: "triple (\<lambda>_. True) (sbind (set_sync d) (\<lambda>_. sbind (swhen li (update_sync e)) (\<lambda>_. synchronise env cf i j spec k))) ?Q ?E"
    for d e j spec k
  proof (rule triple_sbind)
    show "triple (\<lambda>_. True) (set_sync d) (\<lambda>_ _. True) ?E" by (rule set) simp
    show "triple (\<lambda>_. True) (sbind (swhen li (update_sync e)) (\<lambda>_. synchronise env cf i j spec k)) ?Q ?E"
      by (rule triple_sbind [OF mark synchronise_sync]) auto
  qed
  have missing: "triple (\<lambda>_. True) (sbind (set_sync d) (\<lambda>_. swhen li (update_sync [(''lane_induced_mismatch_candidate'', PBool True)]))) ?Q ?E"
    if "pget d ''forced_sync_success'' = PBool False" "pget d ''forced_sync_continued'' = PBool False" for d
    by (rule triple_sbind [OF set [where P = "\<lambda>d. pget d ''forced_sync_success'' = PBool False \<and> pget d ''forced_sync_continued'' = PBool False"] mark])
      (auto simp: that sync_verified_def sync_consistent_def pget_dupdate)
  have none: "triple (\<lambda>s. sync_verified (rl_sync_fields s)) (sret ()) ?Q ?E"
    by (rule triple_sret)
  have start: "triple (\<lambda>_. True) (set_sync []) (\<lambda>_ s. sync_verified (rl_sync_fields s)) ?E"
    by (rule set) (simp add: sync_verified_def sync_consistent_def pget_def)
  have any: "triple (\<lambda>_. True) m ?Q ?E \<Longrightarrow> triple (\<lambda>s. sync_verified (rl_sync_fields s)) m ?Q ?E" for m
    by (rule triple_weaken) auto
  show ?thesis
    unfolding forced_sync_def Let_def
    apply (rule triple_sbind [OF start])
    apply (auto split: option.split intro!: none any sync missing simp: pget_def)
    done
qed

subsection \<open>Properties of synchronisation\<close>


definition example_sync :: "unit res \<times> fs loop_state" where
  "example_sync = forced_sync example_replay_env example_config 0 example_call False (Some ''result_mismatch'') False
     (initial_loop_state example_tree)"


subsection \<open>Calls that never reach the container\<close>

text \<open>The calls that are replayed from the trace: of a subagent lane, outside a container, messages,
  remote tools, and commands that the deny list of the shell tool refuses.\<close>

definition replayed_from_source :: "'w replay_env \<Rightarrow> replay_config \<Rightarrow> bool \<Rightarrow> source_tool \<Rightarrow> bool" where
  "replayed_from_source env cf lane so \<longleftrightarrow>
     lane \<or> \<not> cf_container cf \<or>
     (case so_name so of
        PStr n \<Rightarrow> n = ''message'' \<or> starts_with ''mcp_'' n \<or> n \<in> container_tool_prefixes
                  \<or> denied_exec_command (en_deny env) (so_name so) (so_args so) \<noteq> None
      | _ \<Rightarrow> False)"

lemma timed_sleep_world:
  "\<exists>d st'. timed_sleep env e ph st = (Inr d, st') \<and> rl_world st' \<in> {rl_world st, en_sleep env e (rl_world st)}"
  by (simp add: timed_sleep_def read_clock_def sm_defs Let_def)

lemma replay_from_trace_world:
  "\<exists>r st'. replay_from_trace env cf so src res ok md orig st = (Inr r, st') \<and> tn_success r = ok \<and> tn_source r = src \<and>
     rl_world st' \<in> {rl_world st, en_sleep env (so_duration_ms so / 1000 / cf_speed cf) (rl_world st)}"
proof -
  obtain d st' where "timed_sleep env (so_duration_ms so / 1000 / cf_speed cf) ''tool_trace_replay'' st = (Inr d, st')"
    "rl_world st' \<in> {rl_world st, en_sleep env (so_duration_ms so / 1000 / cf_speed cf) (rl_world st)}"
    using timed_sleep_world by metis
  then show ?thesis by (simp add: replay_from_trace_def read_clock_def sbind_def sgets_def sret_def)
qed

lemma untouched:
  assumes "src \<noteq> ''executed_in_container''"
  shows "\<exists>r st'. replay_from_trace env cf so src res ok md orig st = (Inr r, st') \<and> tn_success r = ok \<and>
     tn_source r \<noteq> ''executed_in_container'' \<and>
     (rl_world st' = rl_world st \<or> rl_world st' = en_sleep env (so_duration_ms so / 1000 / cf_speed cf) (rl_world st))"
  using replay_from_trace_world [of env cf so src res ok md orig st] assms by auto


definition example_denied :: source_tool where
  "example_denied = \<lparr>so_name = PStr ''message'', so_args = PStr ''{}'', so_duration_ms = 1000, so_success = False,
     so_result = PStr ''denied'', so_exec_timeout = None, so_replay_timeout = None, so_timeline = None\<rparr>"


end
