(* ===== verification/JsonPrint.thy ===== *)
theory JsonPrint
  imports PyJson
begin

text \<open>
  \<open>json.dumps(v, ensure_ascii=False)\<close> with its default separators, as the session files are
  written, and the round trip with the reader: a value without floats, whose dictionaries have
  distinct keys, is read back from its text.
\<close>

subsection \<open>Printing\<close>

text \<open>Without \<open>ensure_ascii\<close> only quotes, backslashes and the control characters are escaped.\<close>

definition json_raw_char :: "char \<Rightarrow> string" where
  "json_raw_char c =
     (if c = CHR 0x22 then [CHR 0x5C, CHR 0x22]
      else if c = CHR 0x5C then [CHR 0x5C, CHR 0x5C]
      else if c = CHR 0x0A then [CHR 0x5C, CHR ''n'']
      else if c = CHR 0x0D then [CHR 0x5C, CHR ''r'']
      else if c = CHR 0x09 then [CHR 0x5C, CHR ''t'']
      else if c = CHR 0x0C then [CHR 0x5C, CHR ''f'']
      else if c = CHR 0x08 then [CHR 0x5C, CHR ''b'']
      else if cc c < 32 then [CHR 0x5C, CHR ''u'', CHR ''0'', CHR ''0'', hex_char (cc c div 16), hex_char (cc c mod 16)]
      else [c])"

definition json_lit :: "string \<Rightarrow> string" where
  "json_lit s = CHR 0x22 # concat (map json_raw_char s) @ [CHR 0x22]"

fun json_dump :: "pyval \<Rightarrow> string" where
  "json_dump PNone = ''null''"
| "json_dump (PBool b) = (if b then ''true'' else ''false'')"
| "json_dump (PInt i) = int_str i"
| "json_dump (PFloat q) = py_repr (PFloat q)"
| "json_dump (PStr s) = json_lit s"
| "json_dump (PList xs) = CHR ''['' # join '', '' (map json_dump xs) @ '']''"
| "json_dump (PDict d) = CHR ''{'' #
     join '', '' (map (\<lambda>(k, v). json_lit k @ '': '' @ v) (map (\<lambda>(k, v). (k, json_dump v)) d)) @ ''}''"

text \<open>The values whose text determines them: no floats, distinct keys.\<close>

fun json_plain :: "pyval \<Rightarrow> bool" where
  "json_plain (PFloat q) = False"
| "json_plain (PList xs) = list_all json_plain xs"
| "json_plain (PDict d) = (dict_ok d \<and> list_all (\<lambda>(k, v). v) (map (\<lambda>(k, v). (k, json_plain v)) d))"
| "json_plain _ = True"

subsection \<open>Strings\<close>

lemma hex_digit_char: "n < 16 \<Longrightarrow> hex_digit (hex_char n) = Some n"
  by (auto simp: hex_digit_def hex_char_def cc_def)

lemma json_str_char: "json_str acc (json_raw_char c @ s) = json_str (c # acc) s"
proof -
  have small: "cc c < 256" by (simp add: cc_def)
  have q: "cc c mod 16 < 16" by simp
  show ?thesis
  proof (cases "cc c < 32")
    case True
    have p: "cc c div 16 < 2" using True by simp
    have id: "char_of (16 * (cc c div 16) + cc c mod 16) = c" by (simp add: cc_def)
    have ne: "c \<noteq> CHR 0x22" "c \<noteq> CHR 0x5C" using True by (auto simp: cc_def)
    have h: "hex_digit (hex_char (cc c div 16)) = Some (cc c div 16)" "hex_digit (hex_char (cc c mod 16)) = Some (cc c mod 16)"
      using p q by (simp_all add: hex_digit_char)
    have zero: "hex_digit (CHR ''0'') = Some 0" by (simp add: hex_digit_def cc_def)
    show ?thesis using True ne id h zero by (auto simp: json_raw_char_def)
  next
    case False
    then have ne: "c \<noteq> CHR 0x0A" "c \<noteq> CHR 0x0D" "c \<noteq> CHR 0x09" "c \<noteq> CHR 0x0C" "c \<noteq> CHR 0x08"
      by (auto simp: cc_def)
    show ?thesis using False ne by (auto simp: json_raw_char_def)
  qed
qed

lemma json_str_lit: "json_str acc (concat (map json_raw_char s) @ CHR 0x22 # r) = Some (rev acc @ s, r)"
  by (induction s arbitrary: acc) (simp_all add: json_str_char)

subsection \<open>Numbers\<close>

text \<open>What may follow a number: nothing, or a character that does not continue it.\<close>

definition ends_number :: "string \<Rightarrow> bool" where
  "ends_number r \<longleftrightarrow> (case r of [] \<Rightarrow> True | c # _ \<Rightarrow> \<not> py_digit c \<and> c \<notin> {CHR ''.'', CHR ''e'', CHR ''E''})"

lemma nat_digits_head: "nat_digits n = CHR ''0'' # t \<Longrightarrow> n = 0 \<and> t = []"
proof (induction n arbitrary: t rule: nat_digits.induct)
  case (1 n)
  have c0: "d = 0" if "d < 10" "digit_char d = CHR ''0''" for d
    using cc_digit_char [OF that(1)] that(2) by (simp add: cc_def)
  show ?case
  proof (cases "n < 10")
    case True
    then show ?thesis using 1 c0 by (auto simp: nat_digits.simps [of n])
  next
    case False
    then obtain u where "nat_digits (n div 10) = CHR ''0'' # u"
      using 1(2) by (cases "nat_digits (n div 10)") (auto simp: nat_digits.simps [of n])
    then have "n div 10 = 0" using 1(1) False by blast
    then show ?thesis using False by simp
  qed
qed

lemma json_digits:
  assumes "\<forall>x \<in> set (c # t). py_digit x" and "c = CHR ''0'' \<Longrightarrow> t = []" and "ends_number r"
  shows "json_number (c # t @ r) = Some (PInt (int (digits_value (c # t))), r)"
    and "json_number (CHR ''-'' # c # t @ r) = Some (PInt (- int (digits_value (c # t))), r)"
proof -
  have take: "takeWhile py_digit (t @ r) = t"
    using assms(1,3) by (cases r) (auto simp: ends_number_def takeWhile_append)
  have neg: "c \<noteq> CHR ''-''" "py_digit c" using assms(1) by (auto simp: py_digit_def cc_def)
  have r: "(case r of [] \<Rightarrow> [] | c # t \<Rightarrow> if c = CHR ''.'' then takeWhile py_digit t else []) = []"
    using assms(3) by (auto simp: ends_number_def split: list.splits)
  have e: "(case r of [] \<Rightarrow> (1 :: int, [])
           | c # t \<Rightarrow> if c = CHR ''e'' \<or> c = CHR ''E'' then
                 (case t of [] \<Rightarrow> (1, []) | d # u \<Rightarrow> if d = CHR ''-'' then (-1, takeWhile py_digit u)
                                   else if d = CHR ''+'' then (2, takeWhile py_digit u)
                                   else (1, takeWhile py_digit t))
               else (1, [])) = (1, [])"
    using assms(3) by (auto simp: ends_number_def split: list.splits)
  have c: "py_digit (CHR ''0'')" "CHR ''0'' \<noteq> CHR ''-''" by (simp_all add: py_digit_def cc_def)
  note rules = json_number_def Let_def take r e
  show "json_number (c # t @ r) = Some (PInt (int (digits_value (c # t))), r)"
    using neg take c assms(2) by (cases "c = CHR ''0''") (simp_all add: rules)
  show "json_number (CHR ''-'' # c # t @ r) = Some (PInt (- int (digits_value (c # t))), r)"
    using neg take c assms(2) by (cases "c = CHR ''0''") (simp_all add: rules)
qed

lemma json_number_digits:
  assumes "ends_number r"
  shows "json_number (int_str i @ r) = Some (PInt i, r)"
proof -
  obtain c t where ct: "nat_digits (nat \<bar>i\<bar>) = c # t" by (cases "nat_digits (nat \<bar>i\<bar>)") auto
  have all: "\<forall>x \<in> set (c # t). py_digit x" using nat_digits_digits ct by metis
  have zero: "c = CHR ''0'' \<Longrightarrow> t = []" using nat_digits_head ct by blast
  have val: "int (digits_value (c # t)) = \<bar>i\<bar>" using digits_value_nat_digits [of "nat \<bar>i\<bar>"] ct by simp
  show ?thesis
    using json_digits [OF all zero assms] ct val
    by (cases "i < 0") (simp_all add: int_str_def)
qed

subsection \<open>Values\<close>

lemma int_str_head: "\<exists>c t. int_str i = c # t \<and> (py_digit c \<or> c = CHR ''-'')"
proof -
  obtain c t where "nat_digits (nat \<bar>i\<bar>) = c # t" by (cases "nat_digits (nat \<bar>i\<bar>)") auto
  moreover have "py_digit c" using nat_digits_digits calculation by (metis list.set_intros(1))
  ultimately show ?thesis by (cases "i < 0") (auto simp: int_str_def)
qed

lemma dump_head:
  assumes "json_plain v"
  shows "\<exists>c t. json_dump v = c # t \<and> \<not> json_space c \<and> c \<noteq> CHR '']'' \<and> c \<noteq> CHR ''}''"
proof (cases v)
  case (PInt i)
  then show ?thesis using int_str_head [of i] by (auto simp: json_space_def py_digit_def cc_def)
qed (use assms in \<open>auto simp: json_lit_def json_space_def cc_def\<close>)

lemma skip_ws_dump: "json_plain v \<Longrightarrow> skip_ws (json_dump v @ r) = json_dump v @ r"
  using dump_head [of v] by (auto simp: skip_ws_def)

lemma json_value_int:
  assumes "ends_number r"
  shows "json_value (Suc n) (int_str i @ r) = Some (PInt i, r)"
proof -
  obtain c t where ct: "int_str i = c # t" and c: "py_digit c \<or> c = CHR ''-''" using int_str_head by blast
  have "c \<notin> {CHR ''n'', CHR ''t'', CHR ''f'', CHR 0x22, CHR ''['', CHR ''{''}"
    using c by (auto simp: py_digit_def cc_def)
  then have "json_value (Suc n) (int_str i @ r) = json_number (int_str i @ r)"
    by (simp add: ct starts_with_def)
  then show ?thesis using json_number_digits [OF assms] by simp
qed

text \<open>The value is read with any fuel not below the length of its text.\<close>

definition reads :: "pyval \<Rightarrow> bool" where
  "reads v \<longleftrightarrow> (\<forall>n r. ends_number r \<longrightarrow> length (json_dump v) \<le> n \<longrightarrow> json_value n (json_dump v @ r) = Some (v, r))"

lemma ends_number_delims [simp]:
  "ends_number (CHR '','' # r)" "ends_number (CHR '']'' # r)" "ends_number (CHR ''}'' # r)"
  by (simp_all add: ends_number_def py_digit_def cc_def)

lemma skip_ws_simps [simp]:
  "skip_ws (CHR '','' # r) = CHR '','' # r" "skip_ws (CHR '']'' # r) = CHR '']'' # r"
  "skip_ws (CHR ''}'' # r) = CHR ''}'' # r" "skip_ws (CHR '':'' # r) = CHR '':'' # r"
  "skip_ws (CHR '' '' # r) = skip_ws r" "skip_ws (CHR 0x22 # r) = CHR 0x22 # r"
  by (simp_all add: skip_ws_def json_space_def cc_def)

lemma items_read:
  assumes "\<forall>x \<in> set xs. reads x \<and> json_plain x" and "xs \<noteq> []"
    and "length (join '', '' (map json_dump xs)) + 1 \<le> n"
  shows "json_items n acc (join '', '' (map json_dump xs) @ CHR '']'' # r) = Some (PList (rev acc @ xs), r)"
  using assms
proof (induction xs arbitrary: n acc)
  case (Cons x xs)
  obtain m where n: "n = Suc m" using Cons.prems(3) by (cases n) auto
  show ?case
  proof (cases "xs = []")
    case True
    have "json_value m (json_dump x @ CHR '']'' # r) = Some (x, CHR '']'' # r)"
      using Cons.prems True n by (simp add: reads_def)
    then show ?thesis by (simp add: True n)
  next
    case False
    let ?rest = "join '', '' (map json_dump xs)"
    have j: "join '', '' (map json_dump (x # xs)) = json_dump x @ CHR '','' # CHR '' '' # ?rest"
      using False by (cases xs) auto
    have len: "length (json_dump x) \<le> m" "length ?rest + 1 \<le> m"
      using Cons.prems(3) [unfolded j] n by simp_all
    have "json_value m (json_dump x @ CHR '','' # CHR '' '' # ?rest @ CHR '']'' # r)
        = Some (x, CHR '','' # CHR '' '' # ?rest @ CHR '']'' # r)"
      using Cons.prems len by (simp add: reads_def)
    moreover have "skip_ws (?rest @ CHR '']'' # r) = ?rest @ CHR '']'' # r"
    proof -
      obtain y ys where "xs = y # ys" "json_plain y" using False Cons.prems by (cases xs) auto
      then show ?thesis using dump_head [of y] by (cases ys) (auto simp: skip_ws_def)
    qed
    ultimately show ?thesis
      unfolding j n using Cons.IH [of m "x # acc"] Cons.prems(1) len False by simp
  qed
qed simp

lemma dput_fresh_append: "k \<notin> fst ` set acc \<Longrightarrow> dput k v acc = acc @ [(k, v)]"
  by (rule dput_new) simp

lemma members_read:
  assumes "\<forall>(k, x) \<in> set d. reads x \<and> json_plain x" and "d \<noteq> []" and "dict_ok (acc @ d)"
    and "length (join '', '' (map (\<lambda>(k, x). json_lit k @ '': '' @ json_dump x) d)) + 1 \<le> n"
  shows "json_members n acc (join '', '' (map (\<lambda>(k, x). json_lit k @ '': '' @ json_dump x) d) @ CHR ''}'' # r)
     = Some (PDict (acc @ d), r)"
  using assms
proof (induction d arbitrary: n acc)
  case (Cons p d)
  obtain k x where p: "p = (k, x)" by force
  let ?f = "\<lambda>(k, x). json_lit k @ '': '' @ json_dump x"
  obtain m where n: "n = Suc m" using Cons.prems(4) by (cases n) auto
  have fresh: "dput k x acc = acc @ [(k, x)]"
    using Cons.prems(3) p by (intro dput_fresh_append) auto
  have ok: "reads x" "json_plain x" using Cons.prems(1) p by auto
  have lit: "json_lit k @ s = CHR 0x22 # concat (map json_raw_char k) @ CHR 0x22 # s" for k s
    by (simp add: json_lit_def)
  show ?case
  proof (cases "d = []")
    case True
    have "json_value m (json_dump x @ CHR ''}'' # r) = Some (x, CHR ''}'' # r)"
      using Cons.prems(4) True n p ok by (simp add: reads_def)
    then show ?thesis
      by (simp add: True n p lit json_str_lit skip_ws_dump [OF ok(2)] fresh)
  next
    case False
    let ?rest = "join '', '' (map ?f d)"
    have j: "join '', '' (map ?f (p # d)) = json_lit k @ CHR '':'' # CHR '' '' # json_dump x @ CHR '','' # CHR '' '' # ?rest"
      using False p by (cases d) auto
    have len: "length (json_dump x) \<le> m" "length ?rest + 1 \<le> m"
      using Cons.prems(4) [unfolded j] n by simp_all
    have "json_value m (json_dump x @ CHR '','' # CHR '' '' # ?rest @ CHR ''}'' # r)
        = Some (x, CHR '','' # CHR '' '' # ?rest @ CHR ''}'' # r)"
      using ok len by (simp add: reads_def)
    moreover have "skip_ws (?rest @ CHR ''}'' # r) = ?rest @ CHR ''}'' # r"
    proof -
      obtain q ds where "d = q # ds" using False by (cases d) auto
      then show ?thesis by (cases ds) (auto simp: case_prod_unfold lit)
    qed
    moreover have "json_members m (acc @ [(k, x)]) (?rest @ CHR ''}'' # r) = Some (PDict (acc @ (k, x) # d), r)"
      using Cons.IH [of "acc @ [(k, x)]" m] Cons.prems p len False by simp
    ultimately show ?thesis
      unfolding j n by (simp add: p lit json_str_lit skip_ws_dump [OF ok(2)] fresh)
  qed
qed simp

lemma json_constants:
  assumes "0 < n"
  shows "json_value n (CHR ''n'' # CHR ''u'' # CHR ''l'' # CHR ''l'' # r) = Some (PNone, r)"
    "json_value n (CHR ''t'' # CHR ''r'' # CHR ''u'' # CHR ''e'' # r) = Some (PBool True, r)"
    "json_value n (CHR ''f'' # CHR ''a'' # CHR ''l'' # CHR ''s'' # CHR ''e'' # r) = Some (PBool False, r)"
  using assms by (cases n; simp add: starts_with_def)+

lemma json_plain_reads: "json_plain v \<Longrightarrow> reads v"
proof (induction v)
  case (PInt i)
  show ?case
    unfolding reads_def
  proof (intro allI impI)
    fix n r
    assume "ends_number r" "length (json_dump (PInt i)) \<le> n"
    moreover have "int_str i \<noteq> []" by (rule int_str_plain(3))
    ultimately obtain m where "n = Suc m" by (cases n) auto
    then show "json_value n (json_dump (PInt i) @ r) = Some (PInt i, r)"
      using json_value_int [OF \<open>ends_number r\<close>] by simp
  qed
next
  case (PStr s)
  show ?case
    unfolding reads_def
  proof (intro allI impI)
    fix n r
    assume "length (json_dump (PStr s)) \<le> n"
    then obtain m where n: "n = Suc m" by (cases n) (auto simp: json_lit_def)
    show "json_value n (json_dump (PStr s) @ r) = Some (PStr s, r)"
      by (simp add: n json_lit_def starts_with_def json_str_lit)
  qed
next
  case (PList xs)
  have all: "\<forall>x \<in> set xs. reads x \<and> json_plain x" using PList by (auto simp: list_all_iff)
  show ?case
    unfolding reads_def
  proof (intro allI impI)
    fix n r
    assume len: "length (json_dump (PList xs)) \<le> n"
    then obtain m where n: "n = Suc m" by (cases n) auto
    show "json_value n (json_dump (PList xs) @ r) = Some (PList xs, r)"
    proof (cases xs)
      case Nil
      then show ?thesis by (simp add: n starts_with_def)
    next
      case (Cons y ys)
      obtain c t where y: "json_dump y = c # t" "\<not> json_space c" "c \<noteq> CHR '']''"
        using dump_head [of y] all Cons by auto
      have hd: "\<exists>u. join '', '' (map json_dump xs) = c # u" using y Cons by (cases ys) auto
      have "json_items m [] (join '', '' (map json_dump xs) @ CHR '']'' # r) = Some (PList xs, r)"
        using items_read [OF all, of m "[]" r] len n Cons by simp
      then show ?thesis using hd y by (auto simp: n starts_with_def skip_ws_def)
    qed
  qed
next
  case (PDict d)
  have all: "\<forall>(k, x) \<in> set d. reads x \<and> json_plain x" and dok: "dict_ok d"
    using PDict by (fastforce simp: list_all_iff)+
  have printed: "json_dump (PDict d) = CHR ''{'' # join '', '' (map (\<lambda>(k, x). json_lit k @ '': '' @ json_dump x) d) @ ''}''"
    by (simp add: comp_def case_prod_unfold)
  show ?case
    unfolding reads_def printed
  proof (intro allI impI)
    fix n r
    assume len: "length (CHR ''{'' # join '', '' (map (\<lambda>(k, x). json_lit k @ '': '' @ json_dump x) d) @ ''}'') \<le> n"
    then obtain m where n: "n = Suc m" by (cases n) auto
    let ?t = "join '', '' (map (\<lambda>(k, x). json_lit k @ '': '' @ json_dump x) d)"
    show "json_value n ((CHR ''{'' # ?t @ ''}'') @ r) = Some (PDict d, r)"
    proof (cases "d = []")
      case True
      then show ?thesis by (simp add: n starts_with_def)
    next
      case False
      then have hd: "\<exists>u. ?t = CHR 0x22 # u" by (cases d; cases "tl d") (auto simp: json_lit_def)
      have "json_members m [] (?t @ CHR ''}'' # r) = Some (PDict d, r)"
        using members_read [OF all False, of "[]" m r] dok len n by simp
      then show ?thesis using hd by (auto simp: n starts_with_def)
    qed
  qed
qed (simp_all add: reads_def json_constants split: if_splits)

lemma json_round_trip: 
  assumes "json_plain v"
  shows "json_loads (json_dump v) = Some v"
proof -
  have r: "ends_number []" and len: "length (json_dump v) \<le> 2 * length (json_dump v) + 2"
    by (simp_all add: ends_number_def)
  note json_plain_reads [OF assms, unfolded reads_def, rule_format, OF r len]
  moreover have "skip_ws (json_dump v) = json_dump v" using skip_ws_dump [OF assms, of "[]"] by simp
  moreover have "skip_ws [] = []" by (simp add: skip_ws_def)
  ultimately show ?thesis by (simp add: json_loads_def del: json_value.simps)
qed

end
