(* ===== verification/ToolSchema.thy ===== *)
theory ToolSchema
  imports ReplayPlan
begin

text \<open>
  Tools of the agent (\<open>src/agents/openclaw/tools/base.py\<close> and \<open>registry.py\<close>): the cast of
  arguments to the types of a JSON schema, the validation against it, and the registry that
  resolves, casts, validates and executes a call. A schema is a Python dictionary, so that a
  malformed one raises as the code does. The lemmas relate the validator to a declarative
  judgement \<open>conforms\<close>: what is accepted conforms, and the cast leaves it alone.
\<close>

subsection \<open>Equality and order of values\<close>

text \<open>The numeric value of a number; booleans are numbers in Python.\<close>

fun num_of :: "pyval \<Rightarrow> rat option" where
  "num_of (PBool b) = Some (if b then 1 else 0)"
| "num_of (PInt i) = Some (of_int i)"
| "num_of (PFloat q) = Some q"
| "num_of _ = None"

text \<open>\<open>a == b\<close>.\<close>

function (sequential) py_eq :: "pyval \<Rightarrow> pyval \<Rightarrow> bool" where
  "py_eq PNone PNone = True"
| "py_eq (PStr s) (PStr t) = (s = t)"
| "py_eq (PList xs) (PList ys) = (length xs = length ys \<and> list_all (\<lambda>(x, y). py_eq x y) (zip xs ys))"
| "py_eq (PDict d) (PDict e) =
     (length d = length e \<and> list_all (\<lambda>(k, v). case dget e k of None \<Rightarrow> False | Some w \<Rightarrow> py_eq v w) d)"
| "py_eq a b = (case (num_of a, num_of b) of (Some x, Some y) \<Rightarrow> x = y | _ \<Rightarrow> False)"
  by pat_completeness auto

lemma size_zip_left: "(x, y) \<in> set (zip xs ys) \<Longrightarrow> size x < Suc (size_list size xs)"
  by (metis less_SucI less_Suc_eq_le set_zip_leftD size_list_estimation' order_refl)

lemma size_dict_value: "(k, v) \<in> set d \<Longrightarrow> size v < Suc (size_list (size_prod (\<lambda>x. 0) size) d)"
  by (induction d) auto

termination py_eq
  by (relation "measure (\<lambda>(a, b). size a)") (auto intro: size_zip_left size_dict_value)

text \<open>\<open>a < b\<close> on numbers; other values raise.\<close>

definition py_less :: "pyval \<Rightarrow> pyval \<Rightarrow> bool res" where
  "py_less a b =
     (case (num_of a, num_of b) of
        (Some x, Some y) \<Rightarrow> Inr (x < y) | _ \<Rightarrow> Inl (TypeError ''not supported between instances''))"

text \<open>\<open>v in xs\<close> for a list.\<close>

definition py_in :: "pyval \<Rightarrow> pyval \<Rightarrow> bool res" where
  "py_in v xs =
     (case xs of PList es \<Rightarrow> Inr (list_ex (py_eq v) es) | _ \<Rightarrow> Inl (TypeError ''argument is not iterable''))"

subsection \<open>Types of a schema\<close>

definition type_names :: "string set" where
  "type_names = {''string'', ''integer'', ''number'', ''boolean'', ''array'', ''object''}"

text \<open>The first type of a union that is not null.\<close>

definition resolve_type :: "pyval \<Rightarrow> pyval" where
  "resolve_type t =
     (case t of
        PList items \<Rightarrow> (case filter (\<lambda>x. x \<noteq> PStr ''null'') items of [] \<Rightarrow> PNone | x # _ \<Rightarrow> x)
      | _ \<Rightarrow> t)"

text \<open>\<open>isinstance(v, _TYPE_MAP[t])\<close>, with the booleans excluded from the numbers as \<open>_validate\<close> does.\<close>

fun type_matches :: "string \<Rightarrow> pyval \<Rightarrow> bool" where
  "type_matches t v =
     (if t = ''string'' then is_py_str v
      else if t = ''integer'' then is_py_int v \<and> \<not> is_py_bool v
      else if t = ''number'' then num_of v \<noteq> None \<and> \<not> is_py_bool v
      else if t = ''boolean'' then is_py_bool v
      else if t = ''array'' then is_py_list v
      else if t = ''object'' then is_py_dict v
      else True)"

text \<open>A type that is not a string is in no table; one that cannot be hashed raises there.\<close>

definition type_name :: "pyval \<Rightarrow> string option res" where
  "type_name t =
     (case t of
        PStr s \<Rightarrow> Inr (Some s)
      | PList _ \<Rightarrow> Inl (TypeError ''unhashable type'')
      | PDict _ \<Rightarrow> Inl (TypeError ''unhashable type'')
      | _ \<Rightarrow> Inr None)"

subsection \<open>Casting\<close>

definition cast_scalar :: "string \<Rightarrow> pyval \<Rightarrow> pyval" where
  "cast_scalar t v =
     (if t = ''string'' then (case v of PNone \<Rightarrow> PNone | PStr s \<Rightarrow> PStr s | _ \<Rightarrow> PStr (py_str v))
      else (case v of
        PStr s \<Rightarrow>
          if t = ''integer'' then (case parse_int s of Some i \<Rightarrow> PInt i | None \<Rightarrow> v)
          else if t = ''number'' then (case parse_float s of Some q \<Rightarrow> PFloat q | None \<Rightarrow> v)
          else if t = ''boolean'' then
            (if lower s \<in> {''true'', ''1'', ''yes''} then PBool True
             else if lower s \<in> {''false'', ''0'', ''no''} then PBool False else v)
          else v
      | _ \<Rightarrow> v))"

lemma rmap_cong [fundef_cong]:
  "xs = ys \<Longrightarrow> (\<And>x. x \<in> set ys \<Longrightarrow> f x = g x) \<Longrightarrow> rmap f xs = rmap g ys"
  by (induction xs arbitrary: ys) auto

text \<open>\<open>props[key]\<close> when the key is declared. The properties must be a dictionary, and what is
  declared for a key is read as a schema.\<close>

definition property_schema :: "pyval \<Rightarrow> string \<Rightarrow> pydict option res" where
  "property_schema props k =
     (case props of
        PDict d \<Rightarrow>
          (case dget d k of
             None \<Rightarrow> Inr None
           | Some (PDict s) \<Rightarrow> Inr (Some s)
           | Some _ \<Rightarrow> Inl (AttributeError ''get''))
      | _ \<Rightarrow> Inl (TypeError ''argument is not iterable''))"

definition as_schema :: "pyval \<Rightarrow> pydict res" where
  "as_schema v = (case v of PDict s \<Rightarrow> Inr s | _ \<Rightarrow> Inl (AttributeError ''get''))"

function cast_value :: "pyval \<Rightarrow> pydict \<Rightarrow> pyval res" where
  "cast_value v sc =
     rbind (type_name (resolve_type (pget sc ''type''))) (\<lambda>t.
       case t of
         None \<Rightarrow> Inr v
       | Some t \<Rightarrow>
           if t = ''array'' then
             (case v of
                PList xs \<Rightarrow>
                  if truthy (pget sc ''items'') then
                    rbind (rmap (\<lambda>x. rbind (as_schema (pget sc ''items'')) (cast_value x)) xs) (\<lambda>ys. Inr (PList ys))
                  else Inr v
              | _ \<Rightarrow> Inr v)
           else if t = ''object'' then
             (case v of
                PDict d \<Rightarrow>
                  rbind (rmap (\<lambda>(k, x). rbind (property_schema (pget_or sc ''properties'' (PDict [])) k) (\<lambda>s.
                      case s of None \<Rightarrow> Inr (k, x) | Some s \<Rightarrow> rbind (cast_value x s) (\<lambda>y. Inr (k, y)))) d)
                    (\<lambda>e. Inr (PDict e))
              | _ \<Rightarrow> Inr v)
           else Inr (cast_scalar t v))"
  by pat_completeness auto

lemma size_list_elem: "x \<in> set xs \<Longrightarrow> size x < Suc (size_list size xs)"
  by (simp add: size_list_estimation' le_imp_less_Suc)

termination cast_value
  by (relation "measure (\<lambda>(v, sc). size v)") (auto intro: size_list_elem size_dict_value)

declare cast_value.simps [simp del]

text \<open>\<open>_cast_object\<close> on the arguments of a call.\<close>

definition cast_object :: "pydict \<Rightarrow> pydict \<Rightarrow> pydict res" where
  "cast_object d sc =
     rmap (\<lambda>(k, x). rbind (property_schema (pget_or sc ''properties'' (PDict [])) k) (\<lambda>s.
       case s of None \<Rightarrow> Inr (k, x) | Some s \<Rightarrow> rbind (cast_value x s) (\<lambda>y. Inr (k, y)))) d"

definition cast_params :: "pydict \<Rightarrow> pyval \<Rightarrow> pyval res" where
  "cast_params parameters params =
     (if pget_or parameters ''type'' (PStr ''object'') \<noteq> PStr ''object'' then Inr params
      else
        (case params of
           PDict d \<Rightarrow> rbind (cast_object d parameters) (\<lambda>e. Inr (PDict e))
         | _ \<Rightarrow> Inr params))"

subsection \<open>Validation\<close>

definition is_nullable :: "pydict \<Rightarrow> bool" where
  "is_nullable sc \<longleftrightarrow>
     (case pget sc ''type'' of PList ts \<Rightarrow> PStr ''null'' \<in> set ts | _ \<Rightarrow> False) \<or> truthy (pget sc ''nullable'')"

definition label_of :: "string \<Rightarrow> string" where
  "label_of path = (if path = [] then ''parameter'' else path)"

text \<open>The checks of a value of the right type: enumeration, range, length. Each gives its messages.\<close>

definition enum_errors :: "pyval \<Rightarrow> pydict \<Rightarrow> string \<Rightarrow> string list res" where
  "enum_errors v sc path =
     (case dget sc ''enum'' of
        None \<Rightarrow> Inr []
      | Some es \<Rightarrow> rbind (py_in v es) (\<lambda>b. Inr (if b then [] else [label_of path @ '' must be one of '' @ py_str es])))"

definition limit_errors ::
    "pyval \<Rightarrow> pydict \<Rightarrow> string \<Rightarrow> string \<Rightarrow> (pyval \<Rightarrow> string) \<Rightarrow> (pyval \<Rightarrow> string) \<Rightarrow> string list res" where
  "limit_errors v sc lo hi too_low too_high =
     rbind (case dget sc lo of
              None \<Rightarrow> Inr [] | Some m \<Rightarrow> rbind (py_less v m) (\<lambda>b. Inr (if b then [too_low m] else [])))
       (\<lambda>es. rbind (case dget sc hi of
              None \<Rightarrow> Inr [] | Some m \<Rightarrow> rbind (py_less m v) (\<lambda>b. Inr (if b then [too_high m] else [])))
       (\<lambda>es'. Inr (es @ es')))"

definition range_errors :: "pyval \<Rightarrow> pydict \<Rightarrow> string \<Rightarrow> string list res" where
  "range_errors v sc path =
     limit_errors v sc ''minimum'' ''maximum''
       (\<lambda>m. label_of path @ '' must be >= '' @ py_str m) (\<lambda>m. label_of path @ '' must be <= '' @ py_str m)"

definition length_errors :: "string \<Rightarrow> pydict \<Rightarrow> string \<Rightarrow> string list res" where
  "length_errors s sc path =
     limit_errors (PInt (int (length s))) sc ''minLength'' ''maxLength''
       (\<lambda>m. label_of path @ '' must be at least '' @ py_str m @ '' chars'')
       (\<lambda>m. label_of path @ '' must be at most '' @ py_str m @ '' chars'')"

definition dotted :: "string \<Rightarrow> string \<Rightarrow> string" where
  "dotted path k = (if path = [] then k else path @ ''.'' @ k)"

definition required_errors :: "pydict \<Rightarrow> pydict \<Rightarrow> string \<Rightarrow> string list res" where
  "required_errors d sc path =
     (case pget_or sc ''required'' (PList []) of
        PList ks \<Rightarrow>
          rbind (rmap (\<lambda>k. case k of
              PStr s \<Rightarrow> Inr (if dget d s = None then [''missing required '' @ dotted path s] else [])
            | _ \<Rightarrow> Inl (TypeError ''required'')) ks) (\<lambda>es. Inr (concat es))
      | _ \<Rightarrow> Inl (TypeError ''not iterable''))"

text \<open>What \<open>_validate\<close> checks before it looks inside: the type, and the own constraints.\<close>

definition own_errors :: "pyval \<Rightarrow> pydict \<Rightarrow> string option \<Rightarrow> string \<Rightarrow> string list res" where
  "own_errors v sc t path =
     rbind (enum_errors v sc path) (\<lambda>es.
     rbind (if t = Some ''integer'' \<or> t = Some ''number'' then range_errors v sc path else Inr []) (\<lambda>rs.
     rbind (case v of PStr s \<Rightarrow> if t = Some ''string'' then length_errors s sc path else Inr [] | _ \<Rightarrow> Inr []) (\<lambda>ls.
       Inr (es @ rs @ ls))))"

function validate_value :: "pyval \<Rightarrow> pydict \<Rightarrow> string \<Rightarrow> string list res" where
  "validate_value v sc path =
     (if is_nullable sc \<and> v = PNone then Inr []
      else
        rbind (type_name (resolve_type (pget sc ''type''))) (\<lambda>t.
          if case t of Some n \<Rightarrow> \<not> type_matches n v | None \<Rightarrow> False then
            Inr [label_of path @ '' should be '' @ the t]
          else
            rbind (own_errors v sc t path) (\<lambda>own.
              case v of
                PDict d \<Rightarrow>
                  if t = Some ''object'' then
                    rbind (required_errors d sc path) (\<lambda>missing.
                    rbind (rmap (\<lambda>(k, x). rbind (property_schema (pget_or sc ''properties'' (PDict [])) k) (\<lambda>s.
                        case s of None \<Rightarrow> Inr [] | Some s \<Rightarrow> validate_value x s (dotted path k))) d) (\<lambda>inner.
                      Inr (own @ missing @ concat inner)))
                  else Inr own
              | PList xs \<Rightarrow>
                  if t = Some ''array'' \<and> dget sc ''items'' \<noteq> None then
                    rbind (rmap (\<lambda>(i, x). rbind (as_schema (pget sc ''items'')) (\<lambda>s.
                        validate_value x s (path @ ''['' @ nat_digits i @ '']''))) (zip [0..<length xs] xs)) (\<lambda>inner.
                      Inr (own @ concat inner))
                  else Inr own
              | _ \<Rightarrow> Inr own)))"
  by pat_completeness auto

lemma size_zip_right: "(i, x) \<in> set (zip is xs) \<Longrightarrow> size x < Suc (size_list size xs)"
  by (rule size_list_elem) (rule set_zip_rightD)

termination validate_value
  by (relation "measure (\<lambda>(v, sc, path). size v)") (auto intro: size_zip_right size_dict_value)

declare validate_value.simps [simp del]

definition validate_params :: "pydict \<Rightarrow> pyval \<Rightarrow> string list res" where
  "validate_params parameters params =
     (case params of
        PDict d \<Rightarrow>
          if pget_or parameters ''type'' (PStr ''object'') \<noteq> PStr ''object''
          then Inl (ValueError ''Schema must be object type'')
          else validate_value (PDict d) (dput ''type'' (PStr ''object'') parameters) []
      | _ \<Rightarrow> Inr [''parameters must be an object''])"

subsection \<open>The judgement\<close>

text \<open>The constraints on a value itself: a number in the range, a string of the length, a value of
  the enumeration.\<close>

definition bounded_by :: "pyval \<Rightarrow> pydict \<Rightarrow> string \<Rightarrow> string \<Rightarrow> bool" where
  "bounded_by v sc lo hi \<longleftrightarrow>
     (\<forall>m. dget sc lo = Some m \<longrightarrow> (\<exists>x y. num_of v = Some x \<and> num_of m = Some y \<and> y \<le> x)) \<and>
     (\<forall>m. dget sc hi = Some m \<longrightarrow> (\<exists>x y. num_of v = Some x \<and> num_of m = Some y \<and> x \<le> y))"

definition satisfies_own :: "pyval \<Rightarrow> pydict \<Rightarrow> string option \<Rightarrow> bool" where
  "satisfies_own v sc t \<longleftrightarrow>
     (\<forall>es. dget sc ''enum'' = Some es \<longrightarrow> (\<exists>l. es = PList l \<and> (\<exists>e \<in> set l. py_eq v e))) \<and>
     (t \<in> {Some ''integer'', Some ''number''} \<longrightarrow> bounded_by v sc ''minimum'' ''maximum'') \<and>
     (\<forall>s. t = Some ''string'' \<and> v = PStr s \<longrightarrow> bounded_by (PInt (int (length s))) sc ''minLength'' ''maxLength'')"

inductive conforms :: "pyval \<Rightarrow> pydict \<Rightarrow> bool" where
  conforms_null: "is_nullable sc \<Longrightarrow> conforms PNone sc"
| conforms_atom:
    "type_name (resolve_type (pget sc ''type'')) = Inr t \<Longrightarrow> t \<notin> {Some ''array'', Some ''object''} \<Longrightarrow>
     (\<And>n. t = Some n \<Longrightarrow> type_matches n v) \<Longrightarrow> satisfies_own v sc t \<Longrightarrow> conforms v sc"
| conforms_array:
    "resolve_type (pget sc ''type'') = PStr ''array'' \<Longrightarrow> satisfies_own (PList xs) sc (Some ''array'') \<Longrightarrow>
     (\<And>x. x \<in> set xs \<Longrightarrow> dget sc ''items'' \<noteq> None \<Longrightarrow>
        \<exists>s. dget sc ''items'' = Some (PDict s) \<and> conforms x s) \<Longrightarrow> conforms (PList xs) sc"
| conforms_object:
    "resolve_type (pget sc ''type'') = PStr ''object'' \<Longrightarrow> satisfies_own (PDict d) sc (Some ''object'') \<Longrightarrow>
     pget_or sc ''required'' (PList []) = PList (map PStr ks) \<Longrightarrow> (\<And>k. k \<in> set ks \<Longrightarrow> dget d k \<noteq> None) \<Longrightarrow>
     (\<And>k x. (k, x) \<in> set d \<Longrightarrow> \<exists>q. property_schema (pget_or sc ''properties'' (PDict [])) k = Inr q \<and>
        (\<forall>s. q = Some s \<longrightarrow> conforms x s)) \<Longrightarrow> conforms (PDict d) sc"

subsection \<open>Lemmas: the validator decides the judgement\<close>

lemma limit_ok: "num_of v \<noteq> None \<Longrightarrow> limit_errors v sc lo hi f g = Inr [] \<longleftrightarrow> bounded_by v sc lo hi"
  by (cases "dget sc lo"; cases "dget sc hi")
    (auto simp: limit_errors_def bounded_by_def py_less_def rbind_eq_Inr not_less split: option.splits if_splits)

lemma enum_ok: "enum_errors v sc path = Inr [] \<longleftrightarrow>
    (\<forall>es. dget sc ''enum'' = Some es \<longrightarrow> (\<exists>l. es = PList l \<and> (\<exists>e \<in> set l. py_eq v e)))"
  by (auto simp: enum_errors_def py_in_def list_ex_iff split: option.splits pyval.splits)

lemma rbind_appends: "rbind m (\<lambda>xs. rbind n (\<lambda>ys. Inr (xs @ ys))) = Inr [] \<longleftrightarrow> m = Inr [] \<and> n = Inr []"
  by (auto simp: rbind_eq_Inr)

lemma own_ok:
  assumes "\<And>n. t = Some n \<Longrightarrow> type_matches n v"
  shows "own_errors v sc t path = Inr [] \<longleftrightarrow> satisfies_own v sc t"
proof -
  have num: "num_of v \<noteq> None" if "t = Some ''integer'' \<or> t = Some ''number''"
    using assms that by (cases v) auto
  have len: "length_errors s sc path = Inr [] \<longleftrightarrow> bounded_by (PInt (int (length s))) sc ''minLength'' ''maxLength''" for s
    unfolding length_errors_def by (rule limit_ok) simp
  have rng: "range_errors v sc path = Inr [] \<longleftrightarrow> bounded_by v sc ''minimum'' ''maximum''"
    if "t = Some ''integer'' \<or> t = Some ''number''"
    unfolding range_errors_def by (rule limit_ok [OF num [OF that]])
  have str: "(case v of PStr s \<Rightarrow> if t = Some ''string'' then length_errors s sc path else Inr [] | _ \<Rightarrow> Inr []) = Inr []
      \<longleftrightarrow> (\<forall>s. t = Some ''string'' \<and> v = PStr s \<longrightarrow> length_errors s sc path = Inr [])"
    by (cases v) auto
  have split: "own_errors v sc t path = Inr [] \<longleftrightarrow> enum_errors v sc path = Inr [] \<and>
      ((t = Some ''integer'' \<or> t = Some ''number'') \<longrightarrow> range_errors v sc path = Inr []) \<and>
      (\<forall>s. t = Some ''string'' \<and> v = PStr s \<longrightarrow> length_errors s sc path = Inr [])"
    unfolding own_errors_def str [symmetric] by (auto simp: rbind_eq_Inr)
  show ?thesis
    unfolding split satisfies_own_def using rng len enum_ok by auto
qed

text \<open>The messages of the parts.\<close>

lemma rmap_all_empty:
  "(\<exists>ys. rmap f xs = Inr ys \<and> concat ys = []) \<longleftrightarrow> (\<forall>x \<in> set xs. f x = Inr [])"
  by (induction xs) (auto simp: rbind_eq_Inr)

lemma all_strings:
  "(\<forall>v \<in> set vs. \<exists>s. v = PStr s \<and> P s) \<longleftrightarrow> (\<exists>ks. vs = map PStr ks \<and> (\<forall>k \<in> set ks. P k))"
proof
  assume "\<forall>v \<in> set vs. \<exists>s. v = PStr s \<and> P s"
  then have "vs = map PStr (map py_str vs) \<and> (\<forall>k \<in> set (map py_str vs). P k)"
    by (induction vs) auto
  then show "\<exists>ks. vs = map PStr ks \<and> (\<forall>k \<in> set ks. P k)" by blast
qed auto

lemma required_ok:
  "required_errors d sc path = Inr [] \<longleftrightarrow>
     (\<exists>ks. pget_or sc ''required'' (PList []) = PList (map PStr ks) \<and> (\<forall>k \<in> set ks. dget d k \<noteq> None))"
proof (cases "pget_or sc ''required'' (PList [])")
  case (PList vs)
  let ?f = "\<lambda>k. case k of PStr s \<Rightarrow> Inr (if dget d s = None then [''missing required '' @ dotted path s] else [])
            | _ \<Rightarrow> Inl (TypeError ''required'')"
  have f: "?f v = Inr [] \<longleftrightarrow> (\<exists>s. v = PStr s \<and> dget d s \<noteq> None)" for v
    by (cases v) auto
  have "required_errors d sc path = Inr [] \<longleftrightarrow> (\<exists>es. rmap ?f vs = Inr es \<and> concat es = [])"
    by (auto simp: required_errors_def PList rbind_eq_Inr)
  then show ?thesis by (simp only: rmap_all_empty f all_strings PList pyval.inject)
qed (simp_all add: required_errors_def)

lemma type_name_Some: "type_name v = Inr (Some t) \<longleftrightarrow> v = PStr t"
  by (auto simp: type_name_def split: pyval.splits)

text \<open>One step of the validator on an array and on an object of the right type.\<close>

lemma validate_array:
  assumes "resolve_type (pget sc ''type'') = PStr ''array''"
  shows "validate_value (PList xs) sc path = Inr [] \<longleftrightarrow>
    own_errors (PList xs) sc (Some ''array'') path = Inr [] \<and>
    (dget sc ''items'' \<noteq> None \<longrightarrow>
      (\<forall>i < length xs. rbind (as_schema (pget sc ''items'')) (\<lambda>s.
          validate_value (xs ! i) s (path @ ''['' @ nat_digits i @ '']'')) = Inr []))"
proof -
  have "(\<forall>p \<in> set (zip [0..<length xs] xs). f (fst p) (snd p) = Inr []) \<longleftrightarrow> (\<forall>i < length xs. f i (xs ! i) = Inr [])"
    for f :: "nat \<Rightarrow> pyval \<Rightarrow> string list res"
  proof
    assume h: "\<forall>p \<in> set (zip [0..<length xs] xs). f (fst p) (snd p) = Inr []"
    show "\<forall>i < length xs. f i (xs ! i) = Inr []"
    proof (intro allI impI)
      fix i
      assume "i < length xs"
      then have "zip [0..<length xs] xs ! i \<in> set (zip [0..<length xs] xs)" by (intro nth_mem) simp
      then show "f i (xs ! i) = Inr []" using h \<open>i < length xs\<close> by fastforce
    qed
  qed (auto simp: set_zip)
  note idx = this [of "\<lambda>i x. rbind (as_schema (pget sc ''items'')) (\<lambda>s. validate_value x s (path @ ''['' @ nat_digits i @ '']''))"]
  show ?thesis
    using assms idx rmap_all_empty [of "\<lambda>(i, x). rbind (as_schema (pget sc ''items'')) (\<lambda>s.
          validate_value x s (path @ ''['' @ nat_digits i @ '']''))" "zip [0..<length xs] xs"]
    by (subst validate_value.simps) (auto simp: type_name_def rbind_eq_Inr case_prod_unfold)
qed

lemma validate_object:
  assumes "resolve_type (pget sc ''type'') = PStr ''object''"
  shows "validate_value (PDict d) sc path = Inr [] \<longleftrightarrow>
    own_errors (PDict d) sc (Some ''object'') path = Inr [] \<and> required_errors d sc path = Inr [] \<and>
    (\<forall>(k, x) \<in> set d. rbind (property_schema (pget_or sc ''properties'' (PDict [])) k) (\<lambda>s.
        case s of None \<Rightarrow> Inr [] | Some s \<Rightarrow> validate_value x s (dotted path k)) = Inr [])"
  using assms rmap_all_empty [of "\<lambda>(k, x). rbind (property_schema (pget_or sc ''properties'' (PDict [])) k) (\<lambda>s.
        case s of None \<Rightarrow> Inr [] | Some s \<Rightarrow> validate_value x s (dotted path k))" d]
  by (subst validate_value.simps) (auto simp: type_name_def rbind_eq_Inr case_prod_unfold)

lemma validate_atom:
  assumes "type_name (resolve_type (pget sc ''type'')) = Inr t" and "t \<notin> {Some ''array'', Some ''object''}"
    and "\<not> (is_nullable sc \<and> v = PNone)"
  shows "validate_value v sc path = Inr [] \<longleftrightarrow>
    (\<forall>n. t = Some n \<longrightarrow> type_matches n v) \<and> own_errors v sc t path = Inr []"
  using assms
  by (cases v; cases t; subst validate_value.simps; auto simp: rbind_eq_Inr simp del: type_matches.simps)

lemma conforms_validates: "conforms v sc \<Longrightarrow> validate_value v sc path = Inr []"
proof (induction arbitrary: path rule: conforms.induct)
  case (conforms_null sc)
  then show ?case by (subst validate_value.simps) simp
next
  case (conforms_atom sc t v)
  show ?case
  proof (cases "is_nullable sc \<and> v = PNone")
    case True
    then show ?thesis by (subst validate_value.simps) simp
  next
    case False
    then show ?thesis
      using conforms_atom own_ok [of t v sc path] validate_atom [of sc t v path] by blast
  qed
next
  case (conforms_array sc xs)
  have "own_errors (PList xs) sc (Some ''array'') path = Inr []"
    using conforms_array(2) by (subst own_ok) auto
  moreover have "rbind (as_schema (pget sc ''items'')) (\<lambda>s. validate_value (xs ! i) s p) = Inr []"
    if "dget sc ''items'' \<noteq> None" "i < length xs" for i p
    using conforms_array(3) [OF nth_mem [OF that(2)] that(1)] by (auto simp: pget_def as_schema_def)
  ultimately show ?case using validate_array [OF conforms_array(1)] by simp
next
  case (conforms_object sc d ks)
  have "own_errors (PDict d) sc (Some ''object'') path = Inr []"
    using conforms_object(2) by (subst own_ok) auto
  moreover have "required_errors d sc path = Inr []"
    using conforms_object(3,4) by (auto simp: required_ok)
  moreover have "rbind (property_schema (pget_or sc ''properties'' (PDict [])) k) (\<lambda>s.
      case s of None \<Rightarrow> Inr [] | Some s \<Rightarrow> validate_value x s (dotted path k)) = Inr []" if "(k, x) \<in> set d" for k x
    using conforms_object(5) [OF that] by (auto split: option.splits)
  ultimately show ?case using validate_object [OF conforms_object(1)] by auto
qed

lemma validates_conforms: "validate_value v sc path = Inr [] \<Longrightarrow> conforms v sc"
proof (induction "size v" arbitrary: v sc path rule: less_induct)
  case less
  show ?case
  proof (cases "is_nullable sc \<and> v = PNone")
    case True
    then show ?thesis by (auto intro: conforms_null)
  next
    case False
    then obtain t where t: "type_name (resolve_type (pget sc ''type'')) = Inr t"
      using less.prems by (subst (asm) validate_value.simps) (auto simp: rbind_eq_Inr)
    consider (arr) "t = Some ''array''" | (obj) "t = Some ''object''" | (atom) "t \<notin> {Some ''array'', Some ''object''}" by auto
    then show ?thesis
    proof cases
      case arr
      then have ty: "resolve_type (pget sc ''type'') = PStr ''array''" using t by (simp add: type_name_Some)
      then obtain xs where v: "v = PList xs"
        using less.prems False by (cases v; subst (asm) validate_value.simps) (auto simp: type_name_def)
      note ok = less.prems [unfolded v validate_array [OF ty]]
      show ?thesis
        unfolding v
      proof (rule conforms_array [OF ty])
        show "satisfies_own (PList xs) sc (Some ''array'')" using ok by (subst (asm) own_ok) auto
        show "\<exists>s. dget sc ''items'' = Some (PDict s) \<and> conforms x s" if x: "x \<in> set xs" and it: "dget sc ''items'' \<noteq> None" for x
        proof -
          obtain i where i: "i < length xs" "x = xs ! i" using x by (auto simp: in_set_conv_nth)
          then obtain s p where "dget sc ''items'' = Some (PDict s)" "validate_value x s p = Inr []"
            using ok it by (auto simp: rbind_eq_Inr as_schema_def pget_def split: pyval.splits)
          then show ?thesis using less.hyps [of x s p] size_list_elem [OF x] v by auto
        qed
      qed
    next
      case obj
      then have ty: "resolve_type (pget sc ''type'') = PStr ''object''" using t by (simp add: type_name_Some)
      then obtain d where v: "v = PDict d"
        using less.prems False by (cases v; subst (asm) validate_value.simps) (auto simp: type_name_def)
      note ok = less.prems [unfolded v validate_object [OF ty]]
      obtain ks where ks: "pget_or sc ''required'' (PList []) = PList (map PStr ks)" "\<forall>k \<in> set ks. dget d k \<noteq> None"
        using ok by (auto simp: required_ok)
      show ?thesis
        unfolding v
      proof (rule conforms_object [OF ty _ ks(1)])
        show "satisfies_own (PDict d) sc (Some ''object'')" using ok by (subst (asm) own_ok) auto
        show "dget d k \<noteq> None" if "k \<in> set ks" for k using ks(2) that by simp
        show "\<exists>q. property_schema (pget_or sc ''properties'' (PDict [])) k = Inr q \<and> (\<forall>s. q = Some s \<longrightarrow> conforms x s)"
          if "(k, x) \<in> set d" for k x
          using ok that less.hyps [of x _ "dotted path k"] size_dict_value [OF that] v
          by (fastforce simp: rbind_eq_Inr split: option.splits)
      qed
    next
      case atom
      then show ?thesis
        using less.prems validate_atom [OF t atom False] own_ok [of t v sc path]
        by (auto intro!: conforms_atom [OF t] simp del: type_matches.simps)
    qed
  qed
qed

subsection \<open>Lemmas: the cast keeps what conforms\<close>

text \<open>A schema whose types, at every depth, can be looked up.\<close>

inductive schema_ok :: "pydict \<Rightarrow> bool" where
  "type_name (resolve_type (pget sc ''type'')) = Inr t \<Longrightarrow>
   (\<And>s. dget sc ''items'' = Some (PDict s) \<Longrightarrow> schema_ok s) \<Longrightarrow>
   (\<And>k s. property_schema (pget_or sc ''properties'' (PDict [])) k = Inr (Some s) \<Longrightarrow> schema_ok s) \<Longrightarrow>
   schema_ok sc"

lemma rmap_same: "(\<And>x. x \<in> set xs \<Longrightarrow> f x = Inr x) \<Longrightarrow> rmap f xs = Inr xs"
  using rmap_ok [of xs f id] by simp

lemma cast_scalar_same: "type_matches t v \<Longrightarrow> t \<notin> {''array'', ''object''} \<Longrightarrow> cast_scalar t v = v"
  by (cases v) (auto simp: cast_scalar_def split: if_splits)

lemma cast_object_same:
  assumes "\<And>k x. (k, x) \<in> set d \<Longrightarrow> \<exists>q. property_schema (pget_or sc ''properties'' (PDict [])) k = Inr q \<and>
      (\<forall>s. q = Some s \<longrightarrow> cast_value x s = Inr x)"
  shows "cast_object d sc = Inr d"
  unfolding cast_object_def by (rule rmap_same) (use assms in \<open>fastforce split: option.splits\<close>)

lemma conforms_cast: "conforms v sc \<Longrightarrow> schema_ok sc \<Longrightarrow> cast_value v sc = Inr v"
proof (induction rule: conforms.induct)
  case (conforms_null sc)
  then obtain t where "type_name (resolve_type (pget sc ''type'')) = Inr t" by (auto elim: schema_ok.cases)
  then show ?case by (subst cast_value.simps) (auto simp: cast_scalar_def split: option.split)
next
  case (conforms_atom sc t v)
  then show ?case
    using cast_scalar_same by (subst cast_value.simps) (auto split: option.split simp del: type_matches.simps)
next
  case (conforms_array sc xs)
  have "rbind (as_schema (pget sc ''items'')) (cast_value x) = Inr x" if x: "x \<in> set xs" and it: "truthy (pget sc ''items'')" for x
  proof -
    have "dget sc ''items'' \<noteq> None" using it by (auto simp: pget_def split: option.splits)
    then obtain s where s: "dget sc ''items'' = Some (PDict s)" and c: "schema_ok s \<longrightarrow> cast_value x s = Inr x"
      using conforms_array(3) [OF x] by blast
    moreover have "schema_ok s" using conforms_array.prems s by (auto elim: schema_ok.cases)
    ultimately show ?thesis by (simp add: pget_def as_schema_def)
  qed
  then have "truthy (pget sc ''items'') \<Longrightarrow> rmap (\<lambda>x. rbind (as_schema (pget sc ''items'')) (cast_value x)) xs = Inr xs"
    by (auto intro: rmap_same)
  then show ?case using conforms_array(1) by (subst cast_value.simps) (auto simp: type_name_def)
next
  case (conforms_object sc d ks)
  have "cast_object d sc = Inr d"
  proof (rule cast_object_same)
    fix k x
    assume kx: "(k, x) \<in> set d"
    from conforms_object(5) [OF kx] obtain q where
      q: "property_schema (pget_or sc ''properties'' (PDict [])) k = Inr q" "\<forall>s. q = Some s \<longrightarrow> schema_ok s \<longrightarrow> cast_value x s = Inr x"
      by blast
    moreover have "\<forall>s. q = Some s \<longrightarrow> schema_ok s"
      using conforms_object.prems q(1) by (auto elim: schema_ok.cases)
    ultimately show "\<exists>q. property_schema (pget_or sc ''properties'' (PDict [])) k = Inr q \<and>
        (\<forall>s. q = Some s \<longrightarrow> cast_value x s = Inr x)" by blast
  qed
  then show ?case using conforms_object(1) by (subst cast_value.simps) (simp add: type_name_def cast_object_def)
qed

subsection \<open>The registry\<close>

record 'w tool =
  tl_name :: string
  tl_parameters :: pydict
  tl_read_only :: bool
  tl_exclusive :: bool
  tl_run :: "pydict \<Rightarrow> 'w \<Rightarrow> pyval res \<times> 'w"

text \<open>A tool may run beside others when it only reads and does not ask to run alone.\<close>

definition concurrency_safe :: "'w tool \<Rightarrow> bool" where
  "concurrency_safe t \<longleftrightarrow> tl_read_only t \<and> \<not> tl_exclusive t"

type_synonym 'w registry = "(string \<times> 'w tool) list"

definition register_tool :: "'w tool \<Rightarrow> 'w registry \<Rightarrow> 'w registry" where
  "register_tool t reg = dput (tl_name t) t reg"

definition unregister_tool :: "string \<Rightarrow> 'w registry \<Rightarrow> 'w registry" where
  "unregister_tool name reg = dpop name reg"

definition get_tool :: "'w registry \<Rightarrow> string \<Rightarrow> 'w tool option" where
  "get_tool reg name = dget reg name"

definition tool_names :: "'w registry \<Rightarrow> string list" where
  "tool_names reg = dkeys reg"

definition error_message :: "err \<Rightarrow> string" where
  "error_message e = (case e of
     ValueError m \<Rightarrow> m | TypeError m \<Rightarrow> m | RuntimeError m \<Rightarrow> m | SimulateError m \<Rightarrow> m | KeyError m \<Rightarrow> m
   | IndexError m \<Rightarrow> m | OSError m \<Rightarrow> m | PermissionError m \<Rightarrow> m | AttributeError m \<Rightarrow> m | AssertionError m \<Rightarrow> m
   | SubprocessError m \<Rightarrow> m | SystemExit m \<Rightarrow> m)"

definition quoted :: "string \<Rightarrow> string" where
  "quoted s = CHR 0x27 # s @ [CHR 0x27]"

text \<open>Resolve, cast and validate a call: the tool, the arguments as they will be passed, and an
  error text.\<close>

definition prepare_call :: "'w registry \<Rightarrow> string \<Rightarrow> pyval \<Rightarrow> ('w tool option \<times> pyval \<times> string option) res" where
  "prepare_call reg name params =
     (case get_tool reg name of
        None \<Rightarrow> Inr (None, params,
          Some (''Error: Tool '' @ quoted name @ '' not found. Available: '' @ join '', '' (tool_names reg)))
      | Some t \<Rightarrow>
          rbind (cast_params (tl_parameters t) params) (\<lambda>args.
          rbind (validate_params (tl_parameters t) args) (\<lambda>errors.
            Inr (Some t, args,
              if errors \<noteq> [] then Some (''Error: Invalid parameters for tool '' @ quoted name @ '': '' @ join ''; '' errors)
              else None))))"

definition retry_hint :: string where
  "retry_hint = [CHR 0x0A, CHR 0x0A] @ ''[Analyze the error above and try a different approach.]''"

definition registry_execute :: "'w registry \<Rightarrow> string \<Rightarrow> pyval \<Rightarrow> 'w \<Rightarrow> pyval res \<times> 'w" where
  "registry_execute reg name params w =
     (case prepare_call reg name params of
        Inl e \<Rightarrow> (Inl e, w)
      | Inr (t, args, error) \<Rightarrow>
          (case error of
             Some m \<Rightarrow> (Inr (PStr (m @ retry_hint)), w)
           | None \<Rightarrow>
               (case (t, args) of
                  (Some t, PDict d) \<Rightarrow>
                    (case tl_run t d w of
                       (Inl e, w') \<Rightarrow> (Inr (PStr (''Error executing '' @ name @ '': '' @ error_message e @ retry_hint)), w')
                     | (Inr (PStr s), w') \<Rightarrow> (Inr (PStr (if starts_with ''Error'' s then s @ retry_hint else s)), w')
                     | (Inr v, w') \<Rightarrow> (Inr v, w'))
                | _ \<Rightarrow> (Inr (PStr (''Error executing '' @ name @ '': '' @ retry_hint)), w))))"

lemma get_register: "get_tool (register_tool t reg) = (get_tool reg)(tl_name t \<mapsto> t)"
  by (simp add: get_tool_def register_tool_def dict.get_put fun_eq_iff)

lemma get_unregister: "get_tool (unregister_tool n reg) = (get_tool reg)(n := None)"
  by (simp add: get_tool_def unregister_tool_def dict.get_remove fun_eq_iff)

subsection \<open>Properties\<close>

text \<open>The schema of the arguments of a tool, as the validator reads it.\<close>

definition argument_schema :: "pydict \<Rightarrow> pydict" where
  "argument_schema parameters = dput ''type'' (PStr ''object'') parameters"


text \<open>C16: A tool runs only on arguments that conform to its schema, obtained from the call by the
  cast: a call of an unknown tool or with other arguments changes nothing and answers with an
  error text and the hint, and an exception of the tool is such an answer too. Only a schema
  that is itself malformed raises.\<close>
theorem tools_run_on_conforming_arguments:
  assumes "registry_execute reg name params w = (r, w')"
  shows "(\<exists>t args. get_tool reg name = Some t \<and> cast_params (tl_parameters t) params = Inr (PDict args) \<and>
            conforms (PDict args) (argument_schema (tl_parameters t)) \<and> w' = snd (tl_run t args w) \<and> (\<exists>v. r = Inr v)) \<or>
         (w' = w \<and> (\<exists>m. r = Inr (PStr (''Error'' @ m @ retry_hint)))) \<or>
         (w' = w \<and> (\<exists>t e. get_tool reg name = Some t \<and> r = Inl e \<and> prepare_call reg name params = Inl e))"
proof (cases "get_tool reg name")
  case None
  then show ?thesis using assms by (auto simp: registry_execute_def prepare_call_def)
next
  case (Some t)
  show ?thesis
  proof (cases "prepare_call reg name params")
    case (Inl e)
    then show ?thesis using assms Some by (auto simp: registry_execute_def)
  next
    case (Inr p)
    then obtain args errors where c: "cast_params (tl_parameters t) params = Inr args"
      and v: "validate_params (tl_parameters t) args = Inr errors"
      and p: "p = (Some t, args, if errors \<noteq> [] then Some (''Error: Invalid parameters for tool '' @ quoted name @ '': '' @ join ''; '' errors) else None)"
      using Some by (auto simp: prepare_call_def rbind_eq_Inr)
    show ?thesis
    proof (cases "errors = []")
      case False
      then show ?thesis using assms Inr p by (auto simp: registry_execute_def)
    next
      case True
      then obtain d where d: "args = PDict d" and ok: "conforms (PDict d) (argument_schema (tl_parameters t))"
        using v by (auto simp: validate_params_def argument_schema_def dest: validates_conforms split: pyval.splits if_splits)
      obtain x w1 where run: "tl_run t d w = (x, w1)" by force
      then show ?thesis
        using assms Inr p True c ok d Some
        by (auto simp: registry_execute_def split: sum.splits pyval.splits)
    qed
  qed
qed

text \<open>The cast never changes arguments that are already valid, so it is only a repair:
  for a schema whose types can be looked up, the cast of arguments that the validator accepts
  returns them as they are.\<close>
theorem cast_keeps_valid_arguments:
  assumes "validate_params parameters (PDict d) = Inr []" and "schema_ok (argument_schema parameters)"
  shows "cast_params parameters (PDict d) = Inr (PDict d)"
proof -
  have obj: "pget_or parameters ''type'' (PStr ''object'') = PStr ''object''"
    and ok: "validate_value (PDict d) (argument_schema parameters) [] = Inr []"
    using assms(1) by (auto simp: validate_params_def argument_schema_def split: if_splits)
  have ty: "resolve_type (pget (argument_schema parameters) ''type'') = PStr ''object''"
    by (simp add: argument_schema_def pget_def resolve_type_def)
  have props: "pget_or (argument_schema parameters) ''properties'' (PDict []) = pget_or parameters ''properties'' (PDict [])"
    by (simp add: argument_schema_def pget_or_def)
  have "cast_object d parameters = Inr d"
    using conforms_cast [OF validates_conforms [OF ok] assms(2)] ty
    by (subst (asm) cast_value.simps) (auto simp: type_name_def cast_object_def props rbind_eq_Inr)
  then show ?thesis using obj by (simp add: cast_params_def)
qed

definition example_parameters :: pydict where
  "example_parameters =
     [(''type'', PStr ''object''),
      (''properties'', PDict [(''path'', PDict [(''type'', PStr ''string''), (''minLength'', PInt 1)]),
         (''limit'', PDict [(''type'', PList [PStr ''integer'', PStr ''null'']), (''minimum'', PInt 1)])]),
      (''required'', PList [PStr ''path''])]"

definition example_tool :: "string list tool" where
  "example_tool = \<lparr>tl_name = ''read_file'', tl_parameters = example_parameters, tl_read_only = True,
     tl_exclusive = False, tl_run = (\<lambda>args w. (Inr (PStr ''text''), py_str (pget args ''limit'') # w))\<rparr>"

theorem tools_run_on_conforming_arguments_witness:
  "\<exists>args. snd (registry_execute [(''read_file'', example_tool)] ''read_file'' (PDict [(''path'', PStr ''a''), (''limit'', PStr ''20'')]) []) = [''20'']
     \<and> conforms (PDict args) (argument_schema example_parameters)"
proof -
  let ?call = "registry_execute [(''read_file'', example_tool)] ''read_file'' (PDict [(''path'', PStr ''a''), (''limit'', PStr ''20'')]) []"
  have w: "snd ?call = [''20'']" by code_simp
  from tools_run_on_conforming_arguments [OF surjective_pairing [of ?call]] w
  obtain t args where "get_tool [(''read_file'', example_tool)] ''read_file'' = Some t"
    "conforms (PDict args) (argument_schema (tl_parameters t))"
    by (elim disjE exE conjE) simp_all
  then have "conforms (PDict args) (argument_schema example_parameters)"
    by (auto simp: get_tool_def example_tool_def)
  with w show ?thesis by blast
qed

lemma schema_ok_leaf:
  "type_name (resolve_type (pget s ''type'')) = Inr t \<Longrightarrow> dget s ''items'' = None \<Longrightarrow> dget s ''properties'' = None \<Longrightarrow> schema_ok s"
  by (rule schema_ok.intros) (auto simp: property_schema_def pget_or_def)

lemma property_schema_mem: "property_schema (PDict d) k = Inr (Some s) \<Longrightarrow> (k, PDict s) \<in> set d"
  by (auto simp: property_schema_def split: option.splits pyval.splits dest: dget_SomeD)

lemma example_schema_ok: "schema_ok example_parameters"
proof (rule schema_ok.intros [of _ "Some ''object''"])
  show "type_name (resolve_type (pget example_parameters ''type'')) = Inr (Some ''object'')" by code_simp
  show "schema_ok s" if "dget example_parameters ''items'' = Some (PDict s)" for s
    using that by (simp add: example_parameters_def)
  show "schema_ok s" if k: "property_schema (pget_or example_parameters ''properties'' (PDict [])) k = Inr (Some s)" for k s
  proof -
    have "s = [(''type'', PStr ''string''), (''minLength'', PInt 1)] \<or>
        s = [(''type'', PList [PStr ''integer'', PStr ''null'']), (''minimum'', PInt 1)]"
      using property_schema_mem k by (fastforce simp: example_parameters_def pget_or_def)
    then show ?thesis
      by (elim disjE; intro schema_ok_leaf [of _ "Some (if s = [(''type'', PStr ''string''), (''minLength'', PInt 1)] then ''string'' else ''integer'')"];
          simp add: pget_def resolve_type_def type_name_def)
  qed
qed

theorem cast_keeps_valid_arguments_witness:
  "cast_params example_parameters (PDict [(''path'', PStr ''a''), (''limit'', PNone)])
     = Inr (PDict [(''path'', PStr ''a''), (''limit'', PNone)])"
proof (rule cast_keeps_valid_arguments)
  show "validate_params example_parameters (PDict [(''path'', PStr ''a''), (''limit'', PNone)]) = Inr []" by code_simp
  have "argument_schema example_parameters = example_parameters" by code_simp
  then show "schema_ok (argument_schema example_parameters)" using example_schema_ok by simp
qed

end
