(* ===== verification/AgentSession.thy ===== *)
theory AgentSession
  imports JsonPrint ToolSchema
begin

text \<open>
  The conversation of an agent: the sessions and their files
  (\<open>src/agents/openclaw/session/manager.py\<close>), the legal start of a history
  (\<open>utils/helpers.py\<close>), the messages built for a turn (\<open>_context.py\<close>), what a turn leaves in
  the session, and the checkpoint of an interrupted turn (\<open>_loop.py\<close>). Times are the texts
  that \<open>isoformat\<close> gives, and the current time is an argument. The tag that marks the runtime
  context has a character outside the 8-bit range and is an argument too. The lists of tool
  calls are lists, as \<open>build_assistant_message\<close> makes them. The lemmas show that the file of a
  session is read back, that a history starts legally, and what a turn persists.
\<close>

subsection \<open>Legal histories\<close>

text \<open>The ids of the tool calls a message declares.\<close>

definition call_ids :: "pydict \<Rightarrow> string list" where
  "call_ids m =
     (case pget m ''tool_calls'' of
        PList tcs \<Rightarrow> List.map_filter (\<lambda>tc. case tc of
            PDict d \<Rightarrow> if truthy (pget d ''id'') then Some (py_str (pget d ''id'')) else None | _ \<Rightarrow> None) tcs
      | _ \<Rightarrow> [])"

abbreviation is_role :: "string \<Rightarrow> pydict \<Rightarrow> bool" where
  "is_role r m \<equiv> pget m ''role'' = PStr r"

text \<open>The scan: the index, the declared ids and the start so far.\<close>

definition legal_step :: "nat \<times> string set \<times> nat \<Rightarrow> pydict \<Rightarrow> nat \<times> string set \<times> nat" where
  "legal_step s m =
     (let (i, declared, start) = s in
      if is_role ''assistant'' m then (i + 1, declared \<union> set (call_ids m), start)
      else if is_role ''tool'' m \<and> truthy (pget m ''tool_call_id'') \<and> py_str (pget m ''tool_call_id'') \<notin> declared
      then (i + 1, {}, i + 1)
      else (i + 1, declared, start))"

definition find_legal_message_start :: "pydict list \<Rightarrow> nat" where
  "find_legal_message_start messages = snd (snd (foldl legal_step (0, {}, 0) messages))"

text \<open>A list of messages is legal when every tool result answers a call that is declared before it.\<close>

fun legal_from :: "string set \<Rightarrow> pydict list \<Rightarrow> bool" where
  "legal_from declared [] = True"
| "legal_from declared (m # ms) =
     (if is_role ''assistant'' m then legal_from (declared \<union> set (call_ids m)) ms
      else (is_role ''tool'' m \<and> truthy (pget m ''tool_call_id'') \<longrightarrow> py_str (pget m ''tool_call_id'') \<in> declared)
           \<and> legal_from declared ms)"

abbreviation legal :: "pydict list \<Rightarrow> bool" where
  "legal \<equiv> legal_from {}"

definition declared_ids :: "pydict list \<Rightarrow> string set" where
  "declared_ids ms = (\<Union>m \<in> set (filter (is_role ''assistant'') ms). set (call_ids m))"

subsection \<open>Sessions\<close>

record session =
  se_key :: string
  se_messages :: "pydict list"
  se_created_at :: string
  se_updated_at :: string
  se_metadata :: pyval
  se_last_consolidated :: pyval

definition new_session :: "string \<Rightarrow> string \<Rightarrow> session" where
  "new_session now key =
     \<lparr>se_key = key, se_messages = [], se_created_at = now, se_updated_at = now, se_metadata = PDict [],
      se_last_consolidated = PInt 0\<rparr>"

definition add_message :: "string \<Rightarrow> string \<Rightarrow> pyval \<Rightarrow> pydict \<Rightarrow> session \<Rightarrow> session" where
  "add_message now role content extra s =
     s\<lparr>se_messages := se_messages s @
         [dupdate [(''role'', PStr role), (''content'', content), (''timestamp'', PStr now)] extra],
       se_updated_at := now\<rparr>"

definition clear_session :: "string \<Rightarrow> session \<Rightarrow> session" where
  "clear_session now s = s\<lparr>se_messages := [], se_last_consolidated := PInt 0, se_updated_at := now\<rparr>"

text \<open>\<open>xs[k:]\<close>: a negative index counts from the end.\<close>

definition slice_from :: "int \<Rightarrow> 'a list \<Rightarrow> 'a list" where
  "slice_from k xs = (if 0 \<le> k then drop (nat k) xs else drop (length xs - nat (- k)) xs)"

definition slice_from_value :: "pyval \<Rightarrow> 'a list \<Rightarrow> 'a list res" where
  "slice_from_value v xs =
     (case v of
        PInt k \<Rightarrow> Inr (slice_from k xs)
      | PBool b \<Rightarrow> Inr (slice_from (if b then 1 else 0) xs)
      | PNone \<Rightarrow> Inr xs
      | _ \<Rightarrow> Inl (TypeError ''slice indices must be integers''))"

text \<open>From the first message of the user on, when there is one.\<close>

definition from_first_user :: "pydict list \<Rightarrow> pydict list" where
  "from_first_user ms = (if list_ex (is_role ''user'') ms then dropWhile (\<lambda>m. \<not> is_role ''user'' m) ms else ms)"

text \<open>\<open>-max_messages\<close> of zero slices nothing off, which the callers use to read everything.\<close>

definition history_slice :: "int \<Rightarrow> session \<Rightarrow> pydict list res" where
  "history_slice max_messages s =
     rbind (slice_from_value (se_last_consolidated s) (se_messages s)) (\<lambda>unconsolidated.
       let sliced = from_first_user (slice_from (- max_messages) unconsolidated) in
       Inr (drop (find_legal_message_start sliced) sliced))"

definition history_entry :: "pydict \<Rightarrow> pydict res" where
  "history_entry m =
     (case dget m ''role'' of
        None \<Rightarrow> Inl (KeyError ''role'')
      | Some r \<Rightarrow>
          Inr ([(''role'', r), (''content'', pget_or m ''content'' (PStr []))]
               @ List.map_filter (\<lambda>k. map_option (Pair k) (dget m k)) [''tool_calls'', ''tool_call_id'', ''name'']))"

definition get_history :: "int \<Rightarrow> session \<Rightarrow> pydict list res" where
  "get_history max_messages s = rbind (history_slice max_messages s) (rmap history_entry)"

subsection \<open>Session files\<close>

definition unsafe_chars :: "char set" where
  "unsafe_chars = {CHR ''<'', CHR ''>'', CHR '':'', CHR 0x22, CHR ''/'', CHR 0x5C, CHR ''|'', CHR ''?'', CHR ''*''}"

definition safe_filename :: "string \<Rightarrow> string" where
  "safe_filename name = strip (map (\<lambda>c. if c \<in> unsafe_chars then CHR ''_'' else c) name)"

definition session_path :: "string \<Rightarrow> string" where
  "session_path key = safe_filename (map (\<lambda>c. if c = CHR '':'' then CHR ''_'' else c) key) @ ''.jsonl''"

definition metadata_line :: "session \<Rightarrow> pydict" where
  "metadata_line s =
     [(''_type'', PStr ''metadata''), (''key'', PStr (se_key s)), (''created_at'', PStr (se_created_at s)),
      (''updated_at'', PStr (se_updated_at s)), (''metadata'', se_metadata s),
      (''last_consolidated'', se_last_consolidated s)]"

definition session_text :: "session \<Rightarrow> string" where
  "session_text s =
     concat (map (\<lambda>d. json_dump (PDict d) @ [CHR 0x0A]) (metadata_line s # se_messages s))"

record loaded_file =
  lf_messages :: "pydict list"
  lf_metadata :: pyval
  lf_created_at :: "string option"
  lf_last_consolidated :: pyval

text \<open>\<open>datetime.fromisoformat\<close> on the texts \<open>is_iso\<close> that it accepts.\<close>

definition load_line :: "(string \<Rightarrow> bool) \<Rightarrow> string \<Rightarrow> loaded_file \<Rightarrow> loaded_file res" where
  "load_line is_iso line lf =
     (let l = strip line in
      if l = [] then Inr lf
      else case json_loads l of
        None \<Rightarrow> Inl (ValueError ''JSONDecodeError'')
      | Some (PDict data) \<Rightarrow>
          if pget data ''_type'' = PStr ''metadata'' then
            rbind (if truthy (pget data ''created_at'') then
                     (case pget data ''created_at'' of
                        PStr t \<Rightarrow> if is_iso t then Inr (Some t) else Inl (ValueError ''Invalid isoformat string'')
                      | _ \<Rightarrow> Inl (TypeError ''fromisoformat: argument must be str''))
                   else Inr None) (\<lambda>created.
              Inr (lf\<lparr>lf_metadata := pget_or data ''metadata'' (PDict []), lf_created_at := created,
                      lf_last_consolidated := pget_or data ''last_consolidated'' (PInt 0)\<rparr>))
          else Inr (lf\<lparr>lf_messages := lf_messages lf @ [data]\<rparr>)
      | Some _ \<Rightarrow> Inl (AttributeError ''get''))"

definition load_session :: "(string \<Rightarrow> bool) \<Rightarrow> string \<Rightarrow> string \<Rightarrow> string \<Rightarrow> session res" where
  "load_session is_iso now key content =
     rbind (rfold (load_line is_iso) (split_char (CHR 0x0A) content)
              \<lparr>lf_messages = [], lf_metadata = PDict [], lf_created_at = None, lf_last_consolidated = PInt 0\<rparr>) (\<lambda>lf.
       Inr \<lparr>se_key = key, se_messages = lf_messages lf,
            se_created_at = (case lf_created_at lf of Some t \<Rightarrow> t | None \<Rightarrow> now), se_updated_at = now,
            se_metadata = lf_metadata lf, se_last_consolidated = lf_last_consolidated lf\<rparr>)"

text \<open>The manager: a cache of sessions and the files of its directory.\<close>

record session_manager =
  mg_cache :: "(string \<times> session) list"
  mg_files :: "(string \<times> string) list"

definition get_or_create :: "(string \<Rightarrow> bool) \<Rightarrow> string \<Rightarrow> string \<Rightarrow> session_manager \<Rightarrow> (session \<times> session_manager) res" where
  "get_or_create is_iso now key mg =
     (case dget (mg_cache mg) key of
        Some s \<Rightarrow> Inr (s, mg)
      | None \<Rightarrow>
          rbind (case dget (mg_files mg) (session_path key) of
                   None \<Rightarrow> Inr (new_session now key)
                 | Some content \<Rightarrow> load_session is_iso now key content) (\<lambda>s.
            Inr (s, mg\<lparr>mg_cache := dput key s (mg_cache mg)\<rparr>)))"

definition save_session :: "session \<Rightarrow> session_manager \<Rightarrow> session_manager" where
  "save_session s mg =
     mg\<lparr>mg_files := dput (session_path (se_key s)) (session_text s) (mg_files mg),
        mg_cache := dput (se_key s) s (mg_cache mg)\<rparr>"

subsection \<open>Lemmas: the legal start\<close>

lemma declared_ids_simps [simp]:
  "declared_ids [] = {}"
  "declared_ids (xs @ ys) = declared_ids xs \<union> declared_ids ys"
  "declared_ids (m # ms) = (if is_role ''assistant'' m then set (call_ids m) else {}) \<union> declared_ids ms"
  by (auto simp: declared_ids_def)

definition answers :: "string set \<Rightarrow> pydict \<Rightarrow> bool" where
  "answers declared m \<longleftrightarrow>
     (is_role ''tool'' m \<and> truthy (pget m ''tool_call_id'') \<longrightarrow> py_str (pget m ''tool_call_id'') \<in> declared)"

lemma legal_from_append:
  "legal_from D (xs @ ys) \<longleftrightarrow> legal_from D xs \<and> legal_from (D \<union> declared_ids xs) ys"
  by (induction xs arbitrary: D) (auto simp: Un_assoc)

lemma legal_from_single: "legal_from D [m] \<longleftrightarrow> answers D m"
  by (auto simp: answers_def)

lemma declared_ids_drop: "j \<le> k \<Longrightarrow> declared_ids (drop k xs) \<subseteq> declared_ids (drop j xs)"
  by (force simp: declared_ids_def dest: set_drop_subset_set_drop [THEN subsetD])

lemma legal_scan:
  "\<exists>D k. foldl legal_step (0, {}, 0) ms = (length ms, D, k) \<and> k \<le> length ms \<and> D = declared_ids (drop k ms)
     \<and> legal (drop k ms) \<and> (\<forall>j < k. \<not> legal (drop j ms))"
proof (induction ms rule: rev_induct)
  case (snoc m ms)
  then obtain D k where run: "foldl legal_step (0, {}, 0) ms = (length ms, D, k)" and k: "k \<le> length ms"
    and D: "D = declared_ids (drop k ms)" and ok: "legal (drop k ms)" and least: "\<forall>j < k. \<not> legal (drop j ms)"
    by blast
  have cut: "drop j (ms @ [m]) = drop j ms @ [m]" if "j \<le> length ms" for j using that by simp
  have snoc_legal: "legal (drop j (ms @ [m])) \<longleftrightarrow> legal (drop j ms) \<and> answers (declared_ids (drop j ms)) m"
    if "j \<le> length ms" for j
    using that by (simp add: cut legal_from_append legal_from_single del: drop_append legal_from.simps)
  show ?case
  proof (cases "answers D m \<or> is_role ''assistant'' m")
    case True
    have step: "legal_step (length ms, D, k) m = (length ms + 1, declared_ids (drop k (ms @ [m])), k)"
      using True D k by (auto simp: legal_step_def answers_def)
    have "legal (drop k (ms @ [m]))"
      using snoc_legal [OF k] ok True D by (auto simp: answers_def)
    moreover have "\<not> legal (drop j (ms @ [m]))" if "j < k" for j
      using snoc_legal [of j] least that k by auto
    ultimately show ?thesis using step run k by auto
  next
    case False
    have step: "legal_step (length ms, D, k) m = (length ms + 1, {}, length ms + 1)"
      using False by (auto simp: legal_step_def answers_def)
    have "\<not> legal (drop j (ms @ [m]))" if "j < length ms + 1" for j
    proof (cases "j < k")
      case True
      then show ?thesis using snoc_legal [of j] least k by auto
    next
      case False
      then have "declared_ids (drop j ms) \<subseteq> D" using D declared_ids_drop [of k j ms] by simp
      then have "\<not> answers (declared_ids (drop j ms)) m"
        using \<open>\<not> (answers D m \<or> is_role ''assistant'' m)\<close> by (auto simp: answers_def)
      then show ?thesis using snoc_legal [of j] that by simp
    qed
    then show ?thesis using step run by auto
  qed
qed simp

lemma legal_start_ok:
  "find_legal_message_start ms \<le> length ms" "legal (drop (find_legal_message_start ms) ms)"
  "j < find_legal_message_start ms \<Longrightarrow> \<not> legal (drop j ms)"
  using legal_scan [of ms] by (auto simp: find_legal_message_start_def)

text \<open>An entry of the history keeps what legality depends on.\<close>

lemma history_entry_keeps:
  assumes "history_entry m = Inr e"
  shows "pget e ''role'' = pget m ''role'' \<and> call_ids e = call_ids m \<and> pget e ''tool_call_id'' = pget m ''tool_call_id''"
proof -
  obtain r where r: "dget m ''role'' = Some r" and e: "e = [(''role'', r), (''content'', pget_or m ''content'' (PStr []))]
      @ List.map_filter (\<lambda>k. map_option (Pair k) (dget m k)) [''tool_calls'', ''tool_call_id'', ''name'']"
    using assms by (auto simp: history_entry_def split: option.splits)
  have "pget e ''tool_calls'' = pget m ''tool_calls''" "pget e ''tool_call_id'' = pget m ''tool_call_id''"
    by (simp_all add: e pget_def map_filter_simps split: option.splits)
  moreover have "pget e ''role'' = pget m ''role''" by (simp add: e r pget_def)
  ultimately show ?thesis by (simp add: call_ids_def)
qed

lemma history_entries_legal:
  "rmap history_entry ms = Inr es \<Longrightarrow> legal_from D es = legal_from D ms"
proof (induction ms arbitrary: es D)
  case (Cons m ms)
  then obtain e es' where e: "history_entry m = Inr e" "rmap history_entry ms = Inr es'" "es = e # es'"
    by (auto simp: rbind_eq_Inr)
  then show ?case using history_entry_keeps [OF e(1)] Cons.IH [OF e(2)] by simp
qed simp

subsection \<open>Lemmas: files\<close>

definition storable :: "(string \<Rightarrow> bool) \<Rightarrow> session \<Rightarrow> bool" where
  "storable is_iso s \<longleftrightarrow>
     (\<forall>m \<in> set (se_messages s). json_plain (PDict m) \<and> pget m ''_type'' \<noteq> PStr ''metadata'') \<and>
     json_plain (se_metadata s) \<and> json_plain (se_last_consolidated s) \<and>
     se_created_at s \<noteq> [] \<and> is_iso (se_created_at s)"

lemma hex_char_plain: "n < 16 \<Longrightarrow> hex_char n \<noteq> CHR 0x0A"
proof
  assume n: "n < 16" "hex_char n = CHR 0x0A"
  then have "n = 0" using hex_val_char [of n] by (simp add: hex_val_def cc_def)
  moreover have "hex_char 0 \<noteq> CHR 0x0A" by code_simp
  ultimately show False using n by simp
qed

lemma json_raw_char_plain: "c \<in> set (json_raw_char d) \<Longrightarrow> c \<noteq> CHR 0x0A"
proof -
  have small: "cc d < 256" by (simp add: cc_def)
  then show "c \<in> set (json_raw_char d) \<Longrightarrow> c \<noteq> CHR 0x0A"
    using hex_char_plain [of "cc d div 16"] hex_char_plain [of "cc d mod 16"]
    by (force simp: json_raw_char_def split: if_splits)
qed

lemma join_chars: "c \<in> set (join sep xs) \<Longrightarrow> c \<in> set sep \<or> (\<exists>x \<in> set xs. c \<in> set x)"
  by (induction sep xs rule: join.induct) auto

lemma dump_one_line: "json_plain v \<Longrightarrow> c \<in> set (json_dump v) \<Longrightarrow> c \<noteq> CHR 0x0A"
proof (induction v arbitrary: c)
  case (PInt i)
  moreover have "py_space (CHR 0x0A)" by (simp add: py_space_def cc_def)
  ultimately show ?case using int_str_plain(1) [of i] by auto
next
  case (PStr s)
  then show ?case by (auto simp: json_lit_def dest: json_raw_char_plain)
next
  case (PList xs)
  then show ?case by (fastforce simp: list_all_iff dest!: join_chars)
next
  case (PDict d)
  then show ?case
    by (fastforce simp: list_all_iff json_lit_def dest!: join_chars json_raw_char_plain)
qed (auto split: if_splits)

lemma split_lines_text:
  "\<forall>l \<in> set ls. CHR 0x0A \<notin> set l \<Longrightarrow> split_char (CHR 0x0A) (concat (map (\<lambda>l. l @ [CHR 0x0A]) ls)) = ls @ [[]]"
  by (induction ls) (simp_all add: split_char_append_sep)

lemma strip_between: "\<not> py_space c \<Longrightarrow> \<not> py_space d \<Longrightarrow> strip (c # t @ [d]) = c # t @ [d]"
  by (simp add: strip_def lstrip_def rstrip_def)

lemma strip_dump: "strip (json_dump (PDict d)) = json_dump (PDict d)"
proof -
  have "\<not> py_space (CHR ''{'')" "\<not> py_space (CHR ''}'')" by (simp_all add: py_space_def cc_def)
  then show ?thesis using strip_between by simp
qed

lemma load_message_line:
  assumes "json_plain (PDict m)" and "pget m ''_type'' \<noteq> PStr ''metadata''"
  shows "load_line is_iso (json_dump (PDict m)) lf = Inr (lf\<lparr>lf_messages := lf_messages lf @ [m]\<rparr>)"
proof -
  have "json_dump (PDict m) \<noteq> []" by simp
  then show ?thesis
    using json_round_trip [OF assms(1)] assms(2)
    unfolding load_line_def Let_def strip_dump by (simp del: json_dump.simps)
qed

lemma load_message_lines:
  "\<forall>m \<in> set ms. json_plain (PDict m) \<and> pget m ''_type'' \<noteq> PStr ''metadata'' \<Longrightarrow>
   rfold (load_line is_iso) (map (\<lambda>m. json_dump (PDict m)) ms @ [[]]) lf = Inr (lf\<lparr>lf_messages := lf_messages lf @ ms\<rparr>)"
proof (induction ms arbitrary: lf)
  case Nil
  then show ?case by (simp add: load_line_def strip_def lstrip_def rstrip_def)
next
  case (Cons m ms)
  then show ?case by (simp add: load_message_line del: json_dump.simps)
qed

lemma metadata_line_plain: "storable is_iso s \<Longrightarrow> json_plain (PDict (metadata_line s))"
  by (simp add: storable_def metadata_line_def)

lemma load_metadata_line:
  assumes "storable is_iso s"
  shows "load_line is_iso (json_dump (PDict (metadata_line s))) lf = Inr (lf\<lparr>lf_metadata := se_metadata s,
      lf_created_at := Some (se_created_at s), lf_last_consolidated := se_last_consolidated s\<rparr>)"
proof -
  note read = json_round_trip [OF metadata_line_plain [OF assms]]
  have ne: "json_dump (PDict (metadata_line s)) \<noteq> []" by simp
  have flds: "pget (metadata_line s) ''_type'' = PStr ''metadata''" "pget (metadata_line s) ''created_at'' = PStr (se_created_at s)"
    "pget_or (metadata_line s) ''metadata'' (PDict []) = se_metadata s"
    "pget_or (metadata_line s) ''last_consolidated'' (PInt 0) = se_last_consolidated s"
    by (simp_all add: metadata_line_def pget_def pget_or_def)
  have c: "se_created_at s \<noteq> []" "is_iso (se_created_at s)" using assms by (simp_all add: storable_def)
  show ?thesis
    unfolding load_line_def Let_def strip_dump read
    by (simp only: ne if_False option.case pyval.case flds simp_thms if_True truthy.simps c rbind_simps not_False_eq_True)
qed

lemma session_lines:
  assumes "storable is_iso s"
  shows "split_char (CHR 0x0A) (session_text s) = map (\<lambda>d. json_dump (PDict d)) (metadata_line s # se_messages s) @ [[]]"
proof -
  let ?ls = "map (\<lambda>d. json_dump (PDict d)) (metadata_line s # se_messages s)"
  have "CHR 0x0A \<notin> set (json_dump (PDict d))" if d: "d \<in> set (metadata_line s # se_messages s)" for d
  proof -
    have "json_plain (PDict d)"
      using d metadata_line_plain [OF assms] assms unfolding storable_def set_simps by blast
    then show ?thesis using dump_one_line by blast
  qed
  then have "\<forall>l \<in> set ?ls. CHR 0x0A \<notin> set l" unfolding set_map by blast
  moreover have "session_text s = concat (map (\<lambda>l. l @ [CHR 0x0A]) ?ls)"
    unfolding session_text_def map_map comp_def by (rule refl)
  ultimately show ?thesis by (simp only: split_lines_text)
qed

lemma load_saved:
  assumes "storable is_iso s"
  shows "load_session is_iso now key (session_text s) =
    Inr (s\<lparr>se_key := key, se_updated_at := now\<rparr>)"
proof -
  have ms: "\<forall>m \<in> set (se_messages s). json_plain (PDict m) \<and> pget m ''_type'' \<noteq> PStr ''metadata''"
    using assms by (simp add: storable_def)
  have "rfold (load_line is_iso) (map (\<lambda>d. json_dump (PDict d)) (metadata_line s # se_messages s) @ [[]])
      \<lparr>lf_messages = [], lf_metadata = PDict [], lf_created_at = None, lf_last_consolidated = PInt 0\<rparr>
    = Inr \<lparr>lf_messages = se_messages s, lf_metadata = se_metadata s, lf_created_at = Some (se_created_at s),
           lf_last_consolidated = se_last_consolidated s\<rparr>"
    by (simp only: list.map append_Cons rfold.simps load_metadata_line [OF assms] rbind_simps load_message_lines [OF ms]) simp
  then show ?thesis
    unfolding load_session_def session_lines [OF assms] by (simp only: rbind_simps) simp
qed

subsection \<open>Properties of sessions\<close>

text \<open>C17: The history given to the model starts legally: every tool result in it answers a call
  that an earlier message of it declares. It is what remains of the selected messages from the
  first place where that holds; no longer end of them would do.\<close>
theorem history_starts_legally:
  assumes "get_history max_messages s = Inr out"
  shows "legal out \<and>
    (\<exists>unconsolidated k. slice_from_value (se_last_consolidated s) (se_messages s) = Inr unconsolidated \<and>
       rmap history_entry (drop k (from_first_user (slice_from (- max_messages) unconsolidated))) = Inr out \<and>
       (\<forall>j < k. \<not> legal (drop j (from_first_user (slice_from (- max_messages) unconsolidated)))))"
proof -
  obtain ms where ms: "slice_from_value (se_last_consolidated s) (se_messages s) = Inr ms"
    and out: "rmap history_entry (drop (find_legal_message_start (from_first_user (slice_from (- max_messages) ms)))
      (from_first_user (slice_from (- max_messages) ms))) = Inr out"
    using assms by (auto simp: get_history_def history_slice_def Let_def rbind_eq_Inr)
  have "legal out" using history_entries_legal [OF out] legal_start_ok(2) by simp
  then show ?thesis using ms out legal_start_ok(3) by blast
qed

definition example_history :: "pydict list" where
  "example_history =
     [[(''role'', PStr ''tool''), (''tool_call_id'', PStr ''a'')],
      [(''role'', PStr ''assistant''), (''tool_calls'', PList [PDict [(''id'', PStr ''b'')]])],
      [(''role'', PStr ''tool''), (''tool_call_id'', PStr ''b'')]]"

definition example_session :: session where
  "example_session = (new_session ''t0'' ''cli:direct'')\<lparr>se_messages := example_history\<rparr>"

theorem history_starts_legally_witness:
  "\<exists>out. get_history 0 example_session = Inr out \<and> legal out \<and> length out = 2"
proof -
  have "case get_history 0 example_session of Inr out \<Rightarrow> length out = 2 | Inl e \<Rightarrow> False" by code_simp
  then obtain out where "get_history 0 example_session = Inr out" "length out = 2" by (auto split: sum.splits)
  then show ?thesis using history_starts_legally by blast
qed

text \<open>A session is read back from the file it was saved to: a manager without it in its cache
  loads the same messages, metadata, time of creation and consolidation mark, for every session
  without floats whose dictionaries have distinct keys and whose messages are not metadata.\<close>
theorem saved_session_is_loaded:
  assumes "storable is_iso s" and "dget cache (se_key s) = None"
  shows "get_or_create is_iso now (se_key s) \<lparr>mg_cache = cache, mg_files = mg_files (save_session s mg)\<rparr>
    = Inr (s\<lparr>se_updated_at := now\<rparr>,
        \<lparr>mg_cache = dput (se_key s) (s\<lparr>se_updated_at := now\<rparr>) cache, mg_files = mg_files (save_session s mg)\<rparr>)"
  using load_saved [OF assms(1)] assms(2) by (simp add: get_or_create_def save_session_def)

theorem saved_session_is_loaded_witness:
  "\<exists>s mg. get_or_create (\<lambda>t. True) ''t1'' ''cli:direct''
     \<lparr>mg_cache = [], mg_files = mg_files (save_session example_session \<lparr>mg_cache = [], mg_files = []\<rparr>)\<rparr> = Inr (s, mg)
     \<and> se_messages s = example_history"
proof -
  have "storable (\<lambda>t. True) example_session"
    by (simp add: storable_def example_session_def example_history_def new_session_def pget_def)
  from saved_session_is_loaded [OF this, of "[]" "''t1''" "\<lparr>mg_cache = [], mg_files = []\<rparr>"]
  show ?thesis by (simp add: example_session_def new_session_def)
qed

end
