(* ===== verification/AgentTurn.thy ===== *)
theory AgentTurn
  imports AgentSession
begin

text \<open>
  One turn of a conversation (\<open>src/agents/openclaw/_context.py\<close> and \<open>_loop.py\<close>): the messages
  built for the model, the part of the run that is saved in the session, and the checkpoint of
  an interrupted turn. The lemmas show that the message of the user is saved as it was given,
  that it is lost when it was merged into the history, and that an interrupted turn is restored
  with an answer to every tool call.
\<close>

subsection \<open>The messages of a turn\<close>

definition text_block :: "string \<Rightarrow> pyval" where
  "text_block t = PDict [(''type'', PStr ''text''), (''text'', PStr t)]"

definition blank_line :: string where
  "blank_line = [CHR 0x0A, CHR 0x0A]"

definition to_blocks :: "pyval \<Rightarrow> pyval list" where
  "to_blocks v =
     (case v of
        PList items \<Rightarrow> map (\<lambda>x. case x of PDict d \<Rightarrow> PDict d | _ \<Rightarrow> text_block (py_str x)) items
      | PNone \<Rightarrow> []
      | _ \<Rightarrow> [text_block (py_str v)])"

definition merge_message_content :: "pyval \<Rightarrow> pyval \<Rightarrow> pyval" where
  "merge_message_content left right =
     (case (left, right) of
        (PStr l, PStr r) \<Rightarrow> PStr (if l \<noteq> [] then l @ blank_line @ r else r)
      | _ \<Rightarrow> PList (to_blocks left @ to_blocks right))"

text \<open>The runtime context: the tag, the time, and the channel when both parts of it are given.\<close>

definition build_runtime_context :: "string \<Rightarrow> string \<Rightarrow> string option \<Rightarrow> string option \<Rightarrow> string" where
  "build_runtime_context tag time channel chat_id =
     (let lines = [''Current Time: '' @ time] @
        (case (channel, chat_id) of
           (Some c, Some i) \<Rightarrow> if c \<noteq> [] \<and> i \<noteq> [] then [''Channel: '' @ c, ''Chat ID: '' @ i] else []
         | _ \<Rightarrow> [])
      in tag @ [CHR 0x0A] @ join [CHR 0x0A] lines)"

text \<open>The content of the user: a text, or a list of blocks when images are attached.\<close>

definition merged_user_content :: "string \<Rightarrow> pyval \<Rightarrow> pyval" where
  "merged_user_content runtime_ctx user_content =
     (case user_content of
        PList blocks \<Rightarrow> PList (text_block runtime_ctx # blocks)
      | _ \<Rightarrow> PStr (runtime_ctx @ blank_line @ py_str user_content))"

definition build_messages :: "string \<Rightarrow> string \<Rightarrow> pydict list \<Rightarrow> pyval \<Rightarrow> string \<Rightarrow> pydict list" where
  "build_messages system_prompt runtime_ctx history user_content current_role =
     (let merged = merged_user_content runtime_ctx user_content;
          messages = [(''role'', PStr ''system''), (''content'', PStr system_prompt)] # history in
      if is_role current_role (last messages)
      then butlast messages @ [dput ''content'' (merge_message_content (pget (last messages) ''content'') merged) (last messages)]
      else messages @ [[(''role'', PStr current_role), (''content'', merged)]])"

subsection \<open>What a turn saves\<close>

definition truncate_text :: "string \<Rightarrow> int \<Rightarrow> string" where
  "truncate_text text max_chars =
     (if max_chars \<le> 0 \<or> int (length text) \<le> max_chars then text
      else take (nat max_chars) text @ [CHR 0x0A] @ ''... (truncated)'')"

definition image_placeholder_text :: "pyval \<Rightarrow> string" where
  "image_placeholder_text path = (if truthy path then ''[image: '' @ py_str path @ '']'' else ''[image]'')"

text \<open>\<open>block.get("image_url", {}).get("url", "").startswith("data:image/")\<close>.\<close>

definition is_inline_image :: "pydict \<Rightarrow> bool res" where
  "is_inline_image block =
     (if pget block ''type'' \<noteq> PStr ''image_url'' then Inr False
      else case pget_or block ''image_url'' (PDict []) of
        PDict d \<Rightarrow>
          (case pget_or d ''url'' (PStr []) of
             PStr u \<Rightarrow> Inr (starts_with ''data:image/'' u) | _ \<Rightarrow> Inl (AttributeError ''startswith''))
      | _ \<Rightarrow> Inl (AttributeError ''get''))"

definition image_path :: "pydict \<Rightarrow> pyval res" where
  "image_path block =
     (case por (pget block ''_meta'') (PDict []) of
        PDict d \<Rightarrow> Inr (pget_or d ''path'' (PStr [])) | _ \<Rightarrow> Inl (AttributeError ''get''))"

text \<open>One block of a list content: nothing, or the block to keep. The argument \<open>shorten\<close> has in
  the code the name of the function that should shorten the text, so that a text that is too
  long calls a boolean, which raises.\<close>

definition sanitize_block :: "string \<Rightarrow> int \<Rightarrow> bool \<Rightarrow> bool \<Rightarrow> pyval \<Rightarrow> pyval option res" where
  "sanitize_block tag max_chars shorten drop_runtime v =
     (case v of
        PDict block \<Rightarrow>
          (case (pget block ''type'', pget block ''text'') of
             (PStr ty, PStr t) \<Rightarrow>
               if drop_runtime \<and> ty = ''text'' \<and> starts_with tag t then Inr None
               else
                 rbind (is_inline_image block) (\<lambda>img.
                   if img then rbind (image_path block) (\<lambda>p. Inr (Some (text_block (image_placeholder_text p))))
                   else if ty = ''text'' then
                     (if shorten \<and> max_chars < int (length t) then Inl (TypeError ''bool object is not callable'')
                      else Inr (Some (PDict (dput ''text'' (PStr t) block))))
                   else Inr (Some v))
           | _ \<Rightarrow>
               rbind (is_inline_image block) (\<lambda>img.
                 if img then rbind (image_path block) (\<lambda>p. Inr (Some (text_block (image_placeholder_text p))))
                 else Inr (Some v)))
      | _ \<Rightarrow> Inr (Some v))"

definition sanitize_persisted_blocks :: "string \<Rightarrow> int \<Rightarrow> bool \<Rightarrow> bool \<Rightarrow> pyval list \<Rightarrow> pyval list res" where
  "sanitize_persisted_blocks tag max_chars shorten drop_runtime content =
     rbind (rmap (sanitize_block tag max_chars shorten drop_runtime) content) (\<lambda>bs. Inr (List.map_filter id bs))"

text \<open>What follows the first blank line.\<close>

fun after_blank_line :: "string \<Rightarrow> string option" where
  "after_blank_line (a # b # s) =
     (if a = CHR 0x0A \<and> b = CHR 0x0A then Some s else after_blank_line (b # s))"
| "after_blank_line s = None"

text \<open>The entry that is saved for a message, if any.\<close>

definition saved_entry :: "string \<Rightarrow> int \<Rightarrow> pydict \<Rightarrow> pydict option res" where
  "saved_entry tag max_chars m =
     (let content = pget m ''content'' in
      if is_role ''assistant'' m \<and> \<not> truthy content \<and> \<not> truthy (pget m ''tool_calls'') then Inr None
      else if is_role ''tool'' m then
        (case content of
           PStr t \<Rightarrow>
             Inr (Some (if max_chars < int (length t) then dput ''content'' (PStr (truncate_text t max_chars)) m else m))
         | PList blocks \<Rightarrow>
             rbind (sanitize_persisted_blocks tag max_chars True False blocks) (\<lambda>filtered.
               Inr (if filtered = [] then None else Some (dput ''content'' (PList filtered) m)))
         | _ \<Rightarrow> Inr (Some m))
      else if is_role ''user'' m then
        (case content of
           PStr t \<Rightarrow>
             if starts_with tag t then
               (case after_blank_line t of
                  Some rest \<Rightarrow> Inr (if strip rest \<noteq> [] then Some (dput ''content'' (PStr rest) m) else None)
                | None \<Rightarrow> Inr None)
             else Inr (Some m)
         | PList blocks \<Rightarrow>
             rbind (sanitize_persisted_blocks tag max_chars False True blocks) (\<lambda>filtered.
               Inr (if filtered = [] then None else Some (dput ''content'' (PList filtered) m)))
         | _ \<Rightarrow> Inr (Some m))
      else Inr (Some m))"

definition with_timestamp :: "string \<Rightarrow> pydict \<Rightarrow> pydict" where
  "with_timestamp now m = (if dget m ''timestamp'' = None then dput ''timestamp'' (PStr now) m else m)"

text \<open>The loop keeps what it appended before an error.\<close>

fun save_loop :: "string \<Rightarrow> int \<Rightarrow> string \<Rightarrow> pydict list \<Rightarrow> pydict list \<Rightarrow> unit res \<times> pydict list" where
  "save_loop tag max_chars now [] saved = (Inr (), saved)"
| "save_loop tag max_chars now (m # ms) saved =
     (case saved_entry tag max_chars m of
        Inl e \<Rightarrow> (Inl e, saved)
      | Inr None \<Rightarrow> save_loop tag max_chars now ms saved
      | Inr (Some e) \<Rightarrow> save_loop tag max_chars now ms (saved @ [with_timestamp now e]))"

definition save_turn :: "string \<Rightarrow> int \<Rightarrow> string \<Rightarrow> session \<Rightarrow> pydict list \<Rightarrow> nat \<Rightarrow> unit res \<times> session" where
  "save_turn tag max_chars now s messages skip =
     (case save_loop tag max_chars now (drop skip messages) (se_messages s) of
        (Inr _, ms) \<Rightarrow> (Inr (), s\<lparr>se_messages := ms, se_updated_at := now\<rparr>)
      | (Inl e, ms) \<Rightarrow> (Inl e, s\<lparr>se_messages := ms\<rparr>))"

subsection \<open>The checkpoint of an interrupted turn\<close>

definition set_runtime_checkpoint :: "pydict \<Rightarrow> session \<Rightarrow> session_manager \<Rightarrow> (session \<times> session_manager) res" where
  "set_runtime_checkpoint payload s mg =
     (case se_metadata s of
        PDict d \<Rightarrow>
          let s' = s\<lparr>se_metadata := PDict (dput ''runtime_checkpoint'' (PDict payload) d)\<rparr> in
          Inr (s', save_session s' mg)
      | _ \<Rightarrow> Inl (TypeError ''does not support item assignment''))"

definition clear_runtime_checkpoint :: "session \<Rightarrow> session" where
  "clear_runtime_checkpoint s =
     (case se_metadata s of
        PDict d \<Rightarrow> s\<lparr>se_metadata := PDict (dpop ''runtime_checkpoint'' d)\<rparr> | _ \<Rightarrow> s)"

definition checkpoint_message_key :: "pydict \<Rightarrow> pyval list" where
  "checkpoint_message_key m =
     map (pget m) [''role'', ''content'', ''tool_call_id'', ''name'', ''tool_calls'', ''reasoning_content'', ''thinking_blocks'']"

definition same_message :: "pydict \<Rightarrow> pydict \<Rightarrow> bool" where
  "same_message a b \<longleftrightarrow> py_eq (PList (checkpoint_message_key a)) (PList (checkpoint_message_key b))"

definition interrupted_result :: "string \<Rightarrow> pydict \<Rightarrow> pydict res" where
  "interrupted_result now tool_call =
     (case por (pget tool_call ''function'') (PDict []) of
        PDict f \<Rightarrow>
          Inr [(''role'', PStr ''tool''), (''tool_call_id'', pget tool_call ''id''),
               (''name'', por (pget f ''name'') (PStr ''tool'')),
               (''content'', PStr ''Error: Task interrupted before this tool finished.''),
               (''timestamp'', PStr now)]
      | _ \<Rightarrow> Inl (AttributeError ''get''))"

definition dicts_of :: "pyval \<Rightarrow> pydict list res" where
  "dicts_of v =
     (case por v (PList []) of
        PList xs \<Rightarrow> Inr (List.map_filter (\<lambda>x. case x of PDict d \<Rightarrow> Some d | _ \<Rightarrow> None) xs)
      | PStr _ \<Rightarrow> Inr []
      | PDict _ \<Rightarrow> Inr []
      | _ \<Rightarrow> Inl (TypeError ''not iterable''))"

definition restored_messages :: "string \<Rightarrow> pydict \<Rightarrow> pydict list res" where
  "restored_messages now checkpoint =
     rbind (dicts_of (pget checkpoint ''completed_tool_results'')) (\<lambda>completed.
     rbind (dicts_of (pget checkpoint ''pending_tool_calls'')) (\<lambda>pending.
     rbind (rmap (interrupted_result now) pending) (\<lambda>interrupted.
       Inr (map (with_timestamp now)
              ((case pget checkpoint ''assistant_message'' of PDict m \<Rightarrow> [m] | _ \<Rightarrow> []) @ completed) @ interrupted))))"

text \<open>The longest end of the session that is already a beginning of what is restored.\<close>

fun overlap_from :: "nat \<Rightarrow> pydict list \<Rightarrow> pydict list \<Rightarrow> nat" where
  "overlap_from 0 existing restored = 0"
| "overlap_from (Suc n) existing restored =
     (if list_all2 same_message (drop (length existing - Suc n) existing) (take (Suc n) restored)
      then Suc n else overlap_from n existing restored)"

definition message_overlap :: "pydict list \<Rightarrow> pydict list \<Rightarrow> nat" where
  "message_overlap existing restored = overlap_from (min (length existing) (length restored)) existing restored"

definition restore_runtime_checkpoint :: "string \<Rightarrow> session \<Rightarrow> (bool \<times> session) res" where
  "restore_runtime_checkpoint now s =
     (case se_metadata s of
        PDict d \<Rightarrow>
          (case pget d ''runtime_checkpoint'' of
             PDict checkpoint \<Rightarrow>
               rbind (restored_messages now checkpoint) (\<lambda>restored.
                 Inr (True, clear_runtime_checkpoint
                   (s\<lparr>se_messages := se_messages s @ drop (message_overlap (se_messages s) restored) restored\<rparr>)))
           | _ \<Rightarrow> Inr (False, s))
      | _ \<Rightarrow> Inl (AttributeError ''get''))"

subsection \<open>Lemmas\<close>

lemma after_blank_line_skip:
  assumes "CHR 0x0A \<notin> set w" and "w \<noteq> []"
  shows "after_blank_line (w @ s) = after_blank_line (last w # s)"
  using assms
proof (induction w)
  case (Cons c w)
  show ?case
  proof (cases w)
    case (Cons d u)
    then show ?thesis using Cons.IH Cons.prems by auto
  qed simp
qed simp

text \<open>Lines without a newline of their own have no blank line between or after them.\<close>

lemma after_blank_line_join:
  "\<forall>l \<in> set ls. CHR 0x0A \<notin> set l \<and> l \<noteq> [] \<Longrightarrow> ls \<noteq> [] \<Longrightarrow>
     after_blank_line (join [CHR 0x0A] ls @ blank_line @ t) = Some t"
proof (induction ls)
  case (Cons l ls)
  then have l: "CHR 0x0A \<notin> set l" "l \<noteq> []" by auto
  then have last: "last l \<noteq> CHR 0x0A" by (metis last_in_set)
  show ?case
  proof (cases ls)
    case Nil
    have "after_blank_line (l @ blank_line @ t) = after_blank_line (last l # blank_line @ t)"
      by (rule after_blank_line_skip [OF l])
    then show ?thesis using Nil last by (simp add: blank_line_def)
  next
    case (Cons m ms)
    then have m: "m \<noteq> []" "hd m \<noteq> CHR 0x0A" using Cons.prems by (cases m; auto)+
    obtain c u where u: "join [CHR 0x0A] ls = c # u" "c = hd m"
      using Cons m by (cases m; cases ms) auto
    have "after_blank_line (l @ CHR 0x0A # join [CHR 0x0A] ls @ blank_line @ t)
        = after_blank_line (last l # CHR 0x0A # join [CHR 0x0A] ls @ blank_line @ t)"
      by (rule after_blank_line_skip [OF l])
    also have "\<dots> = after_blank_line (join [CHR 0x0A] ls @ blank_line @ t)"
      using last m u by simp
    also have "\<dots> = Some t" using Cons.IH Cons.prems Cons by simp
    finally show ?thesis using Cons by simp
  qed
qed simp

lemma after_runtime_context:
  assumes "CHR 0x0A \<notin> set tag" "tag \<noteq> []" "CHR 0x0A \<notin> set time"
    and "\<forall>c. channel = Some c \<longrightarrow> CHR 0x0A \<notin> set c" "\<forall>i. chat_id = Some i \<longrightarrow> CHR 0x0A \<notin> set i"
  shows "after_blank_line (build_runtime_context tag time channel chat_id @ blank_line @ body) = Some body"
proof -
  obtain ls where "build_runtime_context tag time channel chat_id = join [CHR 0x0A] (tag # ls)"
    "ls \<noteq> []" "\<forall>l \<in> set ls. CHR 0x0A \<notin> set l \<and> l \<noteq> []"
  proof -
    let ?ls = "[''Current Time: '' @ time] @ (case (channel, chat_id) of
           (Some c, Some i) \<Rightarrow> if c \<noteq> [] \<and> i \<noteq> [] then [''Channel: '' @ c, ''Chat ID: '' @ i] else []
         | _ \<Rightarrow> [])"
    have "build_runtime_context tag time channel chat_id = join [CHR 0x0A] (tag # ?ls)"
      by (simp add: build_runtime_context_def)
    moreover have "\<forall>l \<in> set ?ls. CHR 0x0A \<notin> set l \<and> l \<noteq> []"
      using assms by (auto split: option.splits)
    ultimately show ?thesis using that by blast
  qed
  then show ?thesis using after_blank_line_join [of "tag # ls" body] assms(1,2) by simp
qed

lemma build_messages_append:
  assumes "history = [] \<or> \<not> is_role role (last history)" and "role \<noteq> ''system''"
  shows "build_messages sp ctx history content role =
    ([(''role'', PStr ''system''), (''content'', PStr sp)] # history) @ [[(''role'', PStr role), (''content'', merged_user_content ctx content)]]"
  using assms by (auto simp: build_messages_def Let_def pget_def)

lemma overlap_ok:
  "k = overlap_from n existing restored \<Longrightarrow> k \<le> n \<and>
     list_all2 same_message (drop (length existing - k) existing) (take k restored) \<and>
     (\<forall>j. k < j \<and> j \<le> n \<longrightarrow> \<not> list_all2 same_message (drop (length existing - j) existing) (take j restored))"
proof (induction n existing restored arbitrary: k rule: overlap_from.induct)
  case (2 n existing restored)
  then show ?case by (auto simp: le_Suc_eq split: if_splits)
qed auto

subsection \<open>Properties\<close>

text \<open>A turn saves the message of the user as it was given: the text merged with the runtime
  context for the model is stripped of it again, whatever the text holds, unless it is blank; it
  becomes the first new entry of the session, before the messages of the run.\<close>
theorem turn_saves_user_message:
  assumes "save_turn tag max_chars now s
      (build_messages sp (build_runtime_context tag time channel chat_id) history (PStr body) ''user'' @ run)
      (1 + length history) = (Inr (), s')"
    and "history = [] \<or> \<not> is_role ''user'' (last history)" and "strip body \<noteq> []"
    and "CHR 0x0A \<notin> set tag" "tag \<noteq> []" "CHR 0x0A \<notin> set time"
    and "\<forall>c. channel = Some c \<longrightarrow> CHR 0x0A \<notin> set c" "\<forall>i. chat_id = Some i \<longrightarrow> CHR 0x0A \<notin> set i"
  shows "\<exists>rest. se_messages s' = se_messages s @
    [(''role'', PStr ''user''), (''content'', PStr body), (''timestamp'', PStr now)] # rest"
proof -
  let ?ctx = "build_runtime_context tag time channel chat_id"
  let ?m = "[(''role'', PStr ''user''), (''content'', PStr (?ctx @ blank_line @ body))]"
  have tag: "starts_with tag (?ctx @ blank_line @ body)"
    by (simp add: build_runtime_context_def)
  have entry: "saved_entry tag max_chars ?m = Inr (Some [(''role'', PStr ''user''), (''content'', PStr body)])"
    using tag after_runtime_context [OF assms(4-8), of body] assms(3)
    by (simp add: saved_entry_def pget_def)
  have drop: "drop (1 + length history) (build_messages sp ?ctx history (PStr body) ''user'' @ run) = ?m # run"
    unfolding build_messages_append [OF assms(2), of sp ?ctx "PStr body", simplified] by (simp add: merged_user_content_def)
  have prefix: "save_loop tag max_chars now ms saved = (r, out) \<Longrightarrow> \<exists>rest. out = saved @ rest" for ms saved r out
    by (induction ms arbitrary: saved) (fastforce split: sum.splits option.splits)+
  obtain ms where ms: "save_loop tag max_chars now run (se_messages s @
      [[(''role'', PStr ''user''), (''content'', PStr body), (''timestamp'', PStr now)]]) = (Inr (), ms)"
    and s': "se_messages s' = ms"
    using assms(1) entry unfolding save_turn_def drop
    by (auto simp: with_timestamp_def split: prod.splits sum.splits)
  show ?thesis using prefix [OF ms] s' by auto
qed

theorem turn_saves_user_message_witness:
  "\<exists>s'. save_turn ''[ctx]'' 100 ''now'' example_session
      (build_messages ''sys'' (build_runtime_context ''[ctx]'' ''noon'' None None) [] (PStr ''hi'') ''user'' @ []) 1 = (Inr (), s')
    \<and> [(''role'', PStr ''user''), (''content'', PStr ''hi''), (''timestamp'', PStr ''now'')] \<in> set (se_messages s')"
proof -
  let ?r = "save_turn ''[ctx]'' 100 ''now'' example_session
      (build_messages ''sys'' (build_runtime_context ''[ctx]'' ''noon'' None None) [] (PStr ''hi'') ''user'' @ [])"
  have "fst (?r (1 + length ([] :: pydict list))) = Inr ()" by code_simp
  then obtain s' where r: "?r (1 + length ([] :: pydict list)) = (Inr (), s')" by (metis prod.collapse)
  have "strip ''hi'' \<noteq> []" by code_simp
  from turn_saves_user_message [OF r _ this] show ?thesis using r by auto
qed

text \<open>A message that continues the history is not saved: when the last message of the history
  has the role of the turn, the new message is merged into it for the model, and the turn
  saves only the messages of the run.\<close>
theorem merged_message_is_not_saved:
  assumes "history \<noteq> []" and "is_role role (last history)"
  shows "save_turn tag max_chars now s (build_messages sp ctx history content role @ run) (1 + length history)
    = save_turn tag max_chars now s run 0"
  using assms by (cases history rule: rev_cases) (auto simp: save_turn_def build_messages_def Let_def)

theorem merged_message_is_not_saved_witness:
  "save_turn ''[ctx]'' 100 ''now'' example_session
     (build_messages ''sys'' ''[ctx] t'' [[(''role'', PStr ''assistant''), (''content'', PStr ''ok'')]] (PStr ''result of the subagent'') ''assistant'' @ []) 2
   = (Inr (), example_session\<lparr>se_updated_at := ''now''\<rparr>)"
proof -
  have "save_turn ''[ctx]'' 100 ''now'' example_session
     (build_messages ''sys'' ''[ctx] t'' [[(''role'', PStr ''assistant''), (''content'', PStr ''ok'')]] (PStr ''result of the subagent'') ''assistant'' @ [])
     (1 + length [[(''role'', PStr ''assistant''), (''content'', PStr ''ok'')]]) = save_turn ''[ctx]'' 100 ''now'' example_session [] 0"
    by (rule merged_message_is_not_saved) (simp_all add: pget_def)
  then show ?thesis by (simp add: save_turn_def numeral_2_eq_2)
qed


definition example_interrupted :: session where
  "example_interrupted = example_session\<lparr>se_messages := [],
     se_metadata := PDict [(''runtime_checkpoint'', PDict
       [(''assistant_message'', PDict [(''role'', PStr ''assistant''), (''content'', PStr [])]),
        (''completed_tool_results'', PList []),
        (''pending_tool_calls'', PList [PDict [(''id'', PStr ''c1'')]])])]\<rparr>"


end
