(* ===== verification/LlmProvider.thy ===== *)
theory LlmProvider
  imports ToolSchema
begin

text \<open>
  The provider contract of \<open>src/llm_call/provider_base.py\<close>: responses and tool calls, the
  sanitising of request messages, and the retry loop. The provider is an operation on a world,
  which never raises because \<open>_safe_call\<close> turns an exception into an error response; the
  sleep and the notice before it are operations on the same world. The retry loop may run for
  ever in persistent mode, so it is a partial function; the lemmas show when it returns, and
  after how many calls.
\<close>

subsection \<open>Responses\<close>

record tool_call_request =
  tc_id :: string
  tc_name :: string
  tc_arguments :: pydict
  tc_extra_content :: pydict
  tc_provider_fields :: pydict
  tc_function_fields :: pydict

text \<open>\<open>to_openai_tool_call\<close>, for a printer \<open>dumps\<close> of JSON values. Empty extra fields are left out.\<close>

definition to_openai_tool_call :: "(pyval \<Rightarrow> string) \<Rightarrow> tool_call_request \<Rightarrow> pydict" where
  "to_openai_tool_call dumps tc =
     [(''id'', PStr (tc_id tc)), (''type'', PStr ''function''),
      (''function'', PDict ([(''name'', PStr (tc_name tc)), (''arguments'', PStr (dumps (PDict (tc_arguments tc))))]
         @ (if tc_function_fields tc \<noteq> [] then [(''provider_specific_fields'', PDict (tc_function_fields tc))] else [])))]
     @ (if tc_extra_content tc \<noteq> [] then [(''extra_content'', PDict (tc_extra_content tc))] else [])
     @ (if tc_provider_fields tc \<noteq> [] then [(''provider_specific_fields'', PDict (tc_provider_fields tc))] else [])"

record llm_response =
  lr_content :: "string option"
  lr_tool_calls :: "tool_call_request list"
  lr_finish_reason :: string
  lr_usage :: pydict
  lr_reasoning :: "string option"
  lr_thinking :: "pyval list"
  lr_extra :: pydict

definition has_tool_calls :: "llm_response \<Rightarrow> bool" where
  "has_tool_calls r \<longleftrightarrow> lr_tool_calls r \<noteq> []"

text \<open>\<open>_safe_call\<close>: the exception of a call as a response; \<open>kind\<close> is the name of its type.\<close>

definition safe_response :: "(err \<Rightarrow> string) \<Rightarrow> llm_response res \<Rightarrow> llm_response" where
  "safe_response kind r =
     (case r of
        Inr x \<Rightarrow> x
      | Inl e \<Rightarrow> \<lparr>lr_content = Some (''Error calling LLM: '' @ error_message e), lr_tool_calls = [],
                   lr_finish_reason = ''error'', lr_usage = [], lr_reasoning = None, lr_thinking = [],
                   lr_extra = [(''error_type'', PStr (kind e))]\<rparr>)"

subsection \<open>Sanitising requests\<close>

definition is_assistant_call :: "pydict \<Rightarrow> bool" where
  "is_assistant_call m \<longleftrightarrow> pget m ''role'' = PStr ''assistant'' \<and> truthy (pget m ''tool_calls'')"

text \<open>An item of a list content: nothing for an empty text block, and no internal field.\<close>

definition clean_item :: "pyval \<Rightarrow> pyval option" where
  "clean_item v =
     (case v of
        PDict d \<Rightarrow>
          if pget d ''type'' \<in> {PStr ''text'', PStr ''input_text'', PStr ''output_text''} \<and> \<not> truthy (pget d ''text'') then None
          else Some (PDict (dpop ''_meta'' d))
      | _ \<Rightarrow> Some v)"

definition empty_content :: "pydict \<Rightarrow> pyval" where
  "empty_content m = (if is_assistant_call m then PNone else PStr ''(empty)'')"

definition sanitize_message :: "pydict \<Rightarrow> pydict" where
  "sanitize_message m =
     (case pget m ''content'' of
        PStr s \<Rightarrow> if s = [] then dput ''content'' (empty_content m) m else m
      | PList items \<Rightarrow>
          let new_items = List.map_filter clean_item items in
          if map Some items = map clean_item items then m
          else dput ''content'' (if new_items \<noteq> [] then PList new_items else empty_content m) m
      | PDict d \<Rightarrow> dput ''content'' (PList [PDict d]) m
      | _ \<Rightarrow> m)"

definition sanitize_empty_content :: "pydict list \<Rightarrow> pydict list" where
  "sanitize_empty_content = map sanitize_message"

definition sanitize_request_messages :: "string set \<Rightarrow> pydict list \<Rightarrow> pydict list" where
  "sanitize_request_messages allowed =
     map (\<lambda>m. let clean = filter (\<lambda>(k, v). k \<in> allowed) m in
       if pget clean ''role'' = PStr ''assistant'' \<and> dget clean ''content'' = None
       then dput ''content'' PNone clean else clean)"

text \<open>Images become texts; \<open>None\<close> when there were none. A \<open>_meta\<close> that is not a dictionary
  raises.\<close>

definition image_placeholder :: "pydict \<Rightarrow> pyval res" where
  "image_placeholder b =
     (case por (pget b ''_meta'') (PDict []) of
        PDict d \<Rightarrow>
          (let path = pget_or d ''path'' (PStr []) in
           Inr (PDict [(''type'', PStr ''text''),
             (''text'', PStr (if truthy path then ''[image: '' @ py_str path @ '']'' else ''[image omitted]''))]))
      | _ \<Rightarrow> Inl (AttributeError ''get''))"

definition strip_item :: "pyval \<Rightarrow> pyval res" where
  "strip_item v =
     (case v of
        PDict b \<Rightarrow> if pget b ''type'' = PStr ''image_url'' then image_placeholder b else Inr v
      | _ \<Rightarrow> Inr v)"

definition has_image :: "pydict \<Rightarrow> bool" where
  "has_image m =
     (case pget m ''content'' of
        PList items \<Rightarrow> list_ex (\<lambda>v. case v of PDict b \<Rightarrow> pget b ''type'' = PStr ''image_url'' | _ \<Rightarrow> False) items
      | _ \<Rightarrow> False)"

definition strip_image_content :: "pydict list \<Rightarrow> pydict list option res" where
  "strip_image_content messages =
     rbind (rmap (\<lambda>m. case pget m ''content'' of
         PList items \<Rightarrow> rbind (rmap strip_item items) (\<lambda>new. Inr (dput ''content'' (PList new) m))
       | _ \<Rightarrow> Inr m) messages) (\<lambda>result.
       Inr (if list_ex has_image messages then Some result else None))"

subsection \<open>Errors and delays\<close>

definition transient_error_markers :: "string list" where
  "transient_error_markers =
     [''429'', ''rate limit'', ''rate increased'', ''too many requests'', ''500'', ''502'', ''503'', ''504'', ''overloaded'',
      ''timeout'', ''timed out'', ''connection'', ''server error'', ''temporarily unavailable'']"

definition is_transient_error :: "string option \<Rightarrow> bool" where
  "is_transient_error content =
     (let e = lower (case content of Some c \<Rightarrow> c | None \<Rightarrow> []) in list_ex (\<lambda>m. contains m e) transient_error_markers)"

definition chat_retry_delays :: "rat list" where
  "chat_retry_delays = [1, 2, 4, 8, 16, 32]"

definition persistent_max_delay :: rat where
  "persistent_max_delay = 60"

definition persistent_identical_error_limit :: nat where
  "persistent_identical_error_limit = 10"

definition retry_heartbeat_chunk :: rat where
  "retry_heartbeat_chunk = 30"

text \<open>The expression \<open>retry after\s+(\d+(?:\.\d+)?)\s*(unit)?\<close> at the beginning of a text: the number and
  what follows it. The units are tried in the order of the expression, so that \<open>s\<close> and \<open>m\<close>
  stand for every longer word that begins with them.\<close>

definition retry_number :: "string \<Rightarrow> (rat \<times> string) option" where
  "retry_number s =
     (if \<not> starts_with ''retry after'' s then None
      else
        let r = drop 11 s; r1 = dropWhile py_space r; ip = takeWhile py_digit r1; r2 = drop (length ip) r1;
            fp = (case r2 of c # t \<Rightarrow> if c = CHR ''.'' then takeWhile py_digit t else [] | [] \<Rightarrow> []);
            r3 = (if fp = [] then r2 else drop (length fp + 1) r2)
        in if r1 = r \<or> ip = [] then None
           else Some (of_nat (digits_value (ip @ fp)) / 10 ^ length fp, dropWhile py_space r3))"

definition retry_seconds :: "rat \<times> string \<Rightarrow> rat" where
  "retry_seconds p =
     (case p of (value, unit_text) \<Rightarrow>
        if starts_with ''ms'' unit_text \<or> starts_with ''milliseconds'' unit_text then max (1 / 10) (value / 1000)
        else if starts_with ''s'' unit_text then value
        else if starts_with ''m'' unit_text then value * 60
        else value)"

fun search_retry_after :: "string \<Rightarrow> rat option" where
  "search_retry_after [] = None"
| "search_retry_after (c # s) =
     (case retry_number (c # s) of Some p \<Rightarrow> Some (retry_seconds p) | None \<Rightarrow> search_retry_after s)"

definition extract_retry_after :: "string option \<Rightarrow> rat option" where
  "extract_retry_after content = search_retry_after (lower (case content of Some c \<Rightarrow> c | None \<Rightarrow> []))"

subsection \<open>The retry loop\<close>

record 'w provider_env =
  pe_call :: "pydict list \<Rightarrow> 'w \<Rightarrow> llm_response \<times> 'w"
  pe_sleep :: "rat \<Rightarrow> 'w \<Rightarrow> 'w"
  pe_wait :: "string \<Rightarrow> 'w \<Rightarrow> 'w"

definition wait_message :: "bool \<Rightarrow> nat \<Rightarrow> rat \<Rightarrow> string" where
  "wait_message persistent attempt remaining =
     ''Model request failed, '' @ (if persistent then ''persistent retry'' else ''retry'') @ '' in ''
     @ int_str (max 1 (floor (round_to 0 remaining))) @ ''s (attempt '' @ nat_digits attempt @ '').''"

function sleep_with_heartbeat :: "'w provider_env \<Rightarrow> bool \<Rightarrow> nat \<Rightarrow> rat \<Rightarrow> 'w \<Rightarrow> 'w" where
  "sleep_with_heartbeat env persistent attempt remaining w =
     (if remaining \<le> 0 then w
      else
        let chunk = min remaining retry_heartbeat_chunk in
        sleep_with_heartbeat env persistent attempt (remaining - chunk)
          (pe_sleep env chunk (pe_wait env (wait_message persistent attempt remaining) w)))"
  by pat_completeness auto
termination
proof (relation "measure (\<lambda>(env, persistent, attempt, remaining, w). nat \<lceil>remaining / retry_heartbeat_chunk\<rceil>)", simp)
  fix env :: "'w provider_env" and persistent :: bool and attempt :: nat and remaining chunk :: rat and w :: 'w
  assume pos: "\<not> remaining \<le> 0" and chunk: "chunk = min remaining retry_heartbeat_chunk"
  have "\<lceil>(remaining - chunk) / 30\<rceil> < \<lceil>remaining / 30\<rceil>"
  proof (cases "remaining \<le> 30")
    case True
    then show ?thesis using pos chunk by (simp add: retry_heartbeat_chunk_def)
  next
    case False
    then have "(remaining - chunk) / 30 = remaining / 30 - 1"
      using chunk by (simp add: retry_heartbeat_chunk_def field_simps)
    then have "\<lceil>(remaining - chunk) / 30\<rceil> = \<lceil>remaining / 30\<rceil> - 1"
      by (metis ceiling_diff_one)
    then show ?thesis by linarith
  qed
  moreover have "0 < \<lceil>remaining / 30\<rceil>" using pos by simp
  ultimately show "((env, persistent, attempt, remaining - chunk,
      pe_sleep env chunk (pe_wait env (wait_message persistent attempt remaining) w)),
      env, persistent, attempt, remaining, w)
    \<in> measure (\<lambda>(env, persistent, attempt, remaining, w). nat \<lceil>remaining / retry_heartbeat_chunk\<rceil>)"
    by (simp add: retry_heartbeat_chunk_def)
qed

declare sleep_with_heartbeat.simps [simp del]

text \<open>The locals of the loop.\<close>

record retry_state =
  rt_attempt :: nat
  rt_last_key :: "string option"
  rt_identical :: nat

definition error_key :: "llm_response \<Rightarrow> string option" where
  "error_key r =
     (let k = lower (strip (case lr_content r of Some c \<Rightarrow> c | None \<Rightarrow> [])) in if k = [] then None else Some k)"

definition note_error :: "llm_response \<Rightarrow> retry_state \<Rightarrow> retry_state" where
  "note_error r st =
     (let k = error_key r in
      if k \<noteq> None \<and> k = rt_last_key st then st\<lparr>rt_identical := rt_identical st + 1\<rparr>
      else st\<lparr>rt_last_key := k, rt_identical := (if k \<noteq> None then 1 else 0)\<rparr>)"

definition note_response :: "llm_response \<Rightarrow> retry_state \<Rightarrow> retry_state" where
  "note_response r st =
     (let st1 = st\<lparr>rt_attempt := rt_attempt st + 1\<rparr>
      in if lr_finish_reason r \<noteq> ''error'' then st1 else note_error r st1)"

definition retry_delay :: "bool \<Rightarrow> nat \<Rightarrow> string option \<Rightarrow> rat" where
  "retry_delay persistent attempt content =
     (let base = chat_retry_delays ! min (attempt - 1) (length chat_retry_delays - 1);
          delay = (case extract_retry_after content of Some d \<Rightarrow> if d \<noteq> 0 then d else base | None \<Rightarrow> base)
      in if persistent then min delay persistent_max_delay else delay)"

datatype retry_outcome =
    Return "llm_response res"
  | RetryWithout "pydict list"
  | WaitFor rat

text \<open>What the loop does with a response to attempt \<open>rt_attempt st\<close>; the state already counts it.\<close>

definition retry_decision :: "bool \<Rightarrow> pydict list \<Rightarrow> llm_response \<Rightarrow> retry_state \<Rightarrow> retry_outcome" where
  "retry_decision persistent messages r st =
     (if lr_finish_reason r \<noteq> ''error'' then Return (Inr r)
      else if \<not> is_transient_error (lr_content r) then
        (case strip_image_content messages of
           Inl e \<Rightarrow> Return (Inl e)
         | Inr (Some stripped) \<Rightarrow>
             if \<not> py_eq (PList (map PDict stripped)) (PList (map PDict messages)) then RetryWithout stripped else Return (Inr r)
         | Inr None \<Rightarrow> Return (Inr r))
      else if persistent \<and> persistent_identical_error_limit \<le> rt_identical st then Return (Inr r)
      else if \<not> persistent \<and> length chat_retry_delays < rt_attempt st then Return (Inr r)
      else WaitFor (retry_delay persistent (rt_attempt st) (lr_content r)))"

partial_function (option) retry_loop ::
    "'w provider_env \<Rightarrow> bool \<Rightarrow> pydict list \<Rightarrow> retry_state \<Rightarrow> 'w \<Rightarrow> (llm_response res \<times> 'w) option" where
  "retry_loop env persistent messages st w =
     (let (r, w1) = pe_call env messages w;
          st2 = note_response r st
      in case retry_decision persistent messages r st2 of
           Return x \<Rightarrow> Some (x, w1)
         | RetryWithout stripped \<Rightarrow> (let (r', w2) = pe_call env stripped w1 in Some (Inr r', w2))
         | WaitFor delay \<Rightarrow>
             retry_loop env persistent messages st2 (sleep_with_heartbeat env persistent (rt_attempt st2) (max 0 delay) w1))"

definition run_with_retry ::
    "'w provider_env \<Rightarrow> string \<Rightarrow> pydict list \<Rightarrow> 'w \<Rightarrow> (llm_response res \<times> 'w) option" where
  "run_with_retry env retry_mode messages w =
     retry_loop env (retry_mode = ''persistent'') messages \<lparr>rt_attempt = 0, rt_last_key = None, rt_identical = 0\<rparr> w"

subsection \<open>When the loop returns\<close>

text \<open>A provider whose calls are counted beside its world.\<close>

definition counted_env :: "'w provider_env \<Rightarrow> ('w \<times> nat) provider_env" where
  "counted_env env =
     \<lparr>pe_call = (\<lambda>ms p. case pe_call env ms (fst p) of (r, w1) \<Rightarrow> (r, (w1, snd p + 1))),
      pe_sleep = (\<lambda>d p. (pe_sleep env d (fst p), snd p)),
      pe_wait = (\<lambda>t p. (pe_wait env t (fst p), snd p))\<rparr>"

text \<open>A provider whose \<open>n\<close>-th call is answered by \<open>script n\<close>, whatever it is asked.\<close>

definition scripted_env :: "(nat \<Rightarrow> llm_response) \<Rightarrow> nat provider_env" where
  "scripted_env script =
     \<lparr>pe_call = (\<lambda>ms n. (script n, n + 1)), pe_sleep = (\<lambda>d n. n), pe_wait = (\<lambda>t n. n)\<rparr>"

definition transient_failure :: "llm_response \<Rightarrow> bool" where
  "transient_failure r \<longleftrightarrow> lr_finish_reason r = ''error'' \<and> is_transient_error (lr_content r)"

lemma sleep_counted:
  "sleep_with_heartbeat (counted_env env) persistent attempt remaining p
     = (sleep_with_heartbeat env persistent attempt remaining (fst p), snd p)"
proof (induction "counted_env env" persistent attempt remaining p rule: sleep_with_heartbeat.induct)
  case (1 persistent attempt remaining p)
  show ?case
    by (subst (1 2) sleep_with_heartbeat.simps) (simp add: 1 Let_def, simp add: counted_env_def)
qed

lemma sleep_scripted: "sleep_with_heartbeat (scripted_env script) persistent attempt remaining n = n"
proof (induction "scripted_env script" persistent attempt remaining n rule: sleep_with_heartbeat.induct)
  case (1 persistent attempt remaining n)
  show ?case
    by (subst sleep_with_heartbeat.simps) (simp add: 1 Let_def, simp add: scripted_env_def)
qed

lemma decision_waits:
  "retry_decision persistent messages r st = WaitFor d \<Longrightarrow>
     transient_failure r \<and> (\<not> persistent \<longrightarrow> rt_attempt st \<le> length chat_retry_delays)
     \<and> (persistent \<longrightarrow> rt_identical st < persistent_identical_error_limit)"
  by (auto simp: retry_decision_def transient_failure_def split: if_splits sum.splits option.splits)

lemma decision_returns:
  "retry_decision persistent messages r st = Return x \<Longrightarrow> x = Inr r \<or> (\<exists>e. strip_image_content messages = Inl e \<and> x = Inl e)"
  by (auto simp: retry_decision_def split: if_splits sum.splits option.splits)

lemma attempt_counted [simp]: "rt_attempt (note_response r st) = rt_attempt st + 1"
  by (simp add: note_response_def note_error_def Let_def)

lemma counted_call:
  "pe_call (counted_env env) ms (w, n) = (fst (pe_call env ms w), (snd (pe_call env ms w), n + 1))"
  by (simp add: counted_env_def split: prod.split)

lemma scripted_call: "pe_call (scripted_env script) ms i = (script i, i + 1)"
  by (simp add: scripted_env_def)

lemma loop_ends:
  assumes "retry_decision persistent messages (fst (pe_call env messages w)) (note_response (fst (pe_call env messages w)) st) = Return x"
  shows "retry_loop env persistent messages st w = Some (x, snd (pe_call env messages w))"
  using assms by (subst retry_loop.simps) (simp add: Let_def case_prod_beta)

lemma loop_asks_without_images:
  assumes "retry_decision persistent messages (fst (pe_call env messages w)) (note_response (fst (pe_call env messages w)) st)
             = RetryWithout stripped"
  shows "retry_loop env persistent messages st w
           = Some (Inr (fst (pe_call env stripped (snd (pe_call env messages w)))), snd (pe_call env stripped (snd (pe_call env messages w))))"
  using assms by (subst retry_loop.simps) (simp add: Let_def case_prod_beta)

lemma loop_repeats:
  assumes "retry_decision persistent messages (fst (pe_call env messages w)) (note_response (fst (pe_call env messages w)) st) = WaitFor d"
  shows "retry_loop env persistent messages st w
           = retry_loop env persistent messages (note_response (fst (pe_call env messages w)) st)
               (sleep_with_heartbeat env persistent (rt_attempt st + 1) (max 0 d) (snd (pe_call env messages w)))"
  using assms by (subst retry_loop.simps) (simp add: Let_def case_prod_beta)

lemma standard_loop_returns:
  "rt_attempt st \<le> 6 \<Longrightarrow>
     \<exists>x w' n'. retry_loop env False messages st w = Some (x, w')
       \<and> retry_loop (counted_env env) False messages st (w, n) = Some (x, (w', n'))
       \<and> n < n' \<and> n' + rt_attempt st \<le> n + 8"
proof (induction "7 - rt_attempt st" arbitrary: st w n)
  case 0
  then show ?case by simp
next
  case (Suc k)
  define r w1 where "r = fst (pe_call env messages w)" and "w1 = snd (pe_call env messages w)"
  note call = r_def[symmetric] w1_def[symmetric] counted_call
  let ?st2 = "note_response r st"
  show ?case
  proof (cases "retry_decision False messages r ?st2")
    case (Return x)
    then show ?thesis using Suc.prems by (simp add: loop_ends[where x = x] call)
  next
    case (RetryWithout stripped)
    then show ?thesis using Suc.prems by (simp add: loop_asks_without_images[where stripped = stripped] call)
  next
    case (WaitFor d)
    then have le: "rt_attempt ?st2 \<le> 6" using decision_waits[OF WaitFor] by (simp add: chat_retry_delays_def)
    have k: "k = 7 - rt_attempt ?st2" using Suc.hyps(2) by simp
    show ?thesis
      using Suc.hyps(1)[OF k le, of "sleep_with_heartbeat env False (rt_attempt st + 1) (max 0 d) w1" "n + 1"] WaitFor
      by (auto simp: loop_repeats[where d = d] call sleep_counted)
  qed
qed

lemma scripted_loop_returns:
  "n \<le> k \<Longrightarrow> \<not> transient_failure (script k) \<Longrightarrow>
     \<exists>x n'. retry_loop (scripted_env script) persistent messages st n = Some (x, n') \<and> n < n' \<and> n' \<le> k + 2
       \<and> (x = Inr (script (n' - 1)) \<or> (\<exists>e. strip_image_content messages = Inl e \<and> x = Inl e))"
proof (induction "k - n" arbitrary: st n)
  case 0
  let ?d = "retry_decision persistent messages (script n) (note_response (script n) st)"
  have "n = k" using 0 by simp
  moreover have "?d \<noteq> WaitFor d" for d
    using decision_waits[of persistent messages "script n" "note_response (script n) st" d] 0 by auto
  ultimately show ?case
    using decision_returns[of persistent messages "script n" "note_response (script n) st"]
    by (cases ?d) (auto simp: loop_ends loop_asks_without_images scripted_call)
next
  case (Suc m)
  let ?st2 = "note_response (script n) st"
  have m: "m = k - (n + 1)" "n + 1 \<le> k" using Suc by simp_all
  show ?case
  proof (cases "retry_decision persistent messages (script n) ?st2")
    case (Return y)
    then show ?thesis using decision_returns[OF Return] m by (auto simp: loop_ends scripted_call)
  next
    case (RetryWithout stripped)
    then show ?thesis using m by (simp add: loop_asks_without_images[where stripped = stripped] scripted_call)
  next
    case (WaitFor d)
    obtain x n' where "retry_loop (scripted_env script) persistent messages ?st2 (n + 1) = Some (x, n')" "n + 1 < n'" "n' \<le> k + 2"
        "x = Inr (script (n' - 1)) \<or> (\<exists>e. strip_image_content messages = Inl e \<and> x = Inl e)"
      using Suc.hyps(1)[OF m, of ?st2] Suc.prems by auto
    then show ?thesis using WaitFor by (auto simp: loop_repeats[where d = d] scripted_call sleep_scripted)
  qed
qed

text \<open>C18: A request that is not persistent always returns, whatever the provider answers, after at
  most eight calls: seven attempts and one without images.\<close>

theorem standard_retry_is_bounded:
  "retry_mode \<noteq> ''persistent'' \<Longrightarrow>
     \<exists>x w' n. run_with_retry env retry_mode messages w = Some (x, w')
       \<and> run_with_retry (counted_env env) retry_mode messages (w, 0) = Some (x, (w', n)) \<and> 0 < n \<and> n \<le> 8"
  using standard_loop_returns[of "\<lparr>rt_attempt = 0, rt_last_key = None, rt_identical = 0\<rparr>" env messages w 0]
  by (simp add: run_with_retry_def)

theorem standard_retry_is_bounded_witness:
  "\<exists>x w' n. run_with_retry (scripted_env (\<lambda>i. \<lparr>lr_content = Some ''429'', lr_tool_calls = [], lr_finish_reason = ''error'',
        lr_usage = [], lr_reasoning = None, lr_thinking = [], lr_extra = []\<rparr>)) ''standard'' [] 0 = Some (x, w')
     \<and> run_with_retry (counted_env (scripted_env (\<lambda>i. \<lparr>lr_content = Some ''429'', lr_tool_calls = [], lr_finish_reason = ''error'',
        lr_usage = [], lr_reasoning = None, lr_thinking = [], lr_extra = []\<rparr>))) ''standard'' [] (0, 0) = Some (x, (w', n))
     \<and> 0 < n \<and> n \<le> 8"
  by (rule standard_retry_is_bounded) simp



end
