(* ===== verification/AgentContext.thy ===== *)
theory AgentContext
  imports AgentTurn LlmProvider
begin

text \<open>
  What the agent runner does to messages before a request: the normalisation of tool results with
  the files that oversized results are moved to, the internal message ids, the token estimates
  and the cut of the history to the context window (\<open>src/agents/openclaw/_runner.py\<close>,
  \<open>utils/helpers.py\<close>, \<open>utils/runtime.py\<close>). The tokenizer is an argument that may raise; the
  files are a store keyed by bucket and name, and the times of the buckets are arguments. The
  lemmas show that a cut history is legal and within its budget, and that normalising a result
  twice changes nothing.
\<close>

subsection \<open>Tool results\<close>

definition empty_tool_result_message :: "string \<Rightarrow> string" where
  "empty_tool_result_message name = ''('' @ name @ '' completed with no output)''"

fun stringify_text_blocks :: "pyval list \<Rightarrow> string list option" where
  "stringify_text_blocks [] = Some []"
| "stringify_text_blocks (b # bs) =
     (case b of
        PDict d \<Rightarrow>
          (if pget d ''type'' = PStr ''text'' then
             (case pget d ''text'' of PStr s \<Rightarrow> map_option (Cons s) (stringify_text_blocks bs) | _ \<Rightarrow> None)
           else None)
      | _ \<Rightarrow> None)"

definition text_payload :: "pyval list \<Rightarrow> string option" where
  "text_payload bs = map_option (join [CHR 0x0A]) (stringify_text_blocks bs)"

definition ensure_nonempty_tool_result :: "string \<Rightarrow> pyval \<Rightarrow> pyval" where
  "ensure_nonempty_tool_result name content =
     (let marker = PStr (empty_tool_result_message name) in
      case content of
        PNone \<Rightarrow> marker
      | PStr s \<Rightarrow> if strip s = [] then marker else content
      | PList bs \<Rightarrow>
          if bs = [] then marker
          else (case text_payload bs of Some t \<Rightarrow> if strip t = [] then marker else content | None \<Rightarrow> content)
      | _ \<Rightarrow> content)"

definition tool_result_preview_chars :: nat where
  "tool_result_preview_chars = 1200"

definition render_tool_result_reference :: "string \<Rightarrow> nat \<Rightarrow> string \<Rightarrow> bool \<Rightarrow> string" where
  "render_tool_result_reference filepath original_size preview truncated_preview =
     ''[tool output persisted]'' @ [CHR 0x0A] @ ''Full output saved to: '' @ filepath @ [CHR 0x0A]
     @ ''Original size: '' @ nat_digits original_size @ '' chars'' @ [CHR 0x0A] @ ''Preview:'' @ [CHR 0x0A] @ preview
     @ (if truncated_preview then [CHR 0x0A] @ ''...'' @ [CHR 0x0A] @ ''(Read the saved file if you need the full output.)''
        else [])"

text \<open>The directory \<open>tool-results\<close>: its buckets, and the files by bucket and name.\<close>

record result_store =
  rf_buckets :: "string list"
  rf_files :: "((string \<times> string) \<times> string) list"

record persist_env =
  pv_results_dir :: "string option"
  pv_session_key :: "string option"
  pv_max_chars :: int
  pv_now :: rat
  pv_mtime :: "string \<Rightarrow> rat"
  pv_dir_error :: "err option"
  pv_write_error :: "string \<Rightarrow> string \<Rightarrow> err option"
  pv_dump_indent :: "pyval \<Rightarrow> string"

definition tool_result_retention_secs :: rat where
  "tool_result_retention_secs = 7 * 24 * 60 * 60"

definition tool_result_max_buckets :: nat where
  "tool_result_max_buckets = 32"

text \<open>The buckets that stay beside the current one: not too old, and the latest of them.\<close>

definition kept_buckets :: "persist_env \<Rightarrow> string list \<Rightarrow> string list" where
  "kept_buckets env siblings =
     (let fresh = filter (\<lambda>b. pv_now env - tool_result_retention_secs \<le> pv_mtime env b) siblings;
          keep = tool_result_max_buckets - 1
      in if length fresh \<le> keep then fresh else take keep (sort_key (\<lambda>b. - pv_mtime env b) fresh))"

definition cleanup_tool_result_buckets :: "persist_env \<Rightarrow> string \<Rightarrow> result_store \<Rightarrow> result_store" where
  "cleanup_tool_result_buckets env current st =
     (let kept = kept_buckets env (filter (\<lambda>b. b \<noteq> current) (rf_buckets st)) in
      st\<lparr>rf_buckets := filter (\<lambda>b. b = current \<or> b \<in> set kept) (rf_buckets st),
         rf_files := filter (\<lambda>((b, n), t). b = current \<or> b \<in> set kept) (rf_files st)\<rparr>)"

definition ensure_bucket :: "string \<Rightarrow> result_store \<Rightarrow> result_store" where
  "ensure_bucket b st = (if b \<in> set (rf_buckets st) then st else st\<lparr>rf_buckets := rf_buckets st @ [b]\<rparr>)"

definition bucket_name :: "persist_env \<Rightarrow> string" where
  "bucket_name env =
     safe_filename (case pv_session_key env of Some k \<Rightarrow> if k = [] then ''default'' else k | None \<Rightarrow> ''default'')"

text \<open>A file that exists is kept as it is.\<close>

definition write_result_file :: "persist_env \<Rightarrow> string \<Rightarrow> string \<Rightarrow> string \<Rightarrow> result_store \<Rightarrow> unit res \<times> result_store" where
  "write_result_file env bucket name body st =
     (if dget (rf_files st) (bucket, name) \<noteq> None then (Inr (), st)
      else (case pv_write_error env bucket name of
              Some e \<Rightarrow> (Inl e, st)
            | None \<Rightarrow> (Inr (), st\<lparr>rf_files := dput (bucket, name) body (rf_files st)\<rparr>)))"

text \<open>The text of a content that may be moved to a file, and the suffix of the file.\<close>

definition persistable :: "pyval \<Rightarrow> (string \<times> string) option" where
  "persistable content =
     (case content of
        PStr s \<Rightarrow> Some (s, ''txt'')
      | PList bs \<Rightarrow> map_option (\<lambda>s. (s, ''json'')) (text_payload bs)
      | _ \<Rightarrow> None)"

definition persist_payload ::
    "persist_env \<Rightarrow> string \<Rightarrow> string \<Rightarrow> pyval \<Rightarrow> string \<Rightarrow> string \<Rightarrow> result_store \<Rightarrow> pyval res \<times> result_store" where
  "persist_payload env dir tool_call_id content payload suffix st =
     (let bucket = bucket_name env; name = safe_filename tool_call_id @ ''.'' @ suffix;
          path = path_join (path_join (path_join dir ''tool-results'') bucket) name;
          body = (if suffix = ''json'' then pv_dump_indent env content else payload)
      in case pv_dir_error env of
           Some e \<Rightarrow> (Inl e, st)
         | None \<Rightarrow>
             (case write_result_file env bucket name body (cleanup_tool_result_buckets env bucket (ensure_bucket bucket st)) of
                (Inl e, st') \<Rightarrow> (Inl e, st')
              | (Inr _, st') \<Rightarrow>
                  (Inr (PStr (render_tool_result_reference path (length payload) (take tool_result_preview_chars payload)
                     (tool_result_preview_chars < length payload))), st')))"

definition maybe_persist_tool_result ::
    "persist_env \<Rightarrow> string \<Rightarrow> pyval \<Rightarrow> result_store \<Rightarrow> pyval res \<times> result_store" where
  "maybe_persist_tool_result env tool_call_id content st =
     (case pv_results_dir env of
        None \<Rightarrow> (Inr content, st)
      | Some dir \<Rightarrow>
          if pv_max_chars env \<le> 0 then (Inr content, st)
          else (case persistable content of
                  None \<Rightarrow> (Inr content, st)
                | Some (payload, suffix) \<Rightarrow>
                    if int (length payload) \<le> pv_max_chars env then (Inr content, st)
                    else persist_payload env dir tool_call_id content payload suffix st))"

definition limit_text :: "int \<Rightarrow> pyval \<Rightarrow> pyval" where
  "limit_text max_chars content =
     (case content of
        PStr s \<Rightarrow> if max_chars < int (length s) then PStr (truncate_text s max_chars) else content
      | _ \<Rightarrow> content)"

definition normalize_tool_result ::
    "persist_env \<Rightarrow> string \<Rightarrow> string \<Rightarrow> pyval \<Rightarrow> result_store \<Rightarrow> pyval \<times> result_store" where
  "normalize_tool_result env tool_call_id tool_name result st =
     (let result = ensure_nonempty_tool_result tool_name result in
      case maybe_persist_tool_result env tool_call_id result st of
        (Inl e, st') \<Rightarrow> (limit_text (pv_max_chars env) result, st')
      | (Inr content, st') \<Rightarrow> (limit_text (pv_max_chars env) content, st'))"

text \<open>The message at position \<open>idx\<close> of the history.\<close>

definition budget_message :: "persist_env \<Rightarrow> nat \<Rightarrow> pydict \<Rightarrow> result_store \<Rightarrow> pydict \<times> result_store" where
  "budget_message env idx m st =
     (if \<not> is_role ''tool'' m then (m, st)
      else (case normalize_tool_result env
                   (py_str (por (pget m ''tool_call_id'') (PStr (''tool_'' @ nat_digits idx))))
                   (py_str (por (pget m ''name'') (PStr ''tool''))) (pget m ''content'') st of
              (normalized, st') \<Rightarrow>
                (if py_eq normalized (pget m ''content'') then m else dput ''content'' normalized m, st')))"

fun budget_from :: "persist_env \<Rightarrow> nat \<Rightarrow> pydict list \<Rightarrow> result_store \<Rightarrow> pydict list \<times> result_store" where
  "budget_from env idx [] st = ([], st)"
| "budget_from env idx (m # ms) st =
     (case budget_message env idx m st of
        (m', st') \<Rightarrow> (case budget_from env (idx + 1) ms st' of (ms', st'') \<Rightarrow> (m' # ms', st'')))"

definition apply_tool_result_budget :: "persist_env \<Rightarrow> pydict list \<Rightarrow> result_store \<Rightarrow> pydict list \<times> result_store" where
  "apply_tool_result_budget env messages st = budget_from env 0 messages st"

subsection \<open>Messages\<close>

definition opt_str :: "string option \<Rightarrow> pyval" where
  "opt_str s = (case s of Some t \<Rightarrow> PStr t | None \<Rightarrow> PNone)"

definition build_assistant_message :: "string option \<Rightarrow> pydict list \<Rightarrow> string option \<Rightarrow> pyval list \<Rightarrow> pydict" where
  "build_assistant_message content tool_calls reasoning thinking =
     [(''role'', PStr ''assistant''), (''content'', opt_str content)]
     @ (if tool_calls \<noteq> [] then [(''tool_calls'', PList (map PDict tool_calls))] else [])
     @ (if reasoning \<noteq> None \<or> thinking \<noteq> []
        then [(''reasoning_content'', PStr (case reasoning of Some r \<Rightarrow> r | None \<Rightarrow> []))] else [])
     @ (if thinking \<noteq> [] then [(''thinking_blocks'', PList thinking)] else [])"

definition internal_message_id_key :: string where
  "internal_message_id_key = ''_openclaw_message_id''"

fun ensure_message_ids :: "nat \<Rightarrow> pydict list \<Rightarrow> pydict list \<times> nat" where
  "ensure_message_ids next_id [] = ([], next_id)"
| "ensure_message_ids next_id (m # ms) =
     (if dget m internal_message_id_key \<noteq> None then (case ensure_message_ids next_id ms of (ms', n) \<Rightarrow> (m # ms', n))
      else (case ensure_message_ids (next_id + 1) ms of
              (ms', n) \<Rightarrow> (dput internal_message_id_key (PStr (''msg_'' @ nat_digits next_id)) m # ms', n)))"

definition strip_internal_message_id :: "pydict \<Rightarrow> pydict" where
  "strip_internal_message_id m = dpop internal_message_id_key m"

definition strip_internal_message_ids :: "pydict list \<Rightarrow> pydict list" where
  "strip_internal_message_ids ms = map strip_internal_message_id ms"

definition is_blank_text :: "string option \<Rightarrow> bool" where
  "is_blank_text content = (case content of None \<Rightarrow> True | Some s \<Rightarrow> strip s = [])"

text \<open>The final message replaces a last assistant message without calls.\<close>

definition append_final_message :: "string option \<Rightarrow> pydict list \<Rightarrow> pydict list" where
  "append_final_message content messages =
     (case content of
        None \<Rightarrow> messages
      | Some s \<Rightarrow>
          if s = [] then messages
          else if messages \<noteq> [] \<and> is_role ''assistant'' (last messages) \<and> \<not> truthy (pget (last messages) ''tool_calls'')
          then (if pget (last messages) ''content'' = PStr s then messages
                else butlast messages @ [build_assistant_message content [] None []])
          else messages @ [build_assistant_message content [] None []])"

text \<open>The pairs that stand for malformed calls are removed at the end. A list of calls holds
  dictionaries with a dictionary under \<open>function\<close>, as \<open>build_assistant_message\<close> makes them.\<close>

definition is_invalid_call :: "pyval \<Rightarrow> bool" where
  "is_invalid_call tc =
     (case tc of
        PDict d \<Rightarrow> (case pget_or d ''function'' (PDict []) of PDict f \<Rightarrow> pget f ''name'' = PStr ''_invalid_tool_call'' | _ \<Rightarrow> False)
      | _ \<Rightarrow> False)"

definition is_synthetic_call :: "pydict \<Rightarrow> bool" where
  "is_synthetic_call m \<longleftrightarrow> is_role ''assistant'' m
     \<and> (case pget m ''tool_calls'' of PList tcs \<Rightarrow> tcs \<noteq> [] \<and> list_all is_invalid_call tcs | _ \<Rightarrow> False)"

fun strip_synthetic_from :: "string set \<Rightarrow> pydict list \<Rightarrow> pydict list" where
  "strip_synthetic_from skip [] = []"
| "strip_synthetic_from skip (m # ms) =
     (if is_synthetic_call m then strip_synthetic_from (skip \<union> set (call_ids m)) ms
      else if is_role ''tool'' m \<and> py_str (pget_or m ''tool_call_id'' (PStr [])) \<in> skip then strip_synthetic_from skip ms
      else m # strip_synthetic_from skip ms)"

definition strip_synthetic_malformed_pairs :: "pydict list \<Rightarrow> pydict list" where
  "strip_synthetic_malformed_pairs ms = strip_synthetic_from {} ms"

subsection \<open>Token estimates\<close>

text \<open>\<open>sep.join(parts)\<close> raises on a part that is not a string.\<close>

definition join_parts :: "pyval list \<Rightarrow> string res" where
  "join_parts parts =
     rbind (rmap (\<lambda>v. case v of PStr s \<Rightarrow> Inr s | _ \<Rightarrow> Inl (TypeError ''sequence item: expected str instance'')) parts)
       (\<lambda>ss. Inr (join [CHR 0x0A] ss))"

definition filled_str :: "pyval \<Rightarrow> pyval list" where
  "filled_str v = (case v of PStr s \<Rightarrow> if s = [] then [] else [v] | _ \<Rightarrow> [])"

definition block_text :: "pyval \<Rightarrow> pyval list option" where
  "block_text part =
     (case part of
        PDict d \<Rightarrow>
          if pget d ''type'' = PStr ''text''
          then (let t = pget_or d ''text'' (PStr []) in Some (if truthy t then [t] else []))
          else None
      | _ \<Rightarrow> None)"

definition message_parts :: "pydict \<Rightarrow> pyval list" where
  "message_parts m =
     (case pget m ''content'' of
        PStr s \<Rightarrow> [PStr s]
      | PList bs \<Rightarrow> concat (map (\<lambda>b. case block_text b of Some ts \<Rightarrow> ts | None \<Rightarrow> [PStr (json_dump b)]) bs)
      | PNone \<Rightarrow> []
      | v \<Rightarrow> [PStr (json_dump v)])
     @ filled_str (pget m ''name'') @ filled_str (pget m ''tool_call_id'')
     @ (if truthy (pget m ''tool_calls'') then [PStr (json_dump (pget m ''tool_calls''))] else [])
     @ filled_str (pget m ''reasoning_content'')"

definition estimate_message_tokens :: "(string \<Rightarrow> nat res) \<Rightarrow> pydict \<Rightarrow> nat res" where
  "estimate_message_tokens encode m =
     rbind (join_parts (message_parts m)) (\<lambda>payload.
       Inr (if payload = [] then 4
            else (case encode payload of Inr n \<Rightarrow> max 4 (n + 4) | Inl e \<Rightarrow> max 4 (length payload div 4 + 4))))"

definition prompt_parts :: "pydict \<Rightarrow> pyval list" where
  "prompt_parts m =
     (case pget m ''content'' of
        PStr s \<Rightarrow> [PStr s]
      | PList bs \<Rightarrow> concat (map (\<lambda>b. case block_text b of Some ts \<Rightarrow> ts | None \<Rightarrow> []) bs)
      | _ \<Rightarrow> [])
     @ (if truthy (pget m ''tool_calls'') then [PStr (json_dump (pget m ''tool_calls''))] else [])
     @ filled_str (pget m ''reasoning_content'')
     @ filled_str (pget m ''name'') @ filled_str (pget m ''tool_call_id'')"

definition estimate_prompt_tokens :: "(string \<Rightarrow> nat res) \<Rightarrow> pydict list \<Rightarrow> pydict list \<Rightarrow> nat res" where
  "estimate_prompt_tokens encode messages tools =
     rbind (join_parts (concat (map prompt_parts messages)
       @ (if tools \<noteq> [] then [PStr (json_dump (PList (map PDict tools)))] else []))) (\<lambda>payload.
     rbind (encode payload) (\<lambda>n. Inr (n + length messages * 4)))"

record context_env =
  ce_window :: "int option"
  ce_block_limit :: "int option"
  ce_max_tokens :: "int option"
  ce_encode :: "string \<Rightarrow> nat res"
  ce_counter :: "pydict list \<Rightarrow> nat option"
  ce_definitions :: "pydict list"

text \<open>The counter of the provider, when it gives a positive number, and otherwise the tokenizer.\<close>

definition estimate_prompt_tokens_chain :: "context_env \<Rightarrow> pydict list \<Rightarrow> nat res" where
  "estimate_prompt_tokens_chain env messages =
     (case ce_counter env messages of
        Some n \<Rightarrow> if 0 < n then Inr n else estimate_prompt_tokens (ce_encode env) messages (ce_definitions env)
      | None \<Rightarrow> estimate_prompt_tokens (ce_encode env) messages (ce_definitions env))"

subsection \<open>The cut of the history\<close>

definition snip_budget :: "context_env \<Rightarrow> int \<Rightarrow> int" where
  "snip_budget env window =
     (case ce_block_limit env of
        Some b \<Rightarrow> if b \<noteq> 0 then b else window - (case ce_max_tokens env of Some n \<Rightarrow> n | None \<Rightarrow> 4096) - 1024
      | None \<Rightarrow> window - (case ce_max_tokens env of Some n \<Rightarrow> n | None \<Rightarrow> 4096) - 1024)"

text \<open>The messages that fit, taken from the end: at least one.\<close>

fun keep_recent :: "(string \<Rightarrow> nat res) \<Rightarrow> int \<Rightarrow> nat \<Rightarrow> pydict list \<Rightarrow> pydict list \<Rightarrow> pydict list res" where
  "keep_recent encode remaining tokens kept [] = Inr kept"
| "keep_recent encode remaining tokens kept (m # older) =
     rbind (estimate_message_tokens encode m) (\<lambda>t.
       if kept \<noteq> [] \<and> remaining < int (tokens + t) then Inr kept
       else keep_recent encode remaining (tokens + t) (m # kept) older)"

definition legal_suffix :: "pydict list \<Rightarrow> pydict list" where
  "legal_suffix ms = drop (find_legal_message_start ms) ms"

definition snipped :: "pydict list \<Rightarrow> pydict list \<Rightarrow> pydict list" where
  "snipped non_system kept =
     (let kept1 = legal_suffix (from_first_user kept) in
      if kept1 \<noteq> [] then kept1 else legal_suffix (drop (length non_system - min (length non_system) 4) non_system))"

definition snip_history :: "context_env \<Rightarrow> pydict list \<Rightarrow> pydict list res" where
  "snip_history env messages =
     (case ce_window env of
        None \<Rightarrow> Inr messages
      | Some window \<Rightarrow>
          if messages = [] \<or> window = 0 then Inr messages
          else if snip_budget env window \<le> 0 then Inr messages
          else
            rbind (estimate_prompt_tokens_chain env messages) (\<lambda>estimate.
              if int estimate \<le> snip_budget env window then Inr messages
              else
                let system_messages = filter (is_role ''system'') messages;
                    non_system = filter (\<lambda>m. \<not> is_role ''system'' m) messages
                in if non_system = [] then Inr messages
                   else
                     rbind (rmap (estimate_message_tokens (ce_encode env)) system_messages) (\<lambda>ts.
                     rbind (keep_recent (ce_encode env) (max 128 (snip_budget env window - int (sum_list ts))) 0 [] (rev non_system)) (\<lambda>kept.
                       Inr (system_messages @ snipped non_system kept)))))"

subsection \<open>Lemmas: what legality depends on\<close>

definition shape :: "pydict \<Rightarrow> pyval \<times> pyval \<times> pyval" where
  "shape m = (pget m ''role'', pget m ''tool_calls'', pget m ''tool_call_id'')"

lemma dget_dpop_other: "j \<noteq> k \<Longrightarrow> dget (dpop k d) j = dget d j"
  by (simp add: dict.get_remove)

lemma shape_put [simp]:
  assumes "k \<notin> {''role'', ''tool_calls'', ''tool_call_id''}"
  shows "shape (dput k v m) = shape m" "shape (dpop k m) = shape m"
proof -
  have "''role'' \<noteq> k" "''tool_calls'' \<noteq> k" "''tool_call_id'' \<noteq> k" using assms by blast+
  then show "shape (dput k v m) = shape m" "shape (dpop k m) = shape m"
    by (simp_all only: shape_def pget_def dict.get_put_other dget_dpop_other simp_thms)
qed

lemma legal_from_shape: "map shape ms = map shape ms' \<Longrightarrow> legal_from D ms = legal_from D ms'"
proof (induction ms arbitrary: ms' D)
  case (Cons m ms)
  then obtain m' ms'' where m: "ms' = m' # ms''" "shape m = shape m'" "map shape ms = map shape ms''" by auto
  have "call_ids m = call_ids m'" using m(2) by (simp add: shape_def call_ids_def)
  then show ?case using m(2) Cons.IH[OF m(3)] by (simp add: m(1) shape_def)
qed simp

lemma budget_message_shape: "budget_message env i m st = (m', st') \<Longrightarrow> shape m' = shape m"
  by (auto simp: budget_message_def split: if_splits prod.splits)

lemma budget_from_shape: "budget_from env i ms st = (ms', st') \<Longrightarrow> map shape ms' = map shape ms"
  by (induction env i ms st arbitrary: ms' st' rule: budget_from.induct)
    (auto split: prod.splits dest: budget_message_shape)

lemma ensure_message_ids_shape: "ensure_message_ids n ms = (ms', k) \<Longrightarrow> map shape ms' = map shape ms"
  by (induction n ms arbitrary: ms' k rule: ensure_message_ids.induct)
    (auto simp: internal_message_id_key_def split: prod.splits if_splits)

lemma strip_internal_shape: "map shape (strip_internal_message_ids ms) = map shape ms"
  by (simp add: strip_internal_message_ids_def strip_internal_message_id_def internal_message_id_key_def)

subsection \<open>Lemmas: the cut\<close>

lemma keep_recent_suffix:
  "keep_recent encode r tokens kept (rev older) = Inr result \<Longrightarrow> \<exists>k. result = drop k older @ kept"
proof (induction older arbitrary: tokens kept result rule: rev_induct)
  case (snoc m older)
  obtain t where t: "estimate_message_tokens encode m = Inr t" using snoc.prems by (auto simp: rbind_eq_Inr)
  show ?case
  proof (cases "kept \<noteq> [] \<and> r < int (tokens + t)")
    case True
    then show ?thesis using snoc.prems t by (intro exI[of _ "length older + 1"]) simp
  next
    case False
    then have "keep_recent encode r (tokens + t) (m # kept) (rev older) = Inr result"
      using snoc.prems t by (simp split: if_splits)
    then obtain k where "result = drop k older @ m # kept" using snoc.IH by blast
    then show ?thesis by (intro exI[of _ "min k (length older)"]) (simp add: min_def)
  qed
qed simp

text \<open>The tokens of the kept messages, when there are several.\<close>

definition token_sum :: "(string \<Rightarrow> nat res) \<Rightarrow> pydict list \<Rightarrow> nat" where
  "token_sum encode ms = sum_list (map (\<lambda>m. case estimate_message_tokens encode m of Inr t \<Rightarrow> t | Inl _ \<Rightarrow> 0) ms)"

lemma keep_recent_tokens:
  "keep_recent encode r (token_sum encode kept) kept older = Inr result \<Longrightarrow>
     length kept \<le> 1 \<or> int (token_sum encode kept) \<le> r \<Longrightarrow> length result \<le> 1 \<or> int (token_sum encode result) \<le> r"
proof (induction older arbitrary: kept)
  case (Cons m older)
  obtain t where t: "estimate_message_tokens encode m = Inr t" using Cons.prems(1) by (auto simp: rbind_eq_Inr)
  have sum: "token_sum encode (m # kept) = token_sum encode kept + t" by (simp add: token_sum_def t)
  show ?case
  proof (cases "kept \<noteq> [] \<and> r < int (token_sum encode kept + t)")
    case True
    then show ?thesis using Cons.prems t by simp
  next
    case False
    then show ?thesis using Cons.prems(1) t Cons.IH[of "m # kept"] by (auto simp: sum)
  qed
qed simp

lemma from_first_user_suffix: "\<exists>k. from_first_user ms = drop k ms"
  by (auto simp: from_first_user_def dropWhile_eq_drop intro: exI[of _ 0])

lemma legal_suffix_suffix: "\<exists>k. legal_suffix ms = drop k ms" and legal_suffix_legal: "legal (legal_suffix ms)"
  using legal_start_ok(2) by (auto simp: legal_suffix_def)

lemma token_sum_drop: "token_sum encode (drop k ms) \<le> token_sum encode ms"
  by (metis append_take_drop_id le_add2 map_append sum_list_append token_sum_def)

lemma legal_system: "list_all (is_role ''system'') ms \<Longrightarrow> legal_from D (ms @ ms') = legal_from D ms'"
  by (induction ms) auto

lemma filter_system: "list_all (is_role ''system'') (filter (is_role ''system'') ms)"
  by (simp add: list_all_iff)

lemma snipped_spec:
  assumes kept: "keep_recent encode r 0 [] (rev non_system) = Inr kept"
  shows "\<exists>k. snipped non_system kept = drop k non_system \<and> legal (drop k non_system)
     \<and> (length (drop k non_system) \<le> 4 \<or> int (token_sum encode (drop k non_system)) \<le> r)"
proof -
  obtain k0 where k0: "kept = drop k0 non_system" using keep_recent_suffix[OF kept] by auto
  have tokens: "length kept \<le> 1 \<or> int (token_sum encode kept) \<le> r"
    using keep_recent_tokens[of encode r "[]" "rev non_system" kept] kept by (simp add: token_sum_def)
  obtain j where j: "legal_suffix (from_first_user kept) = drop j kept"
    using from_first_user_suffix[of kept] legal_suffix_suffix by (metis drop_drop)
  let ?last = "drop (length non_system - min (length non_system) 4) non_system"
  obtain i where i: "legal_suffix ?last = drop i ?last" using legal_suffix_suffix by blast
  show ?thesis
  proof (cases "legal_suffix (from_first_user kept) = []")
    case True
    then have "snipped non_system kept = drop (i + (length non_system - min (length non_system) 4)) non_system"
      by (simp add: snipped_def i)
    moreover have "legal (drop i ?last)" using legal_suffix_legal[of ?last] i by simp
    ultimately show ?thesis
      by (intro exI[of _ "i + (length non_system - min (length non_system) 4)"] conjI disjI1) (simp_all add: add.commute)
  next
    case False
    then have "snipped non_system kept = drop j kept" by (simp add: snipped_def j)
    then have "snipped non_system kept = drop (j + k0) non_system" by (simp add: k0)
    moreover have "legal (drop (j + k0) non_system)"
      using legal_suffix_legal[of "from_first_user kept"] j k0 by simp
    moreover have "length (drop (j + k0) non_system) \<le> 4 \<or> int (token_sum encode (drop (j + k0) non_system)) \<le> r"
      using tokens token_sum_drop[of encode j kept] k0 by (auto simp: add.commute)
    ultimately show ?thesis by blast
  qed
qed

lemma rmap_tokens: "rmap (estimate_message_tokens encode) ms = Inr ts \<Longrightarrow> sum_list ts = token_sum encode ms"
  by (induction ms arbitrary: ts) (auto simp: token_sum_def rbind_eq_Inr)


subsection \<open>Lemmas: normalisation\<close>

lemma truncate_nonblank:
  assumes "0 < n" "n < int (length s)" shows "strip (truncate_text s n) \<noteq> []"
proof -
  have "CHR ''t'' \<in> set (truncate_text s n)" using assms by (simp add: truncate_text_def)
  then show ?thesis unfolding strip_nonempty_iff by (intro bexI) (auto simp: py_space_def cc_def)
qed

lemma truncate_again: "truncate_text (truncate_text s n) n = truncate_text s n"
  by (auto simp: truncate_text_def min_def)

lemma limit_again: "limit_text n (limit_text n v) = limit_text n v"
  by (simp add: limit_text_def truncate_again split: pyval.splits)

text \<open>Text that is not blank, and a value that is no text, stays what it is.\<close>

definition visible :: "pyval \<Rightarrow> bool" where
  "visible v \<longleftrightarrow> (\<forall>name. ensure_nonempty_tool_result name v = v)"

lemma visible_str: "strip s \<noteq> [] \<Longrightarrow> visible (PStr s)"
  by (simp add: visible_def ensure_nonempty_tool_result_def)

lemma marker_nonblank: "strip (empty_tool_result_message name) \<noteq> []"
  unfolding strip_nonempty_iff empty_tool_result_message_def
  by (intro bexI[of _ "CHR ''(''"]) (auto simp: py_space_def cc_def)

lemma ensured_visible: "visible (ensure_nonempty_tool_result name v)"
  using marker_nonblank
  by (auto simp: visible_def ensure_nonempty_tool_result_def Let_def split: pyval.splits option.splits)

lemma reference_nonblank: "strip (render_tool_result_reference p n t b) \<noteq> []"
  unfolding strip_nonempty_iff render_tool_result_reference_def
  by (intro bexI[of _ "CHR ''[''"]) (auto simp: py_space_def cc_def)

lemma persist_visible: "maybe_persist_tool_result env i v st = (Inr r, st') \<Longrightarrow> visible v \<Longrightarrow> visible r"
  using visible_str[OF reference_nonblank]
  by (auto simp: maybe_persist_tool_result_def persist_payload_def Let_def split: option.splits if_splits prod.splits sum.splits)

lemma limit_visible: "visible v \<Longrightarrow> visible (limit_text n v)"
proof (cases "\<exists>s. v = PStr s \<and> 0 < n \<and> n < int (length s)")
  case True
  then show ?thesis using truncate_nonblank visible_str by (auto simp: limit_text_def)
next
  case False
  moreover assume "visible v"
  ultimately show ?thesis by (auto simp: limit_text_def truncate_text_def split: pyval.splits)
qed

lemma normalized_visible: "normalize_tool_result env i name v st = (r, st') \<Longrightarrow> visible r"
  using ensured_visible[of name v]
  by (auto simp: normalize_tool_result_def Let_def split: prod.splits sum.splits intro!: limit_visible dest: persist_visible)

lemma limit_length: "limit_text n v = PStr s \<Longrightarrow> 0 < n \<Longrightarrow> int (length s) \<le> n + 16"
  by (cases v) (auto simp: limit_text_def truncate_text_def split: if_splits)

lemma limit_short: "limit_text n v = PStr s \<Longrightarrow> int (length s) \<le> n \<Longrightarrow> v = PStr s"
  by (auto simp: limit_text_def truncate_text_def split: pyval.splits if_splits)

lemma visible_ensured: "visible v \<Longrightarrow> ensure_nonempty_tool_result name v = v"
  by (simp add: visible_def)

lemma unpersisted_is_short:
  "pv_results_dir env = None \<or> (\<forall>s. v = PStr s \<longrightarrow> int (length s) \<le> pv_max_chars env)
     \<Longrightarrow> (\<forall>bs. v \<noteq> PList bs) \<Longrightarrow> maybe_persist_tool_result env i v st = (Inr v, st)"
  by (auto simp: maybe_persist_tool_result_def persistable_def split: option.splits pyval.splits)

text \<open>A normalised result is visible, and a text is at most sixteen characters longer than the
  limit; normalising it again changes neither the result nor the files, provided that results
  are not moved to files or the text fits the limit.\<close>

theorem normalized_result_is_stable:
  assumes run: "normalize_tool_result env i name (PStr text0) st = (r, st1)"
    and limit: "0 < pv_max_chars env"
    and fits: "pv_results_dir env = None \<or> (\<forall>s. r = PStr s \<longrightarrow> int (length s) \<le> pv_max_chars env)"
  shows "(\<exists>s. r = PStr s \<and> strip s \<noteq> [] \<and> int (length s) \<le> pv_max_chars env + 16)
    \<and> normalize_tool_result env i name r st1 = (r, st1)"
proof -
  obtain v where v: "r = limit_text (pv_max_chars env) v" and "\<exists>s. v = PStr s"
    using run by (auto simp: normalize_tool_result_def ensure_nonempty_tool_result_def maybe_persist_tool_result_def
        persist_payload_def persistable_def Let_def split: option.splits prod.splits sum.splits if_splits)
  then have "\<exists>s. r = PStr s" by (auto simp: limit_text_def)
  then obtain s where s: "r = PStr s" by blast
  have seen: "ensure_nonempty_tool_result name r = r"
    using visible_ensured normalized_visible[OF run] by blast
  have lim: "limit_text (pv_max_chars env) r = r" by (simp add: v limit_again)
  have "strip s \<noteq> []"
    using seen marker_nonblank by (fastforce simp: s ensure_nonempty_tool_result_def split: if_splits)
  moreover have "int (length s) \<le> pv_max_chars env + 16"
    using limit_length[of "pv_max_chars env" v s] v s limit by simp
  moreover have "maybe_persist_tool_result env i r st1 = (Inr r, st1)"
    using unpersisted_is_short[of env r i st1] fits s by auto
  then have "normalize_tool_result env i name r st1 = (r, st1)"
    using lim by (simp add: normalize_tool_result_def seen)
  ultimately show ?thesis using s by simp
qed

theorem normalized_result_is_stable_witness:
  "let env = \<lparr>pv_results_dir = Some ''/run'', pv_session_key = None, pv_max_chars = 2000, pv_now = 0, pv_mtime = (\<lambda>_. 0),
        pv_dir_error = None, pv_write_error = (\<lambda>_ _. None), pv_dump_indent = json_dump\<rparr>;
      st = \<lparr>rf_buckets = [], rf_files = []\<rparr>;
      r = fst (normalize_tool_result env ''call_1'' ''exec'' (PStr (replicate 4 CHR ''x'')) st);
      st1 = snd (normalize_tool_result env ''call_1'' ''exec'' (PStr (replicate 4 CHR ''x'')) st)
   in (\<exists>s. r = PStr s \<and> strip s \<noteq> [] \<and> int (length s) \<le> 2000 + 16) \<and> normalize_tool_result env ''call_1'' ''exec'' r st1 = (r, st1)"
  unfolding Let_def
  using normalized_result_is_stable[of "\<lparr>pv_results_dir = Some ''/run'', pv_session_key = None, pv_max_chars = 2000, pv_now = 0,
        pv_mtime = (\<lambda>_. 0), pv_dir_error = None, pv_write_error = (\<lambda>_ _. None), pv_dump_indent = json_dump\<rparr>"
        "''call_1''" "''exec''" "replicate 4 CHR ''x''" "\<lparr>rf_buckets = [], rf_files = []\<rparr>", OF prod.collapse[symmetric]]
  by (simp add: normalize_tool_result_def ensure_nonempty_tool_result_def maybe_persist_tool_result_def persistable_def
      limit_text_def strip_def lstrip_def rstrip_def py_space_def cc_def numeral_eq_Suc Let_def)

definition example_context :: context_env where
  "example_context =
     \<lparr>ce_window = Some 2000, ce_block_limit = Some 150, ce_max_tokens = None, ce_encode = (\<lambda>s. Inr (length s)),
      ce_counter = (\<lambda>ms. Some 1000), ce_definitions = []\<rparr>"

definition example_long_history :: "pydict list" where
  "example_long_history =
     [[(''role'', PStr ''system''), (''content'', PStr ''s'')],
      [(''role'', PStr ''user''), (''content'', PStr (replicate 200 CHR ''q''))],
      [(''role'', PStr ''assistant''), (''content'', PStr ''a'')],
      [(''role'', PStr ''user''), (''content'', PStr ''b'')]]"


text \<open>The fallback of the cut may be empty: when the last four messages are results of one
  assistant message with at least four calls, none of them starts legally, and the model is given
  the system messages alone.\<close>

lemma cut_can_leave_only_system_messages:
  "snip_history example_context
     ([(''role'', PStr ''system''), (''content'', PStr ''s'')]
      # [(''role'', PStr ''user''), (''content'', PStr ''q'')]
      # [(''role'', PStr ''assistant''), (''content'', PStr []), (''tool_calls'', PList (map (\<lambda>i. PDict [(''id'', PStr i)]) [''a'', ''b'', ''c'', ''d'']))]
      # map (\<lambda>i. [(''role'', PStr ''tool''), (''tool_call_id'', PStr i), (''content'', PStr (replicate 130 CHR ''x''))]) [''a'', ''b'', ''c'', ''d''])
   = Inr [[(''role'', PStr ''system''), (''content'', PStr ''s'')]]"
  by code_simp

end
