(* ===== verification/AgentRunner.thy ===== *)
theory AgentRunner
  imports AgentContext StateErr
begin

text \<open>
  The loop of the agent (\<open>src/agents/openclaw/_runner.py\<close>): a request to the model, the tools it
  asks for, the retries of malformed calls and empty answers, and the end of the run. The model,
  the tools, the hooks and the checkpoint callback act on a world and may raise. The tools of a
  batch are read-only, so the model runs them in the order of the batch; an exception that leaves
  one of them ends the run. Cancellation is not modelled.
\<close>

subsection \<open>Malformed calls\<close>

fun line_suffixes :: "string \<Rightarrow> string list" where
  "line_suffixes [] = []"
| "line_suffixes (c # s) = (if c = CHR 0x0A then s # line_suffixes s else line_suffixes s)"

text \<open>\<open>^\s*<function=[^>\n]+>\s*$\<close> at the beginning of a line, for a tag \<open><function=\<close>.\<close>

definition tag_line :: "string \<Rightarrow> string \<Rightarrow> bool" where
  "tag_line tag s =
     (let r = dropWhile py_space s; b = drop (length tag) r;
          name = takeWhile (\<lambda>c. c \<noteq> CHR ''>'' \<and> c \<noteq> CHR 0x0A) b
      in starts_with tag (lower r) \<and> name \<noteq> []
         \<and> (case drop (length name) b of
              c # t \<Rightarrow> c = CHR ''>'' \<and> (case dropWhile (\<lambda>d. py_space d \<and> d \<noteq> CHR 0x0A) t of [] \<Rightarrow> True | d # _ \<Rightarrow> d = CHR 0x0A)
            | [] \<Rightarrow> False))"

definition looks_like_malformed_tool_call :: "string option \<Rightarrow> bool" where
  "looks_like_malformed_tool_call content =
     (case content of
        None \<Rightarrow> False
      | Some s \<Rightarrow> list_ex (\<lambda>l. tag_line ''<function='' l \<or> tag_line ''<parameter='' l) (s # line_suffixes s))"

definition malformed_tool_call_feedback :: "string list \<Rightarrow> string" where
  "malformed_tool_call_feedback names =
     (let nl = [CHR 0x0A] in
      ''Your previous response looked like an attempted tool call, but it was ''
      @ ''not valid and no tool was executed. Do not treat that as a final ''
      @ ''answer. Re-emit the intended action as a valid tool call using one of ''
      @ ''the available tools: '' @ (if join '', '' names = [] then ''(no tools available)'' else join '', '' names) @ ''.'' @ nl @ nl
      @ ''If you are emitting Qwen XML tool-call text, wrap it exactly like this:'' @ nl
      @ ''<tool_call>'' @ nl @ ''<function=tool_name>'' @ nl @ ''<parameter=arg_name>'' @ nl @ ''value'' @ nl
      @ ''</parameter>'' @ nl @ ''</function>'' @ nl @ ''</tool_call>'' @ nl
      @ ''Do not omit the <tool_call> wrapper.'')"

subsection \<open>Repeated lookups\<close>

definition external_lookup_signature :: "string \<Rightarrow> pydict \<Rightarrow> string option" where
  "external_lookup_signature tool_name args =
     (let url = strip (py_str (por (pget args ''url'') (PStr [])));
          query = strip (py_str (por (por (pget args ''query'') (pget args ''search_term'')) (PStr [])))
      in if tool_name = ''web_fetch'' \<and> url \<noteq> [] then Some (''web_fetch:'' @ lower url)
         else if tool_name = ''web_search'' \<and> query \<noteq> [] then Some (''web_search:'' @ lower query)
         else None)"

definition max_repeat_external_lookups :: nat where
  "max_repeat_external_lookups = 2"

definition lookup_blocked_message :: string where
  "lookup_blocked_message = ''Error: repeated external lookup blocked. ''
     @ ''Use the results you already have to answer, or try a meaningfully different source.''"

definition repeated_external_lookup_error ::
    "string \<Rightarrow> pydict \<Rightarrow> (string \<times> nat) list \<Rightarrow> string option \<times> (string \<times> nat) list" where
  "repeated_external_lookup_error tool_name args seen_counts =
     (case external_lookup_signature tool_name args of
        None \<Rightarrow> (None, seen_counts)
      | Some sig \<Rightarrow>
          let count = (case dget seen_counts sig of Some n \<Rightarrow> n | None \<Rightarrow> 0) + 1 in
          (if count \<le> max_repeat_external_lookups then None else Some lookup_blocked_message, dput sig count seen_counts))"

subsection \<open>The specification and the state of a run\<close>

record hook_context =
  hc_iteration :: nat
  hc_messages :: "pydict list"
  hc_response :: "llm_response option"
  hc_usage :: "(string \<times> int) list"
  hc_tool_calls :: "tool_call_request list"
  hc_tool_events :: "pydict list"
  hc_tool_timelines :: "(string \<times> pydict) list"
  hc_tool_structured :: "(string \<times> pydict) list"
  hc_final_content :: "string option"
  hc_stop_reason :: "string option"
  hc_error :: "string option"
  hc_malformed_retry_count :: nat

datatype hook_event =
    Before_iteration
  | After_llm_response
  | Stream_end bool
  | Before_execute_tools
  | After_iteration

record 'w run_spec =
  sp_initial_messages :: "pydict list"
  sp_tools :: "'w registry"
  sp_model :: string
  sp_max_iterations :: nat
  sp_error_message :: "string option"
  sp_max_iterations_message :: "(nat \<Rightarrow> string) option"
  sp_concurrent_tools :: bool
  sp_fail_on_tool_error :: bool
  sp_malformed_retry_budget :: int
  sp_persist :: persist_env
  sp_context :: context_env
  sp_preserve_message_ids :: bool
  sp_wants_streaming :: bool
  sp_request :: "pydict list \<Rightarrow> bool \<Rightarrow> 'w \<Rightarrow> llm_response res \<times> 'w"
  sp_hook :: "hook_event \<Rightarrow> hook_context \<Rightarrow> 'w \<Rightarrow> unit res \<times> 'w"
  sp_finalize :: "string option \<Rightarrow> string option"
  sp_checkpoint :: "(pydict \<Rightarrow> 'w \<Rightarrow> unit res \<times> 'w) option"
  sp_structured_result :: "string \<Rightarrow> 'w \<Rightarrow> pyval"
  sp_timeline :: "'w \<Rightarrow> pydict option"
  sp_hash :: "pydict list \<Rightarrow> int"

record 'w run_state =
  rn_world :: 'w
  rn_messages :: "pydict list"
  rn_next_id :: nat
  rn_usage :: "(string \<times> int) list"
  rn_tools_used :: "string list"
  rn_events :: "pydict list"
  rn_lookups :: "(string \<times> nat) list"
  rn_malformed_count :: nat
  rn_malformed_hash :: "int option"
  rn_store :: result_store

definition on_world :: "('w \<Rightarrow> 'a res \<times> 'w) \<Rightarrow> ('w run_state, 'a) sm" where
  "on_world m = szoom rn_world (\<lambda>w s. s\<lparr>rn_world := w\<rparr>) m"

definition add_messages :: "pydict list \<Rightarrow> ('w run_state, unit) sm" where
  "add_messages ms = smod (\<lambda>s. s\<lparr>rn_messages := rn_messages s @ ms\<rparr>)"

subsection \<open>Tools\<close>

record tool_outcome =
  to_result :: pyval
  to_event :: pydict
  to_error :: "err option"
  to_call_id :: string
  to_timeline :: "pydict option"
  to_structured :: "pydict option"

definition tool_event :: "string \<Rightarrow> string \<Rightarrow> string \<Rightarrow> pydict" where
  "tool_event name status detail = [(''name'', PStr name), (''status'', PStr status), (''detail'', PStr detail)]"

definition structured_value :: "pyval \<Rightarrow> pydict option res" where
  "structured_value v =
     (case v of PNone \<Rightarrow> Inr None | PDict d \<Rightarrow> Inr (Some d) | _ \<Rightarrow> Inl (ValueError ''tool structured_result must be a dict, got ''))"

definition structured_tool_failed :: "pydict \<Rightarrow> bool res" where
  "structured_tool_failed d =
     (case pget d ''timed_out'' of PBool b \<Rightarrow> Inr b | _ \<Rightarrow> Inl (ValueError ''structured timed_out must be boolean, got ''))"

definition read_structured :: "'w run_spec \<Rightarrow> string \<Rightarrow> ('w run_state, pydict option) sm" where
  "read_structured spec name = sbind (sgets (\<lambda>s. sp_structured_result spec name (rn_world s))) (\<lambda>v. slift (structured_value v))"

definition read_timeline :: "'w run_spec \<Rightarrow> string \<Rightarrow> ('w run_state, pydict option) sm" where
  "read_timeline spec name = sgets (\<lambda>s. if name = ''exec'' then sp_timeline spec (rn_world s) else None)"

fun after_colon :: "string \<Rightarrow> string option" where
  "after_colon [] = None"
| "after_colon (c # s) = (if starts_with '': '' (c # s) then Some (drop 1 s) else after_colon s)"

definition one_line :: "string \<Rightarrow> string" where
  "one_line s = strip (map (\<lambda>c. if c = CHR 0x0A then CHR '' '' else c) s)"

definition ok_detail :: "pyval \<Rightarrow> string" where
  "ok_detail result =
     (let d = one_line (if result = PNone then [] else py_str result) in
      if d = [] then ''(empty)'' else if 120 < length d then take 120 d @ ''...'' else d)"

definition err_kind :: "err \<Rightarrow> string" where
  "err_kind e = (case e of
     ValueError _ \<Rightarrow> ''ValueError'' | TypeError _ \<Rightarrow> ''TypeError'' | RuntimeError _ \<Rightarrow> ''RuntimeError''
   | SimulateError _ \<Rightarrow> ''SimulateError'' | KeyError _ \<Rightarrow> ''KeyError'' | IndexError _ \<Rightarrow> ''IndexError'' | OSError _ \<Rightarrow> ''OSError''
   | PermissionError _ \<Rightarrow> ''PermissionError'' | AttributeError _ \<Rightarrow> ''AttributeError'' | AssertionError _ \<Rightarrow> ''AssertionError''
   | SubprocessError m \<Rightarrow> m | SystemExit _ \<Rightarrow> ''SystemExit'')"

definition failed_outcome :: "'w run_spec \<Rightarrow> string \<Rightarrow> string \<Rightarrow> string \<Rightarrow> string \<Rightarrow> tool_outcome" where
  "failed_outcome spec call_id name text_of detail =
     \<lparr>to_result = PStr (text_of @ retry_hint), to_event = tool_event name ''error'' detail,
      to_error = (if sp_fail_on_tool_error spec then Some (RuntimeError text_of) else None),
      to_call_id = call_id, to_timeline = None, to_structured = None\<rparr>"

text \<open>The body of the \<open>try\<close>: the result of the tool and its structured result.\<close>

definition call_tool ::
    "'w run_spec \<Rightarrow> string \<Rightarrow> 'w tool option \<Rightarrow> pyval \<Rightarrow> ('w run_state, pyval \<times> pydict option) sm" where
  "call_tool spec name t params =
     (case t of
        Some tool \<Rightarrow>
          (case params of
             PDict d \<Rightarrow> sbind (on_world (tl_run tool d)) (\<lambda>r. sbind (read_structured spec name) (\<lambda>st. sret (r, st)))
           | _ \<Rightarrow> sraise (TypeError ''argument after ** must be a mapping''))
      | None \<Rightarrow> sbind (on_world (registry_execute (sp_tools spec) name params)) (\<lambda>r. sret (r, None)))"

definition raised_outcome ::
    "'w run_spec \<Rightarrow> tool_call_request \<Rightarrow> 'w tool option \<Rightarrow> err \<Rightarrow> ('w run_state, tool_outcome) sm" where
  "raised_outcome spec tc t e =
     sbind (read_timeline spec (tc_name tc)) (\<lambda>timeline.
     sbind (if t \<noteq> None then read_structured spec (tc_name tc) else sret None) (\<lambda>structured.
       sret \<lparr>to_result = PStr (''Error: '' @ err_kind e @ '': '' @ error_message e),
             to_event = tool_event (tc_name tc) ''error'' (error_message e),
             to_error = (if sp_fail_on_tool_error spec then Some e else None),
             to_call_id = tc_id tc, to_timeline = timeline, to_structured = structured\<rparr>))"

definition result_failed :: "pyval \<Rightarrow> pydict option \<Rightarrow> bool res" where
  "result_failed r structured =
     (case structured of
        Some d \<Rightarrow> structured_tool_failed d
      | None \<Rightarrow> Inr (case r of PStr s \<Rightarrow> starts_with ''Error'' s | _ \<Rightarrow> False))"

definition returned_outcome ::
    "'w run_spec \<Rightarrow> tool_call_request \<Rightarrow> pyval \<Rightarrow> pydict option \<Rightarrow> pydict option \<Rightarrow> tool_outcome res" where
  "returned_outcome spec tc r structured timeline =
     rbind (result_failed r structured) (\<lambda>tool_failed.
       if tool_failed then
         (case r of
            PStr s \<Rightarrow> Inr ((failed_outcome spec (tc_id tc) (tc_name tc) s (take 120 (one_line s)))
                             \<lparr>to_timeline := timeline, to_structured := structured\<rparr>)
          | _ \<Rightarrow> Inl (AttributeError ''replace''))
       else Inr \<lparr>to_result = r, to_event = tool_event (tc_name tc) ''ok'' (ok_detail r), to_error = None,
                  to_call_id = tc_id tc, to_timeline = timeline, to_structured = structured\<rparr>)"

definition run_prepared ::
    "'w run_spec \<Rightarrow> tool_call_request \<Rightarrow> 'w tool option \<Rightarrow> pyval \<Rightarrow> ('w run_state, tool_outcome) sm" where
  "run_prepared spec tc t params =
     sbind (sattempt (call_tool spec (tc_name tc) t params)) (\<lambda>r.
       case r of
         Inl e \<Rightarrow> raised_outcome spec tc t e
       | Inr (result, structured) \<Rightarrow>
           sbind (read_timeline spec (tc_name tc)) (\<lambda>timeline. slift (returned_outcome spec tc result structured timeline)))"

definition count_lookup :: "tool_call_request \<Rightarrow> ('w run_state, string option) sm" where
  "count_lookup tc = (\<lambda>s.
     case repeated_external_lookup_error (tc_name tc) (tc_arguments tc) (rn_lookups s) of
       (error, counts) \<Rightarrow> (Inr error, s\<lparr>rn_lookups := counts\<rparr>))"

definition agent_run_tool :: "'w run_spec \<Rightarrow> tool_call_request \<Rightarrow> ('w run_state, tool_outcome) sm" where
  "agent_run_tool spec tc =
     sbind (count_lookup tc) (\<lambda>lookup_error.
       case lookup_error of
         Some m \<Rightarrow> sret (failed_outcome spec (tc_id tc) (tc_name tc) m ''repeated external lookup blocked'')
       | None \<Rightarrow>
           sbind (slift (prepare_call (sp_tools spec) (tc_name tc) (PDict (tc_arguments tc)))) (\<lambda>(t, params, prep_error).
             case prep_error of
               Some m \<Rightarrow> sret (failed_outcome spec (tc_id tc) (tc_name tc) m
                   (take 120 (case after_colon m of Some d \<Rightarrow> d | None \<Rightarrow> m)))
             | None \<Rightarrow> run_prepared spec tc t params))"

text \<open>Neighbouring calls of tools that may run beside others share a batch.\<close>

definition can_batch :: "'w run_spec \<Rightarrow> tool_call_request \<Rightarrow> bool" where
  "can_batch spec tc = (case get_tool (sp_tools spec) (tc_name tc) of Some t \<Rightarrow> concurrency_safe t | None \<Rightarrow> False)"

fun batches_from ::
    "'w run_spec \<Rightarrow> tool_call_request list \<Rightarrow> tool_call_request list \<Rightarrow> tool_call_request list list" where
  "batches_from spec current [] = (if current \<noteq> [] then [current] else [])"
| "batches_from spec current (tc # tcs) =
     (if can_batch spec tc then batches_from spec (current @ [tc]) tcs
      else (if current \<noteq> [] then [current] else []) @ [tc] # batches_from spec [] tcs)"

definition partition_tool_batches :: "'w run_spec \<Rightarrow> tool_call_request list \<Rightarrow> tool_call_request list list" where
  "partition_tool_batches spec tool_calls =
     (if \<not> sp_concurrent_tools spec then map (\<lambda>tc. [tc]) tool_calls else batches_from spec [] tool_calls)"

record tools_outcome =
  tt_results :: "pyval list"
  tt_events :: "pydict list"
  tt_fatal :: "err option"
  tt_timelines :: "(string \<times> pydict) list"
  tt_structured :: "(string \<times> pydict) list"

definition collect_outcome :: "tool_outcome \<Rightarrow> tools_outcome \<Rightarrow> tools_outcome" where
  "collect_outcome r t =
     t\<lparr>tt_results := tt_results t @ [to_result r], tt_events := tt_events t @ [to_event r],
       tt_timelines := (case to_timeline r of Some d \<Rightarrow> dput (to_call_id r) d (tt_timelines t) | None \<Rightarrow> tt_timelines t),
       tt_structured := (case to_structured r of Some d \<Rightarrow> dput (to_call_id r) d (tt_structured t) | None \<Rightarrow> tt_structured t),
       tt_fatal := (if tt_fatal t = None then to_error r else tt_fatal t)\<rparr>"

definition execute_tools :: "'w run_spec \<Rightarrow> tool_call_request list \<Rightarrow> ('w run_state, tools_outcome) sm" where
  "execute_tools spec tool_calls =
     sbind (smap (smap (agent_run_tool spec)) (partition_tool_batches spec tool_calls)) (\<lambda>outcomes.
       sret (fold collect_outcome (concat outcomes)
         \<lparr>tt_results = [], tt_events = [], tt_fatal = None, tt_timelines = [], tt_structured = []\<rparr>))"

subsection \<open>One iteration\<close>

definition usage_int :: "pyval \<Rightarrow> int option" where
  "usage_int v =
     (if \<not> truthy v then Some 0
      else (case v of
              PBool b \<Rightarrow> Some 1
            | PInt i \<Rightarrow> Some i
            | PFloat q \<Rightarrow> Some (if 0 \<le> q then \<lfloor>q\<rfloor> else \<lceil>q\<rceil>)
            | PStr s \<Rightarrow> parse_int s
            | _ \<Rightarrow> None))"

definition usage_dict :: "pydict \<Rightarrow> (string \<times> int) list" where
  "usage_dict usage = List.map_filter (\<lambda>(k, v). map_option (Pair k) (usage_int v)) usage"

definition add_usage :: "(string \<times> int) list \<Rightarrow> (string \<times> int) list \<Rightarrow> (string \<times> int) list" where
  "add_usage target addition =
     fold (\<lambda>(k, v) t. dput k ((case dget t k of Some n \<Rightarrow> n | None \<Rightarrow> 0) + v) t) addition target"

text \<open>The governance of the messages: ids, normalised tool results and the cut history.\<close>

definition govern :: "'w run_spec \<Rightarrow> ('w run_state, pydict list) sm" where
  "govern spec = (\<lambda>s.
     case ensure_message_ids (rn_next_id s) (rn_messages s) of
       (ms1, n) \<Rightarrow>
         (case apply_tool_result_budget (sp_persist spec) ms1 (rn_store s) of
            (ms2, store) \<Rightarrow>
              (Inr (case snip_history (sp_context spec) ms2 of Inr ms3 \<Rightarrow> ms3 | Inl _ \<Rightarrow> ms2),
               s\<lparr>rn_messages := ms2, rn_next_id := n, rn_store := store\<rparr>)))"

definition new_context :: "nat \<Rightarrow> pydict list \<Rightarrow> hook_context" where
  "new_context i ms =
     \<lparr>hc_iteration = i, hc_messages = strip_internal_message_ids ms, hc_response = None, hc_usage = [], hc_tool_calls = [],
      hc_tool_events = [], hc_tool_timelines = [], hc_tool_structured = [], hc_final_content = None, hc_stop_reason = None,
      hc_error = None, hc_malformed_retry_count = 0\<rparr>"

text \<open>A hook sees the messages of the moment.\<close>

definition notify :: "'w run_spec \<Rightarrow> hook_event \<Rightarrow> hook_context \<Rightarrow> ('w run_state, unit) sm" where
  "notify spec event ctx =
     sbind (sgets rn_messages) (\<lambda>ms. on_world (sp_hook spec event (ctx\<lparr>hc_messages := strip_internal_message_ids ms\<rparr>)))"

definition notify_stream_end :: "'w run_spec \<Rightarrow> bool \<Rightarrow> hook_context \<Rightarrow> ('w run_state, unit) sm" where
  "notify_stream_end spec resuming ctx = swhen (sp_wants_streaming spec) (on_world (sp_hook spec (Stream_end resuming) ctx))"

definition request_messages :: "'w run_spec \<Rightarrow> pydict list \<Rightarrow> pydict list" where
  "request_messages spec ms = (if sp_preserve_message_ids spec then ms else strip_internal_message_ids ms)"

definition ask_model :: "'w run_spec \<Rightarrow> bool \<Rightarrow> pydict list \<Rightarrow> ('w run_state, llm_response) sm" where
  "ask_model spec with_tools ms = on_world (sp_request spec (request_messages spec ms) with_tools)"

definition count_usage :: "(string \<times> int) list \<Rightarrow> ('w run_state, unit) sm" where
  "count_usage u = smod (\<lambda>s. s\<lparr>rn_usage := add_usage (rn_usage s) u\<rparr>)"

definition strip_checkpoint_payload :: "pydict \<Rightarrow> pydict" where
  "strip_checkpoint_payload payload =
     (let p1 = (case dget payload ''assistant_message'' of
                  Some (PDict m) \<Rightarrow> dput ''assistant_message'' (PDict (strip_internal_message_id m)) payload | _ \<Rightarrow> payload)
      in case dget p1 ''completed_tool_results'' of
           Some (PList xs) \<Rightarrow> dput ''completed_tool_results''
             (PList (map (\<lambda>x. case x of PDict m \<Rightarrow> PDict (strip_internal_message_id m) | _ \<Rightarrow> x) xs)) p1
         | _ \<Rightarrow> p1)"

definition emit_checkpoint ::
    "'w run_spec \<Rightarrow> string \<Rightarrow> nat \<Rightarrow> pydict \<Rightarrow> pydict list \<Rightarrow> pydict list \<Rightarrow> ('w run_state, unit) sm" where
  "emit_checkpoint spec phase i assistant completed pending =
     (case sp_checkpoint spec of
        None \<Rightarrow> sret ()
      | Some callback \<Rightarrow> on_world (callback (strip_checkpoint_payload
          [(''phase'', PStr phase), (''iteration'', PInt (int i)), (''model'', PStr (sp_model spec)),
           (''assistant_message'', PDict assistant), (''completed_tool_results'', PList (map PDict completed)),
           (''pending_tool_calls'', PList (map PDict pending))])))"

text \<open>How a run ends: the stop reason, the final content and the error.\<close>

record run_end =
  re_stop_reason :: string
  re_final_content :: "string option"
  re_error :: "string option"

definition append_final :: "string \<Rightarrow> ('w run_state, unit) sm" where
  "append_final content = smod (\<lambda>s. s\<lparr>rn_messages := append_final_message (Some content) (rn_messages s)\<rparr>)"

definition end_with_error :: "'w run_spec \<Rightarrow> hook_context \<Rightarrow> string \<Rightarrow> string \<Rightarrow> ('w run_state, run_end option) sm" where
  "end_with_error spec ctx reason content =
     sbind (append_final content) (\<lambda>_.
     sbind (notify spec After_iteration (ctx\<lparr>hc_final_content := Some content, hc_error := Some content, hc_stop_reason := Some reason\<rparr>)) (\<lambda>_.
       sret (Some \<lparr>re_stop_reason = reason, re_final_content = Some content, re_error = Some content\<rparr>)))"

text \<open>The tools of a response: the assistant message, the calls, and a result for each.\<close>

definition tool_message :: "tool_call_request \<Rightarrow> pyval \<Rightarrow> pydict" where
  "tool_message tc content =
     [(''role'', PStr ''tool''), (''tool_call_id'', PStr (tc_id tc)), (''name'', PStr (tc_name tc)), (''content'', content)]"

definition append_tool_result ::
    "'w run_spec \<Rightarrow> tool_call_request \<times> pyval \<Rightarrow> ('w run_state, pydict) sm" where
  "append_tool_result spec p = (\<lambda>s.
     case p of (tc, result) \<Rightarrow>
       (case normalize_tool_result (sp_persist spec) (tc_id tc) (tc_name tc) result (rn_store s) of
          (content, store) \<Rightarrow>
            (Inr (tool_message tc content),
             s\<lparr>rn_messages := rn_messages s @ [tool_message tc content], rn_store := store\<rparr>)))"

definition response_message :: "llm_response \<Rightarrow> pydict list \<Rightarrow> pydict" where
  "response_message r tool_calls =
     build_assistant_message (Some (case lr_content r of Some c \<Rightarrow> c | None \<Rightarrow> [])) tool_calls (lr_reasoning r) (lr_thinking r)"

definition openai_calls :: "llm_response \<Rightarrow> pydict list" where
  "openai_calls r = map (to_openai_tool_call json_dump) (lr_tool_calls r)"

definition run_calls :: "'w run_spec \<Rightarrow> llm_response \<Rightarrow> ('w run_state, tools_outcome) sm" where
  "run_calls spec r =
     sbind (execute_tools spec (lr_tool_calls r)) (\<lambda>t.
     sbind (smod (\<lambda>s. s\<lparr>rn_events := rn_events s @ tt_events t\<rparr>)) (\<lambda>_. sret t))"

text \<open>After the tools: the end of the run on a fatal error, or the results.\<close>

definition answer_calls ::
    "'w run_spec \<Rightarrow> nat \<Rightarrow> hook_context \<Rightarrow> llm_response \<Rightarrow> tools_outcome \<Rightarrow> ('w run_state, run_end option) sm" where
  "answer_calls spec i ctx r t =
     (case tt_fatal t of
        Some e \<Rightarrow> end_with_error spec ctx ''tool_error'' (''Error: '' @ err_kind e @ '': '' @ error_message e)
      | None \<Rightarrow>
          sbind (smap (append_tool_result spec) (zip (lr_tool_calls r) (tt_results t))) (\<lambda>completed.
          sbind (emit_checkpoint spec ''tools_completed'' i (response_message r (openai_calls r)) completed []) (\<lambda>_.
          sbind (notify spec After_iteration ctx) (\<lambda>_. sret None))))"

text \<open>Before the tools: the assistant message, and what observers are told.\<close>

definition announce_calls :: "'w run_spec \<Rightarrow> nat \<Rightarrow> hook_context \<Rightarrow> llm_response \<Rightarrow> ('w run_state, unit) sm" where
  "announce_calls spec i ctx r =
     (let assistant = response_message r (openai_calls r) in
      sbind (smod (\<lambda>s. s\<lparr>rn_malformed_count := 0\<rparr>)) (\<lambda>_.
      sbind (notify_stream_end spec True ctx) (\<lambda>_.
      sbind (add_messages [assistant]) (\<lambda>_.
      sbind (smod (\<lambda>s. s\<lparr>rn_tools_used := rn_tools_used s @ map tc_name (lr_tool_calls r)\<rparr>)) (\<lambda>_.
      sbind (emit_checkpoint spec ''awaiting_tools'' i assistant [] (openai_calls r)) (\<lambda>_.
        notify spec Before_execute_tools ctx))))))"

definition tool_turn :: "'w run_spec \<Rightarrow> nat \<Rightarrow> hook_context \<Rightarrow> llm_response \<Rightarrow> ('w run_state, run_end option) sm" where
  "tool_turn spec i ctx r =
     sbind (announce_calls spec i ctx r) (\<lambda>_.
     sbind (run_calls spec r) (\<lambda>t.
       answer_calls spec i (ctx\<lparr>hc_tool_events := tt_events t, hc_tool_timelines := tt_timelines t,
                                 hc_tool_structured := tt_structured t\<rparr>) r t))"

text \<open>A malformed call is answered by a synthetic pair, until the budget for the same input is used.\<close>

definition count_malformed :: "int \<Rightarrow> ('w run_state, nat) sm" where
  "count_malformed h = (\<lambda>s.
     let n = (if rn_malformed_hash s = Some h then rn_malformed_count s + 1 else 1) in
     (Inr n, s\<lparr>rn_malformed_count := n, rn_malformed_hash := Some h\<rparr>))"

definition malformed_exhausted_message :: "int \<Rightarrow> string option \<Rightarrow> string" where
  "malformed_exhausted_message budget content =
     ''Tool-call format invalid after '' @ int_str budget @ '' retries. Last attempt began with: ''
     @ take 300 (case content of Some c \<Rightarrow> c | None \<Rightarrow> []) @ ''...''"

definition synthetic_id :: "nat \<Rightarrow> nat \<Rightarrow> string" where
  "synthetic_id i n = ''malformed_retry_'' @ nat_digits i @ ''_'' @ nat_digits n"

definition synthetic_pair :: "'w run_spec \<Rightarrow> llm_response \<Rightarrow> string \<Rightarrow> pydict list" where
  "synthetic_pair spec r call_id =
     [response_message r [[(''id'', PStr call_id), (''type'', PStr ''function''),
        (''function'', PDict [(''name'', PStr ''_invalid_tool_call''), (''arguments'', PStr ''{}'')])]],
      [(''role'', PStr ''tool''), (''tool_call_id'', PStr call_id), (''name'', PStr ''_invalid_tool_call''),
       (''content'', PStr (malformed_tool_call_feedback (tool_names (sp_tools spec))))]]"

definition retry_malformed ::
    "'w run_spec \<Rightarrow> nat \<Rightarrow> hook_context \<Rightarrow> llm_response \<Rightarrow> nat \<Rightarrow> ('w run_state, unit) sm" where
  "retry_malformed spec i ctx r n =
     sbind (notify_stream_end spec True ctx) (\<lambda>_.
     sbind (add_messages (synthetic_pair spec r (synthetic_id i n))) (\<lambda>_.
       notify spec After_iteration ctx))"

definition malformed_turn ::
    "'w run_spec \<Rightarrow> nat \<Rightarrow> hook_context \<Rightarrow> llm_response \<Rightarrow> pydict list \<Rightarrow> ('w run_state, run_end option) sm" where
  "malformed_turn spec i ctx r messages_for_model =
     sbind (count_malformed (sp_hash spec messages_for_model)) (\<lambda>n.
       let ctx1 = ctx\<lparr>hc_malformed_retry_count := n\<rparr> in
       if sp_malformed_retry_budget spec < int n
       then end_with_error spec ctx1 ''malformed_tool_call_budget_exhausted''
              (malformed_exhausted_message (sp_malformed_retry_budget spec) (lr_content r))
       else sbind (retry_malformed spec i ctx1 r n) (\<lambda>_. sret None))"

definition finalization_retry_message :: pydict where
  "finalization_retry_message =
     [(''role'', PStr ''user''),
      (''content'', PStr (''You have already finished the tool work. Do not call any more tools. ''
        @ ''Using only the conversation and tool results above, provide the final answer for the user now.''))]"

definition empty_final_response_message :: string where
  "empty_final_response_message = ''I completed the tool steps but couldn'' @ [CHR 0x27] @ ''t produce a final answer. ''
     @ ''Please try again or narrow the task.''"

definition default_error_message :: string where
  "default_error_message = ''Sorry, I encountered an error calling the AI model.''"

definition error_content :: "'w run_spec \<Rightarrow> string option \<Rightarrow> string" where
  "error_content spec clean =
     (case clean of
        Some (c # cs) \<Rightarrow> c # cs
      | _ \<Rightarrow> (case sp_error_message spec of Some (c # cs) \<Rightarrow> c # cs | _ \<Rightarrow> default_error_message))"

text \<open>An empty answer is asked for once more, without tools.\<close>

definition settle_answer ::
    "'w run_spec \<Rightarrow> hook_context \<Rightarrow> llm_response \<Rightarrow> pydict list \<Rightarrow> ('w run_state, llm_response \<times> hook_context) sm" where
  "settle_answer spec ctx r messages_for_model =
     (if lr_finish_reason r \<noteq> ''error'' \<and> is_blank_text (sp_finalize spec (lr_content r)) then
        sbind (notify_stream_end spec False ctx) (\<lambda>_.
        sbind (ask_model spec False (messages_for_model @ [finalization_retry_message])) (\<lambda>r'.
        sbind (count_usage (usage_dict (lr_usage r'))) (\<lambda>_.
          sret (r', ctx\<lparr>hc_response := Some r', hc_usage := add_usage (hc_usage ctx) (usage_dict (lr_usage r')),
                        hc_tool_calls := lr_tool_calls r'\<rparr>))))
      else sret (r, ctx))"

definition conclude_answer ::
    "'w run_spec \<Rightarrow> nat \<Rightarrow> llm_response \<Rightarrow> hook_context \<Rightarrow> string option \<Rightarrow> ('w run_state, run_end option) sm" where
  "conclude_answer spec i r ctx clean =
     (let assistant = build_assistant_message clean [] (lr_reasoning r) (lr_thinking r) in
      sbind (add_messages [assistant]) (\<lambda>_.
      sbind (emit_checkpoint spec ''final_response'' i assistant [] []) (\<lambda>_.
      sbind (notify spec After_iteration (ctx\<lparr>hc_final_content := clean, hc_stop_reason := Some ''completed''\<rparr>)) (\<lambda>_.
        sret (Some \<lparr>re_stop_reason = ''completed'', re_final_content = clean, re_error = None\<rparr>)))))"

definition conclude ::
    "'w run_spec \<Rightarrow> nat \<Rightarrow> llm_response \<Rightarrow> hook_context \<Rightarrow> ('w run_state, run_end option) sm" where
  "conclude spec i r ctx =
     (let clean = sp_finalize spec (lr_content r) in
      if lr_finish_reason r = ''error'' then end_with_error spec ctx ''error'' (error_content spec clean)
      else if is_blank_text clean then end_with_error spec ctx ''empty_final_response'' empty_final_response_message
      else conclude_answer spec i r ctx clean)"

definition answer_turn ::
    "'w run_spec \<Rightarrow> nat \<Rightarrow> hook_context \<Rightarrow> llm_response \<Rightarrow> pydict list \<Rightarrow> ('w run_state, run_end option) sm" where
  "answer_turn spec i ctx0 r0 messages_for_model =
     sbind (settle_answer spec ctx0 r0 messages_for_model) (\<lambda>(r, ctx).
     sbind (notify_stream_end spec False ctx) (\<lambda>_. conclude spec i r ctx))"

definition consult :: "'w run_spec \<Rightarrow> nat \<Rightarrow> ('w run_state, pydict list \<times> llm_response \<times> hook_context) sm" where
  "consult spec i =
     sbind (govern spec) (\<lambda>messages_for_model.
     sbind (sgets (\<lambda>s. new_context i (rn_messages s))) (\<lambda>ctx0.
     sbind (on_world (sp_hook spec Before_iteration ctx0)) (\<lambda>_.
     sbind (ask_model spec True messages_for_model) (\<lambda>r.
     sbind (count_usage (usage_dict (lr_usage r))) (\<lambda>_.
       let ctx = ctx0\<lparr>hc_response := Some r, hc_usage := usage_dict (lr_usage r), hc_tool_calls := lr_tool_calls r\<rparr> in
       sbind (notify spec After_llm_response ctx) (\<lambda>_. sret (messages_for_model, r, ctx)))))))"

definition take_turn ::
    "'w run_spec \<Rightarrow> nat \<Rightarrow> pydict list \<times> llm_response \<times> hook_context \<Rightarrow> ('w run_state, run_end option) sm" where
  "take_turn spec i p =
     (case p of (messages_for_model, r, ctx) \<Rightarrow>
        if has_tool_calls r then tool_turn spec i ctx r
        else if lr_finish_reason r \<noteq> ''error'' \<and> looks_like_malformed_tool_call (lr_content r)
        then malformed_turn spec i ctx r messages_for_model
        else answer_turn spec i ctx r messages_for_model)"

definition iteration :: "'w run_spec \<Rightarrow> nat \<Rightarrow> ('w run_state, run_end option) sm" where
  "iteration spec i = sbind (consult spec i) (take_turn spec i)"

fun iterations :: "'w run_spec \<Rightarrow> nat \<Rightarrow> nat \<Rightarrow> ('w run_state, run_end option) sm" where
  "iterations spec i 0 = sret None"
| "iterations spec i (Suc k) =
     sbind (iteration spec i) (\<lambda>e. case e of Some x \<Rightarrow> sret (Some x) | None \<Rightarrow> iterations spec (i + 1) k)"

definition max_iterations_message :: "'w run_spec \<Rightarrow> string" where
  "max_iterations_message spec =
     (case sp_max_iterations_message spec of
        Some template \<Rightarrow> template (sp_max_iterations spec)
      | None \<Rightarrow> ''I reached the maximum number of tool call iterations ('' @ nat_digits (sp_max_iterations spec) @ '') ''
          @ ''without completing the task. You can try breaking the task into smaller steps.'')"

record run_result =
  rr_final_content :: "string option"
  rr_messages :: "pydict list"
  rr_tools_used :: "string list"
  rr_usage :: "(string \<times> int) list"
  rr_stop_reason :: string
  rr_error :: "string option"
  rr_tool_events :: "pydict list"

definition finish_run :: "'w run_spec \<Rightarrow> run_end option \<Rightarrow> ('w run_state, run_end) sm" where
  "finish_run spec e =
     (case e of
        Some x \<Rightarrow> sret x
      | None \<Rightarrow>
          sbind (append_final (max_iterations_message spec)) (\<lambda>_.
            sret \<lparr>re_stop_reason = ''max_iterations'', re_final_content = Some (max_iterations_message spec), re_error = None\<rparr>))"

definition run_result_of :: "run_end \<Rightarrow> 'w run_state \<Rightarrow> run_result" where
  "run_result_of e s =
     \<lparr>rr_final_content = re_final_content e,
      rr_messages = strip_internal_message_ids (strip_synthetic_malformed_pairs (rn_messages s)),
      rr_tools_used = rn_tools_used s, rr_usage = rn_usage s, rr_stop_reason = re_stop_reason e,
      rr_error = re_error e, rr_tool_events = rn_events s\<rparr>"

definition initial_state :: "'w run_spec \<Rightarrow> result_store \<Rightarrow> 'w \<Rightarrow> 'w run_state" where
  "initial_state spec store w =
     \<lparr>rn_world = w, rn_messages = sp_initial_messages spec, rn_next_id = 0,
      rn_usage = [(''prompt_tokens'', 0), (''completion_tokens'', 0)], rn_tools_used = [], rn_events = [], rn_lookups = [],
      rn_malformed_count = 0, rn_malformed_hash = None, rn_store = store\<rparr>"

definition run_agent :: "'w run_spec \<Rightarrow> result_store \<Rightarrow> 'w \<Rightarrow> run_result res \<times> 'w run_state" where
  "run_agent spec store w =
     sbind (sbind (iterations spec 0 (sp_max_iterations spec)) (finish_run spec)) (\<lambda>e. sgets (run_result_of e))
       (initial_state spec store w)"

subsection \<open>Lemmas: batches\<close>

lemma batches_from_concat: "concat (batches_from spec current tcs) = current @ tcs"
  by (induction spec current tcs rule: batches_from.induct) auto

lemma batches_from_safe:
  "(\<forall>tc \<in> set current. can_batch spec tc) \<Longrightarrow> b \<in> set (batches_from spec current tcs) \<Longrightarrow>
     b \<noteq> [] \<and> (1 < length b \<longrightarrow> (\<forall>tc \<in> set b. can_batch spec tc))"
proof (induction tcs arbitrary: current)
  case Nil
  then show ?case by (simp split: if_splits)
next
  case (Cons tc tcs)
  show ?case
  proof (cases "can_batch spec tc")
    case True
    have "b \<in> set (batches_from spec (current @ [tc]) tcs)"
      using Cons.prems(2) True by (simp only: batches_from.simps if_True)
    moreover have "\<forall>x \<in> set (current @ [tc]). can_batch spec x" using Cons.prems(1) True by simp
    ultimately show ?thesis using Cons.IH by blast
  next
    case False
    then have "b \<in> set ((if current \<noteq> [] then [current] else []) @ [tc] # batches_from spec [] tcs)"
      using Cons.prems(2) by (simp only: batches_from.simps if_False)
    then consider "b = current" "current \<noteq> []" | "b = [tc]" | "b \<in> set (batches_from spec [] tcs)"
      by (cases "current = []") auto
    then show ?thesis
    proof cases
      case 3
      moreover have "\<forall>x \<in> set []. can_batch spec x" by simp
      ultimately show ?thesis using Cons.IH by blast
    qed (use Cons.prems(1) in simp_all)
  qed
qed

lemma can_batchD: "can_batch spec tc \<Longrightarrow> \<exists>t. get_tool (sp_tools spec) (tc_name tc) = Some t \<and> tl_read_only t \<and> \<not> tl_exclusive t"
  by (auto simp: can_batch_def concurrency_safe_def split: option.splits)

lemma partition_safe:
  assumes "b \<in> set (partition_tool_batches spec tool_calls)"
  shows "b \<noteq> [] \<and> (1 < length b \<longrightarrow> sp_concurrent_tools spec \<and> (\<forall>tc \<in> set b. can_batch spec tc))"
proof (cases "sp_concurrent_tools spec")
  case True
  then have "b \<in> set (batches_from spec [] tool_calls)" using assms by (simp add: partition_tool_batches_def)
  then show ?thesis using batches_from_safe[of "[]" spec b tool_calls] True by (simp del: One_nat_def)
next
  case False
  then show ?thesis using assms by (auto simp: partition_tool_batches_def)
qed

text \<open>The batches are the calls in their order, none is empty, and calls share a batch only
  when tools may run beside each other and every tool of the batch only reads.\<close>

theorem only_safe_tools_share_a_batch:
  "concat (partition_tool_batches spec tool_calls) = tool_calls
   \<and> (\<forall>b \<in> set (partition_tool_batches spec tool_calls). b \<noteq> [] \<and>
        (1 < length b \<longrightarrow> sp_concurrent_tools spec \<and>
           (\<forall>tc \<in> set b. \<exists>t. get_tool (sp_tools spec) (tc_name tc) = Some t \<and> tl_read_only t \<and> \<not> tl_exclusive t)))"
proof (intro conjI ballI)
  show "concat (partition_tool_batches spec tool_calls) = tool_calls"
    by (simp add: partition_tool_batches_def batches_from_concat)
next
  fix b assume b: "b \<in> set (partition_tool_batches spec tool_calls)"
  then show "b \<noteq> []" using partition_safe by blast
  show "1 < length b \<longrightarrow> sp_concurrent_tools spec \<and>
           (\<forall>tc \<in> set b. \<exists>t. get_tool (sp_tools spec) (tc_name tc) = Some t \<and> tl_read_only t \<and> \<not> tl_exclusive t)"
    using partition_safe[OF b] can_batchD by blast
qed

subsection \<open>Lemmas: what leaves the messages alone\<close>

lemma preserves_on_world [keeps]: "preserves rn_messages (on_world m)"
  unfolding on_world_def by (rule keeps) simp

lemma keeps_messages_world [keeps]:
  "preserves rn_messages (notify spec ev ctx)"
  "preserves rn_messages (notify_stream_end spec b ctx)"
  "preserves rn_messages (ask_model spec t ms)"
  "preserves rn_messages (emit_checkpoint spec ph i a c p)"
  by (auto simp: notify_def notify_stream_end_def ask_model_def emit_checkpoint_def intro!: keeps)

lemma keeps_messages_count [keeps]:
  "preserves rn_messages (count_usage u)" "preserves rn_messages (count_malformed h)" "preserves rn_messages (count_lookup tc)"
  by (auto simp: preserves_def count_usage_def count_malformed_def count_lookup_def smod_def Let_def split: prod.split)

lemma keeps_messages_settle [keeps]: "preserves rn_messages (settle_answer spec ctx r ms)"
  unfolding settle_answer_def by (intro keeps)

lemma keeps_messages_read [keeps]:
  "preserves rn_messages (read_structured spec n)" "preserves rn_messages (read_timeline spec n)"
  by (auto simp: read_structured_def read_timeline_def intro!: keeps)

lemma keeps_messages_call [keeps]: "preserves rn_messages (call_tool spec n t params)"
  by (cases params) (auto simp: call_tool_def intro!: keeps split: option.splits)

lemma keeps_messages_prepared [keeps]: "preserves rn_messages (run_prepared spec tc t params)"
  unfolding run_prepared_def raised_outcome_def by (intro keeps)

lemma keeps_messages_tool [keeps]: "preserves rn_messages (agent_run_tool spec tc)"
  unfolding agent_run_tool_def by (intro keeps)

lemma keeps_messages_calls [keeps]: "preserves rn_messages (run_calls spec r)"
  unfolding run_calls_def execute_tools_def by (intro keeps) simp

subsection \<open>Lemmas: legality\<close>

lemma legal_append_assistant: "legal ms \<Longrightarrow> is_role ''assistant'' m \<Longrightarrow> legal (ms @ [m])"
  by (simp add: legal_from_append)

lemma legal_append_answer: "legal ms \<Longrightarrow> answers (declared_ids ms) m \<Longrightarrow> legal (ms @ [m])"
  by (simp add: legal_from_append legal_from_single del: legal_from.simps)

lemma declared_ids_append: "declared_ids (xs @ ys) = declared_ids xs \<union> declared_ids ys"
  by (auto simp: declared_ids_def)

lemma assistant_role [simp]: "pget (build_assistant_message c tcs r th) ''role'' = PStr ''assistant''"
  by (simp add: build_assistant_message_def pget_def)

lemma assistant_content [simp]: "pget (build_assistant_message c tcs r th) ''content'' = opt_str c"
  by (simp add: build_assistant_message_def pget_def)

lemma assistant_calls [simp]:
  "pget (build_assistant_message c tcs r th) ''tool_calls'' = (if tcs = [] then PNone else PList (map PDict tcs))"
  by (simp add: build_assistant_message_def pget_def dget_append)

lemma response_role [simp]: "pget (response_message r tcs) ''role'' = PStr ''assistant''"
  by (simp add: response_message_def)

lemma pget_first: "pget ((k, v) # d) j = (if k = j then v else pget d j)"
  by (simp add: pget_def)

lemma response_calls:
  "set (call_ids (response_message r tcs)) = {i. \<exists>d \<in> set tcs. truthy (pget d ''id'') \<and> i = py_str (pget d ''id'')}"
  by (induction tcs) (auto simp: response_message_def call_ids_def map_filter_simps split: if_splits)

lemma response_call_ids:
  "set (call_ids (response_message r (openai_calls r))) = set (filter (\<lambda>i. i \<noteq> []) (map tc_id (lr_tool_calls r)))"
  unfolding response_calls by (auto simp: openai_calls_def to_openai_tool_call_def pget_first)

lemma legal_butlast: "legal ms \<Longrightarrow> legal (butlast ms)"
  by (cases ms rule: rev_cases) (auto simp: legal_from_append)

lemma legal_append_final: "legal ms \<Longrightarrow> legal (append_final_message c ms)"
  by (auto simp: append_final_message_def split: option.splits intro!: legal_append_assistant legal_butlast)

lemma legal_synthetic_pair: "legal ms \<Longrightarrow> legal (ms @ synthetic_pair spec r call_id)"
  by (simp add: legal_from_append synthetic_pair_def response_calls pget_first)

lemma legal_strip_synthetic:
  "legal_from D ms \<Longrightarrow> D \<subseteq> D' \<union> skip \<Longrightarrow> legal_from D' (strip_synthetic_from skip ms)"
proof (induction ms arbitrary: D D' skip)
  case (Cons m ms)
  consider (pair) "is_synthetic_call m" | (assistant) "\<not> is_synthetic_call m" "is_role ''assistant'' m"
    | (answer) "is_role ''tool'' m" "\<not> is_synthetic_call m" | (other) "\<not> is_role ''assistant'' m" "\<not> is_role ''tool'' m"
    by blast
  then show ?case
  proof cases
    case pair
    then have "legal_from (D \<union> set (call_ids m)) ms" using Cons.prems(1) by (simp add: is_synthetic_call_def)
    then show ?thesis using Cons.prems(2) pair by (auto intro!: Cons.IH)
  next
    case assistant
    then have "legal_from (D \<union> set (call_ids m)) ms" using Cons.prems(1) by simp
    then have "legal_from (D' \<union> set (call_ids m)) (strip_synthetic_from skip ms)"
      by (rule Cons.IH) (use Cons.prems(2) in blast)
    then show ?thesis using assistant by simp
  next
    case answer
    then have ok: "truthy (pget m ''tool_call_id'') \<longrightarrow> py_str (pget m ''tool_call_id'') \<in> D" and rest: "legal_from D ms"
      using Cons.prems(1) by simp_all
    have "truthy (pget m ''tool_call_id'') \<longrightarrow> pget_or m ''tool_call_id'' (PStr []) = pget m ''tool_call_id''"
      by (auto simp: pget_def pget_or_def split: option.splits)
    then show ?thesis using answer ok Cons.prems(2) Cons.IH[OF rest Cons.prems(2)] by auto
  next
    case other
    then have "legal_from D ms" "\<not> is_synthetic_call m" using Cons.prems(1) by (simp_all add: is_synthetic_call_def)
    then show ?thesis using other Cons.IH[OF _ Cons.prems(2)] by simp
  qed
qed simp

lemma govern_shape:
  "govern spec s = (x, s') \<Longrightarrow> map shape (rn_messages s') = map shape (rn_messages s)"
  by (auto simp: govern_def apply_tool_result_budget_def split: prod.splits dest!: budget_from_shape ensure_message_ids_shape)

subsection \<open>Lemmas: a turn with tools\<close>

lemma append_results:
  "smap (append_tool_result spec) ps s = (Inr ds, s') \<Longrightarrow>
     rn_messages s' = rn_messages s @ ds
     \<and> (\<exists>cs. length cs = length ps \<and> ds = map2 (\<lambda>p c. tool_message (fst p) c) ps cs)"
proof (induction ps arbitrary: s ds)
  case (Cons p ps)
  obtain m s1 ds' where one: "append_tool_result spec p s = (Inr m, s1)"
    and rest: "smap (append_tool_result spec) ps s1 = (Inr ds', s')" and d: "ds = m # ds'"
    using Cons.prems by (auto simp: sbind_Inr sret_def)
  obtain c where c: "m = tool_message (fst p) c" "rn_messages s1 = rn_messages s @ [m]"
    using one by (auto simp: append_tool_result_def split: prod.splits)
  obtain cs where cs: "length cs = length ps" "ds' = map2 (\<lambda>p c. tool_message (fst p) c) ps cs"
    and ms: "rn_messages s' = rn_messages s1 @ ds'" using Cons.IH[OF rest] by blast
  have "ds = map2 (\<lambda>p c. tool_message (fst p) c) (p # ps) (c # cs)" using c cs d by simp
  moreover have "length (c # cs) = length (p # ps)" using cs by simp
  ultimately show ?case using ms c d by (intro conjI exI[of _ "c # cs"]) auto
qed (simp add: sret_def)

lemma collect_lengths:
  "length (tt_results (fold collect_outcome os t)) = length (tt_results t) + length os"
  "tt_events (fold collect_outcome os t) = tt_events t @ map to_event os"
  by (induction os arbitrary: t) (simp_all add: collect_outcome_def)

lemma smap_lengths: "smap (smap f) xss s = (Inr yss, s') \<Longrightarrow> map length yss = map length xss"
  by (induction xss arbitrary: s yss) (auto simp: sbind_Inr sret_def dest: smap_Inr)

lemma execute_tools_length:
  assumes "execute_tools spec tcs s = (Inr t, s')" shows "length (tt_results t) = length tcs"
proof -
  obtain outs where outs: "smap (smap (agent_run_tool spec)) (partition_tool_batches spec tcs) s = (Inr outs, s')"
    and t: "t = fold collect_outcome (concat outs)
         \<lparr>tt_results = [], tt_events = [], tt_fatal = None, tt_timelines = [], tt_structured = []\<rparr>"
    using assms by (auto simp: execute_tools_def sbind_Inr sret_def)
  have "length (concat outs) = length (concat (partition_tool_batches spec tcs))"
    using smap_lengths[OF outs] by (simp add: length_concat)
  also have "concat (partition_tool_batches spec tcs) = tcs"
    by (simp add: partition_tool_batches_def batches_from_concat)
  finally show ?thesis by (simp add: t collect_lengths)
qed

text \<open>\<open>adds ms m\<close>: when the computation returns, it has added exactly these messages.\<close>

definition adds :: "pydict list \<Rightarrow> ('w run_state, 'a) sm \<Rightarrow> bool" where
  "adds ms m \<longleftrightarrow> (\<forall>s x s'. m s = (Inr x, s') \<longrightarrow> rn_messages s' = rn_messages s @ ms)"

lemma addsD: "adds ms m \<Longrightarrow> m s = (Inr x, s') \<Longrightarrow> rn_messages s' = rn_messages s @ ms"
  by (simp add: adds_def)

lemma adds_nothing: "preserves rn_messages m \<Longrightarrow> adds [] m"
  by (auto simp: adds_def dest: preservesD)

lemma adds_quiet: "preserves rn_messages m \<Longrightarrow> (\<And>x. adds ms (f x)) \<Longrightarrow> adds ms (sbind m f)"
  unfolding adds_def sbind_Inr by (metis preservesD)

lemma adds_messages: "(\<And>x. preserves rn_messages (f x)) \<Longrightarrow> adds ms (sbind (add_messages ms) f)"
  unfolding adds_def sbind_Inr add_messages_def smod_def by (auto dest: preservesD)

lemma end_with_error_run:
  "end_with_error spec ctx reason c s = (Inr e, s') \<Longrightarrow>
     e = Some \<lparr>re_stop_reason = reason, re_final_content = Some c, re_error = Some c\<rparr>
     \<and> rn_messages s' = append_final_message (Some c) (rn_messages s)"
  by (auto simp: end_with_error_def sbind_Inr sret_def append_final_def smod_def
      dest!: preservesD[OF keeps_messages_world(1)])

lemma run_calls_length: "run_calls spec r s = (Inr t, s') \<Longrightarrow> length (tt_results t) = length (lr_tool_calls r)"
  by (auto simp: run_calls_def sbind_Inr sret_def dest: execute_tools_length)

lemma announce_calls_adds: "adds [response_message r (openai_calls r)] (announce_calls spec i ctx r)"
  unfolding announce_calls_def Let_def by (intro adds_quiet adds_messages keeps) simp_all

text \<open>The part of a turn before the results are written: the assistant message is the only new one.\<close>

lemma tool_turn_split:
  assumes "tool_turn spec i ctx r s = (Inr e, s')"
  obtains t ctx1 s1 where "rn_messages s1 = rn_messages s @ [response_message r (openai_calls r)]"
    "length (tt_results t) = length (lr_tool_calls r)" "answer_calls spec i ctx1 r t s1 = (Inr e, s')"
proof -
  obtain u sa t sb ctx1 where a: "announce_calls spec i ctx r s = (Inr u, sa)" and b: "run_calls spec r sa = (Inr t, sb)"
    and rest: "answer_calls spec i ctx1 r t sb = (Inr e, s')"
    using assms unfolding tool_turn_def sbind_Inr by blast
  have "rn_messages sb = rn_messages s @ [response_message r (openai_calls r)]"
    using addsD[OF announce_calls_adds a] preservesD[OF keeps_messages_calls b] by simp
  then show thesis by (rule that[OF _ run_calls_length[OF b] rest])
qed

lemma answer_calls_run:
  assumes run: "answer_calls spec i ctx r t s = (Inr e, s')" and len: "length (tt_results t) = length (lr_tool_calls r)"
  shows "(\<exists>c. e = Some \<lparr>re_stop_reason = ''tool_error'', re_final_content = Some c, re_error = Some c\<rparr>
            \<and> rn_messages s' = append_final_message (Some c) (rn_messages s))
       \<or> e = None \<and> (\<exists>cs. length cs = length (lr_tool_calls r)
            \<and> rn_messages s' = rn_messages s @ map2 tool_message (lr_tool_calls r) cs)"
proof (cases "tt_fatal t")
  case (Some x)
  then show ?thesis using run by (auto simp: answer_calls_def dest: end_with_error_run)
next
  case None
  then obtain ds s2 s3 where ds: "smap (append_tool_result spec) (zip (lr_tool_calls r) (tt_results t)) s = (Inr ds, s2)"
    and e: "emit_checkpoint spec ''tools_completed'' i (response_message r (openai_calls r)) ds [] s2 = (Inr (), s3)"
    and n: "notify spec After_iteration ctx s3 = (Inr (), s')" and "e = None"
    using run by (auto simp: answer_calls_def sbind_Inr sret_def)
  obtain cs where cs: "length cs = length (zip (lr_tool_calls r) (tt_results t))"
      "ds = map2 (\<lambda>p c. tool_message (fst p) c) (zip (lr_tool_calls r) (tt_results t)) cs"
      "rn_messages s2 = rn_messages s @ ds"
    using append_results[OF ds] by blast
  have "rn_messages s' = rn_messages s2"
    using preservesD[OF keeps_messages_world(4) e] preservesD[OF keeps_messages_world(1) n] by simp
  moreover have "ds = map2 tool_message (lr_tool_calls r) cs"
    using cs(1,2) len by (auto simp: list_eq_iff_nth_eq)
  ultimately show ?thesis using cs len \<open>e = None\<close> by auto
qed

lemma tool_turn_run:
  assumes "tool_turn spec i ctx r s = (Inr e, s')"
  shows "(\<exists>c. e = Some \<lparr>re_stop_reason = ''tool_error'', re_final_content = Some c, re_error = Some c\<rparr>
            \<and> rn_messages s' = append_final_message (Some c) (rn_messages s @ [response_message r (openai_calls r)]))
       \<or> e = None \<and> (\<exists>cs. length cs = length (lr_tool_calls r)
            \<and> rn_messages s' = rn_messages s @ response_message r (openai_calls r) # map2 tool_message (lr_tool_calls r) cs)"
proof -
  obtain t ctx1 s1 where s1: "rn_messages s1 = rn_messages s @ [response_message r (openai_calls r)]"
    and len: "length (tt_results t) = length (lr_tool_calls r)" and rest: "answer_calls spec i ctx1 r t s1 = (Inr e, s')"
    using tool_turn_split[OF assms] .
  show ?thesis using answer_calls_run[OF rest len] by (simp add: s1)
qed


lemma results_answer:
  "set tcs \<subseteq> set (lr_tool_calls r) \<Longrightarrow> set (call_ids (response_message r (openai_calls r))) \<subseteq> D \<Longrightarrow>
     legal_from D (map2 tool_message tcs cs)"
  unfolding response_call_ids
proof (induction tcs cs rule: list_induct2')
  case (4 tc tcs c cs)
  then show ?case by (auto simp: tool_message_def pget_first)
qed simp_all

lemma tool_turn_legal:
  assumes run: "tool_turn spec i ctx r s = (Inr e, s')" and ok: "legal (rn_messages s)"
  shows "legal (rn_messages s')"
  using tool_turn_run[OF run] ok results_answer[of "lr_tool_calls r" r]
  by (auto simp: legal_from_append intro!: legal_append_final)

subsection \<open>Lemmas: the end of a run\<close>

text \<open>What the end of a run says, and what it leaves in the messages.\<close>

definition ended_well :: "run_end \<Rightarrow> pydict list \<Rightarrow> bool" where
  "ended_well x ms \<longleftrightarrow>
     (\<exists>c. re_final_content x = Some c \<and>
        (re_stop_reason x = ''completed'' \<and> re_error x = None \<and> strip c \<noteq> []
           \<and> (\<exists>ms0 th rs. ms = ms0 @ [build_assistant_message (Some c) [] rs th])
         \<or> re_stop_reason x \<in> {''tool_error'', ''malformed_tool_call_budget_exhausted'', ''error'', ''empty_final_response''}
           \<and> re_error x = Some c
         \<or> re_stop_reason x = ''max_iterations'' \<and> re_error x = None))"

abbreviation turn_ok :: "run_end option \<Rightarrow> pydict list \<Rightarrow> bool" where
  "turn_ok e ms \<equiv> legal ms \<and> (case e of Some x \<Rightarrow> ended_well x ms | None \<Rightarrow> True)"

lemma end_with_error_ok:
  assumes "end_with_error spec ctx reason c s = (Inr e, s')" "legal (rn_messages s)"
    "reason \<in> {''tool_error'', ''malformed_tool_call_budget_exhausted'', ''error'', ''empty_final_response''}"
  shows "turn_ok e (rn_messages s')"
  using end_with_error_run[OF assms(1)] assms(2,3) by (auto simp: ended_well_def legal_append_final)

lemma tool_turn_ok: "tool_turn spec i ctx r s = (Inr e, s') \<Longrightarrow> legal (rn_messages s) \<Longrightarrow> turn_ok e (rn_messages s')"
  using tool_turn_legal[of spec i ctx r s e s'] tool_turn_run[of spec i ctx r s e s'] by (auto simp: ended_well_def)

lemma retry_malformed_adds: "adds (synthetic_pair spec r (synthetic_id i n)) (retry_malformed spec i ctx r n)"
  unfolding retry_malformed_def by (intro adds_quiet adds_messages keeps)

lemma malformed_turn_ok:
  assumes run: "malformed_turn spec i ctx r mfm s = (Inr e, s')" and ok: "legal (rn_messages s)"
  shows "turn_ok e (rn_messages s')"
proof -
  obtain n s1 ctx1 where n: "count_malformed (sp_hash spec mfm) s = (Inr n, s1)"
    and rest: "(if sp_malformed_retry_budget spec < int n
       then end_with_error spec ctx1 ''malformed_tool_call_budget_exhausted''
              (malformed_exhausted_message (sp_malformed_retry_budget spec) (lr_content r))
       else sbind (retry_malformed spec i ctx1 r n) (\<lambda>_. sret None)) s1 = (Inr e, s')"
    using run unfolding malformed_turn_def sbind_Inr Let_def by blast
  have ok1: "legal (rn_messages s1)" using preservesD[OF keeps_messages_count(2) n] ok by simp
  show ?thesis
  proof (cases "sp_malformed_retry_budget spec < int n")
    case True
    then show ?thesis using rest ok1 by (intro end_with_error_ok) auto
  next
    case False
    then obtain u where "retry_malformed spec i ctx1 r n s1 = (Inr u, s')" and e: "e = None"
      using rest by (auto simp: sbind_Inr sret_def)
    then have "rn_messages s' = rn_messages s1 @ synthetic_pair spec r (synthetic_id i n)"
      by (intro addsD[OF retry_malformed_adds])
    then show ?thesis using ok1 legal_synthetic_pair e by simp
  qed
qed

text \<open>The last part of an answer, for the response that counts.\<close>

lemma conclude_answer_adds:
  "adds [build_assistant_message clean [] (lr_reasoning r) (lr_thinking r)] (conclude_answer spec i r ctx clean)"
  unfolding conclude_answer_def Let_def by (intro adds_messages keeps)

lemma conclude_answer_end:
  "conclude_answer spec i r ctx clean s = (Inr e, s') \<Longrightarrow>
     e = Some \<lparr>re_stop_reason = ''completed'', re_final_content = clean, re_error = None\<rparr>"
  unfolding conclude_answer_def Let_def sbind_Inr sret_def by blast

lemma conclude_ok:
  assumes run: "conclude spec i r ctx s = (Inr e, s')" and ok: "legal (rn_messages s)"
  shows "turn_ok e (rn_messages s')"
proof -
  let ?clean = "sp_finalize spec (lr_content r)"
  consider (error) "end_with_error spec ctx ''error'' (error_content spec ?clean) s = (Inr e, s')"
    | (empty) "end_with_error spec ctx ''empty_final_response'' empty_final_response_message s = (Inr e, s')"
    | (answer) "\<not> is_blank_text ?clean" "conclude_answer spec i r ctx ?clean s = (Inr e, s')"
    using run unfolding conclude_def Let_def
    by (cases "lr_finish_reason r = ''error''"; cases "is_blank_text ?clean") (simp_all only: if_True if_False simp_thms)
  then show ?thesis
  proof cases
    case answer
    then obtain c where c: "?clean = Some c" "strip c \<noteq> []" by (auto simp: is_blank_text_def split: option.splits)
    have "rn_messages s' = rn_messages s @ [build_assistant_message (Some c) [] (lr_reasoning r) (lr_thinking r)]"
      using addsD[OF conclude_answer_adds answer(2)] by (simp add: c)
    moreover have "e = Some \<lparr>re_stop_reason = ''completed'', re_final_content = Some c, re_error = None\<rparr>"
      using conclude_answer_end[OF answer(2)] by (simp add: c)
    ultimately show ?thesis using ok c(2) by (auto simp: ended_well_def intro: legal_append_assistant)
  next
    case error
    then show ?thesis using ok by (rule end_with_error_ok) simp
  next
    case empty
    then show ?thesis using ok by (rule end_with_error_ok) simp
  qed
qed

lemma answer_turn_ok:
  assumes run: "answer_turn spec i ctx0 r0 mfm s = (Inr e, s')" and ok: "legal (rn_messages s)"
  shows "turn_ok e (rn_messages s')"
proof -
  obtain p s1 s2 where settle: "settle_answer spec ctx0 r0 mfm s = (Inr p, s1)"
    and stream: "notify_stream_end spec False (snd p) s1 = (Inr (), s2)"
    and rest: "conclude spec i (fst p) (snd p) s2 = (Inr e, s')"
    using run unfolding answer_turn_def sbind_Inr case_prod_beta by auto
  have "legal (rn_messages s2)"
    using preservesD[OF keeps_messages_settle settle] preservesD[OF keeps_messages_world(2) stream] ok by simp
  then show ?thesis by (rule conclude_ok[OF rest])
qed

lemma consult_messages: "consult spec i s = (Inr p, s') \<Longrightarrow> map shape (rn_messages s') = map shape (rn_messages s)"
proof -
  assume run: "consult spec i s = (Inr p, s')"
  then obtain mfm s1 where g: "govern spec s = (Inr mfm, s1)"
    and rest: "sbind (sgets (\<lambda>s. new_context i (rn_messages s))) (\<lambda>ctx0.
     sbind (on_world (sp_hook spec Before_iteration ctx0)) (\<lambda>_.
     sbind (ask_model spec True mfm) (\<lambda>r.
     sbind (count_usage (usage_dict (lr_usage r))) (\<lambda>_.
     sbind (notify spec After_llm_response (ctx0\<lparr>hc_response := Some r, hc_usage := usage_dict (lr_usage r),
         hc_tool_calls := lr_tool_calls r\<rparr>)) (\<lambda>_. sret (mfm, r, ctx0\<lparr>hc_response := Some r,
         hc_usage := usage_dict (lr_usage r), hc_tool_calls := lr_tool_calls r\<rparr>)))))) s1 = (Inr p, s')"
    unfolding consult_def Let_def sbind_Inr[of "govern spec"] by blast
  have "rn_messages s' = rn_messages s1"
    using rest by (rule preservesD[of rn_messages, rotated]) (intro keeps)
  then show ?thesis using govern_shape[OF g] by simp
qed

lemma take_turn_ok:
  assumes "take_turn spec i p s = (Inr e, s')" and ok: "legal (rn_messages s)"
  shows "turn_ok e (rn_messages s')"
proof -
  obtain mfm r ctx where p: "p = (mfm, r, ctx)" by (cases p)
  have run: "(if has_tool_calls r then tool_turn spec i ctx r
      else if lr_finish_reason r \<noteq> ''error'' \<and> looks_like_malformed_tool_call (lr_content r)
      then malformed_turn spec i ctx r mfm
      else answer_turn spec i ctx r mfm) s = (Inr e, s')"
    using assms(1) unfolding take_turn_def p prod.case .
  show ?thesis
  proof (cases "has_tool_calls r")
    case True
    then show ?thesis using run tool_turn_ok[OF _ ok] by (simp only: if_True)
  next
    case False
    then show ?thesis
      using run malformed_turn_ok[OF _ ok] answer_turn_ok[OF _ ok]
      by (cases "lr_finish_reason r \<noteq> ''error'' \<and> looks_like_malformed_tool_call (lr_content r)")
        (simp_all only: if_True if_False simp_thms)
  qed
qed

lemma iteration_ok:
  assumes run: "iteration spec i s = (Inr e, s')" and ok: "legal (rn_messages s)"
  shows "turn_ok e (rn_messages s')"
proof -
  obtain p s1 where c: "consult spec i s = (Inr p, s1)" and t: "take_turn spec i p s1 = (Inr e, s')"
    using run unfolding iteration_def sbind_Inr by blast
  have "legal (rn_messages s1)" using legal_from_shape[OF consult_messages[OF c]] ok by blast
  then show ?thesis by (rule take_turn_ok[OF t])
qed

lemma iterations_ok:
  "iterations spec i k s = (Inr e, s') \<Longrightarrow> legal (rn_messages s) \<Longrightarrow> turn_ok e (rn_messages s')"
proof (induction k arbitrary: i s)
  case (Suc k)
  then obtain e1 s1 where one: "iteration spec i s = (Inr e1, s1)"
    and rest: "(case e1 of Some x \<Rightarrow> sret (Some x) | None \<Rightarrow> iterations spec (i + 1) k) s1 = (Inr e, s')"
    unfolding iterations.simps sbind_Inr by blast
  have ok: "turn_ok e1 (rn_messages s1)" by (rule iteration_ok[OF one Suc.prems(2)])
  show ?case
  proof (cases e1)
    case None
    then show ?thesis using rest ok Suc.IH[of "i + 1" s1] by simp
  next
    case (Some x)
    then show ?thesis using rest ok by (auto simp: sret_def)
  qed
qed (simp add: sret_def)

lemma run_agent_ends:
  assumes run: "run_agent spec store w = (Inr res, s)" and ok: "legal (sp_initial_messages spec)"
  obtains x where "res = run_result_of x s" "ended_well x (rn_messages s)" "legal (rn_messages s)"
proof -
  obtain e s1 x where loop: "iterations spec 0 (sp_max_iterations spec) (initial_state spec store w) = (Inr e, s1)"
    and fin: "finish_run spec e s1 = (Inr x, s)" and res: "res = run_result_of x s"
    using run by (auto simp: run_agent_def sbind_Inr sgets_def)
  have "turn_ok e (rn_messages s1)" using iterations_ok[OF loop] ok by (simp add: initial_state_def)
  then have "ended_well x (rn_messages s) \<and> legal (rn_messages s)"
    using fin by (cases e) (auto simp: finish_run_def sbind_Inr sret_def append_final_def smod_def ended_well_def
        intro: legal_append_final)
  then show thesis using that res by blast
qed

lemma strip_synthetic_snoc:
  "is_role ''assistant'' m \<Longrightarrow> pget m ''tool_calls'' = PNone \<Longrightarrow>
     strip_synthetic_from skip (ms @ [m]) = strip_synthetic_from skip ms @ [m]"
  by (induction ms arbitrary: skip) (auto simp: is_synthetic_call_def)

lemma assistant_without_id [simp]:
  "strip_internal_message_id (build_assistant_message c tcs rs th) = build_assistant_message c tcs rs th"
  by (simp add: strip_internal_message_id_def build_assistant_message_def dpop_def internal_message_id_key_def)

subsection \<open>Properties\<close>

text \<open>C3: A run on a legal history leaves a legal history. It is completed exactly when it ends
  without an error before its last iteration, and then the last message is its final content,
  which is not blank; every other reason than the number of iterations comes with the final
  content as its error.\<close>

theorem run_ends_with_legal_history:
  assumes run: "run_agent spec store w = (Inr res, s)" and ok: "legal (sp_initial_messages spec)"
  shows "legal (rr_messages res) \<and>
    (\<exists>c. rr_final_content res = Some c \<and>
      (rr_stop_reason res = ''completed'' \<and> rr_error res = None \<and> strip c \<noteq> []
         \<and> is_role ''assistant'' (last (rr_messages res)) \<and> pget (last (rr_messages res)) ''content'' = PStr c
         \<and> pget (last (rr_messages res)) ''tool_calls'' = PNone
       \<or> rr_stop_reason res \<in> {''tool_error'', ''malformed_tool_call_budget_exhausted'', ''error'', ''empty_final_response''}
         \<and> rr_error res = Some c
       \<or> rr_stop_reason res = ''max_iterations'' \<and> rr_error res = None))"
proof -
  obtain x where x: "res = run_result_of x s" "ended_well x (rn_messages s)" "legal (rn_messages s)"
    using run_agent_ends[OF run ok] .
  have "legal (strip_synthetic_malformed_pairs (rn_messages s))"
    unfolding strip_synthetic_malformed_pairs_def by (rule legal_strip_synthetic[OF x(3)]) simp
  then have legal: "legal (rr_messages res)"
    using legal_from_shape[OF strip_internal_shape] by (simp add: x(1) run_result_of_def)
  have last: "last (rr_messages res) = build_assistant_message (Some c) [] rs th"
    if "rn_messages s = ms0 @ [build_assistant_message (Some c) [] rs th]" for c ms0 rs th
    unfolding x(1) run_result_of_def strip_synthetic_malformed_pairs_def that
    by (simp add: strip_synthetic_snoc strip_internal_message_ids_def)
  obtain c where c: "re_final_content x = Some c" and cases:
      "re_stop_reason x = ''completed'' \<and> re_error x = None \<and> strip c \<noteq> []
         \<and> (\<exists>ms0 th rs. rn_messages s = ms0 @ [build_assistant_message (Some c) [] rs th])
       \<or> re_stop_reason x \<in> {''tool_error'', ''malformed_tool_call_budget_exhausted'', ''error'', ''empty_final_response''}
         \<and> re_error x = Some c
       \<or> re_stop_reason x = ''max_iterations'' \<and> re_error x = None"
    using x(2) unfolding ended_well_def by blast
  have fields: "rr_final_content res = re_final_content x" "rr_stop_reason res = re_stop_reason x" "rr_error res = re_error x"
    by (simp_all add: x(1) run_result_of_def)
  show ?thesis
    unfolding fields using legal c cases
  proof (elim disjE, goal_cases)
    case 1
    then obtain ms0 th rs where "rn_messages s = ms0 @ [build_assistant_message (Some c) [] rs th]" by blast
    from last[OF this] have "is_role ''assistant'' (last (rr_messages res))"
        "pget (last (rr_messages res)) ''content'' = PStr c" "pget (last (rr_messages res)) ''tool_calls'' = PNone"
      by (simp_all add: opt_str_def)
    then show ?case using 1 by blast
  qed blast+
qed

subsection \<open>Requests\<close>

text \<open>What a run needs to leave the number of requests alone: everything but the request itself.\<close>

definition only_requests_count :: "('w \<Rightarrow> nat) \<Rightarrow> 'w run_spec \<Rightarrow> bool" where
  "only_requests_count requests spec \<longleftrightarrow>
     (\<forall>ms t w. requests (snd (sp_request spec ms t w)) = requests w + 1)
     \<and> (\<forall>ev ctx w. requests (snd (sp_hook spec ev ctx w)) = requests w)
     \<and> (\<forall>cb p w. sp_checkpoint spec = Some cb \<longrightarrow> requests (snd (cb p w)) = requests w)
     \<and> (\<forall>name t d w. get_tool (sp_tools spec) name = Some t \<longrightarrow> requests (snd (tl_run t d w)) = requests w)"

lemma preserves_world: "(\<And>w. requests (snd (m w)) = requests w) \<Longrightarrow> preserves (\<lambda>s. requests (rn_world s)) (on_world m)"
  by (simp add: preserves_def on_world_def szoom_def split: prod.splits) (metis snd_conv)

text \<open>The number of requests as a measure of the state.\<close>

abbreviation asked :: "('w \<Rightarrow> nat) \<Rightarrow> 'w run_state \<Rightarrow> nat" where
  "asked requests \<equiv> \<lambda>s. requests (rn_world s)"

lemma asked_smod [keeps]: "(\<And>s. rn_world (f s) = rn_world s) \<Longrightarrow> preserves (asked requests) (smod f)"
  by (rule preserves_smod) simp

lemma asked_state [keeps]:
  "preserves (asked requests) (count_usage u)" "preserves (asked requests) (count_malformed h)"
  "preserves (asked requests) (count_lookup tc)" "preserves (asked requests) (add_messages ms)"
  "preserves (asked requests) (append_final c)" "preserves (asked requests) (append_tool_result spec p)"
  "preserves (asked requests) (govern spec)"
  by (auto simp: preserves_def count_usage_def count_malformed_def count_lookup_def add_messages_def append_final_def
      append_tool_result_def govern_def smod_def Let_def split: prod.split)

lemma asked_read [keeps]:
  "preserves (asked requests) (read_structured spec n)" "preserves (asked requests) (read_timeline spec n)"
  by (auto simp: read_structured_def read_timeline_def intro!: keeps)

lemma asked_observers:
  assumes "only_requests_count requests spec"
  shows "preserves (asked requests) (notify spec ev ctx)" "preserves (asked requests) (notify_stream_end spec b ctx)"
    "preserves (asked requests) (on_world (sp_hook spec ev ctx))"
    "preserves (asked requests) (emit_checkpoint spec ph i a c p)"
proof -
  show hook: "preserves (asked requests) (on_world (sp_hook spec ev ctx))" for ev ctx
    by (rule preserves_world) (use assms in \<open>simp add: only_requests_count_def\<close>)
  show "preserves (asked requests) (notify spec ev ctx)" "preserves (asked requests) (notify_stream_end spec b ctx)"
    unfolding notify_def notify_stream_end_def by (intro keeps hook)+
  show "preserves (asked requests) (emit_checkpoint spec ph i a c p)"
    unfolding emit_checkpoint_def
    by (cases "sp_checkpoint spec") (auto intro!: keeps preserves_world simp: assms[unfolded only_requests_count_def])
qed

lemma prepare_call_tool:
  "prepare_call reg name params = Inr (t, args, None) \<Longrightarrow> \<exists>tool. t = Some tool \<and> get_tool reg name = Some tool"
  by (auto simp: prepare_call_def rbind_eq_Inr split: option.splits if_splits)

lemma asked_call_tool:
  assumes "only_requests_count requests spec" "get_tool (sp_tools spec) name = Some tool"
  shows "preserves (asked requests) (call_tool spec name (Some tool) params)"
proof (cases params)
  case (PDict d)
  have "preserves (asked requests) (on_world (tl_run tool d))"
    by (rule preserves_world) (use assms in \<open>simp add: only_requests_count_def\<close>)
  then show ?thesis unfolding call_tool_def PDict by (auto intro!: keeps)
qed (auto simp: call_tool_def intro!: keeps)

lemma asked_run_prepared:
  assumes "only_requests_count requests spec" "get_tool (sp_tools spec) (tc_name tc) = Some tool"
  shows "preserves (asked requests) (run_prepared spec tc (Some tool) params)"
  unfolding run_prepared_def raised_outcome_def by (intro keeps asked_call_tool[OF assms])

lemma asked_run_tool:
  assumes "only_requests_count requests spec"
  shows "preserves (asked requests) (agent_run_tool spec tc)"
proof -
  have prepared: "preserves (asked requests)
     (sbind (slift (prepare_call (sp_tools spec) (tc_name tc) (PDict (tc_arguments tc)))) (\<lambda>(t, params, prep_error).
        case prep_error of
          Some m \<Rightarrow> sret (failed_outcome spec (tc_id tc) (tc_name tc) m (take 120 (case after_colon m of Some d \<Rightarrow> d | None \<Rightarrow> m)))
        | None \<Rightarrow> run_prepared spec tc t params))"
  proof (cases "prepare_call (sp_tools spec) (tc_name tc) (PDict (tc_arguments tc))")
    case (Inl e)
    then show ?thesis by (simp add: preserves_def sm_defs)
  next
    case (Inr p)
    obtain t params prep_error where p: "p = (t, params, prep_error)" by (cases p)
    show ?thesis
    proof (cases prep_error)
      case None
      then obtain tool where tool: "t = Some tool" "get_tool (sp_tools spec) (tc_name tc) = Some tool"
        using prepare_call_tool[of "sp_tools spec" "tc_name tc" "PDict (tc_arguments tc)" t params] Inr p by auto
      then show ?thesis
        using asked_run_prepared[OF assms tool(2), of params]
        by (simp add: Inr p None preserves_def sbind_def slift_def)
    qed (simp add: Inr p preserves_def sm_defs)
  qed
  show ?thesis unfolding agent_run_tool_def by (intro keeps prepared)
qed

lemma asked_turns:
  assumes "only_requests_count requests spec"
  shows "preserves (asked requests) (end_with_error spec ctx reason c)" and "preserves (asked requests) (tool_turn spec i ctx r)"
    and "preserves (asked requests) (malformed_turn spec i ctx r mfm)" and "preserves (asked requests) (conclude spec i r ctx)"
proof -
  note parts = keeps asked_smod asked_observers[OF assms] asked_run_tool[OF assms]
  show ended: "preserves (asked requests) (end_with_error spec ctx reason c)" for ctx reason c
    unfolding end_with_error_def by (intro parts)
  have announce: "preserves (asked requests) (announce_calls spec i ctx r)"
    unfolding announce_calls_def Let_def by (intro parts) simp_all
  have calls: "preserves (asked requests) (run_calls spec r)"
    unfolding run_calls_def execute_tools_def by (intro parts) simp
  have answer: "preserves (asked requests) (answer_calls spec i ctx r t)" for ctx t
    unfolding answer_calls_def by (intro parts ended)
  show "preserves (asked requests) (tool_turn spec i ctx r)"
    unfolding tool_turn_def by (intro keeps announce calls answer)
  show "preserves (asked requests) (malformed_turn spec i ctx r mfm)"
    unfolding malformed_turn_def retry_malformed_def Let_def by (intro parts ended)
  have "preserves (asked requests) (conclude_answer spec i r ctx c)" for c
    unfolding conclude_answer_def Let_def by (intro parts)
  then show "preserves (asked requests) (conclude spec i r ctx)"
    unfolding conclude_def Let_def by (intro preserves_if ended)
qed

lemma costs_ask:
  assumes "only_requests_count requests spec" shows "costs (asked requests) 1 (ask_model spec t ms)"
  using assms by (auto simp: only_requests_count_def costs_def ask_model_def on_world_def szoom_def split: prod.splits)
    (metis Suc_eq_plus1 le_refl snd_conv)

lemma costs_quiet:
  "preserves f m \<Longrightarrow> (\<And>x. costs f k (g x)) \<Longrightarrow> costs f k (sbind m g)"
  using costs_sbind[of f 0 m k g] costs_preserves by auto

lemma costs_consult:
  assumes "only_requests_count requests spec" shows "costs (asked requests) 1 (consult spec i)"
proof -
  have rest: "preserves (asked requests) (sbind (count_usage (usage_dict (lr_usage r))) (\<lambda>_.
       let ctx = ctx0\<lparr>hc_response := Some r, hc_usage := usage_dict (lr_usage r), hc_tool_calls := lr_tool_calls r\<rparr> in
       sbind (notify spec After_llm_response ctx) (\<lambda>_. sret (mfm, r, ctx))))" for r ctx0 mfm
    unfolding Let_def by (intro keeps asked_observers[OF assms])
  have "costs (asked requests) (1 + 0) (sbind (ask_model spec True mfm) (\<lambda>r. sbind (count_usage (usage_dict (lr_usage r))) (\<lambda>_.
       let ctx = ctx0\<lparr>hc_response := Some r, hc_usage := usage_dict (lr_usage r), hc_tool_calls := lr_tool_calls r\<rparr> in
       sbind (notify spec After_llm_response ctx) (\<lambda>_. sret (mfm, r, ctx)))))" for mfm ctx0
    by (intro costs_sbind costs_ask[OF assms] costs_preserves rest)
  note ask = this[unfolded add_0_right]
  show ?thesis
    unfolding consult_def
    by (rule costs_quiet[OF asked_state(7)], rule costs_quiet[OF preserves_pure(4)], rule costs_quiet[OF asked_observers(3)[OF assms]], rule ask)
qed

lemma costs_take_turn:
  assumes "only_requests_count requests spec" shows "costs (asked requests) 1 (take_turn spec i p)"
proof -
  obtain mfm r ctx where p: "p = (mfm, r, ctx)" by (cases p)
  have one: "costs (asked requests) 1 m" if "preserves (asked requests) m" for m :: "('a run_state, run_end option) sm"
    using costs_weaken[OF costs_preserves[OF that]] by simp
  have "costs (asked requests) (1 + 0) (sbind (ask_model spec False ms) (\<lambda>r'.
      sbind (count_usage (usage_dict (lr_usage r'))) (\<lambda>_. sret (f r'))))" for ms f
    by (intro costs_sbind costs_ask[OF assms] costs_preserves keeps asked_state)
  note ask = this[unfolded add_0_right]
  have settle: "costs (asked requests) 1 (settle_answer spec ctx r mfm)"
  proof (cases "lr_finish_reason r \<noteq> ''error'' \<and> is_blank_text (sp_finalize spec (lr_content r))")
    case True
    show ?thesis
      unfolding settle_answer_def if_P[OF True] by (rule costs_quiet[OF asked_observers(2)[OF assms]], rule ask)
  next
    case False
    show ?thesis unfolding settle_answer_def if_not_P[OF False] by (simp add: costs_def sret_def)
  qed
  have "costs (asked requests) (1 + 0) (answer_turn spec i ctx r mfm)"
    unfolding answer_turn_def
    by (intro costs_sbind settle costs_preserves keeps asked_observers[OF assms] asked_turns[OF assms])
  then show ?thesis
    unfolding take_turn_def p using one asked_turns[OF assms] by simp
qed

lemma costs_iterations:
  assumes "only_requests_count requests spec" shows "costs (asked requests) (2 * k) (iterations spec i k)"
proof (induction k arbitrary: i)
  case 0
  show ?case using costs_preserves[OF preserves_pure(1)] by (simp add: costs_def sret_def)
next
  case (Suc k)
  have "costs (asked requests) (1 + 1) (iteration spec i)"
    unfolding iteration_def by (intro costs_sbind costs_consult costs_take_turn assms)
  then have "costs (asked requests) ((1 + 1) + 2 * k) (iterations spec i (Suc k))"
    unfolding iterations.simps
  proof (rule costs_sbind)
    fix e :: "run_end option"
    show "costs (asked requests) (2 * k) (case e of Some x \<Rightarrow> sret (Some x) | None \<Rightarrow> iterations spec (i + 1) k)"
      using Suc.IH by (cases e) (auto simp: costs_def sret_def)
  qed
  then show ?case by simp
qed

text \<open>C21: A run asks the model at most twice for each of its iterations, also when it ends with an
  exception, provided that nothing but its requests asks the model.\<close>

theorem requests_are_bounded:
  assumes "only_requests_count requests spec"
  shows "requests (rn_world (snd (run_agent spec store w))) \<le> requests w + 2 * sp_max_iterations spec"
proof -
  have "preserves (asked requests) (finish_run spec e)" for e
    unfolding finish_run_def by (cases e) (auto intro!: keeps asked_state)
  then have "costs (asked requests) ((2 * sp_max_iterations spec + 0) + 0)
      (sbind (sbind (iterations spec 0 (sp_max_iterations spec)) (finish_run spec)) (\<lambda>e. sgets (run_result_of e)))"
    by (intro costs_sbind costs_iterations assms costs_preserves keeps)
  then show ?thesis by (simp add: run_agent_def costs_def initial_state_def) (metis run_state.select_convs(1))
qed

subsection \<open>A concrete run\<close>

definition example_read_tool :: "nat tool" where
  "example_read_tool =
     \<lparr>tl_name = ''read_file'', tl_parameters = [(''type'', PStr ''object''), (''properties'', PDict [])], tl_read_only = True,
      tl_exclusive = False, tl_run = (\<lambda>d w. (Inr (PStr ''content''), w))\<rparr>"

definition example_response :: "string option \<Rightarrow> string list \<Rightarrow> llm_response" where
  "example_response content ids =
     \<lparr>lr_content = content,
      lr_tool_calls = map (\<lambda>i. \<lparr>tc_id = i, tc_name = ''read_file'', tc_arguments = [], tc_extra_content = [],
        tc_provider_fields = [], tc_function_fields = []\<rparr>) ids,
      lr_finish_reason = ''stop'', lr_usage = [(''prompt_tokens'', PInt 7)], lr_reasoning = None, lr_thinking = [], lr_extra = []\<rparr>"

text \<open>The model asks for a file and answers then.\<close>

definition example_run :: "nat run_spec" where
  "example_run =
     \<lparr>sp_initial_messages = [[(''role'', PStr ''user''), (''content'', PStr ''compare'')]],
      sp_tools = [(''read_file'', example_read_tool)], sp_model = ''m'', sp_max_iterations = 5, sp_error_message = None,
      sp_max_iterations_message = None, sp_concurrent_tools = True, sp_fail_on_tool_error = False,
      sp_malformed_retry_budget = 3,
      sp_persist = \<lparr>pv_results_dir = None, pv_session_key = None, pv_max_chars = 1000, pv_now = 0, pv_mtime = (\<lambda>_. 0),
        pv_dir_error = None, pv_write_error = (\<lambda>_ _. None), pv_dump_indent = json_dump\<rparr>,
      sp_context = \<lparr>ce_window = None, ce_block_limit = None, ce_max_tokens = None, ce_encode = (\<lambda>s. Inr (length s)),
        ce_counter = (\<lambda>ms. None), ce_definitions = []\<rparr>,
      sp_preserve_message_ids = False, sp_wants_streaming = False,
      sp_request = (\<lambda>ms t w. (Inr (if w = 0 then example_response None [''call_a''] else example_response (Some ''same'') []), w + 1)),
      sp_hook = (\<lambda>ev ctx w. (Inr (), w)), sp_finalize = (\<lambda>c. c), sp_checkpoint = Some (\<lambda>p w. (Inr (), w)),
      sp_structured_result = (\<lambda>name w. PNone), sp_timeline = (\<lambda>w. None), sp_hash = (\<lambda>ms. int (length ms))\<rparr>"

abbreviation example_store :: result_store where
  "example_store \<equiv> \<lparr>rf_buckets = [], rf_files = []\<rparr>"

lemma example_run_returns:
  "\<exists>res s. run_agent example_run example_store 0 = (Inr res, s) \<and> rr_stop_reason res = ''completed'' \<and> rn_world s = 2"
proof -
  have "(case run_agent example_run example_store 0 of
     (Inr res, s) \<Rightarrow> rr_stop_reason res = ''completed'' \<and> rn_world s = 2 | _ \<Rightarrow> False)"
    by code_simp
  then show ?thesis by (auto split: prod.splits sum.splits)
qed

theorem run_ends_with_legal_history_witness:
  "\<exists>res s. run_agent example_run example_store 0 = (Inr res, s) \<and> rr_stop_reason res = ''completed'' \<and>
    legal (rr_messages res) \<and>
    (\<exists>c. rr_final_content res = Some c \<and>
      (rr_stop_reason res = ''completed'' \<and> rr_error res = None \<and> strip c \<noteq> []
         \<and> is_role ''assistant'' (last (rr_messages res)) \<and> pget (last (rr_messages res)) ''content'' = PStr c
         \<and> pget (last (rr_messages res)) ''tool_calls'' = PNone
       \<or> rr_stop_reason res \<in> {''tool_error'', ''malformed_tool_call_budget_exhausted'', ''error'', ''empty_final_response''}
         \<and> rr_error res = Some c
       \<or> rr_stop_reason res = ''max_iterations'' \<and> rr_error res = None))"
proof -
  obtain res s where run: "run_agent example_run example_store 0 = (Inr res, s)" "rr_stop_reason res = ''completed''"
    using example_run_returns by blast
  have "legal (sp_initial_messages example_run)" by code_simp
  from run_ends_with_legal_history[OF run(1) this] show ?thesis using run by blast
qed

theorem requests_are_bounded_witness:
  "id (rn_world (snd (run_agent example_run example_store 0))) \<le> id 0 + 2 * sp_max_iterations example_run"
proof (rule requests_are_bounded)
  show "only_requests_count id example_run"
    by (auto simp: only_requests_count_def example_run_def get_tool_def example_read_tool_def split: if_splits)
qed

lemma returns_none: "(case fst p of Inr None \<Rightarrow> True | _ \<Rightarrow> False) \<Longrightarrow> \<exists>s. p = (Inr None, s)"
  by (cases p) (auto split: sum.splits option.splits)


theorem only_safe_tools_share_a_batch_witness:
  "let tool_calls = lr_tool_calls (example_response None [''call_a'', ''call_b'']) in
   length (partition_tool_batches example_run tool_calls) = 1
   \<and> concat (partition_tool_batches example_run tool_calls) = tool_calls
   \<and> (\<forall>b \<in> set (partition_tool_batches example_run tool_calls). b \<noteq> [] \<and>
        (1 < length b \<longrightarrow> sp_concurrent_tools example_run \<and>
           (\<forall>tc \<in> set b. \<exists>t. get_tool (sp_tools example_run) (tc_name tc) = Some t \<and> tl_read_only t \<and> \<not> tl_exclusive t)))"
  unfolding Let_def
  by (intro conjI only_safe_tools_share_a_batch[THEN conjunct1] only_safe_tools_share_a_batch[THEN conjunct2]) code_simp

end
