(* ===== verification/AgentMemory.thy ===== *)
theory AgentMemory
  imports AgentContext StateErr "HOL-Library.Sublist"
begin

text \<open>
  The memory of an agent (\<open>src/agents/openclaw/_memory.py\<close>): the files \<open>MEMORY.md\<close> and
  \<open>HISTORY.md\<close>, the consolidation of a chunk of messages by the model with its raw fallback, and
  the rounds that move the mark of a session forward while its prompt is too large. The model is
  an operation of a world, and writing a file may fail. One session is consolidated at a time, as
  the lock of the session enforces. The lemmas show that the mark only moves to the beginning of a
  turn of the user, and never without an entry in the history.
\<close>

subsection \<open>The state\<close>

record 'w memory_state =
  mm_world :: 'w
  mm_memory :: "string option"
  mm_history :: string
  mm_failures :: nat
  mm_session :: session
  mm_sessions :: session_manager

record 'w memory_env =
  mv_request :: "pydict list \<Rightarrow> bool \<Rightarrow> 'w \<Rightarrow> llm_response res \<times> 'w"
  mv_io_error :: "string \<Rightarrow> 'w \<Rightarrow> err option"
  mv_now :: string
  mv_build :: "pydict list \<Rightarrow> string option \<Rightarrow> string option \<Rightarrow> pydict list"
  mv_context :: context_env
  mv_window :: int
  mv_max_completion :: int

subsection \<open>The files\<close>

definition read_long_term :: "'w memory_state \<Rightarrow> string" where
  "read_long_term st = (case mm_memory st of Some t \<Rightarrow> t | None \<Rightarrow> [])"

definition write_checked ::
    "'w memory_env \<Rightarrow> string \<Rightarrow> ('w memory_state \<Rightarrow> 'w memory_state) \<Rightarrow> ('w memory_state, unit) sm" where
  "write_checked env file change = (\<lambda>st.
     case mv_io_error env file (mm_world st) of Some e \<Rightarrow> (Inl e, st) | None \<Rightarrow> (Inr (), change st))"

definition write_long_term :: "'w memory_env \<Rightarrow> string \<Rightarrow> ('w memory_state, unit) sm" where
  "write_long_term env content = write_checked env ''MEMORY.md'' (\<lambda>st. st\<lparr>mm_memory := Some content\<rparr>)"

definition append_history :: "'w memory_env \<Rightarrow> string \<Rightarrow> ('w memory_state, unit) sm" where
  "append_history env entry =
     write_checked env ''HISTORY.md'' (\<lambda>st. st\<lparr>mm_history := mm_history st @ rstrip entry @ [CHR 0x0A, CHR 0x0A]\<rparr>)"

definition get_memory_context :: "'w memory_state \<Rightarrow> string" where
  "get_memory_context st =
     (let t = read_long_term st in if t \<noteq> [] then ''## Long-term Memory'' @ [CHR 0x0A] @ t else [])"

subsection \<open>Messages as text\<close>

definition upper_char :: "char \<Rightarrow> char" where
  "upper_char c = (if 97 \<le> cc c \<and> cc c \<le> 122 then char_of (cc c - 32) else c)"

definition str_items :: "pyval list \<Rightarrow> string list res" where
  "str_items = rmap (\<lambda>v. case v of PStr s \<Rightarrow> Inr s | _ \<Rightarrow> Inl (TypeError ''sequence item: expected str instance''))"

definition tools_text :: "pydict \<Rightarrow> string res" where
  "tools_text m =
     (if \<not> truthy (pget m ''tools_used'') then Inr []
      else (case pget m ''tools_used'' of
              PList xs \<Rightarrow> rbind (str_items xs) (\<lambda>ss. Inr ('' [tools: '' @ join '', '' ss @ '']''))
            | PStr s \<Rightarrow> Inr ('' [tools: '' @ join '', '' (map (\<lambda>c. [c]) s) @ '']'')
            | PDict d \<Rightarrow> Inr ('' [tools: '' @ join '', '' (dkeys d) @ '']'')
            | _ \<Rightarrow> Inl (TypeError ''can only join an iterable'')))"

definition timestamp_text :: "pydict \<Rightarrow> string res" where
  "timestamp_text m =
     (case pget_or m ''timestamp'' (PStr ''?'') of
        PStr s \<Rightarrow> Inr (take 16 s)
      | PList xs \<Rightarrow> Inr (py_str (PList (take 16 xs)))
      | _ \<Rightarrow> Inl (TypeError ''object is not subscriptable''))"

definition role_text :: "pydict \<Rightarrow> string res" where
  "role_text m =
     (case dget m ''role'' of
        None \<Rightarrow> Inl (KeyError ''role'')
      | Some (PStr s) \<Rightarrow> Inr (map upper_char s)
      | Some _ \<Rightarrow> Inl (AttributeError ''upper''))"

definition message_line :: "pydict \<Rightarrow> string res" where
  "message_line m =
     rbind (tools_text m) (\<lambda>tools.
     rbind (timestamp_text m) (\<lambda>ts.
     rbind (role_text m) (\<lambda>role.
       Inr (''['' @ ts @ ''] '' @ role @ tools @ '': '' @ py_str (pget m ''content'')))))"

definition format_messages :: "pydict list \<Rightarrow> string res" where
  "format_messages ms =
     rbind (rmap message_line (filter (\<lambda>m. truthy (pget m ''content'')) ms)) (\<lambda>ls. Inr (join [CHR 0x0A] ls))"

subsection \<open>Consolidation\<close>

definition ensure_text :: "pyval \<Rightarrow> string" where
  "ensure_text v = (case v of PStr s \<Rightarrow> s | _ \<Rightarrow> json_dump v)"

definition tool_choice_error_markers :: "string list" where
  "tool_choice_error_markers =
     [''tool_choice'', ''toolchoice'', ''does not support'',
      ''should be ['' @ [CHR 0x22] @ ''none'' @ [CHR 0x22] @ '', '' @ [CHR 0x22] @ ''auto'' @ [CHR 0x22] @ '']'']"

definition is_tool_choice_unsupported :: "string option \<Rightarrow> bool" where
  "is_tool_choice_unsupported content =
     (let t = lower (case content of Some c \<Rightarrow> c | None \<Rightarrow> []) in list_ex (\<lambda>m. contains m t) tool_choice_error_markers)"

definition consolidation_prompt :: "string \<Rightarrow> string \<Rightarrow> pydict list" where
  "consolidation_prompt current_memory conversation =
     (let nl = [CHR 0x0A] in
      [[(''role'', PStr ''system''),
        (''content'', PStr (''You are a memory consolidation agent. Call the save_memory tool with your ''
           @ ''consolidation of the conversation.''))],
       [(''role'', PStr ''user''),
        (''content'', PStr (''Process this conversation and call the save_memory tool with your consolidation.'' @ nl @ nl
           @ ''## Current Long-term Memory'' @ nl @ (if current_memory \<noteq> [] then current_memory else ''(empty)'') @ nl @ nl
           @ ''## Conversation to Process'' @ nl @ conversation))]])"

definition max_failures_before_raw_archive :: nat where
  "max_failures_before_raw_archive = 3"

definition raw_archive :: "'w memory_env \<Rightarrow> pydict list \<Rightarrow> ('w memory_state, unit) sm" where
  "raw_archive env ms =
     sbind (slift (format_messages ms)) (\<lambda>t.
       append_history env (''['' @ mv_now env @ ''] [RAW] '' @ nat_digits (length ms) @ '' messages'' @ [CHR 0x0A] @ t))"

definition fail_or_raw_archive :: "'w memory_env \<Rightarrow> pydict list \<Rightarrow> ('w memory_state, bool) sm" where
  "fail_or_raw_archive env ms =
     sbind (smod (\<lambda>st. st\<lparr>mm_failures := mm_failures st + 1\<rparr>)) (\<lambda>_.
     sbind (sgets mm_failures) (\<lambda>n.
       if n < max_failures_before_raw_archive then sret False
       else
         sbind (raw_archive env ms) (\<lambda>_.
         sbind (smod (\<lambda>st. st\<lparr>mm_failures := 0\<rparr>)) (\<lambda>_. sret True))))"

definition ask_memory :: "'w memory_env \<Rightarrow> pydict list \<Rightarrow> bool \<Rightarrow> ('w memory_state, llm_response) sm" where
  "ask_memory env ms forced = szoom mm_world (\<lambda>w st. st\<lparr>mm_world := w\<rparr>) (mv_request env ms forced)"

definition ask_consolidation :: "'w memory_env \<Rightarrow> pydict list \<Rightarrow> ('w memory_state, llm_response) sm" where
  "ask_consolidation env ms =
     sbind (ask_memory env ms True) (\<lambda>r.
       if lr_finish_reason r = ''error'' \<and> is_tool_choice_unsupported (lr_content r) then ask_memory env ms False
       else sret r)"

text \<open>The payload of the first call: an entry that is not blank, and the new memory.\<close>

definition save_memory_payload :: "llm_response \<Rightarrow> (string \<times> string) option" where
  "save_memory_payload r =
     (case lr_tool_calls r of
        [] \<Rightarrow> None
      | tc # _ \<Rightarrow>
          (case (dget (tc_arguments tc) ''history_entry'', dget (tc_arguments tc) ''memory_update'') of
             (Some entry, Some update) \<Rightarrow>
               if entry = PNone \<or> update = PNone \<or> strip (ensure_text entry) = [] then None
               else Some (strip (ensure_text entry), ensure_text update)
           | _ \<Rightarrow> None))"

definition store_payload :: "'w memory_env \<Rightarrow> string \<Rightarrow> string \<times> string \<Rightarrow> ('w memory_state, bool) sm" where
  "store_payload env current_memory p =
     sbind (append_history env (fst p)) (\<lambda>_.
     sbind (swhen (snd p \<noteq> current_memory) (write_long_term env (snd p))) (\<lambda>_.
     sbind (smod (\<lambda>st. st\<lparr>mm_failures := 0\<rparr>)) (\<lambda>_. sret True)))"

definition consolidate :: "'w memory_env \<Rightarrow> pydict list \<Rightarrow> ('w memory_state, bool) sm" where
  "consolidate env ms =
     (if ms = [] then sret True
      else
        sbind (sgets read_long_term) (\<lambda>current_memory.
        sbind (slift (format_messages ms)) (\<lambda>conversation.
          scatch
            (sbind (ask_consolidation env (consolidation_prompt current_memory conversation)) (\<lambda>r.
               case save_memory_payload r of
                 None \<Rightarrow> fail_or_raw_archive env ms
               | Some p \<Rightarrow> store_payload env current_memory p))
            (\<lambda>e. fail_or_raw_archive env ms))))"

subsection \<open>The rounds\<close>

text \<open>\<open>messages[i]\<close>, for a negative index too.\<close>

definition py_index :: "'a list \<Rightarrow> int \<Rightarrow> 'a res" where
  "py_index xs i =
     (if 0 \<le> i \<and> i < int (length xs) then Inr (xs ! nat i)
      else if i < 0 \<and> - int (length xs) \<le> i then Inr (xs ! nat (int (length xs) + i))
      else Inl (IndexError ''list index out of range''))"

text \<open>\<open>xs[a:b]\<close>.\<close>

definition slice_bound :: "int \<Rightarrow> 'a list \<Rightarrow> nat" where
  "slice_bound i xs = (if 0 \<le> i then min (nat i) (length xs) else length xs - nat (- i))"

definition py_slice :: "int \<Rightarrow> int \<Rightarrow> 'a list \<Rightarrow> 'a list" where
  "py_slice a b xs = drop (slice_bound a xs) (take (slice_bound b xs) xs)"

definition last_consolidated :: "session \<Rightarrow> int res" where
  "last_consolidated s =
     (case se_last_consolidated s of
        PInt k \<Rightarrow> Inr k
      | PBool b \<Rightarrow> Inr (if b then 1 else 0)
      | _ \<Rightarrow> Inl (TypeError ''not supported between instances''))"

fun scan_boundary ::
    "(string \<Rightarrow> nat res) \<Rightarrow> pydict list \<Rightarrow> int \<Rightarrow> int \<Rightarrow> int \<Rightarrow> int option \<Rightarrow> int list \<Rightarrow> int option res" where
  "scan_boundary encode ms start wanted removed boundary [] = Inr boundary"
| "scan_boundary encode ms start wanted removed boundary (idx # rest) =
     rbind (py_index ms idx) (\<lambda>m.
       let at_turn = start < idx \<and> is_role ''user'' m;
           boundary' = (if at_turn then Some idx else boundary)
       in if at_turn \<and> wanted \<le> removed then Inr boundary'
          else rbind (estimate_message_tokens encode m) (\<lambda>t.
            scan_boundary encode ms start wanted (removed + int t) boundary' rest))"

definition pick_consolidation_boundary :: "(string \<Rightarrow> nat res) \<Rightarrow> session \<Rightarrow> int \<Rightarrow> int option res" where
  "pick_consolidation_boundary encode s tokens_to_remove =
     rbind (last_consolidated s) (\<lambda>start.
       if int (length (se_messages s)) \<le> start \<or> tokens_to_remove \<le> 0 then Inr None
       else scan_boundary encode (se_messages s) start tokens_to_remove 0 None [start..int (length (se_messages s)) - 1])"

definition split_key :: "string \<Rightarrow> string option \<times> string option" where
  "split_key key =
     (if CHR '':'' \<in> set key
      then (Some (takeWhile (\<lambda>c. c \<noteq> CHR '':'') key), Some (drop 1 (dropWhile (\<lambda>c. c \<noteq> CHR '':'') key)))
      else (None, None))"

definition estimate_session_prompt_tokens :: "'w memory_env \<Rightarrow> session \<Rightarrow> nat res" where
  "estimate_session_prompt_tokens env s =
     rbind (get_history 0 s) (\<lambda>history.
       estimate_prompt_tokens_chain (mv_context env) (mv_build env history (fst (split_key (se_key s))) (snd (split_key (se_key s)))))"

definition mark_consolidated :: "int \<Rightarrow> ('w memory_state, unit) sm" where
  "mark_consolidated end_idx = smod (\<lambda>st.
     let s = mm_session st\<lparr>se_last_consolidated := PInt end_idx\<rparr> in
     st\<lparr>mm_session := s, mm_sessions := save_session s (mm_sessions st)\<rparr>)"

definition chunk_until :: "int \<Rightarrow> session \<Rightarrow> pydict list res" where
  "chunk_until end_idx s =
     rbind (last_consolidated s) (\<lambda>start. Inr (py_slice start end_idx (se_messages s)))"

fun consolidation_rounds :: "'w memory_env \<Rightarrow> int \<Rightarrow> nat \<Rightarrow> int \<Rightarrow> ('w memory_state, unit) sm" where
  "consolidation_rounds env target 0 estimated = sret ()"
| "consolidation_rounds env target (Suc n) estimated =
     (if estimated \<le> target then sret ()
      else
        sbind (sgets mm_session) (\<lambda>s.
        sbind (slift (pick_consolidation_boundary (ce_encode (mv_context env)) s (max 1 (estimated - target)))) (\<lambda>boundary.
          case boundary of
            None \<Rightarrow> sret ()
          | Some end_idx \<Rightarrow>
              sbind (slift (chunk_until end_idx s)) (\<lambda>chunk.
                if chunk = [] then sret ()
                else
                  sbind (consolidate env chunk) (\<lambda>ok.
                    if \<not> ok then sret ()
                    else
                      sbind (mark_consolidated end_idx) (\<lambda>_.
                      sbind (sgets mm_session) (\<lambda>s'.
                      sbind (slift (estimate_session_prompt_tokens env s')) (\<lambda>estimated'.
                        if estimated' = 0 then sret ()
                        else consolidation_rounds env target n (int estimated')))))))))"

definition max_consolidation_rounds :: nat where
  "max_consolidation_rounds = 5"

definition maybe_consolidate_by_tokens :: "'w memory_env \<Rightarrow> ('w memory_state, unit) sm" where
  "maybe_consolidate_by_tokens env =
     sbind (sgets mm_session) (\<lambda>s.
       if se_messages s = [] \<or> mv_window env \<le> 0 then sret ()
       else
         let budget = mv_window env - mv_max_completion env - 1024 in
         sbind (slift (estimate_session_prompt_tokens env s)) (\<lambda>estimated.
           if estimated = 0 \<or> int estimated < budget then sret ()
           else consolidation_rounds env (budget div 2) max_consolidation_rounds (int estimated)))"

subsection \<open>Lemmas: the history grows\<close>

abbreviation logged :: "string \<Rightarrow> 'w memory_state \<Rightarrow> bool" where
  "logged h st \<equiv> prefix h (mm_history st)"

abbreviation logged_more :: "string \<Rightarrow> 'w memory_state \<Rightarrow> bool" where
  "logged_more h st \<equiv> strict_prefix h (mm_history st)"

lemma append_history_logs: "triple (logged h) (append_history env entry) (\<lambda>_. logged_more h) (logged h)"
  by (auto simp: triple_def append_history_def write_checked_def strict_prefix_def prefix_def split: option.splits)

lemma append_history_logs_more: "triple (logged_more h) (append_history env entry) (\<lambda>_. logged_more h) (logged_more h)"
  by (auto simp: triple_def append_history_def write_checked_def strict_prefix_def prefix_def split: option.splits)

lemma write_long_term_logs: "triple (logged_more h) (write_long_term env c) (\<lambda>_. logged_more h) (logged h)"
  by (auto simp: triple_def write_long_term_def write_checked_def strict_prefix_def split: option.splits)

lemma ask_memory_logs: "triple (logged h) (ask_memory env ms f) (\<lambda>_. logged h) (logged h)"
  by (auto simp: triple_def ask_memory_def szoom_def split: prod.splits sum.splits)

lemma raw_archive_logs: "triple (logged h) (raw_archive env ms) (\<lambda>_. logged_more h) (logged h)"
  unfolding raw_archive_def by (rule triple_sbind[OF triple_slift append_history_logs]) auto

lemma fail_or_raw_archive_logs:
  "triple (logged h) (fail_or_raw_archive env ms) (\<lambda>ok st. logged h st \<and> (ok \<longrightarrow> logged_more h st)) (logged h)"
proof -
  have archive: "triple (logged h) (sbind (raw_archive env ms) (\<lambda>_. sbind (smod (\<lambda>st. st\<lparr>mm_failures := 0\<rparr>)) (\<lambda>_. sret True)))
      (\<lambda>ok st. logged h st \<and> (ok \<longrightarrow> logged_more h st)) (logged h)"
    by (rule triple_sbind[OF raw_archive_logs], rule triple_sbind[OF triple_smod[where Q = "\<lambda>_. logged_more h"] triple_sret])
      (auto simp: strict_prefix_def)
  show ?thesis
    unfolding fail_or_raw_archive_def
    by (rule triple_sbind[OF triple_smod[where Q = "\<lambda>_. logged h"]], simp,
        rule triple_sbind[OF triple_sgets[where Q = "\<lambda>_. logged h"]], simp)
      (auto intro: archive triple_sret)
qed

lemma ask_consolidation_logs: "triple (logged h) (ask_consolidation env ms) (\<lambda>_. logged h) (logged h)"
  unfolding ask_consolidation_def
  by (rule triple_sbind[OF ask_memory_logs]) (auto intro: ask_memory_logs triple_sret)

lemma store_payload_logs:
  "triple (logged h) (store_payload env m p) (\<lambda>ok st. logged h st \<and> (ok \<longrightarrow> logged_more h st)) (logged h)"
  unfolding store_payload_def
  by (rule triple_sbind[OF append_history_logs], rule triple_sbind[where R = "\<lambda>_. logged_more h"],
      rule triple_swhen[OF write_long_term_logs], assumption,
      rule triple_sbind[OF triple_smod[where Q = "\<lambda>_. logged_more h"] triple_sret]) (auto simp: strict_prefix_def)

lemma consolidate_logs:
  "ms \<noteq> [] \<Longrightarrow> triple (logged h) (consolidate env ms) (\<lambda>ok st. logged h st \<and> (ok \<longrightarrow> logged_more h st)) (logged h)"
  unfolding consolidate_def
  by (simp, rule triple_sbind[OF triple_sgets[where Q = "\<lambda>_. logged h"]], simp,
      rule triple_sbind[OF triple_slift[where Q = "\<lambda>_. logged h"]], simp, simp,
      rule triple_scatch[where F = "logged h"], rule triple_sbind[OF ask_consolidation_logs])
    (auto intro: fail_or_raw_archive_logs store_payload_logs split: option.split)

lemma keeps_session [keeps]:
  "preserves mm_session (append_history env e)" "preserves mm_session (write_long_term env c)"
  "preserves mm_session (ask_memory env ms f)"
  by (auto simp: preserves_def append_history_def write_long_term_def write_checked_def ask_memory_def szoom_def
      split: option.splits prod.splits)

lemma consolidate_keeps_session [keeps]: "preserves mm_session (consolidate env ms)"
  unfolding consolidate_def store_payload_def fail_or_raw_archive_def raw_archive_def ask_consolidation_def
  by (intro keeps) simp_all

subsection \<open>Lemmas: the boundary\<close>

lemma scan_boundary_spec:
  assumes "scan_boundary encode ms start wanted removed boundary idxs = Inr (Some k)"
    and "\<And>i. boundary = Some i \<Longrightarrow> ok i" and "\<And>i m. i \<in> set idxs \<Longrightarrow> py_index ms i = Inr m \<Longrightarrow> start < i \<Longrightarrow> is_role ''user'' m \<Longrightarrow> ok i"
  shows "ok k"
  using assms
proof (induction idxs arbitrary: removed boundary)
  case (Cons i idxs)
  obtain m where m: "py_index ms i = Inr m" using Cons.prems(1) by (auto simp: rbind_eq_Inr)
  have next_ok: "\<And>j. (if start < i \<and> is_role ''user'' m then Some i else boundary) = Some j \<Longrightarrow> ok j"
    using Cons.prems(2,3) m by (auto split: if_splits)
  show ?case
  proof (cases "(start < i \<and> is_role ''user'' m) \<and> wanted \<le> removed")
    case True
    then show ?thesis using Cons.prems(1) m next_ok by simp
  next
    case False
    then obtain t where "scan_boundary encode ms start wanted (removed + int t)
        (if start < i \<and> is_role ''user'' m then Some i else boundary) idxs = Inr (Some k)"
      using Cons.prems(1) m unfolding scan_boundary.simps by (auto simp: Let_def rbind_eq_Inr split: if_splits)
    then show ?thesis using Cons.IH next_ok Cons.prems(3) by auto
  qed
qed simp

lemma boundary_is_turn:
  assumes "pick_consolidation_boundary encode s n = Inr (Some k)" and "last_consolidated s = Inr start" and "0 \<le> start"
  shows "start < k \<and> k < int (length (se_messages s)) \<and> is_role ''user'' (se_messages s ! nat k)"
proof -
  have scan: "scan_boundary encode (se_messages s) start n 0 None [start..int (length (se_messages s)) - 1] = Inr (Some k)"
    using assms(1,2) by (auto simp: pick_consolidation_boundary_def split: if_splits)
  show ?thesis
    by (rule scan_boundary_spec[OF scan]) (use assms(3) in \<open>auto simp: py_index_def split: if_splits\<close>)
qed

text \<open>The mark has not moved, or it has moved to a later turn of the user with a longer history.\<close>

definition moved_safely :: "session \<Rightarrow> int \<Rightarrow> string \<Rightarrow> 'w memory_state \<Rightarrow> bool" where
  "moved_safely s start h st \<longleftrightarrow>
     se_messages (mm_session st) = se_messages s \<and> logged h st \<and>
     (mm_session st = s \<or>
      (\<exists>k. se_last_consolidated (mm_session st) = PInt k \<and> start < k \<and> k < int (length (se_messages s))
         \<and> is_role ''user'' (se_messages s ! nat k) \<and> logged_more h st))"

lemma moved_from_later:
  assumes "moved_safely s' k h' st" and "se_messages s' = se_messages s" and "strict_prefix h h'" and "start < k"
    and "se_last_consolidated s' = PInt k" and "k < int (length (se_messages s))" and "is_role ''user'' (se_messages s ! nat k)"
  shows "moved_safely s start h st"
proof -
  have "logged_more h st" using assms(1,3) unfolding moved_safely_def by (meson prefix_order.less_le_trans)
  then show ?thesis
    using assms unfolding moved_safely_def by (auto simp: strict_prefix_def)
qed

lemma rounds_move_safely:
  "last_consolidated (mm_session st) = Inr start \<Longrightarrow> 0 \<le> start \<Longrightarrow>
     moved_safely (mm_session st) start (mm_history st) (snd (consolidation_rounds env target n estimated st))"
proof (induction n arbitrary: st start estimated)
  case 0
  then show ?case by (simp add: moved_safely_def sret_def)
next
  case (Suc n)
  let ?s = "mm_session st"
  have stay: "moved_safely ?s start (mm_history st) st" by (simp add: moved_safely_def)
  show ?case
  proof (cases "estimated \<le> target")
    case True
    then show ?thesis using stay by (simp add: sret_def)
  next
    case False
    show ?thesis
    proof (cases "pick_consolidation_boundary (ce_encode (mv_context env)) ?s (max 1 (estimated - target))")
      case (Inl e)
      then show ?thesis using False stay by (simp add: sm_defs)
    next
      case (Inr boundary)
      show ?thesis
      proof (cases boundary)
        case None
        then show ?thesis using False Inr stay by (simp add: sm_defs)
      next
        case (Some k)
        have turn: "start < k" "k < int (length (se_messages ?s))" "is_role ''user'' (se_messages ?s ! nat k)"
          using boundary_is_turn[OF Inr[unfolded Some] Suc.prems] by auto
        let ?chunk = "py_slice start k (se_messages ?s)"
        have chunk: "chunk_until k ?s = Inr ?chunk" using Suc.prems(1) by (simp add: chunk_until_def)
        show ?thesis
        proof (cases "?chunk = []")
          case True
          then show ?thesis using False Inr Some chunk stay by (simp add: sm_defs)
        next
          case nonempty: False
          obtain r st1 where run: "consolidate env ?chunk st = (r, st1)" by fastforce
          have same: "mm_session st1 = ?s" using preservesD[OF consolidate_keeps_session run] .
          have log: "logged (mm_history st) st1" "r = Inr True \<Longrightarrow> logged_more (mm_history st) st1"
            using consolidate_logs[OF nonempty, of "mm_history st" env] run
            unfolding triple_def by (fastforce split: sum.splits)+
          have stay1: "moved_safely ?s start (mm_history st) st1" using log same by (simp add: moved_safely_def)
          show ?thesis
          proof (cases "r = Inr True")
            case no: False
            then have "snd (consolidation_rounds env target (Suc n) estimated st) = st1"
              using False Inr Some chunk nonempty run by (cases r) (simp_all add: sm_defs)
            then show ?thesis using stay1 by simp
          next
            case True
            define st2 where "st2 = snd (mark_consolidated k st1)"
            have mark: "mark_consolidated k st1 = (Inr (), st2)" by (simp add: st2_def mark_consolidated_def smod_def)
            have st2: "mm_session st2 = ?s\<lparr>se_last_consolidated := PInt k\<rparr>" "mm_history st2 = mm_history st1"
              by (simp_all add: st2_def mark_consolidated_def smod_def same Let_def)
            have here: "moved_safely ?s start (mm_history st) st2"
              using turn log True by (auto simp: moved_safely_def st2)
            have "last_consolidated (mm_session st2) = Inr k" by (simp add: last_consolidated_def st2)
            then have later: "moved_safely (mm_session st2) k (mm_history st2) (snd (consolidation_rounds env target n e st2))" for e
              using Suc.IH turn(1) Suc.prems(2) by simp
            have "moved_safely ?s start (mm_history st) (snd (consolidation_rounds env target n e st2))" for e
              by (rule moved_from_later[OF later]) (use turn log True st2 in auto)
            then show ?thesis
              using False Inr Some chunk nonempty run True mark here
              by (auto simp: sbind_def sgets_def slift_def sret_def split: sum.splits)
          qed
        qed
      qed
    qed
  qed
qed

text \<open>C23: However the consolidation of a session ends, also with an exception, the messages of the
  session are unchanged and the history has only grown. The mark of what is consolidated stays, or
  it moves forward to a turn of the user inside the messages, and then the history has a new entry.\<close>

theorem consolidated_messages_are_archived:
  assumes "last_consolidated (mm_session st) = Inr start" and "0 \<le> start"
    and "st' = snd (maybe_consolidate_by_tokens env st)"
  shows "se_messages (mm_session st') = se_messages (mm_session st) \<and> prefix (mm_history st) (mm_history st') \<and>
     (mm_session st' = mm_session st \<or>
      (\<exists>k. se_last_consolidated (mm_session st') = PInt k \<and> start < k \<and> k < int (length (se_messages (mm_session st)))
         \<and> is_role ''user'' (se_messages (mm_session st) ! nat k) \<and> strict_prefix (mm_history st) (mm_history st')))"
proof -
  have "moved_safely (mm_session st) start (mm_history st) st" by (simp add: moved_safely_def)
  then have "moved_safely (mm_session st) start (mm_history st) (snd (maybe_consolidate_by_tokens env st))"
    using rounds_move_safely[OF assms(1,2)]
    by (auto simp: maybe_consolidate_by_tokens_def sbind_def sgets_def slift_def sret_def Let_def split: sum.splits)
  then show ?thesis by (simp add: assms(3) moved_safely_def)
qed

definition example_memory_env :: "nat memory_env" where
  "example_memory_env =
     \<lparr>mv_request = (\<lambda>ms f w. (Inr \<lparr>lr_content = None,
        lr_tool_calls = [\<lparr>tc_id = ''c'', tc_name = ''save_memory'',
          tc_arguments = [(''history_entry'', PStr ''met''), (''memory_update'', PStr ''fact'')],
          tc_extra_content = [], tc_provider_fields = [], tc_function_fields = []\<rparr>],
        lr_finish_reason = ''stop'', lr_usage = [], lr_reasoning = None, lr_thinking = [], lr_extra = []\<rparr>, w + 1)),
      mv_io_error = (\<lambda>file w. None), mv_now = ''2026-01-01 00:00'', mv_build = (\<lambda>h channel chat. h),
      mv_context = example_context, mv_window = 1124, mv_max_completion = 0\<rparr>"

definition example_memory_state :: "nat memory_state" where
  "example_memory_state =
     \<lparr>mm_world = 0, mm_memory = None, mm_history = [], mm_failures = 0,
      mm_session = (new_session ''t'' ''k'')\<lparr>se_messages :=
        [[(''role'', PStr ''user''), (''content'', PStr ''q'')], [(''role'', PStr ''assistant''), (''content'', PStr ''a'')],
         [(''role'', PStr ''user''), (''content'', PStr ''b'')]]\<rparr>,
      mm_sessions = \<lparr>mg_cache = [], mg_files = []\<rparr>\<rparr>"

theorem consolidated_messages_are_archived_witness:
  "let st' = snd (maybe_consolidate_by_tokens example_memory_env example_memory_state) in
   se_last_consolidated (mm_session st') = PInt 2 \<and>
   se_messages (mm_session st') = se_messages (mm_session example_memory_state)
   \<and> prefix (mm_history example_memory_state) (mm_history st')"
  unfolding Let_def
proof (intro conjI)
  show "se_last_consolidated (mm_session (snd (maybe_consolidate_by_tokens example_memory_env example_memory_state))) = PInt 2"
    by code_simp
  have "last_consolidated (mm_session example_memory_state) = Inr 0" by code_simp
  note safe = consolidated_messages_are_archived[OF this order_refl refl, of example_memory_env]
  show "se_messages (mm_session (snd (maybe_consolidate_by_tokens example_memory_env example_memory_state)))
      = se_messages (mm_session example_memory_state)"
    and "prefix (mm_history example_memory_state)
      (mm_history (snd (maybe_consolidate_by_tokens example_memory_env example_memory_state)))"
    using safe by blast+
qed

end
