(* ===== verification/HostCheckpoint.thy ===== *)
theory HostCheckpoint
  imports CasCapture StateErr PyJson
begin

text \<open>
  Checkpoints of a directory on the host (\<open>src/agents/openclaw/_session_runner.py\<close>): the walk
  over the tree, the snapshot of its entries, the writer of the content-addressed manifest with
  its hash cache, the test that nothing changed meanwhile, and the operation that decides
  between a full, an incremental and no checkpoint after a tool call.
  The directory tree is a datatype; the operation sees the tree three times, once for each walk
  it makes. The lemmas show which paths the walk reports, that the writer keeps the store
  sound and files every manifest entry under the digest of its content, and that incremental
  checkpoints always have a full one below them.
\<close>

subsection \<open>The directory tree and the walk\<close>

text \<open>What \<open>lstat\<close>, \<open>readlink\<close>, \<open>open\<close> and \<open>scandir\<close> report of an entry. A directory may fail
  to be listed; a link may not be readable and may lead to a directory; a file may not be
  readable; \<open>FsGone\<close> is an entry that is gone when it is examined.\<close>

datatype fs =
    FsDir int bool "(string \<times> fs) list"
  | FsFile string int int int bool
  | FsLink string int int bool bool
  | FsOther int int
  | FsGone

fun is_fs_dir :: "fs \<Rightarrow> bool" where
  "is_fs_dir (FsDir _ _ _) = True"
| "is_fs_dir _ = False"

fun is_dir_link :: "fs \<Rightarrow> bool" where
  "is_dir_link (FsLink _ _ _ _ to_dir) = to_dir"
| "is_dir_link _ = False"

definition child_path :: "string \<Rightarrow> string \<Rightarrow> string" where
  "child_path dir name = (if dir = [] then name else dir @ ''/'' @ name)"

text \<open>\<open>os.walk\<close> without the skipped directories: for every listed directory its links to
  directories, the directory itself unless it is the root, and its files, each group in order of
  name; then its subdirectories. The second component tells of a directory that could not be
  listed.\<close>

fun walk_tree :: "string \<Rightarrow> fs \<Rightarrow> (string \<times> fs) list \<times> bool" where
  "walk_tree dir (FsDir mtime listed children) =
     (if \<not> listed then ([], True)
      else
        let kept = filter (\<lambda>(name, e). (is_fs_dir e \<or> is_dir_link e) \<longrightarrow> name \<notin> checkpoint_skip_dirs) children;
            links = sort_key fst (filter (\<lambda>(name, e). is_dir_link e) kept);
            files = sort_key fst (filter (\<lambda>(name, e). \<not> is_fs_dir e \<and> \<not> is_dir_link e) kept);
            below = sort_key fst (concat (map (\<lambda>(name, e).
              if is_fs_dir e \<and> name \<notin> checkpoint_skip_dirs
              then [(name, walk_tree (child_path dir name) e)] else []) children))
        in (map (\<lambda>(name, e). (child_path dir name, e)) links
              @ (if dir = [] then [] else [(dir, FsDir mtime listed [])])
              @ map (\<lambda>(name, e). (child_path dir name, e)) files
              @ concat (map (\<lambda>(name, w). fst w) below),
            list_ex (\<lambda>(name, w). snd w) below))"
| "walk_tree dir _ = ([], True)"

definition walk_failed :: err where
  "walk_failed = OSError ''failed to walk checkpoint root''"

text \<open>An entry's type and its state as the snapshot keeps it.\<close>

definition checkpoint_entry_type :: "fs \<Rightarrow> pyval res" where
  "checkpoint_entry_type e =
     (case e of
        FsDir _ _ _ \<Rightarrow> Inr (PStr ''dir'')
      | FsFile _ _ _ _ _ \<Rightarrow> Inr (PStr ''file'')
      | FsLink target _ _ readable _ \<Rightarrow>
          if readable then Inr (PDict [(''type'', PStr ''symlink''), (''target'', PStr target)])
          else Inl (OSError ''failed to read checkpoint symlink'')
      | FsOther fmt _ \<Rightarrow> Inr (PStr (''other:'' @ int_str fmt))
      | FsGone \<Rightarrow> Inl (OSError ''failed to stat checkpoint entry''))"

fun fs_size_mtime :: "fs \<Rightarrow> int \<times> int" where
  "fs_size_mtime (FsDir mtime _ _) = (0, mtime)"
| "fs_size_mtime (FsFile _ _ sz mtime _) = (sz, mtime)"
| "fs_size_mtime (FsLink _ sz mtime _ _) = (sz, mtime)"
| "fs_size_mtime (FsOther _ mtime) = (0, mtime)"
| "fs_size_mtime FsGone = (0, 0)"

definition checkpoint_snapshot_entry :: "pyval \<Rightarrow> fs \<Rightarrow> snapshot_entry" where
  "checkpoint_snapshot_entry entry_type e =
     SnapStat entry_type (fst (fs_size_mtime e)) (snd (fs_size_mtime e))"

definition supported_entry_type :: "pyval \<Rightarrow> bool" where
  "supported_entry_type t \<longleftrightarrow> is_py_dict t \<or> t = PStr ''dir'' \<or> t = PStr ''file''"

definition snapshot_one :: "string \<times> fs \<Rightarrow> (string \<times> snapshot_entry) list \<Rightarrow> (string \<times> snapshot_entry) list res" where
  "snapshot_one p entries =
     rbind (checkpoint_entry_type (snd p)) (\<lambda>t.
       if \<not> supported_entry_type t then Inl (OSError ''unsupported checkpoint entry type'')
       else Inr (dput (fst p) (checkpoint_snapshot_entry t (snd p)) entries))"

definition snapshot_checkpoint_entries :: "fs \<Rightarrow> (string \<times> snapshot_entry) list res" where
  "snapshot_checkpoint_entries base =
     (let (walk, walk_error) = walk_tree [] base in
      rbind (rfold snapshot_one walk []) (\<lambda>entries.
        if walk_error then Inl walk_failed else Inr entries))"

subsection \<open>Did anything change since a time\<close>

text \<open>Here every name counts, links to directories and subdirectories included, and an entry
  that cannot be examined counts as changed.\<close>

fun entry_is_newer :: "int \<Rightarrow> fs \<Rightarrow> bool" where
  "entry_is_newer marker FsGone = True"
| "entry_is_newer marker e = (snd (fs_size_mtime e) > marker)"

fun newer_below :: "int \<Rightarrow> fs \<Rightarrow> bool" where
  "newer_below marker (FsDir mtime listed children) =
     (\<not> listed \<or> list_ex (\<lambda>(name, e).
        if (is_fs_dir e \<or> is_dir_link e) \<and> name \<in> checkpoint_skip_dirs then False
        else entry_is_newer marker e \<or> (is_fs_dir e \<and> newer_below marker e)) children)"
| "newer_below marker _ = True"

definition any_file_newer_than :: "fs \<Rightarrow> int \<Rightarrow> bool" where
  "any_file_newer_than base marker = (entry_is_newer marker base \<or> newer_below marker base)"

subsection \<open>The manifest writer\<close>

type_synonym hash_cache = "(string \<times> (int \<times> int \<times> string)) list"

record writer =
  wr_cas :: cas_store
  wr_cache :: hash_cache
  wr_entries :: pydict
  wr_bytes :: int

text \<open>Whether an entry is left out: an incremental manifest takes the changed paths only, or
  without those what is newer than the last checkpoint.\<close>

definition left_out :: "int option \<Rightarrow> string list option \<Rightarrow> string \<Rightarrow> int \<Rightarrow> bool" where
  "left_out incremental_since changed rel mtime =
     (case changed of
        Some paths \<Rightarrow> rel \<notin> set paths
      | None \<Rightarrow> (case incremental_since of None \<Rightarrow> False | Some since \<Rightarrow> mtime \<le> since))"

text \<open>The digest of a file: the cached one when size and time agree, else that of its content;
  the content that was read is handed on.\<close>

definition file_digest ::
    "(string \<Rightarrow> string) \<Rightarrow> string \<Rightarrow> string \<Rightarrow> int \<Rightarrow> int \<Rightarrow> bool \<Rightarrow> (writer, string \<times> string option) sm" where
  "file_digest sha rel content sz mtime readable =
     sbind (sgets (\<lambda>w. dget (wr_cache w) rel)) (\<lambda>cached.
     case cached of
       Some (csize, cmtime, digest) \<Rightarrow>
         if csize = sz \<and> cmtime = mtime then sret (digest, None)
         else if \<not> readable then sraise (OSError ''failed to read checkpoint entry'')
         else sbind (smod (wr_cache_update (dput rel (sz, mtime, sha content)))) (\<lambda>_.
           sret (sha content, Some content))
     | None \<Rightarrow>
         if \<not> readable then sraise (OSError ''failed to read checkpoint entry'')
         else sbind (smod (wr_cache_update (dput rel (sz, mtime, sha content)))) (\<lambda>_.
           sret (sha content, Some content)))"

definition store_blob :: "string \<Rightarrow> string \<Rightarrow> int \<Rightarrow> bool \<Rightarrow> string option \<Rightarrow> (writer, unit) sm" where
  "store_blob digest content sz readable file_bytes =
     sbind (sgets (\<lambda>w. wr_cas w digest)) (\<lambda>present.
     if present \<noteq> None then sret ()
     else if file_bytes = None \<and> \<not> readable then sraise (OSError ''failed to write blob'')
     else smod (\<lambda>w. w\<lparr>wr_cas := (wr_cas w)(digest \<mapsto> (case file_bytes of None \<Rightarrow> content | Some b \<Rightarrow> b)),
                      wr_bytes := wr_bytes w + sz\<rparr>))"

definition write_one ::
    "(string \<Rightarrow> string) \<Rightarrow> int option \<Rightarrow> string list option \<Rightarrow> string \<times> fs \<Rightarrow> (writer, unit) sm" where
  "write_one sha incremental_since changed p =
     sbind (slift (checkpoint_entry_type (snd p))) (\<lambda>t.
     if \<not> supported_entry_type t then sraise (OSError ''unsupported checkpoint entry type'')
     else case snd p of
       FsLink target sz mtime readable to_dir \<Rightarrow>
         if left_out incremental_since changed (fst p) mtime then sret ()
         else smod (wr_entries_update (dput (fst p) t))
     | FsFile content mode sz mtime readable \<Rightarrow>
         if left_out incremental_since changed (fst p) mtime then sret ()
         else sbind (file_digest sha (fst p) content sz mtime readable) (\<lambda>(digest, file_bytes).
           sbind (store_blob digest content sz readable file_bytes) (\<lambda>_.
           smod (wr_entries_update (dput (fst p) (PDict
             [(''hash'', PStr digest), (''mode'', PInt (s_imode mode)), (''size'', PInt sz),
              (''mtime_ns'', PInt mtime)])))))
     | _ \<Rightarrow> sret ())"

definition write_walk ::
    "(string \<Rightarrow> string) \<Rightarrow> int option \<Rightarrow> string list option \<Rightarrow> fs \<Rightarrow> (writer, unit) sm" where
  "write_walk sha incremental_since changed base =
     (let (walk, walk_error) = walk_tree [] base in
      sbind (sfor (write_one sha incremental_since changed) walk) (\<lambda>_.
        if walk_error then sraise walk_failed else sret ()))"

definition write_cas_manifest ::
    "(string \<Rightarrow> string) \<Rightarrow> int option \<Rightarrow> string list \<Rightarrow> string list option \<Rightarrow> fs \<Rightarrow>
     cas_store \<Rightarrow> hash_cache \<Rightarrow> (pydict \<times> int) res \<times> cas_store \<times> hash_cache" where
  "write_cas_manifest sha incremental_since deleted_paths changed base cas cache =
     (case write_walk sha incremental_since changed base
             \<lparr>wr_cas = cas, wr_cache = cache, wr_entries = [], wr_bytes = 0\<rparr> of
        (Inl e, w) \<Rightarrow> (Inl e, wr_cas w, wr_cache w)
      | (Inr _, w) \<Rightarrow>
          (Inr ([(''entries'', PDict (wr_entries w)),
                 (''deleted_paths'', PList (map PStr
                    (sort (filter (\<lambda>p. \<not> checkpoint_relpath_is_skipped p) deleted_paths))))],
                wr_bytes w),
           wr_cas w, wr_cache w))"

subsection \<open>The checkpoint after a tool call\<close>

text \<open>The names of a tool call's checkpoint and the calls that get one: a single command.\<close>

definition py_alnum :: "char \<Rightarrow> bool" where
  "py_alnum c \<longleftrightarrow> py_alpha c \<or> py_digit c"

definition sanitize_checkpoint_name :: "string \<Rightarrow> string" where
  "sanitize_checkpoint_name value =
     (let safe = map (\<lambda>ch. if py_alnum ch \<or> ch \<in> {CHR ''-'', CHR ''_''} then ch else CHR ''_'') value;
          name = take 96 safe
      in if name = [] then ''tool'' else name)"

definition single_exec_command_args :: "string \<Rightarrow> string \<Rightarrow> pydict option" where
  "single_exec_command_args tool_name args_json =
     (if tool_name \<noteq> ''exec'' then None
      else case json_loads (if args_json = [] then ''{}'' else args_json) of
        Some (PDict parsed) \<Rightarrow>
          (let payload = (case pget parsed ''exec'' of PDict e \<Rightarrow> e | _ \<Rightarrow> parsed) in
           if dget payload ''command'' = None \<or> dget payload ''commands'' \<noteq> None then None
           else Some payload)
      | _ \<Rightarrow> None)"

text \<open>The configuration of the recorder and the state of its checkpoints. The manifests are
  the files of the checkpoint directory by name; the limit is the size of an incremental chain
  after which a full manifest is written again.\<close>

record checkpoint_config =
  cf_root :: "string option"
  cf_dir :: "string option"
  cf_root_label :: string
  cf_rebaseline :: "int option"

record checkpoint_state =
  ks_last_full :: "int option"
  ks_last_incremental :: "int option"
  ks_snapshot :: "(string \<times> snapshot_entry) list option"
  ks_chain_bytes :: int
  ks_cache :: hash_cache
  ks_cas :: cas_store
  ks_manifests :: "(string \<times> pydict) list"

definition initial_checkpoint_state :: "cas_store \<Rightarrow> checkpoint_state" where
  "initial_checkpoint_state cas =
     \<lparr>ks_last_full = None, ks_last_incremental = None, ks_snapshot = None, ks_chain_bytes = 0,
      ks_cache = [], ks_cas = cas, ks_manifests = []\<rparr>"

text \<open>The directory as the three walks of one checkpoint find it, and the time before the first.\<close>

record host_view =
  hv_is_dir :: bool
  hv_marker_ns :: int
  hv_at_snapshot :: fs
  hv_at_write :: fs
  hv_at_check :: fs

record host_checkpoint =
  hc_name :: string
  hc_is_full :: bool
  hc_since_ns :: "int option"
  hc_rebaseline :: bool
  hc_chain_bytes :: int

datatype host_result = HostError string | HostSkipped | HostCheckpoint host_checkpoint

definition rebaseline_due :: "int option \<Rightarrow> checkpoint_state \<Rightarrow> bool" where
  "rebaseline_due limit st \<longleftrightarrow>
     ks_last_full st \<noteq> None \<and> (case limit of None \<Rightarrow> False | Some n \<Rightarrow> ks_chain_bytes st \<ge> n)"

text \<open>The bookkeeping of a checkpoint that was written.\<close>

definition note_checkpoint ::
    "bool \<Rightarrow> int option \<Rightarrow> int \<Rightarrow> (string \<times> snapshot_entry) list \<Rightarrow> checkpoint_state \<Rightarrow> checkpoint_state" where
  "note_checkpoint is_full now chain_bytes snapshot st =
     (if is_full then st\<lparr>ks_last_full := now, ks_chain_bytes := 0, ks_last_incremental := now,
                        ks_snapshot := Some snapshot\<rparr>
      else st\<lparr>ks_chain_bytes := ks_chain_bytes st + chain_bytes, ks_last_incremental := now,
             ks_snapshot := Some snapshot\<rparr>)"

text \<open>What the next manifest is to hold: the time and the paths it is incremental to.\<close>

definition manifest_request ::
    "int option \<Rightarrow> (string \<times> snapshot_entry) list \<Rightarrow> checkpoint_state \<Rightarrow>
     int option \<times> string list \<times> string list option" where
  "manifest_request limit current st =
     (let is_first = (ks_last_full st = None);
          force_full = rebaseline_due limit st;
          since = (if is_first \<or> force_full then None else ks_last_incremental st)
      in case ks_snapshot st of
           None \<Rightarrow> (since, [], None)
         | Some snap \<Rightarrow>
             if is_first \<or> force_full then (since, [], None)
             else (since, compute_deleted_paths (Some snap) current,
                   Some (compute_checkpoint_changed_paths snap current)))"

definition write_host_checkpoint ::
    "(string \<Rightarrow> string) \<Rightarrow> checkpoint_config \<Rightarrow> string \<Rightarrow> host_view \<Rightarrow> (string \<times> snapshot_entry) list \<Rightarrow>
     checkpoint_state \<Rightarrow> host_result \<times> checkpoint_state" where
  "write_host_checkpoint sha cf tool_call_id v current st =
     (let name = sanitize_checkpoint_name tool_call_id @ ''-manifest.json'';
          is_full = (ks_last_full st = None \<or> rebaseline_due (cf_rebaseline cf) st);
          (since, deleted_paths, changed_paths) = manifest_request (cf_rebaseline cf) current st
      in case write_cas_manifest sha since deleted_paths changed_paths (hv_at_write v)
                (ks_cas st) (ks_cache st) of
           (Inl e, cas, cache) \<Rightarrow>
             (HostError (''checkpoint failed: '' @ err_text e), st\<lparr>ks_cas := cas, ks_cache := cache\<rparr>)
         | (Inr (manifest, chain_bytes), cas, cache) \<Rightarrow>
             let st1 = st\<lparr>ks_cas := cas, ks_cache := cache\<rparr> in
             if any_file_newer_than (hv_at_check v) (hv_marker_ns v)
             then (HostError ''checkpoint failed: filesystem changed during checkpoint'',
                   st1\<lparr>ks_manifests := dpop name (ks_manifests st1)\<rparr>)
             else
               (HostCheckpoint \<lparr>hc_name = name, hc_is_full = is_full, hc_since_ns = since,
                   hc_rebaseline = rebaseline_due (cf_rebaseline cf) st, hc_chain_bytes = chain_bytes\<rparr>,
                note_checkpoint is_full (Some (hv_marker_ns v)) chain_bytes current
                  (st1\<lparr>ks_manifests := dput name manifest (ks_manifests st1)\<rparr>)))"

definition nothing_changed :: "(string \<times> snapshot_entry) list \<Rightarrow> checkpoint_state \<Rightarrow> bool" where
  "nothing_changed current st =
     (case ks_snapshot st of
        None \<Rightarrow> False
      | Some prev \<Rightarrow> ks_last_incremental st \<noteq> None \<and> compute_checkpoint_changed_paths prev current = []
                   \<and> compute_deleted_paths (Some prev) current = [])"

definition checkpoint_host ::
    "(string \<Rightarrow> string) \<Rightarrow> checkpoint_config \<Rightarrow> string \<Rightarrow> host_view \<Rightarrow> checkpoint_state \<Rightarrow>
     host_result \<times> checkpoint_state" where
  "checkpoint_host sha cf tool_call_id v st =
     (if \<not> hv_is_dir v then (HostError ''checkpoint root is unavailable'', st)
      else if cf_root_label cf \<noteq> ''/testbed'' then (HostError ''unsupported checkpoint root'', st)
      else case snapshot_checkpoint_entries (hv_at_snapshot v) of
        Inl e \<Rightarrow> (HostError (''checkpoint failed: '' @ err_text e), st)
      | Inr current \<Rightarrow>
          if nothing_changed current st then (HostSkipped, st)
          else write_host_checkpoint sha cf tool_call_id v current st)"

text \<open>\<open>_checkpoint_container_after_tool\<close>: the same decision, the capture itself is
  \<open>run_container_checkpoint\<close>.\<close>

definition checkpoint_container_after_tool ::
    "(string \<Rightarrow> string) \<Rightarrow> checkpoint_config \<Rightarrow> string \<Rightarrow> container_view \<Rightarrow> checkpoint_state \<Rightarrow>
     checkpoint_result \<times> checkpoint_state" where
  "checkpoint_container_after_tool sha cf tool_call_id cv st =
     (let is_first = (ks_last_full st = None);
          force_full = rebaseline_due (cf_rebaseline cf) st;
          since = (if is_first \<or> force_full then None else ks_last_incremental st);
          name = sanitize_checkpoint_name tool_call_id @ ''-manifest.json''
      in case run_container_checkpoint sha cv (ks_cas st) name since (ks_snapshot st) force_full of
           (CkError m, cas) \<Rightarrow> (CkError m, st\<lparr>ks_cas := cas\<rparr>)
         | (CkSkipped, cas) \<Rightarrow> (CkSkipped, st\<lparr>ks_cas := cas\<rparr>)
         | (CkOk ok, cas) \<Rightarrow>
             (CkOk ok, note_checkpoint (ck_is_full ok) (Some (ck_now_ns ok)) (ck_chain_bytes ok)
                (ck_current_snapshot ok)
                (st\<lparr>ks_cas := cas, ks_manifests := dput name (ck_manifest ok) (ks_manifests st)\<rparr>)))"

datatype after_tool = NoCheckpoint | OnHost host_result | InContainer checkpoint_result

definition checkpoint_after_tool ::
    "(string \<Rightarrow> string) \<Rightarrow> checkpoint_config \<Rightarrow> string \<Rightarrow> string \<Rightarrow> string \<Rightarrow> host_view + container_view \<Rightarrow>
     checkpoint_state \<Rightarrow> after_tool \<times> checkpoint_state" where
  "checkpoint_after_tool sha cf tool_call_id tool_name tool_args_json view st =
     (if cf_root cf = None \<or> cf_dir cf = None then (NoCheckpoint, st)
      else if single_exec_command_args tool_name tool_args_json = None then (NoCheckpoint, st)
      else case view of
        Inr cv \<Rightarrow> (case checkpoint_container_after_tool sha cf tool_call_id cv st of
                    (r, st') \<Rightarrow> (InContainer r, st'))
      | Inl v \<Rightarrow> (case checkpoint_host sha cf tool_call_id v st of (r, st') \<Rightarrow> (OnHost r, st')))"

subsection \<open>Lemmas: the walk\<close>

text \<open>A directory tree: the names in a directory are distinct, not empty and without a slash.\<close>

fun fs_ok :: "fs \<Rightarrow> bool" where
  "fs_ok (FsDir mtime listed children) =
     (distinct (map fst children)
      \<and> list_all (\<lambda>(name, e). name \<noteq> [] \<and> CHR 0x2F \<notin> set name \<and> fs_ok e) children)"
| "fs_ok _ = True"

lemma child_path_nonempty [simp]: "name \<noteq> [] \<Longrightarrow> child_path dir name \<noteq> []"
  by (simp add: child_path_def)

text \<open>The name of the child of a directory that a path below it goes through.\<close>

definition first_name :: "string \<Rightarrow> string \<Rightarrow> string" where
  "first_name dir p = takeWhile (\<lambda>c. c \<noteq> CHR 0x2F) (drop (if dir = [] then 0 else length dir + 1) p)"

lemma first_name_child:
  "CHR 0x2F \<notin> set name \<Longrightarrow> first_name dir (child_path dir name) = name"
  "CHR 0x2F \<notin> set name \<Longrightarrow> first_name dir (child_path dir name @ CHR 0x2F # r) = name"
proof -
  assume n: "CHR 0x2F \<notin> set name"
  have "takeWhile (\<lambda>c. c \<noteq> CHR 0x2F) name = name" "takeWhile (\<lambda>c. c \<noteq> CHR 0x2F) (name @ CHR 0x2F # r) = name"
    using n by (auto simp: takeWhile_tail intro!: takeWhile_eq_all_conv [THEN iffD2])
  then show "first_name dir (child_path dir name) = name"
    "first_name dir (child_path dir name @ CHR 0x2F # r) = name"
    by (simp_all add: first_name_def child_path_def)
qed

definition dir_links :: "(string \<times> fs) list \<Rightarrow> (string \<times> fs) list" where
  "dir_links children = sort_key fst (filter (\<lambda>(name, e). is_dir_link e \<and> name \<notin> checkpoint_skip_dirs) children)"

definition dir_files :: "(string \<times> fs) list \<Rightarrow> (string \<times> fs) list" where
  "dir_files children = sort_key fst (filter (\<lambda>(name, e). \<not> is_fs_dir e \<and> \<not> is_dir_link e) children)"

definition dir_below :: "string \<Rightarrow> (string \<times> fs) list \<Rightarrow> (string \<times> (string \<times> fs) list \<times> bool) list" where
  "dir_below dir children = sort_key fst (concat (map (\<lambda>(name, e).
     if is_fs_dir e \<and> name \<notin> checkpoint_skip_dirs
     then [(name, walk_tree (child_path dir name) e)] else []) children))"

lemma walk_tree_dir:
  "walk_tree dir (FsDir mtime True children) =
     (map (\<lambda>(name, e). (child_path dir name, e)) (dir_links children)
        @ (if dir = [] then [] else [(dir, FsDir mtime True [])])
        @ map (\<lambda>(name, e). (child_path dir name, e)) (dir_files children)
        @ concat (map (\<lambda>(name, w). fst w) (dir_below dir children)),
      list_ex (\<lambda>(name, w). snd w) (dir_below dir children))"
proof -
  let ?keep = "\<lambda>(name, e). (is_fs_dir e \<or> is_dir_link e) \<longrightarrow> name \<notin> checkpoint_skip_dirs"
  have "is_dir_link e \<Longrightarrow> \<not> is_fs_dir e" for e by (cases e) auto
  then have "filter (\<lambda>(name, e). is_dir_link e) (filter ?keep children)
      = filter (\<lambda>(name, e). is_dir_link e \<and> name \<notin> checkpoint_skip_dirs) children"
    "filter (\<lambda>(name, e). \<not> is_fs_dir e \<and> \<not> is_dir_link e) (filter ?keep children)
      = filter (\<lambda>(name, e). \<not> is_fs_dir e \<and> \<not> is_dir_link e) children"
    by (induction children) auto
  then show ?thesis by (simp only: walk_tree.simps Let_def dir_links_def dir_files_def dir_below_def if_False not_True_eq_False)
qed

lemma dir_below_mem:
  "(name, w) \<in> set (dir_below dir children) \<longleftrightarrow>
     (\<exists>e. (name, e) \<in> set children \<and> is_fs_dir e \<and> name \<notin> checkpoint_skip_dirs
        \<and> w = walk_tree (child_path dir name) e)"
  by (auto simp: dir_below_def)

lemma walk_induct [case_names Dir Leaf]:
  assumes "\<And>dir mtime listed children.
      (\<And>name e. (name, e) \<in> set children \<Longrightarrow> P (child_path dir name) e) \<Longrightarrow> P dir (FsDir mtime listed children)"
    and "\<And>dir e. \<not> is_fs_dir e \<Longrightarrow> P dir e"
  shows "P dir t"
proof (induction t arbitrary: dir)
  case (FsDir mtime listed children)
  show ?case by (intro assms(1) FsDir) (assumption, simp)
qed (use assms(2) in auto)

lemma walk_tree_leaf: "\<not> is_fs_dir e \<Longrightarrow> fst (walk_tree dir e) = []"
  by (cases e) auto

lemma walk_tree_below:
  "p \<in> fst ` set (fst (walk_tree dir t)) \<Longrightarrow> dir \<noteq> [] \<Longrightarrow> p = dir \<or> (\<exists>r. p = dir @ CHR 0x2F # r)"
proof (induction dir t rule: walk_induct)
  case (Dir dir mtime listed children)
  show ?case
  proof (cases "p = dir \<or> (\<exists>n. p = child_path dir n)")
    case True
    then show ?thesis using Dir(3) by (auto simp: child_path_def)
  next
    case False
    have l: "listed" using Dir(2) by (auto split: if_splits)
    obtain name w where w: "(name, w) \<in> set (dir_below dir children)" "p \<in> fst ` set (fst w)"
    proof -
      obtain q where "(p, q) \<in> set (fst (walk_tree dir (FsDir mtime True children)))" using Dir(2) l by force
      then show ?thesis using that False unfolding walk_tree_dir by (auto split: if_splits) force+
    qed
    then obtain e where e: "(name, e) \<in> set children" "is_fs_dir e" "name \<notin> checkpoint_skip_dirs"
      "p \<in> fst ` set (fst (walk_tree (child_path dir name) e))"
      by (auto simp: dir_below_mem)
    then show ?thesis using Dir(1) [OF e(1) e(4)] \<open>listed\<close> Dir(3) by (auto simp: child_path_def)
  qed
qed (simp add: walk_tree_leaf)

lemma distinct_concat_keyed:
  assumes "distinct (map fst bs)"
    and "\<And>n w. (n, w) \<in> set bs \<Longrightarrow> distinct (map f w) \<and> (\<forall>x \<in> set w. g (f x) = n)"
  shows "distinct (map f (concat (map snd bs)))"
  using assms
proof (induction bs)
  case (Cons b bs)
  obtain n w where b: "b = (n, w)" by force
  have "g y = n" if "y \<in> f ` set w" for y using that Cons.prems(2) [of n w] b by auto
  moreover have "g y \<in> fst ` set bs" if "y \<in> f ` set (concat (map snd bs))" for y
  proof -
    obtain m v x where "(m, v) \<in> set bs" "x \<in> set v" "y = f x" using \<open>y \<in> _\<close> by force
    then show ?thesis using Cons.prems(2) [of m v] by force
  qed
  moreover have "n \<notin> fst ` set bs" using Cons.prems(1) b by simp
  ultimately have "f ` set w \<inter> f ` set (concat (map snd bs)) = {}" by blast
  moreover have "distinct (map f (concat (map snd bs)))"
    using Cons.prems by (intro Cons.IH) auto
  moreover have "distinct (map f w)" using Cons.prems(2) [of n w] b by simp
  ultimately show ?case using b by simp
qed simp

lemma disjoint_keys: "key ` A \<subseteq> A' \<Longrightarrow> key ` B \<subseteq> B' \<Longrightarrow> A' \<inter> B' = {} \<Longrightarrow> A \<inter> B = {}"
  by blast

lemma dict_ok_append: "dict_ok (xs @ ys) \<longleftrightarrow> dict_ok xs \<and> dict_ok ys \<and> fst ` set xs \<inter> fst ` set ys = {}"
  by auto

lemma keyed_map:
  assumes "distinct (map fst xs)" and "\<And>n e. (n, e) \<in> set xs \<Longrightarrow> key (c n) = n"
  shows "dict_ok (map (\<lambda>(n, e). (c n, e)) xs) \<and> key ` fst ` set (map (\<lambda>(n, e). (c n, e)) xs) = fst ` set xs"
  using assms
proof (induction xs)
  case (Cons x xs)
  obtain n e where x: "x = (n, e)" by force
  have pre: "distinct (map fst xs)" "\<And>n e. (n, e) \<in> set xs \<Longrightarrow> key (c n) = n"
    using Cons.prems by auto
  have ih: "dict_ok (map (\<lambda>(n, e). (c n, e)) xs)"
    "key ` fst ` set (map (\<lambda>(n, e). (c n, e)) xs) = fst ` set xs"
    using Cons.IH pre by blast+
  have "c n \<notin> fst ` set (map (\<lambda>(n, e). (c n, e)) xs)"
  proof
    assume "c n \<in> fst ` set (map (\<lambda>(n, e). (c n, e)) xs)"
    then have "key (c n) \<in> fst ` set xs" using ih(2) by blast
    then show False using Cons.prems(1) Cons.prems(2) [of n e] x by simp
  qed
  then show ?case using ih Cons.prems(2) [of n e] x by (simp add: image_image)
qed simp

lemma walk_tree_distinct: "fs_ok t \<Longrightarrow> dict_ok (fst (walk_tree dir t))"
proof (induction dir t rule: walk_induct)
  case (Dir dir mtime listed children)
  show ?case
  proof (cases listed)
    case True
    have names: "distinct (map fst children)"
      and ch: "\<And>n e. (n, e) \<in> set children \<Longrightarrow> n \<noteq> [] \<and> CHR 0x2F \<notin> set n \<and> fs_ok e"
      using Dir(2) by (auto simp: list_all_iff)
    have inj: "e = e'" if "(n, e) \<in> set children" "(n, e') \<in> set children" for n e e'
      using names that by (metis eq_key_imp_eq_value)
    let ?L = "dir_links children" and ?F = "dir_files children" and ?B = "dir_below dir children"
    have kind: "is_dir_link e \<Longrightarrow> \<not> is_fs_dir e" for e by (cases e) auto
    have L: "distinct (map fst ?L)" and F: "distinct (map fst ?F)"
      using names by (auto simp: dir_links_def dir_files_def distinct_map_filter)
    have B: "distinct (map fst ?B)"
    proof -
      have "map fst (concat (map (\<lambda>(name, e). if is_fs_dir e \<and> name \<notin> checkpoint_skip_dirs
          then [(name, walk_tree (child_path dir name) e)] else []) xs))
        = map fst (filter (\<lambda>(name, e). is_fs_dir e \<and> name \<notin> checkpoint_skip_dirs) xs)" for xs
        by (induction xs) (auto split: if_splits)
      then show ?thesis using names by (simp add: dir_below_def distinct_map_filter)
    qed
    have Lk: "(n, e) \<in> set ?L \<Longrightarrow> (n, e) \<in> set children \<and> is_dir_link e"
      and Fk: "(n, e) \<in> set ?F \<Longrightarrow> (n, e) \<in> set children \<and> \<not> is_fs_dir e \<and> \<not> is_dir_link e" for n e
      by (auto simp: dir_links_def dir_files_def)
    define key where "key = first_name dir"
    have key: "key (child_path dir n) = n" "child_path dir n \<noteq> dir" if "(n, e) \<in> set children" for n e
      using ch [OF that] first_name_child(1) [of n dir] by (auto simp: key_def) (auto simp: child_path_def split: if_splits)
    have sub: "dict_ok (fst w) \<and> (\<forall>x \<in> set (fst w). key (fst x) = n \<and> fst x \<noteq> dir)" if nw: "(n, w) \<in> set ?B" for n w
    proof -
      obtain e where e: "(n, e) \<in> set children" "is_fs_dir e" "n \<notin> checkpoint_skip_dirs"
        "w = walk_tree (child_path dir n) e" using nw by (auto simp: dir_below_mem)
      have "dict_ok (fst w)" using Dir(1) [OF e(1)] True ch [OF e(1)] e(2-4) by auto
      moreover have "key (fst x) = n \<and> fst x \<noteq> dir" if "x \<in> set (fst w)" for x
        using walk_tree_below [of "fst x" "child_path dir n" e] that ch [OF e(1)] e(4)
        by (auto simp: key_def first_name_child) (auto simp: child_path_def split: if_splits)
      ultimately show ?thesis by blast
    qed
    let ?c = "map (\<lambda>(name, e). (child_path dir name, e))" and ?b = "concat (map (\<lambda>(name, w). fst w) ?B)"
    have b: "dict_ok ?b"
      using distinct_concat_keyed [of "map (\<lambda>(n, w). (n, fst w)) ?B" fst key] B sub
      by (force simp: o_def split_def)
    have kL: "key (child_path dir n) = n" if "(n, e) \<in> set ?L" for n e
      using Lk [OF that] key(1) by blast
    have kF: "key (child_path dir n) = n" if "(n, e) \<in> set ?F" for n e
      using Fk [OF that] key(1) by blast
    have cL: "dict_ok (?c ?L)" "key ` fst ` set (?c ?L) \<subseteq> fst ` set ?L"
      and cF: "dict_ok (?c ?F)" "key ` fst ` set (?c ?F) \<subseteq> fst ` set ?F"
      using keyed_map [where key = key and c = "child_path dir", OF L] kL
          keyed_map [where key = key and c = "child_path dir", OF F] kF by (simp_all del: map_map set_map)
    have cB: "key ` fst ` set ?b \<subseteq> fst ` set ?B"
    proof
      fix k assume "k \<in> key ` fst ` set ?b"
      then obtain n w x where "(n, w) \<in> set ?B" "x \<in> set (fst w)" "k = key (fst x)" by auto
      then show "k \<in> fst ` set ?B" using sub [of n w] by force
    qed
    have LF: "fst ` set ?L \<inter> fst ` set ?F = {}"
    proof -
      have False if "(n, e) \<in> set ?L" "(n, e') \<in> set ?F" for n e e'
        using Lk [OF that(1)] Fk [OF that(2)] inj by blast
      then show ?thesis by auto
    qed
    have nB: "\<exists>e. (n, e) \<in> set children \<and> is_fs_dir e" if "n \<in> fst ` set ?B" for n
      using that by (auto simp: dir_below_mem)
    have nL: "\<exists>e. (n, e) \<in> set children \<and> \<not> is_fs_dir e" if "n \<in> fst ` set ?L \<or> n \<in> fst ` set ?F" for n
      using that
    proof
      assume "n \<in> fst ` set ?L"
      then obtain e where "(n, e) \<in> set ?L" by auto
      then show ?thesis using Lk kind by blast
    next
      assume "n \<in> fst ` set ?F"
      then obtain e where "(n, e) \<in> set ?F" by auto
      then show ?thesis using Fk by blast
    qed
    have LB: "fst ` set ?L \<inter> fst ` set ?B = {}" and FB: "fst ` set ?F \<inter> fst ` set ?B = {}"
      using nB nL inj by (metis disjoint_iff)+
    note disj = disjoint_keys [OF cL(2) cF(2) LF] disjoint_keys [OF cL(2) cB LB] disjoint_keys [OF cF(2) cB FB]
    have d: "dir \<notin> fst ` set (?c ?L)" "dir \<notin> fst ` set (?c ?F)" "dir \<notin> fst ` set ?b"
    proof -
      show "dir \<notin> fst ` set (?c ?L)" using Lk key(2) by (auto simp: image_iff) metis
      show "dir \<notin> fst ` set (?c ?F)" using Fk key(2) by (auto simp: image_iff) metis
      show "dir \<notin> fst ` set ?b" using sub by fastforce
    qed
    have "dict_ok (?c ?L @ (if dir = [] then [] else [(dir, FsDir mtime True [])]) @ ?c ?F @ ?b)"
      unfolding dict_ok_append using b cL(1) cF(1) disj d by (simp add: image_Un Int_Un_distrib del: map_map)
    then show ?thesis using True by (simp only: walk_tree_dir fst_conv)
  qed simp
qed (simp add: walk_tree_leaf)

subsection \<open>Lemmas: the snapshot and the writer\<close>

abbreviation walked :: "fs \<Rightarrow> (string \<times> fs) list" where
  "walked base \<equiv> fst (walk_tree [] base)"

text \<open>An entry of the walk as the snapshot script of a container reports it.\<close>

fun fs_node :: "fs \<Rightarrow> node" where
  "fs_node (FsFile content mode _ _ _) = NFile content mode"
| "fs_node (FsLink target _ _ _ _) = NLink target"
| "fs_node _ = NDir"

definition fs_stat :: "fs \<Rightarrow> stat_node" where
  "fs_stat e = \<lparr>sn_node = fs_node e, sn_size = fst (fs_size_mtime e), sn_mtime = snd (fs_size_mtime e)\<rparr>"

definition walk_stats :: "fs \<Rightarrow> tree" where
  "walk_stats base = map (\<lambda>(p, e). (p, fs_stat e)) (walked base)"

lemma snapshot_one_eq:
  "snapshot_one (p, e) entries = Inr entries' \<Longrightarrow> entries' = dput p (stat_entry (fs_stat e)) entries"
  by (cases e)
    (auto simp: snapshot_one_def checkpoint_entry_type_def checkpoint_snapshot_entry_def stat_entry_def
      fs_stat_def supported_entry_type_def split: if_splits)

lemma snapshot_entries_eq:
  assumes "fs_ok base" "snapshot_checkpoint_entries base = Inr current"
  shows "current = map (\<lambda>(p, st). (p, stat_entry st)) (walk_stats base)"
proof -
  have loop: "current = acc @ map (\<lambda>(p, e). (p, stat_entry (fs_stat e))) walk"
    if "rfold snapshot_one walk acc = Inr current" "dict_ok (acc @ walk')" "map fst walk' = map fst walk"
    for walk :: "(string \<times> fs) list" and walk' acc
    using that
  proof (induction walk arbitrary: acc walk')
    case (Cons x walk)
    obtain p e where x: "x = (p, e)" by force
    obtain v ys where w: "walk' = (p, v) # ys" "map fst ys = map fst walk"
      using Cons.prems(3) x by (cases walk') auto
    obtain acc1 where a: "snapshot_one (p, e) acc = Inr acc1" "rfold snapshot_one walk acc1 = Inr current"
      using Cons.prems(1) x by (auto simp: rbind_eq_Inr)
    have "acc1 = acc @ [(p, stat_entry (fs_stat e))]"
      using snapshot_one_eq [OF a(1)] Cons.prems(2) w by (simp add: dput_new)
    then show ?case using Cons.IH [OF a(2), of ys] Cons.prems(2) w x by auto
  qed simp
  have d: "dict_ok (walked base)" by (rule walk_tree_distinct [OF assms(1)])
  have "rfold snapshot_one (walked base) [] = Inr current"
    using assms(2) by (auto simp: snapshot_checkpoint_entries_def rbind_eq_Inr split: prod.splits if_splits)
  then have "current = map (\<lambda>(p, e). (p, stat_entry (fs_stat e))) (walked base)"
    using loop [of "walked base" "[]" "map (\<lambda>(p, e). (p, stat_entry (fs_stat e))) (walked base)"] d
    by (auto simp: o_def split_def)
  then show ?thesis by (simp add: walk_stats_def o_def split_def)
qed

text \<open>A cached digest is that of the content a file still has at that size and time.\<close>

definition cache_ok :: "(string \<Rightarrow> string) \<Rightarrow> hash_cache \<Rightarrow> (string \<times> fs) list \<Rightarrow> bool" where
  "cache_ok sha cache walk \<longleftrightarrow>
     (\<forall>p content mode sz mtime readable d.
        (p, FsFile content mode sz mtime readable) \<in> set walk \<longrightarrow> dget cache p = Some (sz, mtime, d) \<longrightarrow> d = sha content)"

fun selected :: "int option \<Rightarrow> string list option \<Rightarrow> string \<times> fs \<Rightarrow> bool" where
  "selected since changed (p, FsFile _ _ _ mtime _) = (\<not> left_out since changed p mtime)"
| "selected since changed (p, FsLink _ _ mtime _ _) = (\<not> left_out since changed p mtime)"
| "selected since changed (p, _) = False"

definition manifest_entry :: "(string \<Rightarrow> string) \<Rightarrow> fs \<Rightarrow> pyval" where
  "manifest_entry sha e = PDict (changed_value sha (fs_stat e))"

definition blob_stored :: "(string \<Rightarrow> string) \<Rightarrow> cas_store \<Rightarrow> fs \<Rightarrow> bool" where
  "blob_stored sha cas e = (case e of FsFile content _ _ _ _ \<Rightarrow> sha content \<in> dom cas | _ \<Rightarrow> True)"

lemma blob_stored_mono: "blob_stored sha cas e \<Longrightarrow> cas \<subseteq>\<^sub>m cas' \<Longrightarrow> blob_stored sha cas' e"
  by (auto simp: blob_stored_def split: fs.splits dest: map_le_implies_dom_le)

lemma file_digest_ok:
  assumes "file_digest sha p content sz mtime readable w = (r, w')"
    and "(p, FsFile content mode sz mtime readable) \<in> set walk" "dict_ok walk"
    and "cache_ok sha (wr_cache w) walk"
  shows "wr_cas w' = wr_cas w \<and> wr_entries w' = wr_entries w \<and> cache_ok sha (wr_cache w') walk
     \<and> (\<forall>d b. r = Inr (d, b) \<longrightarrow> d = sha content \<and> (b = None \<or> b = Some content))"
proof -
  have upd: "cache_ok sha (dput p (sz, mtime, sha content) (wr_cache w)) walk"
    using assms(2-4) by (auto simp: cache_ok_def dict.get_put split: if_splits dest: eq_key_imp_eq_value)
  have hit: "d = sha content" if "dget (wr_cache w) p = Some (sz, mtime, d)" for d
    using assms(2,4) that unfolding cache_ok_def by blast
  show ?thesis
    using assms(1,4) upd hit
    by (auto simp: file_digest_def sm_defs split: option.splits if_splits)
qed

lemma write_one_ok:
  assumes "write_one sha since changed (p, e) w = (r, w')" and "(p, e) \<in> set walk" "dict_ok walk"
    and "cas_sound sha (wr_cas w)" "cache_ok sha (wr_cache w) walk"
  shows "wr_cas w \<subseteq>\<^sub>m wr_cas w' \<and> cas_sound sha (wr_cas w') \<and> cache_ok sha (wr_cache w') walk
     \<and> (r = Inr () \<longrightarrow> (if selected since changed (p, e)
          then wr_entries w' = dput p (manifest_entry sha e) (wr_entries w) \<and> blob_stored sha (wr_cas w') e
          else wr_entries w' = wr_entries w))"
proof (cases "\<exists>content mode sz mtime readable. e = FsFile content mode sz mtime readable
    \<and> \<not> left_out since changed p mtime")
  case True
  then obtain content mode sz mtime readable where e: "e = FsFile content mode sz mtime readable"
    "\<not> left_out since changed p mtime" by blast
  obtain rd w1 where d: "file_digest sha p content sz mtime readable w = (rd, w1)" by force
  have d1: "wr_cas w1 = wr_cas w" "wr_entries w1 = wr_entries w" "cache_ok sha (wr_cache w1) walk"
    and rd: "\<And>d b. rd = Inr (d, b) \<Longrightarrow> d = sha content \<and> (b = None \<or> b = Some content)"
    using file_digest_ok [OF d assms(2) [unfolded e(1)] assms(3,5)] by auto
  have m: "manifest_entry sha e = PDict [(''hash'', PStr (sha content)), (''mode'', PInt (s_imode mode)),
      (''size'', PInt sz), (''mtime_ns'', PInt mtime)]"
    by (simp add: manifest_entry_def changed_value_def fs_stat_def e(1))
  have w: "write_one sha since changed (p, e) w = (case (rd, w1) of (Inl x, s) \<Rightarrow> (Inl x, s)
      | (Inr (digest, file_bytes), s) \<Rightarrow> sbind (store_blob digest content sz readable file_bytes)
          (\<lambda>_. smod (wr_entries_update (dput p (PDict
             [(''hash'', PStr digest), (''mode'', PInt (s_imode mode)), (''size'', PInt sz),
              (''mtime_ns'', PInt mtime)])))) s)"
    using d e by (simp add: write_one_def sbind_def slift_def checkpoint_entry_type_def supported_entry_type_def
        split: sum.splits prod.splits)
  show ?thesis
  proof (cases rd)
    case (Inl x)
    then show ?thesis using assms(1,4) w d1 by auto
  next
    case (Inr db)
    then obtain b where db: "db = (sha content, b)" "b = None \<or> b = Some content" using rd by (cases db) auto
    show ?thesis using assms(1,4) d1 db(2) e
      unfolding w Inr db(1)
      by (auto simp: store_blob_def sm_defs m [unfolded e(1)] blob_stored_def cas_sound_def map_le_def split: option.splits if_splits)
  qed
next
  case False
  then show ?thesis using assms(1,4,5)
    by (cases e) (auto simp: write_one_def sm_defs checkpoint_entry_type_def supported_entry_type_def manifest_entry_def
        changed_value_def fs_stat_def blob_stored_def split: if_splits)
qed

lemma write_loop_ok:
  assumes "sfor (write_one sha since changed) ys w = (r, w')" and "set ys \<subseteq> set walk" "dict_ok walk"
    and "cas_sound sha (wr_cas w)" "cache_ok sha (wr_cache w) walk"
  shows "wr_cas w \<subseteq>\<^sub>m wr_cas w' \<and> cas_sound sha (wr_cas w') \<and> cache_ok sha (wr_cache w') walk
     \<and> (r = Inr () \<longrightarrow> wr_entries w' = dupdate (wr_entries w)
            (map (\<lambda>(p, e). (p, manifest_entry sha e)) (filter (selected since changed) ys))
          \<and> (\<forall>x \<in> set ys. selected since changed x \<longrightarrow> blob_stored sha (wr_cas w') (snd x)))"
  using assms
proof (induction ys arbitrary: w)
  case (Cons y ys)
  obtain p e where y: "y = (p, e)" by force
  obtain r1 w1 where one: "write_one sha since changed (p, e) w = (r1, w1)" by force
  have step: "wr_cas w \<subseteq>\<^sub>m wr_cas w1" "cas_sound sha (wr_cas w1)" "cache_ok sha (wr_cache w1) walk"
    "r1 = Inr () \<longrightarrow> (if selected since changed (p, e)
          then wr_entries w1 = dput p (manifest_entry sha e) (wr_entries w) \<and> blob_stored sha (wr_cas w1) e
          else wr_entries w1 = wr_entries w)"
    using write_one_ok [OF one _ Cons.prems(3-5)] Cons.prems(2) y by auto
  show ?case
  proof (cases r1)
    case (Inl x)
    then show ?thesis using Cons.prems(1) step one y by (auto simp: sbind_def)
  next
    case (Inr u)
    then have rest: "sfor (write_one sha since changed) ys w1 = (r, w')"
      using Cons.prems(1) one y by (simp add: sbind_def)
    note ih = Cons.IH [OF rest _ Cons.prems(3) step(2,3)]
    then show ?thesis using step Inr Cons.prems(2) y
      by (auto simp: dupdate_def intro: map_le_trans blob_stored_mono)
  qed
qed (simp add: sret_def dupdate_def)

lemma host_manifest_written:
  assumes "fs_ok base" and "cas_sound sha cas" and "cache_ok sha cache (walked base)"
    and "write_cas_manifest sha since deleted changed base cas cache = (r, cas', cache')"
  shows "cas \<subseteq>\<^sub>m cas' \<and> cas_sound sha cas' \<and> cache_ok sha cache' (walked base)
     \<and> (\<forall>m n. r = Inr (m, n) \<longrightarrow>
          (\<exists>es del. m = [(''entries'', PDict es), del] \<and> dict_ok es
            \<and> (\<forall>p. dget es p = (case dget (walked base) p of None \<Rightarrow> None
                 | Some e \<Rightarrow> if selected since changed (p, e) then Some (manifest_entry sha e) else None))
            \<and> (\<forall>(p, e) \<in> set (walked base). selected since changed (p, e) \<longrightarrow> blob_stored sha cas' e)))"
proof -
  have d: "dict_ok (walked base)" by (rule walk_tree_distinct [OF assms(1)])
  let ?w0 = "\<lparr>wr_cas = cas, wr_cache = cache, wr_entries = [], wr_bytes = 0\<rparr>"
  obtain r1 w1 where loop: "sfor (write_one sha since changed) (walked base) ?w0 = (r1, w1)" by force
  have l: "cas \<subseteq>\<^sub>m wr_cas w1" "cas_sound sha (wr_cas w1)" "cache_ok sha (wr_cache w1) (walked base)"
    and ok: "r1 = Inr () \<Longrightarrow> wr_entries w1 = dupdate []
          (map (\<lambda>(p, e). (p, manifest_entry sha e)) (filter (selected since changed) (walked base)))
        \<and> (\<forall>x \<in> set (walked base). selected since changed x \<longrightarrow> blob_stored sha (wr_cas w1) (snd x))"
    using write_loop_ok [OF loop subset_refl d] assms(2,3) by auto
  let ?es = "map (\<lambda>(p, e). (p, manifest_entry sha e)) (filter (selected since changed) (walked base))"
  have des: "dict_ok ?es" using d by (simp add: o_def split_def distinct_map_filter)
  have es: "dget (dupdate [] ?es) p = (case dget (walked base) p of None \<Rightarrow> None
      | Some e \<Rightarrow> if selected since changed (p, e) then Some (manifest_entry sha e) else None)" for p
    using des d by (auto simp: dget_dupdate dget_map_values dget_filter split: option.splits)
  have w: "write_walk sha since changed base ?w0 =
      (case r1 of Inl x \<Rightarrow> (Inl x, w1) | Inr _ \<Rightarrow> (if snd (walk_tree [] base) then Inl walk_failed else Inr (), w1))"
    using loop by (simp add: write_walk_def Let_def sbind_def sraise_def sret_def split_def split: sum.splits)
  show ?thesis
  proof (cases "r1 = Inr () \<and> \<not> snd (walk_tree [] base)")
    case True
    then have "r = Inr ([(''entries'', PDict (wr_entries w1)),
                 (''deleted_paths'', PList (map PStr
                    (sort (filter (\<lambda>p. \<not> checkpoint_relpath_is_skipped p) deleted))))], wr_bytes w1)"
      "cas' = wr_cas w1" "cache' = wr_cache w1"
      using assms(4) w by (auto simp: write_cas_manifest_def)
    then show ?thesis using l ok es True by (auto simp: split_def)
  next
    case False
    then have "\<exists>x. r = Inl x" "cas' = wr_cas w1" "cache' = wr_cache w1"
      using assms(4) w by (auto simp: write_cas_manifest_def split: sum.splits if_splits)
    then show ?thesis using l by auto
  qed
qed

text \<open>C24: The host writer keeps the store sound: blobs are only added, each under the digest of
  its content, and the hash cache stays right, also when the write fails; a manifest that is
  written has exactly the selected files and links, each with its own digest, mode, size and
  time, and every file it lists has its blob.\<close>

theorem host_manifest_is_sound:
  assumes "fs_ok base" and "cas_sound sha cas" and "cache_ok sha cache (walked base)"
    and "write_cas_manifest sha since deleted changed base cas cache = (r, cas', cache')"
  shows "cas \<subseteq>\<^sub>m cas' \<and> cas_sound sha cas' \<and> cache_ok sha cache' (walked base)
     \<and> (\<forall>m n. r = Inr (m, n) \<longrightarrow>
          (\<exists>es del. m = [(''entries'', PDict es), del] \<and> dict_ok es
            \<and> (\<forall>p. dget es p = (case dget (walked base) p of None \<Rightarrow> None
                 | Some e \<Rightarrow> if selected since changed (p, e) then Some (manifest_entry sha e) else None))
            \<and> (\<forall>(p, e) \<in> set (walked base). selected since changed (p, e) \<longrightarrow> blob_stored sha cas' e)))"
  using host_manifest_written [OF assms] .

subsection \<open>The chain of checkpoints\<close>

text \<open>What the recorder knows together: the three records of the last checkpoint are set at
  once, and nothing is counted before the first.\<close>

definition checkpoint_inv :: "checkpoint_state \<Rightarrow> bool" where
  "checkpoint_inv st \<longleftrightarrow>
     (ks_last_full st = None \<longleftrightarrow> ks_snapshot st = None) \<and>
     (ks_last_incremental st = None \<longleftrightarrow> ks_snapshot st = None)
     \<and> (ks_last_full st = None \<longrightarrow> ks_chain_bytes st = 0)"

text \<open>The kinds of written checkpoints: a full one, or an incremental one with its bytes. Their
  contract: an incremental checkpoint needs a full one before it and a chain below the limit;
  a full one is written first and when the chain has reached the limit, and starts a chain.\<close>

datatype ckpt_kind = FullCkpt | IncCkpt int

fun chain_step :: "int option \<Rightarrow> int option \<Rightarrow> ckpt_kind \<Rightarrow> int option option" where
  "chain_step limit chain FullCkpt =
     (case chain of
        None \<Rightarrow> Some (Some 0)
      | Some n \<Rightarrow> (case limit of None \<Rightarrow> None | Some l \<Rightarrow> if n \<ge> l then Some (Some 0) else None))"
| "chain_step limit chain (IncCkpt b) =
     (case chain of
        None \<Rightarrow> None
      | Some n \<Rightarrow> (case limit of None \<Rightarrow> Some (Some (n + b))
                  | Some l \<Rightarrow> if n \<ge> l then None else Some (Some (n + b))))"

fun chain_accepts :: "int option \<Rightarrow> int option \<Rightarrow> ckpt_kind list \<Rightarrow> bool" where
  "chain_accepts limit chain [] = True"
| "chain_accepts limit chain (k # ks) =
     (case chain_step limit chain k of None \<Rightarrow> False | Some chain' \<Rightarrow> chain_accepts limit chain' ks)"

definition chain_of :: "checkpoint_state \<Rightarrow> int option" where
  "chain_of st = (if ks_last_full st = None then None else Some (ks_chain_bytes st))"

fun kinds_of :: "after_tool \<Rightarrow> ckpt_kind list" where
  "kinds_of NoCheckpoint = []"
| "kinds_of (OnHost (HostCheckpoint hc)) = [if hc_is_full hc then FullCkpt else IncCkpt (hc_chain_bytes hc)]"
| "kinds_of (OnHost _) = []"
| "kinds_of (InContainer (CkOk ok)) = [if ck_is_full ok then FullCkpt else IncCkpt (ck_chain_bytes ok)]"
| "kinds_of (InContainer _) = []"

text \<open>A run of the recorder over tool calls: identifier, tool, arguments and what the checkpoint
  finds.\<close>

fun run_checkpoints ::
    "(string \<Rightarrow> string) \<Rightarrow> checkpoint_config \<Rightarrow>
     (string \<times> string \<times> string \<times> (host_view + container_view)) list \<Rightarrow>
     checkpoint_state \<Rightarrow> after_tool list \<times> checkpoint_state" where
  "run_checkpoints sha cf [] st = ([], st)"
| "run_checkpoints sha cf ((call_id, tool, args, view) # calls) st =
     (case checkpoint_after_tool sha cf call_id tool args view st of
        (r, st1) \<Rightarrow> (case run_checkpoints sha cf calls st1 of (rs, st2) \<Rightarrow> (r # rs, st2)))"

lemma checkpoint_ok_is_full:
  assumes "run_container_checkpoint sha cv cas name since prev force_full = (CkOk ok, cas')"
  shows "ck_is_full ok = (prev = None \<or> force_full)"
  using assms by (auto simp: run_container_checkpoint_def Let_def split: sum.splits prod.splits if_splits option.splits)

lemma checkpoint_host_step:
  assumes "checkpoint_inv st" and "checkpoint_host sha cf call_id v st = (r, st')"
  shows "checkpoint_inv st' \<and>
     (case kinds_of (OnHost r) of [] \<Rightarrow> chain_of st' = chain_of st
      | k # _ \<Rightarrow> chain_step (cf_rebaseline cf) (chain_of st) k = Some (chain_of st'))"
proof (cases r)
  case (HostCheckpoint hc)
  have "hc_is_full hc = (ks_last_full st = None \<or> rebaseline_due (cf_rebaseline cf) st)
      \<and> ks_last_incremental st' = Some (hv_marker_ns v) \<and> ks_snapshot st' \<noteq> None
      \<and> (if hc_is_full hc then ks_last_full st' = Some (hv_marker_ns v) \<and> ks_chain_bytes st' = 0
         else ks_last_full st' = ks_last_full st \<and> ks_chain_bytes st' = ks_chain_bytes st + hc_chain_bytes hc)"
    using assms(2) unfolding checkpoint_host_def write_host_checkpoint_def Let_def HostCheckpoint
    by (auto simp: note_checkpoint_def split: sum.splits prod.splits if_split_asm)
  then show ?thesis using assms(1)
    by (auto simp: HostCheckpoint checkpoint_inv_def rebaseline_due_def chain_of_def
        split: option.splits if_splits)
next
  case (HostError e)
  then have "ks_last_full st' = ks_last_full st \<and> ks_last_incremental st' = ks_last_incremental st
      \<and> ks_snapshot st' = ks_snapshot st \<and> ks_chain_bytes st' = ks_chain_bytes st"
    using assms(2) unfolding checkpoint_host_def write_host_checkpoint_def Let_def
    by (auto split: sum.splits prod.splits if_split_asm)
  then show ?thesis using assms(1) by (simp add: HostError checkpoint_inv_def chain_of_def)
next
  case HostSkipped
  then have "st' = st" using assms(2) unfolding checkpoint_host_def write_host_checkpoint_def Let_def
    by (auto split: sum.splits prod.splits if_split_asm)
  then show ?thesis using assms(1) by (simp add: HostSkipped)
qed

lemma checkpoint_container_step:
  assumes "checkpoint_inv st" and "checkpoint_container_after_tool sha cf call_id cv st = (r, st')"
  shows "checkpoint_inv st' \<and>
     (case kinds_of (InContainer r) of [] \<Rightarrow> chain_of st' = chain_of st
      | k # _ \<Rightarrow> chain_step (cf_rebaseline cf) (chain_of st) k = Some (chain_of st'))"
proof -
  obtain r' cas where run: "run_container_checkpoint sha cv (ks_cas st)
      (sanitize_checkpoint_name call_id @ ''-manifest.json'')
      (if ks_last_full st = None \<or> rebaseline_due (cf_rebaseline cf) st then None else ks_last_incremental st)
      (ks_snapshot st) (rebaseline_due (cf_rebaseline cf) st) = (r', cas)" by force
  show ?thesis
  proof (cases r')
    case (CkOk ok)
    then show ?thesis using assms checkpoint_ok_is_full [OF run [unfolded CkOk]] run
      by (auto simp: checkpoint_container_after_tool_def Let_def checkpoint_inv_def note_checkpoint_def
          rebaseline_due_def chain_of_def split: option.splits if_splits)
  qed (use assms run in \<open>auto simp: checkpoint_container_after_tool_def Let_def checkpoint_inv_def chain_of_def\<close>)
qed

lemma checkpoint_after_tool_step:
  assumes "checkpoint_inv st" and "checkpoint_after_tool sha cf call_id tool args view st = (r, st')"
  shows "checkpoint_inv st' \<and>
     (case kinds_of r of [] \<Rightarrow> chain_of st' = chain_of st
      | k # _ \<Rightarrow> chain_step (cf_rebaseline cf) (chain_of st) k = Some (chain_of st'))"
  using assms checkpoint_host_step [OF assms(1)] checkpoint_container_step [OF assms(1)]
  unfolding checkpoint_after_tool_def
  by (auto split: sum.splits prod.splits if_split_asm)

lemma run_checkpoints_chain:
  assumes "checkpoint_inv st" and "run_checkpoints sha cf calls st = (rs, st')"
  shows "chain_accepts (cf_rebaseline cf) (chain_of st) (concat (map kinds_of rs)) \<and> checkpoint_inv st'"
  using assms
proof (induction calls arbitrary: st rs)
  case (Cons c calls)
  obtain call_id tool args view where c: "c = (call_id, tool, args, view)" by (metis surj_pair)
  obtain r st1 where r: "checkpoint_after_tool sha cf call_id tool args view st = (r, st1)" by force
  obtain rs1 st2 where rs1: "run_checkpoints sha cf calls st1 = (rs1, st2)" by force
  have rs: "rs = r # rs1" "st' = st2" using Cons.prems(2) c r rs1 by auto
  note step = checkpoint_after_tool_step [OF Cons.prems(1) r]
  then have ih: "chain_accepts (cf_rebaseline cf) (chain_of st1) (concat (map kinds_of rs1)) \<and> checkpoint_inv st2"
    using Cons.IH rs1 rs(2) by blast
  have "kinds_of r = [] \<or> (\<exists>k. kinds_of r = [k])"
    by (cases r rule: kinds_of.cases) auto
  then show ?case using step ih rs by auto
qed simp

text \<open>C25: Whatever tool calls a run makes and whatever their checkpoints find or fail at, the
  checkpoints it writes form chains: an incremental one always follows a full one, and only
  while the bytes of its chain are below the limit; once they reach it the next is full.\<close>

theorem checkpoints_form_chains:
  "chain_accepts (cf_rebaseline cf) None
     (concat (map kinds_of (fst (run_checkpoints sha cf calls (initial_checkpoint_state cas)))))"
proof -
  obtain rs st where r: "run_checkpoints sha cf calls (initial_checkpoint_state cas) = (rs, st)" by force
  have "checkpoint_inv (initial_checkpoint_state cas)" "chain_of (initial_checkpoint_state cas) = None"
    by (simp_all add: checkpoint_inv_def initial_checkpoint_state_def chain_of_def)
  then show ?thesis using run_checkpoints_chain [OF _ r] r by simp
qed

subsection \<open>Host and container checkpoints\<close>

fun manifest_dict :: "pydict \<Rightarrow> string \<Rightarrow> pydict" where
  "manifest_dict m k = (case pget m k of PDict d \<Rightarrow> d | _ \<Rightarrow> [])"

lemma changed_paths_mem:
  "p \<in> set (compute_checkpoint_changed_paths prev (map (\<lambda>(p, st). (p, stat_entry st)) (walk_stats base))) \<longleftrightarrow>
     (\<exists>e. (p, e) \<in> set (walked base) \<and> fs_node e \<noteq> NDir
        \<and> checkpoint_entry_requires_manifest (dget prev p) (stat_entry (fs_stat e)))"
  by (force simp: compute_checkpoint_changed_paths_def walk_stats_def stat_entry_def fs_stat_def)

lemma selected_iff:
  "selected since changed (p, e) \<longleftrightarrow>
     fs_node e \<noteq> NDir \<and> \<not> left_out since changed p (snd (fs_size_mtime e))"
  by (cases e) auto

lemma walk_stats_ok: "fs_ok base \<Longrightarrow> dict_ok (walk_stats base)"
  using walk_tree_distinct [of base "[]"] by (simp add: walk_stats_def o_def split_def)

lemma dget_walk_stats: "dget (walk_stats base) p = map_option fs_stat (dget (walked base) p)"
  by (simp add: walk_stats_def dget_map_values)

text \<open>A successful container checkpoint of a tree, written out.\<close>

lemma container_checkpoint_manifest:
  assumes "run_container_checkpoint sha cv cas name since prev force_full = (CkOk ok, cas')"
    and "cv_walk cv = Inr walk" "dict_ok walk"
  shows "ck_current_snapshot ok = map (\<lambda>(p, st). (p, stat_entry st)) walk
     \<and> ck_is_full ok = (prev = None \<or> force_full)
     \<and> pget (ck_manifest ok) ''deleted_paths'' = PList (map PStr
         (sort (filter (\<lambda>p. \<not> checkpoint_relpath_is_skipped p)
            (compute_deleted_paths prev (map (\<lambda>(p, st). (p, stat_entry st)) walk)))))
     \<and> (\<forall>p. dget (manifest_dict (ck_manifest ok) ''entries'') p =
         (if checkpoint_relpath_is_skipped p then None else
          case dget walk p of None \<Rightarrow> None
          | Some st \<Rightarrow>
              if sn_node st \<noteq> NDir
                 \<and> checkpoint_entry_requires_manifest
                     (dget (if force_full then [] else case prev of None \<Rightarrow> [] | Some p \<Rightarrow> p) p) (stat_entry st)
              then Some (PDict (changed_value sha st)) else None))"
proof -
  define sprev where "sprev = (if force_full then [] else case prev of None \<Rightarrow> [] | Some p \<Rightarrow> p)"
  obtain entries changed where snap: "run_snapshot sha sprev walk = (entries, changed)" by force
  have en: "entries = map (\<lambda>(p, st). (p, stat_entry st)) walk"
    using snap run_snapshot_eq [OF assms(3)] by simp
  let ?missing = "missing_blob_paths cas changed" and ?del = "compute_deleted_paths prev entries"
  obtain blobs m n where b: "verify_blobs sha changed blobs ?missing = None"
    and w: "write_container_manifest sha cas changed ?del blobs = Inr (m, cas', n)"
    and ok: "ck_manifest ok = m" "ck_current_snapshot ok = entries" "ck_is_full ok = (prev = None \<or> force_full)"
    using assms(1) unfolding run_container_checkpoint_def assms(2) sprev_def [symmetric] snap Let_def
    by (auto simp: snap split: sum.splits option.splits if_split_asm)
  have ch: "dict_ok changed" "changes_ok sha changed"
    using snapshot_changed_ok [OF assms(3) snap] changed_changes_ok [OF assms(3) snap] by auto
  obtain es where m: "m = [(''entries'', PDict es), (''deleted_paths'', PList (map PStr
              (sort (filter (\<lambda>p. \<not> checkpoint_relpath_is_skipped p) ?del))))]"
    and es: "\<And>p. dget es p = (if checkpoint_relpath_is_skipped p then None else map_option PDict (dget changed p))"
    by (rule write_manifest_ok [OF ch verify_blobs_cover [OF ch b], of ?del]) (use w in auto)
  show ?thesis
    unfolding sprev_def [symmetric] using ok es
    by (auto simp: m en pget_def snapshot_changed_dget [OF assms(3) snap] split: option.splits)
qed


subsection \<open>Examples\<close>

definition example_dir :: fs where
  "example_dir = FsDir 5 True
     [(''b'', FsLink ''a'' 1 10 True False),
      (''sub'', FsDir 7 True [(''x'', FsFile ''ex'' 420 2 11 True)]),
      (''.git'', FsDir 9 True [(''HEAD'', FsFile ''ref'' 420 3 9 True)]),
      (''a'', FsFile ''one'' 420 3 10 True)]"

lemma example_walk:
  "walk_tree [] example_dir =
     ([(''a'', FsFile ''one'' 420 3 10 True), (''b'', FsLink ''a'' 1 10 True False),
       (''sub'', FsDir 7 True []), (''sub/x'', FsFile ''ex'' 420 2 11 True)], False)"
  by code_simp

lemma example_dir_ok: "fs_ok example_dir"
  by code_simp

lemma empty_ok: "cas_sound sha Map.empty" "cache_ok sha [] walk"
  by (simp_all add: cas_sound_def cache_ok_def)

definition example_write :: "(pydict \<times> int) res \<times> cas_store \<times> hash_cache" where
  "example_write = write_cas_manifest id None [] None example_dir Map.empty []"

definition example_entries :: pydict where
  "example_entries =
     [(''a'', PDict [(''hash'', PStr ''one''), (''mode'', PInt 420), (''size'', PInt 3), (''mtime_ns'', PInt 10)]),
      (''b'', PDict [(''type'', PStr ''symlink''), (''target'', PStr ''a'')]),
      (''sub/x'', PDict [(''hash'', PStr ''ex''), (''mode'', PInt 420), (''size'', PInt 2), (''mtime_ns'', PInt 11)])]"

lemma example_write_eq:
  "example_write =
     (Inr ([(''entries'', PDict example_entries), (''deleted_paths'', PList [])], 5),
      [''one'' \<mapsto> ''one'', ''ex'' \<mapsto> ''ex''], [(''a'', 3, 10, ''one''), (''sub/x'', 2, 11, ''ex'')])"
  by (simp add: example_write_def write_cas_manifest_def write_walk_def example_walk example_entries_def sm_defs
      write_one_def checkpoint_entry_type_def supported_entry_type_def left_out_def file_digest_def store_blob_def
      s_imode_def)

theorem host_manifest_is_sound_witness:
  "fst example_write = Inr ([(''entries'', PDict example_entries), (''deleted_paths'', PList [])], 5)
     \<and> cas_sound id (fst (snd example_write)) \<and> cache_ok id (snd (snd example_write)) (walked example_dir)"
proof -
  have w: "write_cas_manifest id None [] None example_dir Map.empty [] =
      (fst example_write, fst (snd example_write), snd (snd example_write))"
    by (simp add: example_write_def)
  show ?thesis
    using host_manifest_is_sound [OF example_dir_ok empty_ok w] by (simp add: example_write_eq)
qed

definition example_host_view :: host_view where
  "example_host_view = \<lparr>hv_is_dir = True, hv_marker_ns = 50, hv_at_snapshot = example_dir,
     hv_at_write = example_dir, hv_at_check = example_dir\<rparr>"

definition example_cont_view :: container_view where
  "example_cont_view = \<lparr>cv_probe = Inr (), cv_walk = Inr (walk_stats example_dir), cv_now_ns = 50,
     cv_changed_during_walk = False, cv_fetch = (\<lambda>_. Inr [(''a'', ''one''), (''sub/x'', ''ex'')])\<rparr>"

definition example_config :: checkpoint_config where
  "example_config = \<lparr>cf_root = Some ''/testbed'', cf_dir = Some ''/run/checkpoints'', cf_root_label = ''/testbed'',
     cf_rebaseline = None\<rparr>"

definition example_host_run :: "host_result \<times> checkpoint_state" where
  "example_host_run = checkpoint_host id example_config ''call 1'' example_host_view (initial_checkpoint_state Map.empty)"

definition example_cont_run :: "checkpoint_result \<times> checkpoint_state" where
  "example_cont_run =
     checkpoint_container_after_tool id example_config ''call 1'' example_cont_view (initial_checkpoint_state Map.empty)"

lemma example_host_run_eq: "\<exists>hc. fst example_host_run = HostCheckpoint hc \<and> hc_is_full hc \<and> \<not> hc_rebaseline hc
   \<and> dget (ks_manifests (snd example_host_run)) (hc_name hc) = Some [(''entries'', PDict example_entries), (''deleted_paths'', PList [])]"
proof -
  have s: "\<exists>c. snapshot_checkpoint_entries example_dir = Inr c"
    by (simp add: snapshot_checkpoint_entries_def example_walk snapshot_one_def checkpoint_entry_type_def supported_entry_type_def)
  have n: "\<not> any_file_newer_than example_dir 50" by code_simp
  show ?thesis
    using s n example_write_eq
    by (auto simp: example_host_run_def checkpoint_host_def example_host_view_def example_config_def
        initial_checkpoint_state_def nothing_changed_def write_host_checkpoint_def manifest_request_def
        rebaseline_due_def example_write_def note_checkpoint_def Let_def)
qed

lemma example_cont_run_ok: "case fst example_cont_run of CkOk ok \<Rightarrow> True | _ \<Rightarrow> False"
  by code_simp


end
