(* ===== verification/CommandPolicy.thy ===== *)
theory CommandPolicy
  imports PyJson
begin

text \<open>
  The prediction whether a tool call needs a checkpoint
  (\<open>src/trace_collect/predictive_policy.py\<close>): the words of a command as \<open>shlex\<close> splits it, the
  family of a command by its first words, and the schedule of a checkpoint from the family and
  the probe of the file system. The words are split by the state machine of \<open>shlex\<close> in POSIX mode
  without comments; \<open>shell_quote\<close> is \<open>shlex.quote\<close>, which the container file tools use.
\<close>

subsection \<open>Shell words\<close>

text \<open>Outside a word, in a word, between quotes, after a backslash in a word or between quotes.\<close>

datatype shell_state = ShOutside | ShWord | ShQuote char | ShEscape "char option"

definition shell_space :: "char \<Rightarrow> bool" where
  "shell_space c \<longleftrightarrow> cc c \<in> {32, 9, 13, 10}"

definition shell_quote_char :: "char \<Rightarrow> bool" where
  "shell_quote_char c \<longleftrightarrow> cc c \<in> {39, 34}"

definition is_backslash :: "char \<Rightarrow> bool" where
  "is_backslash c \<longleftrightarrow> cc c = 92"

text \<open>The words of the rest of a text; \<open>None\<close> is an open quotation or a lone backslash. The word
  read so far is kept in reverse.\<close>

fun shell_words :: "shell_state \<Rightarrow> string \<Rightarrow> string \<Rightarrow> string list option" where
  "shell_words ShOutside w [] = Some []"
| "shell_words ShWord w [] = Some [rev w]"
| "shell_words (ShQuote q) w [] = None"
| "shell_words (ShEscape q) w [] = None"
| "shell_words ShOutside w (c # s) =
     (if shell_space c then shell_words ShOutside [] s
      else if is_backslash c then shell_words (ShEscape None) [] s
      else if shell_quote_char c then shell_words (ShQuote c) [] s
      else shell_words ShWord [c] s)"
| "shell_words ShWord w (c # s) =
     (if shell_space c then map_option ((#) (rev w)) (shell_words ShOutside [] s)
      else if shell_quote_char c then shell_words (ShQuote c) w s
      else if is_backslash c then shell_words (ShEscape None) w s
      else shell_words ShWord (c # w) s)"
| "shell_words (ShQuote q) w (c # s) =
     (if c = q then shell_words ShWord w s
      else if is_backslash c \<and> cc q = 34 then shell_words (ShEscape (Some q)) w s
      else shell_words (ShQuote q) (c # w) s)"
| "shell_words (ShEscape back) w (c # s) =
     (case back of
        None \<Rightarrow> shell_words ShWord (c # w) s
      | Some q \<Rightarrow>
          if \<not> is_backslash c \<and> c \<noteq> q then shell_words (ShQuote q) (c # CHR 0x5C # w) s
          else shell_words (ShQuote q) (c # w) s)"

definition split_command :: "string \<Rightarrow> string list" where
  "split_command command = (case shell_words ShOutside [] command of None \<Rightarrow> [] | Some ws \<Rightarrow> ws)"

text \<open>\<open>shlex.quote\<close>: a text of safe characters as it is, any other between single quotes, its own
  single quotes between double quotes.\<close>

definition shell_safe :: "char \<Rightarrow> bool" where
  "shell_safe c \<longleftrightarrow> 97 \<le> cc c \<and> cc c \<le> 122 \<or> 65 \<le> cc c \<and> cc c \<le> 90 \<or> 48 \<le> cc c \<and> cc c \<le> 57
     \<or> c \<in> set ''@%+=:,./-_''"

definition quote_one :: "char \<Rightarrow> string" where
  "quote_one c = (if cc c = 39 then [c, CHR 0x22, c, CHR 0x22, c] else [c])"

definition shell_quote :: "string \<Rightarrow> string" where
  "shell_quote s =
     (if s = [] then [CHR 0x27, CHR 0x27]
      else if list_all shell_safe s then s
      else [CHR 0x27] @ concat (map quote_one s) @ [CHR 0x27])"

subsection \<open>Families of commands\<close>

datatype command_family = ReadOnly | FlakyRead | Mutating | UnknownFamily

datatype checkpoint_schedule = DeferredSkip | ImmediateCapture | AwaitPrediction

definition read_only_commands :: "string list" where
  "read_only_commands =
     [''ls'', ''cat'', ''grep'', ''find'', ''head'', ''tail'', ''wc'', ''sort'', ''uniq'', ''echo'', ''which'', ''file'',
      ''stat'', ''du'', ''df'', ''date'', ''pwd'', ''env'', ''printenv'', ''type'', ''dirname'', ''basename'', ''realpath'']"

definition mutating_commands :: "string list" where
  "mutating_commands =
     [''pip'', ''pip3'', ''npm'', ''cargo'', ''apt'', ''apt-get'', ''make'', ''cmake'', ''mv'', ''chmod'', ''chown'',
      ''mkdir'', ''rmdir'', ''touch'']"

definition has_short_option :: "string list \<Rightarrow> string \<Rightarrow> bool" where
  "has_short_option tokens opt =
     list_ex (\<lambda>token. let normalized = lower token in
        token = ''-'' @ opt
        \<or> starts_with ''-'' normalized \<and> \<not> starts_with ''--'' normalized \<and> contains opt (drop 1 normalized)) tokens"

definition tar_operations :: "string" where
  "tar_operations = ''xctru''"

definition has_tar_extract_option :: "string list \<Rightarrow> bool" where
  "has_tar_extract_option tokens =
     list_ex (\<lambda>token. let normalized = lower token in
        normalized = ''--extract''
        \<or> starts_with ''-'' normalized \<and> contains ''x'' (drop 1 normalized)
        \<or> \<not> starts_with ''-'' normalized \<and> contains ''x'' normalized \<and> length normalized \<le> 5
          \<and> list_all py_alpha normalized \<and> (case normalized of c # _ \<Rightarrow> c \<in> set tar_operations | [] \<Rightarrow> False)) tokens"

definition classify_git :: "string list \<Rightarrow> command_family" where
  "classify_git tokens =
     (case tokens of
        git # subcommand # _ \<Rightarrow>
          if subcommand \<in> set [''status'', ''diff'', ''log''] then ReadOnly
          else if subcommand \<in> set [''clone'', ''apply'', ''commit'', ''push'', ''add'', ''merge''] then Mutating
          else UnknownFamily
      | _ \<Rightarrow> UnknownFamily)"

definition classify_command :: "string \<Rightarrow> command_family" where
  "classify_command command =
     (case split_command command of
        [] \<Rightarrow> UnknownFamily
      | first # rest \<Rightarrow>
          if first \<in> set read_only_commands then ReadOnly
          else if first = ''git'' then classify_git (first # rest)
          else if first \<in> set mutating_commands then Mutating
          else if first = ''rm'' \<and> has_short_option rest ''r'' then Mutating
          else if first = ''cp'' \<and> has_short_option rest ''r'' then Mutating
          else if first = ''tar'' \<and> has_tar_extract_option rest then Mutating
          else if first = ''ln'' \<and> has_short_option rest ''s'' then Mutating
          else UnknownFamily)"

definition command_payload :: "pydict \<Rightarrow> pydict" where
  "command_payload parsed =
     (case pget parsed ''exec'' of
        PDict e \<Rightarrow> e
      | _ \<Rightarrow> (case parsed of [(_, PDict d)] \<Rightarrow> d | _ \<Rightarrow> parsed))"

definition command_from_tool_args :: "string option \<Rightarrow> string option" where
  "command_from_tool_args tool_args_json =
     (case tool_args_json of
        None \<Rightarrow> None
      | Some [] \<Rightarrow> None
      | Some args \<Rightarrow>
          (case json_loads args of
             Some (PDict parsed) \<Rightarrow>
               (let payload = command_payload parsed;
                    first = (case pget payload ''commands'' of
                       PList (PStr f # _) \<Rightarrow> if strip f \<noteq> [] then Some f else None
                     | _ \<Rightarrow> None)
                in case pget payload ''command'' of
                     PStr command \<Rightarrow> if strip command \<noteq> [] then Some command else first
                   | _ \<Rightarrow> first)
           | _ \<Rightarrow> None))"

definition classify_tool_result :: "string option \<Rightarrow> string option \<Rightarrow> command_family" where
  "classify_tool_result tool_name tool_args_json =
     (let name = strip (case tool_name of None \<Rightarrow> [] | Some n \<Rightarrow> n) in
      if name = ''read_file'' then ReadOnly
      else if name \<in> set [''web_search'', ''web_fetch''] then FlakyRead
      else if name \<in> set [''write_file'', ''edit_file'', ''spawn''] then Mutating
      else case command_from_tool_args tool_args_json of
        None \<Rightarrow> UnknownFamily
      | Some command \<Rightarrow> classify_command command)"

definition needs_checkpoint :: "command_family \<Rightarrow> bool" where
  "needs_checkpoint family \<longleftrightarrow> family \<in> {Mutating, UnknownFamily}"

definition get_checkpoint_schedule ::
    "string option \<Rightarrow> string option \<Rightarrow> string \<Rightarrow> string \<Rightarrow> checkpoint_schedule res" where
  "get_checkpoint_schedule tool_name tool_args_json probe_status backend_type =
     (if backend_type = [] then Inl (ValueError ''backend_type must be non-empty'')
      else
        let probe = lower (strip probe_status) in
        if probe \<in> set [''changed'', ''maybe_changed'', ''initial''] then Inr ImmediateCapture
        else if probe \<noteq> ''unchanged'' then Inl (ValueError ''unsupported probe_status'')
        else if needs_checkpoint (classify_tool_result tool_name tool_args_json) then Inr AwaitPrediction
        else Inr DeferredSkip)"

subsection \<open>Lemmas: quoting\<close>

lemma safe_not_special: "shell_safe c \<Longrightarrow> \<not> shell_space c \<and> \<not> shell_quote_char c \<and> \<not> is_backslash c"
  by (auto simp: shell_safe_def shell_space_def shell_quote_char_def is_backslash_def cc_def)

lemma words_safe:
  "list_all shell_safe s \<Longrightarrow> shell_words ShWord w (s @ r) = shell_words ShWord (rev s @ w) r"
  by (induction s arbitrary: w) (auto dest: safe_not_special)

lemma words_quoted:
  "shell_words (ShQuote CHR 0x27) w (concat (map quote_one s) @ CHR 0x27 # r) = shell_words ShWord (rev s @ w) r"
proof (induction s arbitrary: w)
  case (Cons c s)
  have q: "cc CHR 0x27 = 39" "cc CHR 0x22 = 34" "shell_quote_char CHR 0x27" "shell_quote_char CHR 0x22"
    "\<not> shell_space CHR 0x27" "\<not> shell_space CHR 0x22" "\<not> is_backslash CHR 0x27"
    by (simp_all add: cc_def shell_quote_char_def shell_space_def is_backslash_def)
  show ?case
  proof (cases "cc c = 39")
    case True
    then have "c = CHR 0x27" using q(1) unfolding cc_def by (metis char_of_char)
    then show ?thesis using Cons q by (simp add: quote_one_def)
  next
    case False
    then have "c \<noteq> CHR 0x27" using q(1) by auto
    then show ?thesis using Cons q False by (simp add: quote_one_def)
  qed
qed simp

text \<open>A quoted text is one word for the shell, wherever a word may start.\<close>

lemma shell_quote_word:
  "shell_words ShOutside w (shell_quote s @ r) = shell_words ShWord (rev s) r"
proof -
  have q: "shell_quote_char CHR 0x27" "\<not> shell_space CHR 0x27" "\<not> is_backslash CHR 0x27"
    by (simp_all add: cc_def shell_quote_char_def shell_space_def is_backslash_def)
  consider "s = []" | c t where "s = c # t" "list_all shell_safe s" | "s \<noteq> []" "\<not> list_all shell_safe s"
    by (cases s) auto
  then show ?thesis
  proof cases
    case 2
    then show ?thesis using words_safe [of t "[c]" r] safe_not_special [of c] by (simp add: shell_quote_def)
  next
    case 3
    then have "shell_quote s = CHR 0x27 # concat (map quote_one s) @ [CHR 0x27]" by (simp add: shell_quote_def)
    then show ?thesis using words_quoted [of "[]" s r] q by simp
  qed (use q in \<open>simp add: shell_quote_def\<close>)
qed

text \<open>Quoting is undone by splitting: a command line of quoted arguments is read back as
  exactly these arguments, whatever quotes, spaces or shell characters they contain.\<close>

lemma quoted_arguments_split_back:
  "split_command (join '' '' (map shell_quote args)) = args"
proof -
  have sp: "shell_space CHR '' ''" by (simp add: shell_space_def cc_def)
  have "shell_words ShOutside w (join '' '' (map shell_quote args)) = Some args" for w
  proof (induction args arbitrary: w)
    case (Cons a args)
    show ?case
    proof (cases args)
      case Nil
      then show ?thesis using shell_quote_word [of w a "[]"] by simp
    next
      case (Cons b bs)
      have "join '' '' (map shell_quote (a # args)) = shell_quote a @ CHR '' '' # join '' '' (map shell_quote args)"
        by (simp add: Cons)
      then show ?thesis using shell_quote_word [of w a] Cons.IH sp by (simp add: Cons.IH)
    qed
  qed simp
  then show ?thesis by (simp add: split_command_def)
qed

text \<open>A skip is scheduled only when the probe found nothing changed and the prediction agrees; the
  words after the first do not count, also when they redirect output or chain commands.\<close>

lemma deferred_skip_iff:
  "get_checkpoint_schedule tool args probe backend = Inr DeferredSkip \<longleftrightarrow>
     backend \<noteq> [] \<and> lower (strip probe) = ''unchanged''
     \<and> classify_tool_result tool args \<in> {ReadOnly, FlakyRead}"
proof (cases "classify_tool_result tool args")
qed (auto simp: get_checkpoint_schedule_def needs_checkpoint_def Let_def)

lemma redirection_is_predicted_read_only: "classify_command ''echo hi > f'' = ReadOnly"
  by code_simp

end
