(* ===== verification/TraceRecorder.thy ===== *)
theory TraceRecorder
  imports AgentRunner HostCheckpoint CommandPolicy "HOL-Library.Sublist"
begin

text \<open>
  The recorder of an agent run (\<open>TraceCollectorHook\<close> of
  \<open>src/agents/openclaw/_session_runner.py\<close>, with the trace records of \<open>agents/base.py\<close> and
  \<open>eval/types.py\<close> and the latencies of \<open>trace_collect/latency_metrics.py\<close>). It is called before
  and after every iteration of the agent and before its tools, and writes events, actions and a
  summary as JSON lines.
  The code keeps the \<open>data\<close> dictionary of a record and changes it after the record was added, when
  a deferred checkpoint or the metadata of a provider arrives; the records of the model therefore
  hold the address of their dictionary in an explicit heap. The clock, the checkpoint backend and
  the printers of JSON are operations of an environment; elapsed times of checkpoints are left out.
\<close>

subsection \<open>Latencies\<close>

definition coerce_optional_float :: "pyval \<Rightarrow> rat option" where
  "coerce_optional_float v =
     (if v = PNone \<or> v = PStr [] then None else case py_float v of Inr q \<Rightarrow> Some q | Inl _ \<Rightarrow> None)"

definition get_llm_wall_latency_ms :: "pydict \<Rightarrow> rat" where
  "get_llm_wall_latency_ms data =
     (case coerce_optional_float (pget data ''llm_wall_latency_ms'') of
        Some q \<Rightarrow> q
      | None \<Rightarrow> (case coerce_optional_float (pget data ''llm_latency_ms'') of Some q \<Rightarrow> q | None \<Rightarrow> 0))"

definition get_llm_call_time_ms :: "pydict \<Rightarrow> rat option" where
  "get_llm_call_time_ms data =
     (case coerce_optional_float (pget data ''llm_call_time_ms'') of
        Some q \<Rightarrow> Some q
      | None \<Rightarrow> coerce_optional_float (pget data ''openrouter_generation_time_ms''))"

definition get_openrouter_latency_ms :: "pydict \<Rightarrow> rat option" where
  "get_openrouter_latency_ms data = coerce_optional_float (pget data ''openrouter_latency_ms'')"

definition get_preferred_llm_latency_ms :: "pydict \<Rightarrow> rat" where
  "get_preferred_llm_latency_ms data =
     (case get_llm_call_time_ms data of
        Some q \<Rightarrow> q
      | None \<Rightarrow> (case coerce_optional_float (pget data ''llm_latency_ms'') of
                  Some q \<Rightarrow> q | None \<Rightarrow> get_llm_wall_latency_ms data))"

record llm_latencies =
  lat_total_ms :: rat
  lat_total_wall_ms :: rat
  lat_total_call_ms :: rat
  lat_call_count :: nat
  lat_source :: string

definition timing_sources :: "pydict list \<Rightarrow> string list" where
  "timing_sources records =
     remdups (concat (map (\<lambda>r.
       if get_llm_call_time_ms r = None then []
       else case pget r ''llm_timing_source'' of PStr s \<Rightarrow> if s \<noteq> [] then [s] else [] | _ \<Rightarrow> []) records))"

definition summarize_llm_latencies :: "pydict option list \<Rightarrow> llm_latencies" where
  "summarize_llm_latencies rs =
     (let records = List.map_filter id rs;
          wall = sum_list (map get_llm_wall_latency_ms records);
          times = List.map_filter get_llm_call_time_ms records;
          sources = timing_sources records;
          n = length times
      in if records \<noteq> [] \<and> n = length records then
           \<lparr>lat_total_ms = sum_list times, lat_total_wall_ms = wall, lat_total_call_ms = sum_list times,
            lat_call_count = n, lat_source = (case sources of [s] \<Rightarrow> s | _ \<Rightarrow> ''llm_call_time_ms'')\<rparr>
         else
           \<lparr>lat_total_ms = wall, lat_total_wall_ms = wall, lat_total_call_ms = sum_list times,
            lat_call_count = n,
            lat_source = (if n = 0 then ''wall_clock_ms'' else ''mixed_fallback_to_wall_clock_ms'')\<rparr>)"

subsection \<open>Timing fields of a response\<close>

definition response_extra :: "llm_response option \<Rightarrow> pydict" where
  "response_extra r = (case r of None \<Rightarrow> [] | Some x \<Rightarrow> lr_extra x)"

definition float_of :: "pyval \<Rightarrow> rat option" where
  "float_of v = (if v = PNone then None else case py_float v of Inr q \<Rightarrow> Some q | Inl _ \<Rightarrow> None)"

definition resolve_llm_ts_end :: "llm_response option \<Rightarrow> rat option" where
  "resolve_llm_ts_end r = float_of (pget (response_extra r) ''llm_wall_ts_end'')"

fun first_float :: "pydict \<Rightarrow> string list \<Rightarrow> rat option" where
  "first_float extra [] = None"
| "first_float extra (k # ks) =
     (case float_of (pget extra k) of Some q \<Rightarrow> Some q | None \<Rightarrow> first_float extra ks)"

definition resolve_llm_call_time_ms :: "llm_response option \<Rightarrow> rat \<Rightarrow> rat" where
  "resolve_llm_call_time_ms r wall =
     (case first_float (response_extra r)
             [''llm_call_time_ms'', ''openrouter_generation_time_ms'', ''llm_latency_ms''] of
        Some q \<Rightarrow> q | None \<Rightarrow> wall)"

definition resolve_llm_timing_source :: "llm_response option \<Rightarrow> string" where
  "resolve_llm_timing_source r =
     (case pget (response_extra r) ''llm_timing_source'' of
        PStr (c # s) \<Rightarrow> c # s
      | _ \<Rightarrow> if pget (response_extra r) ''openrouter_generation_time_ms'' \<noteq> PNone
            then ''openrouter_generation_time_ms'' else ''wall_clock_ms'')"

definition trace_llm_keys :: "string list" where
  "trace_llm_keys =
     [''llm_call_time_ms'', ''llm_timing_source'', ''openrouter_generation_id'', ''openrouter_request_id'',
      ''openrouter_latency_ms'', ''openrouter_generation_time_ms'', ''openrouter_moderation_latency_ms'',
      ''openrouter_provider_latency_ms'', ''openrouter_provider_name'', ''openrouter_upstream_id'',
      ''openrouter_created_at'', ''openrouter_api_type'', ''openrouter_metadata_capture_enabled'',
      ''openrouter_metadata_task_pending'', ''openrouter_metadata_retry_delays_s'',
      ''openrouter_metadata_timeout_s'', ''openrouter_metadata_fetch_ms'', ''openrouter_metadata_fetch_status'',
      ''openrouter_metadata_fetch_attempt_count'', ''openrouter_metadata_fetch_status_codes'',
      ''openrouter_metadata_fetch_last_status_code'', ''openrouter_metadata_fetch_last_reason'',
      ''openrouter_metadata_fetch_last_error_type'', ''openrouter_metadata_refetch_attempted'',
      ''openrouter_metadata_refetch_error'', ''openrouter_metadata_initial_fetch_status'',
      ''openrouter_metadata_initial_fetch_ms'', ''openrouter_metadata'']"

definition extract_trace_llm_fields :: "llm_response option \<Rightarrow> pydict" where
  "extract_trace_llm_fields r =
     List.map_filter (\<lambda>k. map_option (Pair k) (dget (response_extra r) k)) trace_llm_keys"

text \<open>\<open>round(x, n)\<close>, halves to even.\<close>

definition round_half_even :: "rat \<Rightarrow> int" where
  "round_half_even q =
     (let f = \<lfloor>q\<rfloor>; r = q - of_int f in
      if r < 1 / 2 then f else if r > 1 / 2 then f + 1 else if even f then f else f + 1)"

definition py_round :: "rat \<Rightarrow> nat \<Rightarrow> pyval" where
  "py_round q n = PFloat (of_int (round_half_even (q * 10 ^ n)) / 10 ^ n)"

subsection \<open>The recorder\<close>

text \<open>A record: a dictionary, or the fields before and after a \<open>data\<close> dictionary in the heap.\<close>

datatype trace_record =
    PlainRecord pydict
  | DataRecord pydict nat pydict

record sandbox_snapshot =
  sb_timestamp_ns :: int
  sb_disk_state :: pydict

text \<open>A capture that was scheduled after a tool call, for the action at an address.\<close>

record pending_capture =
  pc_since :: "sandbox_snapshot option"
  pc_probe_result :: string
  pc_force_full :: bool
  pc_action :: nat
  pc_concurrent :: bool

record pending_llm =
  pl_response :: llm_response
  pl_event :: nat
  pl_action :: nat

record recorder_config =
  tc_agent_id :: string
  tc_instance_id :: string
  tc_task_id :: string
  tc_hook_type :: string
  tc_delta_mode :: bool
  tc_deferred :: bool
  tc_backend_type :: string
  tc_has_sink :: bool
  tc_checkpoint :: checkpoint_config
  tc_in_container :: bool

record 'w recorder =
  rc_world :: 'w
  rc_heap :: "pydict list"
  rc_records :: "trace_record list"
  rc_actions :: "trace_record list"
  rc_lines :: "pydict list"
  rc_sent :: "trace_record list"
  rc_flushed :: bool
  rc_total_tokens :: int
  rc_iterations :: nat
  rc_tool_times :: "(string \<times> rat) list"
  rc_tool_timeouts :: "(string \<times> nat) list"
  rc_tool_start :: "(string \<times> rat) list"
  rc_iter_start :: rat
  rc_before_exec :: rat
  rc_snapshot :: "pydict list option"
  rc_delta :: "pydict list option"
  rc_hashes :: "string list"
  rc_pending_llm :: "pending_llm list"
  rc_checkpoint :: checkpoint_state
  rc_backend_started :: bool
  rc_deferred_snapshot :: "sandbox_snapshot option"
  rc_captures :: "pending_capture list"

text \<open>The environment. A capture returns \<open>None\<close> when the backend hands back the snapshot it was
  given. \<open>re_done\<close> tells whether a capture ended before it was awaited; the times of its
  operations are those of the world.\<close>

record 'w recorder_env =
  re_time :: "'w \<Rightarrow> rat"
  re_monotonic :: "'w \<Rightarrow> rat"
  re_sha :: "string \<Rightarrow> string"
  re_canonical :: "pydict \<Rightarrow> string"
  re_dumps :: "pyval \<Rightarrow> string"
  re_view :: "'w \<Rightarrow> host_view + container_view"
  re_start :: "('w, unit) sm"
  re_probe :: "int \<Rightarrow> ('w, bool) sm"
  re_capture :: "sandbox_snapshot option \<Rightarrow> ('w, sandbox_snapshot option) sm"
  re_done :: "'w \<Rightarrow> bool"
  re_await_task :: "llm_response \<Rightarrow> 'w \<Rightarrow> pydict \<times> 'w"
  re_refetch :: "pydict \<Rightarrow> ('w, pyval) sm"
  re_path :: "string \<Rightarrow> string"
  re_file_size :: "string \<Rightarrow> 'w \<Rightarrow> int"

type_synonym ('w, 'a) rec_m = "('w recorder, 'a) sm"

definition rec_time :: "'w recorder_env \<Rightarrow> ('w, rat) rec_m" where
  "rec_time env = sgets (\<lambda>s. re_time env (rc_world s))"

definition rec_monotonic :: "'w recorder_env \<Rightarrow> ('w, rat) rec_m" where
  "rec_monotonic env = sgets (\<lambda>s. re_monotonic env (rc_world s))"

definition rec_world :: "('w, 'a) sm \<Rightarrow> ('w, 'a) rec_m" where
  "rec_world m = szoom rc_world (\<lambda>w s. s\<lparr>rc_world := w\<rparr>) m"

definition new_data :: "pydict \<Rightarrow> ('w, nat) rec_m" where
  "new_data d = (\<lambda>s. (Inr (length (rc_heap s)), s\<lparr>rc_heap := rc_heap s @ [d]\<rparr>))"

definition update_data :: "nat \<Rightarrow> (pydict \<Rightarrow> pydict) \<Rightarrow> ('w, unit) rec_m" where
  "update_data a f = smod (\<lambda>s. s\<lparr>rc_heap := (rc_heap s)[a := f (rc_heap s ! a)]\<rparr>)"

fun render_record :: "pydict list \<Rightarrow> trace_record \<Rightarrow> pydict" where
  "render_record heap (PlainRecord d) = d"
| "render_record heap (DataRecord pre a post) = pre @ [(''data'', PDict (heap ! a))] @ post"

text \<open>\<open>add_record\<close>: a recorder with a sink passes the record on; otherwise it is written to the
  trace file as it is now, also after the file was closed. \<open>close\<close> writes the file again with
  every record as it is then.\<close>

definition add_record :: "recorder_config \<Rightarrow> trace_record \<Rightarrow> ('w, unit) rec_m" where
  "add_record cf r =
     sbind (smod (\<lambda>s. s\<lparr>rc_records := rc_records s @ [r]\<rparr>)) (\<lambda>_.
       if tc_has_sink cf then smod (\<lambda>s. s\<lparr>rc_sent := rc_sent s @ [r]\<rparr>)
       else smod (\<lambda>s. s\<lparr>rc_lines := rc_lines s @ [render_record (rc_heap s) r]\<rparr>))"

definition close_recorder :: "recorder_config \<Rightarrow> ('w, unit) rec_m" where
  "close_recorder cf =
     smod (\<lambda>s. if rc_flushed s then s
       else if tc_has_sink cf then s\<lparr>rc_flushed := True\<rparr>
       else s\<lparr>rc_lines := map (render_record (rc_heap s)) (rc_records s), rc_flushed := True\<rparr>)"

definition emit_event ::
    "'w recorder_env \<Rightarrow> recorder_config \<Rightarrow> string \<Rightarrow> string \<Rightarrow> pydict \<Rightarrow> nat \<Rightarrow> ('w, nat) rec_m" where
  "emit_event env cf category event data i =
     sbind (rec_time env) (\<lambda>ts.
     sbind (new_data (dput ''hook_type'' (PStr (tc_hook_type cf)) data)) (\<lambda>a.
     sbind (add_record cf (DataRecord
        [(''type'', PStr ''event''), (''agent_id'', PStr (tc_agent_id cf)), (''program_id'', PStr (tc_agent_id cf)),
         (''instance_id'', PStr (tc_instance_id cf)), (''event'', PStr event), (''category'', PStr category)]
        a [(''ts'', PFloat ts), (''iteration'', PInt (int i))])) (\<lambda>_.
     sret a)))"

definition action_record ::
    "recorder_config \<Rightarrow> string \<Rightarrow> string \<Rightarrow> nat \<Rightarrow> rat \<Rightarrow> rat \<Rightarrow> nat \<Rightarrow> trace_record" where
  "action_record cf action_type action_id i ts_start ts_end a =
     DataRecord [(''type'', PStr ''action''), (''action_type'', PStr action_type), (''action_id'', PStr action_id),
        (''agent_id'', PStr (tc_agent_id cf)), (''program_id'', PStr (tc_agent_id cf)),
        (''instance_id'', PStr (tc_instance_id cf)), (''iteration'', PInt (int i)),
        (''ts_start'', PFloat ts_start), (''ts_end'', PFloat ts_end)] a []"

definition write_action :: "recorder_config \<Rightarrow> trace_record \<Rightarrow> ('w, unit) rec_m" where
  "write_action cf r =
     sbind (smod (\<lambda>s. s\<lparr>rc_actions := rc_actions s @ [r]\<rparr>)) (\<lambda>_. add_record cf r)"

subsection \<open>Messages\<close>

text \<open>The messages are JSON values, so that printing and reading them back is a copy.\<close>

definition clone_messages :: "pydict list \<Rightarrow> pydict list option" where
  "clone_messages ms = (if ms = [] then None else Some ms)"

definition message_hash :: "'w recorder_env \<Rightarrow> pydict \<Rightarrow> string" where
  "message_hash env m = re_sha env (re_canonical env m)"

definition messages_delta :: "'w recorder_env \<Rightarrow> pydict list \<Rightarrow> ('w, pydict list) rec_m" where
  "messages_delta env messages =
     sbind (sgets rc_hashes) (\<lambda>previous.
       let current = map (message_hash env) messages in
       if length current < length previous \<or> take (length previous) current \<noteq> previous
       then sraise (ValueError ''message history is not append-only; cannot record messages_delta'')
       else sbind (smod (\<lambda>s. s\<lparr>rc_hashes := current\<rparr>)) (\<lambda>_.
         sret (case clone_messages (drop (length previous) messages) of None \<Rightarrow> [] | Some d \<Rightarrow> d)))"

definition messages_value :: "pydict list option \<Rightarrow> pyval" where
  "messages_value ms = (case ms of None \<Rightarrow> PNone | Some xs \<Rightarrow> PList (map PDict xs))"

definition before_iteration ::
    "'w recorder_env \<Rightarrow> recorder_config \<Rightarrow> hook_context \<Rightarrow> ('w, unit) rec_m" where
  "before_iteration env cf ctx =
     sbind (rec_time env) (\<lambda>now.
     sbind (smod (\<lambda>s. s\<lparr>rc_iter_start := now\<rparr>)) (\<lambda>_.
     sbind
       (if \<not> tc_delta_mode cf then
          sbind (smod (\<lambda>s. s\<lparr>rc_snapshot := clone_messages (hc_messages ctx)\<rparr>)) (\<lambda>_.
            sret [(''messages_in'', messages_value (clone_messages (hc_messages ctx)))])
        else
          sbind (smod (\<lambda>s. s\<lparr>rc_snapshot := None\<rparr>)) (\<lambda>_.
          sbind (messages_delta env (hc_messages ctx)) (\<lambda>delta.
          sbind (smod (\<lambda>s. s\<lparr>rc_delta := Some delta\<rparr>)) (\<lambda>_.
            sret [(''messages_delta'', messages_value (Some delta)), (''is_delta'', PBool True)]))))
       (\<lambda>data.
     sbind (emit_event env cf ''LLM'' ''llm_call_start'' data (hc_iteration ctx)) (\<lambda>_. sret ()))))"

definition iter_messages_payload :: "recorder_config \<Rightarrow> ('w, pydict) rec_m" where
  "iter_messages_payload cf =
     (if \<not> tc_delta_mode cf then sgets (\<lambda>s. [(''messages_in'', messages_value (rc_snapshot s))])
      else sbind (sgets rc_delta) (\<lambda>delta.
        case delta of
          None \<Rightarrow> sraise (RuntimeError ''before_iteration must run before after_iteration in delta mode'')
        | Some d \<Rightarrow> sret [(''messages_delta'', messages_value (Some d)), (''is_delta'', PBool True)]))"

subsection \<open>Deferred checkpoints\<close>

definition ensure_backend :: "'w recorder_env \<Rightarrow> ('w, unit) rec_m" where
  "ensure_backend env =
     sbind (sgets rc_backend_started) (\<lambda>started.
       swhen (\<not> started) (sbind (rec_world (re_start env)) (\<lambda>_.
         smod (\<lambda>s. s\<lparr>rc_backend_started := True\<rparr>))))"

text \<open>The description of a captured snapshot.\<close>

definition checkpoint_after_from_snapshot ::
    "'w recorder_env \<Rightarrow> recorder_config \<Rightarrow> 'w \<Rightarrow> sandbox_snapshot \<Rightarrow> pending_capture \<Rightarrow> pydict res" where
  "checkpoint_after_from_snapshot env cf w snapshot pc =
     (let disk = sb_disk_state snapshot; since = pc_since pc in
      case pget disk ''manifest_path'' of
        PStr (c # rest) \<Rightarrow>
          let path = c # rest;
              kind = (case pget disk ''kind'' of
                  PStr (k # ks) \<Rightarrow> k # ks
                | _ \<Rightarrow> if since = None then ''cas_manifest_full'' else ''cas_manifest_incremental'');
              incremental = truthy (pget_or disk ''incremental'' (PBool (since \<noteq> None)));
              sz = (case pget disk ''size_bytes'' of PInt n \<Rightarrow> n | _ \<Rightarrow> re_file_size env path w)
          in Inr ([(''path'', PStr (re_path env path)), (''kind'', PStr kind), (''root'', PStr (cf_root_label (tc_checkpoint cf))),
              (''incremental'', PBool incremental),
              (''incremental_since_ns'', (case since of None \<Rightarrow> PNone | Some b \<Rightarrow> PInt (sb_timestamp_ns b))),
              (''size_bytes'', PInt sz), (''overhead_excluded'', PBool True), (''probe_result'', PStr (pc_probe_result pc))]
             @ (if pc_force_full pc then [(''rebaseline'', PBool True)] else [])
             @ (case pget disk ''chain_bytes'' of PInt n \<Rightarrow> [(''chain_bytes'', PInt n)] | _ \<Rightarrow> []))
      | _ \<Rightarrow> Inl (ValueError ''checkpoint snapshot missing disk_state.manifest_path''))"

definition record_deferred_snapshot :: "sandbox_snapshot \<Rightarrow> pydict \<Rightarrow> ('w, unit) rec_m" where
  "record_deferred_snapshot snapshot checkpoint_after =
     (if pget checkpoint_after ''skipped'' \<noteq> PNone then sret ()
      else
        let chain_bytes = (case pget_or checkpoint_after ''chain_bytes'' (PInt 0) of PInt n \<Rightarrow> n | _ \<Rightarrow> 0);
            is_full = (pget checkpoint_after ''incremental'' \<noteq> PBool True);
            now = Some (sb_timestamp_ns snapshot)
        in smod (\<lambda>s. s\<lparr>rc_deferred_snapshot := Some snapshot,
             rc_checkpoint := (if is_full
               then (rc_checkpoint s)\<lparr>ks_last_full := now, ks_chain_bytes := 0, ks_last_incremental := now\<rparr>
               else (rc_checkpoint s)\<lparr>ks_chain_bytes := ks_chain_bytes (rc_checkpoint s) + chain_bytes,
                      ks_last_incremental := now\<rparr>)\<rparr>))"

definition error_fields :: "string \<Rightarrow> pydict" where
  "error_fields message = [(''error'', PStr message), (''overhead_excluded'', PBool True)]"

definition skipped_fields :: pydict where
  "skipped_fields = [(''skipped'', PStr ''no filesystem changes since last checkpoint''), (''overhead_excluded'', PBool True)]"

text \<open>The body of the task of a capture: its description and the snapshot that goes with it.\<close>

definition capture_checkpoint_deferred ::
    "'w recorder_env \<Rightarrow> recorder_config \<Rightarrow> pending_capture \<Rightarrow> ('w, pydict \<times> sandbox_snapshot option) rec_m" where
  "capture_checkpoint_deferred env cf pc =
     sbind (sattempt (sbind (ensure_backend env) (\<lambda>_. rec_world (re_capture env (pc_since pc))))) (\<lambda>r.
     case r of
       Inl e \<Rightarrow> sret (error_fields (''checkpoint failed: '' @ err_text e)
                  @ [(''probe_result'', PStr (pc_probe_result pc))], None)
     | Inr None \<Rightarrow>
         (case pc_since pc of
            Some since \<Rightarrow> sret (skipped_fields @ [(''probe_result'', PStr (pc_probe_result pc))], Some since)
          | None \<Rightarrow> sraise (AttributeError ''disk_state''))
     | Inr (Some snapshot) \<Rightarrow>
         sbind (sgets rc_world) (\<lambda>w.
         sbind (slift (checkpoint_after_from_snapshot env cf w snapshot pc)) (\<lambda>fields.
         sret (fields, Some snapshot))))"

definition apply_deferred_result ::
    "pending_capture \<Rightarrow> rat \<Rightarrow> pydict \<times> sandbox_snapshot option \<Rightarrow> ('w, unit) rec_m" where
  "apply_deferred_result pc exposed_ms result =
     (let (checkpoint_after, snapshot) = result; failed = (dget checkpoint_after ''error'' \<noteq> None) in
      sbind (case snapshot of
          Some snap \<Rightarrow> if failed then sret () else record_deferred_snapshot snap checkpoint_after
        | None \<Rightarrow> sret ()) (\<lambda>_.
      update_data (pc_action pc) (\<lambda>data.
        let data1 = dput ''checkpoint_exposed_ms'' (py_round exposed_ms 3) data;
            data2 = dput (if failed then ''checkpoint_after_error'' else ''checkpoint_after'') (PDict checkpoint_after) data1
        in if pc_concurrent pc then dput ''smeared_checkpoint'' (PBool True) data2 else data2)))"

text \<open>A capture that ended before exposes no time; another is waited for.\<close>

definition await_capture :: "'w recorder_env \<Rightarrow> recorder_config \<Rightarrow> pending_capture \<Rightarrow> ('w, unit) rec_m" where
  "await_capture env cf pc =
     sbind (sgets (\<lambda>s. re_done env (rc_world s))) (\<lambda>is_done.
     sbind (rec_monotonic env) (\<lambda>started.
     sbind (capture_checkpoint_deferred env cf pc) (\<lambda>result.
     sbind (rec_monotonic env) (\<lambda>ended.
       apply_deferred_result pc (if is_done then 0 else (ended - started) * 1000) result))))"

definition await_pending_captures :: "'w recorder_env \<Rightarrow> recorder_config \<Rightarrow> ('w, unit) rec_m" where
  "await_pending_captures env cf =
     sbind (sgets rc_captures) (\<lambda>pending.
     sbind (smod (\<lambda>s. s\<lparr>rc_captures := []\<rparr>)) (\<lambda>_.
       sfor (await_capture env cf) pending))"

definition schedule_capture :: "pending_capture \<Rightarrow> ('w, unit) rec_m" where
  "schedule_capture pc = smod (\<lambda>s. s\<lparr>rc_captures := rc_captures s @ [pc]\<rparr>)"

definition schedule_text :: "checkpoint_schedule \<Rightarrow> string" where
  "schedule_text c = (case c of DeferredSkip \<Rightarrow> ''deferred_skip'' | ImmediateCapture \<Rightarrow> ''immediate_capture''
     | AwaitPrediction \<Rightarrow> ''await_prediction'')"

definition unchanged_fields :: "recorder_config \<Rightarrow> string \<Rightarrow> string \<Rightarrow> pydict res" where
  "unchanged_fields cf tool_name tool_args_json =
     rbind (get_checkpoint_schedule (Some tool_name) (Some tool_args_json) ''unchanged'' (tc_backend_type cf)) (\<lambda>c.
       Inr (skipped_fields @ [(''probe_result'', PStr ''unchanged''), (''checkpoint_schedule'', PStr (schedule_text c))]
         @ (case c of
              DeferredSkip \<Rightarrow> [(''checkpoint_decision'', PStr ''predicted_skip_verified'')]
            | AwaitPrediction \<Rightarrow> [(''predicted_checkpoint_skip_disagreement'', PBool True)]
            | ImmediateCapture \<Rightarrow> [])))"

definition checkpoint_after_tool_deferred ::
    "'w recorder_env \<Rightarrow> recorder_config \<Rightarrow> string \<Rightarrow> string \<Rightarrow> nat \<Rightarrow> bool \<Rightarrow> ('w, pydict option) rec_m" where
  "checkpoint_after_tool_deferred env cf tool_name tool_args_json action concurrent =
     (if cf_root (tc_checkpoint cf) = None \<or> cf_dir (tc_checkpoint cf) = None then sret None
      else if single_exec_command_args tool_name tool_args_json = None then sret None
      else
        sbind (await_pending_captures env cf) (\<lambda>_.
        sbind (sgets (\<lambda>s. (rc_deferred_snapshot s, rc_checkpoint s))) (\<lambda>(previous, ks).
        case previous of
          None \<Rightarrow> sbind (schedule_capture \<lparr>pc_since = None, pc_probe_result = ''initial'', pc_force_full = False,
                                       pc_action = action, pc_concurrent = concurrent\<rparr>) (\<lambda>_. sret None)
        | Some snap \<Rightarrow>
            let force_full = (case cf_rebaseline (tc_checkpoint cf) of None \<Rightarrow> False | Some n \<Rightarrow> ks_chain_bytes ks \<ge> n) in
            sbind (sattempt (sbind (ensure_backend env) (\<lambda>_. rec_world (re_probe env (sb_timestamp_ns snap))))) (\<lambda>r.
            case r of
              Inl e \<Rightarrow> sret (Some (error_fields (''checkpoint probe failed: '' @ err_text e)))
            | Inr False \<Rightarrow> sbind (slift (unchanged_fields cf tool_name tool_args_json)) (\<lambda>d. sret (Some d))
            | Inr True \<Rightarrow>
                sbind (schedule_capture \<lparr>pc_since = (if force_full then None else Some snap),
                    pc_probe_result = ''changed'', pc_force_full = force_full, pc_action = action,
                    pc_concurrent = concurrent\<rparr>) (\<lambda>_. sret None)))))"

subsection \<open>Tools\<close>

definition before_execute_tools ::
    "'w recorder_env \<Rightarrow> recorder_config \<Rightarrow> hook_context \<Rightarrow> ('w, unit) rec_m" where
  "before_execute_tools env cf ctx =
     sbind (await_pending_captures env cf) (\<lambda>_.
     sbind (rec_time env) (\<lambda>now.
     sbind (smod (\<lambda>s. s\<lparr>rc_before_exec := now\<rparr>)) (\<lambda>_.
     sfor (\<lambda>tc.
       sbind (rec_monotonic env) (\<lambda>started.
       sbind (smod (\<lambda>s. s\<lparr>rc_tool_start := dput (tc_id tc) started (rc_tool_start s)\<rparr>)) (\<lambda>_.
       sbind (emit_event env cf (if starts_with ''mcp_'' (tc_name tc) then ''MCP'' else ''TOOL'') ''tool_exec_start''
           [(''tool_name'', PStr (tc_name tc)),
            (''args_preview'', PStr (take 200 (re_dumps env (PDict (tc_arguments tc)))))] (hc_iteration ctx))
         (\<lambda>_. sret ())))) (hc_tool_calls ctx))))"

text \<open>The results that end the history: identifier, name, text and whether it reads as a success.\<close>

definition tool_result_of :: "pydict \<Rightarrow> string \<times> string \<times> string \<times> bool" where
  "tool_result_of m =
     (let text = py_str (pget_or m ''content'' (PStr [])) in
      (py_str (pget_or m ''tool_call_id'' (PStr [])), py_str (pget_or m ''name'' (PStr ''unknown'')), text,
       \<not> starts_with ''Error'' text))"

definition extract_tool_results :: "pydict list \<Rightarrow> (string \<times> string \<times> string \<times> bool) list" where
  "extract_tool_results messages =
     rev (map tool_result_of (takeWhile (\<lambda>m. pget m ''role'' = PStr ''tool'') (rev messages)))"

definition structured_tool_result_fields :: "pydict \<Rightarrow> (int \<times> bool) res" where
  "structured_tool_result_fields structured =
     (case pget structured ''returncode'' of
        PInt code \<Rightarrow>
          (case pget structured ''timed_out'' of
             PBool b \<Rightarrow> Inr (code, b)
           | _ \<Rightarrow> Inl (ValueError ''structured timed_out must be boolean''))
      | _ \<Rightarrow> Inl (ValueError ''structured returncode must be int''))"

definition traceable :: "string \<times> string \<times> string \<times> bool \<Rightarrow> bool" where
  "traceable r = (case r of (call_id, name, _, _) \<Rightarrow>
     name \<noteq> ''_invalid_tool_call'' \<and> \<not> starts_with ''malformed_retry_'' call_id)"

subsection \<open>After an iteration\<close>

definition count_of :: "(string \<times> int) list \<Rightarrow> string \<Rightarrow> int" where
  "count_of usage k = (case dget usage k of Some n \<Rightarrow> n | None \<Rightarrow> 0)"

definition raw_tool_call :: "'w recorder_env \<Rightarrow> nat \<Rightarrow> nat \<times> tool_call_request \<Rightarrow> pyval" where
  "raw_tool_call env i p =
     (case p of (idx, tc) \<Rightarrow>
       PDict [(''id'', PStr (''call_'' @ int_str (int i) @ ''_'' @ int_str (int idx))), (''type'', PStr ''function''),
         (''function'', PDict [(''name'', PStr (tc_name tc)),
            (''arguments'', PStr (re_dumps env (PDict (tc_arguments tc))))])])"

definition metadata_fields :: "pydict \<Rightarrow> pydict" where
  "metadata_fields extra =
     (if pget extra ''openrouter_metadata'' \<noteq> PNone then [(''openrouter_metadata'', pget extra ''openrouter_metadata'')] else [])
     @ (if pget extra ''openrouter_generation_id'' \<noteq> PNone
        then [(''openrouter_generation_id'', pget extra ''openrouter_generation_id'')] else [])"

definition build_raw_response :: "'w recorder_env \<Rightarrow> hook_context \<Rightarrow> int \<Rightarrow> int \<Rightarrow> pydict" where
  "build_raw_response env ctx prompt_tokens completion_tokens =
     (let resp = hc_response ctx;
          message = [(''role'', PStr ''assistant''),
              (''content'', (case resp of None \<Rightarrow> PStr []
                 | Some r \<Rightarrow> (case lr_content r of None \<Rightarrow> PNone | Some c \<Rightarrow> PStr c)))]
            @ (case resp of
                 Some r \<Rightarrow> (case lr_reasoning r of Some (c # cs) \<Rightarrow> [(''reasoning_content'', PStr (c # cs))] | _ \<Rightarrow> [])
               | None \<Rightarrow> [])
            @ (if hc_tool_calls ctx = [] then []
               else [(''tool_calls'', PList (map (raw_tool_call env (hc_iteration ctx))
                        (enumerate 0 (hc_tool_calls ctx))))])
      in [(''choices'', PList [PDict [(''message'', PDict message),
            (''finish_reason'', (case resp of None \<Rightarrow> PNone | Some r \<Rightarrow> PStr (lr_finish_reason r)))]]),
          (''usage'', PDict [(''prompt_tokens'', PInt prompt_tokens), (''completion_tokens'', PInt completion_tokens)])]
         @ metadata_fields (response_extra resp))"

definition timing_fields :: "llm_response option \<Rightarrow> rat \<Rightarrow> pydict" where
  "timing_fields resp wall =
     (let t = resolve_llm_call_time_ms resp wall in
      [(''llm_latency_ms'', py_round t 2), (''llm_call_time_ms'', py_round t 2),
       (''llm_wall_latency_ms'', py_round wall 2), (''llm_timing_source'', PStr (resolve_llm_timing_source resp))])"

definition without_metadata :: "pydict \<Rightarrow> pydict" where
  "without_metadata d = filter (\<lambda>p. fst p \<noteq> ''openrouter_metadata'') d"

definition nonzero_or :: "rat option \<Rightarrow> rat \<Rightarrow> rat" where
  "nonzero_or q d = (case q of None \<Rightarrow> d | Some x \<Rightarrow> if x = 0 then d else x)"

definition record_llm_call :: "'w recorder_env \<Rightarrow> recorder_config \<Rightarrow> hook_context \<Rightarrow> ('w, unit) rec_m" where
  "record_llm_call env cf ctx =
     sbind (rec_time env) (\<lambda>ts_now.
     sbind (smod (\<lambda>s. s\<lparr>rc_iterations := rc_iterations s + 1\<rparr>)) (\<lambda>_.
     let prompt = count_of (hc_usage ctx) ''prompt_tokens''; completion = count_of (hc_usage ctx) ''completion_tokens'';
         resp = hc_response ctx; malformed = int (hc_malformed_retry_count ctx);
         fields = extract_trace_llm_fields resp
     in
     sbind (smod (\<lambda>s. s\<lparr>rc_total_tokens := rc_total_tokens s + (prompt + completion)\<rparr>)) (\<lambda>_.
     sbind (sgets (\<lambda>s. (rc_before_exec s, rc_iter_start s))) (\<lambda>(before_exec, started).
     let ts_end = nonzero_or (resolve_llm_ts_end resp) (nonzero_or (Some before_exec) ts_now);
         wall = max 0 ((ts_end - started) * 1000);
         raw = build_raw_response env ctx prompt completion;
         event_data = dupdate
           ([(''prompt_tokens'', PInt prompt), (''completion_tokens'', PInt completion)] @ timing_fields resp wall
            @ [(''finish_reason'', (case resp of None \<Rightarrow> PNone | Some r \<Rightarrow> PStr (lr_finish_reason r))),
               (''is_malformed_retry'', PBool (malformed > 0))])
           (without_metadata fields)
     in
     sbind (iter_messages_payload cf) (\<lambda>payload.
     let action_data = dupdate
           (payload @ [(''raw_response'', PDict raw), (''prompt_tokens'', PInt prompt),
              (''completion_tokens'', PInt completion)] @ timing_fields resp wall
            @ [(''malformed_retry_count'', PInt malformed), (''is_malformed_retry'', PBool (malformed > 0)),
               (''hook_type'', PStr (tc_hook_type cf))]) fields
     in
     sbind (emit_event env cf ''LLM'' ''llm_call_end'' event_data (hc_iteration ctx)) (\<lambda>event.
     sbind (new_data action_data) (\<lambda>action.
     sbind (write_action cf (action_record cf ''llm_call'' (''llm_'' @ int_str (int (hc_iteration ctx)))
              (hc_iteration ctx) started ts_end action)) (\<lambda>_.
     sbind (case resp of
         Some r \<Rightarrow> swhen (pget (lr_extra r) ''_openrouter_metadata_task'' \<noteq> PNone)
           (smod (\<lambda>s. s\<lparr>rc_pending_llm := rc_pending_llm s @ [\<lparr>pl_response = r, pl_event = event, pl_action = action\<rparr>]\<rparr>))
       | None \<Rightarrow> sret ()) (\<lambda>_.
     smod (\<lambda>s. s\<lparr>rc_before_exec := 0, rc_snapshot := None, rc_delta := None\<rparr>))))))))))"

text \<open>What the sync checkpoint of a call adds to its action.\<close>

definition checkpoint_fields :: "'w recorder_env \<Rightarrow> recorder_config \<Rightarrow> string \<Rightarrow> bool \<Rightarrow> int option \<Rightarrow> bool \<Rightarrow> int \<Rightarrow> pydict" where
  "checkpoint_fields env cf name is_full since rebaseline chain_bytes =
     [(''path'', PStr (re_path env name)),
      (''kind'', PStr (if is_full then ''cas_manifest_full'' else ''cas_manifest_incremental'')),
      (''root'', PStr (cf_root_label (tc_checkpoint cf))), (''incremental'', PBool (\<not> is_full)),
      (''incremental_since_ns'', (case since of None \<Rightarrow> PNone | Some n \<Rightarrow> PInt n)), (''overhead_excluded'', PBool True),
      (''rebaseline'', if rebaseline then PBool True else PNone), (''chain_bytes'', PInt chain_bytes)]"

definition after_tool_fields :: "'w recorder_env \<Rightarrow> recorder_config \<Rightarrow> after_tool \<Rightarrow> pydict option" where
  "after_tool_fields env cf r =
     (case r of
        NoCheckpoint \<Rightarrow> None
      | OnHost (HostError m) \<Rightarrow> Some (error_fields m)
      | OnHost HostSkipped \<Rightarrow> Some skipped_fields
      | OnHost (HostCheckpoint hc) \<Rightarrow>
          Some (checkpoint_fields env cf (hc_name hc) (hc_is_full hc) (hc_since_ns hc) (hc_rebaseline hc) (hc_chain_bytes hc))
      | InContainer (CkError m) \<Rightarrow> Some (error_fields m)
      | InContainer CkSkipped \<Rightarrow> Some skipped_fields
      | InContainer (CkOk ok) \<Rightarrow>
          Some (checkpoint_fields env cf (ck_path ok) (ck_is_full ok) (ck_incremental_since_ns ok) (ck_rebaseline ok)
                  (ck_chain_bytes ok)))"

definition sync_checkpoint :: "'w recorder_env \<Rightarrow> recorder_config \<Rightarrow> string \<Rightarrow> string \<Rightarrow> string \<Rightarrow> ('w, pydict option) rec_m" where
  "sync_checkpoint env cf tool_call_id tool_name args = (\<lambda>s.
     case checkpoint_after_tool (re_sha env) (tc_checkpoint cf) tool_call_id tool_name args
            (re_view env (rc_world s)) (rc_checkpoint s) of
       (r, ks) \<Rightarrow> (Inr (after_tool_fields env cf r), s\<lparr>rc_checkpoint := ks\<rparr>))"

definition tool_args_of :: "'w recorder_env \<Rightarrow> hook_context \<Rightarrow> string \<Rightarrow> string" where
  "tool_args_of env ctx call_id =
     (case dget (fold (\<lambda>tc. dput (tc_id tc) (re_dumps env (PDict (tc_arguments tc)))) (hc_tool_calls ctx) []) call_id of
        Some a \<Rightarrow> a | None \<Rightarrow> [])"

definition source_concurrent_execs :: "hook_context \<Rightarrow> bool" where
  "source_concurrent_execs ctx \<longleftrightarrow> length (filter (\<lambda>tc. tc_name tc = ''exec'') (hc_tool_calls ctx)) > 1"

text \<open>The time since a tool started; a start at zero counts as none.\<close>

definition pop_duration :: "'w recorder_env \<Rightarrow> string \<Rightarrow> ('w, rat) rec_m" where
  "pop_duration env call_id =
     sbind (sgets (\<lambda>s. dget (rc_tool_start s) call_id)) (\<lambda>start.
     sbind (smod (\<lambda>s. s\<lparr>rc_tool_start := dpop call_id (rc_tool_start s)\<rparr>)) (\<lambda>_.
     sbind (rec_monotonic env) (\<lambda>now.
     sret (case start of None \<Rightarrow> 0 | Some t \<Rightarrow> if t = 0 then 0 else (now - t) * 1000))))"

definition add_time :: "string \<Rightarrow> rat \<Rightarrow> (string \<times> rat) list \<Rightarrow> (string \<times> rat) list" where
  "add_time name t d = dput name ((case dget d name of None \<Rightarrow> 0 | Some x \<Rightarrow> x) + t) d"

definition add_timeout :: "string \<Rightarrow> (string \<times> nat) list \<Rightarrow> (string \<times> nat) list" where
  "add_timeout name d = dput name ((case dget d name of None \<Rightarrow> 0 | Some x \<Rightarrow> x) + 1) d"

definition record_tool_result ::
    "'w recorder_env \<Rightarrow> recorder_config \<Rightarrow> hook_context \<Rightarrow> string \<times> string \<times> string \<times> bool \<Rightarrow> ('w, unit) rec_m" where
  "record_tool_result env cf ctx r =
     (let (call_id, name, text, heuristic_ok) = r; i = hc_iteration ctx; concurrent = source_concurrent_execs ctx in
      sbind (pop_duration env call_id) (\<lambda>duration.
      sbind (smod (\<lambda>s. s\<lparr>rc_tool_times := add_time name duration (rc_tool_times s)\<rparr>)) (\<lambda>_.
      sbind (case dget (hc_tool_structured ctx) call_id of
          None \<Rightarrow> sret (heuristic_ok, ''text_heuristic'', [])
        | Some d \<Rightarrow> sbind (slift (structured_tool_result_fields d)) (\<lambda>(code, timed_out).
            sret (\<not> timed_out, ''structured'', [(''returncode'', PInt code), (''timed_out'', PBool timed_out)])))
        (\<lambda>(ok, success_source, structured).
      sbind (swhen (\<not> ok) (smod (\<lambda>s. s\<lparr>rc_tool_timeouts := add_timeout name (rc_tool_timeouts s)\<rparr>))) (\<lambda>_.
      sbind (emit_event env cf (if starts_with ''mcp_'' name then ''MCP'' else ''TOOL'') ''tool_exec_end''
          [(''tool_name'', PStr name), (''success'', PBool ok), (''duration_ms'', py_round duration 1),
           (''result_preview'', PStr (take 200 text))] i) (\<lambda>_.
      sbind (swhen (name = ''spawn'') (sbind (emit_event env cf ''SUBAGENT'' ''subagent_complete''
          [(''task_preview'', PStr (take 200 text))] i) (\<lambda>_. sret ()))) (\<lambda>_.
      sbind (rec_time env) (\<lambda>ts_end.
      let ts_start = ts_end - duration / 1000;
          ident = (if call_id \<noteq> [] then call_id else name);
          args = tool_args_of env ctx call_id;
          data = dupdate [(''tool_name'', PStr name), (''tool_call_id'', PStr call_id), (''tool_args'', PStr args),
             (''tool_result'', PStr text), (''duration_ms'', py_round duration 1), (''success'', PBool ok),
             (''success_source'', PStr success_source), (''hook_type'', PStr (tc_hook_type cf))]
            (structured @ (if concurrent then [(''source_concurrent_execs'', PBool True)] else [])
               @ (case dget (hc_tool_timelines ctx) call_id of None \<Rightarrow> [] | Some t \<Rightarrow> [(''resource_timeline'', PDict t)]))
      in
      sbind (new_data data) (\<lambda>a.
      sbind (if tc_deferred cf then checkpoint_after_tool_deferred env cf name args a concurrent
             else sync_checkpoint env cf ident name args) (\<lambda>checkpoint_after.
      sbind (case checkpoint_after of
          None \<Rightarrow> sret ()
        | Some d \<Rightarrow> update_data a (\<lambda>x.
            let x1 = dput (if dget d ''error'' \<noteq> None then ''checkpoint_after_error'' else ''checkpoint_after'') (PDict d) x
            in if concurrent then dput ''smeared_checkpoint'' (PBool True) x1 else x1)) (\<lambda>_.
      write_action cf (action_record cf ''tool_exec'' (''tool_'' @ int_str (int i) @ ''_'' @ ident) i ts_start ts_end a))))))))))))"

definition error_event_data :: "llm_response \<Rightarrow> pydict" where
  "error_event_data r =
     (let base = [(''error_message'', PStr (case lr_content r of None \<Rightarrow> [] | Some c \<Rightarrow> take 500 c)),
                  (''finish_reason'', PStr (lr_finish_reason r))] in
      if lr_extra r = [] then base
      else dupdate (dupdate base (filter (\<lambda>p. fst p \<noteq> ''llm_wall_ts_end'' \<and> \<not> starts_with ''_'' (fst p)) (lr_extra r)))
             (extract_trace_llm_fields (Some r)))"

definition record_end_of_iteration :: "'w recorder_env \<Rightarrow> recorder_config \<Rightarrow> hook_context \<Rightarrow> ('w, unit) rec_m" where
  "record_end_of_iteration env cf ctx =
     (case hc_response ctx of
        None \<Rightarrow> sret ()
      | Some r \<Rightarrow>
          if lr_finish_reason r = ''error'' then
            sbind (emit_event env cf ''LLM'' ''llm_error'' (error_event_data r) (hc_iteration ctx)) (\<lambda>_. sret ())
          else if lr_finish_reason r = ''max_iterations'' then
            sbind (sgets rc_total_tokens) (\<lambda>total.
            sbind (emit_event env cf ''LLM'' ''max_iterations'' [(''total_tokens'', PInt total)] (hc_iteration ctx)) (\<lambda>_. sret ()))
          else sret ())"

definition after_iteration :: "'w recorder_env \<Rightarrow> recorder_config \<Rightarrow> hook_context \<Rightarrow> ('w, unit) rec_m" where
  "after_iteration env cf ctx =
     sbind (record_llm_call env cf ctx) (\<lambda>_.
     sbind (sfor (record_tool_result env cf ctx) (filter traceable (extract_tool_results (hc_messages ctx)))) (\<lambda>_.
     record_end_of_iteration env cf ctx))"

subsection \<open>The summary\<close>

text \<open>\<open>re_await_task\<close> gives the extra fields of a response after its metadata task ended, also when
  it failed; \<open>re_refetch\<close> asks for the metadata again.\<close>

definition refresh_unavailable_metadata :: "'w recorder_env \<Rightarrow> pydict \<Rightarrow> ('w, pydict) rec_m" where
  "refresh_unavailable_metadata env extra =
     (if extra = [] \<or> pget extra ''openrouter_metadata_fetch_status'' = PStr ''success''
         \<or> \<not> truthy (pget extra ''openrouter_generation_id'') \<or> pget extra ''_openrouter_metadata_refetcher'' = PNone
      then sret extra
      else
        sbind (sattempt (rec_world (re_refetch env extra))) (\<lambda>r.
        case r of
          Inl e \<Rightarrow> sret (dput ''openrouter_metadata_refetch_error'' (PStr (err_text e))
                      (dput ''openrouter_metadata_refetch_attempted'' (PBool True) extra))
        | Inr (PDict refreshed) \<Rightarrow>
            (let x = dput ''openrouter_metadata_refetch_attempted'' (PBool True) (dupdate extra refreshed);
                 initial_status = pget extra ''openrouter_metadata_fetch_status'';
                 initial_ms = pget extra ''openrouter_metadata_fetch_ms'';
                 y = (if initial_status \<noteq> PNone then dput ''openrouter_metadata_initial_fetch_status'' initial_status x else x)
             in sret (if initial_ms \<noteq> PNone then dput ''openrouter_metadata_initial_fetch_ms'' initial_ms y else y))
        | Inr _ \<Rightarrow> sret extra))"

definition settled_extra :: "pydict \<Rightarrow> pydict" where
  "settled_extra extra =
     dput ''openrouter_metadata_task_pending'' (PBool False)
       (dpop ''_openrouter_metadata_refetcher'' (dpop ''_openrouter_metadata_task'' extra))"

definition timing_update :: "llm_response option \<Rightarrow> rat \<Rightarrow> pydict" where
  "timing_update resp wall =
     (let t = resolve_llm_call_time_ms resp wall in
      [(''llm_latency_ms'', py_round t 2), (''llm_call_time_ms'', py_round t 2),
       (''llm_timing_source'', PStr (resolve_llm_timing_source resp))])"

definition resolve_pending_llm :: "'w recorder_env \<Rightarrow> pending_llm \<Rightarrow> ('w, unit) rec_m" where
  "resolve_pending_llm env p =
     (if lr_extra (pl_response p) = [] then sret ()
      else
        sbind (if pget (lr_extra (pl_response p)) ''_openrouter_metadata_task'' = PNone then sret (lr_extra (pl_response p))
               else rec_world (\<lambda>w. case re_await_task env (pl_response p) w of (d, w') \<Rightarrow> (Inr d, w'))) (\<lambda>awaited.
        sbind (refresh_unavailable_metadata env awaited) (\<lambda>extra.
        sbind (sgets (\<lambda>s. pget (rc_heap s ! pl_action p) ''llm_wall_latency_ms'')) (\<lambda>wall_value.
        sbind (slift (py_float wall_value)) (\<lambda>wall.
        let resp = Some ((pl_response p)\<lparr>lr_extra := settled_extra extra\<rparr>);
            times = timing_update resp wall; fields = extract_trace_llm_fields resp
        in
        sbind (update_data (pl_event p) (\<lambda>d. dupdate (dupdate d times) (without_metadata fields))) (\<lambda>_.
        update_data (pl_action p) (\<lambda>d.
          let d1 = dupdate (dupdate d times) fields in
          (case pget d1 ''raw_response'' of
             PDict raw \<Rightarrow> dput ''raw_response'' (PDict (dupdate raw (metadata_fields (response_extra resp)))) d1
           | _ \<Rightarrow> d1))))))))"

definition resolve_pending_llm_records :: "'w recorder_env \<Rightarrow> ('w, unit) rec_m" where
  "resolve_pending_llm_records env =
     sbind (sgets rc_pending_llm) (\<lambda>ps.
     sbind (sfor (resolve_pending_llm env) ps) (\<lambda>_.
     smod (\<lambda>s. s\<lparr>rc_pending_llm := []\<rparr>)))"

definition llm_call_data :: "pydict list \<Rightarrow> trace_record \<Rightarrow> pydict option option" where
  "llm_call_data heap r =
     (case r of
        DataRecord pre a post \<Rightarrow> if pget pre ''action_type'' = PStr ''llm_call'' then Some (Some (heap ! a)) else None
      | PlainRecord d \<Rightarrow> None)"

definition option_value :: "('a \<Rightarrow> pyval) \<Rightarrow> 'a option \<Rightarrow> pyval" where
  "option_value f v = (case v of None \<Rightarrow> PNone | Some x \<Rightarrow> f x)"

definition summary_fields ::
    "recorder_config \<Rightarrow> 'w recorder \<Rightarrow> bool option \<Rightarrow> rat \<Rightarrow> rat option \<Rightarrow> pydict" where
  "summary_fields cf s success elapsed_s prepare_ms =
     (let l = summarize_llm_latencies (List.map_filter (llm_call_data (rc_heap s)) (rc_actions s)) in
      [(''type'', PStr ''summary''), (''agent_id'', PStr (tc_agent_id cf)), (''program_id'', PStr (tc_agent_id cf)),
       (''task_id'', PStr (tc_task_id cf)), (''instance_id'', PStr (tc_instance_id cf)),
       (''n_iterations'', PInt (int (rc_iterations s))), (''total_llm_ms'', PFloat (lat_total_ms l)),
       (''total_llm_wall_ms'', PFloat (lat_total_wall_ms l)), (''total_llm_call_time_ms'', PFloat (lat_total_call_ms l)),
       (''llm_call_time_count'', PInt (int (lat_call_count l))), (''llm_timing_source'', PStr (lat_source l)),
       (''total_tool_ms'', PFloat (sum_list (map snd (rc_tool_times s)))), (''total_tokens'', PInt (rc_total_tokens s)),
       (''tool_ms_by_name'', PDict (map (\<lambda>(k, t). (k, PFloat t)) (rc_tool_times s))),
       (''tool_timeouts'', PDict (map (\<lambda>(k, n). (k, PInt (int n))) (rc_tool_timeouts s))),
       (''success'', option_value PBool success), (''elapsed_s'', PFloat elapsed_s),
       (''prepare_ms'', option_value PFloat prepare_ms), (''hook_type'', PStr (tc_hook_type cf))])"

definition write_summary ::
    "'w recorder_env \<Rightarrow> recorder_config \<Rightarrow> bool option \<Rightarrow> rat \<Rightarrow> rat option \<Rightarrow> ('w, unit) rec_m" where
  "write_summary env cf success elapsed_s prepare_ms =
     sbind (await_pending_captures env cf) (\<lambda>_.
     sbind (resolve_pending_llm_records env) (\<lambda>_.
     sbind (sgets (\<lambda>s. summary_fields cf s success elapsed_s prepare_ms)) (\<lambda>d.
     sbind (add_record cf (PlainRecord d)) (\<lambda>_.
     close_recorder cf))))"

definition new_recorder :: "'w \<Rightarrow> cas_store \<Rightarrow> 'w recorder" where
  "new_recorder w cas =
     \<lparr>rc_world = w, rc_heap = [], rc_records = [], rc_actions = [], rc_lines = [], rc_sent = [], rc_flushed = False,
      rc_total_tokens = 0, rc_iterations = 0, rc_tool_times = [], rc_tool_timeouts = [], rc_tool_start = [],
      rc_iter_start = 0, rc_before_exec = 0, rc_snapshot = None, rc_delta = None, rc_hashes = [], rc_pending_llm = [],
      rc_checkpoint = initial_checkpoint_state cas, rc_backend_started = False, rc_deferred_snapshot = None,
      rc_captures = []\<rparr>"

text \<open>\<open>CompositeHook\<close>: an exception of the recorder is logged, and the run goes on with the state it
  left.\<close>

datatype recorder_event = RecBefore hook_context | RecTools hook_context | RecAfter hook_context

definition recorder_step :: "'w recorder_env \<Rightarrow> recorder_config \<Rightarrow> recorder_event \<Rightarrow> ('w, unit) rec_m" where
  "recorder_step env cf ev =
     (case ev of
        RecBefore ctx \<Rightarrow> before_iteration env cf ctx
      | RecTools ctx \<Rightarrow> before_execute_tools env cf ctx
      | RecAfter ctx \<Rightarrow> after_iteration env cf ctx)"

definition isolated :: "('w, unit) rec_m \<Rightarrow> ('w, unit) rec_m" where
  "isolated m = scatch m (\<lambda>_. sret ())"

definition record_run :: "'w recorder_env \<Rightarrow> recorder_config \<Rightarrow> recorder_event list \<Rightarrow> ('w, unit) rec_m" where
  "record_run env cf evs = sfor (\<lambda>ev. isolated (recorder_step env cf ev)) evs"

subsection \<open>The outcome of a run\<close>

definition trace_has_llm_error :: "string list option \<Rightarrow> bool res" where
  "trace_has_llm_error trace_lines =
     (case trace_lines of
        None \<Rightarrow> Inr False
      | Some ls \<Rightarrow>
          rfold (\<lambda>line found.
            if found then Inr True
            else case json_loads line of
              None \<Rightarrow> Inl (ValueError ''invalid JSON'')
            | Some (PDict d) \<Rightarrow> Inr (pget d ''type'' = PStr ''event'' \<and> pget d ''event'' = PStr ''llm_error'')
            | Some _ \<Rightarrow> Inl (AttributeError ''get'')) ls False)"

definition resolve_run_outcome ::
    "pydict \<Rightarrow> string option \<Rightarrow> string list option \<Rightarrow> (string \<times> pyval) res" where
  "resolve_run_outcome outcome text trace_lines =
     (let stop_reason = py_str (por (pget outcome ''stop_reason'') (PStr ''completed''));
          err = pget outcome ''error'';
          text_value = (case text of None \<Rightarrow> PNone | Some c \<Rightarrow> PStr c)
      in rbind (if stop_reason = ''completed'' \<and> err = PNone then trace_has_llm_error trace_lines else Inr False) (\<lambda>failed.
         if failed then Inr (''error'', por text_value (PStr ''LLM returned error.''))
         else if err = PNone \<and> stop_reason \<noteq> ''completed'' \<and> truthy text_value then Inr (stop_reason, text_value)
         else Inr (stop_reason, err)))"

definition validate_choice :: "string \<Rightarrow> string list \<Rightarrow> string \<Rightarrow> string res" where
  "validate_choice what choices value =
     (if value \<in> set choices then Inr value else Inl (ValueError (what @ '' must be one of '' @ join '', '' choices)))"

definition validate_message_recording_mode :: "string \<Rightarrow> string res" where
  "validate_message_recording_mode = validate_choice ''message_recording_mode'' [''delta'', ''full'']"

definition validate_checkpoint_scheduling :: "string \<Rightarrow> string res" where
  "validate_checkpoint_scheduling = validate_choice ''checkpoint_scheduling'' [''deferred'', ''sync'']"

definition validate_collection_checkpoint_backend :: "string \<Rightarrow> string res" where
  "validate_collection_checkpoint_backend = validate_choice ''checkpoint_backend'' [''overlay'', ''walk'']"

subsection \<open>What a computation may change\<close>

text \<open>A computation that relates the state before and after, whether it returns or raises.\<close>

definition moves :: "('s \<Rightarrow> 's \<Rightarrow> bool) \<Rightarrow> ('s, 'a) sm \<Rightarrow> bool" where
  "moves R m \<longleftrightarrow> (\<forall>s. R s (snd (m s)))"

lemma movesD: "moves R m \<Longrightarrow> m s = (r, s') \<Longrightarrow> R s s'"
  unfolding moves_def by (metis snd_conv)

locale state_order =
  fixes R :: "'s \<Rightarrow> 's \<Rightarrow> bool"
  assumes refl: "R s s"
    and trans: "R s t \<Longrightarrow> R t u \<Longrightarrow> R s u"
begin

lemma pure: "moves R (sret x)" "moves R (sraise e)" "moves R (slift r)" "moves R (sgets g)"
  by (simp_all add: moves_def sm_defs refl)

lemma smod: "(\<And>s. R s (f s)) \<Longrightarrow> moves R (smod f)"
  by (simp add: moves_def smod_def)

lemma sbind: "moves R m \<Longrightarrow> (\<And>x. moves R (f x)) \<Longrightarrow> moves R (sbind m f)"
  unfolding moves_def sbind_def
  by (auto split: prod.splits sum.splits) (metis snd_conv trans)+

lemma scatch: "moves R m \<Longrightarrow> (\<And>e. moves R (h e)) \<Longrightarrow> moves R (scatch m h)"
  unfolding moves_def scatch_def
  by (auto split: prod.splits sum.splits) (metis snd_conv trans)+

lemma sattempt: "moves R m \<Longrightarrow> moves R (sattempt m)"
  unfolding moves_def sattempt_def by (auto split: prod.splits) (metis snd_conv)

lemma swhen: "moves R m \<Longrightarrow> moves R (swhen b m)"
  by (simp add: swhen_def pure)

lemma sfor: "(\<And>x. moves R (f x)) \<Longrightarrow> moves R (sfor f xs)"
  by (induction xs) (auto intro: pure sbind)

lemma if_rule: "moves R m \<Longrightarrow> moves R n \<Longrightarrow> moves R (if b then m else n)"
  by simp

lemma case_option: "moves R m \<Longrightarrow> (\<And>x. moves R (g x)) \<Longrightarrow> moves R (case v of None \<Rightarrow> m | Some x \<Rightarrow> g x)"
  by (cases v) simp_all

lemma case_prod: "(\<And>x y. moves R (g x y)) \<Longrightarrow> moves R (case p of (x, y) \<Rightarrow> g x y)"
  by (cases p) simp

lemma case_sum: "(\<And>x. moves R (g x)) \<Longrightarrow> (\<And>x. moves R (h x)) \<Longrightarrow> moves R (case v of Inl x \<Rightarrow> g x | Inr x \<Rightarrow> h x)"
  by (cases v) simp_all

lemma Let_rule: "(\<And>x. moves R (g x)) \<Longrightarrow> moves R (let x = v in g x)"
  by simp

lemmas rules = pure smod sbind scatch sattempt swhen sfor if_rule case_option case_prod case_sum Let_rule

end

text \<open>Records are only added, and the data of a record keep what was there, except for the keys
  that arrive late: the result of a deferred checkpoint and the metadata of a provider.\<close>

definition late_keys :: "string set" where
  "late_keys = {''checkpoint_exposed_ms'', ''checkpoint_after'', ''checkpoint_after_error'', ''smeared_checkpoint'',
     ''llm_latency_ms'', ''raw_response''} \<union> set trace_llm_keys"

definition keeps_data :: "pydict list \<Rightarrow> pydict list \<Rightarrow> bool" where
  "keeps_data heap heap' \<longleftrightarrow> length heap \<le> length heap' \<and>
     (\<forall>a < length heap. \<forall>k. k \<notin> late_keys \<longrightarrow> dget (heap' ! a) k = dget (heap ! a) k)"

definition rec_grows :: "'w recorder \<Rightarrow> 'w recorder \<Rightarrow> bool" where
  "rec_grows s s' \<longleftrightarrow> prefix (rc_records s) (rc_records s') \<and> prefix (rc_actions s) (rc_actions s')
     \<and> keeps_data (rc_heap s) (rc_heap s')"

lemma keeps_data_refl: "keeps_data h h"
  by (simp add: keeps_data_def)

lemma keeps_data_append: "keeps_data h (h @ [d])"
  by (simp add: keeps_data_def nth_append)

lemma keeps_data_trans: "keeps_data h i \<Longrightarrow> keeps_data i j \<Longrightarrow> keeps_data h j"
  by (auto simp: keeps_data_def)

lemma keeps_data_update:
  "(\<And>d k. k \<notin> late_keys \<Longrightarrow> dget (f d) k = dget d k) \<Longrightarrow> keeps_data h (h[a := f (h ! a)])"
  by (cases "a < length h") (auto simp: keeps_data_def nth_list_update list_update_beyond)

interpretation grow: state_order "rec_grows :: 'w recorder \<Rightarrow> 'w recorder \<Rightarrow> bool"
  by unfold_locales (auto simp: rec_grows_def keeps_data_refl intro: prefix_order.trans keeps_data_trans)

lemma grows_rec_world: "moves rec_grows (rec_world m)"
  by (simp add: moves_def rec_world_def szoom_def rec_grows_def keeps_data_refl split: prod.splits)

lemma grows_new_data: "moves rec_grows (new_data d)"
  by (simp add: moves_def new_data_def rec_grows_def keeps_data_append)

lemma grows_update_data:
  "(\<And>d k. k \<notin> late_keys \<Longrightarrow> dget (f d) k = dget d k) \<Longrightarrow> moves rec_grows (update_data a f)"
  by (simp add: moves_def update_data_def smod_def rec_grows_def keeps_data_update)

lemma grows_smod:
  "(\<And>s. rc_records (f s) = rc_records s \<and> rc_actions (f s) = rc_actions s \<and> rc_heap (f s) = rc_heap s) \<Longrightarrow>
     moves rec_grows (smod f)"
  by (simp add: moves_def smod_def rec_grows_def keeps_data_refl)

lemma grows_add_record: "moves rec_grows (add_record cf r)"
  unfolding add_record_def
  by (intro grow.sbind grow.if_rule grow.smod) (auto simp: rec_grows_def keeps_data_refl)

lemma grows_write_action: "moves rec_grows (write_action cf r)"
  unfolding write_action_def
  by (intro grow.sbind grows_add_record grow.smod) (auto simp: rec_grows_def keeps_data_refl)

lemmas grow_rules = grows_rec_world grows_new_data grows_add_record grows_write_action

lemma grows_emit_event: "moves rec_grows (emit_event env cf category event d i)"
  unfolding emit_event_def rec_time_def by (intro grow.rules grow_rules)

lemma late_keys_mem [simp]:
  "''checkpoint_exposed_ms'' \<in> late_keys" "''checkpoint_after'' \<in> late_keys" "''checkpoint_after_error'' \<in> late_keys"
  "''smeared_checkpoint'' \<in> late_keys" "''llm_latency_ms'' \<in> late_keys" "''raw_response'' \<in> late_keys"
  "''llm_call_time_ms'' \<in> late_keys" "''llm_timing_source'' \<in> late_keys"
  by (simp_all add: late_keys_def trace_llm_keys_def)

lemma dget_dput_late: "k \<notin> late_keys \<Longrightarrow> j \<in> late_keys \<Longrightarrow> dget (dput j v d) k = dget d k"
  by (auto simp: dict.get_put)

lemma dget_dupdate_late:
  "k \<notin> late_keys \<Longrightarrow> fst ` set e \<subseteq> late_keys \<Longrightarrow> dget (dupdate d e) k = dget d k"
  unfolding dupdate_def by (induction e arbitrary: d) (auto simp: dget_dput_late)

lemma grows_capture: "moves rec_grows (capture_checkpoint_deferred env cf pc)"
  unfolding capture_checkpoint_deferred_def ensure_backend_def
  by (intro grow.rules grow_rules grows_smod) auto

lemma grows_record_deferred: "moves rec_grows (record_deferred_snapshot snap d)"
  unfolding record_deferred_snapshot_def by (intro grow.rules grows_smod) auto

lemma grows_apply: "moves rec_grows (apply_deferred_result pc t r)"
  unfolding apply_deferred_result_def
  by (intro grow.rules grows_record_deferred grows_update_data) (auto simp: Let_def dget_dput_late)

lemma grows_await: "moves rec_grows (await_pending_captures env cf)"
  unfolding await_pending_captures_def await_capture_def rec_monotonic_def
  by (intro grow.rules grows_capture grows_apply grows_smod) auto

lemma grows_deferred: "moves rec_grows (checkpoint_after_tool_deferred env cf name args a b)"
  unfolding checkpoint_after_tool_deferred_def ensure_backend_def schedule_capture_def
  by (intro grow.rules grow_rules grows_await grows_smod) (auto split: bool.splits intro!: grow.rules grows_smod)

lemma grows_messages_delta: "moves rec_grows (messages_delta env ms)"
  unfolding messages_delta_def by (intro grow.rules grows_smod) auto

lemma grows_before_iteration: "moves rec_grows (before_iteration env cf ctx)"
  unfolding before_iteration_def rec_time_def
  by (intro grow.rules grows_emit_event grows_messages_delta grows_smod) auto

lemma grows_before_execute_tools: "moves rec_grows (before_execute_tools env cf ctx)"
  unfolding before_execute_tools_def rec_time_def rec_monotonic_def
  by (intro grow.rules grows_emit_event grows_await grows_smod) auto

lemma grows_sync: "moves rec_grows (sync_checkpoint env cf call_id name args)"
  by (simp add: moves_def sync_checkpoint_def rec_grows_def keeps_data_refl split: prod.splits)

lemma grows_payload: "moves rec_grows (iter_messages_payload cf)"
  unfolding iter_messages_payload_def by (intro grow.rules)

lemma grows_llm_call: "moves rec_grows (record_llm_call env cf ctx)"
  unfolding record_llm_call_def rec_time_def
  by (intro grow.rules grow_rules grows_emit_event grows_payload grows_smod) auto

lemma grows_pop_duration: "moves rec_grows (pop_duration env call_id)"
  unfolding pop_duration_def rec_monotonic_def by (intro grow.rules grows_smod) auto

lemma grows_tool_result: "moves rec_grows (record_tool_result env cf ctx r)"
  unfolding record_tool_result_def rec_time_def
  by (intro grow.rules grow_rules grows_emit_event grows_pop_duration grows_deferred grows_sync grows_update_data grows_smod)
     (auto simp: Let_def dget_dput_late)

lemma grows_end: "moves rec_grows (record_end_of_iteration env cf ctx)"
  unfolding record_end_of_iteration_def by (intro grow.rules grows_emit_event)

lemma grows_after_iteration: "moves rec_grows (after_iteration env cf ctx)"
  unfolding after_iteration_def by (intro grow.rules grows_llm_call grows_tool_result grows_end)

lemma grows_step: "moves rec_grows (recorder_step env cf ev)"
  unfolding recorder_step_def
  by (cases ev) (simp_all add: grows_before_iteration grows_before_execute_tools grows_after_iteration)

lemma grows_run: "moves rec_grows (record_run env cf evs)"
  unfolding record_run_def isolated_def by (intro grow.rules grows_step)

lemma set_map_filter: "set (List.map_filter f xs) = {y. \<exists>x \<in> set xs. f x = Some y}"
  by (auto simp: List.map_filter_def image_iff) (metis option.sel option.simps(3))

lemma late_fields:
  "fst ` set (extract_trace_llm_fields r) \<subseteq> late_keys" "fst ` set (without_metadata (extract_trace_llm_fields r)) \<subseteq> late_keys"
  "fst ` set (timing_update r w) \<subseteq> late_keys"
  by (auto simp: extract_trace_llm_fields_def late_keys_def set_map_filter without_metadata_def timing_update_def Let_def)
     (simp_all add: trace_llm_keys_def)

lemma grows_resolve: "moves rec_grows (resolve_pending_llm env p)"
  unfolding resolve_pending_llm_def refresh_unavailable_metadata_def Let_def
  by (intro grow.rules grow_rules grows_update_data)
    (auto simp: dget_dput_late dget_dupdate_late late_fields split: pyval.splits intro!: grow.rules)

lemma grows_write_summary_steps:
  "moves rec_grows (resolve_pending_llm_records env)" "moves rec_grows (close_recorder cf)"
  unfolding resolve_pending_llm_records_def close_recorder_def
  by (intro grow.rules grows_resolve grows_smod; auto)+

lemma grows_write_summary: "moves rec_grows (write_summary env cf success t p)"
  unfolding write_summary_def by (intro grow.rules grow_rules grows_await grows_write_summary_steps)

subsection \<open>What a run records\<close>

text \<open>The tool results of a history that ends in tool messages after another message.\<close>

lemma extract_tool_results_turn:
  assumes "pget m ''role'' \<noteq> PStr ''tool''" and "\<forall>t \<in> set ts. pget t ''role'' = PStr ''tool''"
  shows "extract_tool_results (ms @ m # ts) = map tool_result_of ts"
proof -
  have "takeWhile (\<lambda>m. pget m ''role'' = PStr ''tool'') (rev ts @ m # rev ms) = rev ts"
    using assms by (subst takeWhile_append2) auto
  then show ?thesis by (simp add: extract_tool_results_def rev_map)
qed

fun action_key :: "trace_record \<Rightarrow> pyval \<times> pyval" where
  "action_key (PlainRecord d) = (PNone, PNone)"
| "action_key (DataRecord pre a post) = (pget pre ''action_type'', pget pre ''action_id'')"

definition llm_action_key :: "nat \<Rightarrow> pyval \<times> pyval" where
  "llm_action_key i = (PStr ''llm_call'', PStr (''llm_'' @ int_str (int i)))"

definition tool_action_key :: "nat \<Rightarrow> string \<times> string \<times> string \<times> bool \<Rightarrow> pyval \<times> pyval" where
  "tool_action_key i r = (case r of (call_id, name, _, _) \<Rightarrow>
     (PStr ''tool_exec'', PStr (''tool_'' @ int_str (int i) @ ''_'' @ (if call_id \<noteq> [] then call_id else name))))"

lemma keeps_actions_basic [keeps]:
  "preserves rc_actions (rec_world m)" "preserves rc_actions (new_data d)" "preserves rc_actions (update_data a f)"
  "preserves rc_actions (add_record cf r)"
  by (auto simp: preserves_def rec_world_def szoom_def new_data_def update_data_def add_record_def sm_defs split: prod.splits)

lemma keeps_actions_event [keeps]: "preserves rc_actions (emit_event env cf category event d i)"
  unfolding emit_event_def rec_time_def by (intro keeps)

lemma keeps_actions_await [keeps]: "preserves rc_actions (await_pending_captures env cf)"
  unfolding await_pending_captures_def await_capture_def rec_monotonic_def capture_checkpoint_deferred_def ensure_backend_def
    apply_deferred_result_def record_deferred_snapshot_def
  by (intro keeps) auto

lemma keeps_actions_deferred [keeps]: "preserves rc_actions (checkpoint_after_tool_deferred env cf name args a b)"
  unfolding checkpoint_after_tool_deferred_def ensure_backend_def schedule_capture_def
  by (intro keeps) (auto split: bool.splits intro!: keeps)

lemma keeps_actions_sync [keeps]: "preserves rc_actions (sync_checkpoint env cf call_id name args)"
  by (simp add: preserves_def sync_checkpoint_def split: prod.splits)

lemma keeps_actions_end: "preserves rc_actions (record_end_of_iteration env cf ctx)"
  unfolding record_end_of_iteration_def by (intro keeps)

text \<open>\<open>logs f m ks\<close>: when the computation returns, it has added actions with these keys.\<close>

definition logs :: "('w, 'a) rec_m \<Rightarrow> (pyval \<times> pyval) list \<Rightarrow> bool" where
  "logs m ks \<longleftrightarrow> (\<forall>s x s'. m s = (Inr x, s') \<longrightarrow> map action_key (rc_actions s') = map action_key (rc_actions s) @ ks)"

lemma logs_preserves: "preserves rc_actions m \<Longrightarrow> logs m []"
  by (auto simp: logs_def dest: preservesD)

lemma logs_sbind: "logs m ks \<Longrightarrow> (\<And>x. logs (f x) js) \<Longrightarrow> logs (sbind m f) (ks @ js)"
  by (fastforce simp: logs_def sbind_Inr)

lemma logs_sbind_keeps: "preserves rc_actions m \<Longrightarrow> (\<And>x. logs (f x) ks) \<Longrightarrow> logs (sbind m f) ks"
  using logs_sbind [OF logs_preserves] by fastforce

lemma logs_sfor: "(\<And>x. logs (f x) [k x]) \<Longrightarrow> logs (sfor f xs) (map k xs)"
proof (induction xs)
  case (Cons x xs)
  then show ?case using logs_sbind [of "f x" "[k x]"] by fastforce
qed (simp add: logs_def sret_def)

lemma logs_Let: "(\<And>x. logs (f x) ks) \<Longrightarrow> logs (let x = v in f x) ks"
  by simp

lemma logs_case_prod: "(\<And>x y. logs (f x y) ks) \<Longrightarrow> logs (case p of (x, y) \<Rightarrow> f x y) ks"
  by (cases p) simp

lemma logs_write_action: "logs (write_action cf r) [action_key r]"
proof -
  have "logs (smod (\<lambda>s. s\<lparr>rc_actions := rc_actions s @ [r]\<rparr>) :: ('w, unit) rec_m) [action_key r]"
    by (simp add: logs_def smod_def)
  then show ?thesis
    unfolding write_action_def using logs_sbind [OF _ logs_preserves [OF keeps_actions_basic(4)]] by fastforce
qed

lemma action_key_record: "action_key (action_record cf t ident i x y a) = (PStr t, PStr ident)"
  by (simp add: action_record_def pget_def)

lemma logs_write: "action_key r = k \<Longrightarrow> logs (write_action cf r) [k]"
  using logs_write_action by blast

lemma logs_write_then:
  "action_key r = k \<Longrightarrow> (\<And>x. preserves rc_actions (f x)) \<Longrightarrow> logs (sbind (write_action cf r) f) [k]"
  using logs_sbind [OF logs_write_action logs_preserves, of f cf r] by fastforce

lemma keeps_actions_parts [keeps]:
  "preserves rc_actions (pop_duration env call_id)" "preserves rc_actions (iter_messages_payload cf)"
  unfolding pop_duration_def rec_monotonic_def iter_messages_payload_def by (intro keeps; simp)+

lemma logs_llm_call: "logs (record_llm_call env cf ctx) [llm_action_key (hc_iteration ctx)]"
  unfolding record_llm_call_def rec_time_def
  by (intro logs_write_then logs_sbind_keeps logs_Let logs_case_prod keeps)
     (simp_all add: action_key_record llm_action_key_def)

lemma logs_tool_result: "logs (record_tool_result env cf ctx r) [tool_action_key (hc_iteration ctx) r]"
proof -
  obtain call_id name body ok where r: "r = (call_id, name, body, ok)" by (metis surj_pair)
  show ?thesis
    unfolding record_tool_result_def rec_time_def r prod.case Let_def
    by (intro logs_write logs_sbind_keeps logs_Let logs_case_prod keeps)
       (simp_all add: action_key_record tool_action_key_def)
qed

text \<open>An iteration that is recorded without an exception adds exactly one action for its model
  call and then one action for every tool result that ends its history, in order and under its
  own identifier, except for results made up for malformed calls; nothing recorded before is
  removed or reordered, and the data of earlier records keep all but their late fields.\<close>

theorem iteration_is_recorded:
  assumes "after_iteration env cf ctx s = (Inr (), s')"
  shows "map action_key (rc_actions s') = map action_key (rc_actions s) @ llm_action_key (hc_iteration ctx) #
      map (tool_action_key (hc_iteration ctx)) (filter traceable (extract_tool_results (hc_messages ctx)))
    \<and> prefix (rc_records s) (rc_records s') \<and> prefix (rc_actions s) (rc_actions s') \<and> keeps_data (rc_heap s) (rc_heap s')"
proof -
  have "logs (after_iteration env cf ctx) ([llm_action_key (hc_iteration ctx)] @
      (map (tool_action_key (hc_iteration ctx)) (filter traceable (extract_tool_results (hc_messages ctx))) @ []))"
    unfolding after_iteration_def
    by (intro logs_sbind logs_llm_call logs_sfor logs_tool_result logs_preserves keeps_actions_end)
  then show ?thesis using assms movesD [OF grows_after_iteration assms] by (auto simp: logs_def rec_grows_def)
qed

text \<open>Only \<open>close\<close> marks the file as written, and waiting for late results adds no record.\<close>

lemma keeps_flushed_basic [keeps]:
  "preserves rc_flushed (rec_world m)" "preserves rc_flushed (new_data d)" "preserves rc_flushed (update_data a f)"
  "preserves rc_flushed (add_record cf r)" "preserves rc_flushed (write_action cf r)"
  by (auto simp: preserves_def rec_world_def szoom_def new_data_def update_data_def add_record_def write_action_def
      sm_defs split: prod.splits)

lemma keeps_records_basic [keeps]:
  "preserves rc_records (rec_world m)" "preserves rc_records (new_data d)" "preserves rc_records (update_data a f)"
  "preserves rc_iterations (rec_world m)" "preserves rc_iterations (new_data d)" "preserves rc_iterations (update_data a f)"
  by (auto simp: preserves_def rec_world_def szoom_def new_data_def update_data_def sm_defs split: prod.splits)

lemma keeps_await [keeps]:
  "preserves rc_flushed (await_pending_captures env cf)" "preserves rc_records (await_pending_captures env cf)"
  "preserves rc_iterations (await_pending_captures env cf)"
  unfolding await_pending_captures_def await_capture_def rec_monotonic_def capture_checkpoint_deferred_def ensure_backend_def
    apply_deferred_result_def record_deferred_snapshot_def
  by (intro keeps; simp)+

lemma keeps_resolve [keeps]:
  "preserves rc_flushed (resolve_pending_llm_records env)" "preserves rc_records (resolve_pending_llm_records env)"
  "preserves rc_iterations (resolve_pending_llm_records env)"
  unfolding resolve_pending_llm_records_def resolve_pending_llm_def refresh_unavailable_metadata_def
  by (intro keeps; (simp split: pyval.splits; intro conjI allI impI keeps)?)+

lemma keeps_flushed_event [keeps]: "preserves rc_flushed (emit_event env cf category event d i)"
  unfolding emit_event_def rec_time_def by (intro keeps)

lemma keeps_flushed_checkpoint [keeps]:
  "preserves rc_flushed (checkpoint_after_tool_deferred env cf name args a b)"
  "preserves rc_flushed (sync_checkpoint env cf call_id name args)"
   unfolding checkpoint_after_tool_deferred_def ensure_backend_def schedule_capture_def
   by (intro keeps; auto split: bool.splits intro!: keeps)
      (simp add: preserves_def sync_checkpoint_def split: prod.splits)

lemma keeps_flushed_step [keeps]: "preserves rc_flushed (recorder_step env cf ev)"
proof (cases ev)
  case (RecBefore ctx)
  show ?thesis unfolding RecBefore recorder_step_def recorder_event.case before_iteration_def messages_delta_def rec_time_def
    by (intro keeps) simp_all
next
  case (RecTools ctx)
  show ?thesis unfolding RecTools recorder_step_def recorder_event.case before_execute_tools_def rec_time_def rec_monotonic_def
    by (intro keeps) simp_all
next
  case (RecAfter ctx)
  show ?thesis
    unfolding RecAfter recorder_step_def recorder_event.case after_iteration_def record_llm_call_def record_tool_result_def
      record_end_of_iteration_def pop_duration_def iter_messages_payload_def rec_time_def rec_monotonic_def
    by (intro keeps) simp_all
qed

text \<open>C27: When a run ends with its summary written, the trace file holds every record of the run
  exactly once and in order, each with its data as they finally are, and the summary last; this
  also covers results of checkpoints and metadata that arrived after the record was first
  written, and events at which the recorder failed.\<close>

theorem trace_file_is_complete:
  assumes "\<not> tc_has_sink cf" and "record_run env cf evs (new_recorder w cas) = (Inr (), s1)"
    and "write_summary env cf success t p s1 = (Inr (), s')"
  shows "rc_lines s' = map (render_record (rc_heap s')) (rc_records s') \<and> keeps_data (rc_heap s1) (rc_heap s')
    \<and> (\<exists>d. rc_records s' = rc_records s1 @ [PlainRecord d] \<and> pget d ''type'' = PStr ''summary''
          \<and> pget d ''n_iterations'' = PInt (int (rc_iterations s1)))"
proof -
  have "preserves rc_flushed (record_run env cf evs)"
    unfolding record_run_def isolated_def by (intro keeps)
  then have open1: "\<not> rc_flushed s1" using assms(2) by (auto dest: preservesD simp: new_recorder_def)
  obtain s2 s3 where a: "await_pending_captures env cf s1 = (Inr (), s2)"
    and b: "resolve_pending_llm_records env s2 = (Inr (), s3)"
    and c: "close_recorder cf (snd (add_record cf (PlainRecord (summary_fields cf s3 success t p)) s3)) = (Inr (), s')"
    using assms(3) by (auto simp: write_summary_def sbind_Inr sgets_def)
  have g: "rec_grows s1 s3"
    using movesD [OF grows_await a] movesD [OF grows_write_summary_steps(1) b] by (rule grow.trans)
  have same: "rc_flushed s3 = rc_flushed s1" "rc_records s3 = rc_records s1" "rc_iterations s3 = rc_iterations s1"
    using preservesD [OF keeps_await(1) a] preservesD [OF keeps_resolve(1) b]
      preservesD [OF keeps_await(2) a] preservesD [OF keeps_resolve(2) b]
      preservesD [OF keeps_await(3) a] preservesD [OF keeps_resolve(3) b] by simp_all
  show ?thesis using c g open1 same assms(1)
    by (auto simp: close_recorder_def add_record_def sm_defs rec_grows_def summary_fields_def Let_def pget_def)
qed

subsection \<open>Messages recorded as differences\<close>

abbreviation not_append_only :: err where
  "not_append_only \<equiv> ValueError ''message history is not append-only; cannot record messages_delta''"

lemma messages_delta_step:
  assumes "inj_on (message_hash env) M" and "rc_hashes s = map (message_hash env) ms0"
    and "set ms0 \<subseteq> M" "set ms \<subseteq> M"
  shows "messages_delta env ms s =
     (if prefix ms0 ms then (Inr (drop (length ms0) ms), s\<lparr>rc_hashes := map (message_hash env) ms\<rparr>)
      else (Inl not_append_only, s))"
proof -
  have "set (take n ms) \<union> set ms0 \<subseteq> M" for n using assms(3,4) set_take_subset [of n ms] by blast
  then have "map (message_hash env) (take n ms) = map (message_hash env) ms0 \<longleftrightarrow> take n ms = ms0" for n
    using inj_on_subset [OF assms(1)] by (intro inj_on_map_eq_map) blast
  moreover have "prefix ms0 ms \<longleftrightarrow> length ms0 \<le> length ms \<and> take (length ms0) ms = ms0"
    by (auto simp: prefix_def) (metis append_take_drop_id)
  ultimately have "(length ms < length ms0 \<or> take (length ms0) (map (message_hash env) ms) \<noteq> map (message_hash env) ms0)
      \<longleftrightarrow> \<not> prefix ms0 ms"
    by (auto simp: take_map)
  then show ?thesis using assms(2)
    by (auto simp: messages_delta_def sm_defs Let_def clone_messages_def)
qed

lemma deltas_from:
  assumes "inj_on (message_hash env) M" and "rc_hashes s = map (message_hash env) ms0"
    and "set ms0 \<subseteq> M" "\<forall>ms \<in> set mss. set ms \<subseteq> M"
  shows "case smap (messages_delta env) mss s of
      (Inr ds, s') \<Rightarrow> length ds = length mss \<and> (\<forall>i < length mss. ms0 @ concat (take (Suc i) ds) = mss ! i)
    | (Inl e, s') \<Rightarrow> e = not_append_only \<and> \<not> sorted_wrt prefix (ms0 # mss)"
  using assms(2-4)
proof (induction mss arbitrary: s ms0)
  case (Cons ms mss)
  show ?case
  proof (cases "prefix ms0 ms")
    case True
    let ?s1 = "s\<lparr>rc_hashes := map (message_hash env) ms\<rparr>"
    have step: "messages_delta env ms s = (Inr (drop (length ms0) ms), ?s1)"
      using messages_delta_step [OF assms(1) Cons.prems(1,2), of ms] Cons.prems(3) True by simp
    obtain r s2 where rest: "smap (messages_delta env) mss ?s1 = (r, s2)" by force
    have ih: "case (r, s2) of
        (Inr ds, s') \<Rightarrow> length ds = length mss \<and> (\<forall>i < length mss. ms @ concat (take (Suc i) ds) = mss ! i)
      | (Inl e, s') \<Rightarrow> e = not_append_only \<and> \<not> sorted_wrt prefix (ms # mss)"
      using Cons.IH [of ?s1 ms] rest Cons.prems(3) by simp
    have full: "ms0 @ drop (length ms0) ms = ms" using True by (auto simp: prefix_def)
    show ?thesis
    proof (cases r)
      case (Inl e)
      then show ?thesis using ih step rest by (auto simp: sbind_def)
    next
      case (Inr ds)
      have "ms0 @ concat (take (Suc i) (drop (length ms0) ms # ds)) = (ms # mss) ! i" if "i < Suc (length mss)" for i
        using that ih Inr full by (cases i) (simp, auto simp flip: append_assoc)
      then show ?thesis using ih step rest Inr by (simp add: sbind_def sret_def)
    qed
  next
    case False
    then show ?thesis using messages_delta_step [OF assms(1) Cons.prems(1,2), of ms] Cons.prems(3) by (simp add: sbind_def)
  qed
qed (simp add: sret_def)

text \<open>C28: Recording the messages of successive iterations as differences loses nothing: put
  together up to any iteration, the differences are its messages. When no two of the messages
  share a hash, the recording fails exactly when some history does not extend an earlier one,
  and then with a ValueError.\<close>

theorem deltas_rebuild_history:
  assumes "inj_on (message_hash env) (\<Union> (set ` set mss))" and "rc_hashes s = []"
  shows "case smap (messages_delta env) mss s of
      (Inr ds, s') \<Rightarrow> sorted_wrt prefix mss \<and> (\<forall>i < length mss. concat (take (Suc i) ds) = mss ! i)
    | (Inl e, s') \<Rightarrow> e = not_append_only \<and> \<not> sorted_wrt prefix mss"
proof -
  obtain r s' where r: "smap (messages_delta env) mss s = (r, s')" by force
  note dl = deltas_from [OF assms(1), of s "[]" mss]
  show ?thesis
  proof (cases r)
    case (Inl e)
    then show ?thesis using dl assms(2) r by auto
  next
    case (Inr ds)
    then have ds: "length ds = length mss" "\<forall>i < length mss. concat (take (Suc i) ds) = mss ! i"
      using dl assms(2) r by auto
    have "prefix (mss ! i) (mss ! j)" if "i < j" "j < length mss" for i j
    proof -
      have split: "take (Suc j) ds = take (Suc i) ds @ take (j - i) (drop (Suc i) ds)"
        using that(1) take_add [of "Suc i" "j - i" ds] by simp
      have "i < length mss" using that by simp
      then have "mss ! i = concat (take (Suc i) ds)" "mss ! j = concat (take (Suc j) ds)" using ds(2) that(2) by metis+
      then have "mss ! j = mss ! i @ concat (take (j - i) (drop (Suc i) ds))"
        by (simp only: split concat_append)
      then show ?thesis by (rule prefixI)
    qed
    then have "sorted_wrt prefix mss" by (simp add: sorted_wrt_iff_nth_less)
    then show ?thesis using ds r Inr by simp
  qed
qed

subsection \<open>Recording without exceptions\<close>

definition returns :: "('s, 'a) sm \<Rightarrow> bool" where
  "returns m \<longleftrightarrow> (\<forall>s. \<exists>x s'. m s = (Inr x, s'))"

lemma returns_rules:
  "returns (sret x)" "returns (sgets g)" "returns (smod f)" "returns (new_data d)" "returns (update_data a h)"
  "returns (sattempt m)" "returns (slift (Inr y))"
  "returns (sync_checkpoint env cf call_id name args)"
  by (auto simp: returns_def sm_defs new_data_def update_data_def sattempt_def sync_checkpoint_def split: prod.splits)

lemma returns_sbind: "returns m \<Longrightarrow> (\<And>x. returns (f x)) \<Longrightarrow> returns (sbind m f)"
  unfolding returns_def sbind_def by (metis (no_types, lifting) case_prod_conv sum.case(2))

lemma returns_swhen: "returns m \<Longrightarrow> returns (swhen b m)"
  by (simp add: swhen_def returns_rules)

lemma returns_if: "returns m \<Longrightarrow> returns n \<Longrightarrow> returns (if b then m else n)"
  by simp

lemma returns_case_option: "returns m \<Longrightarrow> (\<And>x. returns (g x)) \<Longrightarrow> returns (case v of None \<Rightarrow> m | Some x \<Rightarrow> g x)"
  by (cases v) simp_all

lemma returns_case_prod: "(\<And>x y. returns (g x y)) \<Longrightarrow> returns (case p of (x, y) \<Rightarrow> g x y)"
  by (cases p) simp

lemma returns_Let: "(\<And>x. returns (g x)) \<Longrightarrow> returns (let x = v in g x)"
  by simp

lemma returns_sfor: "(\<And>x. x \<in> set xs \<Longrightarrow> returns (f x)) \<Longrightarrow> returns (sfor f xs)"
  by (induction xs) (auto intro: returns_rules returns_sbind)

lemma returns_scatch: "returns m \<or> (\<forall>e. returns (h e)) \<Longrightarrow> returns (scatch m h)"
  unfolding returns_def scatch_def by (auto split: prod.splits sum.splits) (metis Inl_Inr_False prod.inject)+

lemmas returns_intros = returns_rules returns_sbind returns_swhen returns_case_option returns_case_prod returns_Let returns_if

lemma returns_record [intro]: "returns (add_record cf r)" "returns (write_action cf r)"
  unfolding add_record_def write_action_def by (intro returns_intros)+

lemma returns_emit_event [intro]: "returns (emit_event env cf category event d i)"
  unfolding emit_event_def rec_time_def by (intro returns_intros returns_record)

lemma returns_before_iteration: "\<not> tc_delta_mode cf \<Longrightarrow> returns (before_iteration env cf ctx)"
  unfolding before_iteration_def rec_time_def by (simp, intro returns_intros returns_emit_event)

lemma returns_llm_call: "\<not> tc_delta_mode cf \<Longrightarrow> returns (record_llm_call env cf ctx)"
  unfolding record_llm_call_def rec_time_def iter_messages_payload_def
  by (simp only: if_True not_False_eq_True, intro returns_intros returns_record returns_emit_event)

lemma returns_tool_result:
  assumes "\<not> tc_deferred cf"
    and "\<And>d. dget (hc_tool_structured ctx) (fst r) = Some d \<Longrightarrow> \<exists>x. structured_tool_result_fields d = Inr x"
  shows "returns (record_tool_result env cf ctx r)"
proof -
  obtain call_id name body ok where r: "r = (call_id, name, body, ok)" by (metis surj_pair)
  have lift: "returns (case dget (hc_tool_structured ctx) call_id of
          None \<Rightarrow> sret (ok, ''text_heuristic'', [])
        | Some d \<Rightarrow> sbind (slift (structured_tool_result_fields d)) (\<lambda>(code, timed_out).
            sret (\<not> timed_out, ''structured'', [(''returncode'', PInt code), (''timed_out'', PBool timed_out)])))"
    using assms(2) r by (auto split: option.splits intro!: returns_intros)
  show ?thesis
    unfolding record_tool_result_def rec_time_def pop_duration_def rec_monotonic_def r prod.case Let_def if_not_P [OF assms(1)]
    by (intro returns_intros returns_record returns_emit_event lift)
qed

text \<open>With full messages and checkpoints at once, the recorder fails only on a structured result that
  is not one.\<close>

lemma returns_after_iteration:
  assumes "\<not> tc_delta_mode cf" and "\<not> tc_deferred cf"
    and "\<And>k d. dget (hc_tool_structured ctx) k = Some d \<Longrightarrow> \<exists>x. structured_tool_result_fields d = Inr x"
  shows "returns (after_iteration env cf ctx)"
  unfolding after_iteration_def record_end_of_iteration_def
  by (intro returns_intros returns_sfor returns_emit_event returns_llm_call returns_tool_result assms)

lemma returns_record_run: "returns (record_run env cf evs)"
  unfolding record_run_def isolated_def by (intro returns_sfor returns_scatch disjI2 allI returns_rules)

subsection \<open>Examples\<close>

definition example_rec_env :: "nat recorder_env" where
  "example_rec_env =
     \<lparr>re_time = (\<lambda>w. of_nat w), re_monotonic = (\<lambda>w. of_nat w), re_sha = id,
      re_canonical = (\<lambda>m. py_str (pget m ''content'')), re_dumps = (\<lambda>_. ''{}''), re_view = (\<lambda>_. Inl example_host_view),
      re_start = sret (), re_probe = (\<lambda>_. sret True), re_capture = (\<lambda>_. sret None), re_done = (\<lambda>_. True),
      re_await_task = (\<lambda>r w. (lr_extra r, w)), re_refetch = (\<lambda>_. sret PNone), re_path = id, re_file_size = (\<lambda>_ _. 0)\<rparr>"

definition example_rec_config :: recorder_config where
  "example_rec_config =
     \<lparr>tc_agent_id = ''a'', tc_instance_id = ''a'', tc_task_id = ''a'', tc_hook_type = ''parent'', tc_delta_mode = False,
      tc_deferred = False, tc_backend_type = ''walk'', tc_has_sink = False,
      tc_checkpoint = \<lparr>cf_root = None, cf_dir = None, cf_root_label = ''/testbed'', cf_rebaseline = None\<rparr>,
      tc_in_container = False\<rparr>"

definition example_call :: tool_call_request where
  "example_call = \<lparr>tc_id = ''c1'', tc_name = ''list_dir'', tc_arguments = [], tc_extra_content = [],
     tc_provider_fields = [], tc_function_fields = []\<rparr>"

definition example_user :: pydict where
  "example_user = [(''role'', PStr ''user''), (''content'', PStr ''go'')]"

definition example_answer :: "pydict list" where
  "example_answer =
     [[(''role'', PStr ''assistant''), (''content'', PStr ''ok'')],
      [(''role'', PStr ''tool''), (''tool_call_id'', PStr ''c1''), (''name'', PStr ''list_dir''), (''content'', PStr ''x'')]]"

definition example_context :: "pydict list \<Rightarrow> hook_context" where
  "example_context ms =
     \<lparr>hc_iteration = 0, hc_messages = ms,
      hc_response = Some \<lparr>lr_content = Some ''ok'', lr_tool_calls = [example_call], lr_finish_reason = ''tool_calls'',
        lr_usage = [], lr_reasoning = None, lr_thinking = [], lr_extra = []\<rparr>,
      hc_usage = [(''prompt_tokens'', 7)], hc_tool_calls = [example_call], hc_tool_events = [], hc_tool_timelines = [],
      hc_tool_structured = [], hc_final_content = None, hc_stop_reason = None, hc_error = None,
      hc_malformed_retry_count = 0\<rparr>"

definition example_recorded :: "(err + unit) \<times> nat recorder" where
  "example_recorded = after_iteration example_rec_env example_rec_config (example_context (example_user # example_answer))
     (new_recorder 3 Map.empty)"

lemma example_recorded_ok: "fst example_recorded = Inr ()"
proof -
  have "returns (after_iteration example_rec_env example_rec_config (example_context (example_user # example_answer)))"
    by (intro returns_after_iteration) (simp_all add: example_rec_config_def example_context_def)
  then show ?thesis unfolding example_recorded_def returns_def by (metis fst_conv unit.exhaust)
qed

theorem iteration_is_recorded_witness:
  "map action_key (rc_actions (snd example_recorded)) =
     [llm_action_key 0, (PStr ''tool_exec'', PStr ''tool_0_c1'')]"
proof -
  have r: "after_iteration example_rec_env example_rec_config (example_context (example_user # example_answer))
     (new_recorder 3 Map.empty) = (Inr (), snd example_recorded)"
    using example_recorded_ok by (simp add: example_recorded_def prod_eq_iff)
  have k: "map (tool_action_key 0) (filter traceable (extract_tool_results (example_user # example_answer)))
      = [(PStr ''tool_exec'', PStr ''tool_0_c1'')]" by code_simp
  show ?thesis
    using iteration_is_recorded [OF r] k by (simp add: example_context_def new_recorder_def)
qed

definition example_events :: "recorder_event list" where
  "example_events = [RecBefore (example_context [example_user])]"

definition example_session :: "(err + unit) \<times> nat recorder" where
  "example_session = record_run example_rec_env example_rec_config example_events (new_recorder 3 Map.empty)"

definition example_summary :: "(err + unit) \<times> nat recorder" where
  "example_summary = write_summary example_rec_env example_rec_config (Some True) 2 None (snd example_session)"

lemma example_session_ok: "fst example_session = Inr () \<and> fst example_summary = Inr ()"
proof
  show "fst example_session = Inr ()"
    using returns_record_run unfolding example_session_def returns_def by (metis fst_conv unit.exhaust)
  have "rc_captures (snd example_session) = []" "rc_pending_llm (snd example_session) = []"
    by (simp_all add: example_session_def example_events_def record_run_def isolated_def recorder_step_def
        before_iteration_def example_rec_config_def new_recorder_def emit_event_def rec_time_def new_data_def
        add_record_def sm_defs)
  then show "fst example_summary = Inr ()"
    by (simp add: example_summary_def write_summary_def await_pending_captures_def resolve_pending_llm_records_def
        add_record_def close_recorder_def sm_defs)
qed

theorem trace_file_is_complete_witness:
  "rc_lines (snd example_summary) = map (render_record (rc_heap (snd example_summary))) (rc_records (snd example_summary))
     \<and> length (rc_lines (snd example_summary)) = 2"
proof -
  have s: "\<not> tc_has_sink example_rec_config" by (simp add: example_rec_config_def)
  have r: "record_run example_rec_env example_rec_config example_events (new_recorder 3 Map.empty) = (Inr (), snd example_session)"
    and w: "write_summary example_rec_env example_rec_config (Some True) 2 None (snd example_session) = (Inr (), snd example_summary)"
    using example_session_ok by (simp_all add: example_session_def example_summary_def prod_eq_iff)
  have "length (rc_records (snd example_session)) = 1"
    by (simp add: example_session_def example_events_def record_run_def isolated_def recorder_step_def
        before_iteration_def example_rec_config_def new_recorder_def emit_event_def rec_time_def new_data_def
        add_record_def sm_defs)
  then show ?thesis using trace_file_is_complete [OF s r w] by auto
qed

theorem deltas_rebuild_history_witness:
  "\<exists>ds s'. smap (messages_delta example_rec_env) [[example_user], example_user # example_answer] (new_recorder 3 Map.empty)
      = (Inr ds, s') \<and> concat ds = example_user # example_answer"
proof -
  let ?mss = "[[example_user], example_user # example_answer]"
  have i: "inj_on (message_hash example_rec_env) (\<Union> (set ` set ?mss))"
    by (simp add: inj_on_def message_hash_def example_rec_env_def example_user_def example_answer_def pget_def)
  have "sorted_wrt prefix ?mss" by simp
  then obtain ds s' where d: "smap (messages_delta example_rec_env) ?mss (new_recorder 3 Map.empty) = (Inr ds, s')"
    "\<forall>i < length ?mss. concat (take (Suc i) ds) = ?mss ! i"
    using deltas_rebuild_history [OF i, of "new_recorder 3 Map.empty"]
    by (auto simp: new_recorder_def split: prod.splits sum.splits)
  have "length ds = 2" using smap_Inr [OF d(1)] by simp
  then show ?thesis using d(1) d(2) [rule_format, of 1] by auto
qed

end
