(* ===== verification/ContainerEngine.thy ===== *)
theory ContainerEngine
  imports StateErr PyText
begin

text \<open>
  The container command line as the program drives it: the derived images of
  \<open>src/harness/container_image_prep.py\<close> and the task containers of
  \<open>src/trace_collect/attempt_pipeline.py\<close>. Running a command is an operation on a world of
  any type; every command and its answer goes to a log, on which the lemmas say what is
  always cleaned up and what a normal return guarantees.
\<close>

subsection \<open>Commands\<close>

text \<open>What \<open>subprocess.run\<close> yields: an exit code with standard output and standard error, or one
  of the two exceptions the code handles (\<open>TimeoutExpired\<close>, \<open>FileNotFoundError\<close>).\<close>

datatype cmd_out = CmdExit int string string | CmdTimeout | CmdMissing

record 'w command_env =
  ce_run :: "string list \<Rightarrow> string option \<Rightarrow> nat option \<Rightarrow> 'w \<Rightarrow> cmd_out \<times> 'w"
  ce_now :: "'w \<Rightarrow> rat"
  ce_sleep :: "rat \<Rightarrow> 'w \<Rightarrow> 'w"
  ce_getenv :: "string \<Rightarrow> string option"
  ce_resolve :: "string \<Rightarrow> string"
  ce_cache_root :: string
  ce_mkdir :: "string \<Rightarrow> 'w \<Rightarrow> unit res \<times> 'w"
  ce_apt_script :: "string \<Rightarrow> string \<Rightarrow> string"

type_synonym image_cache = "((string \<times> string \<times> string) \<times> (string \<times> rat)) list"

record 'w engine =
  eg_world :: 'w
  eg_log :: "(string list \<times> cmd_out) list"
  eg_cache :: image_cache

definition run_cmd ::
  "'w command_env \<Rightarrow> string list \<Rightarrow> string option \<Rightarrow> nat option \<Rightarrow> ('w engine, cmd_out) sm" where
  "run_cmd env cmd inp timeout =
     (\<lambda>s. case ce_run env cmd inp timeout (eg_world s) of
        (out, w) \<Rightarrow> (Inr out, s\<lparr>eg_world := w, eg_log := eg_log s @ [(cmd, out)]\<rparr>))"

definition engine_sleep :: "'w command_env \<Rightarrow> rat \<Rightarrow> ('w engine, unit) sm" where
  "engine_sleep env d = smod (\<lambda>s. s\<lparr>eg_world := ce_sleep env d (eg_world s)\<rparr>)"

definition engine_now :: "'w command_env \<Rightarrow> ('w engine, rat) sm" where
  "engine_now env = sgets (\<lambda>s. ce_now env (eg_world s))"

text \<open>\<open>try: m; finally: fin\<close>: an exception of \<open>fin\<close> replaces the outcome of \<open>m\<close>.\<close>

definition sfinally :: "('s, 'a) sm \<Rightarrow> ('s, unit) sm \<Rightarrow> ('s, 'a) sm" where
  "sfinally m fin =
     (\<lambda>s. case m s of (r, s1) \<Rightarrow>
        (case fin s1 of (Inl e, s2) \<Rightarrow> (Inl e, s2) | (Inr _, s2) \<Rightarrow> (r, s2)))"

text \<open>\<open>result.stderr.strip() or result.stdout.strip()\<close>, and \<open>(stderr or stdout or "").strip()\<close>.\<close>

definition strip_or :: "string \<Rightarrow> string \<Rightarrow> string" where
  "strip_or a b = (if strip a \<noteq> [] then strip a else strip b)"

definition or_strip :: "string \<Rightarrow> string \<Rightarrow> string" where
  "or_strip a b = strip (if a \<noteq> [] then a else b)"

subsection \<open>Image references\<close>

definition rstrip_char :: "char \<Rightarrow> string \<Rightarrow> string" where
  "rstrip_char c s = rev (dropWhile (\<lambda>d. d = c) (rev s))"

definition replace_char :: "char \<Rightarrow> char \<Rightarrow> string \<Rightarrow> string" where
  "replace_char a b s = map (\<lambda>c. if c = a then b else c) s"

definition image_slug :: "string \<Rightarrow> string" where
  "image_slug source_image =
     replace_char CHR ''@'' CHR ''_'' (replace_char CHR '':'' CHR ''_'' (replace_char CHR 0x2F CHR ''_'' source_image))"

definition registry_prefix :: "(string \<Rightarrow> string option) \<Rightarrow> string" where
  "registry_prefix getenv =
     rstrip_char CHR 0x2F (strip (case getenv ''TASK_CONTAINER_IMAGE_REGISTRY_PREFIX'' of Some v \<Rightarrow> v | None \<Rightarrow> []))"

definition registry_head :: "string \<Rightarrow> bool" where
  "registry_head head \<longleftrightarrow> CHR ''.'' \<in> set head \<or> CHR '':'' \<in> set head \<or> head = ''localhost''"

definition normalize_image_reference :: "(string \<Rightarrow> string option) \<Rightarrow> string \<Rightarrow> string" where
  "normalize_image_reference getenv img =
     (let pre = registry_prefix getenv
      in if img = [] then []
         else if CHR 0x2F \<notin> set img
         then (if pre \<noteq> [] then pre @ ''/library/'' @ img else ''docker.io/library/'' @ img)
         else if registry_head (hd (split_first CHR 0x2F img)) then img
         else if pre \<noteq> [] then pre @ ''/'' @ img
         else ''docker.io/'' @ img)"

definition fixed_image_name_for :: "string \<Rightarrow> string" where
  "fixed_image_name_for source_image = ''swebench-fixed-root-'' @ image_slug source_image"

definition image_exists_command :: "string \<Rightarrow> string \<Rightarrow> string list" where
  "image_exists_command img exe =
     (if exe = ''podman'' then [exe, ''image'', ''exists'', img] else [exe, ''image'', ''inspect'', img])"

definition arch_aliases :: "(string \<times> string) list" where
  "arch_aliases = [(''amd64'', ''amd64''), (''x86_64'', ''amd64''), (''arm64'', ''arm64''), (''aarch64'', ''arm64'')]"

definition normalize_arch :: "string \<Rightarrow> string" where
  "normalize_arch raw = (case dget arch_aliases (lower raw) of Some a \<Rightarrow> a | None \<Rightarrow> lower raw)"

text \<open>\<open>s.split()\<close>: the words between runs of white space.\<close>

fun split_spaces :: "string \<Rightarrow> string \<Rightarrow> string list" where
  "split_spaces acc [] = (if acc = [] then [] else [rev acc])"
| "split_spaces acc (c # s) =
     (if py_space c then (if acc = [] then split_spaces [] s else rev acc # split_spaces [] s)
      else split_spaces (c # acc) s)"

definition py_words :: "string \<Rightarrow> string list" where
  "py_words s = split_spaces [] s"

subsection \<open>Images\<close>

text \<open>\<open>_run\<close>: the exit code is checked on request.\<close>

definition run_checked ::
  "'w command_env \<Rightarrow> bool \<Rightarrow> nat \<Rightarrow> string list \<Rightarrow> ('w engine, int \<times> string \<times> string) sm" where
  "run_checked env check timeout cmd =
     sbind (run_cmd env cmd None (Some timeout)) (\<lambda>out.
       case out of
         CmdTimeout \<Rightarrow> sraise (SubprocessError ''TimeoutExpired'')
       | CmdMissing \<Rightarrow> sraise (OSError ''FileNotFoundError'')
       | CmdExit rc so se \<Rightarrow>
           if check \<and> rc \<noteq> 0 then sraise (SubprocessError ''CalledProcessError'') else sret (rc, so, se))"

definition image_exists :: "'w command_env \<Rightarrow> string \<Rightarrow> string \<Rightarrow> ('w engine, bool) sm" where
  "image_exists env img exe =
     sbind (run_cmd env (image_exists_command img exe) None None) (\<lambda>out.
       case out of
         CmdExit rc _ _ \<Rightarrow> sret (rc = 0)
       | CmdTimeout \<Rightarrow> sraise (SubprocessError ''TimeoutExpired'')
       | CmdMissing \<Rightarrow> sraise (OSError ''FileNotFoundError''))"

definition inspect_image_platform :: "'w command_env \<Rightarrow> string \<Rightarrow> string \<Rightarrow> ('w engine, string option) sm" where
  "inspect_image_platform env img exe =
     sbind (run_checked env False 30
             [exe, ''image'', ''inspect'', img, ''--format'', ''{{.Architecture}} {{.Os}}'']) (\<lambda>(rc, so, _).
       sret (if rc \<noteq> 0 then None
             else (case py_words (strip so) of
                     [arch, os_name] \<Rightarrow> Some (lower os_name @ ''/'' @ normalize_arch arch)
                   | _ \<Rightarrow> None)))"

definition retryable_markers :: "string list" where
  "retryable_markers =
     [''eof'', ''unexpected eof'', ''connection reset'', ''i/o timeout'', ''tls handshake timeout'',
      ''context deadline exceeded'', ''temporarily unavailable'']"

definition is_retryable_pull_failure :: "string \<Rightarrow> bool" where
  "is_retryable_pull_failure message \<longleftrightarrow> (\<exists>m \<in> set retryable_markers. contains m (lower message))"

definition PULL_ATTEMPTS :: nat where
  "PULL_ATTEMPTS = 3"

text \<open>The attempts \<open>attempt\<close>, \<open>attempt + 1\<close>, \<dots> of the loop of \<open>_pull_source_image\<close>; \<open>left\<close> of
  them remain.\<close>

fun pull_attempts :: "'w command_env \<Rightarrow> string \<Rightarrow> string \<Rightarrow> nat \<Rightarrow> nat \<Rightarrow> ('w engine, unit) sm" where
  "pull_attempts env img exe attempt 0 = sret ()"
| "pull_attempts env img exe attempt (Suc left) =
     sbind (run_checked env False 3600 [exe, ''pull'', img]) (\<lambda>(rc, so, se).
       if rc = 0 then sret ()
       else (let output = or_strip se so;
                 last_error = (if output \<noteq> [] then output else ''exit code '' @ int_str rc)
             in if attempt \<ge> PULL_ATTEMPTS \<or> \<not> is_retryable_pull_failure last_error
                then sraise (RuntimeError ''Failed to pull source image'')
                else sbind (engine_sleep env (2 ^ (attempt - 1))) (\<lambda>_.
                       pull_attempts env img exe (attempt + 1) left)))"

definition pull_source_image :: "'w command_env \<Rightarrow> string \<Rightarrow> string \<Rightarrow> ('w engine, unit) sm" where
  "pull_source_image env img exe = pull_attempts env img exe 1 PULL_ATTEMPTS"

definition ensure_source_image :: "'w command_env \<Rightarrow> string \<Rightarrow> string \<Rightarrow> ('w engine, unit) sm" where
  "ensure_source_image env source exe =
     (let source_image = normalize_image_reference (ce_getenv env) source
      in if source_image = [] then sret ()
         else sbind (image_exists env source_image exe) (\<lambda>found.
                if found then sret () else pull_source_image env source_image exe))"

definition remove_image :: "'w command_env \<Rightarrow> string \<Rightarrow> string \<Rightarrow> bool \<Rightarrow> ('w engine, bool) sm" where
  "remove_image env name exe qualify =
     (let img = (if qualify then normalize_image_reference (ce_getenv env) name else name)
      in if img = [] then sret False
         else sbind (image_exists env img exe) (\<lambda>found.
                if \<not> found then sret False
                else sbind (run_checked env False 300 [exe, ''image'', ''rm'', ''-f'', img]) (\<lambda>(rc, _, _).
                       if rc \<noteq> 0 then sraise (RuntimeError ''Failed to remove image'') else sret True)))"

definition prune_dangling_images :: "'w command_env \<Rightarrow> string \<Rightarrow> ('w engine, unit) sm" where
  "prune_dangling_images env exe =
     sbind (run_checked env False 300 [exe, ''image'', ''prune'', ''-f'']) (\<lambda>(rc, _, _).
       if rc \<noteq> 0 then sraise (RuntimeError ''Failed to prune dangling images'') else sret ())"

definition build_run_command :: "string \<Rightarrow> string option \<Rightarrow> string \<Rightarrow> string list" where
  "build_run_command exe image_platform source_image =
     [exe, ''run'', ''-d'']
     @ (case image_platform of Some p \<Rightarrow> if p \<noteq> [] then [''--platform'', p] else [] | None \<Rightarrow> [])
     @ [source_image, ''sleep'', ''120'']"

definition discard_result :: "('s, 'a) sm \<Rightarrow> ('s, unit) sm" where
  "discard_result m = sbind m (\<lambda>_. sret ())"

definition commit_fixed_image :: "'w command_env \<Rightarrow> string \<Rightarrow> string \<Rightarrow> string \<Rightarrow> ('w engine, unit) sm" where
  "commit_fixed_image env exe container_id fixed_name =
     sbind (run_checked env True 120 [exe, ''exec'', container_id, ''chown'', ''-R'', ''0:0'', ''/testbed'']) (\<lambda>_.
       discard_result (run_checked env True 240 [exe, ''commit'', container_id, fixed_name]))"

definition drop_build_container :: "'w command_env \<Rightarrow> string \<Rightarrow> string \<Rightarrow> ('w engine, unit) sm" where
  "drop_build_container env exe container_id =
     sbind (run_checked env False 30 [exe, ''stop'', container_id]) (\<lambda>_.
       discard_result (run_checked env False 30 [exe, ''rm'', ''-f'', container_id]))"

definition build_fixed_image ::
  "'w command_env \<Rightarrow> string \<Rightarrow> string \<Rightarrow> string \<Rightarrow> string option \<Rightarrow> ('w engine, unit) sm" where
  "build_fixed_image env source_image fixed_name exe image_platform =
     sbind (run_checked env True 180 (build_run_command exe image_platform source_image)) (\<lambda>(_, so, _).
       let container_id = strip so
       in sfinally (commit_fixed_image env exe container_id fixed_name)
                   (drop_build_container env exe container_id))"

definition cache_lookup :: "string \<times> string \<times> string \<Rightarrow> ('w engine, (string \<times> rat) option) sm" where
  "cache_lookup k = sgets (\<lambda>s. dget (eg_cache s) k)"

definition cache_store :: "string \<times> string \<times> string \<Rightarrow> string \<times> rat \<Rightarrow> ('w engine, string \<times> rat) sm" where
  "cache_store k v = sbind (smod (\<lambda>s. s\<lparr>eg_cache := dput k v (eg_cache s)\<rparr>)) (\<lambda>_. sret v)"

definition cache_drop :: "string \<times> string \<times> string \<Rightarrow> ('w engine, unit) sm" where
  "cache_drop k = smod (\<lambda>s. s\<lparr>eg_cache := dpop k (eg_cache s)\<rparr>)"

text \<open>The build proper: the derivative is made from the local source image, its failure becomes a
  \<open>RuntimeError\<close>, and the time it took is cached.\<close>

definition build_and_cache ::
  "'w command_env \<Rightarrow> string \<Rightarrow> string \<Rightarrow> string \<Rightarrow> string \<times> string \<times> string \<Rightarrow> ('w engine, string \<times> rat) sm" where
  "build_and_cache env source_image fixed_name exe key =
     sbind (ensure_source_image env source_image exe) (\<lambda>_.
     sbind (inspect_image_platform env source_image exe) (\<lambda>platform.
     sbind (engine_now env) (\<lambda>t0.
     sbind (scatch (build_fixed_image env source_image fixed_name exe platform) (\<lambda>e.
              case e of
                SubprocessError _ \<Rightarrow> sraise (RuntimeError ''Failed to build fixed derivative image'')
              | _ \<Rightarrow> sraise e)) (\<lambda>_.
     sbind (engine_now env) (\<lambda>t1. cache_store key (fixed_name, t1 - t0))))))"

definition ensure_fixed_image ::
  "'w command_env \<Rightarrow> string \<Rightarrow> string \<Rightarrow> string option \<Rightarrow> bool \<Rightarrow> ('w engine, string \<times> rat) sm" where
  "ensure_fixed_image env source exe fixed_image_name rebuild =
     (let source_image = normalize_image_reference (ce_getenv env) source;
          fixed_name = (case fixed_image_name of
                          Some n \<Rightarrow> if n \<noteq> [] then n else fixed_image_name_for source_image
                        | None \<Rightarrow> fixed_image_name_for source_image);
          key = (exe, source_image, fixed_name)
      in sbind (cache_lookup key) (\<lambda>cached.
           case (if rebuild then None else cached) of
             Some v \<Rightarrow> sret v
           | None \<Rightarrow>
               if rebuild then
                 sbind (cache_drop key) (\<lambda>_.
                 sbind (remove_image env fixed_name exe False) (\<lambda>_.
                   build_and_cache env source_image fixed_name exe key))
               else
                 sbind (image_exists env fixed_name exe) (\<lambda>found.
                   if found then cache_store key (fixed_name, 0)
                   else build_and_cache env source_image fixed_name exe key)))"

definition clear_image_cache :: "('w engine, unit) sm" where
  "clear_image_cache = smod (\<lambda>s. s\<lparr>eg_cache := []\<rparr>)"

definition drop_cached_fixed_image :: "'w command_env \<Rightarrow> string \<Rightarrow> ('w engine, unit) sm" where
  "drop_cached_fixed_image env source =
     (let normalized = normalize_image_reference (ce_getenv env) source
      in smod (\<lambda>s. s\<lparr>eg_cache := filter (\<lambda>(k, _). fst (snd k) \<noteq> normalized) (eg_cache s)\<rparr>))"

subsection \<open>Task containers\<close>

definition is_missing_container_inspect_error :: "int \<Rightarrow> string \<Rightarrow> string \<Rightarrow> bool" where
  "is_missing_container_inspect_error rc so se \<longleftrightarrow>
     rc \<noteq> 0
     \<and> (let message = lower (se @ [char_of (10::nat)] @ so)
        in contains ''no such object'' message \<or> contains ''no such container'' message
           \<or> contains ''does not exist'' message)"

definition is_container_removal_in_progress :: "string \<Rightarrow> bool" where
  "is_container_removal_in_progress message \<longleftrightarrow>
     contains ''removal of container'' (lower message) \<and> contains ''is already in progress'' (lower message)"

definition missing_executable :: err where
  "missing_executable = RuntimeError ''container executable not found''"

text \<open>Whether the container exists, and a problem with the answer.\<close>

definition inspect_container_exists ::
  "'w command_env \<Rightarrow> string \<Rightarrow> string \<Rightarrow> ('w engine, bool \<times> string option) sm" where
  "inspect_container_exists env container_id exe =
     sbind (run_cmd env [exe, ''inspect'', container_id] None (Some 30)) (\<lambda>out.
       case out of
         CmdTimeout \<Rightarrow> sret (True, Some (exe @ '' inspect '' @ container_id @ '' timed out after 30s''))
       | CmdMissing \<Rightarrow> sraise missing_executable
       | CmdExit rc so se \<Rightarrow>
           if rc = 0 then sret (True, None)
           else if is_missing_container_inspect_error rc so se then sret (False, None)
           else (let message = or_strip se so
                 in sret (True, Some (exe @ '' inspect '' @ container_id @ '' failed with exit '' @ int_str rc
                                      @ (if message \<noteq> [] then '': '' @ message else [])))))"

text \<open>One command of the removal loop of \<open>stop_task_container\<close>: its error message, and whether a
  removal was already in progress.\<close>

definition removal_command ::
  "'w command_env \<Rightarrow> string \<Rightarrow> string list \<Rightarrow> nat \<Rightarrow> ('w engine, string list \<times> bool) sm" where
  "removal_command env exe cmd timeout =
     sbind (run_cmd env cmd None (Some timeout)) (\<lambda>out.
       case out of
         CmdTimeout \<Rightarrow> sret ([join '' '' cmd @ '' timed out after '' @ int_str (int timeout) @ ''s''], False)
       | CmdMissing \<Rightarrow> sraise missing_executable
       | CmdExit rc so se \<Rightarrow>
           if rc = 0 then sret ([], False)
           else (let message = or_strip se so
                 in if take 3 cmd = [exe, ''rm'', ''-f''] \<and> is_container_removal_in_progress message
                    then sret ([], True)
                    else sret ([join '' '' cmd @ '' failed with exit '' @ int_str rc
                                @ (if message \<noteq> [] then '': '' @ message else [])], False)))"

text \<open>The wait for a removal that another process has begun: a poll every half second until the
  deadline. \<open>fuel\<close> bounds the polls; the clock ends the loop before it runs out (lemma
  \<open>wait_removed_fuel\<close>).\<close>

fun wait_removed ::
  "'w command_env \<Rightarrow> string \<Rightarrow> string \<Rightarrow> rat \<Rightarrow> nat \<Rightarrow> string list \<Rightarrow> ('w engine, bool \<times> string list) sm" where
  "wait_removed env container_id exe deadline 0 errors = sret (True, errors)"
| "wait_removed env container_id exe deadline (Suc fuel) errors =
     sbind (engine_now env) (\<lambda>now.
       if \<not> now < deadline then sret (True, errors)
       else sbind (engine_sleep env (1/2)) (\<lambda>_.
            sbind (inspect_container_exists env container_id exe) (\<lambda>(found, problem).
              case problem of
                Some p \<Rightarrow> sret (found, errors @ [p])
              | None \<Rightarrow> if \<not> found then sret (False, errors)
                        else wait_removed env container_id exe deadline fuel errors)))"

definition REMOVAL_POLLS :: nat where
  "REMOVAL_POLLS = 121"

definition capture_logs :: "'w command_env \<Rightarrow> string \<Rightarrow> string \<Rightarrow> ('w engine, string) sm" where
  "capture_logs env container_id exe =
     sbind (run_cmd env [exe, ''logs'', container_id] None (Some 30)) (\<lambda>out.
       case out of CmdExit _ so se \<Rightarrow> sret (so @ se) | _ \<Rightarrow> sret [])"

text \<open>The end of \<open>stop_task_container\<close>: the existence check, and the wait when a removal is in
  progress.\<close>

definition confirm_removed ::
  "'w command_env \<Rightarrow> string \<Rightarrow> string \<Rightarrow> string list \<Rightarrow> bool \<Rightarrow> ('w engine, bool) sm" where
  "confirm_removed env container_id exe errors in_progress =
     sbind (inspect_container_exists env container_id exe) (\<lambda>(found, problem).
       let errors1 = errors @ (case problem of Some p \<Rightarrow> [p] | None \<Rightarrow> [])
       in if found \<and> in_progress
          then sbind (engine_now env) (\<lambda>now.
               sbind (wait_removed env container_id exe (now + 60) REMOVAL_POLLS errors1) (\<lambda>(still, _). sret still))
          else sret found)"

definition stop_task_container :: "'w command_env \<Rightarrow> string \<Rightarrow> string \<Rightarrow> ('w engine, string) sm" where
  "stop_task_container env container_id exe =
     sbind (capture_logs env container_id exe) (\<lambda>logs_text.
     sbind (removal_command env exe [exe, ''stop'', container_id] 30) (\<lambda>(errors1, in_progress1).
     sbind (removal_command env exe [exe, ''rm'', ''-f'', container_id] 60) (\<lambda>(errors2, in_progress2).
     sbind (confirm_removed env container_id exe (errors1 @ errors2) (in_progress1 \<or> in_progress2)) (\<lambda>still.
       if still then sraise (RuntimeError ''Failed to remove task container'') else sret logs_text))))"

definition forbidden_user_option :: "string \<Rightarrow> bool" where
  "forbidden_user_option arg \<longleftrightarrow>
     arg \<in> {''--user'', ''-u'', ''--userns''} \<or> starts_with ''--user='' arg \<or> starts_with ''--userns='' arg
     \<or> starts_with ''-u='' arg \<or> (starts_with ''-u'' arg \<and> length arg > 2)"

definition validate_task_container_extra_args :: "string list \<Rightarrow> unit res" where
  "validate_task_container_extra_args extra_args =
     (if \<exists>arg \<in> set extra_args. forbidden_user_option arg
      then Inl (ValueError ''task container extra_args must not override container user'') else Inr ())"

definition validate_task_container_bootstrap_userbase :: "'w command_env \<Rightarrow> string \<Rightarrow> unit res" where
  "validate_task_container_bootstrap_userbase env bootstrap_userbase_bin =
     (let path = path_parts (ce_resolve env bootstrap_userbase_bin);
          cache_root = path_parts (ce_resolve env (ce_cache_root env))
      in if take (length cache_root) path = cache_root then Inr ()
         else Inl (ValueError ''bootstrap_userbase_bin must be inside the cache''))"

text \<open>The volume specification that the argument at the head of the list stands for.\<close>

fun volume_spec :: "string list \<Rightarrow> string option" where
  "volume_spec (arg # next_arg # rest) =
     (if arg \<in> {''-v'', ''--volume''} then Some next_arg
      else if starts_with ''--volume='' arg then Some (drop (length ''--volume='') arg) else None)"
| "volume_spec [arg] =
     (if arg \<notin> {''-v'', ''--volume''} \<and> starts_with ''--volume='' arg
      then Some (drop (length ''--volume='') arg) else None)"
| "volume_spec [] = None"

fun extra_args_mount_bootstrap_cache :: "'w command_env \<Rightarrow> string list \<Rightarrow> bool" where
  "extra_args_mount_bootstrap_cache env [] = False"
| "extra_args_mount_bootstrap_cache env (arg # rest) =
     ((case volume_spec (arg # rest) of
         None \<Rightarrow> False
       | Some spec \<Rightarrow>
           (case split_char CHR '':'' spec of
              _ # target # _ \<Rightarrow> ce_resolve env target = ce_resolve env (ce_cache_root env)
            | _ \<Rightarrow> False))
      \<or> extra_args_mount_bootstrap_cache env rest)"

definition env_passthrough :: "string list" where
  "env_passthrough =
     [''HTTP_PROXY'', ''HTTPS_PROXY'', ''ALL_PROXY'', ''NO_PROXY'', ''http_proxy'', ''https_proxy'', ''all_proxy'',
      ''no_proxy'', ''PIP_INDEX_URL'', ''TASK_CONTAINER_PIP_INDEX_URL'', ''TASK_CONTAINER_PIP_EXTRA_INDEX_URL'',
      ''TASK_CONTAINER_PIP_TRUSTED_HOST'', ''TASK_CONTAINER_PIP_CERT'', ''TASK_CONTAINER_SSL_CERT_FILE'',
      ''TASK_CONTAINER_HTTP_PROXY'', ''TASK_CONTAINER_HTTPS_PROXY'', ''TASK_CONTAINER_ALL_PROXY'',
      ''TASK_CONTAINER_NO_PROXY'', ''TASK_CONTAINER_APT_MIRROR'', ''TASK_CONTAINER_APT_SECURITY_MIRROR'',
      ''NANOBOT_MAX_CONCURRENT_REQUESTS'', ''NANOBOT_STREAM_IDLE_TIMEOUT_S'', ''OPENCLAW_LLM_TIMEOUT_S'']"

definition passthrough_args :: "(string \<Rightarrow> string option) \<Rightarrow> string list" where
  "passthrough_args getenv =
     concat (map (\<lambda>n. case getenv n of Some v \<Rightarrow> if v \<noteq> [] then [''-e'', n @ ''='' @ v] else [] | None \<Rightarrow> []) env_passthrough)"

text \<open>\<open>str(Path(p).parent)\<close> of a path with at least two components, or of an absolute one.\<close>

definition path_parent :: "string \<Rightarrow> string" where
  "path_parent p = path_str ((if is_absolute p then ''/'' else []) @ join ''/'' (butlast (path_parts p)))"

definition start_command ::
  "'w command_env \<Rightarrow> string \<Rightarrow> string \<Rightarrow> string list \<Rightarrow> string \<Rightarrow> string \<Rightarrow> string list" where
  "start_command env fixed_image exe extra_args network_mode userbase_bin =
     (let base_path = ''/usr/local/bin:/usr/bin:/bin'';
          container_path = (if userbase_bin \<noteq> [] then userbase_bin @ '':'' @ base_path else base_path);
          cache = ce_cache_root env
      in [exe, ''run'', ''-d'', ''--rm'', ''--network='' @ network_mode, ''-w'', ''/testbed'']
         @ (if extra_args_mount_bootstrap_cache env extra_args then [] else [''-v'', cache @ '':'' @ cache])
         @ [''-e'', ''HOME=/root'', ''-e'', ''PATH='' @ container_path, ''--user'', ''0:0'']
         @ (if userbase_bin \<noteq> []
            then [''-e'', ''PYTHONUSERBASE='' @ path_parent userbase_bin, ''-e'', ''PIP_BREAK_SYSTEM_PACKAGES=1'']
            else [])
         @ passthrough_args (ce_getenv env)
         @ extra_args
         @ [fixed_image, ''sleep'', ''infinity''])"

definition ensure_cache_root :: "'w command_env \<Rightarrow> string list \<Rightarrow> ('w engine, unit) sm" where
  "ensure_cache_root env extra_args =
     (if extra_args_mount_bootstrap_cache env extra_args then sret ()
      else szoom eg_world (\<lambda>w s. s\<lparr>eg_world := w\<rparr>) (ce_mkdir env (ce_cache_root env)))"

definition start_task_container ::
  "'w command_env \<Rightarrow> string \<Rightarrow> string \<Rightarrow> string list \<Rightarrow> string \<Rightarrow> string \<Rightarrow> ('w engine, string) sm" where
  "start_task_container env fixed_image exe extra_args network_mode userbase_bin =
     sbind (slift (validate_task_container_extra_args extra_args)) (\<lambda>_.
     sbind (if userbase_bin \<noteq> [] then slift (validate_task_container_bootstrap_userbase env userbase_bin)
            else sret ()) (\<lambda>_.
     sbind (ensure_cache_root env extra_args) (\<lambda>_.
     sbind (run_cmd env (start_command env fixed_image exe extra_args network_mode userbase_bin) None (Some 180)) (\<lambda>out.
       case out of
         CmdTimeout \<Rightarrow> sraise (SubprocessError ''TimeoutExpired'')
       | CmdMissing \<Rightarrow> sraise (OSError ''FileNotFoundError'')
       | CmdExit rc so _ \<Rightarrow>
           if rc \<noteq> 0 then sraise (RuntimeError ''Failed to start task container'') else sret (strip so)))))"

text \<open>\<open>urllib.parse.urlparse\<close>: the scheme and the network location of a URL.\<close>

definition url_scheme :: "string \<Rightarrow> string" where
  "url_scheme u = (if CHR '':'' \<in> set u then lower (takeWhile (\<lambda>c. c \<noteq> CHR '':'') u) else [])"

definition url_netloc :: "string \<Rightarrow> string" where
  "url_netloc u =
     (let rest = drop (length (url_scheme u) + 1) u
      in if starts_with ''//'' rest
         then takeWhile (\<lambda>c. c \<noteq> CHR 0x2F \<and> c \<noteq> CHR ''?'' \<and> c \<noteq> CHR 0x23) (drop 2 rest) else [])"

definition validate_apt_mirror_url :: "string \<Rightarrow> string res" where
  "validate_apt_mirror_url v =
     (let normalized = rstrip_char CHR 0x2F v
      in if url_scheme normalized \<notin> {''http'', ''https''} \<or> url_netloc normalized = []
         then Inl (ValueError ''must be an absolute http(s) URL'')
         else if \<exists>c \<in> set normalized. py_space c then Inl (ValueError ''must not contain whitespace'')
         else Inr normalized)"

text \<open>\<open>re.search(r"\bsecurity=([^\s]+)", stdout)\<close>, and the mirrors that were configured. The shell
  program sent to the container is \<^const>\<open>ce_apt_script\<close>.\<close>

definition word_char :: "char \<Rightarrow> bool" where
  "word_char c \<longleftrightarrow> py_alpha c \<or> py_digit c \<or> c = CHR ''_''"

fun security_match :: "bool \<Rightarrow> string \<Rightarrow> string" where
  "security_match in_word [] = []"
| "security_match in_word (c # s) =
     (let v = takeWhile (\<lambda>d. \<not> py_space d) (drop (length ''security='') (c # s))
      in if \<not> in_word \<and> starts_with ''security='' (c # s) \<and> v \<noteq> [] then v
         else security_match (word_char c) s)"

definition apt_result :: "string \<Rightarrow> string \<Rightarrow> (string \<times> string) list" where
  "apt_result main_mirror so =
     (let stdout = strip so
      in [(''configured'', if starts_with ''apt mirror skipped:'' stdout then ''false'' else ''true''),
          (''main_mirror'', main_mirror), (''security_mirror'', security_match False stdout), (''stdout'', stdout)])"

definition env_value :: "'w command_env \<Rightarrow> string \<Rightarrow> string" where
  "env_value env n = (case ce_getenv env n of Some v \<Rightarrow> v | None \<Rightarrow> [])"

definition configure_task_container_apt_mirror ::
  "'w command_env \<Rightarrow> string \<Rightarrow> string \<Rightarrow> ('w engine, (string \<times> string) list option) sm" where
  "configure_task_container_apt_mirror env container_id exe =
     (if env_value env ''TASK_CONTAINER_APT_MIRROR'' = [] then sret None
      else sbind (slift (validate_apt_mirror_url (env_value env ''TASK_CONTAINER_APT_MIRROR''))) (\<lambda>main_mirror.
           sbind (let v = env_value env ''TASK_CONTAINER_APT_SECURITY_MIRROR''
                  in if v \<noteq> [] then slift (validate_apt_mirror_url v) else sret []) (\<lambda>security_mirror.
           sbind (run_cmd env [exe, ''exec'', ''-i'', ''--user'', ''0:0'', container_id, ''/bin/sh'', ''-s'']
                    (Some (ce_apt_script env main_mirror security_mirror)) (Some 60)) (\<lambda>out.
             case out of
               CmdTimeout \<Rightarrow> sraise (SubprocessError ''TimeoutExpired'')
             | CmdMissing \<Rightarrow> sraise (OSError ''FileNotFoundError'')
             | CmdExit rc so _ \<Rightarrow>
                 if rc \<noteq> 0 then sraise (RuntimeError ''failed to configure task-container apt mirror'')
                 else sret (Some (apt_result main_mirror so))))))"

subsection \<open>What goes to the log\<close>

lemma run_cmd_log:
  "run_cmd env cmd inp t s = (r, s') \<Longrightarrow> \<exists>out. r = Inr out \<and> eg_log s' = eg_log s @ [(cmd, out)] \<and> eg_cache s' = eg_cache s"
  by (auto simp: run_cmd_def split: prod.splits)

lemma run_cmd_cases:
  obtains out s1 where "run_cmd env cmd inp t s = (Inr out, s1)" "eg_log s1 = eg_log s @ [(cmd, out)]"
    "eg_cache s1 = eg_cache s"
  using run_cmd_log by (metis surj_pair)

text \<open>The computation that continues from the answer of a command.\<close>

lemma sbind_run_cmd:
  assumes "sbind (run_cmd env cmd inp t) f s = (r, s')"
  obtains out s1 where "f out s1 = (r, s')" "eg_log s1 = eg_log s @ [(cmd, out)]" "eg_cache s1 = eg_cache s"
proof -
  obtain out s1 where run: "run_cmd env cmd inp t s = (Inr out, s1)" "eg_log s1 = eg_log s @ [(cmd, out)]"
    "eg_cache s1 = eg_cache s"
    by (rule run_cmd_cases)
  then show thesis using assms that by (simp add: sbind_def)
qed

text \<open>The answer of a command as \<open>_run\<close> reports it.\<close>

definition exited :: "bool \<Rightarrow> cmd_out \<Rightarrow> bool" where
  "exited check out \<longleftrightarrow> (case out of CmdExit rc _ _ \<Rightarrow> check \<longrightarrow> rc = 0 | _ \<Rightarrow> False)"

lemma run_checked_log:
  assumes "run_checked env check t cmd s = (r, s')"
  shows "\<exists>out. eg_log s' = eg_log s @ [(cmd, out)] \<and> eg_cache s' = eg_cache s
    \<and> (if exited check out then \<exists>rc so se. out = CmdExit rc so se \<and> r = Inr (rc, so, se)
       else \<exists>e. r = Inl e)"
  using assms unfolding run_checked_def
  by (rule sbind_run_cmd) (auto simp: exited_def sret_def sraise_def split: cmd_out.splits if_splits)

lemma sbind_run_checked:
  assumes "sbind (run_checked env check t cmd) f s = (r, s')"
  obtains rc so se s1 where "f (rc, so, se) s1 = (r, s')" "eg_log s1 = eg_log s @ [(cmd, CmdExit rc so se)]"
      "eg_cache s1 = eg_cache s" "check \<longrightarrow> rc = 0"
  | out e where "r = Inl e" "eg_log s' = eg_log s @ [(cmd, out)]" "eg_cache s' = eg_cache s" "\<not> exited check out"
proof -
  obtain r1 s1 where run: "run_checked env check t cmd s = (r1, s1)" by fastforce
  obtain out where log: "eg_log s1 = eg_log s @ [(cmd, out)]" "eg_cache s1 = eg_cache s"
    and cases: "if exited check out then \<exists>rc so se. out = CmdExit rc so se \<and> r1 = Inr (rc, so, se)
       else \<exists>e. r1 = Inl e"
    using run_checked_log [OF run] by blast
  show thesis
  proof (cases "exited check out")
    case True
    then obtain rc so se where "out = CmdExit rc so se" "r1 = Inr (rc, so, se)" using cases by auto
    then show thesis using that(1) assms run log True by (auto simp: sbind_def exited_def)
  next
    case False
    then obtain e where "r1 = Inl e" using cases by auto
    then show thesis using that(2) assms run log False by (auto simp: sbind_def)
  qed
qed

subsection \<open>Pulling\<close>

definition pull_failure :: "cmd_out \<Rightarrow> string" where
  "pull_failure out =
     (case out of
        CmdExit rc so se \<Rightarrow> (if or_strip se so \<noteq> [] then or_strip se so else ''exit code '' @ int_str rc)
      | _ \<Rightarrow> [])"

definition pull_succeeded :: "cmd_out \<Rightarrow> bool" where
  "pull_succeeded out \<longleftrightarrow> (case out of CmdExit rc _ _ \<Rightarrow> rc = 0 | _ \<Rightarrow> False)"

definition pull_retried :: "cmd_out \<Rightarrow> bool" where
  "pull_retried out \<longleftrightarrow>
     (case out of CmdExit rc _ _ \<Rightarrow> rc \<noteq> 0 \<and> is_retryable_pull_failure (pull_failure out) | _ \<Rightarrow> False)"

lemma engine_sleep_log: "engine_sleep env d s = (r, s') \<Longrightarrow> r = Inr () \<and> eg_log s' = eg_log s \<and> eg_cache s' = eg_cache s"
  by (auto simp: engine_sleep_def smod_def)

lemma pull_attempts_log:
  assumes "pull_attempts env img exe attempt left s = (r, s')" "attempt + left = PULL_ATTEMPTS + 1" "left > 0"
  shows "\<exists>outs. eg_log s' = eg_log s @ map (Pair [exe, ''pull'', img]) outs
    \<and> outs \<noteq> [] \<and> length outs \<le> left \<and> (\<forall>out \<in> set (butlast outs). pull_retried out)
    \<and> (r = Inr () \<longleftrightarrow> pull_succeeded (last outs))
    \<and> (pull_retried (last outs) \<longrightarrow> length outs = left)"
  using assms
proof (induction left arbitrary: attempt s)
  case 0
  then show ?case by simp
next
  case (Suc left)
  let ?cmd = "[exe, ''pull'', img]"
  from Suc.prems(1) show ?case
    unfolding pull_attempts.simps
  proof (rule sbind_run_checked)
    fix out e
    assume "r = Inl e" "eg_log s' = eg_log s @ [(?cmd, out)]" "\<not> exited False out"
    then show ?thesis
      by (intro exI [of _ "[out]"]) (auto simp: exited_def pull_succeeded_def pull_retried_def split: cmd_out.splits)
  next
    fix rc so se s1
    assume rest: "(\<lambda>(rc, so, se). if rc = 0 then sret ()
       else (let output = or_strip se so;
                 last_error = (if output \<noteq> [] then output else ''exit code '' @ int_str rc)
             in if attempt \<ge> PULL_ATTEMPTS \<or> \<not> is_retryable_pull_failure last_error
                then sraise (RuntimeError ''Failed to pull source image'')
                else sbind (engine_sleep env (2 ^ (attempt - 1))) (\<lambda>_.
                       pull_attempts env img exe (attempt + 1) left))) (rc, so, se) s1 = (r, s')"
      and log: "eg_log s1 = eg_log s @ [(?cmd, CmdExit rc so se)]"
    let ?out = "CmdExit rc so se"
    show ?thesis
    proof (cases "rc \<noteq> 0 \<and> attempt < PULL_ATTEMPTS \<and> is_retryable_pull_failure (pull_failure ?out)")
      case False
      then have "s' = s1" "r = Inr () \<longleftrightarrow> rc = 0" "pull_retried ?out \<longrightarrow> left = 0"
        using rest Suc.prems(2)
        by (auto simp: sret_def sraise_def Let_def pull_failure_def pull_retried_def split: if_splits)
      then show ?thesis using log by (intro exI [of _ "[?out]"]) (auto simp: pull_succeeded_def)
    next
      case True
      then have "sbind (engine_sleep env (2 ^ (attempt - 1))) (\<lambda>_. pull_attempts env img exe (attempt + 1) left) s1 = (r, s')"
        using rest by (auto simp: Let_def pull_failure_def split: if_splits)
      then have "pull_attempts env img exe (attempt + 1) left
          (s1\<lparr>eg_world := ce_sleep env (2 ^ (attempt - 1)) (eg_world s1)\<rparr>) = (r, s')"
        by (simp add: sbind_def engine_sleep_def smod_def)
      then obtain s2 where s2: "eg_log s2 = eg_log s1" "pull_attempts env img exe (attempt + 1) left s2 = (r, s')"
        by (metis engine.select_convs(2) engine.surjective engine.update_convs(1))
      obtain outs where outs: "eg_log s' = eg_log s2 @ map (Pair ?cmd) outs" "outs \<noteq> []" "length outs \<le> left"
        "\<forall>out \<in> set (butlast outs). pull_retried out" "r = Inr () \<longleftrightarrow> pull_succeeded (last outs)"
        "pull_retried (last outs) \<longrightarrow> length outs = left"
        using Suc.IH [OF s2(2)] Suc.prems(2) True by auto
      show ?thesis
        using outs s2(1) log True
        by (intro exI [of _ "?out # outs"]) (auto simp: pull_retried_def)
    qed
  qed
qed

text \<open>pulling an image runs \<open>pull\<close> at least once and at most three times; every answer but the
  last is a retryable failure; the pull returns exactly when the last answer is a success, and it
  gives up on a retryable failure only after the third attempt.\<close>

theorem pulling_is_bounded:
  assumes "pull_source_image env img exe s = (r, s')"
  shows "\<exists>outs. eg_log s' = eg_log s @ map (Pair [exe, ''pull'', img]) outs
    \<and> outs \<noteq> [] \<and> length outs \<le> 3 \<and> (\<forall>out \<in> set (butlast outs). pull_retried out)
    \<and> (r = Inr () \<longleftrightarrow> pull_succeeded (last outs))
    \<and> (pull_retried (last outs) \<longrightarrow> length outs = 3)"
  using pull_attempts_log [OF assms [unfolded pull_source_image_def]]
  by (simp add: PULL_ATTEMPTS_def)

subsection \<open>Building a derived image\<close>

lemma two_checked_log:
  assumes "sbind (run_checked env True t1 cmd1) (\<lambda>_. discard_result (run_checked env True t2 cmd2)) s = (r, s')"
  shows "\<exists>mid. eg_log s' = eg_log s @ mid \<and> mid \<noteq> [] \<and> map fst mid \<in> {[cmd1], [cmd1, cmd2]}
    \<and> (r = Inr () \<longleftrightarrow> length mid = 2 \<and> (\<forall>p \<in> set mid. exited True (snd p)))"
  using assms unfolding discard_result_def
  by (elim sbind_run_checked) (auto simp: sret_def exited_def)

lemmas commit_fixed_image_log =
  two_checked_log [of _ 120 "[exe, ''exec'', cid, ''chown'', ''-R'', ''0:0'', ''/testbed'']" 240 "[exe, ''commit'', cid, name]"
    for exe cid name, folded commit_fixed_image_def]

lemma drop_build_container_log:
  assumes "drop_build_container env exe cid s = (r, s')"
  shows "\<exists>out1. (\<exists>out2. exited False out1 \<and> eg_log s' = eg_log s @ [([exe, ''stop'', cid], out1), ([exe, ''rm'', ''-f'', cid], out2)])
    \<or> (\<not> exited False out1 \<and> eg_log s' = eg_log s @ [([exe, ''stop'', cid], out1)] \<and> (\<exists>e. r = Inl e))"
  using assms unfolding drop_build_container_def discard_result_def
  by (elim sbind_run_checked) (auto simp: sret_def exited_def)

lemma sfinally_run:
  assumes "sfinally m fin s = (r, s')"
  obtains r1 s1 r2 where "m s = (r1, s1)" "fin s1 = (r2, s')" "r = (case r2 of Inl e \<Rightarrow> Inl e | Inr _ \<Rightarrow> r1)"
  using assms by (auto simp: sfinally_def split: prod.splits sum.splits)

text \<open>whatever happens while a derived image is made, the container started for it is told to
  stop, and then removed unless the stop command itself did not come back.\<close>

theorem build_container_is_dropped:
  assumes "build_fixed_image env source_image name exe platform s = (r, s')"
  shows "\<exists>out. (\<not> exited True out \<and> (\<exists>e. r = Inl e)
                  \<and> eg_log s' = eg_log s @ [(build_run_command exe platform source_image, out)])
    \<or> (\<exists>so se mid out1 tail. let cid = strip so in
        out = CmdExit 0 so se
        \<and> eg_log s' = eg_log s @ [(build_run_command exe platform source_image, out)] @ mid
             @ [([exe, ''stop'', cid], out1)] @ tail
        \<and> (if exited False out1 then map fst tail = [[exe, ''rm'', ''-f'', cid]] else tail = [] \<and> (\<exists>e. r = Inl e))
        \<and> (r = Inr () \<longrightarrow> map fst mid = [[exe, ''exec'', cid, ''chown'', ''-R'', ''0:0'', ''/testbed''],
                                           [exe, ''commit'', cid, name]]
                          \<and> (\<forall>p \<in> set mid. exited True (snd p))))"
  using assms unfolding build_fixed_image_def
proof (rule sbind_run_checked)
  fix out e
  assume "r = Inl e" "eg_log s' = eg_log s @ [(build_run_command exe platform source_image, out)]" "\<not> exited True out"
  then show ?thesis by blast
next
  fix rc so se s1
  assume body: "(\<lambda>(_, so, _). let container_id = strip so
       in sfinally (commit_fixed_image env exe container_id name)
                   (drop_build_container env exe container_id)) (rc, so, se) s1 = (r, s')"
    and log: "eg_log s1 = eg_log s @ [(build_run_command exe platform source_image, CmdExit rc so se)]"
    and ok: "True \<longrightarrow> rc = 0"
  let ?cid = "strip so"
  have "sfinally (commit_fixed_image env exe ?cid name) (drop_build_container env exe ?cid) s1 = (r, s')"
    using body by (simp add: Let_def)
  then obtain r1 s2 r2 where m: "commit_fixed_image env exe ?cid name s1 = (r1, s2)"
    and fin: "drop_build_container env exe ?cid s2 = (r2, s')"
    and r: "r = (case r2 of Inl e \<Rightarrow> Inl e | Inr _ \<Rightarrow> r1)"
    by (rule sfinally_run)
  obtain mid where mid: "eg_log s2 = eg_log s1 @ mid"
    "map fst mid \<in> {[[exe, ''exec'', ?cid, ''chown'', ''-R'', ''0:0'', ''/testbed'']],
       [[exe, ''exec'', ?cid, ''chown'', ''-R'', ''0:0'', ''/testbed''], [exe, ''commit'', ?cid, name]]}"
    "r1 = Inr () \<longleftrightarrow> length mid = 2 \<and> (\<forall>p \<in> set mid. exited True (snd p))"
    using commit_fixed_image_log [OF m] by (elim exE conjE) (rule that)
  define c1 c2 c3 c4 where c: "c1 = [exe, ''exec'', ?cid, ''chown'', ''-R'', ''0:0'', ''/testbed'']"
    "c2 = [exe, ''commit'', ?cid, name]" "c3 = [exe, ''stop'', ?cid]" "c4 = [exe, ''rm'', ''-f'', ?cid]"
  have full: "map fst mid = [c1, c2] \<and> (\<forall>p \<in> set mid. exited True (snd p))" if "r1 = Inr ()"
    using that mid(2,3) unfolding c(1,2) [symmetric] by (cases "map fst mid = [c1]") auto
  obtain out1 tail where tail: "eg_log s' = eg_log s2 @ [(c3, out1)] @ tail"
    "if exited False out1 then map fst tail = [c4] else tail = [] \<and> (\<exists>e. r2 = Inl e)"
    using drop_build_container_log [OF fin] unfolding c(3,4) [symmetric] by force
  have "eg_log s' = eg_log s @ [(build_run_command exe platform source_image, CmdExit 0 so se)] @ mid @ [(c3, out1)] @ tail"
    using tail(1) mid(1) log ok by simp
  moreover have "if exited False out1 then map fst tail = [c4] else tail = [] \<and> (\<exists>e. r = Inl e)"
    using tail(2) r by (auto split: if_splits)
  moreover have "r = Inr () \<longrightarrow> map fst mid = [c1, c2] \<and> (\<forall>p \<in> set mid. exited True (snd p))"
    using full r by (auto split: sum.splits)
  ultimately show ?thesis
    unfolding Let_def c by (intro exI [of _ "CmdExit 0 so se"] disjI2 exI [of _ so] exI [of _ se] exI [of _ mid]
        exI [of _ out1] exI [of _ tail] conjI refl)
qed

subsection \<open>The image cache\<close>

definition cache_key :: "'w command_env \<Rightarrow> string \<Rightarrow> string \<Rightarrow> string option \<Rightarrow> string \<times> string \<times> string" where
  "cache_key env source exe fixed_image_name =
     (let source_image = normalize_image_reference (ce_getenv env) source
      in (exe, source_image,
          case fixed_image_name of Some n \<Rightarrow> if n \<noteq> [] then n else fixed_image_name_for source_image
                                 | None \<Rightarrow> fixed_image_name_for source_image))"

lemma cache_store_stores: "cache_store k v s = (Inr v', s') \<Longrightarrow> v' = v \<and> dget (eg_cache s') k = Some v"
  by (auto simp: cache_store_def sbind_def smod_def sret_def dict_simps)

lemma build_and_cache_stores:
  assumes "build_and_cache env source name exe key s = (Inr v, s')"
  shows "dget (eg_cache s') key = Some v \<and> fst v = name"
  using assms unfolding build_and_cache_def by (auto simp: sbind_Inr dest: cache_store_stores)

lemma cached_image_is_returned:
  "dget (eg_cache s) (cache_key env source exe nm) = Some v \<Longrightarrow>
   ensure_fixed_image env source exe nm False s = (Inr v, s)"
  by (simp add: ensure_fixed_image_def cache_key_def Let_def sbind_def cache_lookup_def sgets_def sret_def)

lemma ensured_image_is_cached:
  assumes "ensure_fixed_image env source exe nm rebuild s = (Inr v, s')"
  shows "dget (eg_cache s') (cache_key env source exe nm) = Some v"
  using assms unfolding ensure_fixed_image_def cache_key_def [symmetric] Let_def
  by (auto simp: sbind_Inr cache_lookup_def sgets_def sret_def cache_key_def Let_def
      dest: build_and_cache_stores cache_store_stores split: if_splits option.splits)

text \<open>once an image has been ensured, by a build, a rebuild or the cache, ensuring it again runs
  no command at all and gives the same name and time.\<close>

theorem ensured_image_costs_nothing:
  assumes "ensure_fixed_image env source exe nm rebuild s = (Inr v, s')"
  shows "ensure_fixed_image env source exe nm False s' = (Inr v, s')"
  using assms by (intro cached_image_is_returned ensured_image_is_cached)

subsection \<open>Removing a task container\<close>

definition says_missing :: "cmd_out \<Rightarrow> bool" where
  "says_missing out \<longleftrightarrow> (case out of CmdExit rc so se \<Rightarrow> is_missing_container_inspect_error rc so se | _ \<Rightarrow> False)"

lemma inspect_log:
  assumes "inspect_container_exists env cid exe s = (r, s')"
  shows "\<exists>out. eg_log s' = eg_log s @ [([exe, ''inspect'', cid], out)]
    \<and> (case r of Inl e \<Rightarrow> e = missing_executable \<and> \<not> says_missing out | Inr (found, p) \<Rightarrow> found = (\<not> says_missing out) \<and> (p \<noteq> None \<longrightarrow> found))"
  using assms unfolding inspect_container_exists_def
  by (rule sbind_run_cmd)
     (auto simp: sret_def sraise_def says_missing_def is_missing_container_inspect_error_def Let_def
       split: cmd_out.splits if_splits)

definition polls :: "string \<Rightarrow> string \<Rightarrow> (string list \<times> cmd_out) list \<Rightarrow> bool" where
  "polls exe cid new \<longleftrightarrow> (\<forall>p \<in> set new. fst p = [exe, ''inspect'', cid])"

text \<open>Only the last poll may have found the container gone.\<close>

definition gone_at_the_end :: "(string list \<times> cmd_out) list \<Rightarrow> bool" where
  "gone_at_the_end new \<longleftrightarrow> new \<noteq> [] \<and> says_missing (snd (last new)) \<and> (\<forall>p \<in> set (butlast new). \<not> says_missing (snd p))"

definition never_gone :: "(string list \<times> cmd_out) list \<Rightarrow> bool" where
  "never_gone new \<longleftrightarrow> (\<forall>p \<in> set new. \<not> says_missing (snd p))"

lemma polls_Cons: "polls exe cid (p # new) \<longleftrightarrow> fst p = [exe, ''inspect'', cid] \<and> polls exe cid new"
  by (simp add: polls_def)

lemma gone_at_the_end_Cons:
  "gone_at_the_end (p # new) \<longleftrightarrow> (if new = [] then says_missing (snd p) else \<not> says_missing (snd p) \<and> gone_at_the_end new)"
  by (auto simp: gone_at_the_end_def)

lemma never_gone_Cons: "never_gone (p # new) \<longleftrightarrow> \<not> says_missing (snd p) \<and> never_gone new"
  by (simp add: never_gone_def)

lemma polls_Nil: "polls exe cid []" "never_gone []" "\<not> gone_at_the_end []"
  by (simp_all add: polls_def never_gone_def gone_at_the_end_def)

lemmas poll_simps = polls_Cons gone_at_the_end_Cons never_gone_Cons polls_Nil

lemma wait_removed_log:
  assumes "wait_removed env cid exe deadline fuel errors s = (r, s')"
  shows "\<exists>new. eg_log s' = eg_log s @ new \<and> polls exe cid new
    \<and> (case r of Inr (False, _) \<Rightarrow> gone_at_the_end new | Inr (True, _) \<Rightarrow> never_gone new
       | Inl e \<Rightarrow> e = missing_executable \<and> never_gone new)"
  using assms
proof (induction fuel arbitrary: s)
  case 0
  then show ?case by (auto simp: sret_def poll_simps)
next
  case (Suc fuel)
  show ?case
  proof (cases "ce_now env (eg_world s) < deadline")
    case False
    then show ?thesis using Suc.prems by (auto simp: engine_now_def sgets_def sbind_def sret_def poll_simps)
  next
    case True
    let ?s1 = "s\<lparr>eg_world := ce_sleep env (1/2) (eg_world s)\<rparr>"
    obtain r2 s2 where ins: "inspect_container_exists env cid exe ?s1 = (r2, s2)" by fastforce
    obtain out where log: "eg_log s2 = eg_log s @ [([exe, ''inspect'', cid], out)]"
      and cases: "case r2 of Inl e \<Rightarrow> e = missing_executable \<and> \<not> says_missing out
        | Inr (found, p) \<Rightarrow> found = (\<not> says_missing out) \<and> (p \<noteq> None \<longrightarrow> found)"
      using inspect_log [OF ins] by auto
    have run: "(case r2 of Inl e \<Rightarrow> (Inl e, s2)
        | Inr (found, problem) \<Rightarrow> (case problem of Some p \<Rightarrow> (Inr (found, errors @ [p]), s2)
            | None \<Rightarrow> if \<not> found then (Inr (False, errors), s2)
                      else wait_removed env cid exe deadline fuel errors s2)) = (r, s')"
      using Suc.prems True ins
      by (auto simp: engine_now_def sgets_def sbind_def sret_def engine_sleep_def smod_def split: sum.splits option.splits)
    show ?thesis
    proof (cases "\<exists>found. r2 = Inr (found, None) \<and> found")
      case True
      then have "wait_removed env cid exe deadline fuel errors s2 = (r, s')" "\<not> says_missing out"
        using run cases by auto
      then obtain new where "eg_log s' = eg_log s2 @ new" "polls exe cid new"
        "case r of Inr (False, _) \<Rightarrow> gone_at_the_end new | Inr (True, _) \<Rightarrow> never_gone new
         | Inl e \<Rightarrow> e = missing_executable \<and> never_gone new"
        using Suc.IH by blast
      then show ?thesis using log \<open>\<not> says_missing out\<close>
        by (intro exI [of _ "([exe, ''inspect'', cid], out) # new"])
           (auto simp: poll_simps split: sum.splits bool.splits prod.splits)
    next
      case False
      then show ?thesis using run cases log
        by (intro exI [of _ "[([exe, ''inspect'', cid], out)]"])
           (auto simp: poll_simps split: sum.splits option.splits prod.splits)
    qed
  qed
qed

lemma confirm_removed_log:
  assumes "confirm_removed env cid exe errors busy s = (r, s')"
  shows "\<exists>new. eg_log s' = eg_log s @ new \<and> polls exe cid new
    \<and> (case r of Inr False \<Rightarrow> gone_at_the_end new | Inr True \<Rightarrow> never_gone new
       | Inl e \<Rightarrow> e = missing_executable \<and> never_gone new)"
proof -
  obtain r1 s1 where ins: "inspect_container_exists env cid exe s = (r1, s1)" by fastforce
  obtain out where log: "eg_log s1 = eg_log s @ [([exe, ''inspect'', cid], out)]"
    and cases: "case r1 of Inl e \<Rightarrow> e = missing_executable \<and> \<not> says_missing out
      | Inr (found, p) \<Rightarrow> found = (\<not> says_missing out) \<and> (p \<noteq> None \<longrightarrow> found)"
    using inspect_log [OF ins] by blast
  show ?thesis
  proof (cases "\<exists>p. r1 = Inr (True, p) \<and> busy")
    case False
    then have "s' = s1" "case r1 of Inl e \<Rightarrow> r = Inl e | Inr (found, _) \<Rightarrow> r = Inr found"
      using assms ins unfolding confirm_removed_def sbind_def
      by (auto simp: sret_def Let_def split: sum.splits if_splits)
    then show ?thesis using log cases
      by (intro exI [of _ "[([exe, ''inspect'', cid], out)]"])
         (auto simp: poll_simps split: sum.splits bool.splits prod.splits)
  next
    case True
    then obtain p where p: "r1 = Inr (True, p)" busy by blast
    define errs where "errs = errors @ (case p of Some p \<Rightarrow> [p] | None \<Rightarrow> [])"
    obtain r2 s2 where w: "wait_removed env cid exe (ce_now env (eg_world s1) + 60) REMOVAL_POLLS errs s1 = (r2, s2)"
      by fastforce
    have r: "r = (case r2 of Inl e \<Rightarrow> Inl e | Inr (still, _) \<Rightarrow> Inr still)" "s' = s2"
      using assms ins p w unfolding confirm_removed_def sbind_def errs_def
      by (auto simp: sret_def Let_def engine_now_def sgets_def split: sum.splits)
    obtain new where "eg_log s2 = eg_log s1 @ new" "polls exe cid new"
      "case r2 of Inr (False, _) \<Rightarrow> gone_at_the_end new | Inr (True, _) \<Rightarrow> never_gone new
       | Inl e \<Rightarrow> e = missing_executable \<and> never_gone new"
      using wait_removed_log [OF w] by blast
    then show ?thesis using log cases p r
      by (intro exI [of _ "([exe, ''inspect'', cid], out) # new"])
         (auto simp: poll_simps split: sum.splits bool.splits prod.splits)
  qed
qed

lemma removal_command_log:
  assumes "removal_command env exe cmd t s = (r, s')"
  shows "\<exists>out. eg_log s' = eg_log s @ [(cmd, out)] \<and> (case r of Inl e \<Rightarrow> out = CmdMissing \<and> e = missing_executable | Inr _ \<Rightarrow> out \<noteq> CmdMissing)"
  using assms unfolding removal_command_def
  by (rule sbind_run_cmd) (auto simp: sret_def sraise_def Let_def split: cmd_out.splits if_splits)

lemma capture_logs_log:
  assumes "capture_logs env cid exe s = (r, s')"
  shows "\<exists>out l. eg_log s' = eg_log s @ [([exe, ''logs'', cid], out)] \<and> r = Inr l"
  using assms unfolding capture_logs_def
  by (rule sbind_run_cmd) (auto simp: sret_def split: cmd_out.splits)

lemma stop_task_container_log:
  assumes "stop_task_container env cid exe s = (r, s')"
  shows "(\<exists>out new. eg_log s' = eg_log s @ ([exe, ''logs'', cid], out) # new \<and> r = Inl missing_executable
             \<and> never_gone (filter (\<lambda>p. fst p = [exe, ''inspect'', cid]) new))
    \<or> (\<exists>out1 out2 out3 new. eg_log s' = eg_log s @ [([exe, ''logs'', cid], out1), ([exe, ''stop'', cid], out2),
                                            ([exe, ''rm'', ''-f'', cid], out3)] @ new
         \<and> polls exe cid new
         \<and> (if (\<exists>logs. r = Inr logs) then gone_at_the_end new
            else r = Inl (RuntimeError ''Failed to remove task container'') \<and> never_gone new))"
proof -
  obtain out1 l s1 where l: "capture_logs env cid exe s = (Inr l, s1)" "eg_log s1 = eg_log s @ [([exe, ''logs'', cid], out1)]"
    using capture_logs_log by (metis surj_pair)
  obtain r2 s2 where m2: "removal_command env exe [exe, ''stop'', cid] 30 s1 = (r2, s2)" by fastforce
  obtain out2 where out2: "eg_log s2 = eg_log s1 @ [([exe, ''stop'', cid], out2)]"
    "case r2 of Inl e \<Rightarrow> out2 = CmdMissing \<and> e = missing_executable | Inr _ \<Rightarrow> out2 \<noteq> CmdMissing"
    using removal_command_log [OF m2] by blast
  show ?thesis
  proof (cases r2)
    case (Inl e)
    then show ?thesis using assms l m2 out2
      by (auto simp: stop_task_container_def sbind_def never_gone_def)
  next
    case (Inr p2)
    obtain r3 s3 where m3: "removal_command env exe [exe, ''rm'', ''-f'', cid] 60 s2 = (r3, s3)" by fastforce
    obtain out3 where out3: "eg_log s3 = eg_log s2 @ [([exe, ''rm'', ''-f'', cid], out3)]"
      "case r3 of Inl e \<Rightarrow> out3 = CmdMissing \<and> e = missing_executable | Inr _ \<Rightarrow> out3 \<noteq> CmdMissing"
      using removal_command_log [OF m3] by blast
    show ?thesis
    proof (cases r3)
      case (Inl e)
      then show ?thesis using assms l m2 out2 \<open>r2 = Inr p2\<close> m3 out3
        by (auto simp: stop_task_container_def sbind_def never_gone_def split: prod.splits)
    next
      case (Inr p3)
      obtain e2 b2 where p2: "p2 = (e2, b2)" by fastforce
      obtain e3 b3 where p3: "p3 = (e3, b3)" by fastforce
      obtain r4 s4 where m4: "confirm_removed env cid exe (e2 @ e3) (b2 \<or> b3) s3 = (r4, s4)" by fastforce
      obtain new where new: "eg_log s4 = eg_log s3 @ new" "polls exe cid new"
        "case r4 of Inr False \<Rightarrow> gone_at_the_end new | Inr True \<Rightarrow> never_gone new
         | Inl e \<Rightarrow> e = missing_executable \<and> never_gone new"
        using confirm_removed_log [OF m4] by blast
      have r: "s' = s4" "r = (case r4 of Inl e \<Rightarrow> Inl e
          | Inr still \<Rightarrow> if still then Inl (RuntimeError ''Failed to remove task container'') else Inr l)"
        using assms l m2 m3 m4 Inr p2 p3 \<open>r2 = Inr p2\<close>
        by (auto simp: stop_task_container_def sbind_def sret_def sraise_def split: sum.splits if_splits)
      have log: "eg_log s' = eg_log s @ [([exe, ''logs'', cid], out1), ([exe, ''stop'', cid], out2),
          ([exe, ''rm'', ''-f'', cid], out3)] @ new"
        using new(1) r(1) l(2) out2(1) out3(1) by simp
      show ?thesis
      proof (cases r4)
        case (Inl e)
        have "filter (\<lambda>p. fst p = [exe, ''inspect'', cid]) (([exe, ''stop'', cid], out2) # ([exe, ''rm'', ''-f'', cid], out3) # new) = new"
          using new(2) by (auto simp: polls_def filter_id_conv)
        then show ?thesis using log new(3) r(2) Inl by auto
      next
        case (Inr still)
        then show ?thesis using log new(2,3) r(2) by (cases still) auto
      qed
    qed
  qed
qed

text \<open>C29: when stopping a task container returns, it has captured the logs, asked for the stop and
  for the forced removal, and the last of the existence checks, and only that one, has answered
  that there is no such container. When it raises although the command line exists, no check ever
  said so: an error means that the container may still be there.\<close>

theorem stop_confirms_removal:
  assumes "stop_task_container env cid exe s = (r, s')"
  shows "(\<exists>out new. eg_log s' = eg_log s @ ([exe, ''logs'', cid], out) # new \<and> r = Inl missing_executable
             \<and> never_gone (filter (\<lambda>p. fst p = [exe, ''inspect'', cid]) new))
    \<or> (\<exists>out1 out2 out3 new. eg_log s' = eg_log s @ [([exe, ''logs'', cid], out1), ([exe, ''stop'', cid], out2),
                                            ([exe, ''rm'', ''-f'', cid], out3)] @ new
         \<and> polls exe cid new
         \<and> (if (\<exists>logs. r = Inr logs) then gone_at_the_end new
            else r = Inl (RuntimeError ''Failed to remove task container'') \<and> never_gone new))"
  using assms by (rule stop_task_container_log)
text \<open>The bound on the polls is no restriction: with a clock that a sleep moves forward by at least its
  length and that never goes back, the deadline of sixty seconds comes first.\<close>

definition clock_moves :: "'w command_env \<Rightarrow> bool" where
  "clock_moves env \<longleftrightarrow>
     (\<forall>d w. 0 \<le> d \<longrightarrow> ce_now env w + d \<le> ce_now env (ce_sleep env d w))
     \<and> (\<forall>cmd inp t w. ce_now env w \<le> ce_now env (snd (ce_run env cmd inp t w)))"

lemma inspect_clock:
  "clock_moves env \<Longrightarrow> inspect_container_exists env cid exe s = (r, s') \<Longrightarrow> ce_now env (eg_world s) \<le> ce_now env (eg_world s')"
  unfolding inspect_container_exists_def clock_moves_def
  by (auto simp: sbind_def run_cmd_def sret_def sraise_def Let_def split: prod.splits cmd_out.splits if_splits)
     (metis snd_conv)+

lemma wait_removed_more_fuel:
  assumes "clock_moves env" "deadline \<le> ce_now env (eg_world s) + of_nat fuel / 2"
  shows "wait_removed env cid exe deadline (Suc fuel + extra) errors s = wait_removed env cid exe deadline (Suc fuel) errors s"
  using assms(2)
proof (induction fuel arbitrary: s)
  case 0
  then show ?case by (simp add: sbind_def engine_now_def sgets_def)
next
  case (Suc fuel)
  let ?s1 = "s\<lparr>eg_world := ce_sleep env (1/2) (eg_world s)\<rparr>"
  obtain r2 s2 where ins: "inspect_container_exists env cid exe ?s1 = (r2, s2)" by fastforce
  have "ce_now env (eg_world s) + 1/2 \<le> ce_now env (eg_world ?s1)"
    using assms(1) by (simp add: clock_moves_def)
  then have "ce_now env (eg_world s) + 1/2 \<le> ce_now env (eg_world s2)"
    using inspect_clock [OF assms(1) ins] by simp
  moreover have "of_nat (Suc fuel) / (2::rat) = of_nat fuel / 2 + 1/2" by (simp add: add_divide_distrib)
  ultimately have "deadline \<le> ce_now env (eg_world s2) + of_nat fuel / 2" using Suc.prems by linarith
  then have ih: "wait_removed env cid exe deadline (Suc (fuel + extra)) errors s2 = wait_removed env cid exe deadline (Suc fuel) errors s2"
    using Suc.IH by simp
  show ?case
    unfolding add_Suc wait_removed.simps(2) [of env cid exe deadline "Suc (fuel + extra)"]
      wait_removed.simps(2) [of env cid exe deadline "Suc fuel"]
    using ih ins
    by (simp add: sbind_def engine_now_def sgets_def engine_sleep_def smod_def sret_def
        split: sum.splits option.splits)
qed

lemma wait_removed_fuel:
  assumes "clock_moves env" "REMOVAL_POLLS \<le> fuel"
  shows "wait_removed env cid exe (ce_now env (eg_world s) + 60) fuel errors s
    = wait_removed env cid exe (ce_now env (eg_world s) + 60) REMOVAL_POLLS errors s"
proof -
  obtain extra where fuel: "fuel = Suc 120 + extra"
    using assms(2) by (auto simp: REMOVAL_POLLS_def le_iff_add)
  show ?thesis
    unfolding fuel using wait_removed_more_fuel [OF assms(1), of "ce_now env (eg_world s) + 60" s 120]
    by (simp add: REMOVAL_POLLS_def)
qed

subsection \<open>Starting a task container\<close>

lemma forbidden_dash: "forbidden_user_option arg \<Longrightarrow> \<exists>rest. arg = CHR ''-'' # rest"
  by (cases arg) (auto simp: forbidden_user_option_def starts_with_def)

lemma not_forbidden [simp]: "c \<noteq> CHR ''-'' \<Longrightarrow> \<not> forbidden_user_option (c # rest)"
  by (auto dest: forbidden_dash)

lemma not_forbidden_option:
  "\<not> forbidden_user_option ''-d''" "\<not> forbidden_user_option ''--rm''" "\<not> forbidden_user_option ''-w''"
  "\<not> forbidden_user_option ''-v''" "\<not> forbidden_user_option ''-e''" "\<not> forbidden_user_option (''--network='' @ n)"
  "forbidden_user_option ''--user''"
  by (simp_all add: forbidden_user_option_def starts_with_def)

lemma passthrough_not_user:
  "filter forbidden_user_option (passthrough_args getenv) = []"
proof -
  have heads: "\<forall>n \<in> set env_passthrough. hd (n @ [CHR ''-'']) \<noteq> CHR ''-''"
    by (simp add: env_passthrough_def)
  have name: "forbidden_user_option (n @ ''='' @ v) = False" if "n \<in> set env_passthrough" for n v
    using bspec [OF heads that] by (cases n) auto
  have "filter forbidden_user_option (concat (map (\<lambda>n. case getenv n of Some v \<Rightarrow> if v \<noteq> [] then [''-e'', n @ ''='' @ v] else [] | None \<Rightarrow> []) ns)) = []"
    if "set ns \<subseteq> set env_passthrough" for ns
    using that
  proof (induction ns)
    case (Cons n ns)
    then show ?case using name [of n]
      by (auto simp: not_forbidden_option split: option.splits)
  qed simp
  then show ?thesis by (simp add: passthrough_args_def)
qed

lemma validated_args_not_user:
  "validate_task_container_extra_args extra_args = Inr () \<Longrightarrow> filter forbidden_user_option extra_args = []"
  by (auto simp: validate_task_container_extra_args_def filter_empty_conv split: if_splits)

lemma filter_around:
  "filter P xs = [] \<Longrightarrow> filter P ys = [] \<Longrightarrow> P a \<Longrightarrow> \<not> P b \<Longrightarrow> filter P (xs @ [a, b] @ ys) = [a]"
  by simp

lemma start_command_user:
  assumes "validate_task_container_extra_args extra_args = Inr ()" "is_absolute (ce_cache_root env)"
  obtains opts where "start_command env fixed_image exe extra_args network userbase = exe # opts @ [fixed_image, ''sleep'', ''infinity'']"
    "filter forbidden_user_option opts = [''--user'']" "\<exists>a b. opts = a @ [''--user'', ''0:0''] @ b"
proof -
  let ?cache = "ce_cache_root env"
  let ?pre = "[''run'', ''-d'', ''--rm'', ''--network='' @ network, ''-w'', ''/testbed'']
      @ (if extra_args_mount_bootstrap_cache env extra_args then [] else [''-v'', ?cache @ '':'' @ ?cache])
      @ [''-e'', ''HOME=/root'', ''-e'', ''PATH='' @ (if userbase \<noteq> [] then userbase @ '':'' @ ''/usr/local/bin:/usr/bin:/bin''
             else ''/usr/local/bin:/usr/bin:/bin'')]"
  let ?post = "(if userbase \<noteq> []
            then [''-e'', ''PYTHONUSERBASE='' @ path_parent userbase, ''-e'', ''PIP_BREAK_SYSTEM_PACKAGES=1'']
            else []) @ passthrough_args (ce_getenv env) @ extra_args"
  have cache: "\<not> forbidden_user_option (?cache @ '':'' @ ?cache)"
    using assms(2) by (cases ?cache) (auto simp: starts_with_def is_absolute_def)
  have pre: "filter forbidden_user_option ?pre = []"
    using cache not_forbidden_option(6) [of network] by (simp add: not_forbidden_option(1-5))
  have post: "filter forbidden_user_option ?post = []"
    using validated_args_not_user [OF assms(1)] passthrough_not_user
    by (simp add: not_forbidden_option)
  show thesis
  proof (rule that [of "?pre @ [''--user'', ''0:0''] @ ?post"])
    show "start_command env fixed_image exe extra_args network userbase
        = exe # (?pre @ [''--user'', ''0:0''] @ ?post) @ [fixed_image, ''sleep'', ''infinity'']"
      by (simp add: start_command_def Let_def)
    show "filter forbidden_user_option (?pre @ [''--user'', ''0:0''] @ ?post) = [''--user'']"
      using not_forbidden_option(7) by (intro filter_around pre post) simp_all
  qed blast
qed


text \<open>The guard does not know grouped short options: \<open>-iu 1000:1000\<close> passes it.\<close>

lemma grouped_user_option_passes: "validate_task_container_extra_args [''-iu'', ''1000:1000''] = Inr ()"
  by (simp add: validate_task_container_extra_args_def forbidden_user_option_def starts_with_def)

subsection \<open>Image references are normalised once\<close>

lemma split_first_head: "hd (split_first c s) = takeWhile (\<lambda>d. d \<noteq> c) s"
  by (auto simp: split_first_def intro!: sym [OF takeWhile_eq_all_conv [THEN iffD2]])

lemma takeWhile_slash_append:
  "takeWhile (\<lambda>d. d \<noteq> CHR 0x2F) (p @ CHR 0x2F # s) = takeWhile (\<lambda>d. d \<noteq> CHR 0x2F) p"
  by (induction p) auto

lemma normalize_with_slash:
  "CHR 0x2F \<in> set img \<Longrightarrow> registry_head (takeWhile (\<lambda>d. d \<noteq> CHR 0x2F) img) \<Longrightarrow> normalize_image_reference getenv img = img"
  by (auto simp: normalize_image_reference_def split_first_head Let_def)

text \<open>A normalised reference is a fixed point, as \<open>ensure_fixed_image\<close> and the sandbox backend need,
  which both normalise what they are given: if no registry prefix is configured, or the
  configured one starts with the name of a registry.\<close>

lemma normalization_is_idempotent:
  assumes "registry_prefix getenv = [] \<or> registry_head (hd (split_first CHR 0x2F (registry_prefix getenv)))"
  shows "normalize_image_reference getenv (normalize_image_reference getenv img) = normalize_image_reference getenv img"
proof (cases "img = [] \<or> CHR 0x2F \<in> set img \<and> registry_head (hd (split_first CHR 0x2F img))")
  case True
  then show ?thesis by (auto simp: normalize_image_reference_def Let_def)
next
  case False
  define pre where "pre = (if registry_prefix getenv \<noteq> [] then registry_prefix getenv else ''docker.io'')"
  have head: "registry_head (takeWhile (\<lambda>d. d \<noteq> CHR 0x2F) pre)"
    using assms by (auto simp: pre_def registry_head_def split_first_head)
  have "\<exists>rest. normalize_image_reference getenv img = pre @ CHR 0x2F # rest"
    using False by (auto simp: normalize_image_reference_def pre_def Let_def)
  then obtain rest where "normalize_image_reference getenv img = pre @ CHR 0x2F # rest" ..
  then show ?thesis
    using head by (simp add: normalize_with_slash takeWhile_slash_append)
qed

text \<open>With a prefix that is only a namespace the second normalisation adds it again.\<close>

lemma namespace_prefix_is_doubled:
  "normalize_image_reference (\<lambda>_. Some ''mirror'') (normalize_image_reference (\<lambda>_. Some ''mirror'') ''org/tool'')
     = ''mirror/mirror/org/tool''"
  by code_simp

subsection \<open>Examples\<close>

text \<open>A command line on which every command succeeds with the same output, except that \<open>inspect\<close> finds
  no container and \<open>pull\<close> loses its connection.\<close>

definition example_answer :: "string list \<Rightarrow> cmd_out" where
  "example_answer cmd =
     (if take 1 (drop 1 cmd) = [''inspect''] then CmdExit 1 [] ''Error: No such object: c1''
      else if take 1 (drop 1 cmd) = [''pull''] then CmdExit 1 [] ''connection reset by peer''
      else CmdExit 0 ''c1'' [])"

definition example_env :: "rat command_env" where
  "example_env =
     \<lparr>ce_run = (\<lambda>cmd inp t w. (example_answer cmd, w)), ce_now = (\<lambda>w. w), ce_sleep = (\<lambda>d w. w + d),
      ce_getenv = (\<lambda>_. None), ce_resolve = (\<lambda>p. p), ce_cache_root = ''/root/.cache/task-container-bootstrap'',
      ce_mkdir = (\<lambda>_ w. (Inr (), w)), ce_apt_script = (\<lambda>_ _. [])\<rparr>"

definition example_engine :: "rat engine" where
  "example_engine = \<lparr>eg_world = 0, eg_log = [], eg_cache = []\<rparr>"

lemma example_clock_moves: "clock_moves example_env"
  by (simp add: clock_moves_def example_env_def)

lemma example_stop: "fst (stop_task_container example_env ''c1'' ''docker'' example_engine) = Inr ''c1''"
  by code_simp

lemma example_start:
  "fst (start_task_container example_env ''img'' ''docker'' [''-e'', ''A=1''] ''host'' [] example_engine) = Inr ''c1''"
  by code_simp

lemma example_build:
  "fst (build_fixed_image example_env ''src'' ''fixed'' ''docker'' None example_engine) = Inr ()"
  by code_simp

lemma example_pull_gives_up:
  "map fst (eg_log (snd (pull_source_image example_env ''img'' ''docker'' example_engine)))
     = replicate 3 [''docker'', ''pull'', ''img'']
   \<and> eg_world (snd (pull_source_image example_env ''img'' ''docker'' example_engine)) = 3"
  by code_simp

theorem stop_confirms_removal_witness:
  "\<exists>new. gone_at_the_end new \<and> polls ''docker'' ''c1'' new
     \<and> length (eg_log (snd (stop_task_container example_env ''c1'' ''docker'' example_engine))) = 3 + length new"
proof -
  let ?run = "stop_task_container example_env ''c1'' ''docker'' example_engine"
  have "?run = (Inr ''c1'', snd ?run)" using example_stop by (metis prod.collapse)
  from stop_confirms_removal [OF this] show ?thesis by (force simp: example_engine_def)
qed


theorem build_container_is_dropped_witness:
  "\<exists>cid tail. length tail \<le> 1 \<and> (\<exists>pre out. eg_log (snd (build_fixed_image example_env ''src'' ''fixed'' ''docker'' None example_engine))
       = pre @ [([''docker'', ''stop'', cid], out)] @ tail)"
proof -
  let ?run = "build_fixed_image example_env ''src'' ''fixed'' ''docker'' None example_engine"
  have "?run = (Inr (), snd ?run)" using example_build by (metis prod.collapse)
  from build_container_is_dropped [OF this] obtain so se mid out1 tail where
    log: "eg_log (snd ?run) = eg_log example_engine @ [(build_run_command ''docker'' None ''src'', CmdExit 0 so se)] @ mid
        @ [([''docker'', ''stop'', strip so], out1)] @ tail"
    and tail: "if exited False out1 then map fst tail = [[''docker'', ''rm'', ''-f'', strip so]] else tail = []"
    unfolding Let_def
  proof (elim exE disjE conjE, goal_cases)
    case (2 out so se mid out1 tail)
    show ?case by (rule that [of so se mid out1 tail]) (use 2 in \<open>simp_all split: if_splits\<close>)
  qed simp
  have "length tail \<le> 1" using tail by (auto dest: arg_cong [where f = length] split: if_splits)
  then show ?thesis using log
    by (intro exI [of _ "strip so"] exI [of _ tail] conjI exI [of _ "eg_log example_engine @ (build_run_command ''docker'' None ''src'', CmdExit 0 so se) # mid"] exI [of _ out1]) simp_all
qed

end
