(* ===== verification/AgentTransport.thy ===== *)
theory AgentTransport
  imports StateErr JsonPrint
begin

text \<open>
  The persistent agent process inside a task container (\<open>ContainerAgent\<close> of
  \<open>src/trace_collect/openclaw_tools.py\<close>): the choice of the interpreter, starting and stopping
  the process, and the request loop, which writes one JSON line, reads the answer, restarts a
  process that died or hung, and retries only the tools that change nothing. The operating
  system is an environment on a world of any type. The lemmas show how often a request can
  reach the container, and to which process.
\<close>

subsection \<open>The process interface\<close>

text \<open>The outcomes of the awaited operations that the code tells apart. A failed probe says whether
  its process exists and is still running.\<close>

datatype probe_out = ProbeExit int | ProbeTimeout bool | ProbeOSError bool
datatype kill_out = KillOk | KillGone | KillFailed
datatype drain_out = DrainOk | DrainTimeout | DrainFailed
datatype wait_out = WaitExited | WaitGone | WaitTimeout
datatype close_out = CloseOk | CloseBroken
datatype write_out = WriteOk | WriteBroken
datatype read_out = ReadLine string | ReadTimeout | ReadBroken | ReadReset | ReadOverrun

record 'w pipe_env =
  pe_probe :: "string list \<Rightarrow> 'w \<Rightarrow> probe_out \<times> 'w"
  pe_probe_kill :: "'w \<Rightarrow> kill_out \<times> 'w"
  pe_probe_drain :: "'w \<Rightarrow> drain_out \<times> 'w"
  pe_spawn :: "string list \<Rightarrow> 'w \<Rightarrow> unit res \<times> 'w"
  pe_alive :: "'w \<Rightarrow> bool"
  pe_close :: "'w \<Rightarrow> close_out \<times> 'w"
  pe_wait :: "'w \<Rightarrow> wait_out \<times> 'w"
  pe_kill :: "'w \<Rightarrow> 'w"
  pe_write :: "string \<Rightarrow> 'w \<Rightarrow> write_out \<times> 'w"
  pe_readline :: "rat option \<Rightarrow> 'w \<Rightarrow> read_out \<times> 'w"
  pe_container :: string
  pe_executable :: string
  pe_pythonpath :: "string option"
  pe_path :: "string option"
  pe_pythonuserbase :: "string option"
  pe_script :: string

datatype agent_event = Spawned "string list" | Sent string

record 'w agent =
  ag_world :: 'w
  ag_process :: bool
  ag_runtime :: string
  ag_events :: "agent_event list"

definition on_pipe :: "('w \<Rightarrow> 'a \<times> 'w) \<Rightarrow> ('w agent, 'a) sm" where
  "on_pipe op = (\<lambda>s. case op (ag_world s) of (x, w) \<Rightarrow> (Inr x, s\<lparr>ag_world := w\<rparr>))"

definition emit :: "agent_event \<Rightarrow> ('w agent, unit) sm" where
  "emit e = smod (\<lambda>s. s\<lparr>ag_events := ag_events s @ [e]\<rparr>)"

subsection \<open>Finding the interpreter\<close>

definition PYTHON_CANDIDATES :: "string list" where
  "PYTHON_CANDIDATES =
     [''/usr/bin/python3'', ''/usr/bin/python'', ''/opt/miniconda3/bin/python3'', ''/opt/miniconda3/bin/python'',
      ''/opt/conda/bin/python3'', ''/opt/conda/bin/python'', ''python3'', ''python'']"

definition kill_and_drain_probe :: "'w pipe_env \<Rightarrow> bool \<Rightarrow> ('w agent, unit) sm" where
  "kill_and_drain_probe env running =
     sbind (if running then on_pipe (pe_probe_kill env) else sret KillOk) (\<lambda>k.
       if k = KillFailed then sraise (RuntimeError ''ContainerAgent python probe cleanup failed to kill'')
       else sbind (on_pipe (pe_probe_drain env)) (\<lambda>d.
              case d of
                DrainOk \<Rightarrow> sret ()
              | DrainTimeout \<Rightarrow> sraise (RuntimeError ''ContainerAgent python probe cleanup timed out after killing'')
              | DrainFailed \<Rightarrow> sraise (RuntimeError ''ContainerAgent python probe cleanup failed after killing'')))"

definition probe_command :: "'w pipe_env \<Rightarrow> string \<Rightarrow> string list" where
  "probe_command env cand =
     [pe_executable env, ''exec'', ''-i'', ''-w'', ''/testbed'', pe_container env, cand, ''-c'',
      ''import sys; raise SystemExit(0 if sys.version_info >= (3, 11) else 1)'']"

fun probe_python :: "'w pipe_env \<Rightarrow> string list \<Rightarrow> ('w agent, string) sm" where
  "probe_python env [] = sraise (RuntimeError ''ContainerAgent: no Python >=3.11 found in container'')"
| "probe_python env (cand # cands) =
     sbind (on_pipe (pe_probe env (probe_command env cand))) (\<lambda>out.
       case out of
         ProbeExit rc \<Rightarrow> if rc = 0 then sret cand else probe_python env cands
       | ProbeTimeout running \<Rightarrow> sbind (kill_and_drain_probe env running) (\<lambda>_. probe_python env cands)
       | ProbeOSError running \<Rightarrow>
           sbind (if running then kill_and_drain_probe env running else sret ()) (\<lambda>_.
             sraise (RuntimeError ''ContainerAgent python probe failed to execute'')))"

subsection \<open>Starting and stopping\<close>

definition opt_arg :: "string \<Rightarrow> string option \<Rightarrow> string list" where
  "opt_arg name v = (case v of Some x \<Rightarrow> if x \<noteq> [] then [''-e'', name @ ''='' @ x] else [] | None \<Rightarrow> [])"

definition agent_command :: "'w pipe_env \<Rightarrow> string \<Rightarrow> string list" where
  "agent_command env runtime =
     [pe_executable env, ''exec'', ''-i'', ''-w'', ''/testbed'']
     @ opt_arg ''PYTHONPATH'' (pe_pythonpath env)
     @ opt_arg ''PATH'' (pe_path env)
     @ opt_arg ''PYTHONUSERBASE'' (pe_pythonuserbase env)
     @ (if opt_arg ''PYTHONUSERBASE'' (pe_pythonuserbase env) \<noteq> [] then [''-e'', ''PIP_BREAK_SYSTEM_PACKAGES=1''] else [])
     @ [pe_container env, runtime, ''-u'', ''-c'', pe_script env]"

definition spawn_agent :: "'w pipe_env \<Rightarrow> string list \<Rightarrow> ('w agent, unit) sm" where
  "spawn_agent env cmd =
     sbind (emit (Spawned cmd)) (\<lambda>_.
     sbind (sbind (on_pipe (pe_spawn env cmd)) slift) (\<lambda>_.
       smod (\<lambda>s. s\<lparr>ag_process := True\<rparr>)))"

definition start_agent :: "'w pipe_env \<Rightarrow> ('w agent, unit) sm" where
  "start_agent env =
     sbind (probe_python env PYTHON_CANDIDATES) (\<lambda>runtime.
     sbind (smod (\<lambda>s. s\<lparr>ag_runtime := runtime\<rparr>)) (\<lambda>_.
       spawn_agent env (agent_command env runtime)))"

definition stop_agent :: "'w pipe_env \<Rightarrow> ('w agent, unit) sm" where
  "stop_agent env =
     sbind (sgets ag_process) (\<lambda>present.
       if \<not> present then sret ()
       else
         sbind (smod (\<lambda>s. s\<lparr>ag_process := False\<rparr>)) (\<lambda>_.
         sbind (on_pipe (pe_close env)) (\<lambda>_.
         sbind (on_pipe (pe_wait env)) (\<lambda>w.
           if w \<noteq> WaitTimeout then sret ()
           else
             sbind (sgets (\<lambda>s. pe_alive env (ag_world s))) (\<lambda>running.
             sbind (swhen running (smod (\<lambda>s. s\<lparr>ag_world := pe_kill env (ag_world s)\<rparr>))) (\<lambda>_.
             sbind (on_pipe (pe_wait env)) (\<lambda>w2.
               if w2 = WaitTimeout then sraise (RuntimeError ''ContainerAgent process did not exit after kill'')
               else sret ())))))))"

definition agent_alive :: "'w pipe_env \<Rightarrow> 'w agent \<Rightarrow> bool" where
  "agent_alive env s \<longleftrightarrow> ag_process s \<and> pe_alive env (ag_world s)"

definition restart_agent :: "'w pipe_env \<Rightarrow> ('w agent, unit) sm" where
  "restart_agent env = sbind (stop_agent env) (\<lambda>_. start_agent env)"

subsection \<open>Requests\<close>

definition IDEMPOTENT_TOOLS :: "string list" where
  "IDEMPOTENT_TOOLS = [''read_file'', ''list_dir'']"

definition STRAY_LINES :: nat where
  "STRAY_LINES = 50"

definition response_error :: "string \<Rightarrow> pydict" where
  "response_error message = [(''ok'', PBool False), (''result'', PStr message)]"

definition response_timeout :: pydict where
  "response_timeout = [(''ok'', PBool False), (''result'', PStr ''[timeout]''), (''returncode'', PInt 124)]"

text \<open>The lines before the first one that starts like a JSON object are skipped, at most fifty.
  The answer is that line, or the response for a process that sends none.\<close>

fun skip_stray :: "'w pipe_env \<Rightarrow> rat option \<Rightarrow> nat \<Rightarrow> string \<Rightarrow> ('w agent, pydict + string) sm" where
  "skip_stray env timeout 0 decoded = sret (Inl (response_error ''Error: agent emitted no JSON response''))"
| "skip_stray env timeout (Suc n) decoded =
     (if starts_with ''{'' decoded then sret (Inr decoded)
      else sbind (on_pipe (pe_readline env timeout)) (\<lambda>out.
             case out of
               ReadLine raw \<Rightarrow> skip_stray env timeout n (strip raw)
             | ReadTimeout \<Rightarrow> sret (Inl response_timeout)
             | ReadBroken \<Rightarrow> sret (Inl response_timeout)
             | ReadReset \<Rightarrow> sraise (OSError ''ConnectionResetError'')
             | ReadOverrun \<Rightarrow> sraise (ValueError ''readline'')))"

definition parse_response :: "pydict + string \<Rightarrow> pyval" where
  "parse_response answer =
     (case answer of
        Inl response \<Rightarrow> PDict response
      | Inr decoded \<Rightarrow>
          (case json_loads decoded of
             Some v \<Rightarrow> v
           | None \<Rightarrow> PDict (response_error (''Error: invalid agent response: '' @ take 200 decoded))))"

definition read_response :: "'w pipe_env \<Rightarrow> rat option \<Rightarrow> string \<Rightarrow> ('w agent, pyval) sm" where
  "read_response env timeout raw =
     sbind (skip_stray env timeout STRAY_LINES (strip raw)) (\<lambda>answer. sret (parse_response answer))"

text \<open>The line written and the answer read, or that one of the two broke: a failed write is handled
  like a read that timed out.\<close>

definition send_line :: "'w pipe_env \<Rightarrow> string \<Rightarrow> rat option \<Rightarrow> ('w agent, read_out) sm" where
  "send_line env line timeout =
     sbind (emit (Sent line)) (\<lambda>_.
     sbind (on_pipe (pe_write env line)) (\<lambda>wr.
       if wr = WriteBroken then sret ReadBroken else on_pipe (pe_readline env timeout)))"

definition request_line :: "pydict \<Rightarrow> string" where
  "request_line request = json_dump (PDict request) @ [char_of (10::nat)]"

definition is_idempotent :: "pydict \<Rightarrow> bool" where
  "is_idempotent request \<longleftrightarrow> (case pget_or request ''tool'' (PStr []) of PStr t \<Rightarrow> t \<in> set IDEMPOTENT_TOOLS | _ \<Rightarrow> False)"

definition agent_line_timeout :: "rat option \<Rightarrow> rat option" where
  "agent_line_timeout timeout_s = map_option (\<lambda>t. t + 5) timeout_s"

text \<open>One attempt with a running process; \<^const>\<open>None\<close> is \<open>continue\<close>.\<close>

definition attempt_request :: "'w pipe_env \<Rightarrow> pydict \<Rightarrow> rat option \<Rightarrow> ('w agent, pyval option) sm" where
  "attempt_request env request timeout_s =
     (let broken = (\<lambda>response. sbind (restart_agent env) (\<lambda>_.
                      sret (if is_idempotent request then None else Some (PDict response))))
      in sbind (send_line env (request_line request) (agent_line_timeout timeout_s)) (\<lambda>out.
           case out of
             ReadTimeout \<Rightarrow> broken response_timeout
           | ReadBroken \<Rightarrow> broken response_timeout
           | ReadReset \<Rightarrow> broken response_timeout
           | ReadOverrun \<Rightarrow> sraise (ValueError ''readline'')
           | ReadLine raw \<Rightarrow>
               if raw = [] then broken (response_error ''Error: agent process crashed'')
               else sbind (read_response env (agent_line_timeout timeout_s) raw) (\<lambda>v. sret (Some v))))"

text \<open>The two attempts; only the first one starts a process that is not running.\<close>

definition execute_request :: "'w pipe_env \<Rightarrow> pydict \<Rightarrow> rat option \<Rightarrow> ('w agent, pyval) sm" where
  "execute_request env request timeout_s =
     sbind (sgets (agent_alive env)) (\<lambda>alive.
     sbind (swhen (\<not> alive) (restart_agent env)) (\<lambda>_.
     sbind (attempt_request env request timeout_s) (\<lambda>first.
       case first of
         Some v \<Rightarrow> sret v
       | None \<Rightarrow>
           sbind (sgets (agent_alive env)) (\<lambda>alive2.
             if \<not> alive2 then sret (PDict (response_error ''Error: agent process dead''))
             else sbind (attempt_request env request timeout_s) (\<lambda>second.
                    case second of
                      Some v \<Rightarrow> sret v
                    | None \<Rightarrow> sret (PDict (response_error ''Error: agent restart failed'')))))))"

subsection \<open>What reaches the container\<close>

text \<open>\<open>emits m Q\<close>: the events a computation adds, together with its outcome, satisfy \<open>Q\<close>.\<close>

definition emits :: "('w agent, 'a) sm \<Rightarrow> ('a res \<Rightarrow> agent_event list \<Rightarrow> bool) \<Rightarrow> bool" where
  "emits m Q \<longleftrightarrow> (\<forall>s. \<exists>new. ag_events (snd (m s)) = ag_events s @ new \<and> Q (fst (m s)) new)"

lemma emits_weaken: "emits m Q \<Longrightarrow> (\<And>r new. Q r new \<Longrightarrow> P r new) \<Longrightarrow> emits m P"
  unfolding emits_def by metis

lemma emits_sbind:
  assumes m: "emits m Q" and f: "\<And>x. emits (f x) (R x)"
    and err: "\<And>e new. Q (Inl e) new \<Longrightarrow> P (Inl e) new"
    and ok: "\<And>x a r b. Q (Inr x) a \<Longrightarrow> R x r b \<Longrightarrow> P r (a @ b)"
  shows "emits (sbind m f) P"
  unfolding emits_def
proof
  fix s
  obtain r1 s1 where run: "m s = (r1, s1)" by fastforce
  obtain a where a: "ag_events s1 = ag_events s @ a" "Q r1 a"
    using m run unfolding emits_def by (metis fst_conv snd_conv)
  show "\<exists>new. ag_events (snd (sbind m f s)) = ag_events s @ new \<and> P (fst (sbind m f s)) new"
  proof (cases r1)
    case (Inl e)
    then show ?thesis using run a err by (auto simp: sbind_def)
  next
    case (Inr x)
    obtain b where "ag_events (snd (f x s1)) = ag_events s1 @ b" "R x (fst (f x s1)) b"
      using f unfolding emits_def by metis
    then show ?thesis using run a ok Inr by (auto simp: sbind_def)
  qed
qed

lemma emits_silent: "preserves ag_events m \<Longrightarrow> (\<And>r. Q r []) \<Longrightarrow> emits m Q"
  unfolding emits_def preserves_def by simp

lemma emits_pure: "Q (Inr x) [] \<Longrightarrow> emits (sret x) Q" "Q (Inl e) [] \<Longrightarrow> emits (sraise e) Q"
  by (simp_all add: emits_def sret_def sraise_def)

lemma emits_emit: "Q (Inr ()) [e] \<Longrightarrow> emits (emit e) Q"
  by (simp add: emits_def emit_def smod_def)

lemma emits_if: "(b \<Longrightarrow> emits m Q) \<Longrightarrow> (\<not> b \<Longrightarrow> emits n Q) \<Longrightarrow> emits (if b then m else n) Q"
  by simp

lemma emits_swhen: "(b \<Longrightarrow> emits m Q) \<Longrightarrow> (\<not> b \<Longrightarrow> Q (Inr ()) []) \<Longrightarrow> emits (swhen b m) Q"
  by (simp add: swhen_def emits_pure)

lemma preserves_on_pipe [keeps]: "preserves ag_events (on_pipe op)"
  by (simp add: preserves_def on_pipe_def split: prod.splits)

lemma preserves_case_probe [keeps]:
  "(\<And>c. preserves f (a c)) \<Longrightarrow> (\<And>c. preserves f (b c)) \<Longrightarrow> (\<And>c. preserves f (d c)) \<Longrightarrow>
   preserves f (case x of ProbeExit c \<Rightarrow> a c | ProbeTimeout c \<Rightarrow> b c | ProbeOSError c \<Rightarrow> d c)"
  by (cases x) simp_all

lemma preserves_case_drain [keeps]:
  "preserves f a \<Longrightarrow> preserves f b \<Longrightarrow> preserves f d \<Longrightarrow>
   preserves f (case x of DrainOk \<Rightarrow> a | DrainTimeout \<Rightarrow> b | DrainFailed \<Rightarrow> d)"
  by (cases x) simp_all

lemma preserves_case_read [keeps]:
  "(\<And>l. preserves f (a l)) \<Longrightarrow> preserves f b \<Longrightarrow> preserves f c \<Longrightarrow> preserves f d \<Longrightarrow> preserves f e \<Longrightarrow>
   preserves f (case x of ReadLine l \<Rightarrow> a l | ReadTimeout \<Rightarrow> b | ReadBroken \<Rightarrow> c | ReadReset \<Rightarrow> d | ReadOverrun \<Rightarrow> e)"
  by (cases x) simp_all

lemma kill_and_drain_silent [keeps]: "preserves ag_events (kill_and_drain_probe env running)"
  unfolding kill_and_drain_probe_def by (intro keeps)

lemma probe_python_silent [keeps]: "preserves ag_events (probe_python env cands)"
proof (induction cands)
  case (Cons cand cands)
  show ?case unfolding probe_python.simps by (intro keeps Cons.IH)
qed (simp add: keeps)

lemma stop_agent_silent [keeps]: "preserves ag_events (stop_agent env)"
  unfolding stop_agent_def by (intro keeps) simp_all

lemma skip_stray_silent [keeps]: "preserves ag_events (skip_stray env timeout n decoded)"
proof (induction n arbitrary: decoded)
  case (Suc n)
  show ?case unfolding skip_stray.simps by (intro keeps Suc.IH)
qed (simp add: keeps)

lemma read_response_silent [keeps]: "preserves ag_events (read_response env timeout raw)"
  unfolding read_response_def by (intro keeps)

subsection \<open>Restarts\<close>

text \<open>A restart adds at most one event, the start of a process; a restart that returns adds exactly one.\<close>

definition restarted :: "'a res \<Rightarrow> agent_event list \<Rightarrow> bool" where
  "restarted r new \<longleftrightarrow> (\<exists>cmd. new = [Spawned cmd]) \<or> (new = [] \<and> (\<exists>e. r = Inl e))"

lemma emits_spawn_agent: "emits (spawn_agent env cmd) restarted"
  unfolding spawn_agent_def
proof (rule emits_sbind [where Q = "\<lambda>_ new. new = [Spawned cmd]" and R = "\<lambda>_ _ new. new = []"])
  show "emits (emit (Spawned cmd)) (\<lambda>_ new. new = [Spawned cmd])" by (rule emits_emit) simp
  show "emits (sbind (sbind (on_pipe (pe_spawn env cmd)) slift) (\<lambda>_. smod (\<lambda>s. s\<lparr>ag_process := True\<rparr>))) (\<lambda>_ new. new = [])" for x :: unit
    by (rule emits_silent) (intro keeps, simp_all)
qed (auto simp: restarted_def)

lemma emits_start_agent: "emits (start_agent env) restarted"
  unfolding start_agent_def
proof (rule emits_sbind [where Q = "\<lambda>_ new. new = []" and R = "\<lambda>_. restarted"])
  show "emits (probe_python env PYTHON_CANDIDATES) (\<lambda>_ new. new = [])" by (rule emits_silent) (intro keeps, simp)
  show "emits (sbind (smod (\<lambda>s. s\<lparr>ag_runtime := runtime\<rparr>)) (\<lambda>_. spawn_agent env (agent_command env runtime))) restarted" for runtime
  proof (rule emits_sbind [where Q = "\<lambda>r new. r = Inr () \<and> new = []" and R = "\<lambda>_. restarted"])
    show "emits (smod (\<lambda>s. s\<lparr>ag_runtime := runtime\<rparr>)) (\<lambda>r new. r = Inr () \<and> new = [])"
      by (simp add: emits_def smod_def)
  qed (auto intro: emits_spawn_agent)
qed (auto simp: restarted_def)

lemma emits_restart_agent: "emits (restart_agent env) restarted"
  unfolding restart_agent_def
proof (rule emits_sbind [where Q = "\<lambda>_ new. new = []" and R = "\<lambda>_. restarted"])
  show "emits (stop_agent env) (\<lambda>_ new. new = [])" by (rule emits_silent) (intro keeps, simp)
qed (auto simp: restarted_def intro: emits_start_agent)

subsection \<open>Requests are sent at most once to a process\<close>

definition at_most_one_spawn :: "agent_event list \<Rightarrow> bool" where
  "at_most_one_spawn new \<longleftrightarrow> new = [] \<or> (\<exists>cmd. new = [Spawned cmd])"

lemma emits_send_line: "emits (send_line env line timeout) (\<lambda>_ new. new = [Sent line])"
  unfolding send_line_def
proof (rule emits_sbind [where Q = "\<lambda>_ new. new = [Sent line]" and R = "\<lambda>_ _ new. new = []"])
  show "emits (emit (Sent line)) (\<lambda>_ new. new = [Sent line])" by (rule emits_emit) simp
  show "emits (sbind (on_pipe (pe_write env line))
     (\<lambda>wr. if wr = WriteBroken then sret ReadBroken else on_pipe (pe_readline env timeout))) (\<lambda>_ new. new = [])" for x :: unit
    by (rule emits_silent) (intro keeps, simp)
qed auto

text \<open>One attempt: the line, and a restart when it is to be repeated.\<close>

definition attempted :: "pydict \<Rightarrow> pyval option res \<Rightarrow> agent_event list \<Rightarrow> bool" where
  "attempted request r new \<longleftrightarrow>
     (\<exists>rest. new = Sent (request_line request) # rest \<and> at_most_one_spawn rest
        \<and> (r = Inr None \<longrightarrow> is_idempotent request \<and> rest \<noteq> []))"

lemma emits_attempt: "emits (attempt_request env request timeout_s) (attempted request)"
proof -
  let ?Q = "\<lambda>r new. at_most_one_spawn new \<and> (r = Inr None \<longrightarrow> is_idempotent request \<and> new \<noteq> [])"
  have broken: "emits (sbind (restart_agent env) (\<lambda>_. sret (if is_idempotent request then None else Some (PDict response)))) ?Q"
    for response
  proof (rule emits_sbind [where Q = restarted and R = "\<lambda>_ r new. new = [] \<and> (r = Inr None \<longrightarrow> is_idempotent request)"])
    show "emits (restart_agent env) restarted" by (rule emits_restart_agent)
    show "emits (sret (if is_idempotent request then None else Some (PDict response)))
       (\<lambda>r new. new = [] \<and> (r = Inr None \<longrightarrow> is_idempotent request))" for x :: unit
      by (simp add: emits_def sret_def)
  qed (auto simp: restarted_def at_most_one_spawn_def)
  have response: "emits (sbind (read_response env t raw) (\<lambda>v. sret (Some v))) ?Q" for t raw
  proof (rule emits_sbind [where Q = "\<lambda>_ new. new = []" and R = "\<lambda>_ r new. new = [] \<and> r \<noteq> Inr None"])
    show "emits (read_response env t raw) (\<lambda>_ new. new = [])" by (rule emits_silent) (intro keeps, simp)
    show "emits (sret (Some v)) (\<lambda>r new. new = [] \<and> r \<noteq> Inr None)" for v by (simp add: emits_def sret_def)
  qed (auto simp: at_most_one_spawn_def)
  show ?thesis
    unfolding attempt_request_def Let_def
  proof (rule emits_sbind [OF emits_send_line, where R = "\<lambda>_. ?Q"])
    fix out
    show "emits (case out of
        ReadLine raw \<Rightarrow> if raw = [] then sbind (restart_agent env) (\<lambda>_. sret (if is_idempotent request then None
               else Some (PDict (response_error ''Error: agent process crashed''))))
             else sbind (read_response env (agent_line_timeout timeout_s) raw) (\<lambda>v. sret (Some v))
      | ReadTimeout \<Rightarrow> sbind (restart_agent env) (\<lambda>_. sret (if is_idempotent request then None else Some (PDict response_timeout)))
      | ReadBroken \<Rightarrow> sbind (restart_agent env) (\<lambda>_. sret (if is_idempotent request then None else Some (PDict response_timeout)))
      | ReadReset \<Rightarrow> sbind (restart_agent env) (\<lambda>_. sret (if is_idempotent request then None else Some (PDict response_timeout)))
      | ReadOverrun \<Rightarrow> sraise (ValueError ''readline'')) ?Q"
    proof (cases out)
      case (ReadLine raw)
      show ?thesis unfolding ReadLine read_out.case by (intro emits_if broken response)
    next
      case ReadOverrun
      show ?thesis unfolding ReadOverrun read_out.case by (rule emits_pure) (simp add: at_most_one_spawn_def)
    qed (simp_all only: read_out.case broken)
  qed (auto simp: attempted_def at_most_one_spawn_def)
qed

definition sent_safely :: "pydict \<Rightarrow> agent_event list \<Rightarrow> bool" where
  "sent_safely request new \<longleftrightarrow>
     at_most_one_spawn new
     \<or> (\<exists>a b. new = a @ Sent (request_line request) # b \<and> at_most_one_spawn a \<and> at_most_one_spawn b)
     \<or> (is_idempotent request
        \<and> (\<exists>a cmd b. new = a @ [Sent (request_line request), Spawned cmd, Sent (request_line request)] @ b
             \<and> at_most_one_spawn a \<and> at_most_one_spawn b))"

lemma emits_execute: "emits (execute_request env request timeout_s) (\<lambda>_ new. sent_safely request new)"
proof -
  let ?twice = "\<lambda>(first :: pyval option) new. new = [] \<or> (first = None \<and> (\<exists>rest. new = Sent (request_line request) # rest \<and> at_most_one_spawn rest))"
  have second: "emits (sbind (sgets (agent_alive env)) (\<lambda>alive2.
        if \<not> alive2 then sret (PDict (response_error ''Error: agent process dead''))
        else sbind (attempt_request env request timeout_s) (\<lambda>second.
               case second of Some v \<Rightarrow> sret v | None \<Rightarrow> sret (PDict (response_error ''Error: agent restart failed'')))))
      (\<lambda>_. ?twice None)"
  proof (rule emits_sbind [where Q = "\<lambda>_ new. new = []" and R = "\<lambda>_ _. ?twice None"])
    show "emits (sgets (agent_alive env)) (\<lambda>_ new. new = [])" by (rule emits_silent) (intro keeps, simp)
    show "emits (if \<not> alive2 then sret (PDict (response_error ''Error: agent process dead''))
        else sbind (attempt_request env request timeout_s) (\<lambda>second.
               case second of Some v \<Rightarrow> sret v | None \<Rightarrow> sret (PDict (response_error ''Error: agent restart failed''))))
      (\<lambda>_. ?twice None)" for alive2
    proof (intro emits_if)
      show "emits (sbind (attempt_request env request timeout_s) (\<lambda>second.
          case second of Some v \<Rightarrow> sret v | None \<Rightarrow> sret (PDict (response_error ''Error: agent restart failed'')))) (\<lambda>_. ?twice None)"
      proof (rule emits_sbind [OF emits_attempt, where R = "\<lambda>_ _ new. new = []"])
        show "emits (case x of Some v \<Rightarrow> sret v | None \<Rightarrow> sret (PDict (response_error ''Error: agent restart failed''))) (\<lambda>_ new. new = [])"
          for x by (rule emits_silent) (intro keeps, simp)
      qed (auto simp: attempted_def)
    qed (simp add: emits_pure)
  qed auto
  have first: "emits (sbind (attempt_request env request timeout_s) (\<lambda>first.
       case first of
         Some v \<Rightarrow> sret v
       | None \<Rightarrow> sbind (sgets (agent_alive env)) (\<lambda>alive2.
             if \<not> alive2 then sret (PDict (response_error ''Error: agent process dead''))
             else sbind (attempt_request env request timeout_s) (\<lambda>second.
                    case second of Some v \<Rightarrow> sret v | None \<Rightarrow> sret (PDict (response_error ''Error: agent restart failed''))))))
      (\<lambda>_ new. \<exists>rest. new = Sent (request_line request) # rest \<and> (at_most_one_spawn rest
         \<or> is_idempotent request \<and> (\<exists>cmd b. rest = Spawned cmd # Sent (request_line request) # b \<and> at_most_one_spawn b)))"
  proof (rule emits_sbind [OF emits_attempt, where R = "\<lambda>first _. ?twice first"])
    show "emits (case x of Some v \<Rightarrow> sret v
       | None \<Rightarrow> sbind (sgets (agent_alive env)) (\<lambda>alive2.
             if \<not> alive2 then sret (PDict (response_error ''Error: agent process dead''))
             else sbind (attempt_request env request timeout_s) (\<lambda>second.
                    case second of Some v \<Rightarrow> sret v | None \<Rightarrow> sret (PDict (response_error ''Error: agent restart failed'')))))
        (\<lambda>_. ?twice x)" for x
      using second by (cases x) (simp_all add: emits_pure)
  qed (auto simp: attempted_def at_most_one_spawn_def)
  show ?thesis
    unfolding execute_request_def
  proof (rule emits_sbind [where Q = "\<lambda>r new. new = [] \<and> (\<exists>x. r = Inr x)"])
    show "emits (sgets (agent_alive env)) (\<lambda>r new. new = [] \<and> (\<exists>x. r = Inr x))" by (simp add: emits_def sgets_def)
  next
    fix alive
    show "emits (sbind (swhen (\<not> alive) (restart_agent env)) (\<lambda>_. sbind (attempt_request env request timeout_s) (\<lambda>first.
       case first of
         Some v \<Rightarrow> sret v
       | None \<Rightarrow> sbind (sgets (agent_alive env)) (\<lambda>alive2.
             if \<not> alive2 then sret (PDict (response_error ''Error: agent process dead''))
             else sbind (attempt_request env request timeout_s) (\<lambda>second.
                    case second of Some v \<Rightarrow> sret v | None \<Rightarrow> sret (PDict (response_error ''Error: agent restart failed'')))))))
        (\<lambda>_ new. sent_safely request new)"
    proof (rule emits_sbind [OF _ first, where Q = "\<lambda>r new. at_most_one_spawn new"])
      show "emits (swhen (\<not> alive) (restart_agent env)) (\<lambda>r new. at_most_one_spawn new)"
        by (intro emits_swhen emits_weaken [OF emits_restart_agent]) (auto simp: restarted_def at_most_one_spawn_def)
    qed (force simp: sent_safely_def)+
  qed auto
qed

text \<open>C31: while a request is executed its line is written once, or not at all when no process could be
  started; only a request for a tool that changes nothing may be written a second time, and
  then to a process started after the first write. So no process ever sees a request twice, and
  no command runs twice.\<close>

theorem request_is_sent_once:
  assumes "execute_request env request timeout_s s = (r, s')"
  shows "\<exists>new. ag_events s' = ag_events s @ new \<and> sent_safely request new"
  using emits_execute [of env request timeout_s, unfolded emits_def, THEN spec, of s] assms by simp

text \<open>The interpreter that is found is one of the candidates.\<close>

lemma probed_interpreter: "probe_python env cands s = (Inr cand, s') \<Longrightarrow> cand \<in> set cands"
proof (induction cands arbitrary: s)
  case (Cons c cands)
  obtain out w where probe: "pe_probe env (probe_command env c) (ag_world s) = (out, w)" by fastforce
  show ?case
  proof (cases out)
    case (ProbeOSError running)
    then show ?thesis using Cons.prems probe
      by (auto simp: sbind_def on_pipe_def sraise_def split: prod.splits sum.splits)
  qed (use Cons probe in \<open>auto simp: sbind_def on_pipe_def sret_def split: prod.splits sum.splits if_splits\<close>)
qed (simp add: sraise_def)

subsection \<open>Examples\<close>

text \<open>A pipe whose reads follow a script; a process that starts, runs and ends at once when asked.\<close>

definition scripted_env :: "read_out list pipe_env" where
  "scripted_env =
     \<lparr>pe_probe = (\<lambda>_ w. (ProbeExit 0, w)), pe_probe_kill = (\<lambda>w. (KillOk, w)), pe_probe_drain = (\<lambda>w. (DrainOk, w)),
      pe_spawn = (\<lambda>_ w. (Inr (), w)), pe_alive = (\<lambda>_. True), pe_close = (\<lambda>w. (CloseOk, w)),
      pe_wait = (\<lambda>w. (WaitExited, w)), pe_kill = (\<lambda>w. w), pe_write = (\<lambda>_ w. (WriteOk, w)),
      pe_readline = (\<lambda>_ w. case w of [] \<Rightarrow> (ReadTimeout, []) | r # rest \<Rightarrow> (r, rest)),
      pe_container = ''c1'', pe_executable = ''docker'', pe_pythonpath = None, pe_path = None,
      pe_pythonuserbase = None, pe_script = []\<rparr>"

definition scripted_agent :: "read_out list \<Rightarrow> read_out list agent" where
  "scripted_agent script = \<lparr>ag_world = script, ag_process = True, ag_runtime = ''python3'', ag_events = []\<rparr>"

definition exec_request :: "string \<Rightarrow> pydict" where
  "exec_request command = [(''tool'', PStr ''exec''), (''args'', PDict [(''command'', PStr command)])]"

lemma request_is_sent_once_witness:
  "\<exists>new. ag_events (snd (execute_request scripted_env (exec_request ''make'') None (scripted_agent [ReadTimeout]))) = new
     \<and> sent_safely (exec_request ''make'') new"
proof -
  let ?run = "execute_request scripted_env (exec_request ''make'') None (scripted_agent [ReadTimeout])"
  have "?run = (fst ?run, snd ?run)" by simp
  from request_is_sent_once [OF this] show ?thesis by (simp add: scripted_agent_def)
qed

text \<open>A read that times out while stray lines are skipped does not restart the process, unlike every
  other time-out. The answer of the first command is then taken for the answer of the second.\<close>

definition stray_then_late :: "read_out list" where
  "stray_then_late = [ReadLine ''warning: slow'', ReadTimeout, ReadLine ''{\"result\": \"first\"}'']"

lemma late_answer_is_taken_for_the_next:
  "let first = execute_request scripted_env (exec_request ''one'') (Some 1) (scripted_agent stray_then_late);
       second = execute_request scripted_env (exec_request ''two'') (Some 1) (snd first)
   in fst first = Inr (PDict response_timeout) \<and> fst second = Inr (PDict [(''result'', PStr ''first'')])
      \<and> ag_events (snd second) = [Sent (request_line (exec_request ''one'')), Sent (request_line (exec_request ''two''))]"
  by code_simp

end
