(* ===== verification/ResourceTimeout.thy ===== *)
theory ResourceTimeout
  imports TraceTools
begin

text \<open>
  The resource-integrated timeout of the agent script ends every command. The loop of
  \<open>_run_shell_command_with_resource_timeout\<close> has no wall-clock limit: it advances a virtual time
  by the progress that the counters show against the recorded usage, kills the command when the
  virtual time is used up, and kills it when it has stalled while the recording demands
  resources. The proof gives a potential that every poll decreases by one.
\<close>

subsection \<open>The potential of a poll\<close>

text \<open>Recorded samples that the virtual time has not passed.\<close>

definition samples_left :: "resource_sample list \<Rightarrow> rat \<Rightarrow> nat" where
  "samples_left samples t = length (filter (\<lambda>s. t < sm_end s) samples)"

text \<open>The time a stall may still take, with half a poll to spare.\<close>

definition stall_left :: "rat \<Rightarrow> rat \<Rightarrow> rat" where
  "stall_left stall_timeout_s stalled = max 0 (stall_timeout_s - stalled + 1/2)"

definition poll_potential :: "resource_sample list \<Rightarrow> rat \<Rightarrow> rat \<Rightarrow> rat \<Rightarrow> rat \<Rightarrow> rat" where
  "poll_potential samples timeout_s stall_timeout_s t stalled =
     (timeout_s - t) * 10 ^ 6 * (2 * stall_timeout_s + 2) + 2 * stall_left stall_timeout_s stalled
     + of_nat (samples_left samples t)"

text \<open>Consecutive polls of a command that keeps running are at least half a second apart.\<close>

fun half_second_polls :: "rat \<Rightarrow> poll list \<Rightarrow> bool" where
  "half_second_polls now [] = True"
| "half_second_polls now (PollEnded so se rc # polls) = True"
| "half_second_polls now (PollRunning cur # polls) = (now + 1/2 \<le> ct_time cur \<and> half_second_polls (ct_time cur) polls)"

lemma samples_left_mono: "t \<le> t' \<Longrightarrow> samples_left samples t' \<le> samples_left samples t"
  unfolding samples_left_def by (induction samples) auto

lemma samples_left_hop: "s \<in> set samples \<Longrightarrow> t < sm_end s \<Longrightarrow> samples_left samples (sm_end s) + 1 \<le> samples_left samples t"
proof (induction samples)
  case (Cons x samples)
  have "samples_left samples (sm_end s) \<le> samples_left samples t"
    by (rule samples_left_mono) (use Cons.prems in simp)
  then show ?case using Cons by (auto simp: samples_left_def)
qed simp

lemma sample_at_in: "samples \<noteq> [] \<Longrightarrow> \<exists>s. resource_sample_at samples t = Some s \<and> s \<in> set samples"
  by (auto simp: resource_sample_at_def find_Some_iff split: option.splits)

lemma sample_at_ends_later:
  assumes "samples \<noteq> []" "t < sm_end (last samples)" "resource_sample_at samples t = Some s"
  shows "t < sm_end s"
  using assms by (auto simp: resource_sample_at_def find_Some_iff split: option.splits)

subsection \<open>Progress\<close>

lemma progress_nonneg: "0 \<le> resource_progress_increment samples t wall deltas"
  by (auto simp: resource_progress_increment_def Let_def split: prod.splits option.splits)

text \<open>Without demand the virtual time follows the wall clock up to the end of the sample.\<close>

lemma progress_without_demand:
  assumes "samples \<noteq> []" "\<not> resource_has_active_demand samples t" "1/2 \<le> wall"
  shows "let p = resource_progress_increment samples t wall deltas in
    1/2 \<le> p \<or> (\<exists>s \<in> set samples. t < sm_end s \<and> p = sm_end s - t)"
proof (cases "sm_end (last samples) \<le> t")
  case True
  then show ?thesis using assms by (auto simp: resource_progress_increment_def Let_def split: prod.splits)
next
  case False
  obtain s where s: "resource_sample_at samples t = Some s" "s \<in> set samples"
    using sample_at_in [OF assms(1)] by blast
  have later: "t < sm_end s" using sample_at_ends_later [OF assms(1) _ s(1)] False by simp
  have "progress_candidate cpu_rate_eps (sm_cpu_rate s) a = []" "progress_candidate net_rate_eps (sm_rx_rate s) a = []"
    "progress_candidate net_rate_eps (sm_tx_rate s) a = []" for a
    using assms(2) s(1) by (auto simp: resource_has_active_demand_def progress_candidate_def split: option.splits)
  then have "resource_progress_increment samples t wall deltas = min wall (sm_end s - t)"
    using assms(1,3) s(1) later False
    by (simp add: resource_progress_increment_def Let_def split: prod.splits)
  then show ?thesis using s(2) later assms(3) by (auto simp: Let_def min_def)
qed

subsection \<open>Every poll uses up potential\<close>

lemma stall_left_nonneg: "0 \<le> stall_left st stalled"
  by (simp add: stall_left_def)

lemma potential_nonneg: "t < timeout_s \<Longrightarrow> 0 \<le> st \<Longrightarrow> 0 \<le> poll_potential samples timeout_s st t stalled"
  unfolding poll_potential_def using stall_left_nonneg [of st stalled] by (intro add_nonneg_nonneg mult_nonneg_nonneg) auto

text \<open>A poll with progress: the virtual time pays for a new stall.\<close>

lemma potential_progress:
  assumes "progress_eps_s < p" "0 \<le> st"
  shows "poll_potential samples timeout_s st (t + p) 0 + 1 \<le> poll_potential samples timeout_s st t stalled"
proof -
  have "1 \<le> p * 10 ^ 6" using assms(1) by (simp add: progress_eps_s_def)
  then have pay: "2 * st + 2 \<le> p * 10 ^ 6 * (2 * st + 2)" using assms(2) mult_right_mono [of 1 "p * 10 ^ 6" "2 * st + 2"] by simp
  have "0 < p" using assms(1) by (simp add: progress_eps_s_def)
  then have left: "of_nat (samples_left samples (t + p)) \<le> (of_nat (samples_left samples t) :: rat)"
    using samples_left_mono [of t "t + p" samples] by simp
  have new: "2 * stall_left st 0 = 2 * st + 1" using assms(2) by (simp add: stall_left_def)
  have split: "(timeout_s - (t + p)) * 10 ^ 6 * (2 * st + 2) = (timeout_s - t) * 10 ^ 6 * (2 * st + 2) - p * 10 ^ 6 * (2 * st + 2)"
    by (simp add: algebra_simps)
  show ?thesis
    unfolding poll_potential_def split using pay left new stall_left_nonneg [of st stalled] by linarith
qed

text \<open>A poll without progress before the stall is over: half a second of the stall is used up.\<close>

lemma potential_stall:
  assumes "0 \<le> p" "0 \<le> st" "stalled < st" "stalled + 1/2 \<le> stalled'"
  shows "poll_potential samples timeout_s st (t + p) stalled' + 1 \<le> poll_potential samples timeout_s st t stalled"
proof -
  have left: "of_nat (samples_left samples (t + p)) \<le> (of_nat (samples_left samples t) :: rat)"
    using samples_left_mono [of t "t + p" samples] assms(1) by simp
  have stall: "2 * stall_left st stalled' + 1 \<le> 2 * stall_left st stalled"
    using assms(3,4) by (auto simp: stall_left_def max_def)
  have "0 \<le> p * 10 ^ 6 * (2 * st + 2)" using assms(1,2) by simp
  moreover have "(timeout_s - (t + p)) * 10 ^ 6 * (2 * st + 2) = (timeout_s - t) * 10 ^ 6 * (2 * st + 2) - p * 10 ^ 6 * (2 * st + 2)"
    by (simp add: algebra_simps)
  ultimately show ?thesis unfolding poll_potential_def using left stall by linarith
qed

text \<open>A poll without progress after it: the recording demands nothing, and a sample is passed.\<close>

lemma potential_hop:
  assumes "s \<in> set samples" "t < sm_end s" "p = sm_end s - t" "0 \<le> st" "stalled \<le> stalled'"
  shows "poll_potential samples timeout_s st (t + p) stalled' + 1 \<le> poll_potential samples timeout_s st t stalled"
proof -
  have "samples_left samples (t + p) + 1 \<le> samples_left samples t"
    using samples_left_hop [OF assms(1,2)] assms(3) by simp
  then have left: "of_nat (samples_left samples (t + p)) + 1 \<le> (of_nat (samples_left samples t) :: rat)"
    by (metis of_nat_1 of_nat_add of_nat_le_iff)
  have stall: "2 * stall_left st stalled' \<le> 2 * stall_left st stalled"
    using assms(5) by (auto simp: stall_left_def max_def)
  have "0 \<le> p * 10 ^ 6 * (2 * st + 2)" using assms(2-4) by simp
  moreover have "(timeout_s - (t + p)) * 10 ^ 6 * (2 * st + 2) = (timeout_s - t) * 10 ^ 6 * (2 * st + 2) - p * 10 ^ 6 * (2 * st + 2)"
    by (simp add: algebra_simps)
  ultimately show ?thesis unfolding poll_potential_def using left stall by linarith
qed

subsection \<open>The loop ends\<close>

text \<open>The state of the loop: time is left, and a stall that is over finds no demand.\<close>

definition loop_goes_on :: "resource_sample list \<Rightarrow> rat \<Rightarrow> rat \<Rightarrow> rat \<Rightarrow> rat \<Rightarrow> bool" where
  "loop_goes_on samples timeout_s st t stalled \<longleftrightarrow>
     t < timeout_s \<and> (st \<le> stalled \<longrightarrow> \<not> resource_has_active_demand samples t)"

lemma poll_uses_potential:
  assumes "samples \<noteq> []" "0 \<le> st" "loop_goes_on samples timeout_s st t (ct_time prev - since)"
    and "ct_time prev + 1/2 \<le> ct_time cur"
    and p: "p = resource_progress_increment samples t (max 0 (ct_time cur - ct_time prev)) deltas"
    and since': "since' = (if progress_eps_s < p then ct_time cur else since)"
  shows "poll_potential samples timeout_s st (t + p) (ct_time cur - since') + 1
    \<le> poll_potential samples timeout_s st t (ct_time prev - since)"
proof (cases "progress_eps_s < p")
  case True
  then show ?thesis using potential_progress [OF True assms(2)] since' by simp
next
  case False
  have nonneg: "0 \<le> p" using progress_nonneg p by simp
  show ?thesis
  proof (cases "ct_time prev - since < st")
    case True
    then show ?thesis using potential_stall [OF nonneg assms(2) True] assms(4) since' False by simp
  next
    case over: False
    then have "\<not> resource_has_active_demand samples t" using assms(3) by (simp add: loop_goes_on_def)
    then have "1/2 \<le> p \<or> (\<exists>s \<in> set samples. t < sm_end s \<and> p = sm_end s - t)"
      using progress_without_demand [OF assms(1)] assms(4) p by (simp add: Let_def)
    moreover have "\<not> 1/2 \<le> p" using False by (simp add: progress_eps_s_def)
    ultimately obtain s where "s \<in> set samples" "t < sm_end s" "p = sm_end s - t" by blast
    then show ?thesis using potential_hop [OF _ _ _ assms(2)] assms(4) since' False by simp
  qed
qed

lemma resource_loop_ends:
  assumes "samples \<noteq> []" "0 \<le> st"
  shows "loop_goes_on samples timeout_s st t (ct_time prev - since) \<Longrightarrow> half_second_polls (ct_time prev) polls \<Longrightarrow>
    poll_potential samples timeout_s st t (ct_time prev - since) < of_nat (length polls) \<Longrightarrow>
    resource_loop samples timeout_s st killed polls t prev since \<noteq> None"
proof (induction polls arbitrary: t prev since)
  case Nil
  then show ?case using potential_nonneg [of t timeout_s st samples "ct_time prev - since"] assms(2)
    by (simp add: loop_goes_on_def)
next
  case (Cons q polls)
  show ?case
  proof (cases q)
    case (PollRunning cur)
    define deltas where "deltas = (counter_delta (ct_cpu prev) (ct_cpu cur), counter_delta (ct_rx prev) (ct_rx cur),
      counter_delta (ct_tx prev) (ct_tx cur))"
    define p where "p = resource_progress_increment samples t (max 0 (ct_time cur - ct_time prev)) deltas"
    define since' where "since' = (if progress_eps_s < p then ct_time cur else since)"
    have apart: "ct_time prev + 1/2 \<le> ct_time cur" "half_second_polls (ct_time cur) polls"
      using Cons.prems(2) PollRunning by auto
    have less: "poll_potential samples timeout_s st (t + p) (ct_time cur - since') < of_nat (length polls)"
      using poll_uses_potential [OF assms Cons.prems(1) apart(1) p_def since'_def] Cons.prems(3) by simp
    show ?thesis
    proof (cases "loop_goes_on samples timeout_s st (t + p) (ct_time cur - since')")
      case True
      have "resource_loop samples timeout_s st killed (q # polls) t prev since
        = resource_loop samples timeout_s st killed polls (t + p) cur since'"
        using True by (auto simp: PollRunning Let_def loop_goes_on_def p_def deltas_def since'_def)
      then show ?thesis using Cons.IH [OF True apart(2) less] by simp
    next
      case False
      then show ?thesis
        by (auto simp: PollRunning Let_def loop_goes_on_def p_def deltas_def since'_def)
    qed
  qed simp
qed

text \<open>C32: a command under the resource-integrated timeout always ends: if every poll of the running command
  comes at least half a second after the previous one, then after at most 122 million polls
  per second of the timeout, 121 and one for each recorded sample, it has ended by itself or was
  killed, however the counters behave.\<close>

theorem resource_timeout_ends:
  assumes "0 < timeout_s" "half_second_polls (ct_time start) polls"
    and "122000000 * timeout_s + 121 + of_nat (length (resource_source_samples timeline)) < of_nat (length polls)"
  shows "run_with_resource_timeout timeout_s timeline killed start polls \<noteq> Some None"
proof (cases "resource_source_samples timeline = []")
  case True
  then show ?thesis by (simp add: run_with_resource_timeout_def)
next
  case False
  let ?samples = "resource_source_samples timeline" and ?st = "max 5 (min 60 timeout_s)"
  have st: "0 \<le> ?st" "?st \<le> 60" by (auto simp: max_def min_def)
  have "timeout_s * 10 ^ 6 * (2 * ?st + 2) \<le> timeout_s * 10 ^ 6 * 122"
    using assms(1) st(2) by (intro mult_left_mono) auto
  moreover have "2 * stall_left ?st 0 \<le> 121" using st by (simp add: stall_left_def)
  moreover have "of_nat (samples_left ?samples 0) \<le> (of_nat (length ?samples) :: rat)" by (simp add: samples_left_def)
  ultimately have "poll_potential ?samples timeout_s ?st 0 0 < of_nat (length polls)"
    using assms(3) unfolding poll_potential_def by simp
  moreover have "loop_goes_on ?samples timeout_s ?st 0 0" using assms(1) by (simp add: loop_goes_on_def)
  ultimately show ?thesis
    using resource_loop_ends [OF False st(1), of timeout_s 0 start "ct_time start" polls killed] assms(2) False
    by (simp add: run_with_resource_timeout_def Let_def)
qed

subsection \<open>An example\<close>

definition steady_poll :: "nat \<Rightarrow> poll" where
  "steady_poll i = PollRunning \<lparr>ct_time = of_nat i / 2, ct_cpu = None, ct_rx = None, ct_tx = None\<rparr>"

definition idle_timeline :: pyval where
  "idle_timeline = PDict [(''version'', PInt 1), (''samples'', PList [PDict [(''dt_s'', PInt 1)]])]"

lemma half_second_steady: "half_second_polls (of_nat m / 2) (map steady_poll [Suc m..<Suc m + n])"
proof (induction n arbitrary: m)
  case (Suc n)
  have "[Suc m..<Suc m + Suc n] = Suc m # [Suc (Suc m)..<Suc (Suc m) + n]" by (simp add: upt_conv_Cons)
  then have "map steady_poll [Suc m..<Suc m + Suc n] = steady_poll (Suc m) # map steady_poll [Suc (Suc m)..<Suc (Suc m) + n]"
    by simp
  moreover have "half_second_polls (of_nat m / 2) (steady_poll (Suc m) # rest) = half_second_polls (of_nat (Suc m) / 2) rest" for rest
    by (simp add: steady_poll_def add_divide_distrib)
  ultimately show ?case using Suc.IH [of "Suc m"] by (simp only:)
qed simp

theorem resource_timeout_ends_witness:
  "run_with_resource_timeout (1 / 10 ^ 6) idle_timeline ([], []) \<lparr>ct_time = 0, ct_cpu = None, ct_rx = None, ct_tx = None\<rparr>
     (map steady_poll [1..<301]) \<noteq> Some None
   \<and> resource_source_samples idle_timeline \<noteq> []"
proof
  let ?start = "\<lparr>ct_time = (0::rat), ct_cpu = None, ct_rx = None, ct_tx = None\<rparr>"
  have one: "length (resource_source_samples idle_timeline) = 1" by code_simp
  show "run_with_resource_timeout (1 / 10 ^ 6) idle_timeline ([], []) ?start (map steady_poll [1..<301]) \<noteq> Some None"
  proof (rule resource_timeout_ends)
    show "half_second_polls (ct_time ?start) (map steady_poll [1..<301])"
      using half_second_steady [of 0 300] by simp
  qed (simp_all add: one)
  show "resource_source_samples idle_timeline \<noteq> []" using one by auto
qed

end
