(* ===== verification/SessionLifecycle.thy ===== *)
theory SessionLifecycle
  imports ContainerEngine PyJson
begin

text \<open>
  The life of a replay session in \<open>src/trace_collect/simulator.py\<close>: its container backend
  (\<open>DockerBackend.start\<close> and \<open>stop\<close> of \<open>src/agents/sandbox_runtime.py\<close>), the preparation, the
  finalization, the workers of the queue and of a wave, and the images of a sweep. The
  operations on containers, agents, samplers and files act on a world of any type and may
  raise; what was attempted goes to a log of events. The lemmas show that no failure skips the
  stop of a started container inside one session, in which order errors win, and what happens
  to images and sessions after an error.
\<close>

subsection \<open>The world of a session\<close>

record 'w life_env =
  le_prebuilt :: "string option"
  le_image_name :: "string option"
  le_source_image :: string
  le_ensure_image :: "string \<Rightarrow> ('w, string \<times> rat) sm"
  le_start_container :: "string \<Rightarrow> ('w, string) sm"
  le_apt_mirror :: "string \<Rightarrow> ('w, (string \<times> string) list option) sm"
  le_agent_start :: "string \<Rightarrow> ('w, unit) sm"
  le_agent_stop :: "('w, unit) sm"
  le_stop_container :: "string \<Rightarrow> ('w, string) sm"
  le_remove_image :: "string \<Rightarrow> ('w, bool) sm"
  le_write_startup :: "string \<Rightarrow> ('w, unit) sm"
  le_make_output_dir :: "('w, unit) sm"
  le_restore_artifacts :: "('w, unit) sm"
  le_sampler_start :: "string \<Rightarrow> ('w, unit) sm"
  le_sampler_stop :: "('w, pydict list) sm"
  le_register :: "string \<Rightarrow> ('w, unit) sm"
  le_unregister :: "string \<Rightarrow> ('w, unit) sm"
  le_summarize :: "pydict list \<Rightarrow> pydict"
  le_write_resources :: "pydict list \<Rightarrow> pydict \<Rightarrow> ('w, unit) sm"

datatype life_event =
    ContainerStarted string
  | ContainerStop string
  | AgentStop
  | ImageRemove string
  | ResourcesWrite pydict
  | Unregister string

datatype container_kind = DockerKind | FakeKind | BareKind

record prepared_container =
  pc_id :: string
  pc_kind :: container_kind
  pc_agent :: bool
  pc_fixed_image :: "string option"
  pc_cleanup :: bool

record 'w life =
  lf_world :: 'w
  lf_events :: "life_event list"
  lf_agent :: bool
  lf_container_id :: "string option"
  lf_fixed :: "string option"
  lf_cleanup :: bool
  lf_phases :: "(string \<times> string) list"
  lf_recorder :: bool
  lf_startup_written :: bool
  lf_prepared :: "prepared_container option"
  lf_sampler :: bool
  lf_output_dir :: bool
  lf_resources_written :: bool
  lf_resource_recorder :: bool
  lf_monitoring :: bool
  lf_policy :: pydict

definition on_life :: "('w, 'a) sm \<Rightarrow> ('w life, 'a) sm" where
  "on_life m = szoom lf_world (\<lambda>w s. s\<lparr>lf_world := w\<rparr>) m"

definition log_event :: "life_event \<Rightarrow> ('w life, unit) sm" where
  "log_event e = smod (\<lambda>s. s\<lparr>lf_events := lf_events s @ [e]\<rparr>)"

text \<open>An operation whose attempt is logged before it runs.\<close>

definition attempt :: "life_event \<Rightarrow> ('w, 'a) sm \<Rightarrow> ('w life, 'a) sm" where
  "attempt e m = sbind (log_event e) (\<lambda>_. on_life m)"

definition error_of :: "'a res \<Rightarrow> err option" where
  "error_of r = (case r of Inl e \<Rightarrow> Some e | Inr _ \<Rightarrow> None)"

text \<open>The first error of a list is raised.\<close>

fun raise_first :: "err option list \<Rightarrow> ('s, unit) sm" where
  "raise_first [] = sret ()"
| "raise_first (Some e # es) = sraise e"
| "raise_first (None # es) = raise_first es"

subsection \<open>The container backend: start\<close>

text \<open>A phase of the startup record: it is finished with a status whether its body returns or
  raises.\<close>

definition finish_phase :: "string \<Rightarrow> string \<Rightarrow> ('w life, unit) sm" where
  "finish_phase name status =
     smod (\<lambda>s. if lf_recorder s then s\<lparr>lf_phases := lf_phases s @ [(name, status)]\<rparr> else s)"

definition in_phase :: "string \<Rightarrow> ('a \<Rightarrow> string) \<Rightarrow> ('w life, 'a) sm \<Rightarrow> ('w life, 'a) sm" where
  "in_phase name status m =
     scatch (sbind m (\<lambda>x. sbind (finish_phase name (status x)) (\<lambda>_. sret x)))
            (\<lambda>e. sbind (finish_phase name ''failed'') (\<lambda>_. sraise e))"

definition write_startup :: "'w life_env \<Rightarrow> string \<Rightarrow> ('w life, unit) sm" where
  "write_startup env status =
     sbind (sgets (\<lambda>s. lf_recorder s \<and> \<not> lf_startup_written s)) (\<lambda>due.
       swhen due (sbind (on_life (le_write_startup env status)) (\<lambda>_.
         smod (\<lambda>s. s\<lparr>lf_startup_written := True\<rparr>))))"

definition success_status :: "'a \<Rightarrow> string" where
  "success_status x = ''success''"

definition backend_ensure_fixed_image :: "'w life_env \<Rightarrow> ('w life, string) sm" where
  "backend_ensure_fixed_image env =
     in_phase ''ensure_fixed_image'' success_status
       (sbind (case le_prebuilt env of
                 Some name \<Rightarrow> sbind (smod (\<lambda>s. s\<lparr>lf_cleanup := False\<rparr>)) (\<lambda>_. sret name)
               | None \<Rightarrow>
                   (case le_image_name env of
                      None \<Rightarrow> sraise (ValueError ''fixed_image_name is required without prebuild'')
                    | Some name \<Rightarrow> sbind (on_life (le_ensure_image env name)) (\<lambda>(fixed, _). sret fixed))) (\<lambda>fixed.
        sbind (smod (\<lambda>s. s\<lparr>lf_fixed := Some fixed\<rparr>)) (\<lambda>_. sret fixed)))"

definition backend_start_container :: "'w life_env \<Rightarrow> string \<Rightarrow> ('w life, string) sm" where
  "backend_start_container env fixed =
     in_phase ''start_task_container'' success_status
       (sbind (on_life (le_start_container env fixed)) (\<lambda>cid.
        sbind (log_event (ContainerStarted cid)) (\<lambda>_.
        sbind (smod (\<lambda>s. s\<lparr>lf_container_id := Some cid\<rparr>)) (\<lambda>_. sret cid))))"

definition mirror_status :: "(string \<times> string) list option \<Rightarrow> string" where
  "mirror_status info =
     (case info of
        None \<Rightarrow> ''skipped''
      | Some d \<Rightarrow> if dget d ''configured'' = Some ''false'' then ''skipped'' else ''success'')"

definition backend_configure_apt_mirror :: "'w life_env \<Rightarrow> string \<Rightarrow> ('w life, unit) sm" where
  "backend_configure_apt_mirror env cid =
     discard_result (in_phase ''configure_apt_mirror'' mirror_status (on_life (le_apt_mirror env cid)))"

definition backend_start_agent :: "'w life_env \<Rightarrow> string \<Rightarrow> ('w life, unit) sm" where
  "backend_start_agent env cid =
     sbind (smod (\<lambda>s. s\<lparr>lf_agent := True\<rparr>)) (\<lambda>_.
       in_phase ''container_agent_start'' success_status (on_life (le_agent_start env cid)))"

definition start_steps :: "'w life_env \<Rightarrow> ('w life, unit) sm" where
  "start_steps env =
     sbind (backend_ensure_fixed_image env) (\<lambda>fixed.
     sbind (backend_start_container env fixed) (\<lambda>cid.
     sbind (backend_configure_apt_mirror env cid) (\<lambda>_.
     sbind (backend_start_agent env cid) (\<lambda>_.
       write_startup env ''success''))))"

text \<open>The stop of the container, when there is one: its error, and whether it was stopped.\<close>

definition stop_backend_container :: "'w life_env \<Rightarrow> ('w life, err option \<times> bool) sm" where
  "stop_backend_container env =
     sbind (sgets lf_container_id) (\<lambda>c.
       case c of
         None \<Rightarrow> sret (None, False)
       | Some cid \<Rightarrow>
           sbind (sattempt (attempt (ContainerStop cid) (le_stop_container env cid))) (\<lambda>r.
             case r of
               Inl e \<Rightarrow> sret (Some e, False)
             | Inr _ \<Rightarrow> sbind (smod (\<lambda>s. s\<lparr>lf_container_id := None\<rparr>)) (\<lambda>_. sret (None, True))))"

definition remove_backend_image :: "'w life_env \<Rightarrow> bool \<Rightarrow> ('w life, err option) sm" where
  "remove_backend_image env stopped =
     sbind (sgets (\<lambda>s. if stopped \<and> lf_cleanup s then lf_fixed s else None)) (\<lambda>img.
       case img of
         None \<Rightarrow> sret None
       | Some name \<Rightarrow>
           if name = [] then sret None
           else sbind (sattempt (attempt (ImageRemove name) (le_remove_image env name))) (\<lambda>r. sret (error_of r)))"

definition stop_backend_agent :: "'w life_env \<Rightarrow> ('w life, err option) sm" where
  "stop_backend_agent env =
     sbind (sgets lf_agent) (\<lambda>present.
     sbind (smod (\<lambda>s. s\<lparr>lf_agent := False\<rparr>)) (\<lambda>_.
       if present then sbind (sattempt (attempt AgentStop (le_agent_stop env))) (\<lambda>r. sret (error_of r))
       else sret None))"

definition cleanup_failed_start :: "'w life_env \<Rightarrow> ('w life, unit) sm" where
  "cleanup_failed_start env =
     sbind (sattempt (write_startup env ''failed'')) (\<lambda>_.
     sbind (stop_backend_agent env) (\<lambda>_.
     sbind (stop_backend_container env) (\<lambda>(stop_error, stopped).
     sbind (remove_backend_image env stopped) (\<lambda>image_error.
       raise_first [stop_error, image_error]))))"

definition backend_start :: "'w life_env \<Rightarrow> ('w life, unit) sm" where
  "backend_start env =
     scatch (start_steps env) (\<lambda>e. sbind (cleanup_failed_start env) (\<lambda>_. sraise e))"

subsection \<open>The container backend: stop\<close>

definition backend_stop :: "'w life_env \<Rightarrow> ('w life, unit) sm" where
  "backend_stop env =
     sbind (stop_backend_agent env) (\<lambda>agent_error.
     sbind (stop_backend_container env) (\<lambda>(stop_error, stopped).
     sbind (remove_backend_image env stopped) (\<lambda>image_error.
       raise_first [stop_error, agent_error, image_error])))"

subsection \<open>Finalizing a session\<close>

definition monitoring_status :: "pydict list \<Rightarrow> bool \<Rightarrow> string" where
  "monitoring_status samples enabled =
     (if samples \<noteq> [] then ''collected'' else if enabled then ''enabled_no_samples'' else ''disabled'')"

definition resources_summary :: "'w life_env \<Rightarrow> pydict list \<Rightarrow> pydict \<Rightarrow> bool \<Rightarrow> pydict" where
  "resources_summary env samples policy enabled =
     dput ''monitoring'' (PDict (dput ''status'' (PStr (monitoring_status samples enabled)) policy))
       (dput ''monitoring_disabled'' (PBool (\<not> enabled)) (le_summarize env samples))"

definition write_prepared_resources :: "'w life_env \<Rightarrow> pydict list \<Rightarrow> ('w life, unit) sm" where
  "write_prepared_resources env samples =
     sbind (sgets lf_output_dir) (\<lambda>present. swhen present
       (sbind (sgets (\<lambda>s. resources_summary env samples (lf_policy s) (lf_monitoring s))) (\<lambda>summary.
        sbind (attempt (ResourcesWrite summary) (le_write_resources env samples summary)) (\<lambda>_.
          smod (\<lambda>s. s\<lparr>lf_resources_written := True\<rparr>)))))"

definition collect_samples :: "'w life_env \<Rightarrow> ('w life, pydict list option) sm" where
  "collect_samples env =
     sbind (sgets lf_sampler) (\<lambda>sampling.
       if sampling
       then sbind (on_life (le_sampler_stop env)) (\<lambda>samples.
            sbind (smod (\<lambda>s. s\<lparr>lf_sampler := False\<rparr>)) (\<lambda>_. sret (Some samples)))
       else sgets (\<lambda>s. if lf_output_dir s \<and> \<not> lf_resources_written s then Some [] else None))"

text \<open>The resources are written when the samples are known and were not written before; the answer is
  the error of the sampler or of the write.\<close>

definition write_collected :: "'w life_env \<Rightarrow> pydict list option res \<Rightarrow> ('w life, err option) sm" where
  "write_collected env collected =
     (case collected of
        Inl e \<Rightarrow> sret (Some e)
      | Inr None \<Rightarrow> sret None
      | Inr (Some samples) \<Rightarrow>
          sbind (sgets (\<lambda>s. lf_output_dir s \<and> \<not> lf_resources_written s)) (\<lambda>due.
            if due then sbind (sattempt (write_prepared_resources env samples)) (\<lambda>r. sret (error_of r))
            else sret None))"

text \<open>Stopping the container of a session through its backend, or without one.\<close>

definition stop_prepared ::
  "'w life_env \<Rightarrow> prepared_container \<Rightarrow> ('w life, err option \<times> err option) sm" where
  "stop_prepared env c =
     (case pc_kind c of
        DockerKind \<Rightarrow> sbind (sattempt (backend_stop env)) (\<lambda>r. sret (None, error_of r))
      | FakeKind \<Rightarrow> sret (None, None)
      | BareKind \<Rightarrow>
          sbind (if pc_agent c then sbind (sattempt (attempt AgentStop (le_agent_stop env))) (\<lambda>r. sret (error_of r))
                 else sret None) (\<lambda>agent_error.
          sbind (sattempt (attempt (ContainerStop (pc_id c)) (le_stop_container env (pc_id c)))) (\<lambda>r.
            sret (agent_error, error_of r))))"

definition unregister_prepared :: "'w life_env \<Rightarrow> prepared_container \<Rightarrow> ('w life, unit) sm" where
  "unregister_prepared env c =
     sbind (sgets lf_resource_recorder) (\<lambda>present. swhen present
       (sbind (attempt (Unregister (pc_id c)) (le_unregister env (pc_id c))) (\<lambda>_.
          smod (\<lambda>s. s\<lparr>lf_resource_recorder := False\<rparr>))))"

definition remove_prepared_image :: "'w life_env \<Rightarrow> prepared_container \<Rightarrow> bool \<Rightarrow> ('w life, err option) sm" where
  "remove_prepared_image env c stopped =
     (case pc_fixed_image c of
        Some name \<Rightarrow>
          if pc_kind c = BareKind \<and> stopped \<and> name \<noteq> [] \<and> pc_cleanup c
          then sbind (sattempt (attempt (ImageRemove name) (le_remove_image env name))) (\<lambda>r. sret (error_of r))
          else sret None
      | None \<Rightarrow> sret None)"

definition finalize_container ::
  "'w life_env \<Rightarrow> pydict list option res \<Rightarrow> prepared_container \<Rightarrow> ('w life, unit) sm" where
  "finalize_container env collected c =
     sbind (smod (\<lambda>s. s\<lparr>lf_prepared := None\<rparr>)) (\<lambda>_.
     sbind (stop_prepared env c) (\<lambda>(agent_error, stop_error).
     sbind (swhen (stop_error = None) (unregister_prepared env c)) (\<lambda>_.
     sbind (remove_prepared_image env c (stop_error = None)) (\<lambda>image_error.
     sbind (write_collected env collected) (\<lambda>resource_error.
       raise_first [resource_error, agent_error, stop_error, image_error])))))"

definition finalize_session :: "'w life_env \<Rightarrow> ('w life, unit) sm" where
  "finalize_session env =
     sbind (sattempt (collect_samples env)) (\<lambda>collected.
     sbind (sgets lf_prepared) (\<lambda>ctr.
       case ctr of
         None \<Rightarrow> sbind (write_collected env collected) (\<lambda>e. raise_first [e])
       | Some c \<Rightarrow> finalize_container env collected c))"

subsection \<open>Preparing a session\<close>

record prepare_request =
  pr_agent_id :: string
  pr_host :: bool
  pr_backend :: string
  pr_executable :: bool
  pr_image :: string
  pr_monitoring :: bool
  pr_recorder :: bool
  pr_policy :: pydict

text \<open>\<open>BACKENDS\<close>, \<open>get_sandbox_backend_class\<close> and the check that the simulator can drive it.\<close>

definition backend_classes :: "string list" where
  "backend_classes = [''fake'', ''docker'']"

definition fake_container :: "prepare_request \<Rightarrow> prepared_container" where
  "fake_container req =
     \<lparr>pc_id = ''fake-'' @ pr_agent_id req, pc_kind = FakeKind, pc_agent = True, pc_fixed_image = None, pc_cleanup = False\<rparr>"

text \<open>The prepared session that \<open>_prepare_container_session\<close> builds is a new object: its monitoring
  fields have their defaults until the caller sets them.\<close>

definition new_prepared :: "prepared_container \<Rightarrow> ('w life, unit) sm" where
  "new_prepared c =
     smod (\<lambda>s. s\<lparr>lf_prepared := Some c, lf_sampler := False, lf_resources_written := False,
                lf_resource_recorder := False, lf_monitoring := True, lf_policy := []\<rparr>)"

definition backend_container :: "'w life \<Rightarrow> prepared_container" where
  "backend_container s =
     \<lparr>pc_id = (case lf_container_id s of Some cid \<Rightarrow> cid | None \<Rightarrow> []), pc_kind = DockerKind, pc_agent = lf_agent s,
      pc_fixed_image = lf_fixed s, pc_cleanup = lf_cleanup s\<rparr>"

definition prepare_container_session :: "'w life_env \<Rightarrow> prepare_request \<Rightarrow> ('w life, unit) sm" where
  "prepare_container_session env req =
     (let backend = (if pr_backend req \<noteq> [] then pr_backend req else ''docker'')
      in if backend \<notin> set backend_classes then sraise (ValueError ''unknown sandbox_backend'')
         else if backend = ''fake'' then new_prepared (fake_container req)
         else if \<not> pr_executable req
         then sraise (ValueError ''container_executable is required for docker sandbox backend'')
         else if pr_image req = [] then sraise (SimulateError ''Task has no resolvable docker_image'')
         else sbind (backend_start env) (\<lambda>_. sbind (sgets backend_container) new_prepared))"

definition sandbox_monitored :: "prepare_request \<Rightarrow> bool" where
  "sandbox_monitored req \<longleftrightarrow> pr_monitoring req \<and> \<not> pr_host req \<and> pr_backend req \<noteq> ''fake''"

definition start_monitoring :: "'w life_env \<Rightarrow> prepare_request \<Rightarrow> ('w life, unit) sm" where
  "start_monitoring env req =
     sbind (sgets lf_prepared) (\<lambda>ctr.
       case ctr of
         None \<Rightarrow> sret ()
       | Some c \<Rightarrow>
           sbind (smod (\<lambda>s. s\<lparr>lf_monitoring := sandbox_monitored req, lf_policy := pr_policy req,
                             lf_resource_recorder := (pr_recorder req \<and> sandbox_monitored req)\<rparr>)) (\<lambda>_.
           sbind (swhen (pr_recorder req \<and> sandbox_monitored req) (on_life (le_register env (pc_id c)))) (\<lambda>_.
           swhen (sandbox_monitored req)
             (sbind (on_life (le_sampler_start env (pc_id c))) (\<lambda>_. smod (\<lambda>s. s\<lparr>lf_sampler := True\<rparr>))))))"

text \<open>The session of a host trace records that it has no container; otherwise its container is
  prepared and the artifacts of the source run are restored into it.\<close>

definition prepare_steps :: "'w life_env \<Rightarrow> prepare_request \<Rightarrow> ('w life, unit) sm" where
  "prepare_steps env req =
     sbind (on_life (le_make_output_dir env)) (\<lambda>_.
     sbind (smod (\<lambda>s. s\<lparr>lf_output_dir := True\<rparr>)) (\<lambda>_.
     sbind (if pr_host req then write_startup env ''skipped''
            else if pr_backend req \<noteq> ''fake'' \<and> \<not> pr_executable req
            then sraise (ValueError ''container_executable is required for container-mode traces'')
            else sbind (prepare_container_session env req) (\<lambda>_.
                   swhen (pr_backend req \<noteq> ''fake'') (on_life (le_restore_artifacts env)))) (\<lambda>_.
       start_monitoring env req)))"

text \<open>Any exception finalizes what was prepared; the exception of the finalization wins.\<close>

definition prepare_replay_session :: "'w life_env \<Rightarrow> prepare_request \<Rightarrow> ('w life, unit) sm" where
  "prepare_replay_session env req =
     sbind (smod (\<lambda>s. s\<lparr>lf_monitoring := (pr_monitoring req \<and> \<not> pr_host req), lf_policy := pr_policy req\<rparr>)) (\<lambda>_.
       scatch (prepare_steps env req) (\<lambda>e. sbind (finalize_session env) (\<lambda>_. sraise e)))"

text \<open>A worker of the queue takes a session, replays it when it was prepared, and finalizes it in any case.
  The answer says whether the preparation failed.\<close>

definition work_on_session ::
  "'w life_env \<Rightarrow> prepare_request \<Rightarrow> ('w life, 'stats) sm \<Rightarrow> ('w life, err + 'stats) sm" where
  "work_on_session env req replay =
     sbind (sattempt (prepare_replay_session env req)) (\<lambda>prepared.
       case prepared of
         Inl e \<Rightarrow> sret (Inl e)
       | Inr _ \<Rightarrow> sfinally (sbind replay (\<lambda>stats. sret (Inr stats))) (finalize_session env))"

subsection \<open>The images of a sweep and the end of a run\<close>

record 'w sweep_env =
  sw_build :: "string \<Rightarrow> string \<Rightarrow> ('w, string) sm"
  sw_remove :: "string \<Rightarrow> ('w, bool) sm"
  sw_name :: "string \<Rightarrow> string"
  sw_executable :: bool

record 'w sweep =
  sp_world :: 'w
  sp_built :: "string list"
  sp_removed :: "string list"

definition on_sweep :: "('w, 'a) sm \<Rightarrow> ('w sweep, 'a) sm" where
  "on_sweep m = szoom sp_world (\<lambda>w s. s\<lparr>sp_world := w\<rparr>) m"

definition build_sweep_image :: "'w sweep_env \<Rightarrow> string \<Rightarrow> ('w sweep, string) sm" where
  "build_sweep_image env source =
     sbind (on_sweep (sw_build env source (sw_name env source))) (\<lambda>fixed.
     sbind (smod (\<lambda>s. s\<lparr>sp_built := sp_built s @ [fixed]\<rparr>)) (\<lambda>_. sret fixed))"

fun prebuild_images :: "'w sweep_env \<Rightarrow> string list \<Rightarrow> (string \<times> string) list \<Rightarrow> ('w sweep, (string \<times> string) list) sm" where
  "prebuild_images env [] fixed_images = sret fixed_images"
| "prebuild_images env (source # rest) fixed_images =
     sbind (build_sweep_image env source) (\<lambda>fixed. prebuild_images env rest (dput source fixed fixed_images))"

definition prebuild_sweep_fixed_images :: "'w sweep_env \<Rightarrow> string list \<Rightarrow> ('w sweep, (string \<times> string) list) sm" where
  "prebuild_sweep_fixed_images env images =
     (if \<not> sw_executable env then sret [] else prebuild_images env images [])"

definition remove_sweep_image :: "'w sweep_env \<Rightarrow> string \<Rightarrow> ('w sweep, bool) sm" where
  "remove_sweep_image env fixed =
     sbind (smod (\<lambda>s. s\<lparr>sp_removed := sp_removed s @ [fixed]\<rparr>)) (\<lambda>_. on_sweep (sw_remove env fixed))"

text \<open>Every image is tried, and the first error is raised at the end.\<close>

fun remove_images :: "'w sweep_env \<Rightarrow> (string \<times> string) list \<Rightarrow> err option \<Rightarrow> ('w sweep, unit) sm" where
  "remove_images env [] first_error = raise_first [first_error]"
| "remove_images env ((source, fixed) # rest) first_error =
     sbind (sattempt (remove_sweep_image env fixed)) (\<lambda>r.
       remove_images env rest (case first_error of Some e \<Rightarrow> Some e | None \<Rightarrow> error_of r))"

definition cleanup_sweep_fixed_images :: "'w sweep_env \<Rightarrow> (string \<times> string) list \<Rightarrow> ('w sweep, unit) sm" where
  "cleanup_sweep_fixed_images env fixed_images =
     (if \<not> sw_executable env then sret () else remove_images env fixed_images None)"

text \<open>The outer \<open>finally\<close> of \<open>simulate\<close>: the sessions are finalized, the global recorder stops, and the
  images of the sweep go only if the run was complete and the finalization raised nothing.\<close>

definition end_of_run ::
  "'w sweep_env \<Rightarrow> ('w, unit) sm \<Rightarrow> ('w, unit) sm \<Rightarrow> bool \<Rightarrow> (string \<times> string) list \<Rightarrow> ('w sweep, unit) sm" where
  "end_of_run env finalize_all stop_recorder completed fixed_images =
     sbind (sattempt (on_sweep finalize_all)) (\<lambda>r.
       sfinally
         (sbind (on_sweep stop_recorder) (\<lambda>_.
            if completed \<and> error_of r = None then cleanup_sweep_fixed_images env fixed_images else sret ()))
         (raise_first [error_of r]))"

definition simulate_run ::
  "'w sweep_env \<Rightarrow> string list \<Rightarrow> ((string \<times> string) list \<Rightarrow> ('w, unit) sm) \<Rightarrow> ('w, unit) sm \<Rightarrow> ('w, unit) sm
     \<Rightarrow> ('w sweep, unit) sm" where
  "simulate_run env images run finalize_all stop_recorder =
     sbind (sattempt (prebuild_sweep_fixed_images env images)) (\<lambda>built.
       case built of
         Inl e \<Rightarrow> sfinally (sraise e) (end_of_run env finalize_all stop_recorder False [])
       | Inr fixed_images \<Rightarrow>
           sbind (sattempt (on_sweep (run fixed_images))) (\<lambda>done.
             sfinally (slift done) (end_of_run env finalize_all stop_recorder (error_of done = None) fixed_images)))"

subsection \<open>A wave of a worker process\<close>

text \<open>\<open>_run_worker_wave_async\<close>: every session is prepared, failed preparations are kept aside, and the
  prepared ones are replayed and finalized one after the other.\<close>

fun prepare_wave ::
  "('x \<Rightarrow> ('s, 'p) sm) \<Rightarrow> 'x list \<Rightarrow> ('s, 'p list \<times> ('x \<times> err) list) sm" where
  "prepare_wave prepare [] = sret ([], [])"
| "prepare_wave prepare (x # xs) =
     sbind (sattempt (prepare x)) (\<lambda>r.
     sbind (prepare_wave prepare xs) (\<lambda>(prepared, failed).
       sret (case r of Inl e \<Rightarrow> (prepared, (x, e) # failed) | Inr p \<Rightarrow> (p # prepared, failed))))"

definition run_worker_wave ::
  "('x \<Rightarrow> ('s, 'p) sm) \<Rightarrow> ('p list \<Rightarrow> ('x \<times> err) list \<Rightarrow> ('s, 'r) sm) \<Rightarrow> ('p \<Rightarrow> ('s, unit) sm) \<Rightarrow> 'x list \<Rightarrow> ('s, 'r) sm" where
  "run_worker_wave prepare replay finalize inputs =
     sbind (prepare_wave prepare inputs) (\<lambda>(prepared, failed).
       sfinally (replay prepared failed) (sfor finalize prepared))"

subsection \<open>What is started and what is stopped\<close>

fun starts :: "life_event list \<Rightarrow> string list" where
  "starts [] = []"
| "starts (ContainerStarted cid # es) = cid # starts es"
| "starts (_ # es) = starts es"

fun stops :: "life_event list \<Rightarrow> string list" where
  "stops [] = []"
| "stops (ContainerStop cid # es) = cid # stops es"
| "stops (_ # es) = stops es"

lemma starts_append [simp]: "starts (a @ b) = starts a @ starts b"
  by (induction a rule: starts.induct) auto

lemma stops_append [simp]: "stops (a @ b) = stops a @ stops b"
  by (induction a rule: stops.induct) auto

definition opt_list :: "'a option \<Rightarrow> 'a list" where
  "opt_list v = (case v of None \<Rightarrow> [] | Some x \<Rightarrow> [x])"

lemma opt_list_simps [simp]: "opt_list None = []" "opt_list (Some x) = [x]"
  by (simp_all add: opt_list_def)

text \<open>The state in which a worker takes a session, and the part of it that counts for containers.\<close>

definition idle :: "'w life \<Rightarrow> bool" where
  "idle s \<longleftrightarrow> lf_container_id s = None \<and> lf_prepared s = None"

definition life_view :: "'w life \<Rightarrow> life_event list \<times> string option \<times> prepared_container option" where
  "life_view s = (lf_events s, lf_container_id s, lf_prepared s)"

text \<open>\<open>adds k s s'\<close>: only new events were logged, none of them a start, and the stops among them are \<open>k\<close>.\<close>

definition adds :: "string list \<Rightarrow> 'w life \<Rightarrow> 'w life \<Rightarrow> bool" where
  "adds k s s' \<longleftrightarrow> (\<exists>new. lf_events s' = lf_events s @ new \<and> starts new = [] \<and> stops new = k)"

lemma adds_refl: "lf_events s' = lf_events s \<Longrightarrow> adds [] s s'"
  by (simp add: adds_def)

lemma adds_trans: "adds j s s1 \<Longrightarrow> adds k s1 s2 \<Longrightarrow> adds (j @ k) s s2"
  by (fastforce simp: adds_def)

lemma adds_unchanged: "adds [] s s1 \<Longrightarrow> adds k s1 s2 \<Longrightarrow> adds k s s2"
  using adds_trans [of "[]"] by fastforce

lemma on_life_run:
  "on_life m s = (r, s') \<Longrightarrow> \<exists>w. m (lf_world s) = (r, w) \<and> s' = s\<lparr>lf_world := w\<rparr>"
  by (auto simp: on_life_def szoom_def split: prod.splits)

lemma attempt_run:
  "attempt e m s = (r, s') \<Longrightarrow> \<exists>w. m (lf_world s) = (r, w) \<and> s' = s\<lparr>lf_events := lf_events s @ [e], lf_world := w\<rparr>"
  by (auto simp: attempt_def log_event_def sbind_def smod_def dest!: on_life_run)

lemma preserves_on_life [keeps]:
  "(\<And>w s. f (s\<lparr>lf_world := w\<rparr>) = f s) \<Longrightarrow> preserves f (on_life m)"
  by (auto simp: preserves_def on_life_def szoom_def split: prod.splits)

lemma preserves_finish_phase [keeps]: "preserves life_view (finish_phase name status)"
  by (simp add: preserves_def finish_phase_def smod_def life_view_def)

lemma preserves_in_phase [keeps]: "preserves life_view m \<Longrightarrow> preserves life_view (in_phase name status m)"
  unfolding in_phase_def by (intro keeps)

lemma preserves_write_startup [keeps]: "preserves life_view (write_startup env status)"
  unfolding write_startup_def by (intro keeps) (simp_all add: life_view_def)

lemma raise_first_run: "raise_first es s = (r, s') \<Longrightarrow> s' = s \<and> (r = Inr () \<longleftrightarrow> (\<forall>e \<in> set es. e = None))"
  by (induction es rule: raise_first.induct) (auto simp: sret_def sraise_def)

lemma preserves_raise_first [keeps]: "preserves f (raise_first es)"
  unfolding preserves_def using raise_first_run by (metis surj_pair snd_conv)

subsection \<open>Starting a backend\<close>

lemma ensure_fixed_view: "preserves life_view (backend_ensure_fixed_image env)"
  unfolding backend_ensure_fixed_image_def by (intro keeps) (simp_all add: life_view_def)

lemma apt_mirror_view: "preserves life_view (backend_configure_apt_mirror env cid)"
  unfolding backend_configure_apt_mirror_def discard_result_def by (intro keeps) (simp_all add: life_view_def)

lemma start_agent_view: "preserves life_view (backend_start_agent env cid)"
  unfolding backend_start_agent_def by (intro keeps) (simp_all add: life_view_def)

lemma start_container_run:
  assumes "backend_start_container env fixed s = (r, s')"
  shows "(\<exists>e. r = Inl e \<and> life_view s' = life_view s)
    \<or> (\<exists>cid. r = Inr cid \<and> life_view s' = (lf_events s @ [ContainerStarted cid], Some cid, lf_prepared s))"
proof -
  obtain r1 w where op: "on_life (le_start_container env fixed) s = (r1, s\<lparr>lf_world := w\<rparr>)"
    using on_life_run by (metis surj_pair)
  show ?thesis
    using assms op
    by (cases r1)
       (auto simp: backend_start_container_def in_phase_def scatch_def sbind_def log_event_def smod_def sret_def sraise_def
         finish_phase_def life_view_def split: if_splits)
qed

text \<open>Whatever step of the start fails, at most one container was started, and then it is the one the
  backend holds.\<close>

lemma start_steps_run:
  assumes "start_steps env s = (r, s')"
  shows "(life_view s' = life_view s \<and> (\<exists>e. r = Inl e))
    \<or> (\<exists>cid. life_view s' = (lf_events s @ [ContainerStarted cid], Some cid, lf_prepared s))"
proof -
  obtain r1 s1 where m1: "backend_ensure_fixed_image env s = (r1, s1)" by fastforce
  have v1: "life_view s1 = life_view s" using preservesD [OF ensure_fixed_view m1] .
  show ?thesis
  proof (cases r1)
    case (Inl e)
    then show ?thesis using assms m1 v1 by (auto simp: start_steps_def sbind_def)
  next
    case (Inr fixed)
    obtain r2 s2 where m2: "backend_start_container env fixed s1 = (r2, s2)" by fastforce
    show ?thesis
    proof (cases r2)
      case (Inl e)
      then show ?thesis
        using assms m1 m2 v1 \<open>r1 = Inr fixed\<close> start_container_run [OF m2] by (auto simp: start_steps_def sbind_def)
    next
      case (Inr cid)
      have v2: "life_view s2 = (lf_events s @ [ContainerStarted cid], Some cid, lf_prepared s)"
        using start_container_run [OF m2] Inr v1 by (auto simp: life_view_def)
      let ?rest = "sbind (backend_configure_apt_mirror env cid) (\<lambda>_. sbind (backend_start_agent env cid) (\<lambda>_. write_startup env ''success''))"
      have rest: "preserves life_view ?rest"
        by (intro preserves_sbind apt_mirror_view start_agent_view preserves_write_startup)
      have "?rest s2 = (r, s')" using assms m1 m2 \<open>r1 = Inr fixed\<close> Inr by (simp add: start_steps_def sbind_def)
      then have "life_view s' = life_view s2" by (rule preservesD [OF rest])
      then show ?thesis using v2 by simp
    qed
  qed
qed

subsection \<open>Stopping a backend\<close>

lemma stop_agent_run:
  assumes "stop_backend_agent env s = (r, s')"
  shows "(\<exists>x. r = Inr x) \<and> adds [] s s' \<and> lf_container_id s' = lf_container_id s \<and> lf_prepared s' = lf_prepared s
    \<and> \<not> lf_agent s'"
proof (cases "lf_agent s")
  case False
  then show ?thesis using assms by (auto simp: stop_backend_agent_def sbind_def sgets_def smod_def sret_def adds_def)
next
  case True
  obtain r1 s1 where a: "attempt AgentStop (le_agent_stop env) (s\<lparr>lf_agent := False\<rparr>) = (r1, s1)" by fastforce
  then show ?thesis using assms True attempt_run [OF a]
    by (auto simp: stop_backend_agent_def sbind_def sgets_def smod_def sret_def adds_def sattempt_def)
qed

lemma stop_container_run:
  assumes "stop_backend_container env s = (r, s')"
  shows "\<exists>e stopped. r = Inr (e, stopped) \<and> adds (opt_list (lf_container_id s)) s s'
    \<and> lf_container_id s' = (if stopped then None else lf_container_id s) \<and> lf_prepared s' = lf_prepared s
    \<and> (e = None \<longrightarrow> stopped \<or> lf_container_id s = None) \<and> (stopped \<longrightarrow> e = None) \<and> lf_agent s' = lf_agent s"
proof (cases "lf_container_id s")
  case None
  then show ?thesis using assms by (auto simp: stop_backend_container_def sbind_def sgets_def sret_def adds_def)
next
  case (Some cid)
  obtain r1 s1 where a: "attempt (ContainerStop cid) (le_stop_container env cid) s = (r1, s1)" by fastforce
  obtain w where s1: "s1 = s\<lparr>lf_events := lf_events s @ [ContainerStop cid], lf_world := w\<rparr>"
    using attempt_run [OF a] by blast
  show ?thesis
  proof (cases r1)
    case (Inl e)
    then have "r = Inr (Some e, False)" "s' = s1"
      using assms Some a by (simp_all add: stop_backend_container_def sbind_def sgets_def sret_def sattempt_def)
    then show ?thesis using Some s1 by (intro exI [of _ "Some e"] exI [of _ False]) (simp add: adds_def)
  next
    case (Inr l)
    then have "r = Inr (None, True)" "s' = s1\<lparr>lf_container_id := None\<rparr>"
      using assms Some a by (simp_all add: stop_backend_container_def sbind_def sgets_def sret_def smod_def sattempt_def)
    then show ?thesis using Some s1 by (intro exI [of _ None] exI [of _ True]) (simp add: adds_def)
  qed
qed

lemma remove_image_run:
  assumes "remove_backend_image env stopped s = (r, s')"
  shows "(\<exists>e. r = Inr e) \<and> adds [] s s' \<and> lf_container_id s' = lf_container_id s \<and> lf_prepared s' = lf_prepared s
    \<and> lf_agent s' = lf_agent s"
proof -
  define img where "img = (if stopped \<and> lf_cleanup s then lf_fixed s else None)"
  show ?thesis
  proof (cases "\<exists>name. img = Some name \<and> name \<noteq> []")
    case False
    then show ?thesis using assms unfolding remove_backend_image_def img_def [symmetric]
      by (auto simp: sbind_def sgets_def sret_def adds_def img_def [symmetric] split: option.splits)
  next
    case True
    then obtain name where name: "img = Some name" "name \<noteq> []" by blast
    obtain r1 s1 where a: "attempt (ImageRemove name) (le_remove_image env name) s = (r1, s1)" by fastforce
    then show ?thesis using assms name attempt_run [OF a]
      by (auto simp: remove_backend_image_def sbind_def sgets_def sret_def adds_def sattempt_def img_def)
  qed
qed

text \<open>The three steps in a row, as the stop and the cleanup of a failed start have them.\<close>

lemma stop_sequence_run:
  assumes "sbind (stop_backend_agent env) (\<lambda>a. sbind (stop_backend_container env) (\<lambda>(e, stopped).
      sbind (remove_backend_image env stopped) (\<lambda>i. raise_first (es a e i)))) s = (r, s')"
    and es: "\<And>a e i. e \<in> set (es a e i)"
  shows "adds (opt_list (lf_container_id s)) s s' \<and> lf_prepared s' = lf_prepared s \<and> \<not> lf_agent s'
    \<and> (lf_container_id s' = None \<or> lf_container_id s' = lf_container_id s \<and> (\<exists>e. r = Inl e))"
proof -
  obtain r1 s1 where m1: "stop_backend_agent env s = (r1, s1)" by fastforce
  obtain a where a: "r1 = Inr a" "adds [] s s1" "lf_container_id s1 = lf_container_id s" "lf_prepared s1 = lf_prepared s" "\<not> lf_agent s1"
    using stop_agent_run [OF m1] by blast
  obtain r2 s2 where m2: "stop_backend_container env s1 = (r2, s2)" by fastforce
  obtain e stopped where b: "r2 = Inr (e, stopped)" "adds (opt_list (lf_container_id s1)) s1 s2"
    "lf_container_id s2 = (if stopped then None else lf_container_id s1)" "lf_prepared s2 = lf_prepared s1"
    "e = None \<longrightarrow> stopped \<or> lf_container_id s1 = None" "lf_agent s2 = lf_agent s1"
    using stop_container_run [OF m2] by blast
  obtain r3 s3 where m3: "remove_backend_image env stopped s2 = (r3, s3)" by fastforce
  obtain i where c: "r3 = Inr i" "adds [] s2 s3" "lf_container_id s3 = lf_container_id s2" "lf_prepared s3 = lf_prepared s2" "lf_agent s3 = lf_agent s2"
    using remove_image_run [OF m3] by blast
  have last: "raise_first (es a e i) s3 = (r, s')"
    using assms(1) m1 m2 m3 a(1) b(1) c(1) by (simp add: sbind_def)
  note fin = raise_first_run [OF last]
  have "adds (opt_list (lf_container_id s)) s s'"
    using adds_unchanged [OF a(2)] adds_trans [OF b(2) c(2)] a(3) fin by simp
  moreover have "lf_container_id s' = None \<or> lf_container_id s' = lf_container_id s \<and> (\<exists>e. r = Inl e)"
  proof (cases "e = None")
    case True
    then show ?thesis using a(3) b(3,5) c(3) fin by auto
  next
    case False
    then have "r \<noteq> Inr ()" using fin es by blast
    then have "\<exists>e. r = Inl e" by (cases r) auto
    then show ?thesis using a(3) b(3) c(3) fin by auto
  qed
  ultimately show ?thesis using a b c fin by simp
qed

lemma backend_stop_run:
  assumes "backend_stop env s = (r, s')"
  shows "adds (opt_list (lf_container_id s)) s s' \<and> lf_prepared s' = lf_prepared s \<and> \<not> lf_agent s'
    \<and> (lf_container_id s' = None \<or> lf_container_id s' = lf_container_id s \<and> (\<exists>e. r = Inl e))"
  using assms unfolding backend_stop_def by (rule stop_sequence_run) simp

lemma cleanup_failed_start_run:
  assumes "cleanup_failed_start env s = (r, s')"
  shows "adds (opt_list (lf_container_id s)) s s' \<and> lf_prepared s' = lf_prepared s
    \<and> (lf_container_id s' = None \<or> lf_container_id s' = lf_container_id s \<and> (\<exists>e. r = Inl e))"
proof -
  obtain r1 s1 where m: "sattempt (write_startup env ''failed'') s = (r1, s1)" by fastforce
  have v: "life_view s1 = life_view s" using m preserves_sattempt [OF preserves_write_startup] unfolding preserves_def by (metis snd_conv)
  have "sbind (stop_backend_agent env) (\<lambda>a. sbind (stop_backend_container env) (\<lambda>(e, stopped).
      sbind (remove_backend_image env stopped) (\<lambda>i. raise_first [e, i]))) s1 = (r, s')"
    using assms m by (auto simp: cleanup_failed_start_def sbind_def sattempt_def split: prod.splits sum.splits)
  from stop_sequence_run [OF this] show ?thesis using v by (auto simp: life_view_def adds_def)
qed

lemma backend_start_run:
  assumes "backend_start env s = (r, s')" "lf_container_id s = None"
  shows "case r of
      Inr _ \<Rightarrow> \<exists>cid. life_view s' = (lf_events s @ [ContainerStarted cid], Some cid, lf_prepared s)
    | Inl _ \<Rightarrow> (\<exists>new. lf_events s' = lf_events s @ new \<and> stops new = starts new \<and> length (starts new) \<le> 1)
        \<and> lf_prepared s' = lf_prepared s"
proof -
  obtain r1 s1 where m1: "start_steps env s = (r1, s1)" by fastforce
  show ?thesis
  proof (cases r1)
    case (Inr u)
    then show ?thesis using assms m1 start_steps_run [OF m1] by (auto simp: backend_start_def scatch_def)
  next
    case (Inl e)
    obtain r2 s2 where m2: "cleanup_failed_start env s1 = (r2, s2)" by fastforce
    have r: "s' = s2" "\<exists>e. r = Inl e"
      using assms(1) m1 m2 Inl by (cases r2; auto simp: backend_start_def scatch_def sbind_def sraise_def)+
    obtain new where new: "lf_events s2 = lf_events s1 @ new" "starts new = []" "stops new = opt_list (lf_container_id s1)"
      "lf_prepared s2 = lf_prepared s1"
      using cleanup_failed_start_run [OF m2] by (auto simp: adds_def)
    consider "life_view s1 = life_view s" | cid where "life_view s1 = (lf_events s @ [ContainerStarted cid], Some cid, lf_prepared s)"
      using start_steps_run [OF m1] by blast
    then show ?thesis
    proof cases
      case 1
      then show ?thesis using r new assms(2) by (auto simp: life_view_def)
    next
      case 2
      then show ?thesis using r new
        by (auto simp: life_view_def intro!: exI [of _ "ContainerStarted cid # new"])
    qed
  qed
qed

subsection \<open>Finalizing\<close>

text \<open>Computations that neither start nor stop a container and keep the container of the session.\<close>

definition quiet :: "'w life \<Rightarrow> 'w life \<Rightarrow> bool" where
  "quiet s s' \<longleftrightarrow> adds [] s s' \<and> lf_container_id s' = lf_container_id s \<and> lf_prepared s' = lf_prepared s"

definition quietly :: "('w life, 'a) sm \<Rightarrow> bool" where
  "quietly m \<longleftrightarrow> (\<forall>s. quiet s (snd (m s)))"

named_theorems quiets \<open>rules for \<open>quietly\<close>\<close>

lemma quiet_refl: "quiet s s"
  by (simp add: quiet_def adds_refl)

lemma quiet_trans: "quiet s s1 \<Longrightarrow> quiet s1 s2 \<Longrightarrow> quiet s s2"
  unfolding quiet_def using adds_trans [of "[]" s s1 "[]" s2] by simp

lemma quietlyD: "quietly m \<Longrightarrow> m s = (r, s') \<Longrightarrow> quiet s s'"
  unfolding quietly_def by (metis snd_conv)

lemma quietly_view: "preserves life_view m \<Longrightarrow> quietly m"
  by (simp add: quietly_def preserves_def quiet_def life_view_def adds_refl)

lemma quietly_sbind [quiets]: "quietly m \<Longrightarrow> (\<And>x. quietly (f x)) \<Longrightarrow> quietly (sbind m f)"
  unfolding quietly_def sbind_def
  by (auto split: prod.splits sum.splits) (metis quiet_trans snd_conv)+

lemma quietly_pure [quiets]: "quietly (sret x)" "quietly (sraise e)" "quietly (sgets g)"
  by (simp_all add: quietly_def sret_def sraise_def sgets_def quiet_refl)

lemma quietly_attempt [quiets]: "starts [e] = [] \<Longrightarrow> stops [e] = [] \<Longrightarrow> quietly (attempt e m)"
  unfolding quietly_def
proof
  fix s
  assume e: "starts [e] = []" "stops [e] = []"
  obtain r s' where run: "attempt e m s = (r, s')" by fastforce
  then show "quiet s (snd (attempt e m s))" using e attempt_run [OF run] by (auto simp: quiet_def adds_def)
qed

lemma quietly_sattempt [quiets]: "quietly m \<Longrightarrow> quietly (sattempt m)"
  by (auto simp: quietly_def sattempt_def split: prod.splits) (metis snd_conv)

lemma quietly_swhen [quiets]: "quietly m \<Longrightarrow> quietly (swhen b m)"
  by (simp add: swhen_def quietly_pure)

lemma quietly_smod [quiets]:
  "(\<And>s. lf_events (f s) = lf_events s \<and> lf_container_id (f s) = lf_container_id s \<and> lf_prepared (f s) = lf_prepared s) \<Longrightarrow>
   quietly (smod f)"
  by (simp add: quietly_def smod_def quiet_def adds_refl)

lemma quietly_if [quiets]: "quietly m \<Longrightarrow> quietly n \<Longrightarrow> quietly (if b then m else n)"
  by simp

lemma quietly_case_option [quiets]:
  "quietly m \<Longrightarrow> (\<And>x. quietly (f x)) \<Longrightarrow> quietly (case v of None \<Rightarrow> m | Some x \<Rightarrow> f x)"
  by (cases v) simp_all

lemma quietly_case_sum [quiets]:
  "(\<And>x. quietly (f x)) \<Longrightarrow> (\<And>x. quietly (g x)) \<Longrightarrow> quietly (case v of Inl x \<Rightarrow> f x | Inr x \<Rightarrow> g x)"
  by (cases v) simp_all

lemma quietly_on_life [quiets]: "quietly (on_life m)"
  by (rule quietly_view) (intro keeps, simp add: life_view_def)

lemma quietly_raise_first [quiets]: "quietly (raise_first es)"
  by (rule quietly_view) (rule preserves_raise_first)

lemma quietly_write_resources [quiets]: "quietly (write_prepared_resources env samples)"
  unfolding write_prepared_resources_def by (intro quiets) simp_all

lemma quietly_write_collected [quiets]: "quietly (write_collected env collected)"
  unfolding write_collected_def by (intro quiets)

lemma quietly_collect [quiets]: "quietly (collect_samples env)"
  unfolding collect_samples_def by (intro quiets) simp_all

lemma quietly_unregister [quiets]: "quietly (unregister_prepared env c)"
  unfolding unregister_prepared_def by (intro quiets) simp_all

lemma quietly_remove_prepared [quiets]: "quietly (remove_prepared_image env c stopped)"
  unfolding remove_prepared_image_def by (intro quiets) simp_all

text \<open>The containers a session must have stopped when it is finalized.\<close>

definition session_containers :: "'w life \<Rightarrow> string list" where
  "session_containers s =
     (case lf_prepared s of
        None \<Rightarrow> []
      | Some c \<Rightarrow>
          (case pc_kind c of DockerKind \<Rightarrow> opt_list (lf_container_id s) | FakeKind \<Rightarrow> [] | BareKind \<Rightarrow> [pc_id c]))"

lemma stop_prepared_run:
  assumes "stop_prepared env c s = (r, s')"
  shows "\<exists>a e. r = Inr (a, e) \<and> lf_prepared s' = lf_prepared s
    \<and> adds (case pc_kind c of DockerKind \<Rightarrow> opt_list (lf_container_id s) | FakeKind \<Rightarrow> [] | BareKind \<Rightarrow> [pc_id c]) s s'
    \<and> (if pc_kind c = DockerKind then e = None \<longrightarrow> lf_container_id s' = None else lf_container_id s' = lf_container_id s)"
proof (cases "pc_kind c")
  case DockerKind
  obtain r1 s1 where b: "backend_stop env s = (r1, s1)" by fastforce
  have "r = Inr (None, error_of r1)" "s' = s1"
    using assms b DockerKind by (simp_all add: stop_prepared_def sbind_def sattempt_def sret_def)
  then show ?thesis using backend_stop_run [OF b] DockerKind by (auto simp: error_of_def split: sum.splits)
next
  case FakeKind
  then show ?thesis using assms by (auto simp: stop_prepared_def sret_def adds_refl)
next
  case BareKind
  let ?agent = "if pc_agent c then sbind (sattempt (attempt AgentStop (le_agent_stop env))) (\<lambda>r. sret (error_of r)) else sret None"
  obtain r1 s1 where a: "?agent s = (r1, s1)" by fastforce
  have "quietly ?agent" by (intro quiets) simp_all
  from quietlyD [OF this a] have qa: "quiet s s1" .
  obtain x where x: "r1 = Inr x"
    using a by (auto simp: sbind_def sattempt_def sret_def split: if_splits prod.splits)
  obtain r2 s2 where t: "attempt (ContainerStop (pc_id c)) (le_stop_container env (pc_id c)) s1 = (r2, s2)" by fastforce
  obtain w where s2: "s2 = s1\<lparr>lf_events := lf_events s1 @ [ContainerStop (pc_id c)], lf_world := w\<rparr>"
    using attempt_run [OF t] by blast
  have "r = Inr (x, error_of r2)" "s' = s2"
    using assms BareKind a x t by (auto simp: stop_prepared_def sbind_def sattempt_def sret_def)
  moreover have "adds [pc_id c] s1 s2" using s2 by (simp add: adds_def)
  ultimately show ?thesis
    using BareKind qa s2 adds_unchanged [of s s1 "[pc_id c]" s2] by (simp add: quiet_def)
qed

text \<open>The tail of a finalization, after the stop: it stops nothing more, and an error of the stop is an
  error of the whole.\<close>

definition finalize_tail ::
  "'w life_env \<Rightarrow> pydict list option res \<Rightarrow> prepared_container \<Rightarrow> err option \<Rightarrow> err option \<Rightarrow> ('w life, unit) sm" where
  "finalize_tail env collected c agent_error stop_error =
     sbind (swhen (stop_error = None) (unregister_prepared env c)) (\<lambda>_.
     sbind (remove_prepared_image env c (stop_error = None)) (\<lambda>image_error.
     sbind (write_collected env collected) (\<lambda>resource_error.
       raise_first [resource_error, agent_error, stop_error, image_error])))"

lemma finalize_tail_quiet: "quietly (finalize_tail env collected c a e)"
  unfolding finalize_tail_def by (intro quiets)

lemma finalize_tail_error:
  assumes "finalize_tail env collected c a e s = (r, s')" "e \<noteq> None"
  shows "\<exists>e. r = Inl e"
proof -
  have last: "\<exists>x. fst (raise_first [b, a, e, i] s1) = Inl x" for b i and s1 :: "'a life"
  proof -
    obtain r1 s2 where run: "raise_first [b, a, e, i] s1 = (r1, s2)" by fastforce
    then have "r1 \<noteq> Inr ()" using raise_first_run [OF run] assms(2) by auto
    then show ?thesis using run by (cases r1) auto
  qed
  have tail: "sbind (remove_prepared_image env c False) (\<lambda>i. sbind (write_collected env collected) (\<lambda>b.
      raise_first [b, a, e, i])) s = (r, s')"
    using assms by (auto simp: finalize_tail_def swhen_def)
  obtain r1 s1 where m1: "remove_prepared_image env c False s = (r1, s1)" by fastforce
  obtain r2 s2 where m2: "write_collected env collected s1 = (r2, s2)" by fastforce
  show ?thesis
  proof (cases "\<exists>i b. r1 = Inr i \<and> r2 = Inr b")
    case True
    then obtain i b where "r1 = Inr i" "r2 = Inr b" by blast
    then have "raise_first [b, a, e, i] s2 = (r, s')" using tail m1 m2 by (simp add: sbind_def)
    then show ?thesis using last [of b i s2] by simp
  next
    case False
    then show ?thesis using tail m1 m2 by (cases r1; cases r2) (auto simp: sbind_def)
  qed
qed

lemma finalize_run:
  assumes "finalize_session env s = (r, s')"
  shows "lf_prepared s' = None \<and> adds (session_containers s) s s'
    \<and> (if \<exists>c. lf_prepared s = Some c \<and> pc_kind c = DockerKind
       then lf_container_id s' = None \<or> (\<exists>e. r = Inl e)
       else lf_container_id s' = lf_container_id s)"
proof -
  obtain r1 s1 where m1: "sattempt (collect_samples env) s = (r1, s1)" by fastforce
  have "quietly (sattempt (collect_samples env))" by (intro quiets)
  from quietlyD [OF this m1] have q1: "quiet s s1" .
  obtain collected where c1: "r1 = Inr collected" using m1 by (auto simp: sattempt_def split: prod.splits)
  show ?thesis
  proof (cases "lf_prepared s")
    case None
    have rest: "quietly (sbind (write_collected env collected) (\<lambda>e. raise_first [e]))" by (intro quiets)
    have "sbind (write_collected env collected) (\<lambda>e. raise_first [e]) s1 = (r, s')"
      using assms m1 c1 q1 None by (simp add: finalize_session_def sbind_def sgets_def quiet_def)
    from quiet_trans [OF q1 quietlyD [OF rest this]] show ?thesis
      using None by (simp add: quiet_def session_containers_def)
  next
    case (Some c)
    let ?s2 = "s1\<lparr>lf_prepared := None\<rparr>"
    obtain r3 s3 where m3: "stop_prepared env c ?s2 = (r3, s3)" by fastforce
    obtain a e where st: "r3 = Inr (a, e)" "lf_prepared s3 = None"
      "adds (case pc_kind c of DockerKind \<Rightarrow> opt_list (lf_container_id ?s2) | FakeKind \<Rightarrow> [] | BareKind \<Rightarrow> [pc_id c]) ?s2 s3"
      "if pc_kind c = DockerKind then e = None \<longrightarrow> lf_container_id s3 = None else lf_container_id s3 = lf_container_id ?s2"
      using stop_prepared_run [OF m3] by auto
    have tail: "finalize_tail env collected c a e s3 = (r, s')"
      using assms m1 c1 q1 Some m3 st(1)
      by (simp add: finalize_session_def finalize_container_def finalize_tail_def sbind_def sgets_def smod_def quiet_def)
    note qt = quietlyD [OF finalize_tail_quiet tail]
    have cid: "lf_container_id s1 = lf_container_id s" using q1 by (simp add: quiet_def)
    have "adds (session_containers s) ?s2 s3" using st(3) Some cid by (cases "pc_kind c") (simp_all add: session_containers_def)
    then have "adds (session_containers s) ?s2 s'" using qt adds_trans [of "session_containers s" ?s2 s3 "[]" s'] by (simp add: quiet_def)
    then have "adds (session_containers s) s s'"
      using q1 adds_unchanged [of s s1] by (simp add: quiet_def adds_def)
    moreover have "if pc_kind c = DockerKind then lf_container_id s' = None \<or> (\<exists>e. r = Inl e) else lf_container_id s' = lf_container_id s"
      using st(4) qt cid finalize_tail_error [OF tail] by (auto simp: quiet_def)
    ultimately show ?thesis using Some st(2) qt by (simp add: quiet_def)
  qed
qed

text \<open>C34: finalizing a prepared session stops its container whatever else fails: the sampler, the agent,
  the resources, the image. It tries the stop exactly once, the session gives the container up in any
  case, and if the backend still holds it then the finalization raises.\<close>

theorem finalize_always_stops:
  assumes "finalize_session env s = (r, s')" "lf_prepared s = Some c" "pc_kind c = DockerKind" "lf_container_id s = Some cid"
  shows "\<exists>new. lf_events s' = lf_events s @ new \<and> stops new = [cid] \<and> starts new = []
    \<and> lf_prepared s' = None \<and> (lf_container_id s' = None \<or> (\<exists>e. r = Inl e))"
  using finalize_run [OF assms(1)] assms(2-4) by (auto simp: adds_def session_containers_def)

text \<open>A second finalization stops nothing, also when the first stop failed: nobody tries again.\<close>

lemma finalize_twice_stops_once:
  assumes "finalize_session env s = (r, s1)" "finalize_session env s1 = (r2, s2)"
  shows "adds [] s1 s2 \<and> lf_container_id s2 = lf_container_id s1"
  using finalize_run [OF assms(1)] finalize_run [OF assms(2)] by (simp add: session_containers_def)

subsection \<open>Preparing and working\<close>

text \<open>What a preparation has done so far: at most one container was started, and it is either held by the
  session that must be finalized, or it was already stopped.\<close>

definition accounted :: "'w life \<Rightarrow> 'w life \<Rightarrow> bool" where
  "accounted s s' \<longleftrightarrow>
     (\<exists>new. lf_events s' = lf_events s @ new \<and> starts new = stops new @ session_containers s' \<and> length (starts new) \<le> 1)"

lemma accounted_idle: "idle s \<Longrightarrow> lf_events s' = lf_events s \<Longrightarrow> lf_prepared s' = None \<Longrightarrow> accounted s s'"
  by (simp add: accounted_def session_containers_def)

lemma accounted_quiet: "accounted s s1 \<Longrightarrow> quiet s1 s2 \<Longrightarrow> accounted s s2"
proof -
  assume a: "accounted s s1" and q: "quiet s1 s2"
  have "session_containers s2 = session_containers s1" using q by (auto simp: session_containers_def quiet_def split: option.splits container_kind.splits)
  moreover obtain new where "lf_events s2 = lf_events s1 @ new" "starts new = []" "stops new = []"
    using q by (auto simp: quiet_def adds_def)
  moreover obtain old where "lf_events s1 = lf_events s @ old" "starts old = stops old @ session_containers s1" "length (starts old) \<le> 1"
    using a by (auto simp: accounted_def)
  ultimately show "accounted s s2" unfolding accounted_def by (intro exI [of _ "old @ new"]) simp
qed

lemma accounted_finalized:
  assumes "accounted s s1" "finalize_session env s1 = (r, s2)"
  shows "\<exists>new. lf_events s2 = lf_events s @ new \<and> starts new = stops new \<and> length (starts new) \<le> 1 \<and> lf_prepared s2 = None"
proof -
  obtain a where a: "lf_events s1 = lf_events s @ a" "starts a = stops a @ session_containers s1" "length (starts a) \<le> 1"
    using assms(1) by (auto simp: accounted_def)
  obtain b where b: "lf_events s2 = lf_events s1 @ b" "starts b = []" "stops b = session_containers s1" "lf_prepared s2 = None"
    using finalize_run [OF assms(2)] by (auto simp: adds_def)
  show ?thesis using a b by (intro exI [of _ "a @ b"]) simp
qed

lemma prepare_container_run:
  assumes "prepare_container_session env req s = (r, s')" "idle s"
  shows "accounted s s'"
proof -
  let ?backend = "if pr_backend req \<noteq> [] then pr_backend req else ''docker''"
  show ?thesis
  proof (cases "?backend \<in> set backend_classes \<and> ?backend \<noteq> ''fake'' \<and> pr_executable req \<and> pr_image req \<noteq> []")
    case True
    obtain r1 s1 where b: "backend_start env s = (r1, s1)" by fastforce
    have run: "sbind (backend_start env) (\<lambda>_. sbind (sgets backend_container) new_prepared) s = (r, s')"
      using assms(1) True by (simp add: prepare_container_session_def Let_def split: if_splits)
    note st = backend_start_run [OF b]
    show ?thesis
    proof (cases r1)
      case (Inl e)
      then have "s' = s1" using run b by (simp add: sbind_def)
      then show ?thesis using st Inl assms(2) by (auto simp: idle_def accounted_def session_containers_def)
    next
      case (Inr u)
      then obtain cid where cid: "life_view s1 = (lf_events s @ [ContainerStarted cid], Some cid, lf_prepared s)"
        using st assms(2) by (auto simp: idle_def)
      have "s' = s1\<lparr>lf_prepared := Some (backend_container s1), lf_sampler := False, lf_resources_written := False,
          lf_resource_recorder := False, lf_monitoring := True, lf_policy := []\<rparr>"
        using run b Inr by (simp add: sbind_def sgets_def new_prepared_def smod_def)
      then show ?thesis using cid
        by (simp add: accounted_def session_containers_def backend_container_def life_view_def)
    qed
  next
    case False
    then have "(lf_prepared s' = None \<or> lf_prepared s' = Some (fake_container req)) \<and> lf_events s' = lf_events s"
      using assms unfolding prepare_container_session_def Let_def idle_def
      by (auto simp: sraise_def new_prepared_def smod_def split: if_splits)
    then show ?thesis by (auto simp: accounted_def session_containers_def fake_container_def)
  qed
qed

lemma start_monitoring_quiet: "quietly (start_monitoring env req)"
  unfolding start_monitoring_def by (intro quiets) simp_all

lemma write_startup_quiet [quiets]: "quietly (write_startup env status)"
  by (rule quietly_view) (rule preserves_write_startup)

lemma accounted_bind:
  assumes "sbind m f s1 = (r, s2)" "\<And>r s'. m s1 = (r, s') \<Longrightarrow> accounted s s'" "\<And>x. quietly (f x)"
  shows "accounted s s2"
proof -
  obtain r1 s' where m: "m s1 = (r1, s')" by fastforce
  show ?thesis
  proof (cases r1)
    case (Inl e)
    then show ?thesis using assms(1,2) m by (simp add: sbind_def)
  next
    case (Inr x)
    then have "f x s' = (r, s2)" using assms(1) m by (simp add: sbind_def)
    then show ?thesis using accounted_quiet [OF assms(2) [OF m]] quietlyD [OF assms(3)] by blast
  qed
qed

lemma prepare_steps_run:
  assumes "prepare_steps env req s = (r, s')" "idle s"
  shows "accounted s s'"
proof -
  obtain r1 s1 where m1: "on_life (le_make_output_dir env) s = (r1, s1)" by fastforce
  have q1: "quiet s s1" by (rule quietlyD [OF quietly_on_life m1])
  then have i1: "idle s1" "lf_events s1 = lf_events s"
    using assms(2) on_life_run [OF m1] by (auto simp: idle_def quiet_def)
  show ?thesis
  proof (cases r1)
    case (Inl e)
    then have "s' = s1" using assms(1) m1 by (simp add: prepare_steps_def sbind_def)
    then show ?thesis using accounted_idle [OF assms(2) i1(2)] i1(1) by (simp add: idle_def)
  next
    case (Inr u)
    let ?s2 = "s1\<lparr>lf_output_dir := True\<rparr>"
    let ?m = "if pr_host req then write_startup env ''skipped''
            else if pr_backend req \<noteq> ''fake'' \<and> \<not> pr_executable req
            then sraise (ValueError ''container_executable is required for container-mode traces'')
            else sbind (prepare_container_session env req) (\<lambda>_.
                   swhen (pr_backend req \<noteq> ''fake'') (on_life (le_restore_artifacts env)))"
    have i2: "idle ?s2" "lf_events ?s2 = lf_events s" using i1 by (simp_all add: idle_def)
    have run: "sbind ?m (\<lambda>_. start_monitoring env req) ?s2 = (r, s')"
      using assms(1) m1 Inr by (simp add: prepare_steps_def sbind_def smod_def)
    have start: "accounted s ?s2" using accounted_idle [OF assms(2) i2(2)] i2(1) by (simp add: idle_def)
    show ?thesis
    proof (rule accounted_bind [OF run _ start_monitoring_quiet])
      fix r' s''
      assume m: "?m ?s2 = (r', s'')"
      show "accounted s s''"
      proof (cases "pr_host req \<or> pr_backend req \<noteq> ''fake'' \<and> \<not> pr_executable req")
        case True
        have "quietly ?m" using True by (auto intro: quiets)
        from quietlyD [OF this m] show ?thesis by (rule accounted_quiet [OF start])
      next
        case False
        then have "\<not> pr_host req" "\<not> (pr_backend req \<noteq> ''fake'' \<and> \<not> pr_executable req)" by auto
        then have "sbind (prepare_container_session env req) (\<lambda>_.
            swhen (pr_backend req \<noteq> ''fake'') (on_life (le_restore_artifacts env))) ?s2 = (r', s'')"
          using m by (simp only: if_False simp_thms)
        then have "accounted ?s2 s''"
          by (rule accounted_bind) (auto intro: prepare_container_run [OF _ i2(1)] quiets)
        then show ?thesis using i2(2) by (simp add: accounted_def)
      qed
    qed
  qed
qed

lemma prepare_session_run:
  assumes "prepare_replay_session env req s = (r, s')" "idle s"
  shows "case r of Inr _ \<Rightarrow> accounted s s'
    | Inl _ \<Rightarrow> \<exists>new. lf_events s' = lf_events s @ new \<and> starts new = stops new \<and> length (starts new) \<le> 1 \<and> lf_prepared s' = None"
proof -
  let ?s1 = "s\<lparr>lf_monitoring := (pr_monitoring req \<and> \<not> pr_host req), lf_policy := pr_policy req\<rparr>"
  obtain r2 s2 where m: "prepare_steps env req ?s1 = (r2, s2)" by fastforce
  have "accounted ?s1 s2" using prepare_steps_run [OF m] assms(2) by (simp add: idle_def)
  then have acc: "accounted s s2" by (simp add: accounted_def)
  show ?thesis
  proof (cases r2)
    case (Inr u)
    then show ?thesis using assms(1) m acc by (auto simp: prepare_replay_session_def sbind_def smod_def scatch_def)
  next
    case (Inl e)
    obtain r3 s3 where f: "finalize_session env s2 = (r3, s3)" by fastforce
    have "s' = s3" "\<exists>e. r = Inl e"
      using assms(1) m Inl f by (cases r3; auto simp: prepare_replay_session_def sbind_def smod_def scatch_def sraise_def)+
    then show ?thesis using accounted_finalized [OF acc f] by auto
  qed
qed

text \<open>C33: a worker that takes a session with nothing running starts at most one container for it, and
  before it takes the next session it has asked for the stop of that container exactly once, whether
  the preparation, the replay, the finalization or all of them failed.\<close>

theorem worker_stops_what_it_starts:
  fixes replay :: "('w life, 'stats) sm"
  assumes "work_on_session env req replay s = (r, s')" "idle s" "preserves life_view replay"
  shows "\<exists>new. lf_events s' = lf_events s @ new \<and> starts new = stops new \<and> length (starts new) \<le> 1 \<and> lf_prepared s' = None"
proof -
  obtain r1 s1 where p: "prepare_replay_session env req s = (r1, s1)" by fastforce
  note prep = prepare_session_run [OF p assms(2)]
  show ?thesis
  proof (cases r1)
    case (Inl e)
    then have "s' = s1" using assms(1) p by (simp add: work_on_session_def sbind_def sattempt_def sret_def)
    then show ?thesis using prep Inl by simp
  next
    case (Inr u)
    let ?body = "sbind replay (\<lambda>stats. sret (Inr stats)) :: ('w life, err + 'stats) sm"
    have "sfinally ?body (finalize_session env) s1 = (r, s')"
      using assms(1) p Inr by (simp add: work_on_session_def sbind_def sattempt_def)
    then obtain r2 s2 r3 where b: "?body s1 = (r2, s2)" and f: "finalize_session env s2 = (r3, s')"
      by (rule sfinally_run) (rule that)
    have "quietly ?body" using assms(3) by (intro quiets quietly_view)
    from quietlyD [OF this b] have "accounted s s2" using accounted_quiet prep Inr by auto
    then show ?thesis using accounted_finalized [OF _ f] by blast
  qed
qed

subsection \<open>A stop that returns is confirmed by the engine\<close>

text \<open>What a backend needs of the operation that stops a container: when it returns, the container is known
  to be gone, and removing an image does not bring it back.\<close>

locale confirming_stop =
  fixes stop :: "string \<Rightarrow> ('w, string) sm"
    and remove :: "string \<Rightarrow> ('w, bool) sm"
    and gone :: "string \<Rightarrow> 'w \<Rightarrow> bool"
  assumes stop_gone: "stop cid w = (Inr l, w') \<Longrightarrow> gone cid w'"
    and remove_keeps: "gone cid w \<Longrightarrow> gone cid (snd (remove img w))"
begin

lemma backend_stop_gone:
  assumes env: "le_stop_container env = stop" "le_remove_image env = remove"
    and run: "backend_stop env s = (Inr (), s')" and cid: "lf_container_id s = Some cid"
  shows "gone cid (lf_world s')"
proof -
  obtain r1 s1 where m1: "stop_backend_agent env s = (r1, s1)" by fastforce
  obtain a where a: "r1 = Inr a" "lf_container_id s1 = Some cid" using stop_agent_run [OF m1] cid by auto
  obtain r2 s2 where m2: "stop_backend_container env s1 = (r2, s2)" by fastforce
  obtain e stopped where b: "r2 = Inr (e, stopped)" "stopped \<longrightarrow> e = None"
    using stop_container_run [OF m2] by blast
  obtain r3 s3 where m3: "remove_backend_image env stopped s2 = (r3, s3)" by fastforce
  obtain i where i: "r3 = Inr i" using remove_image_run [OF m3] by blast
  have "raise_first [e, a, i] s3 = (Inr (), s')"
    using run m1 m2 m3 a(1) b(1) i by (simp add: backend_stop_def sbind_def)
  then have fin: "s' = s3" "e = None" using raise_first_run by fastforce+
  obtain r4 s4 where t: "attempt (ContainerStop cid) (stop cid) s1 = (r4, s4)" by fastforce
  obtain w where w: "stop cid (lf_world s1) = (r4, w)" "lf_world s4 = w" using attempt_run [OF t] by auto
  have r4: "\<exists>l. r4 = Inr l" "lf_world s2 = w"
    using m2 b(1) fin(2) t w a(2) env(1)
    by (cases r4; auto simp: stop_backend_container_def sbind_def sgets_def sattempt_def sret_def smod_def)+
  then have gone: "gone cid (lf_world s2)" using stop_gone w(1) by auto
  show ?thesis
  proof (cases "s3 = s2")
    case True
    then show ?thesis using gone fin(1) by simp
  next
    case False
    define img where "img = (if stopped \<and> lf_cleanup s2 then lf_fixed s2 else None)"
    obtain name where name: "img = Some name" "name \<noteq> []"
      using m3 False unfolding remove_backend_image_def img_def [symmetric]
      by (auto simp: sbind_def sgets_def sret_def img_def [symmetric] split: option.splits if_splits)
    obtain r5 s5 where v: "attempt (ImageRemove name) (remove name) s2 = (r5, s5)" by fastforce
    then have "lf_world s5 = snd (remove name (lf_world s2))" using attempt_run [OF v] by auto
    moreover have "s3 = s5"
      using m3 v name env(2)
      by (auto simp: remove_backend_image_def sbind_def sgets_def sret_def sattempt_def img_def)
    ultimately show ?thesis using remove_keeps [OF gone] fin(1) by simp
  qed
qed

end

text \<open>The engine provides it: gone means that an inspection has answered so.\<close>

definition engine_gone :: "string \<Rightarrow> string \<Rightarrow> 'w engine \<Rightarrow> bool" where
  "engine_gone exe cid e \<longleftrightarrow> (\<exists>out. ([exe, ''inspect'', cid], out) \<in> set (eg_log e) \<and> says_missing out)"

lemma engine_stop_gone:
  assumes "stop_task_container env cid exe w = (Inr l, w')"
  shows "engine_gone exe cid w'"
proof -
  obtain new pre where new: "eg_log w' = pre @ new" "gone_at_the_end new" "polls exe cid new"
    using stop_task_container_log [OF assms] by (auto split: if_splits) (metis append.assoc append_Cons append_Nil)
  then have "last new \<in> set (eg_log w')" "fst (last new) = [exe, ''inspect'', cid]" "says_missing (snd (last new))"
    by (auto simp: gone_at_the_end_def polls_def)
  then show ?thesis unfolding engine_gone_def by (metis prod.collapse)
qed

lemma engine_remove_keeps:
  assumes "engine_gone exe cid w"
  shows "engine_gone exe cid (snd (remove_image env img exe2 qualify w))"
proof -
  obtain r w' where run: "remove_image env img exe2 qualify w = (r, w')" by fastforce
  have "\<exists>new. eg_log w' = eg_log w @ new"
    using run unfolding remove_image_def Let_def image_exists_def
    by (auto simp: sbind_def run_checked_def run_cmd_def sret_def sraise_def
        split: prod.splits sum.splits cmd_out.splits if_splits)
  then show ?thesis using assms run by (auto simp: engine_gone_def)
qed

interpretation engine_stop: confirming_stop
  "\<lambda>cid. stop_task_container env cid exe" "\<lambda>img. remove_image env img exe False" "engine_gone exe"
  for env exe
  by unfold_locales (auto intro: engine_stop_gone engine_remove_keeps)

text \<open>C35: when the stop of a container backend returns, the engine has answered that its container does not
  exist any more.\<close>

theorem stopped_backend_is_gone:
  assumes "le_stop_container env = (\<lambda>cid. stop_task_container cenv cid exe)"
    and "le_remove_image env = (\<lambda>img. remove_image cenv img exe False)"
    and "backend_stop env s = (Inr (), s')" "lf_container_id s = Some cid"
  shows "\<exists>out. ([exe, ''inspect'', cid], out) \<in> set (eg_log (lf_world s')) \<and> says_missing out"
  using engine_stop.backend_stop_gone [OF assms] by (simp add: engine_gone_def)

subsection \<open>Images of a sweep\<close>

lemma remove_images_tries_all:
  "remove_images env fixed_images first_error s = (r, s') \<Longrightarrow>
     sp_removed s' = sp_removed s @ map snd fixed_images \<and> sp_built s' = sp_built s"
proof (induction fixed_images arbitrary: s first_error)
  case Nil
  then show ?case by (auto dest: raise_first_run)
next
  case (Cons p fixed_images)
  obtain source fixed where p: "p = (source, fixed)" by fastforce
  obtain r1 w where op: "sw_remove env fixed (sp_world s) = (r1, w)" by fastforce
  let ?s1 = "s\<lparr>sp_removed := sp_removed s @ [fixed], sp_world := w\<rparr>"
  have "remove_images env fixed_images (case first_error of Some e \<Rightarrow> Some e | None \<Rightarrow> error_of r1) ?s1 = (r, s')"
    using Cons.prems p op
    by (simp add: sbind_def sattempt_def remove_sweep_image_def on_sweep_def szoom_def smod_def)
  from Cons.IH [OF this] show ?case using p by simp
qed

definition sweep_view :: "'w sweep \<Rightarrow> string list" where
  "sweep_view s = sp_removed s"

lemma on_sweep_removed: "preserves sp_removed (on_sweep m)"
  by (auto simp: preserves_def on_sweep_def szoom_def split: prod.splits)

lemma end_of_run_removed:
  assumes "end_of_run env finalize_all stop_recorder completed fixed_images s = (r, s')"
  shows "sp_removed s' = sp_removed s \<or>
    (sp_removed s' = sp_removed s @ map snd fixed_images \<and> completed \<and> sw_executable env
     \<and> (\<exists>w. finalize_all (sp_world s) = (Inr (), w)))"
proof -
  obtain r1 s1 where m1: "on_sweep finalize_all s = (r1, s1)" by fastforce
  obtain w where w: "finalize_all (sp_world s) = (r1, w)" using m1 by (auto simp: on_sweep_def szoom_def split: prod.splits)
  have v1: "sp_removed s1 = sp_removed s" using on_sweep_removed m1 unfolding preserves_def by (metis snd_conv)
  let ?body = "sbind (on_sweep stop_recorder) (\<lambda>_.
      if completed \<and> error_of r1 = None then cleanup_sweep_fixed_images env fixed_images else sret ())"
  have "sfinally ?body (raise_first [error_of r1]) s1 = (r, s')"
    using assms m1 by (simp add: end_of_run_def sbind_def sattempt_def)
  then obtain r2 s2 r3 where b: "?body s1 = (r2, s2)" and f: "raise_first [error_of r1] s2 = (r3, s')"
    by (rule sfinally_run) (rule that)
  have s2: "s' = s2" using raise_first_run [OF f] by simp
  obtain r4 s4 where m4: "on_sweep stop_recorder s1 = (r4, s4)" by fastforce
  have v4: "sp_removed s4 = sp_removed s" using on_sweep_removed m4 v1 unfolding preserves_def by (metis snd_conv)
  show ?thesis
  proof (cases "(\<exists>u. r4 = Inr u) \<and> completed \<and> error_of r1 = None \<and> sw_executable env")
    case True
    then have "remove_images env fixed_images None s4 = (r2, s2)"
      using b m4 by (auto simp: sbind_def cleanup_sweep_fixed_images_def)
    from remove_images_tries_all [OF this] show ?thesis
      using True v4 s2 w by (cases r1) (auto simp: error_of_def)
  next
    case False
    then have "s2 = s4" using b m4
      by (cases r4) (auto simp: sbind_def sret_def cleanup_sweep_fixed_images_def split: if_splits)
    then show ?thesis using v4 s2 by simp
  qed
qed

text \<open>C36: at the end of a run either no image of the sweep is touched, or every one is tried exactly once, in
  order, and then the whole run and all finalizations have succeeded.\<close>

theorem sweep_images_outlive_errors:
  assumes "simulate_run env images run finalize_all stop_recorder s = (r, s')"
  shows "sp_removed s' = sp_removed s \<or>
    (\<exists>fixed_images s1 w1 w2. prebuild_sweep_fixed_images env images s = (Inr fixed_images, s1)
       \<and> run fixed_images (sp_world s1) = (Inr (), w1) \<and> finalize_all w1 = (Inr (), w2)
       \<and> sp_removed s' = sp_removed s @ map snd fixed_images)"
proof -
  obtain r1 s1 where m1: "prebuild_sweep_fixed_images env images s = (r1, s1)" by fastforce
  have pre: "preserves sp_removed (prebuild_images env xs d)" for xs d
    by (induction xs arbitrary: d) (auto simp: build_sweep_image_def intro!: keeps on_sweep_removed)
  have "preserves sp_removed (prebuild_sweep_fixed_images env images)"
    unfolding prebuild_sweep_fixed_images_def by (intro keeps pre)
  then have v1: "sp_removed s1 = sp_removed s" using m1 unfolding preserves_def by (metis snd_conv)
  show ?thesis
  proof (cases r1)
    case (Inl e)
    have "sfinally (sraise e) (end_of_run env finalize_all stop_recorder False []) s1 = (r, s')"
      using assms m1 Inl by (simp add: simulate_run_def sbind_def sattempt_def)
    then obtain r2 where "end_of_run env finalize_all stop_recorder False [] s1 = (r2, s')"
      by (auto simp: sfinally_def sraise_def split: prod.splits sum.splits)
    from end_of_run_removed [OF this] show ?thesis using v1 by simp
  next
    case (Inr fixed_images)
    obtain r2 s2 where m2: "on_sweep (run fixed_images) s1 = (r2, s2)" by fastforce
    have v2: "sp_removed s2 = sp_removed s" using on_sweep_removed m2 v1 unfolding preserves_def by (metis snd_conv)
    have w2: "run fixed_images (sp_world s1) = (r2, sp_world s2)"
      using m2 by (auto simp: on_sweep_def szoom_def split: prod.splits)
    have "sfinally (slift r2) (end_of_run env finalize_all stop_recorder (error_of r2 = None) fixed_images) s2 = (r, s')"
      using assms m1 Inr m2 by (simp add: simulate_run_def sbind_def sattempt_def)
    then obtain r3 where "end_of_run env finalize_all stop_recorder (error_of r2 = None) fixed_images s2 = (r3, s')"
      by (auto simp: sfinally_def slift_def split: prod.splits sum.splits)
    from end_of_run_removed [OF this] show ?thesis
      using v2 w2 m1 Inr by (cases r2) (auto simp: error_of_def)
  qed
qed

subsection \<open>Examples\<close>

definition ok_env :: "unit life_env" where
  "ok_env =
     \<lparr>le_prebuilt = None, le_image_name = Some ''fixed'', le_source_image = ''src'',
      le_ensure_image = (\<lambda>n. sret (n, 1)), le_start_container = (\<lambda>_. sret ''c1''), le_apt_mirror = (\<lambda>_. sret None),
      le_agent_start = (\<lambda>_. sret ()), le_agent_stop = sret (), le_stop_container = (\<lambda>_. sret []),
      le_remove_image = (\<lambda>_. sret True), le_write_startup = (\<lambda>_. sret ()), le_make_output_dir = sret (),
      le_restore_artifacts = sret (), le_sampler_start = (\<lambda>_. sret ()), le_sampler_stop = sret [],
      le_register = (\<lambda>_. sret ()), le_unregister = (\<lambda>_. sret ()), le_summarize = (\<lambda>_. []),
      le_write_resources = (\<lambda>_ _. sret ())\<rparr>"

definition fresh_life :: "unit life" where
  "fresh_life =
     \<lparr>lf_world = (), lf_events = [], lf_agent = False, lf_container_id = None, lf_fixed = None, lf_cleanup = True,
      lf_phases = [], lf_recorder = True, lf_startup_written = False, lf_prepared = None, lf_sampler = False,
      lf_output_dir = False, lf_resources_written = False, lf_resource_recorder = False, lf_monitoring = True, lf_policy = []\<rparr>"

definition docker_request :: prepare_request where
  "docker_request =
     \<lparr>pr_agent_id = ''a'', pr_host = False, pr_backend = ''docker'', pr_executable = True, pr_image = ''src'',
      pr_monitoring = True, pr_recorder = False, pr_policy = []\<rparr>"

lemmas preparation_defs = prepare_replay_session_def prepare_steps_def prepare_container_session_def backend_start_def
  start_steps_def backend_ensure_fixed_image_def backend_start_container_def backend_configure_apt_mirror_def
  backend_start_agent_def in_phase_def finish_phase_def success_status_def mirror_status_def write_startup_def
  new_prepared_def backend_container_def start_monitoring_def sandbox_monitored_def on_life_def log_event_def
  discard_result_def backend_classes_def sm_defs

lemma example_prepared:
  "lf_prepared (snd (prepare_replay_session ok_env docker_request fresh_life)) =
     Some \<lparr>pc_id = ''c1'', pc_kind = DockerKind, pc_agent = True, pc_fixed_image = Some ''fixed'', pc_cleanup = True\<rparr>"
  "lf_container_id (snd (prepare_replay_session ok_env docker_request fresh_life)) = Some ''c1''"
  "lf_phases (snd (prepare_replay_session ok_env docker_request fresh_life)) =
     [(''ensure_fixed_image'', ''success''), (''start_task_container'', ''success''),
      (''configure_apt_mirror'', ''skipped''), (''container_agent_start'', ''success'')]"
  by (simp_all add: preparation_defs ok_env_def docker_request_def fresh_life_def)

theorem finalize_always_stops_witness:
  "\<exists>s r s' new. s = snd (prepare_replay_session ok_env docker_request fresh_life) \<and> finalize_session ok_env s = (r, s')
     \<and> lf_events s' = lf_events s @ new \<and> stops new = [''c1'']"
proof -
  define s where "s = snd (prepare_replay_session ok_env docker_request fresh_life)"
  note p = example_prepared(1) [folded s_def] and c = example_prepared(2) [folded s_def]
  obtain r s' where run: "finalize_session ok_env s = (r, s')" by fastforce
  have "\<exists>new. lf_events s' = lf_events s @ new \<and> stops new = [''c1'']"
    using finalize_always_stops [OF run p _ c] by auto
  then show ?thesis using run s_def by blast
qed

theorem worker_stops_what_it_starts_witness:
  "\<exists>new. lf_events (snd (work_on_session (ok_env\<lparr>le_restore_artifacts := sraise (OSError ''copy'')\<rparr>) docker_request (sret ()) fresh_life)) = new
     \<and> starts new = stops new"
proof -
  let ?run = "work_on_session (ok_env\<lparr>le_restore_artifacts := sraise (OSError ''copy'')\<rparr>) docker_request (sret ()) fresh_life"
  have "?run = (fst ?run, snd ?run)" by simp
  from worker_stops_what_it_starts [OF this] show ?thesis
    by (auto simp: idle_def fresh_life_def preserves_pure)
qed

text \<open>When the container does not start, the image that was just built for it is not removed.\<close>

lemma failed_container_start_keeps_image:
  "(let s = snd (work_on_session (ok_env\<lparr>le_start_container := (\<lambda>_. sraise (RuntimeError ''run''))\<rparr>) docker_request (sret ()) fresh_life)
    in lf_fixed s = Some ''fixed'' \<and> lf_cleanup s \<and> ImageRemove ''fixed'' \<notin> set (lf_events s))"
  by code_simp

text \<open>Two sessions of a wave; the finalization of the first one raises, and the second one is never
  finalized.\<close>

lemma wave_finalization_stops_at_an_error:
  "run_worker_wave (\<lambda>x. sret x) (\<lambda>ps _. sret ps)
     (\<lambda>p s. if p = ''a'' then (Inl (RuntimeError ''stop''), s @ [p]) else (Inr (), s @ [p])) [''a'', ''b''] []
   = (Inl (RuntimeError ''stop''), [''a''])"
  by code_simp

text \<open>A sweep whose second image cannot be built forgets the first one.\<close>

definition half_built_env :: "unit sweep_env" where
  "half_built_env =
     \<lparr>sw_build = (\<lambda>source name. if source = ''b'' then sraise (RuntimeError ''build'') else sret name),
      sw_remove = (\<lambda>_. sret True), sw_name = (\<lambda>source. ''sweep-'' @ source), sw_executable = True\<rparr>"

lemma failed_prebuild_leaves_images:
  "(let s = snd (simulate_run half_built_env [''a'', ''b''] (\<lambda>_. sret ()) (sret ()) (sret ()) \<lparr>sp_world = (), sp_built = [], sp_removed = []\<rparr>)
    in sp_built s = [''sweep-a''] \<and> sp_removed s = [])"
  by code_simp

definition built_env :: "unit sweep_env" where
  "built_env = half_built_env\<lparr>sw_build := (\<lambda>_ name. sret name)\<rparr>"

theorem sweep_images_outlive_errors_witness:
  "sp_removed (snd (simulate_run built_env [''a'', ''b''] (\<lambda>_. sret ()) (sret ()) (sret ()) \<lparr>sp_world = (), sp_built = [], sp_removed = []\<rparr>))
     = [''sweep-a'', ''sweep-b'']"
proof -
  let ?s = "\<lparr>sp_world = (), sp_built = [], sp_removed = []\<rparr>"
  let ?run = "simulate_run built_env [''a'', ''b''] (\<lambda>_. sret ()) (sret ()) (sret ()) ?s"
  have run: "?run = (fst ?run, snd ?run)" by simp
  have some: "sp_removed (snd ?run) \<noteq> []" by code_simp
  have built: "fst (prebuild_sweep_fixed_images built_env [''a'', ''b''] ?s) = Inr [(''a'', ''sweep-a''), (''b'', ''sweep-b'')]"
    by code_simp
  from sweep_images_outlive_errors [OF run] show ?thesis using some built by auto
qed

definition engine_env :: "rat engine life_env" where
  "engine_env =
     \<lparr>le_prebuilt = None, le_image_name = Some ''fixed'', le_source_image = ''src'',
      le_ensure_image = (\<lambda>n. ensure_fixed_image example_env ''src'' ''docker'' (Some n) True),
      le_start_container = (\<lambda>img. start_task_container example_env img ''docker'' [] ''host'' []),
      le_apt_mirror = (\<lambda>cid. configure_task_container_apt_mirror example_env cid ''docker''),
      le_agent_start = (\<lambda>_. sret ()), le_agent_stop = sret (),
      le_stop_container = (\<lambda>cid. stop_task_container example_env cid ''docker''),
      le_remove_image = (\<lambda>img. remove_image example_env img ''docker'' False),
      le_write_startup = (\<lambda>_. sret ()), le_make_output_dir = sret (),
      le_restore_artifacts = sret (), le_sampler_start = (\<lambda>_. sret ()), le_sampler_stop = sret [],
      le_register = (\<lambda>_. sret ()), le_unregister = (\<lambda>_. sret ()), le_summarize = (\<lambda>_. []),
      le_write_resources = (\<lambda>_ _. sret ())\<rparr>"

definition running_life :: "rat engine life" where
  "running_life =
     \<lparr>lf_world = example_engine, lf_events = [], lf_agent = True, lf_container_id = Some ''c1'', lf_fixed = None, lf_cleanup = True,
      lf_phases = [], lf_recorder = True, lf_startup_written = False, lf_prepared = None, lf_sampler = False,
      lf_output_dir = False, lf_resources_written = False, lf_resource_recorder = False, lf_monitoring = True, lf_policy = []\<rparr>"

theorem stopped_backend_is_gone_witness:
  "\<exists>out. ([''docker'', ''inspect'', ''c1''], out) \<in> set (eg_log (lf_world (snd (backend_stop engine_env running_life))))
     \<and> says_missing out"
proof -
  obtain e where e: "stop_task_container example_env ''c1'' ''docker'' example_engine = (Inr ''c1'', e)"
    using example_stop by (metis prod.collapse)
  have "fst (backend_stop engine_env running_life) = Inr ()"
    by (simp add: backend_stop_def stop_backend_agent_def stop_backend_container_def remove_backend_image_def attempt_def
        log_event_def on_life_def sm_defs sattempt_def engine_env_def running_life_def e error_of_def)
  then have "backend_stop engine_env running_life = (Inr (), snd (backend_stop engine_env running_life))"
    by (metis prod.collapse)
  from stopped_backend_is_gone [OF _ _ this] show ?thesis by (simp add: engine_env_def running_life_def)
qed

end
