(* ===== verification/CasPrune.thy ===== *)
theory CasPrune
  imports CasRestore StateErr
begin

text \<open>
  The pruning of the content-addressed store (\<open>src/scripts/prune_checkpoint_cas.py\<close>): the checkpoint
  directories of a run and their manifests, the digests the manifests refer to, and the removal of the
  blobs nobody refers to. The files below the store are a dictionary from the components of their
  path to their content; what the script asks of other directories is an environment. The lemmas
  show that a blob of a scanned manifest survives, so that every restore from a scanned manifest
  gives what it gave before, and that a dry run reports what a real run does.
\<close>

subsection \<open>The script\<close>

record prune_env =
  pe_is_dir :: "string \<Rightarrow> bool"
  pe_is_file :: "string \<Rightarrow> bool"
  pe_exists :: "string \<Rightarrow> bool"
  pe_rglob :: "string \<Rightarrow> string \<Rightarrow> string list"
  pe_resolve :: "string \<Rightarrow> string"
  pe_json :: "string \<Rightarrow> json_read"
  pe_unlinks :: "string list \<Rightarrow> bool"

type_synonym blob_files = "(string list \<times> string) list"

record prune_counts =
  pc_total :: nat
  pc_deleted :: nat
  pc_bytes :: nat

text \<open>Paths are compared by their components.\<close>

definition path_order :: "string \<Rightarrow> string list" where
  "path_order p = split_char CHR 0x2F (path_str p)"

definition discover_checkpoint_dirs :: "prune_env \<Rightarrow> string \<Rightarrow> string list res" where
  "discover_checkpoint_dirs env dir =
     (if \<not> pe_is_dir env dir then Inl (SystemExit ''not a directory'')
      else Inr (sort_key path_order (filter (pe_is_dir env) (pe_rglob env dir ''checkpoints''))))"

definition dir_manifests :: "prune_env \<Rightarrow> string \<Rightarrow> string list \<Rightarrow> string list res" where
  "dir_manifests env dir paths =
     (if \<not> pe_is_dir env dir then Inl (SystemExit ''not a directory'')
      else Inr (paths @ filter (pe_is_file env) (pe_rglob env dir ''*manifest*.json'')))"

definition manifest_paths :: "prune_env \<Rightarrow> string list \<Rightarrow> string list res" where
  "manifest_paths env dirs =
     rbind (rfold (dir_manifests env) dirs []) (\<lambda>paths. Inr (sort_key path_order (remdups paths)))"

definition entry_digest :: "pyval \<Rightarrow> string option res" where
  "entry_digest entry =
     (case entry of
        PStr s \<Rightarrow> Inr (Some s)
      | PDict d \<Rightarrow>
          (case pget d ''hash'' of
             PNone \<Rightarrow> Inr None
           | PStr h \<Rightarrow> Inr (Some h)
           | _ \<Rightarrow> Inl (SystemExit ''invalid digest''))
      | _ \<Rightarrow> Inl (SystemExit ''invalid manifest entry''))"

definition refer_to :: "string \<times> pyval \<Rightarrow> string list \<Rightarrow> string list res" where
  "refer_to p referenced =
     rbind (entry_digest (snd p)) (\<lambda>d. Inr (case d of None \<Rightarrow> referenced | Some h \<Rightarrow> List.insert h referenced))"

definition manifest_digests :: "prune_env \<Rightarrow> string \<Rightarrow> string list \<Rightarrow> string list res" where
  "manifest_digests env path referenced =
     (case pe_json env path of
        ReadError \<Rightarrow> Inl (OSError ''read_text'')
      | DecodeError \<Rightarrow> Inl (ValueError ''invalid UTF-8'')
      | JsonError \<Rightarrow> Inl (ValueError ''JSONDecodeError'')
      | JsonDoc (PDict d) \<Rightarrow>
          (case pget d ''entries'' of
             PNone \<Rightarrow> Inr referenced
           | PDict entries \<Rightarrow> rfold refer_to entries referenced
           | _ \<Rightarrow> Inl (SystemExit ''manifest entries must be a dict''))
      | JsonDoc _ \<Rightarrow> Inl (AttributeError ''get''))"

definition referenced_digests :: "prune_env \<Rightarrow> string list \<Rightarrow> string list res" where
  "referenced_digests env paths = rfold (manifest_digests env) paths []"

definition digest_for_blob_path :: "string list \<Rightarrow> string" where
  "digest_for_blob_path parts = (case parts of [a, b] \<Rightarrow> a @ b | _ \<Rightarrow> [])"

definition prune_blob ::
  "prune_env \<Rightarrow> string list \<Rightarrow> bool \<Rightarrow> string list \<Rightarrow> (blob_files \<times> prune_counts, unit) sm" where
  "prune_blob env referenced dry_run parts =
     sbind (smod (\<lambda>(files, n). (files, n\<lparr>pc_total := pc_total n + 1\<rparr>))) (\<lambda>_.
       swhen (digest_for_blob_path parts \<notin> set referenced)
         (sbind (sgets (\<lambda>(files, n). dget files parts)) (\<lambda>content.
            case content of
              None \<Rightarrow> sraise (OSError ''stat'')
            | Some c \<Rightarrow>
                sbind (smod (\<lambda>(files, n). (files, n\<lparr>pc_bytes := pc_bytes n + length c, pc_deleted := pc_deleted n + 1\<rparr>))) (\<lambda>_.
                  swhen (\<not> dry_run)
                    (if pe_unlinks env parts then smod (\<lambda>(files, n). (dpop parts files, n))
                     else sraise (PermissionError ''unlink''))))))"

definition prune_blobs :: "prune_env \<Rightarrow> string \<Rightarrow> string list \<Rightarrow> bool \<Rightarrow> (blob_files \<times> prune_counts, unit) sm" where
  "prune_blobs env cas_root referenced dry_run =
     (let blobs_root = path_join cas_root ''blobs'' in
      if \<not> pe_exists env blobs_root then sret ()
      else if \<not> pe_is_dir env blobs_root then sraise (SystemExit ''CAS blobs path is not a directory'')
      else sbind (sgets (\<lambda>(files, n). sort (dkeys files))) (sfor (prune_blob env referenced dry_run)))"

datatype prune_source = CheckpointDirs "string list" | SimulateOutputDir string

record prune_args =
  pa_source :: prune_source
  pa_dry_run :: bool
  pa_cas_root :: string

definition scanned_manifests :: "prune_env \<Rightarrow> prune_args \<Rightarrow> string list res" where
  "scanned_manifests env args =
     rbind (case pa_source args of
              SimulateOutputDir dir \<Rightarrow> discover_checkpoint_dirs env dir
            | CheckpointDirs dirs \<Rightarrow> Inr (map (pe_resolve env) dirs)) (\<lambda>dirs.
     if dirs = [] then Inl (SystemExit ''no checkpoint directories found'')
     else rbind (manifest_paths env dirs) (\<lambda>manifests.
       if manifests = [] then Inl (SystemExit ''no *manifest*.json files found under'') else Inr manifests))"

text \<open>\<open>main\<close>; the state starts with zero counts, which are what is printed.\<close>

definition prune_main :: "prune_env \<Rightarrow> prune_args \<Rightarrow> (blob_files \<times> prune_counts, unit) sm" where
  "prune_main env args =
     sbind (slift (scanned_manifests env args)) (\<lambda>manifests.
     sbind (slift (referenced_digests env manifests)) (\<lambda>referenced.
       prune_blobs env (pa_cas_root args) referenced (pa_dry_run args)))"

text \<open>The blob of a digest, where the checkpoint writers file it and the restore opens it.\<close>

definition blob_in :: "blob_files \<Rightarrow> string \<Rightarrow> string option" where
  "blob_in files h = dget files (path_parts (take 2 h @ ''/'' @ drop 2 h))"

subsection \<open>The digests of the manifests\<close>

lemma rfold_extensive:
  assumes "\<And>x a b. f x a = Inr b \<Longrightarrow> set a \<subseteq> set b" "rfold f xs a = Inr b"
  shows "set a \<subseteq> set b \<and> (\<forall>x \<in> set xs. \<exists>a' b'. f x a' = Inr b' \<and> set b' \<subseteq> set b)"
  using assms(2)
proof (induction xs arbitrary: a)
  case (Cons x xs)
  then obtain a1 where a1: "f x a = Inr a1" "rfold f xs a1 = Inr b" by (auto simp: res_simps)
  then show ?case using Cons.IH [OF a1(2)] assms(1) [OF a1(1)] by auto
qed simp

lemma refer_to_extensive: "refer_to p a = Inr b \<Longrightarrow> set a \<subseteq> set b"
  by (auto simp: refer_to_def res_simps split: option.splits)

lemma manifest_digests_extensive: "manifest_digests env path a = Inr b \<Longrightarrow> set a \<subseteq> set b"
  using rfold_extensive [OF refer_to_extensive]
  by (fastforce simp: manifest_digests_def split: json_read.splits pyval.splits)

text \<open>Every digest an entry of a scanned manifest names is referenced.\<close>

lemma entry_is_referenced:
  assumes "referenced_digests env paths = Inr referenced" "path \<in> set paths" "pe_json env path = JsonDoc (PDict m)"
    and "pget m ''entries'' = PDict entries" "(rel, PDict d) \<in> set entries" "pget d ''hash'' = PStr h"
  shows "h \<in> set referenced"
proof -
  have "set [] \<subseteq> set referenced \<and> (\<forall>x \<in> set paths. \<exists>a b. manifest_digests env x a = Inr b \<and> set b \<subseteq> set referenced)"
    by (rule rfold_extensive [OF _ assms(1) [unfolded referenced_digests_def]]) (rule manifest_digests_extensive)
  then obtain a b where ab: "manifest_digests env path a = Inr b" "set b \<subseteq> set referenced" using assms(2) by blast
  have "rfold refer_to entries a = Inr b" using ab(1) assms(3,4) by (simp add: manifest_digests_def)
  then have "set a \<subseteq> set b \<and> (\<forall>x \<in> set entries. \<exists>a' b'. refer_to x a' = Inr b' \<and> set b' \<subseteq> set b)"
    by (rule rfold_extensive [rotated]) (rule refer_to_extensive)
  then obtain a' b' where "refer_to (rel, PDict d) a' = Inr b'" "set b' \<subseteq> set b" using assms(5) by blast
  then show ?thesis using ab(2) assms(6) by (auto simp: refer_to_def entry_digest_def)
qed

subsection \<open>What is removed\<close>

definition outside :: "string list \<Rightarrow> string list list \<Rightarrow> string list \<Rightarrow> bool" where
  "outside referenced paths parts \<longleftrightarrow> digest_for_blob_path parts \<in> set referenced \<or> parts \<notin> set paths"

lemma prune_blob_frame:
  assumes "prune_blob env referenced dry parts (files, n) = (r, files', n')"
  shows "(outside referenced [parts] q \<longrightarrow> dget files' q = dget files q) \<and> (dry \<longrightarrow> files' = files)"
  using assms
  by (auto simp: prune_blob_def sm_defs outside_def dict.get_remove split: option.splits if_splits)

text \<open>Whatever the outcome, only unreferenced blobs of the list can go, and none in a dry run.\<close>

lemma prune_loop_frame:
  assumes "sfor (prune_blob env referenced dry) paths (files, n) = (r, files', n')"
  shows "(outside referenced paths q \<longrightarrow> dget files' q = dget files q) \<and> (dry \<longrightarrow> files' = files)"
  using assms
proof (induction paths arbitrary: files n)
  case (Cons p paths)
  obtain r1 f1 n1 where one: "prune_blob env referenced dry p (files, n) = (r1, f1, n1)" by (metis prod_cases3)
  note frame = prune_blob_frame [OF one]
  show ?case
  proof (cases r1)
    case (Inl e)
    then show ?thesis using Cons.prems one frame by (auto simp: sbind_def outside_def)
  next
    case (Inr u)
    then have "sfor (prune_blob env referenced dry) paths (f1, n1) = (r, files', n')"
      using Cons.prems one by (simp add: sbind_def)
    from Cons.IH [OF this] frame show ?thesis by (auto simp: outside_def)
  qed
qed (simp add: sret_def)

lemma prune_blobs_frame:
  assumes "prune_blobs env cas_root referenced dry (files, n) = (r, files', n')"
  shows "(digest_for_blob_path q \<in> set referenced \<longrightarrow> dget files' q = dget files q) \<and> (dry \<longrightarrow> files' = files)"
  using assms prune_loop_frame [of env referenced dry _ files n r files' n' q]
  by (auto simp: prune_blobs_def sm_defs outside_def Let_def split: if_splits)

text \<open>A script that fails before it prunes removes nothing.\<close>

lemma prune_main_frame:
  assumes "prune_main env args (files, n) = (r, files', n')"
  shows "files' = files \<and> n' = n \<or>
    (\<exists>manifests referenced. scanned_manifests env args = Inr manifests
       \<and> referenced_digests env manifests = Inr referenced
       \<and> prune_blobs env (pa_cas_root args) referenced (pa_dry_run args) (files, n) = (r, files', n'))"
  using assms by (auto simp: prune_main_def sbind_def slift_def split: sum.splits)

subsection \<open>Restores after a prune\<close>

definition hex_digest :: "string \<Rightarrow> bool" where
  "hex_digest h \<longleftrightarrow> length h = 64 \<and> set h \<subseteq> set ''0123456789abcdef''"

lemma hex_blob_parts:
  assumes "hex_digest h"
  shows "path_parts (take 2 h @ ''/'' @ drop 2 h) = [take 2 h, drop 2 h]"
proof -
  have clean: "CHR 0x2F \<notin> set w" "w \<noteq> ''.''" if "set w \<subseteq> set h" for w
    using that assms by (auto simp: hex_digest_def)
  have ne: "take 2 h \<noteq> []" "drop 2 h \<noteq> []" using assms by (auto simp: hex_digest_def)
  have "path_parts (join ''/'' [take 2 h, drop 2 h]) = [take 2 h, drop 2 h]"
    using clean [OF set_take_subset, of 2] clean [OF set_drop_subset, of 2] ne by (intro path_parts_join) auto
  then show ?thesis by simp
qed

lemma referenced_blob_survives:
  assumes "\<And>q. digest_for_blob_path q \<in> set referenced \<Longrightarrow> dget files' q = dget files q"
    and "hex_digest h" "h \<in> set referenced"
  shows "blob_in files' h = blob_in files h"
  using assms(1) [of "[take 2 h, drop 2 h]"] assms(3)
  unfolding blob_in_def hex_blob_parts [OF assms(2)] by (simp add: digest_for_blob_path_def)

lemma rfold_transfer:
  assumes "rfold f xs a = Inr b" "\<And>x a b. x \<in> set xs \<Longrightarrow> f x a = Inr b \<Longrightarrow> g x a = Inr b"
  shows "rfold g xs a = Inr b"
  using assms
proof (induction xs arbitrary: a)
  case (Cons x xs)
  then obtain a1 where a1: "f x a = Inr a1" "rfold f xs a1 = Inr b" by (auto simp: res_simps)
  then show ?case using Cons.IH [OF a1(2)] Cons.prems(2) by simp
qed simp

text \<open>The file entries of a restore are entries of the manifest.\<close>

lemma classify_members:
  assumes "rfold (classify_step env) entries (f0, l0) = Inr (files, links)"
  shows "set files \<subseteq> set f0 \<union> {(rel, d) |rel d. (rel, PDict d) \<in> set entries}"
  using assms
proof (induction entries arbitrary: f0 l0)
  case (Cons p entries)
  obtain f1 l1 where 1: "classify_step env p (f0, l0) = Inr (f1, l1)" "rfold (classify_step env) entries (f1, l1) = Inr (files, links)"
    using Cons.prems by (auto simp: res_simps)
  have "set f1 \<subseteq> set f0 \<union> {(rel, d) |rel d. p = (rel, PDict d)}"
    using 1(1) by (auto simp: classify_step_def Let_def split: prod.splits pyval.splits if_splits)
  then show ?case using Cons.IH [OF 1(2)] by auto
qed auto

definition reading :: "(string \<Rightarrow> string) \<Rightarrow> blob_files \<Rightarrow> restore_env \<Rightarrow> restore_env" where
  "reading sha files renv = renv\<lparr>re_sha256 := sha, re_blob := blob_in files\<rparr>"

lemma reading_same:
  "prepare_root (reading sha files renv) = prepare_root (reading sha files' renv)"
  "clear_tree (reading sha files renv) = clear_tree (reading sha files' renv)"
  "delete_step (reading sha files renv) = delete_step (reading sha files' renv)"
  "classify_step (reading sha files renv) = classify_step (reading sha files' renv)"
  by (simp_all add: fun_eq_iff reading_def prepare_root_def clear_tree_def delete_step_def classify_step_def
      is_preserved_relpath_def split: list.splits)

lemma entry_blob_survives:
  assumes "entry_blob (reading sha files renv) d = Inr c" "\<And>c. hex_digest (sha c)"
    and "\<And>h. dget d ''hash'' = Some (PStr h) \<Longrightarrow> hex_digest h \<Longrightarrow> blob_in files' h = blob_in files h"
  shows "entry_blob (reading sha files' renv) d = Inr c"
proof -
  obtain h where h: "dget d ''hash'' = Some (PStr h)" "blob_in files h = Some c" "sha c = h"
    using assms(1) by (auto simp: entry_blob_def reading_def split: option.split_asm pyval.split_asm if_split_asm)
  then show ?thesis using assms(2) [of c] assms(3) [OF h(1)] by (simp add: entry_blob_def reading_def)
qed

lemma restore_survives:
  assumes "restore_manifest (reading sha files renv) (PDict m) clear t = Inr t'" "\<And>c. hex_digest (sha c)"
    and "\<And>entries rel d h. pget m ''entries'' = PDict entries \<Longrightarrow> (rel, PDict d) \<in> set entries \<Longrightarrow>
           dget d ''hash'' = Some (PStr h) \<Longrightarrow> hex_digest h \<Longrightarrow> blob_in files' h = blob_in files h"
  shows "restore_manifest (reading sha files' renv) (PDict m) clear t = Inr t'"
proof -
  let ?env = "reading sha files renv" and ?env' = "reading sha files' renv"
  obtain entries where m1: "pget_or m ''entries'' (PDict []) = PDict entries"
    using assms(1) by (cases "pget_or m ''entries'' (PDict [])") (simp_all add: restore_manifest_def res_simps)
  obtain deleted where m2: "pget_or m ''deleted_paths'' (PList []) = PList deleted"
    using assms(1) m1
    by (cases "pget_or m ''deleted_paths'' (PList [])") (simp_all add: restore_manifest_def res_simps)
  note m = m1 m2
  obtain t0 ok t1 fs ls t2 where run: "prepare_root ?env t = Inr t0"
      "rmap safe_target (map (\<lambda>k. PStr k) (dkeys entries) @ deleted) = Inr ok"
      "(if clear then Inr (clear_tree ?env t0)
        else rfold (delete_step ?env) (deletion_order (deleted_strings deleted)) t0) = Inr t1"
      "rfold (classify_step ?env) entries ([], []) = Inr (fs, ls)"
      "rfold (write_file ?env) fs t1 = Inr t2" "rfold write_link ls t2 = Inr t'"
    using assms(1) unfolding restore_manifest_def by (simp only: m pyval.case rbind_eq_Inr split_paired_Ex prod.case) blast
  have ent: "entries \<noteq> [] \<Longrightarrow> pget m ''entries'' = PDict entries"
    using m(1) by (auto simp: pget_or_def pget_def split: option.splits)
  have "rfold (write_file ?env') fs t1 = Inr t2"
  proof (rule rfold_transfer [OF run(5)])
    fix p a b
    assume p: "p \<in> set fs" and w: "write_file ?env p a = Inr b"
    obtain rel d where pd: "p = (rel, d)" by force
    then have e: "(rel, PDict d) \<in> set entries" using classify_members [OF run(4)] p by auto
    then have pg: "pget m ''entries'' = PDict entries" using ent by (cases entries) auto
    obtain c where c: "entry_blob ?env d = Inr c" using w pd by (auto simp: write_file_def res_simps)
    have "entry_blob ?env' d = Inr c" using entry_blob_survives [OF c assms(2)] assms(3) [OF pg e] by blast
    then show "write_file ?env' p a = Inr b" using w c pd by (simp add: write_file_def)
  qed
  moreover have "(if clear then Inr (clear_tree ?env' t0)
        else rfold (delete_step ?env') (deletion_order (deleted_strings deleted)) t0) = Inr t1"
    using run(3) by (simp only: reading_same [of sha files' renv files])
  moreover have "prepare_root ?env' t = Inr t0" "rfold (classify_step ?env') entries ([], []) = Inr (fs, ls)"
    using run(1,4) by (simp_all only: reading_same [of sha files' renv files])
  ultimately show ?thesis using m run(2,6) by (simp add: restore_manifest_def)
qed

text \<open>C37: pruning is invisible to restores: whatever the outcome of the script, a restore from a manifest it
  scanned gives what it gave before.\<close>

theorem pruning_is_invisible_to_restores:
  assumes "prune_main env args (files, n) = (r, files', n')" and "\<And>c. hex_digest (sha c)"
    and "scanned_manifests env args = Inr manifests" "path \<in> set manifests" "pe_json env path = JsonDoc m"
    and "restore_manifest (reading sha files renv) m clear t = Inr t'"
  shows "restore_manifest (reading sha files' renv) m clear t = Inr t'"
proof (cases "files' = files")
  case False
  then obtain referenced where ref: "referenced_digests env manifests = Inr referenced"
    and run: "prune_blobs env (pa_cas_root args) referenced (pa_dry_run args) (files, n) = (r, files', n')"
    using prune_main_frame [OF assms(1)] assms(3) by auto
  obtain d where m: "m = PDict d" using assms(6) by (cases m) (simp_all add: restore_manifest_def res_simps)
  show ?thesis using assms(6) unfolding m
  proof (rule restore_survives [OF _ assms(2)])
    fix entries rel e h
    assume "pget d ''entries'' = PDict entries" "(rel, PDict e) \<in> set entries" "dget e ''hash'' = Some (PStr h)" "hex_digest h"
    then show "blob_in files' h = blob_in files h"
      using entry_is_referenced [OF ref assms(4)] assms(5) m prune_blobs_frame [OF run]
      by (intro referenced_blob_survives [of referenced]) (auto simp: pget_def)
  qed
qed (use assms(6) in simp)


subsection \<open>What a successful run removes and reports\<close>

definition prunable :: "string list \<Rightarrow> string list list \<Rightarrow> string list list" where
  "prunable referenced paths = filter (\<lambda>q. digest_for_blob_path q \<notin> set referenced) paths"

definition blob_length :: "blob_files \<Rightarrow> string list \<Rightarrow> nat" where
  "blob_length files q = (case dget files q of None \<Rightarrow> 0 | Some c \<Rightarrow> length c)"

definition report :: "string list \<Rightarrow> blob_files \<Rightarrow> string list list \<Rightarrow> prune_counts \<Rightarrow> prune_counts" where
  "report referenced files paths n =
     n\<lparr>pc_total := pc_total n + length paths, pc_deleted := pc_deleted n + length (prunable referenced paths),
       pc_bytes := pc_bytes n + sum_list (map (blob_length files) (prunable referenced paths))\<rparr>"

lemma prune_blob_success:
  assumes "prune_blob env referenced dry p (files, n) = (Inr (), files', n')"
  shows "n' = report referenced files [p] n
    \<and> (\<not> dry \<longrightarrow> dget files' = (dget files)(p := if digest_for_blob_path p \<in> set referenced then dget files p else None))"
  using assms
  by (auto simp: prune_blob_def sm_defs report_def prunable_def blob_length_def dict.get_remove
      split: option.splits if_splits)

lemma report_Cons: "report referenced files (p # paths) n = report referenced files paths (report referenced files [p] n)"
  by (simp add: report_def prunable_def)

lemma prune_loop_success:
  assumes "sfor (prune_blob env referenced dry) paths (files, n) = (Inr (), files', n')" "distinct paths"
  shows "n' = report referenced files paths n
    \<and> (\<not> dry \<longrightarrow> (\<forall>q. dget files' q = (if q \<in> set (prunable referenced paths) then None else dget files q)))"
  using assms
proof (induction paths arbitrary: files n)
  case (Cons p paths)
  obtain f1 n1 where one: "prune_blob env referenced dry p (files, n) = (Inr (), f1, n1)"
      and rest: "sfor (prune_blob env referenced dry) paths (f1, n1) = (Inr (), files', n')"
    using Cons.prems(1) by (auto simp: sbind_def split: prod.splits sum.splits)
  note s = prune_blob_success [OF one] and f = prune_blob_frame [OF one]
  have "blob_length f1 q = blob_length files q" if "q \<in> set paths" for q
    using f [of q] that Cons.prems(2) by (auto simp: blob_length_def outside_def)
  then have "map (blob_length f1) (prunable referenced paths) = map (blob_length files) (prunable referenced paths)"
    by (auto simp: prunable_def)
  then have "report referenced f1 paths n1 = report referenced files paths n1" unfolding report_def by (simp only:)
  then have "n' = report referenced files (p # paths) n"
    using Cons.IH [OF rest] Cons.prems(2) s by (simp add: report_Cons [of _ _ _ paths])
  then show ?case using Cons.IH [OF rest] Cons.prems(2) s by (auto simp: prunable_def)
qed (simp add: sret_def report_def prunable_def)

text \<open>a run that succeeds removes exactly the blobs no scanned manifest refers to and reports their number
  and size; a dry run of the same state reports the same and removes nothing.\<close>

theorem prune_removes_what_it_reports:
  assumes "prune_main env args (files, n) = (Inr (), files', n')" "dict_ok files"
    and "pe_exists env (path_join (pa_cas_root args) ''blobs'')"
  shows "\<exists>manifests referenced. scanned_manifests env args = Inr manifests
     \<and> referenced_digests env manifests = Inr referenced \<and> n' = report referenced files (sort (dkeys files)) n
     \<and> (if pa_dry_run args then files' = files
        else \<forall>q. dget files' q = (if digest_for_blob_path q \<in> set referenced then dget files q else None))"
proof -
  obtain manifests referenced where ref: "scanned_manifests env args = Inr manifests"
      "referenced_digests env manifests = Inr referenced"
    and run: "prune_blobs env (pa_cas_root args) referenced (pa_dry_run args) (files, n) = (Inr (), files', n')"
    using assms(1) by (auto simp: prune_main_def sbind_def slift_def split: sum.splits)
  have loop: "sfor (prune_blob env referenced (pa_dry_run args)) (sort (dkeys files)) (files, n) = (Inr (), files', n')"
    using run assms(3) by (auto simp: prune_blobs_def sm_defs Let_def split: if_splits)
  have "distinct (sort (dkeys files))" using assms(2) by simp
  note s = prune_loop_success [OF loop this] and f = prune_blobs_frame [OF run]
  have "dget files q = None" if "q \<notin> set (dkeys files)" for q using that by (simp add: dget_None_iff)
  then show ?thesis using ref s f by (auto simp: prunable_def)
qed

subsection \<open>Examples\<close>

text \<open>Two blobs in the store; the manifest of the scanned run names the first, the manifest of another
  run names the second.\<close>

definition digest_a :: string where "digest_a = replicate 64 CHR ''a''"
definition digest_b :: string where "digest_b = replicate 64 CHR ''b''"

definition two_digests :: "string \<Rightarrow> string" where
  "two_digests c = (if c = ''one'' then digest_a else digest_b)"

definition two_blobs :: blob_files where
  "two_blobs = [(path_parts (take 2 digest_a @ ''/'' @ drop 2 digest_a), ''one''),
                (path_parts (take 2 digest_b @ ''/'' @ drop 2 digest_b), ''other'')]"

definition file_manifest :: "string \<Rightarrow> pyval" where
  "file_manifest h = PDict [(''entries'', PDict [(''f'', PDict [(''hash'', PStr h), (''mode'', PInt 420)])])]"

definition two_runs :: prune_env where
  "two_runs =
     \<lparr>pe_is_dir = (\<lambda>p. True), pe_is_file = (\<lambda>p. True), pe_exists = (\<lambda>p. True),
      pe_rglob = (\<lambda>dir pattern. if pattern = ''checkpoints'' then [dir @ ''/checkpoints''] else [dir @ ''/1-manifest.json'']),
      pe_resolve = id,
      pe_json = (\<lambda>p. JsonDoc (file_manifest (if p = ''/out/checkpoints/1-manifest.json'' then digest_a else digest_b))),
      pe_unlinks = (\<lambda>q. True)\<rparr>"

definition scan_out :: prune_args where
  "scan_out = \<lparr>pa_source = SimulateOutputDir ''/out'', pa_dry_run = False, pa_cas_root = ''/cas''\<rparr>"

definition no_counts :: prune_counts where
  "no_counts = \<lparr>pc_total = 0, pc_deleted = 0, pc_bytes = 0\<rparr>"

definition any_env :: restore_env where
  "any_env = \<lparr>re_sha256 = id, re_blob = Map.empty, re_root_is_real = True, re_preserved = []\<rparr>"

lemma two_digests_hex: "hex_digest (two_digests c)"
  by (simp add: hex_digest_def two_digests_def digest_a_def digest_b_def)

lemma two_digests_ne: "digest_a \<noteq> digest_b"
  by (simp add: digest_a_def digest_b_def)

lemma two_blobs_eq: "two_blobs = [([take 2 digest_a, drop 2 digest_a], ''one''), ([take 2 digest_b, drop 2 digest_b], ''other'')]"
  using hex_blob_parts [OF two_digests_hex [of "''one''"]] hex_blob_parts [OF two_digests_hex [of "''x''"]]
  by (simp add: two_blobs_def two_digests_def)

lemma two_runs_scan: "scanned_manifests two_runs scan_out = Inr [''/out/checkpoints/1-manifest.json'']"
  by (simp add: scanned_manifests_def scan_out_def two_runs_def discover_checkpoint_dirs_def manifest_paths_def dir_manifests_def)

lemma two_runs_refer: "referenced_digests two_runs [''/out/checkpoints/1-manifest.json''] = Inr [digest_a]"
  by (simp add: referenced_digests_def two_runs_def manifest_digests_def file_manifest_def refer_to_def entry_digest_def pget_def)

lemma digests_split: "take 2 digest_a \<noteq> take 2 digest_b"
  by (simp add: digest_a_def digest_b_def)

lemma two_runs_pruned:
  "prune_main two_runs scan_out (two_blobs, no_counts) =
     (Inr (), [([take 2 digest_a, drop 2 digest_a], ''one'')], \<lparr>pc_total = 2, pc_deleted = 1, pc_bytes = 5\<rparr>)"
proof -
  have ord: "sort [[take 2 digest_a, drop 2 digest_a], [take 2 digest_b, drop 2 digest_b]] =
      [[take 2 digest_a, drop 2 digest_a], [take 2 digest_b, drop 2 digest_b]]"
    by (simp add: digest_a_def digest_b_def eval_nat_numeral)
  have a: "prune_blob two_runs [digest_a] False [take 2 digest_a, drop 2 digest_a] (two_blobs, no_counts) =
      (Inr (), two_blobs, no_counts\<lparr>pc_total := 1\<rparr>)"
    by (simp add: prune_blob_def sm_defs digest_for_blob_path_def no_counts_def)
  have b: "prune_blob two_runs [digest_a] False [take 2 digest_b, drop 2 digest_b] (two_blobs, no_counts\<lparr>pc_total := 1\<rparr>) =
      (Inr (), [([take 2 digest_a, drop 2 digest_a], ''one'')], \<lparr>pc_total = 2, pc_deleted = 1, pc_bytes = 5\<rparr>)"
    using digests_split two_digests_ne
    by (simp add: prune_blob_def sm_defs digest_for_blob_path_def no_counts_def two_blobs_eq two_runs_def dpop_def)
  show ?thesis
    using ord a b
    by (simp add: prune_main_def sbind_def slift_def two_runs_scan two_runs_refer)
       (simp add: prune_blobs_def two_runs_def scan_out_def sm_defs two_blobs_eq)
qed

lemma restore_one_file:
  "restore_manifest (reading two_digests files any_env) (file_manifest h) True Map.empty =
     (case blob_in files h of
        None \<Rightarrow> Inl (OSError ''No such file or directory'')
      | Some c \<Rightarrow> if two_digests c \<noteq> h then Inl (RuntimeError ''checkpoint blob digest mismatch'')
                  else Inr [[] \<mapsto> FDir, [''f''] \<mapsto> FFile c 420])"
  by (auto simp: restore_manifest_def prepare_root_def reading_def any_env_def file_manifest_def pget_or_def safe_target_def
      is_absolute_def path_parts_def clear_tree_def classify_step_def is_preserved_relpath_def write_file_def entry_blob_def
      ensure_parent_dir_def entry_mode_def fun_eq_iff starts_with_iff split: option.splits list.splits)

lemma blobs_of_digests:
  "blob_in files digest_a = dget files [take 2 digest_a, drop 2 digest_a]"
  "blob_in files digest_b = dget files [take 2 digest_b, drop 2 digest_b]"
  using hex_blob_parts [OF two_digests_hex [of "''one''"]] hex_blob_parts [OF two_digests_hex [of "''x''"]]
  by (simp_all add: blob_in_def two_digests_def)

lemma two_blobs_restore:
  "restore_manifest (reading two_digests two_blobs any_env) (file_manifest digest_a) True Map.empty =
     Inr [[] \<mapsto> FDir, [''f''] \<mapsto> FFile ''one'' 420]"
  by (simp add: restore_one_file blobs_of_digests two_blobs_eq two_digests_def)

theorem pruning_is_invisible_to_restores_witness:
  "restore_manifest (reading two_digests [([take 2 digest_a, drop 2 digest_a], ''one'')] any_env) (file_manifest digest_a) True Map.empty
     = Inr [[] \<mapsto> FDir, [''f''] \<mapsto> FFile ''one'' 420]"
  by (rule pruning_is_invisible_to_restores [OF two_runs_pruned two_digests_hex two_runs_scan _ _ two_blobs_restore, of "''/out/checkpoints/1-manifest.json''"])
    (simp_all add: two_runs_def)

theorem prune_removes_what_it_reports_witness:
  "\<exists>manifests referenced. scanned_manifests two_runs scan_out = Inr manifests
     \<and> referenced_digests two_runs manifests = Inr referenced
     \<and> \<lparr>pc_total = 2, pc_deleted = 1, pc_bytes = 5\<rparr> = report referenced two_blobs (sort (dkeys two_blobs)) no_counts
     \<and> referenced = [digest_a]"
proof -
  have "dict_ok two_blobs" using digests_split by (simp add: two_blobs_eq)
  from prune_removes_what_it_reports [OF two_runs_pruned this]
  show ?thesis using two_runs_scan two_runs_refer by (auto simp: two_runs_def)
qed

text \<open>The blob of the other run is gone: its manifest, which the script was not told of, cannot be restored any more.\<close>

lemma other_run_is_broken:
  "restore_manifest (reading two_digests two_blobs any_env) (file_manifest digest_b) True Map.empty =
     Inr [[] \<mapsto> FDir, [''f''] \<mapsto> FFile ''other'' 420]"
  "restore_manifest (reading two_digests [([take 2 digest_a, drop 2 digest_a], ''one'')] any_env) (file_manifest digest_b) True Map.empty
     = Inl (OSError ''No such file or directory'')"
  using digests_split by (simp_all add: restore_one_file blobs_of_digests two_blobs_eq two_digests_def)

end
