(* ===== verification/FakeSandbox.thy ===== *)
theory FakeSandbox
  imports TraceTools TraceRecorder
begin

text \<open>
  The messages between a sandbox and the simulator and the in-memory sandbox of
  \<open>src/agents/sandbox_runtime.py\<close>: the conversion of responses between a dataclass and the dictionary of
  the agent, and \<open>FakeBackend\<close> with its files, its logical clock, its tools, its snapshots and
  its change probe. Elapsed times are arguments and hashing is an operation of an environment. The lemmas show when a
  response survives the conversion, that the paths of the files are those the paths of a snapshot
  name, that a restore gives back what was captured, and that the probe sees exactly the writes.
\<close>

subsection \<open>Responses\<close>

record transport_response =
  ar_result :: string
  ar_ok :: bool
  ar_inner_duration_ms :: "rat option"
  ar_returncode :: "int option"
  ar_timed_out :: "bool option"
  ar_metadata :: pydict

record transport_request =
  aq_tool :: string
  aq_args :: pydict

definition opt_entry :: "string \<Rightarrow> ('a \<Rightarrow> pyval) \<Rightarrow> 'a option \<Rightarrow> pydict" where
  "opt_entry k f v = (case v of None \<Rightarrow> [] | Some x \<Rightarrow> [(k, f x)])"

definition agent_response_dict_from_transport :: "transport_response \<Rightarrow> pydict" where
  "agent_response_dict_from_transport r =
     dupdate ([(''result'', PStr (ar_result r)), (''ok'', PBool (ar_ok r))]
              @ opt_entry ''inner_duration_ms'' PFloat (ar_inner_duration_ms r)
              @ opt_entry ''returncode'' PInt (ar_returncode r)
              @ opt_entry ''timed_out'' PBool (ar_timed_out r)) (ar_metadata r)"

definition reserved_keys :: "string list" where
  "reserved_keys = [''result'', ''ok'', ''returncode'', ''timed_out'', ''inner_duration_ms'']"

definition transport_response_from_agent_dict :: "pydict \<Rightarrow> transport_response" where
  "transport_response_from_agent_dict d =
     \<lparr>ar_result = (case pget_or d ''result'' (PStr []) of PStr s \<Rightarrow> s | v \<Rightarrow> py_str v),
      ar_ok = truthy (pget_or d ''ok'' (PBool False)),
      ar_inner_duration_ms = (case pget d ''inner_duration_ms'' of
                                PInt i \<Rightarrow> Some (of_int i) | PFloat q \<Rightarrow> Some q | _ \<Rightarrow> None),
      ar_returncode = (case pget d ''returncode'' of PInt i \<Rightarrow> Some i | _ \<Rightarrow> None),
      ar_timed_out = (case pget d ''timed_out'' of PBool b \<Rightarrow> Some b | _ \<Rightarrow> None),
      ar_metadata = filter (\<lambda>(k, v). k \<notin> set reserved_keys) d\<rparr>"

subsection \<open>Paths\<close>

text \<open>\<open>posixpath.normpath\<close>: empty and \<open>.\<close> components go, \<open>..\<close> takes the last component with it when there is one.\<close>

definition norm_component :: "bool \<Rightarrow> string \<Rightarrow> string list \<Rightarrow> string list" where
  "norm_component rooted part acc =
     (if part = [] \<or> part = ''.'' then acc
      else if part \<noteq> ''..'' \<or> (\<not> rooted \<and> acc = []) \<or> (acc \<noteq> [] \<and> last acc = ''..'') then acc @ [part]
      else butlast acc)"

definition initial_slashes :: "string \<Rightarrow> string" where
  "initial_slashes path =
     (if \<not> starts_with ''/'' path then []
      else if starts_with ''//'' path \<and> \<not> starts_with ''///'' path then ''//'' else ''/'')"

definition norm_components :: "string \<Rightarrow> string list" where
  "norm_components path = fold (norm_component (starts_with ''/'' path)) (split_char CHR 0x2F path) []"

definition normpath :: "string \<Rightarrow> string" where
  "normpath path =
     (if path = [] then ''.''
      else let p = initial_slashes path @ join ''/'' (norm_components path)
           in if p = [] then ''.'' else p)"

subsection \<open>The sandbox in memory\<close>

record fake =
  fk_root :: string
  fk_files :: "(string \<times> string) list"
  fk_mtimes :: "(string \<times> int) list"
  fk_clock :: int
  fk_exec_counter :: int

definition new_fake :: "string \<Rightarrow> fake" where
  "new_fake dir = \<lparr>fk_root = normpath dir, fk_files = [], fk_mtimes = [], fk_clock = 0, fk_exec_counter = 0\<rparr>"

definition fake_path :: "string \<Rightarrow> string \<Rightarrow> string res" where
  "fake_path dir path =
     (if path = [] then Inl (ValueError ''fake sandbox path must be non-empty'')
      else let candidate = (if starts_with ''/'' path then path else dir @ ''/'' @ path);
               normalized = normpath candidate
           in if normalized \<noteq> dir \<and> \<not> starts_with (dir @ ''/'') normalized
              then Inl (ValueError ''fake sandbox path outside root'') else Inr normalized)"

definition fake_relpath :: "string \<Rightarrow> string \<Rightarrow> string" where
  "fake_relpath dir path =
     (if path = dir then ''.''
      else if starts_with (dir @ ''/'') path then drop (length dir + 1) path else path)"

definition fake_write :: "string \<Rightarrow> string \<Rightarrow> (fake, unit) sm" where
  "fake_write path content =
     smod (\<lambda>s. s\<lparr>fk_clock := fk_clock s + 1, fk_files := dput path content (fk_files s),
                fk_mtimes := dput path (fk_clock s + 1) (fk_mtimes s)\<rparr>)"

definition plain_response :: "string \<Rightarrow> bool \<Rightarrow> transport_response" where
  "plain_response result ok =
     \<lparr>ar_result = result, ar_ok = ok, ar_inner_duration_ms = None, ar_returncode = None, ar_timed_out = None,
      ar_metadata = []\<rparr>"

definition fake_exec_response :: "string \<Rightarrow> int \<Rightarrow> int \<Rightarrow> transport_response" where
  "fake_exec_response result rc counter =
     \<lparr>ar_result = result, ar_ok = True, ar_inner_duration_ms = None, ar_returncode = Some rc, ar_timed_out = Some False,
      ar_metadata = [(''fake_exec_counter'', PInt counter)]\<rparr>"

text \<open>\<open>int(v)\<close> truncates towards zero.\<close>

definition coerce_fake_returncode :: "pyval \<Rightarrow> int res" where
  "coerce_fake_returncode v =
     (case v of
        PNone \<Rightarrow> Inr 0
      | PBool b \<Rightarrow> Inl (ValueError ''fake returncode must be int'')
      | PInt i \<Rightarrow> Inr i
      | PFloat q \<Rightarrow> Inr (if 0 \<le> q then \<lfloor>q\<rfloor> else \<lceil>q\<rceil>)
      | PStr s \<Rightarrow> (case parse_int s of None \<Rightarrow> Inl (ValueError ''invalid literal for int()'') | Some i \<Rightarrow> Inr i)
      | _ \<Rightarrow> Inl (TypeError ''int() argument''))"

definition next_exec :: "(fake, int) sm" where
  "next_exec = sbind (sgets fk_exec_counter) (\<lambda>n.
     sbind (smod (\<lambda>s. s\<lparr>fk_exec_counter := n + 1\<rparr>)) (\<lambda>_. sret n))"

definition simulated_exec :: "string \<Rightarrow> int \<Rightarrow> string" where
  "simulated_exec command rc = ''simulated exec: '' @ command @ [CHR 0x0A, CHR 0x0A] @ ''Exit code: '' @ int_str rc"

definition execute_exec :: "pydict \<Rightarrow> (fake, transport_response) sm" where
  "execute_exec args =
     (let command = py_str (pget_or args ''command'' (PStr [])) in
      sbind next_exec (\<lambda>n.
      sbind (slift (coerce_fake_returncode (pget args ''returncode''))) (\<lambda>rc.
        sret (fake_exec_response (simulated_exec command rc) rc n))))"

fun run_commands :: "nat \<Rightarrow> pyval list \<Rightarrow> int \<Rightarrow> (fake, string list \<times> int) sm" where
  "run_commands index [] last_counter = sret ([], last_counter)"
| "run_commands index (raw # rest) last_counter =
     sbind next_exec (\<lambda>n.
     sbind (run_commands (index + 1) rest n) (\<lambda>(outputs, final).
       sret ((''[call '' @ int_str (int index) @ '']'' @ [CHR 0x0A] @ simulated_exec (py_str raw) 0) # outputs, final)))"

definition execute_commands :: "pydict \<Rightarrow> (fake, transport_response) sm" where
  "execute_commands args =
     (case pget_or args ''commands'' (PList []) of
        PList commands \<Rightarrow>
          sbind (run_commands 0 commands 0) (\<lambda>(outputs, n). sret (fake_exec_response (join [CHR 0x0A] outputs) 0 n))
      | _ \<Rightarrow> sraise (ValueError ''fake commands args.commands must be a list''))"

definition arg_path :: "pydict \<Rightarrow> string \<Rightarrow> (fake, string) sm" where
  "arg_path args fallback =
     sbind (sgets fk_root) (\<lambda>dir. slift (fake_path dir (py_str (pget_or args ''path'' (PStr fallback)))))"

definition fake_numbered_lines :: "string list \<Rightarrow> string" where
  "fake_numbered_lines lines =
     join [CHR 0x0A] (map (\<lambda>(i, l). int_str (int i) @ ''| '' @ l) (zip [1..<length lines + 1] lines))"

definition execute_read_file :: "pydict \<Rightarrow> (fake, transport_response) sm" where
  "execute_read_file args =
     sbind (arg_path args []) (\<lambda>path.
     sbind (sgets (\<lambda>s. dget (fk_files s) path)) (\<lambda>content.
       case content of
         None \<Rightarrow> sret (plain_response (''Error: No such file: '' @ path) False)
       | Some c \<Rightarrow>
           if c = [] then sret (plain_response (''(Empty file: '' @ path @ '')'') True)
           else sret (plain_response (fake_numbered_lines (splitlines c)) True)))"

definition execute_write_file :: "pydict \<Rightarrow> (fake, transport_response) sm" where
  "execute_write_file args =
     sbind (arg_path args []) (\<lambda>path.
     sbind (fake_write path (py_str (pget_or args ''content'' (PStr [])))) (\<lambda>_.
       sret (plain_response (''Successfully wrote '' @ path) True)))"

definition execute_edit_file :: "pydict \<Rightarrow> (fake, transport_response) sm" where
  "execute_edit_file args =
     sbind (arg_path args []) (\<lambda>path.
     sbind (sgets (\<lambda>s. dget (fk_files s) path)) (\<lambda>content.
       case content of
         None \<Rightarrow> sret (plain_response (''Error editing file: '' @ path) False)
       | Some c \<Rightarrow>
           let old_text = py_str (pget_or args ''old_text'' (PStr []));
               new_text = py_str (pget_or args ''new_text'' (PStr []));
               everywhere = truthy (pget_or args ''replace_all'' (PBool False));
               n = count_sub old_text c
           in if old_text = [] \<or> n = 0
              then sret (plain_response (''Error: old_text not found in '' @ path) False)
              else if 1 < n \<and> \<not> everywhere
              then sret (plain_response (''Warning: old_text appears '' @ int_str (int n) @ '' times. ''
                          @ ''Provide more context or set replace_all=true.'') False)
              else sbind (fake_write path (if everywhere then replace_sub old_text new_text c
                                           else replace_first old_text new_text c)) (\<lambda>_.
                     sret (plain_response (''Successfully edited '' @ path) True))))"

definition child_name :: "string \<Rightarrow> string \<Rightarrow> string" where
  "child_name pre file_path = hd (split_char CHR 0x2F (drop (length pre) file_path))"

definition execute_list_dir :: "pydict \<Rightarrow> (fake, transport_response) sm" where
  "execute_list_dir args =
     sbind (arg_path args ''.'') (\<lambda>path.
     sbind (sgets fk_files) (\<lambda>files.
       let pre = (if ends_with ''/'' path then path else path @ ''/'');
           below = filter (\<lambda>p. p \<noteq> path \<and> starts_with pre p) (dkeys files);
           children = remdups (filter (\<lambda>c. c \<noteq> []) (map (child_name pre) below))
       in sret (plain_response (join [CHR 0x0A] (sort children)) True)))"

definition fake_execute :: "rat \<Rightarrow> transport_request \<Rightarrow> (fake, transport_response) sm" where
  "fake_execute elapsed_ms req =
     sbind (if aq_tool req = ''exec'' then execute_exec (aq_args req)
            else if aq_tool req = ''commands'' then execute_commands (aq_args req)
            else if aq_tool req = ''read_file'' then execute_read_file (aq_args req)
            else if aq_tool req = ''write_file'' then execute_write_file (aq_args req)
            else if aq_tool req = ''edit_file'' then execute_edit_file (aq_args req)
            else if aq_tool req = ''list_dir'' then execute_list_dir (aq_args req)
            else sret (plain_response [] True)) (\<lambda>r.
       sret (r\<lparr>ar_inner_duration_ms := Some elapsed_ms\<rparr>))"

subsection \<open>Snapshots and the probe\<close>

record rooted_snapshot = sandbox_snapshot +
  sb_process_state :: "pydict option"
  sb_root :: string

text \<open>The bytes of a string of characters below 256, and the entry of a file.\<close>

definition utf8 :: "string \<Rightarrow> string" where
  "utf8 s = concat (map (\<lambda>c. if cc c < 128 then [c] else [char_of (192 + cc c div 64), char_of (128 + cc c mod 64)]) s)"

definition fake_entry :: "(string \<Rightarrow> string) \<Rightarrow> string \<Rightarrow> int \<Rightarrow> pyval" where
  "fake_entry sha content mtime =
     PDict [(''hash'', PStr (sha (utf8 content))), (''content'', PStr content), (''size'', PInt (int (length (utf8 content)))),
            (''mtime_ns'', PInt mtime)]"

definition capture_file :: "(string \<Rightarrow> string) \<Rightarrow> fake \<Rightarrow> string \<times> string \<Rightarrow> pydict \<Rightarrow> pydict res" where
  "capture_file sha s f entries =
     (case dget (fk_mtimes s) (fst f) of
        None \<Rightarrow> Inl (KeyError (fst f))
      | Some m \<Rightarrow> Inr (dput (fake_relpath (fk_root s) (fst f)) (fake_entry sha (snd f) m) entries))"

definition fake_capture :: "(string \<Rightarrow> string) \<Rightarrow> fake \<Rightarrow> rooted_snapshot res" where
  "fake_capture sha s =
     rbind (rfold (capture_file sha s) (sort_key fst (fk_files s)) []) (\<lambda>entries.
       Inr \<lparr>sb_timestamp_ns = fk_clock s, sb_disk_state = [(''entries'', PDict entries)],
            sb_process_state = None, sb_root = fk_root s\<rparr>)"

definition restore_entry ::
  "string \<Rightarrow> int \<Rightarrow> string \<times> pyval \<Rightarrow> (string \<times> string) list \<times> (string \<times> int) list
     \<Rightarrow> ((string \<times> string) list \<times> (string \<times> int) list) res" where
  "restore_entry dir timestamp p acc =
     (case snd p of
        PDict entry \<Rightarrow>
          (case pget entry ''content'' of
             PStr content \<Rightarrow>
               rbind (fake_path dir (fst p)) (\<lambda>path.
                 case pget_or entry ''mtime_ns'' (PInt timestamp) of
                   PInt m \<Rightarrow> Inr (dput path content (fst acc), dput path m (snd acc))
                 | _ \<Rightarrow> Inl (ValueError ''fake snapshot entry has invalid mtime''))
           | _ \<Rightarrow> Inl (ValueError ''fake snapshot entry missing content''))
      | _ \<Rightarrow> Inl (ValueError ''fake snapshot entry must be a dict''))"

definition fake_restore :: "rooted_snapshot \<Rightarrow> (fake, unit) sm" where
  "fake_restore snap =
     (case pget (sb_disk_state snap) ''entries'' of
        PDict entries \<Rightarrow>
          sbind (sgets fk_root) (\<lambda>dir.
          sbind (slift (rfold (restore_entry dir (sb_timestamp_ns snap)) entries ([], []))) (\<lambda>(files, mtimes).
            smod (\<lambda>s. s\<lparr>fk_files := files, fk_mtimes := mtimes,
                       fk_clock := foldl max (sb_timestamp_ns snap) (map snd mtimes)\<rparr>)))
      | _ \<Rightarrow> sraise (ValueError ''fake snapshot disk_state.entries must be a dict''))"

definition fake_probe_changes_since :: "int \<Rightarrow> fake \<Rightarrow> bool" where
  "fake_probe_changes_since marker_ns s \<longleftrightarrow> list_ex (\<lambda>p. marker_ns < snd p) (fk_mtimes s)"

subsection \<open>Responses survive the conversion\<close>

lemma dupdate_new:
  "distinct (dkeys e) \<Longrightarrow> set (dkeys d) \<inter> set (dkeys e) = {} \<Longrightarrow> dupdate d e = d @ e"
proof (induction e arbitrary: d)
  case (Cons p e)
  have "dput (fst p) (snd p) d = d @ [p]" using Cons.prems by (auto simp: dput_new)
  then show ?case using Cons by (cases p) (auto simp: dupdate_def)
qed (simp add: dupdate_def)

lemma filter_no_keys: "set (dkeys d) \<subseteq> K \<Longrightarrow> filter (\<lambda>(k, v). k \<notin> K) d = []"
  by (induction d) auto

text \<open>a response survives the conversion to the dictionary of the agent and back exactly when its metadata uses
  none of the reserved keys; otherwise the metadata overwrites the fields.\<close>

theorem response_survives_conversion:
  assumes "dict_ok (ar_metadata r)"
  shows "transport_response_from_agent_dict (agent_response_dict_from_transport r) = r
     \<longleftrightarrow> list_all (\<lambda>k. k \<notin> set reserved_keys) (dkeys (ar_metadata r))"
    (is "?back = r \<longleftrightarrow> ?free")
proof
  assume "?back = r"
  then have "ar_metadata r = ar_metadata ?back" by simp
  then show ?free by (auto simp: transport_response_from_agent_dict_def list_all_iff)
next
  assume free: ?free
  let ?base = "[(''result'', PStr (ar_result r)), (''ok'', PBool (ar_ok r))]
              @ opt_entry ''inner_duration_ms'' PFloat (ar_inner_duration_ms r)
              @ opt_entry ''returncode'' PInt (ar_returncode r)
              @ opt_entry ''timed_out'' PBool (ar_timed_out r)"
  have keys: "set (dkeys ?base) \<subseteq> set reserved_keys"
    by (auto simp: opt_entry_def reserved_keys_def split: option.splits)
  have d: "agent_response_dict_from_transport r = ?base @ ar_metadata r"
    unfolding agent_response_dict_from_transport_def
    by (rule dupdate_new [OF assms]) (use keys free in \<open>unfold list_all_iff, blast\<close>)
  have none: "dget (ar_metadata r) k = None" if "k \<in> set reserved_keys" for k
    using free that by (auto simp: dget_None_iff list_all_iff)
  have "filter (\<lambda>(k, v). k \<notin> set reserved_keys) ?base = []"
    by (rule filter_no_keys [OF keys])
  moreover have "filter (\<lambda>(k, v). k \<notin> set reserved_keys) (ar_metadata r) = ar_metadata r"
    by (rule filter_True) (use free in \<open>auto simp: list_all_iff\<close>)
  ultimately have "filter (\<lambda>(k, v). k \<notin> set reserved_keys) (?base @ ar_metadata r) = ar_metadata r"
    unfolding filter_append by simp
  moreover have "dget (ar_metadata r) ''result'' = None" "dget (ar_metadata r) ''ok'' = None"
      "dget (ar_metadata r) ''returncode'' = None" "dget (ar_metadata r) ''timed_out'' = None"
      "dget (ar_metadata r) ''inner_duration_ms'' = None"
    by (simp_all add: none reserved_keys_def)
  ultimately show "?back = r"
    unfolding d transport_response_from_agent_dict_def
    by (cases "ar_inner_duration_ms r"; cases "ar_returncode r"; cases "ar_timed_out r")
       (simp_all add: opt_entry_def pget_or_def pget_def dget_append del: filter_append)
qed

subsection \<open>Normalized paths\<close>

definition clean_component :: "string \<Rightarrow> bool" where
  "clean_component w \<longleftrightarrow> CHR 0x2F \<notin> set w \<and> w \<noteq> [] \<and> w \<noteq> ''.''"

definition components_ok :: "bool \<Rightarrow> string list \<Rightarrow> bool" where
  "components_ok rooted ws \<longleftrightarrow> (\<forall>w \<in> set ws. clean_component w) \<and>
     (\<exists>n vs. ws = replicate n ''..'' @ vs \<and> ''..'' \<notin> set vs \<and> (rooted \<longrightarrow> n = 0))"

lemma norm_component_ok:
  assumes "components_ok rooted ws" "clean_component w"
  shows "components_ok rooted (norm_component rooted w ws)"
proof -
  obtain n vs where ws: "ws = replicate n ''..'' @ vs" "''..'' \<notin> set vs" "rooted \<longrightarrow> n = 0"
    and clean: "\<forall>w \<in> set ws. clean_component w" using assms(1) by (auto simp: components_ok_def)
  consider (plain) "w \<noteq> ''..''" | (up) "w = ''..''" "vs = []" "\<not> rooted" | (down) "w = ''..''" "vs \<noteq> []"
    | (top) "w = ''..''" "vs = []" "rooted" by blast
  then show ?thesis
  proof cases
    case plain
    then have "norm_component rooted w ws = replicate n ''..'' @ (vs @ [w])" "''..'' \<notin> set (vs @ [w])"
      using ws assms(2) by (auto simp: norm_component_def clean_component_def)
    then show ?thesis using ws clean assms(2) unfolding components_ok_def by (auto 4 3)
  next
    case up
    then have "norm_component rooted w ws = replicate (Suc n) ''..'' @ []"
      using ws by (cases n) (auto simp: norm_component_def replicate_append_same)
    then show ?thesis using up clean ws unfolding components_ok_def
      by (metis assms(2) empty_iff in_set_replicate list.set(1) append_Nil2)
  next
    case down
    then have "last vs \<noteq> ''..''" using ws(2) last_in_set [OF down(2)] by metis
    then have "last ws \<noteq> ''..''" "ws \<noteq> []" using ws down(2) by (auto simp: last_append)
    then have "norm_component rooted w ws = replicate n ''..'' @ butlast vs" using down ws
      by (auto simp: norm_component_def butlast_append)
    moreover have "''..'' \<notin> set (butlast vs)" using ws(2) by (auto dest: in_set_butlastD)
    ultimately show ?thesis using ws clean unfolding components_ok_def by (auto dest: in_set_butlastD)
  next
    case top
    then show ?thesis using ws by (auto simp: norm_component_def components_ok_def)
  qed
qed

lemma norm_component_fixed:
  "components_ok rooted ws \<Longrightarrow> fold (norm_component rooted) ws [] = ws"
proof (induction ws rule: rev_induct)
  case (snoc w ws)
  have clean: "\<forall>w \<in> set (ws @ [w]). clean_component w" using snoc.prems by (simp add: components_ok_def)
  obtain n vs where e: "ws @ [w] = replicate n ''..'' @ vs" "''..'' \<notin> set vs" "rooted \<longrightarrow> n = 0"
    using snoc.prems unfolding components_ok_def by blast
  have "components_ok rooted ws \<and> (w = ''..'' \<longrightarrow> \<not> rooted \<and> (ws = [] \<or> last ws = ''..''))"
  proof (cases "vs = []")
    case True
    then obtain m where m: "n = Suc m" using e(1) by (cases n) auto
    then have "ws @ [w] = replicate m ''..'' @ [''..'']" using e(1) True by (simp add: replicate_append_same)
    then have ws: "ws = replicate m ''..''" by simp
    have "\<not> rooted" using e(3) m by simp
    then have "components_ok rooted ws" unfolding components_ok_def using ws clean
      by (intro conjI exI [of _ m] exI [of _ "[]"]) auto
    moreover have "ws = [] \<or> last ws = ''..''" using ws by (cases m) simp_all
    ultimately show ?thesis using \<open>\<not> rooted\<close> by simp
  next
    case False
    then obtain us where us: "vs = us @ [w]" "ws = replicate n ''..'' @ us"
      using e(1) by (metis append_butlast_last_id butlast_append last_append butlast_snoc last_snoc)
    then have "components_ok rooted ws" unfolding components_ok_def using e clean
      by (intro conjI exI [of _ n] exI [of _ us]) auto
    moreover have "w \<noteq> ''..''" using e(2) us(1) by auto
    ultimately show ?thesis by simp
  qed
  then show ?case using snoc.IH clean by (auto simp: norm_component_def clean_component_def)
qed simp

lemma fold_skips:
  "fold (norm_component rooted) ws acc = fold (norm_component rooted) (filter (\<lambda>w. w \<noteq> [] \<and> w \<noteq> ''.'') ws) acc"
  by (induction ws arbitrary: acc) (auto simp: norm_component_def)

lemma norm_components_parts:
  "norm_components path = fold (norm_component (starts_with ''/'' path)) (path_parts path) []"
  unfolding norm_components_def path_parts_def by (rule fold_skips)

lemma parts_clean: "w \<in> set (path_parts path) \<Longrightarrow> clean_component w"
  using path_parts_clean [of path] by (auto simp: clean_component_def)

lemma fold_ok:
  "components_ok rooted acc \<Longrightarrow> \<forall>w \<in> set ws. clean_component w \<Longrightarrow> components_ok rooted (fold (norm_component rooted) ws acc)"
  by (induction ws arbitrary: acc) (auto intro: norm_component_ok)

lemma norm_components_ok: "components_ok (starts_with ''/'' path) (norm_components path)"
  unfolding norm_components_parts by (rule fold_ok) (auto simp: components_ok_def parts_clean)

lemma initial_slashes_join:
  assumes "\<forall>w \<in> set ws. clean_component w" "initial_slashes path @ join ''/'' ws \<noteq> []"
  shows "initial_slashes (initial_slashes path @ join ''/'' ws) = initial_slashes path"
    and "starts_with ''/'' (initial_slashes path @ join ''/'' ws) = starts_with ''/'' path"
proof -
  have "join ''/'' ws = [] \<or> (\<exists>c v. join ''/'' ws = c # v \<and> c \<noteq> CHR 0x2F)"
    using join_clean_head [of ws] assms(1) by (cases "ws = []") (auto simp: clean_component_def)
  then show "initial_slashes (initial_slashes path @ join ''/'' ws) = initial_slashes path"
    and "starts_with ''/'' (initial_slashes path @ join ''/'' ws) = starts_with ''/'' path"
    by (auto simp: initial_slashes_def starts_with_def)
qed

lemma path_parts_slashes: "path_parts (initial_slashes path @ q) = path_parts q"
  by (simp add: initial_slashes_def)

lemma normpath_unique:
  assumes "components_ok (starts_with ''/'' path) ws" "initial_slashes path @ join ''/'' ws \<noteq> []"
  shows "normpath (initial_slashes path @ join ''/'' ws) = initial_slashes path @ join ''/'' ws"
proof -
  let ?out = "initial_slashes path @ join ''/'' ws"
  have clean: "\<forall>w \<in> set ws. clean_component w" using assms(1) by (simp add: components_ok_def)
  have "path_parts ?out = ws" unfolding path_parts_slashes using clean path_parts_join [of ws]
    by (simp add: clean_component_def)
  then have "norm_components ?out = ws"
    unfolding norm_components_parts initial_slashes_join(2) [OF clean assms(2)]
    using norm_component_fixed [OF assms(1)] by simp
  then show ?thesis using assms(2) initial_slashes_join(1) [OF clean assms(2)] by (simp add: normpath_def Let_def)
qed

lemma normpath_idem: "normpath (normpath path) = normpath path"
proof (cases "normpath path = ''.''")
  case True
  then show ?thesis by (simp add: normpath_def norm_components_def norm_component_def initial_slashes_def starts_with_def)
next
  case False
  then have "normpath path = initial_slashes path @ join ''/'' (norm_components path)"
      "initial_slashes path @ join ''/'' (norm_components path) \<noteq> []"
    by (auto simp: normpath_def Let_def split: if_splits)
  then show ?thesis using normpath_unique [OF norm_components_ok] by simp
qed

definition root_ok :: "string \<Rightarrow> bool" where
  "root_ok dir \<longleftrightarrow> normpath dir = dir \<and> path_parts dir \<noteq> []"

text \<open>A normalized path with a component is its slashes and its components.\<close>

lemma normal_form:
  assumes "normpath p = p" "path_parts p \<noteq> []"
  shows "p = initial_slashes p @ join ''/'' (path_parts p)" "components_ok (starts_with ''/'' p) (path_parts p)"
proof -
  have ne: "p \<noteq> ''.''" using assms(2) by auto
  have eq: "initial_slashes p @ join ''/'' (norm_components p) = p"
    using assms(1) ne by (auto simp: normpath_def Let_def split: if_splits)
  have "\<forall>w \<in> set (norm_components p). clean_component w" using norm_components_ok [of p] by (simp add: components_ok_def)
  then have "path_parts (initial_slashes p @ join ''/'' (norm_components p)) = norm_components p"
    unfolding path_parts_slashes by (intro path_parts_join) (simp add: clean_component_def)
  then have "norm_components p = path_parts p" unfolding eq by simp
  then show "p = initial_slashes p @ join ''/'' (path_parts p)" "components_ok (starts_with ''/'' p) (path_parts p)"
    using eq norm_components_ok [of p] by simp_all
qed

lemma split_char_append: "split_char c (a @ c # b) = split_char c a @ split_char c b"
  by (induction a) (auto split: list.splits)

lemma path_parts_append: "path_parts (a @ CHR 0x2F # b) = path_parts a @ path_parts b"
  by (simp add: path_parts_def split_char_append)

lemma initial_slashes_below:
  assumes "path_parts dir \<noteq> []"
  shows "initial_slashes (dir @ CHR 0x2F # q) = initial_slashes dir"
    and "starts_with ''/'' (dir @ CHR 0x2F # q) = starts_with ''/'' dir"
proof -
  consider (one) c where "dir = [c]" | (two) c d where "dir = [c, d]" | (more) c d e r where "dir = c # d # e # r"
    using assms by (metis list.exhaust path_parts_empty(1))
  then have "initial_slashes (dir @ CHR 0x2F # q) = initial_slashes dir
      \<and> starts_with ''/'' (dir @ CHR 0x2F # q) = starts_with ''/'' dir"
    using assms by cases (auto simp: initial_slashes_def starts_with_def path_parts_def)
  then show "initial_slashes (dir @ CHR 0x2F # q) = initial_slashes dir"
    and "starts_with ''/'' (dir @ CHR 0x2F # q) = starts_with ''/'' dir" by simp_all
qed

lemma join_append: "vs \<noteq> [] \<Longrightarrow> ws \<noteq> [] \<Longrightarrow> join sep (vs @ ws) = join sep vs @ sep @ join sep ws"
proof (induction vs)
  case (Cons v vs)
  then show ?case by (cases vs; cases ws) auto
qed simp

text \<open>A file below the root is named by its path relative to the root.\<close>

lemma relpath_names_path:
  assumes dir: "root_ok dir" and p: "normpath p = p" "p = dir \<or> starts_with (dir @ ''/'') p"
  shows "fake_path dir (fake_relpath dir p) = Inr p"
proof (cases "p = dir")
  case True
  have parts: "path_parts (dir @ ''/.'') = path_parts dir" using path_parts_append [of dir "''.''"] by simp
  have slashes: "initial_slashes (dir @ ''/.'') = initial_slashes dir" "starts_with ''/'' (dir @ ''/.'') = starts_with ''/'' dir"
    using initial_slashes_below [of dir "''.''"] dir by (simp_all add: root_ok_def)
  have "norm_components (dir @ ''/.'') = norm_components dir"
    unfolding norm_components_parts parts slashes ..
  moreover have "dir \<noteq> []" using dir by (auto simp: root_ok_def)
  ultimately have "normpath (dir @ ''/.'') = normpath dir" using slashes by (simp add: normpath_def)
  then show ?thesis using True dir by (simp add: fake_path_def fake_relpath_def root_ok_def starts_with_def)
next
  case False
  then obtain rest where rest: "p = dir @ CHR 0x2F # rest" using p(2) by (auto simp: starts_with_iff)
  have rel: "fake_relpath dir p = rest" using rest by (simp add: fake_relpath_def starts_with_iff)
  have d: "normpath dir = dir" "path_parts dir \<noteq> []" using dir by (simp_all add: root_ok_def)
  have parts: "path_parts p = path_parts dir @ path_parts rest" unfolding rest by (rule path_parts_append)
  have slashes: "initial_slashes p = initial_slashes dir" using initial_slashes_below [OF d(2)] rest by simp
  have pf: "p = initial_slashes dir @ join ''/'' (path_parts dir @ path_parts rest)"
    using normal_form(1) [OF p(1)] parts slashes d(2) by simp
  have ne: "path_parts rest \<noteq> []" using pf normal_form(1) [OF d] False by auto
  have "join ''/'' (path_parts dir @ path_parts rest) = join ''/'' (path_parts dir) @ CHR 0x2F # join ''/'' (path_parts rest)"
    using join_append [OF d(2) ne, of "''/''"] by simp
  then have "p = dir @ CHR 0x2F # join ''/'' (path_parts rest)" using pf normal_form(1) [OF d] by simp
  then have r: "rest = join ''/'' (path_parts rest)" using rest by simp
  have "rest \<noteq> [] \<and> \<not> starts_with ''/'' rest"
    using join_clean_head [OF path_parts_clean ne] r by (auto simp: starts_with_def)
  then show ?thesis using rel rest p(1) by (simp add: fake_path_def starts_with_iff)
qed

lemma fake_path_named:
  assumes "root_ok dir" "fake_path dir path = Inr p"
  shows "fake_path dir (fake_relpath dir p) = Inr p"
  by (rule relpath_names_path [OF assms(1)])
    (use assms(2) normpath_idem in \<open>auto simp: fake_path_def Let_def split: if_splits\<close>)

subsection \<open>The state of the sandbox\<close>

definition fake_ok :: "fake \<Rightarrow> bool" where
  "fake_ok s \<longleftrightarrow> root_ok (fk_root s) \<and> dict_ok (fk_files s) \<and> dkeys (fk_mtimes s) = dkeys (fk_files s)
     \<and> (\<forall>p \<in> set (dkeys (fk_files s)). fake_path (fk_root s) (fake_relpath (fk_root s) p) = Inr p)
     \<and> (\<forall>m \<in> snd ` set (fk_mtimes s). m \<le> fk_clock s)"

text \<open>What a tool may do: nothing to the files, or one write.\<close>

definition no_write :: "fake \<Rightarrow> fake \<Rightarrow> bool" where
  "no_write s s' \<longleftrightarrow> fk_root s' = fk_root s \<and> fk_files s' = fk_files s \<and> fk_mtimes s' = fk_mtimes s \<and> fk_clock s' = fk_clock s"

definition one_write :: "fake \<Rightarrow> fake \<Rightarrow> bool" where
  "one_write s s' \<longleftrightarrow> (\<exists>path p c. fake_path (fk_root s) path = Inr p \<and> no_write (snd (fake_write p c s)) s')"

lemma next_exec_quiet: "next_exec s = (r, s') \<Longrightarrow> no_write s s'"
  by (auto simp: next_exec_def sm_defs no_write_def)

lemma run_commands_quiet: "run_commands i xs n s = (r, s') \<Longrightarrow> no_write s s'"
proof (induction i xs n arbitrary: s r rule: run_commands.induct)
  case (2 index raw rest n)
  obtain m s1 where n1: "next_exec s = (Inr m, s1)" by (simp add: next_exec_def sm_defs)
  obtain r2 where "run_commands (index + 1) rest m s1 = (r2, s')"
    using 2(2) n1 by (auto simp: sbind_def sret_def split: prod.splits sum.splits)
  from 2(1) [OF this] next_exec_quiet [OF n1] show ?case by (simp add: no_write_def)
qed (simp add: sret_def no_write_def)

lemma exec_quiet: "execute_exec args s = (r, s') \<Longrightarrow> no_write s s'"
  by (auto simp: execute_exec_def next_exec_def sm_defs no_write_def Let_def split: sum.splits)

lemma commands_quiet: "execute_commands args s = (r, s') \<Longrightarrow> no_write s s'"
  by (auto simp: execute_commands_def sbind_def sret_def sraise_def no_write_def
      dest!: run_commands_quiet split: pyval.splits prod.splits sum.splits)

lemma read_quiet: "execute_read_file args s = (r, s') \<Longrightarrow> no_write s s'"
  by (auto simp: execute_read_file_def arg_path_def sm_defs no_write_def split: option.splits sum.splits if_splits)

lemma list_quiet: "execute_list_dir args s = (r, s') \<Longrightarrow> no_write s s'"
  by (auto simp: execute_list_dir_def arg_path_def sm_defs no_write_def Let_def split: sum.splits)

lemma arg_path_eq: "arg_path args fallback s = (fake_path (fk_root s) (py_str (pget_or args ''path'' (PStr fallback))), s)"
  by (simp add: arg_path_def sm_defs)

lemma one_writeI: "fake_path (fk_root s) path = Inr p \<Longrightarrow> s' = snd (fake_write p c s) \<Longrightarrow> one_write s s'"
  by (auto simp: one_write_def no_write_def)

lemma fake_write_then: "sbind (fake_write p c) (\<lambda>_. sret x) s = (Inr x, snd (fake_write p c s))"
  by (simp add: fake_write_def sm_defs)

lemma sbind_sgets: "sbind (sgets f) g s = g (f s) s"
  by (simp add: sbind_def sgets_def)

lemma sret_apply: "sret x s = (Inr x, s)"
  by (simp add: sret_def)

lemma no_write_refl [simp]: "no_write s s"
  by (simp add: no_write_def)

lemma write_writes: "execute_write_file args s = (r, s') \<Longrightarrow> no_write s s' \<or> one_write s s'"
proof (cases "fake_path (fk_root s) (py_str (pget_or args ''path'' (PStr [])))")
  case (Inl e)
  then show "execute_write_file args s = (r, s') \<Longrightarrow> ?thesis"
    by (simp add: execute_write_file_def sbind_def [of "arg_path args []"] arg_path_eq)
next
  case (Inr p)
  then show "execute_write_file args s = (r, s') \<Longrightarrow> ?thesis"
    using one_writeI [OF Inr] by (auto simp: execute_write_file_def sbind_def [of "arg_path args []"] arg_path_eq fake_write_then)
qed

lemma edit_writes:
  assumes "execute_edit_file args s = (r, s')"
  shows "no_write s s' \<or> one_write s s'"
proof (cases "fake_path (fk_root s) (py_str (pget_or args ''path'' (PStr [])))")
  case (Inl e)
  then show ?thesis using assms
    by (simp add: execute_edit_file_def sbind_def [of "arg_path args []"] arg_path_eq)
next
  case (Inr p)
  then have "s' = s \<or> (\<exists>c. s' = snd (fake_write p c s))"
    using assms
    by (auto simp: execute_edit_file_def sbind_def [of "arg_path args []"] arg_path_eq sbind_sgets
        fake_write_then sret_apply Let_def split: option.splits if_splits)
  then show ?thesis using one_writeI [OF Inr] by auto
qed

lemma fake_execute_writes:
  assumes "fake_execute t req s = (r, s')"
  shows "no_write s s' \<or> one_write s s'"
proof -
  have "\<exists>m r1. m s = (r1, s') \<and> m \<in> {execute_exec (aq_args req), execute_commands (aq_args req), execute_read_file (aq_args req),
      execute_write_file (aq_args req), execute_edit_file (aq_args req), execute_list_dir (aq_args req), sret (plain_response [] True)}"
    using assms by (auto simp: fake_execute_def sbind_def sret_def split: prod.splits sum.splits if_splits)
  then show ?thesis
    by (elim exE conjE insertE emptyE; simp)
      (blast dest: exec_quiet commands_quiet read_quiet list_quiet write_writes edit_writes | simp add: sret_def)+
qed

lemma one_write_ok:
  assumes "fake_ok s" "one_write s s'"
  shows "fake_ok s' \<and> fk_root s' = fk_root s \<and> fk_clock s' = fk_clock s + 1 \<and> (\<exists>p. dget (fk_mtimes s') p = Some (fk_clock s'))"
proof -
  obtain path p c where p: "fake_path (fk_root s) path = Inr p" "no_write (snd (fake_write p c s)) s'"
    using assms(2) by (auto simp: one_write_def)
  have keys: "dkeys (dput p v e) = dkeys (dput p w d)" if "dkeys e = dkeys d" for v w and d :: "(string \<times> string) list" and e :: "(string \<times> int) list"
    using that by (induction d arbitrary: e) auto
  have "set (dput p m d) \<subseteq> insert (p, m) (set d)" for m and d :: "(string \<times> int) list"
    by (induction d) (auto split: if_splits)
  then have "snd ` set (dput p m d) \<subseteq> insert m (snd ` set d)" for m and d :: "(string \<times> int) list"
    by fastforce
  then have times: "\<forall>t \<in> snd ` set (dput p (fk_clock s + 1) (fk_mtimes s)). t \<le> fk_clock s + 1"
    using assms(1) unfolding fake_ok_def by (metis (no_types, lifting) add_increasing2 insertE order_refl subsetD zero_le_one)
  have s': "fk_root s' = fk_root s" "fk_files s' = dput p c (fk_files s)"
      "fk_mtimes s' = dput p (fk_clock s + 1) (fk_mtimes s)" "fk_clock s' = fk_clock s + 1"
    using p(2) by (simp_all add: no_write_def fake_write_def smod_def)
  have ok: "root_ok (fk_root s)" "dict_ok (fk_files s)" "dkeys (fk_mtimes s) = dkeys (fk_files s)"
      "\<forall>q \<in> set (dkeys (fk_files s)). fake_path (fk_root s) (fake_relpath (fk_root s) q) = Inr q"
    using assms(1) by (simp_all add: fake_ok_def)
  have "fake_ok s'"
    unfolding fake_ok_def s' using ok times keys [OF ok(3)] fake_path_named [OF ok(1) p(1)] by simp
  moreover have "dget (fk_mtimes s') p = Some (fk_clock s')" by (simp add: s')
  ultimately show ?thesis using s' by blast
qed

subsection \<open>What a restore gives back and what the probe sees\<close>

definition run_requests :: "(rat \<times> transport_request) list \<Rightarrow> fake \<Rightarrow> fake" where
  "run_requests reqs s = foldl (\<lambda>s (t, req). snd (fake_execute t req s)) s reqs"

definition advanced :: "fake \<Rightarrow> fake \<Rightarrow> bool" where
  "advanced s s' \<longleftrightarrow> fake_ok s' \<and> fk_root s' = fk_root s \<and>
     (fk_clock s' = fk_clock s \<and> fk_files s' = fk_files s \<and> fk_mtimes s' = fk_mtimes s
      \<or> fk_clock s < fk_clock s' \<and> (\<exists>p. dget (fk_mtimes s') p = Some (fk_clock s')))"

lemma advanced_step:
  assumes "advanced s s1"
  shows "advanced s (snd (fake_execute t req s1))"
proof -
  obtain r s2 where e: "fake_execute t req s1 = (r, s2)" by fastforce
  from fake_execute_writes [OF e] show ?thesis
  proof
    assume "no_write s1 s2"
    then show ?thesis using assms e by (auto simp: advanced_def no_write_def fake_ok_def)
  next
    assume "one_write s1 s2"
    then show ?thesis using one_write_ok [of s1 s2] assms e by (auto simp: advanced_def)
  qed
qed

lemma run_requests_advanced: "fake_ok s \<Longrightarrow> advanced s (run_requests reqs s)"
proof (induction reqs rule: rev_induct)
  case (snoc q reqs)
  then show ?case using advanced_step by (auto simp: run_requests_def split: prod.splits)
qed (simp add: run_requests_def advanced_def)

lemma new_fake_ok: "path_parts (normpath dir) \<noteq> [] \<Longrightarrow> fake_ok (new_fake dir)"
  by (simp add: fake_ok_def new_fake_def root_ok_def normpath_idem)

lemma quiet_probe:
  "advanced s s' \<Longrightarrow> \<not> fake_probe_changes_since (fk_clock s) s' \<Longrightarrow> fk_files s' = fk_files s \<and> fk_mtimes s' = fk_mtimes s"
  unfolding advanced_def fake_probe_changes_since_def list_ex_iff using dget_SomeD by fastforce

definition snapshot_files :: "(string \<Rightarrow> string) \<Rightarrow> fake \<Rightarrow> (string \<times> string) list \<Rightarrow> pydict" where
  "snapshot_files sha s files =
     map (\<lambda>(p, c). (fake_relpath (fk_root s) p, fake_entry sha c (the (dget (fk_mtimes s) p)))) files"

lemma capture_loop:
  assumes "\<forall>f \<in> set fs. dget (fk_mtimes s) (fst f) \<noteq> None"
    and "distinct (dkeys acc @ map (\<lambda>f. fake_relpath (fk_root s) (fst f)) fs)"
  shows "rfold (capture_file sha s) fs acc = Inr (acc @ snapshot_files sha s fs)"
  using assms
proof (induction fs arbitrary: acc)
  case (Cons f fs)
  obtain m where m: "dget (fk_mtimes s) (fst f) = Some m" using Cons.prems(1) by auto
  let ?k = "fake_relpath (fk_root s) (fst f)" and ?v = "fake_entry sha (snd f) m"
  have "dput ?k ?v acc = acc @ [(?k, ?v)]" using Cons.prems(2) by (simp add: dput_new)
  then show ?case using Cons.IH [of "acc @ [(?k, ?v)]"] Cons.prems m
    by (simp add: capture_file_def snapshot_files_def case_prod_beta)
qed (simp add: snapshot_files_def)

lemma restore_loop:
  assumes "\<forall>f \<in> set fs. fake_path dir (fake_relpath dir (fst f)) = Inr (fst f)" "distinct (dkeys files @ dkeys fs)"
    and "dkeys mtimes = dkeys files" "fk_root s = dir"
  shows "rfold (restore_entry dir ts) (snapshot_files sha s fs) (files, mtimes) =
     Inr (files @ fs, mtimes @ map (\<lambda>f. (fst f, the (dget (fk_mtimes s) (fst f)))) fs)"
  using assms(1-3)
proof (induction fs arbitrary: files mtimes)
  case (Cons f fs)
  obtain p c where f: "f = (p, c)" by force
  let ?m = "the (dget (fk_mtimes s) p)"
  have new: "p \<notin> set (dkeys files)" "p \<notin> set (dkeys mtimes)" using Cons.prems f by auto
  have "restore_entry dir ts (fake_relpath dir p, fake_entry sha c ?m) (files, mtimes) = Inr (files @ [(p, c)], mtimes @ [(p, ?m)])"
    using Cons.prems(1) new f by (simp add: restore_entry_def fake_entry_def pget_def pget_or_def dput_new)
  then show ?case using Cons.IH [of "files @ [(p, c)]" "mtimes @ [(p, ?m)]"] Cons.prems f assms(4)
    by (simp add: snapshot_files_def)
qed (simp add: snapshot_files_def)

lemma foldl_max_id: "\<forall>m \<in> set ms. m \<le> (t :: int) \<Longrightarrow> foldl max t ms = t"
  by (induction ms) auto

lemma capture_then_restore:
  assumes "fake_ok s" "fk_root t = fk_root s"
  shows "\<exists>snap t'. fake_capture sha s = Inr snap \<and> sb_timestamp_ns snap = fk_clock s
     \<and> fake_restore snap t = (Inr (), t') \<and> dget (fk_files t') = dget (fk_files s)
     \<and> dget (fk_mtimes t') = dget (fk_mtimes s) \<and> \<not> fake_probe_changes_since (fk_clock s) t'"
proof -
  let ?fs = "sort_key fst (fk_files s)"
  have ok: "dict_ok (fk_files s)" "dkeys (fk_mtimes s) = dkeys (fk_files s)"
      "\<forall>q \<in> set (dkeys (fk_files s)). fake_path (fk_root s) (fake_relpath (fk_root s) q) = Inr q"
      "\<forall>m \<in> snd ` set (fk_mtimes s). m \<le> fk_clock s"
    using assms(1) by (simp_all add: fake_ok_def)
  have keys: "set (dkeys ?fs) = set (dkeys (fk_files s))" and d: "distinct (dkeys ?fs)" using ok(1) by simp_all
  have inj: "inj_on (fake_relpath (fk_root s)) (set (dkeys (fk_files s)))"
    using ok(3) by (metis inj_onI sum.inject(2))
  have some: "\<forall>f \<in> set ?fs. dget (fk_mtimes s) (fst f) \<noteq> None"
  proof
    fix f assume "f \<in> set ?fs"
    then have "fst f \<in> set (dkeys (fk_mtimes s))" unfolding ok(2) by simp
    then show "dget (fk_mtimes s) (fst f) \<noteq> None" by (simp only: dget_None_iff not_not)
  qed
  have "distinct (map (fake_relpath (fk_root s)) (dkeys ?fs))"
    by (rule distinct_map [THEN iffD2, OF conjI [OF d]]) (use inj keys in simp)
  then have dist: "distinct (dkeys [] @ map (\<lambda>f. fake_relpath (fk_root s) (fst f)) ?fs)" by (simp add: comp_def)
  note cap = capture_loop [OF some dist, of sha]
  define snap where "snap = \<lparr>sb_timestamp_ns = fk_clock s, sb_disk_state = [(''entries'', PDict (snapshot_files sha s ?fs))],
     sb_process_state = None, sb_root = fk_root s\<rparr>"
  have c: "fake_capture sha s = Inr snap" using cap by (simp add: fake_capture_def snap_def)
  let ?mt = "map (\<lambda>f. (fst f, the (dget (fk_mtimes s) (fst f)))) ?fs"
  have r: "rfold (restore_entry (fk_root s) (fk_clock s)) (snapshot_files sha s ?fs) ([], []) = Inr (?fs, ?mt)"
    using restore_loop [of ?fs "fk_root s" "[]" "[]" s "fk_clock s" sha] ok(3) d by auto
  have mt: "dget ?mt q = dget (fk_mtimes s) q" for q
  proof (cases "q \<in> set (dkeys (fk_files s))")
    case True
    then have "(q, the (dget (fk_mtimes s) q)) \<in> set ?mt" by force
    moreover have "distinct (dkeys ?mt)" using d by (simp add: comp_def)
    ultimately have "dget ?mt q = Some (the (dget (fk_mtimes s) q))" by (simp only: dget_eq_Some_iff)
    moreover have "dget (fk_mtimes s) q \<noteq> None" using True ok(2) by (simp add: dget_None_iff)
    ultimately show ?thesis by auto
  next
    case False
    have "set (dkeys ?mt) = set (dkeys (fk_files s))" by (simp add: image_image)
    then have "dget ?mt q = None" unfolding dget_None_iff using False by blast
    moreover have "dget (fk_mtimes s) q = None" unfolding dget_None_iff ok(2) using False .
    ultimately show ?thesis by simp
  qed
  have "\<forall>m \<in> set (map snd ?mt). m \<le> fk_clock s"
  proof
    fix m assume "m \<in> set (map snd ?mt)"
    then obtain f where f: "f \<in> set ?fs" "m = the (dget (fk_mtimes s) (fst f))" by auto
    then have "dget (fk_mtimes s) (fst f) = Some m" using some by auto
    then show "m \<le> fk_clock s" using ok(4) by (force dest: dget_SomeD)
  qed
  then have quiet: "\<not> list_ex (\<lambda>p. fk_clock s < snd p) ?mt"
    and clock: "foldl max (fk_clock s) (map snd ?mt) = fk_clock s"
    by (auto simp: list_ex_iff not_less) (simp add: foldl_max_id)
  have "fake_restore snap t = (Inr (), t\<lparr>fk_files := ?fs, fk_mtimes := ?mt, fk_clock := fk_clock s\<rparr>)"
    using r clock assms(2) by (simp add: fake_restore_def snap_def pget_def sm_defs)
  moreover have "dget ?fs = dget (fk_files s)" using dget_sort_key [OF ok(1)] by blast
  moreover have "dget ?mt = dget (fk_mtimes s)" using mt by blast
  ultimately show ?thesis using c by (intro exI [of _ snap]) (use quiet in \<open>auto simp: snap_def fake_probe_changes_since_def\<close>)
qed

text \<open>C38: whatever tools run before and after a snapshot, restoring it gives back every file with its time, and
  when the probe sees no change since the snapshot then no file differs from it.\<close>

theorem snapshot_gives_files_back:
  assumes "path_parts (normpath dir) \<noteq> []" "s = run_requests before (new_fake dir)" "t = run_requests after s"
  shows "\<exists>snap t'. fake_capture sha s = Inr snap
     \<and> (fake_probe_changes_since (sb_timestamp_ns snap) t \<or> fk_files t = fk_files s)
     \<and> fake_restore snap t = (Inr (), t') \<and> dget (fk_files t') = dget (fk_files s)
     \<and> dget (fk_mtimes t') = dget (fk_mtimes s) \<and> \<not> fake_probe_changes_since (sb_timestamp_ns snap) t'"
proof -
  have a: "advanced (new_fake dir) s" using run_requests_advanced [OF new_fake_ok [OF assms(1)]] assms(2) by simp
  then have ok: "fake_ok s" by (simp add: advanced_def)
  have b: "advanced s t" using run_requests_advanced [OF ok] assms(3) by simp
  then have "fk_root t = fk_root s" by (simp add: advanced_def)
  from capture_then_restore [OF ok this, of sha]
  obtain snap t' where r: "fake_capture sha s = Inr snap" "sb_timestamp_ns snap = fk_clock s"
      "fake_restore snap t = (Inr (), t')" "dget (fk_files t') = dget (fk_files s)"
      "dget (fk_mtimes t') = dget (fk_mtimes s)" "\<not> fake_probe_changes_since (fk_clock s) t'" by blast
  then show ?thesis using r quiet_probe [OF b] by (intro exI [of _ snap] exI [of _ t']) auto
qed

subsection \<open>Examples\<close>

definition write_request :: "string \<Rightarrow> string \<Rightarrow> rat \<times> transport_request" where
  "write_request path content =
     (1, \<lparr>aq_tool = ''write_file'', aq_args = [(''path'', PStr path), (''content'', PStr content)]\<rparr>)"

lemma testbed_normal: "normpath ''/testbed'' = ''/testbed''" "path_parts ''/testbed'' \<noteq> []"
  by code_simp+

theorem snapshot_gives_files_back_witness:
  "\<exists>snap t'. fake_capture id (run_requests [write_request ''a.txt'' ''alpha''] (new_fake ''/testbed'')) = Inr snap
     \<and> fake_restore snap (run_requests [write_request ''a.txt'' ''beta'', write_request ''b'' ''x'']
           (run_requests [write_request ''a.txt'' ''alpha''] (new_fake ''/testbed''))) = (Inr (), t')
     \<and> dget (fk_files t') ''/testbed/a.txt'' = Some ''alpha'' \<and> dget (fk_files t') ''/testbed/b'' = None"
proof -
  have root: "path_parts (normpath ''/testbed'') \<noteq> []" using testbed_normal by simp
  have "fk_files (run_requests [write_request ''a.txt'' ''alpha''] (new_fake ''/testbed'')) = [(''/testbed/a.txt'', ''alpha'')]"
    by code_simp
  then show ?thesis using snapshot_gives_files_back [OF root refl refl, of id "[write_request ''a.txt'' ''alpha'']"
        "[write_request ''a.txt'' ''beta'', write_request ''b'' ''x'']"] by fastforce
qed

definition plain_ok :: transport_response where
  "plain_ok = \<lparr>ar_result = ''done'', ar_ok = True, ar_inner_duration_ms = Some (3 / 2), ar_returncode = Some 0,
     ar_timed_out = None, ar_metadata = [(''worker'', PInt 2)]\<rparr>"

theorem response_survives_conversion_witness:
  "transport_response_from_agent_dict (agent_response_dict_from_transport plain_ok) = plain_ok"
  using response_survives_conversion [of plain_ok] by (simp add: plain_ok_def reserved_keys_def)

text \<open>In a sandbox whose root is \<open>/\<close>, every absolute path except the root itself is refused.\<close>

lemma slash_root_refuses_files:
  "fake_path ''/'' ''/etc/hosts'' = Inl (ValueError ''fake sandbox path outside root'')"
  by code_simp

end
