(* ===== verification/SandboxBackends.thy ===== *)
theory SandboxBackends
  imports FakeSandbox
begin

text \<open>
  The checkpoint backends of a sandbox (\<open>src/agents/sandbox_runtime.py\<close>): \<open>WalkBackend\<close>, which walks the
  tree on the host or in the container, \<open>OverlayBackend\<close>, which reads the upper directory of the
  overlay file system, the comparison of their manifests, and the dispatch and verification of
  \<open>DockerBackend\<close>. The trees are those of \<open>HostCheckpoint\<close>, each operation gets the tree once for each walk
  it makes; the container side is \<open>run_container_checkpoint\<close>. The lemmas show that an overlay capture keeps the store
  sound and lists what the host walk of the upper directory would list, when two manifests
  count as equal, and that the first verification of a container fails for every file of its image.
\<close>

subsection \<open>Snapshots of manifests\<close>

record backend_env =
  be_sha :: "string \<Rightarrow> string"
  be_size :: "pydict \<Rightarrow> int"
  be_root :: string
  be_dir :: string

record backend_state =
  bs_entries :: "(string \<times> snapshot_entry) list option"
  bs_cache :: hash_cache
  bs_cas :: cas_store
  bs_manifests :: "(string \<times> pydict) list"

definition known_checkpoint_backends :: "string list" where
  "known_checkpoint_backends = [''walk'', ''overlay'', ''verify'']"

definition validate_checkpoint_backend :: "string option \<Rightarrow> string res" where
  "validate_checkpoint_backend v =
     (case v of
        None \<Rightarrow> Inr ''walk''
      | Some b \<Rightarrow> if b \<in> set known_checkpoint_backends then Inr b else Inl (ValueError ''checkpoint_backend must be one of''))"

definition snapshot_path :: "backend_env \<Rightarrow> int \<Rightarrow> string" where
  "snapshot_path env ns = path_join (be_dir env) (''snapshot-'' @ int_str ns @ ''-manifest.json'')"

definition read_manifest :: "pydict \<Rightarrow> (pydict \<times> pyval list) res" where
  "read_manifest m =
     (case pget m ''entries'' of
        PDict entries \<Rightarrow>
          (case pget_or m ''deleted_paths'' (PList []) of
             PList deleted \<Rightarrow> Inr (entries, deleted)
           | _ \<Rightarrow> Inl (RuntimeError ''checkpoint manifest deleted_paths must be a list''))
      | _ \<Rightarrow> Inl (RuntimeError ''checkpoint manifest missing entries''))"

definition since_json :: "int option \<Rightarrow> pyval" where
  "since_json v = (case v of None \<Rightarrow> PNone | Some i \<Rightarrow> PInt i)"

definition since_of :: "rooted_snapshot option \<Rightarrow> int option" where
  "since_of since = map_option sb_timestamp_ns since"

definition manifest_snapshot ::
  "backend_env \<Rightarrow> string \<Rightarrow> pydict \<Rightarrow> string \<Rightarrow> bool \<Rightarrow> int option \<Rightarrow> int \<Rightarrow> pydict \<Rightarrow> string \<Rightarrow> int \<Rightarrow> rooted_snapshot res" where
  "manifest_snapshot env path manifest kind incremental since chain_bytes extra dir timestamp =
     rbind (read_manifest manifest) (\<lambda>(entries, deleted).
       Inr \<lparr>sb_timestamp_ns = timestamp,
            sb_disk_state =
              [(''manifest_path'', PStr path), (''entries'', PDict entries), (''deleted_paths'', PList deleted),
               (''kind'', PStr kind), (''incremental'', PBool incremental), (''incremental_since_ns'', since_json since),
               (''chain_bytes'', PInt chain_bytes), (''size_bytes'', PInt (be_size env manifest))] @ extra,
            sb_process_state = None, sb_root = dir\<rparr>)"

definition incremental_kind :: "rooted_snapshot option \<Rightarrow> string" where
  "incremental_kind since = (if since = None then ''cas_manifest_full'' else ''cas_manifest_incremental'')"

subsection \<open>The walk\<close>

text \<open>The state that \<open>run_container_checkpoint\<close> hands on, as JSON.\<close>

definition checkpoint_state_json :: "checkpoint_ok \<Rightarrow> pyval" where
  "checkpoint_state_json ok =
     PDict [(''now_ns'', PInt (ck_now_ns ok)),
            (''current_snapshot'', PDict (map (\<lambda>(p, e). (p, json_of_snapshot_entry e)) (ck_current_snapshot ok))),
            (''chain_bytes'', PInt (ck_chain_bytes ok)), (''is_full'', PBool (ck_is_full ok))]"

definition capture_container_snapshot ::
  "backend_env \<Rightarrow> int \<Rightarrow> container_view \<Rightarrow> rooted_snapshot option \<Rightarrow> (backend_state, rooted_snapshot) sm" where
  "capture_container_snapshot env ns cv since st =
     (let path = snapshot_path env ns in
      case run_container_checkpoint (be_sha env) cv (bs_cas st) path (since_of since) (bs_entries st) (since = None) of
        (CkSkipped, cas) \<Rightarrow>
          (case since of
             None \<Rightarrow> Inl (RuntimeError ''container checkpoint skipped without a base snapshot'')
           | Some s \<Rightarrow> Inr s, st\<lparr>bs_cas := cas\<rparr>)
      | (CkError m, cas) \<Rightarrow> (Inl (RuntimeError m), st\<lparr>bs_cas := cas\<rparr>)
      | (CkOk ok, cas) \<Rightarrow>
          (manifest_snapshot env path (ck_manifest ok) (ck_kind ok) (ck_incremental ok) (since_of since)
             (ck_chain_bytes ok) [(''_checkpoint_state'', checkpoint_state_json ok)] ''/testbed'' (ck_now_ns ok),
           st\<lparr>bs_cas := cas, bs_entries := Some (ck_current_snapshot ok),
              bs_manifests := dput path (ck_manifest ok) (bs_manifests st)\<rparr>))"

text \<open>What an incremental host snapshot looks for: the deleted and the changed paths.\<close>

definition host_changes ::
  "rooted_snapshot option \<Rightarrow> (string \<times> snapshot_entry) list option \<Rightarrow> (string \<times> snapshot_entry) list
     \<Rightarrow> string list \<times> string list option" where
  "host_changes since previous current =
     (case previous of
        Some prev \<Rightarrow>
          if since = None then ([], None)
          else (compute_deleted_paths (Some prev) current, Some (compute_checkpoint_changed_paths prev current))
      | None \<Rightarrow> ([], None))"

definition capture_host_snapshot ::
  "backend_env \<Rightarrow> host_view \<Rightarrow> rooted_snapshot option \<Rightarrow> (backend_state, rooted_snapshot) sm" where
  "capture_host_snapshot env v since st =
     (case snapshot_checkpoint_entries (hv_at_snapshot v) of
        Inl e \<Rightarrow> (Inl e, st)
      | Inr current \<Rightarrow>
          let (deleted, changed) = host_changes since (bs_entries st) current in
          if changed = Some [] \<and> deleted = []
          then (case since of Some s \<Rightarrow> Inr s | None \<Rightarrow> Inl (AssertionError []), st)
          else
            let path = snapshot_path env (hv_marker_ns v) in
            case write_cas_manifest (be_sha env) (since_of since) deleted changed (hv_at_write v) (bs_cas st) (bs_cache st) of
              (Inl e, cas, cache) \<Rightarrow> (Inl e, st\<lparr>bs_cas := cas, bs_cache := cache\<rparr>)
            | (Inr (manifest, chain_bytes), cas, cache) \<Rightarrow>
                let st1 = st\<lparr>bs_cas := cas, bs_cache := cache\<rparr> in
                if any_file_newer_than (hv_at_check v) (hv_marker_ns v)
                then (Inl (RuntimeError ''checkpoint failed: filesystem changed during checkpoint''),
                      st1\<lparr>bs_manifests := dpop path (bs_manifests st)\<rparr>)
                else
                  (manifest_snapshot env path manifest (incremental_kind since) (since \<noteq> None) (since_of since)
                     chain_bytes [] (be_root env) (hv_marker_ns v),
                   st1\<lparr>bs_entries := Some current, bs_manifests := dput path manifest (bs_manifests st)\<rparr>))"

definition walk_capture_snapshot ::
  "backend_env \<Rightarrow> int \<Rightarrow> container_view + host_view \<Rightarrow> rooted_snapshot option \<Rightarrow> (backend_state, rooted_snapshot) sm" where
  "walk_capture_snapshot env ns view since =
     (case view of Inl cv \<Rightarrow> capture_container_snapshot env ns cv since | Inr v \<Rightarrow> capture_host_snapshot env v since)"

text \<open>The probe of a container: the same test as on the host, but directories that cannot be listed are passed over.\<close>

fun probe_below :: "int \<Rightarrow> fs \<Rightarrow> bool" where
  "probe_below marker (FsDir mtime listed children) =
     (listed \<and> list_ex (\<lambda>(name, e).
        if (is_fs_dir e \<or> is_dir_link e) \<and> name \<in> checkpoint_skip_dirs then False
        else entry_is_newer marker e \<or> (is_fs_dir e \<and> probe_below marker e)) children)"
| "probe_below marker _ = False"

definition probe_script :: "int \<Rightarrow> fs \<Rightarrow> int" where
  "probe_script marker base = (if entry_is_newer marker base \<or> probe_below marker base then 0 else 1)"

definition probe_container_changes_since :: "unit res \<Rightarrow> int res \<Rightarrow> bool res" where
  "probe_container_changes_since python_probe run =
     rbind python_probe (\<lambda>_. rbind run (\<lambda>rc.
       if rc = 0 then Inr True
       else if rc = 1 then Inr False
       else Inl (RuntimeError ''container checkpoint probe failed'')))"

subsection \<open>The upper directory of an overlay\<close>

text \<open>\<open>S_IFCHR\<close>; \<open>zero\<close> tells of the device number 0/0.\<close>

definition is_overlay_whiteout :: "string \<Rightarrow> fs \<Rightarrow> bool \<Rightarrow> bool" where
  "is_overlay_whiteout name e zero \<longleftrightarrow>
     starts_with ''.wh.'' name \<and> (case e of FsOther fmt _ \<Rightarrow> fmt = 8192 | _ \<Rightarrow> False) \<and> zero"

definition whiteout_deleted_path :: "string \<Rightarrow> string res" where
  "whiteout_deleted_path relpath =
     (let name = path_name relpath; parent = butlast (path_parts relpath) in
      if name = ''.wh..wh..opq'' then Inl (RuntimeError ''overlay opaque directory whiteouts are unsupported by CAS manifests'')
      else if \<not> starts_with ''.wh.'' name \<or> length name \<le> 4 then Inl (RuntimeError ''invalid overlay whiteout path'')
      else if parent = [] then Inr (drop 4 name)
      else Inr (join ''/'' parent @ ''/'' @ drop 4 name))"

definition any_overlay_entry_newer_than :: "fs \<Rightarrow> int \<Rightarrow> bool" where
  "any_overlay_entry_newer_than base marker = (entry_is_newer marker base \<or> newer_below marker base)"

type_synonym upper_scan = "(string \<times> pydict) list \<times> string list \<times> (string \<times> string) list"

definition scan_upper_entry ::
  "(string \<Rightarrow> string) \<Rightarrow> int option \<Rightarrow> (string \<Rightarrow> bool) \<Rightarrow> string \<times> fs \<Rightarrow> upper_scan \<Rightarrow> upper_scan res" where
  "scan_upper_entry sha since zero p acc =
     (let (rel, e) = p; (changed, deleted, blobs) = acc in
      if e = FsGone then Inl (OSError ''failed to stat overlay checkpoint entry'')
      else if (case since of None \<Rightarrow> False | Some ns \<Rightarrow> snd (fs_size_mtime e) \<le> ns) \<or> checkpoint_relpath_is_skipped rel
      then Inr acc
      else if \<not> is_dir_link e \<and> is_overlay_whiteout (path_name rel) e (zero rel)
      then rbind (whiteout_deleted_path rel) (\<lambda>d. Inr (changed, deleted @ [d], blobs))
      else rbind (checkpoint_entry_type e) (\<lambda>t.
        case e of
          FsLink _ _ _ _ _ \<Rightarrow> Inr (dput rel (case t of PDict d \<Rightarrow> d | _ \<Rightarrow> []) changed, deleted, blobs)
        | FsFile content mode sz mtime readable \<Rightarrow>
            if \<not> readable then Inl (OSError ''failed to read overlay checkpoint entry'')
            else Inr (dput rel [(''hash'', PStr (sha content)), (''mode'', PInt (s_imode mode)),
                               (''size'', PInt sz), (''mtime_ns'', PInt mtime)] changed,
                      deleted, dput rel content blobs)
        | _ \<Rightarrow> Inl (OSError ''unsupported overlay checkpoint entry type'')))"

text \<open>The directories of the walk are visited but not recorded.\<close>

definition scan_upperdir ::
  "(string \<Rightarrow> string) \<Rightarrow> int option \<Rightarrow> (string \<Rightarrow> bool) \<Rightarrow> fs option \<Rightarrow> upper_scan res" where
  "scan_upperdir sha since zero upper =
     (case upper of
        None \<Rightarrow> Inr ([], [], [])
      | Some base \<Rightarrow>
          let (walk, walk_error) = walk_tree [] base in
          rbind (rfold (scan_upper_entry sha since zero) (filter (\<lambda>p. \<not> is_fs_dir (snd p)) walk) ([], [], []))
            (\<lambda>(changed, deleted, blobs).
               if walk_error then Inl (OSError ''failed to walk overlay checkpoint root'')
               else Inr (changed, sort deleted, blobs)))"

text \<open>The upper directory of the container: the answer of \<open>inspect\<close>, and the path of the root in it.\<close>

definition resolve_upperdir :: "string option \<Rightarrow> string option \<Rightarrow> (int \<times> string) res \<Rightarrow> string res" where
  "resolve_upperdir known container_id inspect =
     (case known of
        Some u \<Rightarrow> Inr u
      | None \<Rightarrow>
          if container_id = None then Inl (RuntimeError ''overlay checkpoint backend requires a container_id'')
          else rbind inspect (\<lambda>(rc, out).
            if rc \<noteq> 0 then Inl (RuntimeError ''failed to inspect container graph driver for overlay checkpoint'')
            else case json_loads out of
              None \<Rightarrow> Inl (ValueError ''JSONDecodeError'')
            | Some (PDict d) \<Rightarrow>
                if pget d ''Name'' \<noteq> PStr ''overlay2'' \<or> \<not> is_py_dict (pget d ''Data'')
                then Inl (RuntimeError ''overlay checkpoint backend requires Docker overlay2'')
                else (case pget d ''Data'' of
                        PDict data \<Rightarrow>
                          (case pget data ''UpperDir'' of
                             PStr u \<Rightarrow> if u = [] then Inl (RuntimeError ''overlay checkpoint backend could not resolve UpperDir'')
                                       else Inr (path_str u)
                           | _ \<Rightarrow> Inl (RuntimeError ''overlay checkpoint backend could not resolve UpperDir''))
                      | _ \<Rightarrow> Inl (RuntimeError ''overlay checkpoint backend requires Docker overlay2''))
            | Some _ \<Rightarrow> Inl (AttributeError ''get'')))"

definition upper_root :: "string \<Rightarrow> string \<Rightarrow> string" where
  "upper_root upperdir dir = path_join upperdir (dropWhile (\<lambda>c. c = CHR 0x2F) dir)"

record overlay_view =
  ov_resolved :: "string res"
  ov_marker_ns :: int
  ov_at_scan :: "fs option"
  ov_zero_device :: "string \<Rightarrow> bool"
  ov_at_check :: "fs option"

definition probe_upper_since :: "overlay_view \<Rightarrow> int \<Rightarrow> bool res" where
  "probe_upper_since v marker =
     rbind (ov_resolved v) (\<lambda>_.
       case ov_at_check v of
         None \<Rightarrow> Inl (RuntimeError ''OverlayBackend: upperdir not resolved'')
       | Some base \<Rightarrow> Inr (any_overlay_entry_newer_than base marker))"

definition overlay_capture_snapshot ::
  "backend_env \<Rightarrow> overlay_view \<Rightarrow> rooted_snapshot option \<Rightarrow> (backend_state, rooted_snapshot) sm" where
  "overlay_capture_snapshot env v since st =
     (case rbind (ov_resolved v) (\<lambda>_. scan_upperdir (be_sha env) (since_of since) (ov_zero_device v) (ov_at_scan v)) of
        Inl e \<Rightarrow> (Inl e, st)
      | Inr (changed, deleted, blobs) \<Rightarrow>
          let path = snapshot_path env (ov_marker_ns v) in
          case write_container_manifest (be_sha env) (bs_cas st) changed deleted blobs of
            Inl e \<Rightarrow> (Inl e, st)
          | Inr (manifest, cas, chain_bytes) \<Rightarrow>
              let st1 = st\<lparr>bs_cas := cas, bs_manifests := dput path manifest (bs_manifests st)\<rparr> in
              case probe_upper_since v (ov_marker_ns v) of
                Inl e \<Rightarrow> (Inl e, st1)
              | Inr True \<Rightarrow>
                  (Inl (RuntimeError ''checkpoint failed: overlay upperdir changed during checkpoint''),
                   st1\<lparr>bs_manifests := dpop path (bs_manifests st)\<rparr>)
              | Inr False \<Rightarrow>
                  (manifest_snapshot env path manifest (incremental_kind since) (since \<noteq> None) (since_of since)
                     chain_bytes [] (be_root env) (ov_marker_ns v), st1))"

subsection \<open>The comparison of two snapshots\<close>

definition normalized_manifest_entry :: "pyval \<Rightarrow> pyval" where
  "normalized_manifest_entry entry =
     (case entry of
        PDict d \<Rightarrow>
          if pget_or d ''type'' (PStr ''file'') = PStr ''symlink''
          then PDict [(''type'', PStr ''symlink''), (''target'', pget d ''target'')]
          else PDict [(''hash'', pget d ''hash''),
                      (''mode'', case pget d ''mode'' of PInt m \<Rightarrow> PInt (s_imode m) | _ \<Rightarrow> PNone)]
      | _ \<Rightarrow> entry)"

definition normalized_manifest_entries :: "rooted_snapshot \<Rightarrow> pydict res" where
  "normalized_manifest_entries snap =
     (case pget (sb_disk_state snap) ''entries'' of
        PDict entries \<Rightarrow> Inr (map (\<lambda>(p, e). (p, normalized_manifest_entry e)) entries)
      | _ \<Rightarrow> Inl (ValueError ''snapshot disk_state.entries must be a dict''))"

definition normalized_deleted_paths :: "rooted_snapshot \<Rightarrow> string list res" where
  "normalized_deleted_paths snap =
     (case pget_or (sb_disk_state snap) ''deleted_paths'' (PList []) of
        PList deleted \<Rightarrow> Inr (sort (map py_str deleted))
      | _ \<Rightarrow> Inl (ValueError ''snapshot disk_state.deleted_paths must be a list''))"

text \<open>Equality of dictionaries does not look at the order of the keys.\<close>

definition same_dict :: "pydict \<Rightarrow> pydict \<Rightarrow> bool" where
  "same_dict a b \<longleftrightarrow> list_all (\<lambda>p. dget b (fst p) = Some (snd p)) a \<and> list_all (\<lambda>p. dget a (fst p) = Some (snd p)) b"

definition entry_differences :: "pydict \<Rightarrow> pydict \<Rightarrow> pydict" where
  "entry_differences walk overlay =
     (let only_in = (\<lambda>a b. PList (map PStr (sort (filter (\<lambda>k. dget b k = None) (dkeys a)))));
          both = filter (\<lambda>k. dget overlay k \<noteq> None) (dkeys walk)
      in if same_dict walk overlay then []
         else [(''entries'', PDict
           [(''only_walk'', only_in walk overlay), (''only_overlay'', only_in overlay walk),
            (''mismatched'', PList (map PStr (sort (filter (\<lambda>k. dget walk k \<noteq> dget overlay k) both))))])])"

definition checkpoint_manifest_differences :: "rooted_snapshot \<Rightarrow> rooted_snapshot \<Rightarrow> pydict res" where
  "checkpoint_manifest_differences walk overlay =
     rbind (normalized_manifest_entries walk) (\<lambda>walk_entries.
     rbind (normalized_manifest_entries overlay) (\<lambda>overlay_entries.
     rbind (normalized_deleted_paths walk) (\<lambda>walk_deleted.
     rbind (normalized_deleted_paths overlay) (\<lambda>overlay_deleted.
       Inr (entry_differences walk_entries overlay_entries
            @ (if walk_deleted = overlay_deleted then []
               else [(''deleted_paths'', PDict [(''walk'', PList (map PStr walk_deleted)),
                                               (''overlay'', PList (map PStr overlay_deleted))])]))))))"

subsection \<open>The verification and the container backend\<close>

text \<open>Both captures run to their end; the error of the walk comes first.\<close>

definition verify_snapshots ::
  "(backend_state, rooted_snapshot) sm \<Rightarrow> (backend_state, rooted_snapshot) sm \<Rightarrow> (backend_state, rooted_snapshot) sm" where
  "verify_snapshots walk overlay =
     sbind (sattempt walk) (\<lambda>w.
     sbind (sattempt overlay) (\<lambda>v.
     sbind (slift w) (\<lambda>walk_snapshot.
     sbind (slift v) (\<lambda>overlay_snapshot.
     sbind (slift (checkpoint_manifest_differences walk_snapshot overlay_snapshot)) (\<lambda>differences.
       if differences \<noteq> [] then sraise (RuntimeError ''checkpoint backend verification failed'')
       else sret walk_snapshot)))))"

definition marker_snapshot :: "string \<Rightarrow> int \<Rightarrow> rooted_snapshot" where
  "marker_snapshot dir ns = \<lparr>sb_timestamp_ns = ns, sb_disk_state = [], sb_process_state = None, sb_root = dir\<rparr>"

definition capture_verified_snapshot ::
  "backend_env \<Rightarrow> string option \<Rightarrow> int option \<Rightarrow> int \<Rightarrow> container_view \<Rightarrow> overlay_view \<Rightarrow> rooted_snapshot option
     \<Rightarrow> (backend_state, rooted_snapshot) sm" where
  "capture_verified_snapshot env container_id start_marker ns cv v since =
     (case (case since of Some s \<Rightarrow> Some s | None \<Rightarrow> map_option (marker_snapshot (be_root env)) start_marker) of
        None \<Rightarrow> sraise (RuntimeError ''verify checkpoint backend requires a container start marker'')
      | Some s \<Rightarrow>
          if container_id = None then sraise (RuntimeError ''overlay checkpoint backend requires a running container'')
          else verify_snapshots (capture_container_snapshot env ns cv (Some s)) (overlay_capture_snapshot env v (Some s)))"

definition docker_capture_snapshot ::
  "backend_env \<Rightarrow> string \<Rightarrow> string option \<Rightarrow> int option \<Rightarrow> int \<Rightarrow> container_view \<Rightarrow> host_view \<Rightarrow> overlay_view
     \<Rightarrow> rooted_snapshot option \<Rightarrow> (backend_state, rooted_snapshot) sm" where
  "docker_capture_snapshot env backend container_id start_marker ns cv hv v since =
     (if backend = ''verify'' then capture_verified_snapshot env container_id start_marker ns cv v since
      else if backend = ''walk'' then walk_capture_snapshot env ns (if container_id = None then Inr hv else Inl cv) since
      else if backend = ''overlay'' then
        (if container_id = None then sraise (RuntimeError ''overlay checkpoint backend requires a running container'')
         else overlay_capture_snapshot env v since)
      else sraise (RuntimeError ''unsupported active checkpoint backend''))"

text \<open>Restoring a snapshot copies its manifest into the container and restores it there; the name of the copy and the
  two helpers are operations of the world.\<close>

definition docker_restore_snapshot ::
  "(string \<Rightarrow> string \<Rightarrow> ('w, unit) sm) option \<Rightarrow> (string \<Rightarrow> string \<Rightarrow> ('w, unit) sm) option \<Rightarrow> string \<Rightarrow> rooted_snapshot \<Rightarrow> ('w, unit) sm" where
  "docker_restore_snapshot copy_helper restore_helper copy_name snap =
     (case pget (sb_disk_state snap) ''manifest_path'' of
        PStr path \<Rightarrow>
          if path = [] then sraise (ValueError ''docker snapshot disk_state.manifest_path must be set'')
          else (case copy_helper of
                  None \<Rightarrow> sraise (RuntimeError ''docker backend restore has no manifest copy helper'')
                | Some copy \<Rightarrow>
                    (case restore_helper of
                       None \<Rightarrow> sraise (RuntimeError ''docker backend restore has no CAS restore helper'')
                     | Some restore \<Rightarrow> sbind (copy path copy_name) (\<lambda>_. restore copy_name (sb_root snap))))
      | _ \<Rightarrow> sraise (ValueError ''docker snapshot disk_state.manifest_path must be set''))"

subsection \<open>What an overlay capture lists\<close>

definition picked :: "int option \<Rightarrow> string \<times> fs \<Rightarrow> bool" where
  "picked since p \<longleftrightarrow> selected since None p \<and> \<not> checkpoint_relpath_is_skipped (fst p)"

lemma scan_upper_entry_eq:
  "scan_upper_entry sha since zero (rel, e) (changed, deleted, blobs) =
     (if e = FsGone then Inl (OSError ''failed to stat overlay checkpoint entry'')
      else if left_out since None rel (snd (fs_size_mtime e)) \<or> checkpoint_relpath_is_skipped rel
      then Inr (changed, deleted, blobs)
      else if \<not> is_dir_link e \<and> is_overlay_whiteout (path_name rel) e (zero rel)
      then rbind (whiteout_deleted_path rel) (\<lambda>d. Inr (changed, deleted @ [d], blobs))
      else rbind (checkpoint_entry_type e) (\<lambda>t.
        case e of
          FsLink _ _ _ _ _ \<Rightarrow> Inr (dput rel (case t of PDict d \<Rightarrow> d | _ \<Rightarrow> []) changed, deleted, blobs)
        | FsFile content mode sz mtime readable \<Rightarrow>
            if \<not> readable then Inl (OSError ''failed to read overlay checkpoint entry'')
            else Inr (dput rel [(''hash'', PStr (sha content)), (''mode'', PInt (s_imode mode)),
                               (''size'', PInt sz), (''mtime_ns'', PInt mtime)] changed,
                      deleted, dput rel content blobs)
        | _ \<Rightarrow> Inl (OSError ''unsupported overlay checkpoint entry type'')))"
  by (cases since) (simp_all add: scan_upper_entry_def left_out_def)

lemma scan_entry_ok:
  assumes "scan_upper_entry sha since zero (p, e) (changed, deleted, blobs) = Inr (changed', deleted', blobs')"
    and "\<not> is_fs_dir e"
  shows "changed' = (if picked since (p, e) then dput p (changed_value sha (fs_stat e)) changed else changed)
     \<and> (\<forall>q. q \<noteq> p \<longrightarrow> dget blobs' q = dget blobs q)
     \<and> (case e of FsFile content _ _ _ _ \<Rightarrow> picked since (p, e) \<longrightarrow> dget blobs' p = Some content | _ \<Rightarrow> True)
     \<and> (deleted' \<noteq> deleted \<longrightarrow> (\<exists>fmt mtime. e = FsOther fmt mtime))"
proof (cases e)
  case (FsFile content mode sz mtime readable)
  then show ?thesis using assms unfolding scan_upper_entry_eq
    by (auto simp: picked_def checkpoint_entry_type_def is_overlay_whiteout_def changed_value_def fs_stat_def
        dict.get_put split: if_splits)
next
  case (FsLink target sz mtime readable to_dir)
  then show ?thesis using assms unfolding scan_upper_entry_eq
    by (auto simp: picked_def checkpoint_entry_type_def is_overlay_whiteout_def changed_value_def fs_stat_def
        split: if_splits)
next
  case (FsOther fmt mtime)
  then show ?thesis using assms unfolding scan_upper_entry_eq
    by (auto simp: picked_def checkpoint_entry_type_def rbind_eq_Inr split: if_splits)
qed (use assms in \<open>auto simp: scan_upper_entry_def\<close>)

lemma scan_loop_ok:
  assumes "rfold (scan_upper_entry sha since zero) xs (changed, deleted, blobs) = Inr (changed', deleted', blobs')"
    and "list_all (\<lambda>p. \<not> is_fs_dir (snd p)) xs" "distinct (dkeys xs)" "set (dkeys xs) \<inter> set (dkeys changed) = {}"
  shows "changed' = changed @ map (\<lambda>(p, e). (p, changed_value sha (fs_stat e))) (filter (picked since) xs)
     \<and> (\<forall>q. q \<notin> set (dkeys xs) \<longrightarrow> dget blobs' q = dget blobs q)
     \<and> (\<forall>(p, e) \<in> set xs. case e of FsFile content _ _ _ _ \<Rightarrow> picked since (p, e) \<longrightarrow> dget blobs' p = Some content | _ \<Rightarrow> True)
     \<and> (deleted' \<noteq> deleted \<longrightarrow> (\<exists>p fmt mtime. (p, FsOther fmt mtime) \<in> set xs))"
  using assms
proof (induction xs arbitrary: changed deleted blobs)
  case (Cons x xs)
  obtain p e where x: "x = (p, e)" by force
  obtain c1 d1 b1 where one: "scan_upper_entry sha since zero (p, e) (changed, deleted, blobs) = Inr (c1, d1, b1)"
    and rest: "rfold (scan_upper_entry sha since zero) xs (c1, d1, b1) = Inr (changed', deleted', blobs')"
    using Cons.prems(1) x by (auto simp: rbind_eq_Inr)
  have "\<not> is_fs_dir e" "p \<notin> set (dkeys changed)" "p \<notin> set (dkeys xs)" using Cons.prems x by auto
  note s = scan_entry_ok [OF one this(1)]
  have c1: "c1 = changed @ (if picked since (p, e) then [(p, changed_value sha (fs_stat e))] else [])"
    using s \<open>p \<notin> set (dkeys changed)\<close> by (simp add: dput_new)
  have "set (dkeys xs) \<inter> set (dkeys c1) = {}" using Cons.prems(4) c1 \<open>p \<notin> set (dkeys xs)\<close> x by auto
  note ih = Cons.IH [OF rest _ _ this]
  have ih1: "changed' = c1 @ map (\<lambda>(p, e). (p, changed_value sha (fs_stat e))) (filter (picked since) xs)"
    "\<forall>q. q \<notin> set (dkeys xs) \<longrightarrow> dget blobs' q = dget b1 q"
    "\<forall>(p, e) \<in> set xs. case e of FsFile content _ _ _ _ \<Rightarrow> picked since (p, e) \<longrightarrow> dget blobs' p = Some content | _ \<Rightarrow> True"
    "deleted' \<noteq> d1 \<longrightarrow> (\<exists>p fmt mtime. (p, FsOther fmt mtime) \<in> set xs)"
    using ih Cons.prems by auto
  have "dget blobs' p = dget b1 p" using ih1(2) \<open>p \<notin> set (dkeys xs)\<close> by simp
  then have "case e of FsFile content _ _ _ _ \<Rightarrow> picked since (p, e) \<longrightarrow> dget blobs' p = Some content | _ \<Rightarrow> True"
    using s by (simp split: fs.splits)
  moreover have "deleted' \<noteq> deleted \<longrightarrow> (\<exists>q fmt mtime. (q, FsOther fmt mtime) \<in> set (x # xs))"
    using ih1(4) s x by (cases "d1 = deleted") auto
  ultimately show ?case using ih1 c1 s x by auto
qed simp

abbreviation upper_entries :: "fs \<Rightarrow> (string \<times> fs) list" where
  "upper_entries base \<equiv> filter (\<lambda>p. \<not> is_fs_dir (snd p)) (walked base)"

lemma picked_no_dir: "picked since p \<Longrightarrow> \<not> is_fs_dir (snd p)"
  by (cases p; cases "snd p") (auto simp: picked_def)

lemma filter_picked: "filter (picked since) (upper_entries base) = filter (picked since) (walked base)"
  by (auto simp: filter_filter intro!: filter_cong dest: picked_no_dir)

text \<open>The manifest of a scan, written out.\<close>

lemma scan_written:
  assumes "fs_ok base" "scan_upperdir sha since zero (Some base) = Inr (changed, deleted, blobs)"
  obtains es cas' n where
    "write_container_manifest sha cas changed deleted blobs =
       Inr ([(''entries'', PDict es), (''deleted_paths'', PList (map PStr
              (sort (filter (\<lambda>p. \<not> checkpoint_relpath_is_skipped p) deleted))))], cas', n)"
    "\<And>p. dget es p = (case dget (walked base) p of None \<Rightarrow> None
        | Some e \<Rightarrow> if picked since (p, e) then Some (manifest_entry sha e) else None)"
    "cas \<subseteq>\<^sub>m cas'" "cas_sound sha cas \<longrightarrow> cas_sound sha cas'"
    "deleted \<noteq> [] \<Longrightarrow> \<exists>p fmt mtime. (p, FsOther fmt mtime) \<in> set (walked base)"
proof -
  have d: "dict_ok (walked base)" by (rule walk_tree_distinct [OF assms(1)])
  obtain del where loop: "rfold (scan_upper_entry sha since zero) (upper_entries base) ([], [], []) = Inr (changed, del, blobs)"
      "deleted = sort del"
    using assms(2) by (auto simp: scan_upperdir_def rbind_eq_Inr split: prod.splits if_splits)
  have dd: "distinct (dkeys (upper_entries base))" using d by (rule distinct_map_filter)
  have s: "changed = map (\<lambda>(p, e). (p, changed_value sha (fs_stat e))) (filter (picked since) (walked base))"
      "\<forall>(p, e) \<in> set (upper_entries base). case e of FsFile content _ _ _ _ \<Rightarrow> picked since (p, e) \<longrightarrow> dget blobs p = Some content | _ \<Rightarrow> True"
      "del \<noteq> [] \<longrightarrow> (\<exists>p fmt mtime. (p, FsOther fmt mtime) \<in> set (upper_entries base))"
  proof -
    have "list_all (\<lambda>p. \<not> is_fs_dir (snd p)) (upper_entries base)" by (simp add: list_all_iff)
    moreover have "set (dkeys (upper_entries base)) \<inter> set (dkeys ([] :: (string \<times> pydict) list)) = {}" by simp
    ultimately have l: "changed = map (\<lambda>(p, e). (p, changed_value sha (fs_stat e))) (filter (picked since) (walked base))
      \<and> (\<forall>q. q \<notin> set (dkeys (upper_entries base)) \<longrightarrow> dget blobs q = dget [] q)
      \<and> (\<forall>(p, e) \<in> set (upper_entries base). case e of FsFile content _ _ _ _ \<Rightarrow> picked since (p, e) \<longrightarrow> dget blobs p = Some content | _ \<Rightarrow> True)
      \<and> (del \<noteq> [] \<longrightarrow> (\<exists>p fmt mtime. (p, FsOther fmt mtime) \<in> set (upper_entries base)))"
      by (rule scan_loop_ok [OF loop(1) _ dd, unfolded filter_picked append_Nil])
    show "changed = map (\<lambda>(p, e). (p, changed_value sha (fs_stat e))) (filter (picked since) (walked base))"
      "\<forall>(p, e) \<in> set (upper_entries base). case e of FsFile content _ _ _ _ \<Rightarrow> picked since (p, e) \<longrightarrow> dget blobs p = Some content | _ \<Rightarrow> True"
      "del \<noteq> [] \<longrightarrow> (\<exists>p fmt mtime. (p, FsOther fmt mtime) \<in> set (upper_entries base))"
      using l by blast+
  qed
  have ok: "dict_ok changed" using d by (simp add: s(1) o_def split_def distinct_map_filter)
  have ch: "changes_ok sha changed"
    by (auto simp: changes_ok_def s(1) picked_def selected_iff fs_stat_def) (metis stat_node.select_convs(1))
  have cov: "blobs_cover sha cas changed blobs"
    unfolding blobs_cover_def
  proof clarify
    fix rel info dg
    assume i: "(rel, info) \<in> set changed" "pget info ''hash'' = PStr dg"
    then obtain e where e: "(rel, e) \<in> set (walked base)" "picked since (rel, e)" "info = changed_value sha (fs_stat e)"
      by (auto simp: s(1))
    then obtain content mode sz mtime readable where f: "e = FsFile content mode sz mtime readable" "dg = sha content"
      using i(2) by (cases e) (auto simp: changed_value_def fs_stat_def pget_def)
    have "(rel, e) \<in> set (upper_entries base)" using e(1) f by simp
    then show "\<exists>c. dget blobs rel = Some c \<and> sha c = dg" using s(2) e(2) f by fastforce
  qed
  obtain es cas' n where w: "write_container_manifest sha cas changed deleted blobs =
       Inr ([(''entries'', PDict es), (''deleted_paths'', PList (map PStr
              (sort (filter (\<lambda>p. \<not> checkpoint_relpath_is_skipped p) deleted))))], cas', n)"
    "\<And>p. dget es p = (if checkpoint_relpath_is_skipped p then None else map_option PDict (dget changed p))"
    "cas \<subseteq>\<^sub>m cas'" "cas_sound sha cas \<longrightarrow> cas_sound sha cas'"
    by (rule write_manifest_ok [OF ok ch cov, of deleted]) blast
  have es: "dget es p = (case dget (walked base) p of None \<Rightarrow> None
        | Some e \<Rightarrow> if picked since (p, e) then Some (manifest_entry sha e) else None)" for p
    using d by (auto simp: w(2) s(1) dget_map_values dget_filter manifest_entry_def picked_def split: option.splits)
  show ?thesis
    by (rule that [OF w(1) es w(3,4)]) (use s(3) loop(2) in \<open>auto simp: sort_Nil_iff\<close>)
qed

lemma written_supported:
  assumes "write_cas_manifest sha since deleted changed base cas cache = (Inr (m, n), cas', cache')"
    and "(p, FsOther fmt mtime) \<in> set (walked base)"
  shows False
proof -
  have fail: "(p, FsOther fmt mtime) \<in> set xs \<Longrightarrow> sfor (write_one sha since changed) xs w = (Inr (), w') \<Longrightarrow> False" for xs w w'
  proof (induction xs arbitrary: w)
    case (Cons x xs)
    obtain w1 where "write_one sha since changed x w = (Inr (), w1)" "sfor (write_one sha since changed) xs w1 = (Inr (), w')"
      using Cons.prems(2) by (auto simp: sbind_def split: prod.splits sum.splits)
    moreover have "write_one sha since changed (p, FsOther fmt mtime) w \<noteq> (Inr (), w1)"
      by (simp add: write_one_def sm_defs checkpoint_entry_type_def supported_entry_type_def)
    ultimately show ?case using Cons.IH Cons.prems(1) by auto
  qed simp
  let ?w = "\<lparr>wr_cas = cas, wr_cache = cache, wr_entries = [], wr_bytes = 0\<rparr>"
  obtain r w1 where loop: "sfor (write_one sha since changed) (walked base) ?w = (r, w1)" by force
  then have "r = Inr ()"
    using assms(1)
    by (cases r) (auto simp: write_cas_manifest_def write_walk_def Let_def split_def sbind_def split: sum.splits)
  then show False using fail [OF assms(2)] loop by blast
qed


subsection \<open>Verification\<close>

lemma verified_snapshots:
  assumes "verify_snapshots walk overlay st = (Inr snap, st')"
  shows "\<exists>st1 other. walk st = (Inr snap, st1) \<and> overlay st1 = (Inr other, st')
     \<and> checkpoint_manifest_differences snap other = Inr []"
proof -
  obtain w st1 where w: "walk st = (w, st1)" by force
  obtain v st2 where v: "overlay st1 = (v, st2)" by force
  show ?thesis using assms w v
    by (auto simp: verify_snapshots_def sbind_def sattempt_def slift_def sraise_def sret_def split: sum.splits if_splits)
qed

lemma no_differences:
  assumes "checkpoint_manifest_differences a b = Inr []"
  shows "\<exists>ea eb. normalized_manifest_entries a = Inr ea \<and> normalized_manifest_entries b = Inr eb \<and> same_dict ea eb
     \<and> (\<exists>d. normalized_deleted_paths a = Inr d \<and> normalized_deleted_paths b = Inr d)"
  using assms
  by (auto simp: checkpoint_manifest_differences_def entry_differences_def rbind_eq_Inr Let_def split: if_splits)

lemma normalized_dget:
  assumes "normalized_manifest_entries snap = Inr es" "pget (sb_disk_state snap) ''entries'' = PDict entries"
  shows "dget es p = map_option normalized_manifest_entry (dget entries p)"
  using assms by (auto simp: normalized_manifest_entries_def dget_map_values)

lemma manifest_snapshot_entries:
  assumes "manifest_snapshot env path m kind inc since chain extra dir ts = Inr snap"
  shows "pget (sb_disk_state snap) ''entries'' = pget m ''entries'' \<and> sb_timestamp_ns snap = ts"
  using assms by (auto simp: manifest_snapshot_def rbind_eq_Inr read_manifest_def pget_def split: pyval.splits option.splits)

text \<open>The first capture of a container through the walk is a full one, whatever the time it is to be incremental to.\<close>

lemma first_container_capture:
  assumes "capture_container_snapshot env ns cv (Some s) st = (Inr snap, st1)" "bs_entries st = None"
    and "cv_walk cv = Inr walk" "dict_ok walk"
  shows "\<exists>entries. pget (sb_disk_state snap) ''entries'' = PDict entries \<and>
     (\<forall>p. dget entries p = (if checkpoint_relpath_is_skipped p then None else
        case dget walk p of None \<Rightarrow> None
        | Some n \<Rightarrow> if sn_node n \<noteq> NDir then Some (PDict (changed_value (be_sha env) n)) else None))"
proof -
  obtain r cas where run: "run_container_checkpoint (be_sha env) cv (bs_cas st) (snapshot_path env ns) (Some (sb_timestamp_ns s)) None False = (r, cas)"
    by force
  have noskip: "r \<noteq> CkSkipped"
    using run by (auto simp: run_container_checkpoint_def Let_def split: sum.splits prod.splits option.splits if_splits)
  then obtain ok where ok: "r = CkOk ok"
    using assms(1,2) run by (cases r) (auto simp: capture_container_snapshot_def since_of_def Let_def)
  then have snap: "manifest_snapshot env (snapshot_path env ns) (ck_manifest ok) (ck_kind ok) (ck_incremental ok) (since_of (Some s))
      (ck_chain_bytes ok) [(''_checkpoint_state'', checkpoint_state_json ok)] ''/testbed'' (ck_now_ns ok) = Inr snap"
    using assms(1,2) run by (simp add: capture_container_snapshot_def since_of_def Let_def)
  note manifest_snapshot_entries [OF this, THEN conjunct1]
  moreover have "\<exists>entries. pget (ck_manifest ok) ''entries'' = PDict entries"
    using snap by (auto simp: manifest_snapshot_def read_manifest_def rbind_eq_Inr split: pyval.splits)
  ultimately show ?thesis
    using container_checkpoint_manifest [OF run [unfolded ok] assms(3,4)]
    by (auto simp: checkpoint_entry_requires_manifest_def split: option.splits)
qed

lemma overlay_capture_entries:
  assumes "overlay_capture_snapshot env v since st = (Inr snap, st')" "ov_at_scan v = Some base" "fs_ok base"
  shows "\<exists>entries. pget (sb_disk_state snap) ''entries'' = PDict entries \<and>
     (\<forall>p. dget entries p = (case dget (walked base) p of None \<Rightarrow> None
        | Some e \<Rightarrow> if picked (since_of since) (p, e) then Some (manifest_entry (be_sha env) e) else None))"
proof -
  obtain changed deleted blobs
    where scan: "scan_upperdir (be_sha env) (since_of since) (ov_zero_device v) (Some base) = Inr (changed, deleted, blobs)"
    using assms(1,2) by (auto simp: overlay_capture_snapshot_def rbind_def split: sum.splits)
  obtain es cas' n where w: "write_container_manifest (be_sha env) (bs_cas st) changed deleted blobs =
       Inr ([(''entries'', PDict es), (''deleted_paths'', PList (map PStr
              (sort (filter (\<lambda>p. \<not> checkpoint_relpath_is_skipped p) deleted))))], cas', n)"
    and es: "\<And>p. dget es p = (case dget (walked base) p of None \<Rightarrow> None
        | Some e \<Rightarrow> if picked (since_of since) (p, e) then Some (manifest_entry (be_sha env) e) else None)"
    by (rule scan_written [OF assms(3) scan]) blast
  obtain u where "ov_resolved v = Inr u" using assms(1) by (cases "ov_resolved v") (auto simp: overlay_capture_snapshot_def)
  then have "pget (sb_disk_state snap) ''entries'' = PDict es"
    using assms(1,2) scan w
    by (auto simp: overlay_capture_snapshot_def Let_def pget_def dest!: manifest_snapshot_entries split: sum.splits bool.splits)
  then show ?thesis using es by blast
qed

text \<open>C40: in the verifying mode the first snapshot of a container fails whenever the container has a file or link that was not
  touched since its start: the walk lists the whole tree, the overlay only what is newer.\<close>

theorem first_verification_fails:
  assumes "bs_entries st = None" "cv_walk cv = Inr walk" "dict_ok walk"
    and "dget walk p = Some n" "sn_node n \<noteq> NDir" "\<not> checkpoint_relpath_is_skipped p"
    and "ov_at_scan v = Some base" "fs_ok base" "\<not> (\<exists>e. dget (walked base) p = Some e \<and> start < snd (fs_size_mtime e))"
  shows "\<exists>e. fst (docker_capture_snapshot env ''verify'' (Some cid) (Some start) ns cv hv v None st) = Inl e"
proof (rule ccontr)
  let ?s = "marker_snapshot (be_root env) start"
  assume "\<not> ?thesis"
  then obtain snap st' where "docker_capture_snapshot env ''verify'' (Some cid) (Some start) ns cv hv v None st = (Inr snap, st')"
    by (metis prod.collapse sum.exhaust)
  then have "verify_snapshots (capture_container_snapshot env ns cv (Some ?s)) (overlay_capture_snapshot env v (Some ?s)) st = (Inr snap, st')"
    by (simp add: docker_capture_snapshot_def capture_verified_snapshot_def)
  from verified_snapshots [OF this] obtain st1 other where cap: "capture_container_snapshot env ns cv (Some ?s) st = (Inr snap, st1)"
    "overlay_capture_snapshot env v (Some ?s) st1 = (Inr other, st')" and diff: "checkpoint_manifest_differences snap other = Inr []" by blast
  obtain we where we: "pget (sb_disk_state snap) ''entries'' = PDict we" "dget we p = Some (PDict (changed_value (be_sha env) n))"
    using first_container_capture [OF cap(1) assms(1-3)] assms(4-6) by auto
  obtain oe where oe: "pget (sb_disk_state other) ''entries'' = PDict oe" "dget oe p = None"
  proof -
    have np: "\<not> picked (since_of (Some ?s)) (p, e)" if "dget (walked base) p = Some e" for e
      using assms(9) that by (auto simp: picked_def selected_iff left_out_def since_of_def marker_snapshot_def)
    obtain entries where en: "pget (sb_disk_state other) ''entries'' = PDict entries"
      "dget entries p = (case dget (walked base) p of None \<Rightarrow> None
        | Some e \<Rightarrow> if picked (since_of (Some ?s)) (p, e) then Some (manifest_entry (be_sha env) e) else None)"
      using overlay_capture_entries [OF cap(2) assms(7,8)] by blast
    have "dget entries p = None" using en(2) np by (cases "dget (walked base) p") simp_all
    with en(1) show ?thesis by (rule that)
  qed
  obtain ea eb where ea: "normalized_manifest_entries snap = Inr ea" "normalized_manifest_entries other = Inr eb" "same_dict ea eb"
    using no_differences [OF diff] by blast
  have "dget ea p \<noteq> None" "dget eb p = None"
    using normalized_dget [OF ea(1) we(1), of p] normalized_dget [OF ea(2) oe(1), of p] we(2) oe(2) by simp_all
  moreover obtain x where "(p, x) \<in> set ea" using calculation(1) dget_SomeD by fastforce
  ultimately show False using ea(3) by (auto simp: same_dict_def list_all_iff)
qed

text \<open>A snapshot that passed the verification: the walk and the overlay list the same paths with the same content.\<close>

lemma verified_entries_agree:
  assumes "capture_verified_snapshot env cid start ns cv v since st = (Inr snap, st')"
  shows "\<exists>s other st1. overlay_capture_snapshot env v (Some s) st1 = (Inr other, st')
     \<and> checkpoint_manifest_differences snap other = Inr []"
  using assms verified_snapshots
  by (fastforce simp: capture_verified_snapshot_def sraise_def split: option.splits if_splits)

subsection \<open>Examples\<close>

lemma example_scan:
  "scan_upperdir id None (\<lambda>_. False) (Some example_dir) =
     Inr ([(''a'', [(''hash'', PStr ''one''), (''mode'', PInt 420), (''size'', PInt 3), (''mtime_ns'', PInt 10)]),
           (''b'', [(''type'', PStr ''symlink''), (''target'', PStr ''a'')]),
           (''sub/x'', [(''hash'', PStr ''ex''), (''mode'', PInt 420), (''size'', PInt 2), (''mtime_ns'', PInt 11)])],
          [], [(''a'', ''one''), (''sub/x'', ''ex'')])"
  by code_simp


definition test_env :: backend_env where
  "test_env = \<lparr>be_sha = id, be_size = (\<lambda>m. 0), be_root = ''/testbed'', be_dir = ''/out''\<rparr>"

definition fresh_backend :: backend_state where
  "fresh_backend = \<lparr>bs_entries = None, bs_cache = [], bs_cas = Map.empty, bs_manifests = []\<rparr>"

text \<open>A container whose image has one file, and which has changed nothing since its start at time 20.\<close>

definition image_view :: container_view where
  "image_view = \<lparr>cv_probe = Inr (), cv_walk = Inr [(''README'', \<lparr>sn_node = NFile ''hi'' 420, sn_size = 2, sn_mtime = 5\<rparr>)],
     cv_now_ns = 30, cv_changed_during_walk = False, cv_fetch = (\<lambda>ps. Inr [(''README'', ''hi'')])\<rparr>"

definition untouched_upper :: overlay_view where
  "untouched_upper = \<lparr>ov_resolved = Inr ''/upper'', ov_marker_ns = 30, ov_at_scan = Some (FsDir 10 True []),
     ov_zero_device = (\<lambda>p. False), ov_at_check = Some (FsDir 10 True [])\<rparr>"

theorem first_verification_fails_witness:
  "\<exists>e. fst (docker_capture_snapshot test_env ''verify'' (Some ''c1'') (Some 20) 30 image_view example_host_view untouched_upper None fresh_backend) = Inl e"
  by (rule first_verification_fails [where p = "''README''" and base = "FsDir 10 True []"
        and n = "\<lparr>sn_node = NFile ''hi'' 420, sn_size = 2, sn_mtime = 5\<rparr>"
        and walk = "[(''README'', \<lparr>sn_node = NFile ''hi'' 420, sn_size = 2, sn_mtime = 5\<rparr>)]"])
    (simp_all add: fresh_backend_def image_view_def untouched_upper_def checkpoint_relpath_is_skipped_def checkpoint_skip_dirs_def)

lemma verification_names_the_file:
  "fst (capture_verified_snapshot test_env (Some ''c1'') (Some 20) 30 image_view untouched_upper None fresh_backend)
     = Inl (RuntimeError ''checkpoint backend verification failed'')"
  by code_simp

text \<open>A container that has written nothing below the root has no upper directory for it: the scan takes that for an
  empty directory, the probe after it does not, and the manifest stays behind.\<close>

lemma overlay_without_upper_root_fails:
  assumes "ov_resolved v = Inr u" "ov_at_scan v = None" "ov_at_check v = None"
  shows "overlay_capture_snapshot env v since st =
     (Inl (RuntimeError ''OverlayBackend: upperdir not resolved''),
      st\<lparr>bs_manifests := dput (snapshot_path env (ov_marker_ns v))
           [(''entries'', PDict []), (''deleted_paths'', PList [])] (bs_manifests st)\<rparr>)"
  using assms
  by (simp add: overlay_capture_snapshot_def scan_upperdir_def probe_upper_since_def write_container_manifest_def Let_def)

text \<open>The overlay file system of the kernel marks the deletion of \<open>old.txt\<close> by a character device 0/0 with that very name;
  the scan takes it for an unsupported entry.\<close>

lemma kernel_whiteout_is_refused:
  "scan_upperdir sha None (\<lambda>p. True) (Some (FsDir 10 True [(''old.txt'', FsOther 8192 40)]))
     = Inl (OSError ''unsupported overlay checkpoint entry type'')"
  by (simp add: scan_upperdir_def child_path_def checkpoint_skip_dirs_def scan_upper_entry_def
      checkpoint_relpath_is_skipped_def is_overlay_whiteout_def checkpoint_entry_type_def path_name_def path_parts_def starts_with_def)

text \<open>Where every directory can be listed, the probe script of the container decides as the host does.\<close>

fun all_listed :: "fs \<Rightarrow> bool" where
  "all_listed (FsDir mtime listed children) = (listed \<and> list_all (\<lambda>(name, e). is_fs_dir e \<longrightarrow> all_listed e) children)"
| "all_listed e = False"

lemma probe_below_eq: "all_listed base \<Longrightarrow> probe_below marker base = newer_below marker base"
proof (induction marker base rule: probe_below.induct)
  case (1 marker mtime listed children)
  have "list_ex (\<lambda>(name, e). if (is_fs_dir e \<or> is_dir_link e) \<and> name \<in> checkpoint_skip_dirs then False
        else entry_is_newer marker e \<or> (is_fs_dir e \<and> probe_below marker e)) children
      = list_ex (\<lambda>(name, e). if (is_fs_dir e \<or> is_dir_link e) \<and> name \<in> checkpoint_skip_dirs then False
        else entry_is_newer marker e \<or> (is_fs_dir e \<and> newer_below marker e)) children"
  proof (rule list_ex_cong [OF refl])
    fix x assume x: "x \<in> set children"
    obtain name e where e: "x = (name, e)" by force
    have "is_fs_dir e \<Longrightarrow> all_listed e" using 1(2) x e by (auto simp: list_all_iff)
    then have "is_fs_dir e \<Longrightarrow> name \<notin> checkpoint_skip_dirs \<Longrightarrow> probe_below marker e = newer_below marker e"
      using 1(1) [OF x e [symmetric]] by simp
    then show "(case x of (name, e) \<Rightarrow> if (is_fs_dir e \<or> is_dir_link e) \<and> name \<in> checkpoint_skip_dirs then False
        else entry_is_newer marker e \<or> (is_fs_dir e \<and> probe_below marker e))
      = (case x of (name, e) \<Rightarrow> if (is_fs_dir e \<or> is_dir_link e) \<and> name \<in> checkpoint_skip_dirs then False
        else entry_is_newer marker e \<or> (is_fs_dir e \<and> newer_below marker e))"
      using e by auto
  qed
  then show ?case using 1(2) by simp
qed simp_all

lemma probes_agree: "all_listed base \<Longrightarrow> (probe_script marker base = 0) = any_file_newer_than base marker"
  by (simp add: probe_script_def any_file_newer_than_def probe_below_eq)

end
