(* ===== verification/Spec2Isabelle.thy ===== *)
theory Spec2Isabelle
  imports CasCapture CasRestore ReplayQueue ReplaySafety AgentRunner AgentMemory TraceRecorder ContainerEngine AgentTransport ResourceTimeout SessionLifecycle CasPrune SandboxBackends
begin

text \<open>
  A model of \<^verbatim>\<open>agent-sched-bench\<close>: a benchmark that runs coding agents in task containers,
  records what they do as traces, and replays the traces under load to measure how an inference
  service schedules them. The development models the Python code under \<^verbatim>\<open>src/src\<close> that decides
  what such a measurement means: the agent loop that produces a trace, the checkpoints of the
  sandbox, the recorder, the replay of recorded sessions, the comparison of outcomes, and the
  containers, agents and files all this runs on.

  \<^bold>\<open>How the parts interact.\<close> Collection: \<^verbatim>\<open>AgentRunner\<close> asks a provider (\<^verbatim>\<open>llm_call\<close>) for the next
  step, runs tools through a registry (\<^verbatim>\<open>tools/registry.py\<close>) and keeps a message history that the
  session files, the memory and the context window are cut from; \<^verbatim>\<open>TraceCollectorHook\<close> hears every
  step, writes one record per model call and tool call, and takes a checkpoint after the tool
  calls that changed the tree. Replay: \<^verbatim>\<open>simulate\<close> loads a manifest of traces, prepares one
  container per trace, and replays its actions in recorded order: model calls are waited for,
  tool calls are executed by an agent process in the container, the outcome is compared with the
  recorded one by the mismatch oracle, and after a divergence the recorded checkpoint is restored.

  \<^bold>\<open>Theories and sources.\<close>
  \<^item> \<^verbatim>\<open>Prelude\<close>, \<^verbatim>\<open>PyString\<close>, \<^verbatim>\<open>PyText\<close>, \<^verbatim>\<open>PyJson\<close>, \<^verbatim>\<open>JsonPrint\<close>, \<^verbatim>\<open>StateErr\<close>: Python values, errors as
    the left summand, ordered dictionaries (the locale \<^verbatim>\<open>keyed_store\<close>), strings, the JSON reader and
    printer with their round trip, and computations that change a state and may raise, with
    structural rules (\<^verbatim>\<open>keeps\<close>, \<^verbatim>\<open>triple\<close>, \<^verbatim>\<open>costs\<close>).
  \<^item> \<^verbatim>\<open>MismatchOracle\<close>: \<^verbatim>\<open>trace_collect/mismatch.py\<close>, refined against its tiered contract.
  \<^item> \<^verbatim>\<open>CasManifest\<close>, \<^verbatim>\<open>CasCapture\<close>, \<^verbatim>\<open>CasRestore\<close>, \<^verbatim>\<open>HostCheckpoint\<close>, \<^verbatim>\<open>CasPrune\<close>: checkpoints as manifests
    over a content-addressed store: fold of a chain, capture in a container
    (\<^verbatim>\<open>agents/openclaw/_checkpoint_container.py\<close>) and on the host (\<^verbatim>\<open>_session_runner.py\<close>), restore in
    the simulator, and pruning (\<^verbatim>\<open>scripts/prune_checkpoint_cas.py\<close>).
  \<^item> \<^verbatim>\<open>ToolOutcome\<close>, \<^verbatim>\<open>ReplayPlan\<close>, \<^verbatim>\<open>ReplayQueue\<close>, \<^verbatim>\<open>ReplayLoop\<close>, \<^verbatim>\<open>ReplaySafety\<close>, \<^verbatim>\<open>SessionLifecycle\<close>:
    \<^verbatim>\<open>trace_collect/simulator.py\<close>: outcomes, manifest and timing, the work queue, the replay of one
    session, what a source replay leaves alone, and the life of prepared sessions and images.
  \<^item> \<^verbatim>\<open>TraceTools\<close>, \<^verbatim>\<open>ResourceTimeout\<close>, \<^verbatim>\<open>AgentTransport\<close>: \<^verbatim>\<open>trace_collect/openclaw_tools.py\<close>: requests,
    the script of the agent in the container, its resource-integrated timeout, and the pipe to it.
  \<^item> \<^verbatim>\<open>ContainerEngine\<close>: \<^verbatim>\<open>harness/container_image_prep.py\<close> and the container functions of
    \<^verbatim>\<open>trace_collect/attempt_pipeline.py\<close>.
  \<^item> \<^verbatim>\<open>ToolSchema\<close>, \<^verbatim>\<open>AgentSession\<close>, \<^verbatim>\<open>AgentTurn\<close>, \<^verbatim>\<open>LlmProvider\<close>, \<^verbatim>\<open>AgentContext\<close>, \<^verbatim>\<open>AgentRunner\<close>,
    \<^verbatim>\<open>AgentMemory\<close>: the agent of \<^verbatim>\<open>agents/openclaw\<close> and the retries of \<^verbatim>\<open>llm_call/provider_base.py\<close>.
  \<^item> \<^verbatim>\<open>TraceRecorder\<close>, \<^verbatim>\<open>CommandPolicy\<close>: the recording hook, latency metrics and composite hooks; the
    command classifier of \<^verbatim>\<open>trace_collect/predictive_policy.py\<close>.
  \<^item> \<^verbatim>\<open>FakeSandbox\<close>, \<^verbatim>\<open>SandboxBackends\<close>: \<^verbatim>\<open>agents/sandbox_runtime.py\<close>: responses, the sandbox in memory, the walk and
    overlay checkpoint backends and the verification of one against the other; the container
    backend's start and stop are in \<^verbatim>\<open>SessionLifecycle\<close>.
  \<^bold>\<open>How code becomes HOL.\<close> A function is a definition of the same name without a leading underscore;
  a dataclass is a record; a dictionary is an association list in insertion order. A statement
  that may raise gives a value of \<^typ>\<open>'a res\<close> or, with state, of \<^typ>\<open>('s, 'a) sm\<close>; \<^verbatim>\<open>try\<close>, \<^verbatim>\<open>except\<close>
  and \<^verbatim>\<open>finally\<close> are combinators on these. What the code asks of the world (files, processes,
  clocks, hashing, tokenizers, HTTP) is a field of an environment record, an argument of the
  definitions; laws about it, such as a clock that does not go back, are named hypotheses of the
  theorems that need them. Interfaces are locales, each interpreted on the model: stores of keyed
  values, heaps that only grow, monotone chains.

  \<^bold>\<open>Loops.\<close> Loops over data are structural recursion. The retry loops, the agent iterations and the
  polls carry the bound of the code (attempts, \<^verbatim>\<open>max_iterations\<close>, fifty stray lines). Where the code
  has none, the fuel is justified by a lemma: the queue ends because every step consumes an item
  or ends a worker, the wait for a removal ends because the clock reaches the deadline within 121
  polls (\<^verbatim>\<open>wait_removed_fuel\<close>), and the resource-integrated timeout ends because each poll lowers a
  potential (\<^verbatim>\<open>resource_timeout_ends\<close>). The JSON reader has fuel linear in its input.

  \<^bold>\<open>What the lemmas show.\<close> For the oracle, a refinement of its contract; for checkpoints, that the
  chain alone determines the fold, that capture keeps the store sound, that restoring gives the
  manifest, that host and container agree; for replay, that every action is accounted for, that
  only a verified restore continues, that denied commands never reach the container; for the
  agent, that histories stay legal, that every call is answered in order, that requests, retries
  and rounds are bounded; for the recorder, that the file is complete and that the deltas rebuild
  the history; for containers, that they run as root, that a stop that returns is confirmed, that
  no request reaches an agent process twice.

  \<^bold>\<open>Limits of the model.\<close> Characters are 8-bit and \<^verbatim>\<open>lower\<close> is ASCII; floats are exact rationals.
  Cancellation of a coroutine is not distinguished from the other exceptions where the code treats
  them alike, and is left out elsewhere. Concurrent workers are interleaved at the awaits of the
  queue; inside one session the code is sequential.

  \<^bold>\<open>Not modelled.\<close> Network and process input and output themselves, the samplers of \<^verbatim>\<open>/proc\<close>, cgroups
  and the container engine, the command line, web, MCP and skill tools, the adapters to external
  benchmarks and agents, figures, demos and tests: they are glue to services this development has
  no source for, or have no contract beyond what they print.
\<close>

end
